(* ===== verification/Prelude.thy ===== *)
theory Prelude
  imports Main "HOL-Library.Word"
begin

text \<open>
  Shared vocabulary of the Mini-GPU development: the machine integer types of the
  C and C++ sources, the state-and-exception combinators every stateful operation is written
  in, decimal and hexadecimal rendering of numbers (the \<open>std::ostream\<close> formatting the
  runtime log uses), and the generic lemmas on words, lists and the combinators that the
  component theories share.
\<close>

unbundle bit_operations_syntax

named_theorems run_simps \<open>unfolding rules for state-and-exception computations\<close>
named_theorems layout_simps \<open>rules about block lists and address ranges\<close>

section \<open>Machine integers\<close>

type_synonym u8 = "8 word"
type_synonym u16 = "16 word"
type_synonym u32 = "32 word"
type_synonym u64 = "64 word"
type_synonym bytes = "u8 list"

text \<open>\<open>DeviceAddress\<close> is \<open>std::uint32_t\<close> and \<open>std::size_t\<close> has 64 bits.\<close>

abbreviation widen :: "u32 \<Rightarrow> u64" where
  "widen a \<equiv> ucast a"

abbreviation narrow :: "u64 \<Rightarrow> u32" where
  "narrow a \<equiv> ucast a"

lemma unat_widen [simp]: "unat (widen a) = unat a"
  by (simp add: unsigned_ucast_eq take_bit_nat_eq_self order_less_trans [OF unsigned_less])

lemma unat_narrow: "unat (narrow a) = unat a mod 2 ^ 32"
  by (simp add: unsigned_ucast_eq take_bit_eq_mod)

lemma unat_narrow_small [simp]: "unat a < 2 ^ 32 \<Longrightarrow> unat (narrow a) = unat a"
  by (simp add: unat_narrow)

lemma unat_u64_lt: "unat (a :: u64) < 2 ^ 64"
  using unsigned_less [of a] by simp

lemma unat_u32_lt: "unat (a :: u32) < 2 ^ 32"
  using unsigned_less [of a] by simp

lemma unat_add_small:
  fixes a b :: "'a::len word"
  assumes "unat a + unat b < 2 ^ LENGTH('a)"
  shows "unat (a + b) = unat a + unat b"
  using assms by (simp add: unat_word_ariths)

lemma unat_sub_le:
  fixes a b :: "'a::len word"
  assumes "unat b \<le> unat a"
  shows "unat (a - b) = unat a - unat b"
  using assms by (simp add: unat_sub_if')

lemma image_Collect_eq:
  "(\<And>x. Q (f x) \<longleftrightarrow> P x) \<Longrightarrow> f ` {x \<in> A. P x} = {y \<in> f ` A. Q y}"
  by auto

lemma ucast_byte_mask: "(ucast (v AND 0xff :: u32) :: u8) = ucast v"
proof -
  have "(0xff :: u32) = mask 8" by (simp add: mask_eq_exp_minus_1)
  then show ?thesis by (simp add: bit_eq_iff bit_simps)
qed

lemma join_four_bytes:
  "ucast (ucast v :: u8) OR push_bit 8 (ucast (ucast (drop_bit 8 v) :: u8))
     OR push_bit 16 (ucast (ucast (drop_bit 16 v) :: u8)) OR push_bit 24 (ucast (ucast (drop_bit 24 v) :: u8))
   = (v :: u32)" (is "?l = v")
proof (rule bit_word_eqI)
  fix n assume "n < LENGTH(32)"
  then consider "n < 8" | "8 \<le> n" "n < 16" | "16 \<le> n" "n < 24" | "24 \<le> n" "n < 32" by fastforce
  then show "bit ?l n \<longleftrightarrow> bit v n"
    by cases (auto simp: bit_or_iff bit_push_bit_iff bit_unsigned_iff bit_drop_bit_eq)
qed

section \<open>State and exceptions\<close>

text \<open>
  A C++ operation that may throw and that mutates a state of type \<open>'s\<close> is a function
  \<open>'s \<Rightarrow> ('e + 'a) \<times> 's\<close>: \<open>Inl\<close> is the exception in flight, and the state is
  the one in which it was thrown, since throwing undoes nothing.
\<close>

type_synonym ('s, 'e, 'a) action = "'s \<Rightarrow> ('e + 'a) \<times> 's"

definition ret :: "'a \<Rightarrow> ('s, 'e, 'a) action" where
  "ret x s = (Inr x, s)"

definition throw :: "'e \<Rightarrow> ('s, 'e, 'a) action" where
  "throw e s = (Inl e, s)"

definition andThen ::
    "('s, 'e, 'a) action \<Rightarrow> ('a \<Rightarrow> ('s, 'e, 'b) action) \<Rightarrow> ('s, 'e, 'b) action" where
  "andThen m f s = (case m s of (Inl e, s') \<Rightarrow> (Inl e, s') | (Inr x, s') \<Rightarrow> f x s')"

definition unless_throw :: "bool \<Rightarrow> 'e \<Rightarrow> ('s, 'e, unit) action" where
  "unless_throw ok e = (if ok then ret () else throw e)"

definition gets :: "('s \<Rightarrow> 'a) \<Rightarrow> ('s, 'e, 'a) action" where
  "gets f s = (Inr (f s), s)"

definition modify :: "('s \<Rightarrow> 's) \<Rightarrow> ('s, 'e, unit) action" where
  "modify f s = (Inr (), f s)"

definition of_sum :: "('e + 'a) \<Rightarrow> ('s, 'e, 'a) action" where
  "of_sum r s = (r, s)"

lemma ret_run [simp, run_simps]: "ret x s = (Inr x, s)"
  by (simp add: ret_def)

lemma throw_run [simp, run_simps]: "throw e s = (Inl e, s)"
  by (simp add: throw_def)

lemma gets_run [simp, run_simps]: "gets f s = (Inr (f s), s)"
  by (simp add: gets_def)

lemma modify_run [simp, run_simps]: "modify f s = (Inr (), f s)"
  by (simp add: modify_def)

lemma of_sum_run [simp, run_simps]: "of_sum r s = (r, s)"
  by (simp add: of_sum_def)

lemma unless_throw_run [simp, run_simps]:
  "unless_throw ok e s = (if ok then (Inr (), s) else (Inl e, s))"
  by (simp add: unless_throw_def)

lemma andThen_Inr [run_simps]: "m s = (Inr x, s') \<Longrightarrow> andThen m f s = f x s'"
  by (simp add: andThen_def)

lemma andThen_Inl [run_simps]: "m s = (Inl e, s') \<Longrightarrow> andThen m f s = (Inl e, s')"
  by (simp add: andThen_def)

lemma andThen_okE:
  assumes "andThen m f s = (Inr y, s'')"
  obtains x s' where "m s = (Inr x, s')" and "f x s' = (Inr y, s'')"
  using assms by (auto simp: andThen_def split: prod.splits sum.splits)

lemma andThen_errE:
  assumes "andThen m f s = (Inl e, s'')"
  obtains "m s = (Inl e, s'')"
    | x s' where "m s = (Inr x, s')" and "f x s' = (Inl e, s'')"
  using assms by (auto simp: andThen_def split: prod.splits sum.splits)

lemma andThen_assoc: "andThen (andThen m f) g = andThen m (\<lambda>x. andThen (f x) g)"
  by (rule ext) (auto simp: andThen_def split: prod.splits sum.splits)

lemma andThen_cong_state: "m s = m' s \<Longrightarrow> andThen m f s = andThen m' f s"
  by (simp add: andThen_def)

lemma ret_andThen [simp]: "andThen (ret x) f = f x"
  by (rule ext) (simp add: andThen_def)

text \<open>A property of the state that both parts of a sequence keep is kept by the sequence.\<close>

lemma andThen_preserves:
  assumes "P s"
    and "\<And>s. P s \<Longrightarrow> P (snd (m s))"
    and "\<And>x s. P s \<Longrightarrow> P (snd (f x s))"
  shows "P (snd (andThen m f s))"
  using assms by (auto simp: andThen_def split: prod.splits sum.splits) (metis snd_conv)+

section \<open>Rendering numbers\<close>

text \<open>What \<open>operator<<\<close> prints for an unsigned value in base \<open>b\<close>, lower-case digits.\<close>

definition digit_char :: "nat \<Rightarrow> char" where
  "digit_char d = (if d < 10 then char_of (48 + d) else char_of (87 + d))"

fun render_base :: "nat \<Rightarrow> nat \<Rightarrow> string" where
  "render_base b n =
     (if n < b \<or> b < 2 then [digit_char n]
      else render_base b (n div b) @ [digit_char (n mod b)])"

declare render_base.simps [simp del]

definition dec :: "nat \<Rightarrow> string" where
  "dec n = render_base 10 n"

definition hex :: "nat \<Rightarrow> string" where
  "hex n = render_base 16 n"

section \<open>Byte-addressed memories\<close>

definition store :: "nat \<Rightarrow> bytes \<Rightarrow> (nat \<Rightarrow> u8) \<Rightarrow> nat \<Rightarrow> u8" where
  "store a bs m x = (if a \<le> x \<and> x < a + length bs then bs ! (x - a) else m x)"

definition load :: "nat \<Rightarrow> nat \<Rightarrow> (nat \<Rightarrow> u8) \<Rightarrow> bytes" where
  "load a n m = map m [a ..< a + n]"

lemma length_load [simp]: "length (load a n m) = n"
  by (simp add: load_def)

lemma nth_load: "i < n \<Longrightarrow> load a n m ! i = m (a + i)"
  by (simp add: load_def)

lemma load_store_same [simp]: "load a (length bs) (store a bs m) = bs"
  by (rule nth_equalityI) (simp_all add: nth_load store_def)

lemma load_store_part:
  assumes "a \<le> b" and "b + n \<le> a + length bs"
  shows "load b n (store a bs m) = take n (drop (b - a) bs)"
  using assms by (intro nth_equalityI) (auto simp: nth_load store_def min_def)

lemma load_store_apart:
  assumes "b + n \<le> a \<or> a + length bs \<le> b"
  shows "load b n (store a bs m) = load b n m"
  using assms by (intro nth_equalityI) (auto simp: nth_load store_def)

lemma store_append: "store a (xs @ ys) m = store (a + length xs) ys (store a xs m)"
  by (rule ext) (auto simp: store_def nth_append)

lemma store_Nil [simp]: "store a [] m = m"
  by (rule ext) (auto simp: store_def)

lemma load_append: "load a (n + k) m = load a n m @ load (a + n) k m"
  by (simp add: load_def upt_add_eq_append [of a "a + n" k, simplified] flip: add.assoc)

end
