(* ===== verification/Status.thy ===== *)
theory Status
  imports Prelude
begin

text \<open>
  The runtime's status codes, their messages, the exceptions in flight and the \<open>check\<close>
  helper (\<open>runtime/include/minigpu_runtime.hpp\<close>, \<open>runtime/src/minigpu_runtime.cpp\<close>).
  Beside \<open>minigpu::Error\<close> an exception can be another standard exception, such as
  \<open>std::runtime_error\<close> or \<open>std::length_error\<close>: \<open>Runtime_error\<close>. Two outcomes
  that C++ has no value for are kept apart from every defined one: \<open>Undefined\<close> for a step with
  undefined behaviour (an integer division by zero) and \<open>Diverges\<close> for a wait loop that never
  returns.
\<close>

datatype status =
    Ok | BadArgument | NoMemory | OutOfRange | NotFound
  | Transport | Timeout | Unsupported | DivideByZero

definition status_message :: "status \<Rightarrow> string" where
  "status_message s =
     (case s of
        Ok \<Rightarrow> ''ok''
      | BadArgument \<Rightarrow> ''bad argument''
      | NoMemory \<Rightarrow> ''out of device or host memory''
      | OutOfRange \<Rightarrow> ''address range is outside Mini-GPU memory''
      | NotFound \<Rightarrow> ''allocation was not found''
      | Transport \<Rightarrow> ''transport operation failed''
      | Timeout \<Rightarrow> ''operation timed out''
      | Unsupported \<Rightarrow> ''Mini-GPU device reported an unsupported operation''
      | DivideByZero \<Rightarrow> ''Mini-GPU device reported divide by zero'')"

datatype exn =
    Error status string
  | Runtime_error string
  | Undefined string
  | Diverges

text \<open>\<open>Error(status)\<close>: the message is the status message.\<close>

definition error :: "status \<Rightarrow> exn" where
  "error s = Error s (status_message s)"

fun error_status :: "exn \<Rightarrow> status option" where
  "error_status (Error s _) = Some s"
| "error_status _ = None"

definition check :: "status \<Rightarrow> ('s, exn, unit) action" where
  "check s = (if s \<noteq> Ok then throw (error s) else ret ())"

lemma check_run [simp, run_simps]:
  "check s st = (if s = Ok then (Inr (), st) else (Inl (error s), st))"
  by (simp add: check_def)

lemma error_status_error [simp]: "error_status (error s) = Some s"
  by (simp add: error_def)

lemma error_inject [simp]: "error s = error t \<longleftrightarrow> s = t"
  by (auto simp: error_def)

text \<open>The messages tell the status codes apart.\<close>

lemma status_message_inject: "status_message s = status_message t \<longleftrightarrow> s = t"
  by (cases s; cases t) (simp_all add: status_message_def)

end
