(* ===== verification/Blocks.thy ===== *)
theory Blocks
  imports Status
begin

text \<open>
  The block lists both allocators of \<open>Context\<close> keep (\<open>blocks_\<close> for device memory,
  \<open>program_blocks_\<close> for instruction memory): the alignment helpers, the coalescing loop that
  the two share, and the facts that hold of any list tiling an address range. The coalescing loop
  is modelled with the index the code runs over the vector, and proved equal to a structural
  recursion that the rest of the development reasons with.
\<close>

record block =
  boffset :: u32
  bsize :: u64
  bfree :: bool

section \<open>Alignment and address arithmetic\<close>

definition align_up_size :: "u64 \<Rightarrow> u64 \<Rightarrow> u64" where
  "align_up_size val alignment =
     (if alignment = 0 then val
      else let rem = val mod alignment
           in if rem = 0 then val else val + (alignment - rem))"

text \<open>
  \<open>None\<close> is the division by zero that follows when an alignment of \<open>2 ^ 32\<close> or a multiple
  of it is cut to 32 bits.
\<close>

definition align_up_addr :: "u32 \<Rightarrow> u64 \<Rightarrow> u32 option" where
  "align_up_addr val alignment =
     (if alignment = 0 then Some val
      else let addr_alignment = narrow alignment
           in if addr_alignment = 0 then None
              else let rem = val mod addr_alignment
                   in Some (if rem = 0 then val else val + (addr_alignment - rem)))"

definition add_overflows_addr :: "u32 \<Rightarrow> u64 \<Rightarrow> bool" where
  "add_overflows_addr addr sz \<longleftrightarrow> sz > widen (- 1 - addr)"

lemma add_overflows_addr_iff:
  "add_overflows_addr addr sz \<longleftrightarrow> 2 ^ 32 \<le> unat addr + unat sz"
proof -
  have "unat (- 1 - addr) = 2 ^ 32 - 1 - unat addr"
    by (subst unat_sub_le) (use unat_u32_lt [of addr] in \<open>simp_all add: unsigned_minus_1_eq_mask mask_eq_exp_minus_1\<close>)
  then show ?thesis
    using unat_u32_lt [of addr]
    by (simp add: add_overflows_addr_def word_less_nat_alt) arith
qed

text \<open>The next multiple of \<open>k\<close>, on the natural numbers.\<close>

definition round_up :: "nat \<Rightarrow> nat \<Rightarrow> nat" where
  "round_up k n = (if n mod k = 0 then n else n + (k - n mod k))"

lemma round_up_ge: "n \<le> round_up k n"
  by (simp add: round_up_def)

lemma round_up_lt: "0 < k \<Longrightarrow> round_up k n < n + k"
  by (cases "n mod k = 0") (simp_all add: round_up_def)

lemma round_up_dvd: "0 < k \<Longrightarrow> k dvd round_up k n"
proof -
  assume k: "0 < k"
  show ?thesis
  proof (cases "n mod k = 0")
    case False
    have "n + (k - n mod k) = (n div k) * k + k"
      using k mod_less_divisor [OF k, of n] div_mult_mod_eq [of n k] by linarith
    then show ?thesis by (simp add: round_up_def False)
  qed (auto simp: round_up_def)
qed

text \<open>The padding both helpers add, at any word length.\<close>

lemma unat_round_up_padding:
  fixes v a :: "'a::len word"
  assumes "a \<noteq> 0"
  shows "unat (if v mod a = 0 then 0 else a - v mod a) = round_up (unat a) (unat v) - unat v"
proof -
  have pos: "0 < unat a" using assms by (simp add: unat_gt_0)
  have rem: "unat (v mod a) = unat v mod unat a" by (rule unat_mod)
  have le: "unat (v mod a) \<le> unat a"
    using rem mod_less_divisor [OF pos] by (simp add: less_imp_le)
  have "v mod a = 0 \<longleftrightarrow> unat v mod unat a = 0"
    by (simp add: rem [symmetric] unat_eq_zero)
  then show ?thesis using unat_sub_le [OF le] rem by (simp add: round_up_def)
qed

lemma unat_align_up_size:
  assumes "alignment \<noteq> 0" and "round_up (unat alignment) (unat val) < 2 ^ 64"
  shows "unat (align_up_size val alignment) = round_up (unat alignment) (unat val)"
proof -
  let ?pad = "if val mod alignment = 0 then 0 else alignment - val mod alignment"
  have "unat (val + ?pad) = unat val + unat ?pad"
    using assms by (intro unat_add_small)
      (simp only: unat_round_up_padding [OF assms(1)] le_add_diff_inverse round_up_ge, simp)
  also have "\<dots> = round_up (unat alignment) (unat val)"
    by (simp only: unat_round_up_padding [OF assms(1)] le_add_diff_inverse round_up_ge)
  finally show ?thesis using assms(1) by (simp add: align_up_size_def Let_def split: if_splits)
qed

text \<open>
  The padding an aligned address asks for is below the alignment, even where the aligned address
  itself wraps round the 32-bit space.
\<close>

lemma align_up_addr_padding:
  assumes "align_up_addr val alignment = Some aligned"
    and "alignment \<noteq> 0" and "unat alignment < 2 ^ 32"
  shows "unat (aligned - val) = round_up (unat alignment) (unat val) - unat val"
proof -
  have a: "unat (narrow alignment) = unat alignment" using assms(3) by simp
  have nz: "narrow alignment \<noteq> 0" using assms(1,2) by (auto simp: align_up_addr_def Let_def)
  have "aligned - val = (if val mod narrow alignment = 0 then 0
          else narrow alignment - val mod narrow alignment)"
    using assms(1,2) nz by (auto simp: align_up_addr_def Let_def split: if_splits)
  then show ?thesis using unat_round_up_padding [OF nz, of val] a by simp
qed

lemma align_up_addr_defined:
  assumes "alignment \<noteq> 0" and "unat alignment < 2 ^ 32"
  shows "\<exists>aligned. align_up_addr val alignment = Some aligned"
proof -
  have "unat (narrow alignment) = unat alignment" using assms(2) by simp
  then have "narrow alignment \<noteq> 0" using assms(1) by (metis unat_0 unat_eq_zero)
  then show ?thesis by (simp add: align_up_addr_def Let_def)
qed

section \<open>The coalescing loop\<close>

text \<open>\<open>std::vector::insert\<close> before position \<open>k\<close> and \<open>erase\<close> at position \<open>k\<close>.\<close>

definition insert_at :: "nat \<Rightarrow> 'a \<Rightarrow> 'a list \<Rightarrow> 'a list" where
  "insert_at k x xs = take k xs @ x # drop k xs"

definition erase_at :: "nat \<Rightarrow> 'a list \<Rightarrow> 'a list" where
  "erase_at k xs = take k xs @ drop (Suc k) xs"

definition mergeable :: "block \<Rightarrow> block \<Rightarrow> bool" where
  "mergeable b n \<longleftrightarrow> bfree b \<and> bfree n \<and> widen (boffset b) + bsize b = widen (boffset n)"

definition absorb :: "block \<Rightarrow> block \<Rightarrow> block" where
  "absorb b n = b\<lparr>bsize := bsize b + bsize n\<rparr>"

lemma length_erase_at [simp]: "k < length xs \<Longrightarrow> length (erase_at k xs) = length xs - 1"
  by (simp add: erase_at_def)

function coalesce_from :: "nat \<Rightarrow> block list \<Rightarrow> block list" where
  "coalesce_from i blocks =
     (if i + 1 < length blocks then
        if mergeable (blocks ! i) (blocks ! (i + 1)) then
          coalesce_from i
            (erase_at (i + 1) (blocks[i := absorb (blocks ! i) (blocks ! (i + 1))]))
        else coalesce_from (Suc i) blocks
      else blocks)"
  by pat_completeness auto
termination
  by (relation "measure (\<lambda>(i, blocks). length blocks - i)") auto

declare coalesce_from.simps [simp del]

definition coalesce_blocks :: "block list \<Rightarrow> block list" where
  "coalesce_blocks blocks = coalesce_from 0 blocks"

text \<open>The same loop as a structural recursion.\<close>

fun coalesce :: "block list \<Rightarrow> block list" where
  "coalesce (b # n # bs) =
     (if mergeable b n then coalesce (absorb b n # bs) else b # coalesce (n # bs))"
| "coalesce bs = bs"

lemma coalesce_from_coalesce:
  "coalesce_from i bs = take i bs @ coalesce (drop i bs)"
proof (induction i bs rule: coalesce_from.induct)
  case (1 i bs)
  show ?case
  proof (cases "i + 1 < length bs")
    case False
    then consider "drop i bs = []" | x where "drop i bs = [x]"
      by (cases "drop i bs" rule: coalesce.cases) (auto dest: arg_cong [where f = length])
    then have "coalesce (drop i bs) = drop i bs" by cases simp_all
    with False show ?thesis by (subst coalesce_from.simps) simp
  next
    case True
    then have d: "drop i bs = bs ! i # bs ! (i + 1) # drop (i + 2) bs"
      by (metis Cons_nth_drop_Suc Suc_eq_plus1 Suc_lessD add_2_eq_Suc')
    then have d': "drop (Suc i) bs = bs ! (i + 1) # drop (i + 2) bs"
      using True by (metis Cons_nth_drop_Suc Suc_eq_plus1 add_2_eq_Suc')
    let ?m = "absorb (bs ! i) (bs ! (i + 1))"
    let ?bs' = "erase_at (i + 1) (bs[i := ?m])"
    have e: "take i ?bs' = take i bs" "drop i ?bs' = ?m # drop (i + 2) bs"
      using True by (simp_all add: erase_at_def take_Suc_conv_app_nth)
    show ?thesis
    proof (cases "mergeable (bs ! i) (bs ! (i + 1))")
      case True
      with \<open>i + 1 < length bs\<close> have "coalesce_from i bs = coalesce_from i ?bs'"
        by (subst coalesce_from.simps) simp
      also have "\<dots> = take i bs @ coalesce (?m # drop (i + 2) bs)"
        using "1.IH"(1) \<open>i + 1 < length bs\<close> True e by simp
      finally show ?thesis using d True by simp
    next
      case False
      with \<open>i + 1 < length bs\<close> have "coalesce_from i bs = coalesce_from (Suc i) bs"
        by (subst coalesce_from.simps) simp
      also have "\<dots> = take (Suc i) bs @ coalesce (drop (Suc i) bs)"
        using "1.IH"(2) \<open>i + 1 < length bs\<close> False by simp
      finally show ?thesis
        using d False \<open>i + 1 < length bs\<close> d' by (simp add: take_Suc_conv_app_nth)
    qed
  qed
qed

lemma coalesce_blocks_eq: "coalesce_blocks bs = coalesce bs"
  by (simp add: coalesce_blocks_def coalesce_from_coalesce)

section \<open>Lists that tile an address range\<close>

text \<open>\<open>tiles lo bs hi\<close>: the blocks are non-empty and lie end to end from \<open>lo\<close> to \<open>hi\<close>.\<close>

fun tiles :: "nat \<Rightarrow> block list \<Rightarrow> nat \<Rightarrow> bool" where
  "tiles lo [] hi \<longleftrightarrow> lo = hi"
| "tiles lo (b # bs) hi \<longleftrightarrow>
     unat (boffset b) = lo \<and> 0 < unat (bsize b) \<and> tiles (lo + unat (bsize b)) bs hi"

text \<open>No two neighbouring blocks are both free.\<close>

fun packed :: "block list \<Rightarrow> bool" where
  "packed (b # n # bs) \<longleftrightarrow> \<not> (bfree b \<and> bfree n) \<and> packed (n # bs)"
| "packed bs \<longleftrightarrow> True"

definition free_bytes :: "block list \<Rightarrow> nat" where
  "free_bytes bs = sum_list (map (unat \<circ> bsize) (filter bfree bs))"

definition used_bytes :: "block list \<Rightarrow> nat" where
  "used_bytes bs = sum_list (map (unat \<circ> bsize) (filter (Not \<circ> bfree) bs))"

text \<open>The live allocations a list describes, as (address, size) pairs.\<close>

definition live :: "block list \<Rightarrow> (nat \<times> nat) set" where
  "live bs = {(unat (boffset b), unat (bsize b)) | b. b \<in> set bs \<and> \<not> bfree b}"

lemma free_bytes_simps [simp]:
  "free_bytes [] = 0"
  "free_bytes (b # bs) = (if bfree b then unat (bsize b) else 0) + free_bytes bs"
  "free_bytes (as @ bs) = free_bytes as + free_bytes bs"
  by (simp_all add: free_bytes_def)

lemma live_simps [simp]:
  "live [] = {}"
  "live (b # bs) = (if bfree b then {} else {(unat (boffset b), unat (bsize b))}) \<union> live bs"
  "live (as @ bs) = live as \<union> live bs"
  by (auto simp: live_def)

lemma used_bytes_simps [simp]:
  "used_bytes [] = 0"
  "used_bytes (b # bs) = (if bfree b then 0 else unat (bsize b)) + used_bytes bs"
  "used_bytes (as @ bs) = used_bytes as + used_bytes bs"
  by (simp_all add: used_bytes_def)

lemma tiles_append:
  "tiles lo (as @ bs) hi \<longleftrightarrow> (\<exists>mid. tiles lo as mid \<and> tiles mid bs hi)"
  by (induction as arbitrary: lo) auto

lemma tiles_total: "tiles lo bs hi \<Longrightarrow> hi = lo + free_bytes bs + used_bytes bs"
proof (induction bs arbitrary: lo)
  case (Cons b bs)
  then have "hi = lo + unat (bsize b) + free_bytes bs + used_bytes bs" by simp
  then show ?case by simp
qed simp

lemma tiles_le: "tiles lo bs hi \<Longrightarrow> lo \<le> hi"
  using tiles_total by fastforce

lemma tiles_member:
  assumes "tiles lo bs hi" and "b \<in> set bs"
  shows "lo \<le> unat (boffset b)" and "0 < unat (bsize b)"
    and "unat (boffset b) + unat (bsize b) \<le> hi"
  using assms by (induction bs arbitrary: lo) (auto dest: tiles_le, fastforce+)

lemma live_bounds:
  assumes "tiles lo bs hi" and "(a, n) \<in> live bs"
  shows "lo \<le> a \<and> 0 < n \<and> a + n \<le> hi"
  using assms tiles_member by (fastforce simp: live_def)

lemma packed_ConsD: "packed (b # bs) \<Longrightarrow> packed bs"
  by (cases bs) auto

lemma packed_append:
  "packed (as @ bs) \<longleftrightarrow>
     packed as \<and> packed bs \<and> \<not> (as \<noteq> [] \<and> bs \<noteq> [] \<and> bfree (last as) \<and> bfree (hd bs))"
  by (induction as rule: packed.induct; cases bs) auto

section \<open>Coalescing a tiling list\<close>

lemma mergeable_iff:
  assumes "tiles lo (b # n # bs) hi" and "hi < 2 ^ 32"
  shows "mergeable b n \<longleftrightarrow> bfree b \<and> bfree n"
proof -
  have "unat (boffset b) + unat (bsize b) = unat (boffset n)" using assms(1) by simp
  moreover have "unat (boffset n) < 2 ^ 64" using unat_u32_lt [of "boffset n"] by simp
  ultimately have "unat (widen (boffset b) + bsize b) = unat (widen (boffset n))"
    by (subst unat_add_small) simp_all
  then have "widen (boffset b) + bsize b = widen (boffset n)"
    by (simp only: word_unat_eq_iff)
  then show ?thesis by (simp add: mergeable_def)
qed

lemma tiles_absorb:
  assumes "tiles lo (b # n # bs) hi" and "hi < 2 ^ 32"
  shows "tiles lo (absorb b n # bs) hi" and "unat (bsize (absorb b n)) = unat (bsize b) + unat (bsize n)"
proof -
  have "unat (bsize b) + unat (bsize n) \<le> hi" using assms(1) by (auto dest: tiles_le)
  then show s: "unat (bsize (absorb b n)) = unat (bsize b) + unat (bsize n)"
    using assms(2) by (simp add: absorb_def unat_add_small)
  show "tiles lo (absorb b n # bs) hi"
    using assms(1) s by (simp add: absorb_def add.assoc)
qed

lemma bfree_absorb [simp]: "bfree (absorb b n) = bfree b"
  by (simp add: absorb_def)

lemma coalesce_head:
  "coalesce (b # bs) \<noteq> [] \<and> bfree (hd (coalesce (b # bs))) = bfree b"
proof (induction "b # bs" arbitrary: b bs rule: coalesce.induct)
  case (1 b n bs)
  show ?case
  proof (cases "mergeable b n")
    case True
    with 1 show ?thesis by simp
  qed simp
qed simp_all

lemma coalesce_correct:
  assumes "tiles lo bs hi" and "hi < 2 ^ 32"
  shows "tiles lo (coalesce bs) hi \<and> live (coalesce bs) = live bs
           \<and> free_bytes (coalesce bs) = free_bytes bs \<and> packed (coalesce bs)"
  using assms(1)
proof (induction bs arbitrary: lo rule: coalesce.induct)
  case (1 b n bs)
  show ?case
  proof (cases "mergeable b n")
    case True
    note m = tiles_absorb [OF "1.prems" assms(2)]
    have "bfree b" "bfree n" using True by (auto simp: mergeable_def)
    then show ?thesis using "1.IH"(1) [OF True m(1)] True m(2) by simp
  next
    case False
    have "\<not> (bfree b \<and> bfree n)"
      using False mergeable_iff [OF "1.prems" assms(2)] by simp
    moreover have "tiles (lo + unat (bsize b)) (n # bs) hi" using "1.prems" by simp
    note IH = "1.IH"(2) [OF False this]
    moreover have "packed (b # coalesce (n # bs)) \<longleftrightarrow>
        \<not> (bfree b \<and> bfree n) \<and> packed (coalesce (n # bs))"
      using coalesce_head [of n bs] by (cases "coalesce (n # bs)") auto
    ultimately show ?thesis using "1.prems" False by simp
  qed
qed simp_all

section \<open>Claiming part of a free block\<close>

text \<open>
  Both allocators mark the first \<open>sz\<close> bytes of the block at \<open>index\<close> used and insert what is left
  as a free tail block behind it.
\<close>

definition claim_at :: "nat \<Rightarrow> u64 \<Rightarrow> block list \<Rightarrow> block list" where
  "claim_at index sz blocks =
     (let b = blocks ! index
      in if bsize b > sz then
           insert_at (index + 1)
             \<lparr>boffset = boffset b + narrow sz, bsize = bsize b - sz, bfree = True\<rparr>
             (blocks[index := b\<lparr>bsize := sz, bfree := False\<rparr>])
         else blocks[index := b\<lparr>bfree := False\<rparr>])"

definition carve :: "u64 \<Rightarrow> block \<Rightarrow> block list" where
  "carve sz b =
     (if bsize b > sz then
        [b\<lparr>bsize := sz, bfree := False\<rparr>,
         \<lparr>boffset = boffset b + narrow sz, bsize = bsize b - sz, bfree = True\<rparr>]
      else [b\<lparr>bfree := False\<rparr>])"

lemma claim_at_carve:
  assumes "index < length blocks"
  shows "claim_at index sz blocks
       = take index blocks @ carve sz (blocks ! index) @ drop (Suc index) blocks"
  using assms
  by (simp add: claim_at_def carve_def insert_at_def Let_def upd_conv_take_nth_drop
      take_Suc_conv_app_nth min_def)

lemma carve_correct:
  assumes "tiles lo (b # bs) hi" and "hi < 2 ^ 32" and "0 < unat sz" and "unat sz \<le> unat (bsize b)"
    and "bfree b"
  shows "tiles lo (carve sz b @ bs) hi"
    and "live (carve sz b) = {(unat (boffset b), unat sz)}"
    and "free_bytes (carve sz b) + unat sz = unat (bsize b)"
    and "packed bs \<Longrightarrow> bs \<noteq> [] \<Longrightarrow> \<not> bfree (hd bs) \<Longrightarrow> packed (carve sz b @ bs)"
    and "packed (carve sz b)" and "carve sz b \<noteq> []" and "\<not> bfree (hd (carve sz b))"
proof -
  have hi: "unat (boffset b) + unat (bsize b) \<le> hi" using assms(1) by (auto dest: tiles_le)
  have sz: "unat (narrow sz) = unat sz" using assms(2,4) hi by (intro unat_narrow_small) simp
  have off: "unat (boffset b + narrow sz) = unat (boffset b) + unat sz"
    by (subst unat_add_small) (use assms(2,4) hi sz in simp_all)
  have rest: "unat (bsize b - sz) = unat (bsize b) - unat sz" by (rule unat_sub_le [OF assms(4)])
  have eq: "\<not> sz < bsize b \<Longrightarrow> unat sz = unat (bsize b)"
    using assms(4) by (simp add: word_less_nat_alt)
  show "tiles lo (carve sz b @ bs) hi"
    using assms(1,3,4) off rest by (auto simp: carve_def word_less_nat_alt)
  show "live (carve sz b) = {(unat (boffset b), unat sz)}"
    using eq by (auto simp: carve_def)
  show "free_bytes (carve sz b) + unat sz = unat (bsize b)"
    using assms(4) rest eq by (auto simp: carve_def)
  show "packed (carve sz b)" "carve sz b \<noteq> []" "\<not> bfree (hd (carve sz b))"
    by (simp_all add: carve_def)
  show "packed bs \<Longrightarrow> bs \<noteq> [] \<Longrightarrow> \<not> bfree (hd bs) \<Longrightarrow> packed (carve sz b @ bs)"
    by (cases bs) (simp_all add: carve_def)
qed

text \<open>
  Placing \<open>sz\<close> bytes in a free block of a tiling list, \<open>pad\<close> bytes into it: the bytes before and
  after stay behind as free blocks.
\<close>

definition lead :: "u64 \<Rightarrow> block \<Rightarrow> block list" where
  "lead pad b = (if pad \<noteq> 0 then [\<lparr>boffset = boffset b, bsize = pad, bfree = True\<rparr>] else [])"

definition placed :: "u64 \<Rightarrow> u32 \<Rightarrow> u64 \<Rightarrow> block \<Rightarrow> block list" where
  "placed pad aligned sz b =
     lead pad b @ carve sz (b\<lparr>boffset := aligned, bsize := bsize b - pad\<rparr>)"

lemma placed_correct:
  assumes tile: "tiles lo (pre @ b # post) hi" and hi: "hi < 2 ^ 32" and bf: "bfree b"
    and sz: "0 < unat sz" and fit: "unat pad + unat sz \<le> unat (bsize b)"
    and al: "unat aligned = unat (boffset b) + unat pad"
  shows "tiles lo (pre @ placed pad aligned sz b @ post) hi"
    and "live (pre @ placed pad aligned sz b @ post)
           = insert (unat aligned, unat sz) (live (pre @ b # post))"
    and "free_bytes (pre @ placed pad aligned sz b @ post) + unat sz
           = free_bytes (pre @ b # post)"
    and "packed (pre @ b # post) \<Longrightarrow> packed (pre @ placed pad aligned sz b @ post)"
proof -
  let ?b = "b\<lparr>boffset := aligned, bsize := bsize b - pad\<rparr>"
  let ?new = "placed pad aligned sz b"
  have rest: "unat (bsize b - pad) = unat (bsize b) - unat pad"
    using fit by (intro unat_sub_le) simp
  obtain mid where pre: "tiles lo pre mid" and b: "tiles mid (b # post) hi"
    using tile by (auto simp: tiles_append)
  have p: "tiles (mid + unat pad) (?b # post) hi" "unat sz \<le> unat (bsize ?b)" "bfree ?b"
    using b al rest fit sz bf by auto
  note c = carve_correct [OF p(1) hi sz p(2,3)]
  have "tiles mid (lead pad b) (mid + unat pad)"
    using b by (auto simp: lead_def unat_gt_0)
  then show "tiles lo (pre @ ?new @ post) hi"
    using pre c(1) by (auto simp: tiles_append placed_def)
  show "live (pre @ ?new @ post) = insert (unat aligned, unat sz) (live (pre @ b # post))"
    using c(2) bf by (auto simp: placed_def lead_def)
  show "free_bytes (pre @ ?new @ post) + unat sz = free_bytes (pre @ b # post)"
    using c(3) bf rest fit by (auto simp: placed_def lead_def)
  assume pk: "packed (pre @ b # post)"
  then have prep: "packed pre" "pre \<noteq> [] \<Longrightarrow> \<not> bfree (last pre)"
    and postp: "packed post" "post \<noteq> [] \<Longrightarrow> \<not> bfree (hd post)"
    using bf by (auto simp: packed_append packed_ConsD neq_Nil_conv)
  have "packed (carve sz ?b @ post)" using c(4,5) postp by (cases "post = []") auto
  moreover have "packed (lead pad b)" by (simp add: lead_def)
  ultimately have "packed (?new @ post)" "\<not> (pad = 0 \<and> bfree (hd (?new @ post)))"
    using c(6,7) by (auto simp: placed_def packed_append lead_def)
  then show "packed (pre @ ?new @ post)"
    using prep by (auto simp: packed_append)
qed

text \<open>The range just placed was free, so it meets no live range.\<close>

definition overlaps :: "nat \<times> nat \<Rightarrow> nat \<times> nat \<Rightarrow> bool" where
  "overlaps r s \<longleftrightarrow> fst r < fst s + snd s \<and> fst s < fst r + snd r"

lemma live_apart:
  assumes "tiles lo (pre @ b # post) hi" and "r \<in> live (pre @ post)"
  shows "fst r + snd r \<le> unat (boffset b) \<or> unat (boffset b) + unat (bsize b) \<le> fst r"
proof -
  obtain mid where pre: "tiles lo pre mid" and b: "tiles mid (b # post) hi"
    using assms(1) by (auto simp: tiles_append)
  obtain a n where r: "r = (a, n)" by force
  have "(a, n) \<in> live pre \<or> (a, n) \<in> live post" using assms(2) r by simp
  then show ?thesis
    using live_bounds [OF pre, of a n] b live_bounds [of "mid + unat (bsize b)" post hi a n] r
    by auto
qed

lemma placed_fresh:
  assumes "tiles lo (pre @ b # post) hi" and "bfree b" and "0 < unat sz"
    and "unat pad + unat sz \<le> unat (bsize b)" and "unat aligned = unat (boffset b) + unat pad"
    and "r \<in> live (pre @ b # post)"
  shows "\<not> overlaps (unat aligned, unat sz) r"
  using live_apart [OF assms(1), of r] assms(2-6) by (auto simp: overlaps_def)

text \<open>Live ranges of a tiling list never overlap each other.\<close>

lemma live_disjoint:
  assumes "tiles lo bs hi" and "r \<in> live bs" and "s \<in> live bs" and "r \<noteq> s"
  shows "\<not> overlaps r s"
  using assms
proof (induction bs arbitrary: lo)
  case (Cons b bs)
  have tail: "q \<in> live bs \<Longrightarrow> unat (boffset b) + unat (bsize b) \<le> fst q" for q
    using Cons.prems(1) live_bounds [of "lo + unat (bsize b)" bs hi "fst q" "snd q"] by auto
  have IH: "r \<in> live bs \<Longrightarrow> s \<in> live bs \<Longrightarrow> \<not> overlaps r s"
    using Cons.prems(1,4) Cons.IH [of "lo + unat (bsize b)"] by simp
  show ?case
    using Cons.prems(2-4) tail [of r] tail [of s] IH
    by (auto simp: overlaps_def split: if_splits)
qed simp

lemma live_functional:
  assumes "tiles lo bs hi" and "(a, n) \<in> live bs" and "(a, m) \<in> live bs"
  shows "n = m"
  using live_disjoint [OF assms(1-3)] live_bounds [OF assms(1,2)] live_bounds [OF assms(1,3)]
  by (auto simp: overlaps_def)

text \<open>Claiming the start of a free block, seen on the whole list.\<close>

lemma claim_at_correct:
  assumes tile: "tiles lo bs hi" and hi: "hi < 2 ^ 32" and j: "j < length bs" "bfree (bs ! j)"
    and sz: "0 < unat sz" "sz \<le> bsize (bs ! j)"
  shows "tiles lo (claim_at j sz bs) hi"
    and "live (claim_at j sz bs) = insert (unat (boffset (bs ! j)), unat sz) (live bs)"
    and "packed bs \<Longrightarrow> packed (claim_at j sz bs)"
    and "r \<in> live bs \<Longrightarrow> \<not> overlaps (unat (boffset (bs ! j)), unat sz) r"
proof -
  have split: "bs = take j bs @ bs ! j # drop (Suc j) bs" using j(1) by (rule id_take_nth_drop)
  have claim: "claim_at j sz bs = take j bs @ placed 0 (boffset (bs ! j)) sz (bs ! j) @ drop (Suc j) bs"
    using claim_at_carve [OF j(1)] by (simp add: placed_def lead_def)
  have tile': "tiles lo (take j bs @ bs ! j # drop (Suc j) bs) hi" using tile split by simp
  have fit: "unat (0 :: u64) + unat sz \<le> unat (bsize (bs ! j))" using sz(2) by (simp add: word_le_nat_alt)
  have al: "unat (boffset (bs ! j)) = unat (boffset (bs ! j)) + unat (0 :: u64)" by simp
  note p = placed_correct [OF tile' hi j(2) sz(1) fit al]
  show "tiles lo (claim_at j sz bs) hi" unfolding claim by (rule p(1))
  show "live (claim_at j sz bs) = insert (unat (boffset (bs ! j)), unat sz) (live bs)"
    unfolding claim p(2) using split by simp
  show "packed bs \<Longrightarrow> packed (claim_at j sz bs)" unfolding claim using p(4) split by simp
  show "r \<in> live bs \<Longrightarrow> \<not> overlaps (unat (boffset (bs ! j)), unat sz) r"
    using placed_fresh [OF tile' j(2) sz(1) fit al] split by simp
qed

end
