(* ===== verification/Context.thy ===== *)
theory Context
  imports Blocks
begin

text \<open>
  The state of \<open>minigpu::Context\<close> (\<open>runtime/include/minigpu_runtime.hpp\<close>): the transport
  callback table, the configuration, the allocator and program-cache state, the kernel registry and
  the log, with the constructor, the move operations and the plain accessors. Everything a callback
  reaches on the other side of the link is a state of type \<open>'d\<close>, passed through by hand. A
  callback may throw; an empty \<open>std::function\<close> is \<open>None\<close>. A \<open>const void *\<close> is a
  \<open>bytes option\<close>, \<open>None\<close> for the null pointer; a read gets the old contents of the destination
  buffer and returns the new ones. The log is the list of lines appended to the log file, without the
  time stamp; failures to open that file are swallowed by the code and not modelled.
\<close>

type_synonym 'd callback = "'d \<Rightarrow> (exn + status) \<times> 'd"

record 'd transport =
  tr_write_data :: "(u32 \<Rightarrow> bytes option \<Rightarrow> u64 \<Rightarrow> 'd callback) option"
  tr_read_data :: "(u32 \<Rightarrow> bytes option \<Rightarrow> u64 \<Rightarrow> 'd \<Rightarrow> (exn + status \<times> bytes) \<times> 'd) option"
  tr_write_program :: "(u32 \<Rightarrow> bytes option \<Rightarrow> u64 \<Rightarrow> 'd callback) option"
  tr_validate_kernel :: "(u8 \<Rightarrow> 'd callback) option"
  tr_write_constants :: "(u32 \<Rightarrow> bytes option \<Rightarrow> u64 \<Rightarrow> 'd callback) option"
  tr_launch :: "(u32 \<Rightarrow> u32 \<Rightarrow> u32 \<Rightarrow> u32 \<Rightarrow> 'd callback) option"
  tr_wait :: "(u32 \<Rightarrow> 'd callback) option"

definition no_transport :: "'d transport" where
  "no_transport = \<lparr>tr_write_data = None, tr_read_data = None, tr_write_program = None,
     tr_validate_kernel = None, tr_write_constants = None, tr_launch = None, tr_wait = None\<rparr>"

record 'd config =
  cfg_memory_base :: u32
  cfg_memory_size :: u64
  cfg_program_memory_size :: u64
  cfg_default_alignment :: u64
  cfg_transport :: "'d transport"
  cfg_enable_logging :: bool
  cfg_log_path :: string

text \<open>The member initialisers of \<open>Config\<close>.\<close>

definition default_config :: "'d config" where
  "default_config = \<lparr>cfg_memory_base = 0, cfg_memory_size = 0,
     cfg_program_memory_size = 4096 * 4, cfg_default_alignment = 4,
     cfg_transport = no_transport, cfg_enable_logging = False, cfg_log_path = []\<rparr>"

record launch_config =
  lc_grid_dim :: u32
  lc_block_dim :: u32
  lc_active_mask :: u32
  lc_timeout_ms :: u32

definition default_launch_config :: launch_config where
  "default_launch_config =
     \<lparr>lc_grid_dim = 1, lc_block_dim = 4, lc_active_mask = 0xffffffff, lc_timeout_ms = 0\<rparr>"

record precompiled_kernel =
  pk_name :: string
  pk_program_id :: string
  pk_op :: string
  pk_dtype :: string
  pk_program :: "bytes option"
  pk_program_size :: u64
  pk_program_bytes :: bytes
  pk_program_addr :: u32
  pk_base_pc :: u32
  pk_entry_pc :: u32
  pk_default_grid_dim :: u32
  pk_default_block_dim :: u32
  pk_default_active_mask :: u32
  pk_default_timeout_ms :: u32

definition empty_precompiled_kernel :: precompiled_kernel where
  "empty_precompiled_kernel =
     \<lparr>pk_name = [], pk_program_id = [], pk_op = [], pk_dtype = [], pk_program = None,
      pk_program_size = 0, pk_program_bytes = [], pk_program_addr = 0, pk_base_pc = 0,
      pk_entry_pc = 0, pk_default_grid_dim = 1, pk_default_block_dim = 4,
      pk_default_active_mask = 0xffffffff, pk_default_timeout_ms = 0\<rparr>"

record program_cache_entry =
  ce_name :: string
  ce_addr :: u32
  ce_size :: u64
  ce_last_used :: u64

record 'd gpu_context =
  ctx_memory_base :: u32
  ctx_memory_size :: u64
  ctx_program_memory_size :: u64
  ctx_program_cache_clock :: u64
  ctx_compiler_spill_base :: u32
  ctx_compiler_spill_size :: u64
  ctx_default_alignment :: u64
  ctx_transport :: "'d transport"
  ctx_blocks :: "block list"
  ctx_program_blocks :: "block list"
  ctx_program_cache :: "program_cache_entry list"
  ctx_kernels :: "precompiled_kernel list"
  ctx_logging_enabled :: bool
  ctx_log_path :: string
  ctx_log :: "string list"

text \<open>The whole state an operation works on: the context and the far side of the link.\<close>

type_synonym 'd sys = "'d gpu_context \<times> 'd"

text \<open>The context operations inside the larger state of context and link.\<close>

definition on_context :: "('d gpu_context, 'e, 'a) action \<Rightarrow> ('d sys, 'e, 'a) action" where
  "on_context m s = (case m (fst s) of (r, c) \<Rightarrow> (r, (c, snd s)))"

section \<open>Logging\<close>

definition log_event :: "string \<Rightarrow> 'd gpu_context \<Rightarrow> 'd gpu_context" where
  "log_event event c =
     (if \<not> ctx_logging_enabled c then c else c\<lparr>ctx_log := ctx_log c @ [event]\<rparr>)"

lemma log_event_frame [simp]:
  "ctx_memory_base (log_event e c) = ctx_memory_base c"
  "ctx_memory_size (log_event e c) = ctx_memory_size c"
  "ctx_program_memory_size (log_event e c) = ctx_program_memory_size c"
  "ctx_program_cache_clock (log_event e c) = ctx_program_cache_clock c"
  "ctx_compiler_spill_base (log_event e c) = ctx_compiler_spill_base c"
  "ctx_compiler_spill_size (log_event e c) = ctx_compiler_spill_size c"
  "ctx_default_alignment (log_event e c) = ctx_default_alignment c"
  "ctx_transport (log_event e c) = ctx_transport c"
  "ctx_blocks (log_event e c) = ctx_blocks c"
  "ctx_program_blocks (log_event e c) = ctx_program_blocks c"
  "ctx_program_cache (log_event e c) = ctx_program_cache c"
  "ctx_kernels (log_event e c) = ctx_kernels c"
  "ctx_logging_enabled (log_event e c) = ctx_logging_enabled c"
  by (simp_all add: log_event_def)

text \<open>\<open>getenv\<close> is the parameter \<open>env\<close>.\<close>

definition env_log_path :: "(string \<Rightarrow> string option) \<Rightarrow> string" where
  "env_log_path env =
     (case env ''MINIGPU_RUNTIME_LOG'' of
        None \<Rightarrow> []
      | Some v \<Rightarrow>
          if v = [] \<or> v = ''0'' then []
          else if v = ''1'' \<or> v = ''true'' then ''/tmp/minigpu_runtime.log''
          else v)"

section \<open>Construction and moves\<close>

definition kCompilerSpillBytes :: u64 where
  "kCompilerSpillBytes = 8192"

definition context_new :: "(string \<Rightarrow> string option) \<Rightarrow> 'd config \<Rightarrow> exn + 'd gpu_context" where
  "context_new env config =
     (let msize = cfg_memory_size config;
          psize = cfg_program_memory_size config;
          align = (if cfg_default_alignment config \<noteq> 0 then cfg_default_alignment config else 4)
      in if msize = 0 then Inl (error BadArgument)
      else if psize = 0 \<or> psize mod 4 \<noteq> 0 then Inl (error BadArgument)
      else if add_overflows_addr (cfg_memory_base config) msize then Inl (error OutOfRange)
      else
        let path0 = (if cfg_log_path config = [] then env_log_path env else cfg_log_path config);
            logging = (cfg_enable_logging config \<or> path0 \<noteq> []);
            path = (if logging \<and> path0 = [] then ''/tmp/minigpu_runtime.log'' else path0);
            spill = align_up_size (min kCompilerSpillBytes (max 4 (msize div 8))) align
        in if spill \<ge> msize then Inl (error NoMemory)
        else
          let managed = msize - spill
          in Inr (log_event ''context created''
               \<lparr>ctx_memory_base = cfg_memory_base config,
                ctx_memory_size = msize,
                ctx_program_memory_size = psize,
                ctx_program_cache_clock = 0,
                ctx_compiler_spill_base = cfg_memory_base config + narrow managed,
                ctx_compiler_spill_size = spill,
                ctx_default_alignment = align,
                ctx_transport = cfg_transport config,
                ctx_blocks = [\<lparr>boffset = cfg_memory_base config, bsize = managed, bfree = True\<rparr>],
                ctx_program_blocks = [\<lparr>boffset = 0, bsize = psize, bfree = True\<rparr>],
                ctx_program_cache = [],
                ctx_kernels = [],
                ctx_logging_enabled = logging,
                ctx_log_path = path,
                ctx_log = []\<rparr>))"

text \<open>
  Move construction: the new context takes over every member, and the moved-from one keeps the
  exchanged defaults and empty containers. Move assignment leaves the same pair behind, whatever the
  target held.
\<close>

definition moved_from :: "'d gpu_context \<Rightarrow> 'd gpu_context" where
  "moved_from other = other
     \<lparr>ctx_memory_base := 0, ctx_memory_size := 0, ctx_program_memory_size := 0,
      ctx_program_cache_clock := 0, ctx_compiler_spill_base := 0, ctx_compiler_spill_size := 0,
      ctx_default_alignment := 4, ctx_transport := no_transport, ctx_blocks := [],
      ctx_program_blocks := [], ctx_program_cache := [], ctx_kernels := [],
      ctx_logging_enabled := False, ctx_log_path := []\<rparr>"

definition context_move :: "'d gpu_context \<Rightarrow> 'd gpu_context \<times> 'd gpu_context" where
  "context_move other = (other, moved_from other)"

definition context_move_assign :: "'d gpu_context \<Rightarrow> 'd gpu_context \<Rightarrow> 'd gpu_context \<times> 'd gpu_context" where
  "context_move_assign this other = (other, moved_from other)"

section \<open>Accessors\<close>

definition memory_size :: "'d gpu_context \<Rightarrow> u64" where
  "memory_size c = ctx_memory_size c - ctx_compiler_spill_size c"

fun memory_free_loop :: "u64 \<Rightarrow> block list \<Rightarrow> u64" where
  "memory_free_loop acc [] = acc"
| "memory_free_loop acc (b # bs) =
     memory_free_loop (if bfree b then acc + bsize b else acc) bs"

definition memory_free :: "'d gpu_context \<Rightarrow> u64" where
  "memory_free c = memory_free_loop 0 (ctx_blocks c)"

text \<open>The range check of every transfer.\<close>

definition range_is_allocated :: "u32 \<Rightarrow> u64 \<Rightarrow> 'd gpu_context \<Rightarrow> bool" where
  "range_is_allocated addr sz c \<longleftrightarrow>
     sz = 0 \<or>
     list_ex (\<lambda>b. \<not> bfree b \<and> addr \<ge> boffset b \<and> \<not> add_overflows_addr addr sz \<and>
                  widen addr + sz \<le> widen (boffset b) + bsize b)
       (ctx_blocks c)"

section \<open>The device-memory invariant\<close>

definition mem_lo :: "'d gpu_context \<Rightarrow> nat" where
  "mem_lo c = unat (ctx_memory_base c)"

definition mem_hi :: "'d gpu_context \<Rightarrow> nat" where
  "mem_hi c = unat (ctx_memory_base c) + unat (memory_size c)"

definition mem_ok :: "'d gpu_context \<Rightarrow> bool" where
  "mem_ok c \<longleftrightarrow>
     mem_lo c + unat (ctx_memory_size c) < 2 ^ 32 \<and>
     unat (ctx_compiler_spill_size c) \<le> unat (ctx_memory_size c) \<and>
     unat (ctx_compiler_spill_base c) = mem_hi c \<and>
     tiles (mem_lo c) (ctx_blocks c) (mem_hi c) \<and> packed (ctx_blocks c)"

lemma mem_hi_bound: "mem_ok c \<Longrightarrow> mem_hi c < 2 ^ 32"
  by (auto simp: mem_ok_def mem_hi_def memory_size_def mem_lo_def unat_sub_le)

lemma mem_hi_log [simp]: "mem_hi (log_event e c) = mem_hi c" "mem_lo (log_event e c) = mem_lo c"
  by (simp_all add: mem_hi_def mem_lo_def memory_size_def)

lemma mem_ok_log [simp]: "mem_ok (log_event e c) \<longleftrightarrow> mem_ok c"
  by (simp add: mem_ok_def mem_lo_def mem_hi_def memory_size_def)

end
