(* ===== verification/Packet.thy ===== *)
theory Packet
  imports Status
begin

text \<open>
  The packet format of \<open>gpu_comm\<close> (\<open>gpu_comm/src/com.h\<close>, \<open>constants.h\<close>, \<open>com.c\<close>): commands,
  error codes, the XOR checksum, and building and parsing packets
  \<open>[SOF] [CMD] [ADDR 2B] [LEN 2B] [PAYLOAD] [CRC]\<close>. A pointer argument is a byte list option,
  \<open>None\<close> for null; what the C code writes into the caller's buffer is the result.
\<close>

section \<open>Constants, commands, errors\<close>

definition COM_SOF :: u8 where "COM_SOF = 0xAA"
definition COM_MAX_PAYLOAD :: nat where "COM_MAX_PAYLOAD = 255"
definition COM_WORD_BYTES :: nat where "COM_WORD_BYTES = 4"
definition COM_MAX_ALIGNED_PAYLOAD :: nat where
  "COM_MAX_ALIGNED_PAYLOAD = COM_MAX_PAYLOAD - COM_MAX_PAYLOAD mod COM_WORD_BYTES"
definition COM_HEADER_SIZE :: nat where "COM_HEADER_SIZE = 6"
definition COM_OVERHEAD :: nat where "COM_OVERHEAD = 7"
definition COM_MAX_PACKET :: nat where "COM_MAX_PACKET = COM_OVERHEAD + COM_MAX_PAYLOAD"

lemmas com_constants = COM_SOF_def COM_MAX_PAYLOAD_def COM_WORD_BYTES_def
  COM_MAX_ALIGNED_PAYLOAD_def COM_HEADER_SIZE_def COM_OVERHEAD_def COM_MAX_PACKET_def

datatype com_cmd =
    CMD_WRITE_DATA | CMD_READ_DATA | CMD_WRITE_PROGRAM | CMD_LAUNCH | CMD_READ_STATUS
  | CMD_SECURITY_RESET | CMD_VALIDATE | CMD_ACK | CMD_NAK | CMD_WRITE_CONSTANTS

fun cmd_code :: "com_cmd \<Rightarrow> u8" where
  "cmd_code CMD_WRITE_DATA = 0x01"
| "cmd_code CMD_READ_DATA = 0x02"
| "cmd_code CMD_WRITE_PROGRAM = 0x03"
| "cmd_code CMD_LAUNCH = 0x04"
| "cmd_code CMD_READ_STATUS = 0x05"
| "cmd_code CMD_SECURITY_RESET = 0x06"
| "cmd_code CMD_VALIDATE = 0x07"
| "cmd_code CMD_ACK = 0x08"
| "cmd_code CMD_NAK = 0x09"
| "cmd_code CMD_WRITE_CONSTANTS = 0x0B"

datatype com_err =
    COM_OK | ERR_BAD_ARG | ERR_CRC | ERR_NO_SOF | ERR_TIMEOUT | ERR_SHORT
  | ERR_IO | ERR_PAYLOAD_SIZE | ERR_OPEN | ERR_FPGA

fun err_code :: "com_err \<Rightarrow> int" where
  "err_code COM_OK = 0"
| "err_code ERR_BAD_ARG = -1"
| "err_code ERR_CRC = -2"
| "err_code ERR_NO_SOF = -3"
| "err_code ERR_TIMEOUT = -4"
| "err_code ERR_SHORT = -5"
| "err_code ERR_IO = -6"
| "err_code ERR_PAYLOAD_SIZE = -7"
| "err_code ERR_OPEN = -8"
| "err_code ERR_FPGA = -9"

fun com_strerror :: "com_err \<Rightarrow> string" where
  "com_strerror COM_OK = ''OK''"
| "com_strerror ERR_BAD_ARG = ''Bad Argument (null pointer or out-of-range)''"
| "com_strerror ERR_CRC = ''CRC mismatch in received packet''"
| "com_strerror ERR_NO_SOF = ''Response missing start-of-frame byte (0xAA)''"
| "com_strerror ERR_TIMEOUT = ''Timed out waiting for response''"
| "com_strerror ERR_SHORT = ''Response shorter than expected''"
| "com_strerror ERR_IO = ''Serial I/O error''"
| "com_strerror ERR_PAYLOAD_SIZE = ''Payload exceeds 65535-byte max''"
| "com_strerror ERR_OPEN = ''Could not open serial port''"
| "com_strerror ERR_FPGA = ''FPGA encountered an error''"

instantiation com_err :: linorder
begin

definition less_eq_com_err :: "com_err \<Rightarrow> com_err \<Rightarrow> bool" where
  "less_eq_com_err a b \<longleftrightarrow> err_code a \<le> err_code b"

definition less_com_err :: "com_err \<Rightarrow> com_err \<Rightarrow> bool" where
  "less_com_err a b \<longleftrightarrow> err_code a < err_code b"

instance
proof
  fix a b c :: com_err
  have inj: "err_code a = err_code b \<Longrightarrow> a = b" by (cases a; cases b) simp_all
  show "a < b \<longleftrightarrow> a \<le> b \<and> \<not> b \<le> a" "a \<le> a" "a \<le> b \<or> b \<le> a"
    by (auto simp: less_eq_com_err_def less_com_err_def)
  show "a \<le> b \<Longrightarrow> b \<le> c \<Longrightarrow> a \<le> c" by (simp add: less_eq_com_err_def)
  show "a \<le> b \<Longrightarrow> b \<le> a \<Longrightarrow> a = b" by (rule inj) (simp add: less_eq_com_err_def)
qed

end

text \<open>Every error code is below \<open>COM_OK\<close>, so a negative length is an error.\<close>

lemma com_err_negative: "e \<noteq> COM_OK \<longleftrightarrow> e < COM_OK"
  by (cases e) (simp_all add: less_com_err_def)

lemma cmd_code_inject: "cmd_code a = cmd_code b \<longleftrightarrow> a = b"
  by (cases a; cases b) simp_all

section \<open>Checksum\<close>

fun crc_loop :: "u8 \<Rightarrow> bytes \<Rightarrow> u8" where
  "crc_loop crc [] = crc"
| "crc_loop crc (b # bs) = crc_loop (crc XOR b) bs"

definition com_crc_xor :: "bytes \<Rightarrow> nat \<Rightarrow> nat \<Rightarrow> u8" where
  "com_crc_xor buf start end_exclusive = crc_loop 0 (take (end_exclusive - start) (drop start buf))"

section \<open>Building\<close>

definition hi_byte :: "u16 \<Rightarrow> u8" where "hi_byte w = ucast (drop_bit 8 w)"
definition lo_byte :: "u16 \<Rightarrow> u8" where "lo_byte w = ucast (w AND 0xFF)"
definition join_bytes :: "u8 \<Rightarrow> u8 \<Rightarrow> u16" where
  "join_bytes hi lo = push_bit 8 (ucast hi) OR ucast lo"

definition com_build_packet_fields ::
    "u8 \<Rightarrow> u16 \<Rightarrow> u16 \<Rightarrow> bytes option \<Rightarrow> nat \<Rightarrow> com_err + bytes" where
  "com_build_packet_fields cmd addr len_field payload payload_len =
     (if payload_len > 0 \<and> payload = None then Inl ERR_BAD_ARG
      else if payload_len > COM_MAX_PAYLOAD then Inl ERR_PAYLOAD_SIZE
      else
        let buf = [COM_SOF, cmd, hi_byte addr, lo_byte addr, hi_byte len_field, lo_byte len_field]
                  @ (case payload of None \<Rightarrow> [] | Some p \<Rightarrow> take payload_len p);
            crc_index = COM_HEADER_SIZE + payload_len
        in Inr (buf @ [com_crc_xor buf 1 crc_index]))"

definition com_build_packet :: "u8 \<Rightarrow> u16 \<Rightarrow> bytes option \<Rightarrow> u16 \<Rightarrow> com_err + bytes" where
  "com_build_packet cmd addr payload payload_len =
     com_build_packet_fields cmd addr payload_len payload (unat payload_len)"

definition com_build_request_packet :: "u8 \<Rightarrow> u16 \<Rightarrow> u16 \<Rightarrow> com_err + bytes" where
  "com_build_request_packet cmd addr request_len =
     com_build_packet_fields cmd addr request_len None 0"

section \<open>Parsing\<close>

record com_packet =
  cp_cmd :: u8
  cp_addr :: u16
  cp_len :: u16
  cp_payload :: bytes

text \<open>
  Parsing a buffer of \<open>length buf\<close> bytes. The payload is copied into a field of
  \<open>COM_MAX_PAYLOAD\<close> bytes whatever its length; \<open>None\<close> is the copy that runs past it.
\<close>

definition com_parse_packet :: "bytes \<Rightarrow> (com_err + com_packet) option" where
  "com_parse_packet buf =
     (if length buf < COM_OVERHEAD then Some (Inl ERR_SHORT)
      else if buf ! 0 \<noteq> COM_SOF then Some (Inl ERR_NO_SOF)
      else
        let payload_len = join_bytes (buf ! 4) (buf ! 5);
            expected_len = COM_OVERHEAD + unat payload_len
        in if length buf < expected_len then Some (Inl ERR_SHORT)
           else if buf ! (expected_len - 1) \<noteq> com_crc_xor buf 1 (expected_len - 1) then Some (Inl ERR_CRC)
           else if unat payload_len > COM_MAX_PAYLOAD then None
           else Some (Inr \<lparr>cp_cmd = buf ! 1, cp_addr = join_bytes (buf ! 2) (buf ! 3),
                           cp_len = payload_len,
                           cp_payload = take (unat payload_len) (drop COM_HEADER_SIZE buf)\<rparr>))"

section \<open>Bytes and checksum\<close>

lemma lo_byte_ucast: "lo_byte w = ucast w"
proof -
  have m: "(0xFF :: u16) = mask 8" by (simp add: mask_eq_exp_minus_1)
  show ?thesis unfolding lo_byte_def m by (rule bit_word_eqI) (auto simp: bit_simps)
qed

lemma join_hi_lo [simp]: "join_bytes (hi_byte w) (lo_byte w) = w"
proof (rule bit_word_eqI)
  fix n assume "n < LENGTH(16)"
  then show "bit (join_bytes (hi_byte w) (lo_byte w)) n = bit w n"
    by (cases "8 \<le> n") (auto simp: join_bytes_def hi_byte_def lo_byte_ucast bit_simps)
qed

lemma hi_lo_join [simp]: "hi_byte (join_bytes h l) = h" "lo_byte (join_bytes h l) = l"
  by (rule bit_word_eqI; auto simp: join_bytes_def hi_byte_def lo_byte_ucast bit_simps
      dest: bit_imp_le_length)+

lemma xor_cancel: "(a :: 'a::len word) XOR q = b XOR q \<longleftrightarrow> a = b"
proof
  assume "a XOR q = b XOR q"
  then have "(a XOR q) XOR q = (b XOR q) XOR q" by simp
  then show "a = b" by (simp add: xor.assoc)
qed simp

lemma crc_loop_append: "crc_loop c (xs @ ys) = crc_loop (crc_loop c xs) ys"
  by (induction xs arbitrary: c) auto

lemma crc_loop_xor: "crc_loop (c XOR d) xs = c XOR crc_loop d xs"
  by (induction xs arbitrary: d) (simp_all add: xor.assoc)

lemma crc_loop_zero: "crc_loop c xs = c XOR crc_loop 0 xs"
  using crc_loop_xor [of c 0 xs] by simp

text \<open>Changing one byte changes the checksum.\<close>

lemma crc_loop_update:
  assumes "i < length xs" and "b \<noteq> xs ! i"
  shows "crc_loop c (xs[i := b]) \<noteq> crc_loop c xs"
proof -
  have xs: "xs = take i xs @ xs ! i # drop (Suc i) xs" using assms(1) by (rule id_take_nth_drop)
  let ?q = "crc_loop c (take i xs) XOR crc_loop 0 (drop (Suc i) xs)"
  have val: "crc_loop c (take i xs @ y # drop (Suc i) xs) = y XOR ?q" for y
  proof -
    have "crc_loop c (take i xs @ y # drop (Suc i) xs)
        = (crc_loop c (take i xs) XOR y) XOR crc_loop 0 (drop (Suc i) xs)"
      by (simp only: crc_loop_append crc_loop.simps) (rule crc_loop_zero)
    then show ?thesis by (simp only: ac_simps)
  qed
  have "crc_loop c (xs[i := b]) = b XOR ?q"
    using val [of b] assms(1) by (simp only: upd_conv_take_nth_drop)
  moreover have "crc_loop c xs = xs ! i XOR ?q"
    using val [of "xs ! i"] xs by (simp only: )
  ultimately show ?thesis using assms(2) by (simp only: xor_cancel simp_thms)
qed

section \<open>Frames\<close>

text \<open>The bytes of a packet whose length field and payload agree.\<close>

definition frame_body :: "u8 \<Rightarrow> u16 \<Rightarrow> u16 \<Rightarrow> bytes \<Rightarrow> bytes" where
  "frame_body cmd addr len payload =
     [cmd, hi_byte addr, lo_byte addr, hi_byte len, lo_byte len] @ payload"

definition frame :: "u8 \<Rightarrow> u16 \<Rightarrow> u16 \<Rightarrow> bytes \<Rightarrow> bytes" where
  "frame cmd addr len payload =
     COM_SOF # frame_body cmd addr len payload @ [crc_loop 0 (frame_body cmd addr len payload)]"

lemma length_frame [simp]: "length (frame cmd addr len payload) = 7 + length payload"
  by (simp add: frame_def frame_body_def)

lemma build_fields_frame:
  assumes "n \<le> 255" and "n \<le> length p"
  shows "com_build_packet_fields cmd addr len (Some p) n = Inr (frame cmd addr len (take n p))"
  using assms by (simp add: com_build_packet_fields_def com_constants frame_def frame_body_def
      com_crc_xor_def Let_def min_def)

lemma build_fields_empty:
  "com_build_packet_fields cmd addr len None 0 = Inr (frame cmd addr len [])"
  "com_build_packet_fields cmd addr len (Some p) 0 = Inr (frame cmd addr len [])"
  by (simp_all add: com_build_packet_fields_def com_constants frame_def frame_body_def
      com_crc_xor_def Let_def)

lemma build_too_long:
  "n > 255 \<Longrightarrow> com_build_packet_fields cmd addr len (Some p) n = Inl ERR_PAYLOAD_SIZE"
  by (simp add: com_build_packet_fields_def com_constants)

lemma parse_frame:
  assumes "length payload = unat len"
  shows "com_parse_packet (frame cmd addr len payload @ rest) =
    (if unat len > 255 then None
     else Some (Inr \<lparr>cp_cmd = cmd, cp_addr = addr, cp_len = len, cp_payload = payload\<rparr>))"
proof -
  let ?buf = "frame cmd addr len payload @ rest"
  have nth: "?buf ! 0 = COM_SOF" "?buf ! 1 = cmd" "?buf ! 2 = hi_byte addr" "?buf ! 3 = lo_byte addr"
    "?buf ! 4 = hi_byte len" "?buf ! 5 = lo_byte len"
    by (simp_all add: frame_def frame_body_def nth_Cons')
  have tail: "drop 6 ?buf = payload @ [crc_loop 0 (frame_body cmd addr len payload)] @ rest"
    by (simp add: frame_def frame_body_def)
  have last: "?buf ! (6 + unat len) = crc_loop 0 (frame_body cmd addr len payload)"
    using assms nth_append_length [of "COM_SOF # frame_body cmd addr len payload"]
    by (simp add: frame_def frame_body_def nth_append)
  have crc: "com_crc_xor ?buf 1 (6 + unat len) = crc_loop 0 (frame_body cmd addr len payload)"
  proof -
    have l: "length (frame_body cmd addr len payload) = 5 + unat len"
      using assms by (simp add: frame_body_def)
    have "drop 1 ?buf = frame_body cmd addr len payload @ crc_loop 0 (frame_body cmd addr len payload) # rest"
      by (simp add: frame_def)
    then have "take (5 + unat len) (drop 1 ?buf) = frame_body cmd addr len payload"
      using l by simp
    then show ?thesis by (simp add: com_crc_xor_def)
  qed
  have pay: "take (unat len) (drop 6 ?buf) = payload" using tail assms by simp
  show ?thesis
    using assms nth last crc pay by (simp add: com_parse_packet_def com_constants Let_def)
qed

text \<open>What is accepted is a frame.\<close>

lemma parse_Inr:
  assumes "com_parse_packet buf = Some (Inr p)"
  shows "\<exists>rest. buf = frame (cp_cmd p) (cp_addr p) (cp_len p) (cp_payload p) @ rest
    \<and> length (cp_payload p) = unat (cp_len p) \<and> unat (cp_len p) \<le> 255"
proof -
  let ?len = "join_bytes (buf ! 4) (buf ! 5)"
  have H: "7 \<le> length buf" "buf ! 0 = COM_SOF" "7 + unat ?len \<le> length buf"
    "buf ! (6 + unat ?len) = com_crc_xor buf 1 (6 + unat ?len)" "unat ?len \<le> 255"
    "p = \<lparr>cp_cmd = buf ! 1, cp_addr = join_bytes (buf ! 2) (buf ! 3), cp_len = ?len,
          cp_payload = take (unat ?len) (drop 6 buf)\<rparr>"
    using assms by (auto simp: com_parse_packet_def com_constants Let_def not_less split: if_splits)
  let ?pay = "take (unat ?len) (drop 6 buf)"
  have head: "take 6 buf = [buf ! 0, buf ! 1, buf ! 2, buf ! 3, buf ! 4, buf ! 5]"
    using H(1) by (intro nth_equalityI) (auto simp: less_Suc_eq nth_Cons' numeral_eq_Suc)
  have body: "take (6 + unat ?len) buf = take 6 buf @ ?pay" by (simp add: take_add)
  have split: "buf = take (6 + unat ?len) buf @ buf ! (6 + unat ?len) # drop (7 + unat ?len) buf"
    using H(3) id_take_nth_drop [of "6 + unat ?len" buf] by simp
  have b1: "take (6 + unat ?len - 1) (drop 1 buf) = frame_body (buf ! 1) (join_bytes (buf ! 2) (buf ! 3)) ?len ?pay"
  proof -
    have "take (6 + unat ?len - 1) (drop 1 buf) = drop 1 (take (6 + unat ?len) buf)" by (simp add: drop_take)
    then show ?thesis unfolding body head by (simp add: frame_body_def)
  qed
  have "buf = frame (cp_cmd p) (cp_addr p) (cp_len p) (cp_payload p) @ drop (7 + unat ?len) buf"
  proof -
    have "take (6 + unat ?len) buf = COM_SOF # frame_body (buf ! 1) (join_bytes (buf ! 2) (buf ! 3)) ?len ?pay"
      unfolding body head using H(2) by (simp add: frame_body_def)
    then show ?thesis
      using split H(4) b1 by (simp add: H(6) frame_def com_crc_xor_def)
  qed
  then show ?thesis using H by auto
qed

section \<open>Properties\<close>

text \<open>
  C13: the packet round trip. Every command, address and payload of at most 255 bytes is built
  into a packet of seven more bytes, and parsing a buffer that starts with it gives them back,
  whatever bytes follow.
\<close>

theorem packet_roundtrip:
  assumes "length payload \<le> 255"
  shows "\<exists>pkt. com_build_packet cmd addr (Some payload) (of_nat (length payload)) = Inr pkt
    \<and> length pkt = COM_OVERHEAD + length payload
    \<and> com_parse_packet (pkt @ rest) = Some (Inr
        \<lparr>cp_cmd = cmd, cp_addr = addr, cp_len = of_nat (length payload), cp_payload = payload\<rparr>)"
proof -
  have n: "unat (of_nat (length payload) :: u16) = length payload" using assms by (simp add: unat_of_nat)
  have "com_build_packet cmd addr (Some payload) (of_nat (length payload))
      = Inr (frame cmd addr (of_nat (length payload)) payload)"
    using build_fields_frame [of "length payload" payload] assms by (simp add: com_build_packet_def n)
  then show ?thesis using parse_frame [of payload "of_nat (length payload)"] n assms
    by (simp add: com_constants)
qed

lemma packet_roundtrip_witness:
  "\<exists>pkt. com_build_packet 1 0x1234 (Some [7, 8, 9]) 3 = Inr pkt
     \<and> com_parse_packet (pkt @ []) = Some (Inr
         \<lparr>cp_cmd = 1, cp_addr = 0x1234, cp_len = 3, cp_payload = [7, 8, 9]\<rparr>)"
  using packet_roundtrip [of "[7, 8, 9]" 1 "0x1234" "[]"] by auto

text \<open>
  C34: only built packets are accepted. Whatever buffer the parser accepts starts with the
  packet that building from its result gives, and the parser never reads a payload of more than 255
  bytes.
\<close>

theorem parse_accepts_only_built:
  assumes "com_parse_packet buf = Some (Inr p)"
  shows "\<exists>pkt rest. buf = pkt @ rest
    \<and> com_build_packet (cp_cmd p) (cp_addr p) (Some (cp_payload p)) (cp_len p) = Inr pkt
    \<and> length (cp_payload p) = unat (cp_len p) \<and> unat (cp_len p) \<le> COM_MAX_PAYLOAD"
proof -
  obtain rest where "buf = frame (cp_cmd p) (cp_addr p) (cp_len p) (cp_payload p) @ rest"
    and "length (cp_payload p) = unat (cp_len p)" "unat (cp_len p) \<le> 255"
    using parse_Inr [OF assms] by blast
  then show ?thesis
    using build_fields_frame [of "unat (cp_len p)" "cp_payload p"]
    by (auto simp: com_build_packet_def com_constants)
qed

lemma parse_accepts_only_built_witness:
  "\<exists>pkt rest. [0xAA, 8, 0, 16, 0, 0, 24, 99] = pkt @ rest \<and> com_build_packet 8 16 (Some []) 0 = Inr pkt"
proof -
  have "com_parse_packet [0xAA, 8, 0, 16, 0, 0, 24, 99]
      = Some (Inr \<lparr>cp_cmd = 8, cp_addr = 16, cp_len = 0, cp_payload = []\<rparr>)"
    by (simp add: com_parse_packet_def com_constants Let_def join_bytes_def com_crc_xor_def)
  from parse_accepts_only_built [OF this] show ?thesis by auto
qed

text \<open>
  Corruption of a packet is detected. Changing any one byte of a built packet other than
  its two length bytes makes the parser reject it: with a missing start of frame for the first byte,
  with a checksum error for any other.
\<close>

theorem corrupted_byte_detected:
  assumes "length payload \<le> 255"
    and "com_build_packet cmd addr (Some payload) (of_nat (length payload)) = Inr pkt"
    and "i < length pkt" and "i \<noteq> 4" and "i \<noteq> 5" and "b \<noteq> pkt ! i"
  shows "com_parse_packet (pkt[i := b]) = Some (Inl (if i = 0 then ERR_NO_SOF else ERR_CRC))"
proof -
  let ?len = "of_nat (length payload) :: u16"
  let ?body = "frame_body cmd addr ?len payload"
  have n: "unat ?len = length payload" using assms(1) by (simp add: unat_of_nat)
  have pkt: "pkt = frame cmd addr ?len payload"
    using build_fields_frame [of "length payload" payload cmd addr ?len] assms(1,2)
    by (simp add: com_build_packet_def n)
  have lp: "length pkt = 7 + length payload" by (simp add: pkt)
  have lb: "length ?body = 5 + length payload" by (simp add: frame_body_def)
  have l45: "pkt[i := b] ! 4 = hi_byte ?len" "pkt[i := b] ! 5 = lo_byte ?len"
  proof -
    have "pkt[i := b] ! 4 = pkt ! 4" "pkt[i := b] ! 5 = pkt ! 5" using assms(4,5) by simp_all
    then show "pkt[i := b] ! 4 = hi_byte ?len" "pkt[i := b] ! 5 = lo_byte ?len"
      by (simp_all add: pkt frame_def frame_body_def)
  qed
  show ?thesis
  proof (cases i)
    case 0
    then show ?thesis using assms(6) lp by (simp add: com_parse_packet_def com_constants pkt frame_def)
  next
    case (Suc j)
    have sof: "pkt[i := b] ! 0 = COM_SOF" by (simp add: pkt frame_def Suc)
    have upd: "pkt[i := b] = COM_SOF # (?body @ [crc_loop 0 ?body])[j := b]"
      by (simp add: pkt frame_def Suc)
    have bad: "((?body @ [crc_loop 0 ?body])[j := b]) ! (5 + length payload)
        \<noteq> crc_loop 0 (take (5 + length payload) ((?body @ [crc_loop 0 ?body])[j := b]))"
    proof (cases "j = 5 + length payload")
      case True
      then show ?thesis using assms(6) lb by (simp add: pkt frame_def Suc nth_append list_update_append)
    next
      case False
      then have j: "j < length ?body" using assms(3) lp lb Suc by simp
      then have "b \<noteq> ?body ! j" using assms(6) by (simp add: pkt frame_def Suc nth_append)
      then have "crc_loop 0 (?body[j := b]) \<noteq> crc_loop 0 ?body" using crc_loop_update j by blast
      then show ?thesis using j lb by (simp add: list_update_append nth_append)
    qed
    then have "pkt[i := b] ! (6 + length payload)
        \<noteq> crc_loop 0 (take (5 + length payload) (drop 1 (pkt[i := b])))"
      unfolding upd by (simp add: nth_Cons')
    then show ?thesis
      using sof l45 lp n Suc
      by (simp add: com_parse_packet_def com_constants Let_def com_crc_xor_def)
  qed
qed

lemma corrupted_byte_detected_witness:
  "com_parse_packet [0xAA, 8, 0, 17, 0, 0, 24] = Some (Inl ERR_CRC)"
proof -
  have "com_build_packet 8 16 (Some []) (of_nat (length ([] :: bytes))) = Inr [0xAA, 8, 0, 16, 0, 0, 24]"
    by (simp add: com_build_packet_def com_build_packet_fields_def com_constants com_crc_xor_def
        hi_byte_def lo_byte_ucast Let_def)
  from corrupted_byte_detected [OF _ this, of 3 17] show ?thesis by simp
qed

text \<open>
  The parser can run past its payload field. On every well-formed frame with a payload of
  256 to 65535 bytes the copy overflows the 255-byte field; on buffers of at most
  \<open>COM_MAX_PACKET\<close> bytes, all that the transports ever pass, it never does.
\<close>

theorem parse_payload_overflow:
  "(255 < length payload \<and> length payload < 65536 \<longrightarrow>
      com_parse_packet (frame cmd addr (of_nat (length payload)) payload) = None)
   \<and> (length buf \<le> COM_MAX_PACKET \<longrightarrow> com_parse_packet buf \<noteq> None)"
proof (intro conjI impI)
  assume "255 < length payload \<and> length payload < 65536"
  then have "unat (of_nat (length payload) :: u16) = length payload" by (simp add: unat_of_nat)
  then show "com_parse_packet (frame cmd addr (of_nat (length payload)) payload) = None"
    using parse_frame [of payload "of_nat (length payload)" cmd addr "[]"]
      \<open>255 < length payload \<and> length payload < 65536\<close> by simp
next
  assume "length buf \<le> COM_MAX_PACKET"
  then show "com_parse_packet buf \<noteq> None"
    by (auto simp: com_parse_packet_def com_constants Let_def not_less split: if_splits)
qed

lemma parse_payload_overflow_witness:
  "com_parse_packet (frame 2 0 (of_nat (length (replicate 256 (0 :: u8)))) (replicate 256 0)) = None
   \<and> com_parse_packet [0xAA, 8, 0, 16, 0, 0, 24] \<noteq> None"
  using parse_payload_overflow [of "replicate 256 0" 2 0 "[0xAA, 8, 0, 16, 0, 0, 24]"]
  by (simp add: com_constants)

end
