(* ===== verification/ComLink.thy ===== *)
theory ComLink
  imports Packet
begin

text \<open>
  The serial link of \<open>gpu_comm/src/com.c\<close> (the POSIX part): sending and receiving raw bytes, the
  acknowledgements, and the chunked, retried transfers \<open>com_write_data\<close> and \<open>com_read_data\<close>. The
  operating system's \<open>write\<close> and \<open>read\<close> are the fields of a parameter record over a state \<open>'w\<close> of
  everything outside the program; a read takes the number of bytes asked for and gives an error or the
  bytes it got, none on a time-out; \<open>os_now\<close> is the steady clock in nanoseconds. A function that returns \<open>com_err_t\<close> gives \<open>com_err + 'a\<close>, the
  right side standing for \<open>COM_OK\<close>; the exception is only ever \<open>Undefined\<close>, for a copy
  that runs past a buffer. The debug prints are left out.
\<close>

record 'w os =
  os_write :: "int \<Rightarrow> bytes \<Rightarrow> 'w \<Rightarrow> int \<times> 'w"
  os_read :: "int \<Rightarrow> nat \<Rightarrow> 'w \<Rightarrow> (unit + bytes) \<times> 'w"
  os_now :: "'w \<Rightarrow> int \<times> 'w"
  os_sleep_ms :: "nat \<Rightarrow> 'w \<Rightarrow> 'w"

record com_dev =
  dev_fd :: int
  dev_timeout_ms :: int

definition RETRIES :: nat where "RETRIES = 3"

section \<open>Steps and retries\<close>

text \<open>Go on when the step succeeded; hand its error code on otherwise.\<close>

definition on_ok ::
    "('w, exn, 'r + 'a) action \<Rightarrow> ('a \<Rightarrow> ('w, exn, 'r + 'b) action) \<Rightarrow> ('w, exn, 'r + 'b) action" where
  "on_ok m f = andThen m (\<lambda>r. case r of Inl e \<Rightarrow> ret (Inl e) | Inr x \<Rightarrow> f x)"

definition fail_unless :: "bool \<Rightarrow> 'r \<Rightarrow> ('w, exn, 'r + unit) action" where
  "fail_unless ok e = ret (if ok then Inr () else Inl e)"

text \<open>The attempt loops: the first success, or the error of the last attempt.\<close>

fun retry :: "nat \<Rightarrow> ('w, exn, 'r + 'a) action \<Rightarrow> 'r \<Rightarrow> ('w, exn, 'r + 'a) action" where
  "retry 0 m last_err = ret (Inl last_err)"
| "retry (Suc n) m last_err =
     andThen m (\<lambda>r. case r of Inl e \<Rightarrow> retry n m e | Inr x \<Rightarrow> ret (Inr x))"

section \<open>Raw bytes\<close>

definition com_send_raw :: "'w os \<Rightarrow> com_dev option \<Rightarrow> bytes \<Rightarrow> ('w, exn, com_err + unit) action" where
  "com_send_raw os dev buf w =
     (case dev of
        None \<Rightarrow> (Inr (Inl ERR_BAD_ARG), w)
      | Some d \<Rightarrow>
          let (n, w') = os_write os (dev_fd d) buf w
          in (Inr (if n < 0 \<or> nat n \<noteq> length buf then Inl ERR_IO else Inr ()), w'))"

function recv_loop :: "'w os \<Rightarrow> int \<Rightarrow> nat \<Rightarrow> bytes \<Rightarrow> ('w, exn, com_err + bytes) action" where
  "recv_loop os fd n acc w =
     (if length acc < n then
        (case os_read os fd (n - length acc) w of
           (Inl _, w') \<Rightarrow> (Inr (Inl ERR_IO), w')
         | (Inr got, w') \<Rightarrow>
             if got = [] then (Inr (Inl ERR_TIMEOUT), w')
             else recv_loop os fd n (acc @ take (n - length acc) got) w')
      else (Inr (Inr acc), w))"
  by pat_completeness auto
termination
proof (relation "measure (\<lambda>(os, fd, n, acc, w). n - length acc)", simp)
  fix os :: "'a os" and fd :: int and n :: nat and acc got :: bytes and w w' :: 'a
  assume less: "length acc < n" and "got \<noteq> []"
  then have "0 < length (take (n - length acc) got)" by (cases got) auto
  then have "n - (length acc + length (take (n - length acc) got)) < n - length acc"
    using less by (intro diff_less_mono2) simp_all
  then show "((os, fd, n, acc @ take (n - length acc) got, w'), os, fd, n, acc, w)
      \<in> measure (\<lambda>(os, fd, n, acc, w). n - length acc)" by simp
qed

declare recv_loop.simps [simp del]

definition com_recv_raw :: "'w os \<Rightarrow> com_dev option \<Rightarrow> nat \<Rightarrow> ('w, exn, com_err + bytes) action" where
  "com_recv_raw os dev n w =
     (case dev of None \<Rightarrow> (Inr (Inl ERR_BAD_ARG), w) | Some d \<Rightarrow> recv_loop os (dev_fd d) n [] w)"

text \<open>Parsing a received buffer inside a function of the link.\<close>

definition parse_received :: "bytes \<Rightarrow> ('w, exn, com_err + com_packet) action" where
  "parse_received buf =
     (case com_parse_packet buf of
        None \<Rightarrow> throw (Undefined ''payload copied past the end of com_packet_t'')
      | Some r \<Rightarrow> ret r)"

section \<open>Acknowledgements\<close>

definition com_send_ack :: "'w os \<Rightarrow> com_dev option \<Rightarrow> u16 \<Rightarrow> ('w, exn, com_err + unit) action" where
  "com_send_ack os dev addr =
     (case com_build_packet (cmd_code CMD_ACK) addr None 0 of
        Inl e \<Rightarrow> ret (Inl e)
      | Inr packet \<Rightarrow> retry RETRIES (com_send_raw os dev packet) ERR_IO)"

definition com_send_nak :: "'w os \<Rightarrow> com_dev option \<Rightarrow> u16 \<Rightarrow> ('w, exn, com_err + unit) action" where
  "com_send_nak os dev addr =
     (case com_build_packet (cmd_code CMD_NAK) addr None 0 of
        Inl e \<Rightarrow> ret (Inl e)
      | Inr packet \<Rightarrow> retry RETRIES (com_send_raw os dev packet) ERR_IO)"

section \<open>Writing\<close>

definition write_attempt ::
    "'w os \<Rightarrow> com_dev option \<Rightarrow> bytes \<Rightarrow> u16 \<Rightarrow> ('w, exn, com_err + unit) action" where
  "write_attempt os dev packet chunk_addr =
     on_ok (com_send_raw os dev packet) (\<lambda>_.
     on_ok (com_recv_raw os dev COM_OVERHEAD) (\<lambda>ack_buf.
     on_ok (parse_received ack_buf) (\<lambda>ack.
     fail_unless (cp_cmd ack = cmd_code CMD_ACK \<and> cp_addr ack = chunk_addr \<and> cp_len ack = 0) ERR_FPGA)))"

definition padded_len :: "nat \<Rightarrow> nat" where
  "padded_len chunk_len = (chunk_len + COM_WORD_BYTES - 1) div COM_WORD_BYTES * COM_WORD_BYTES"

text \<open>One turn of the chunk loop; \<open>rest\<close> is the data from \<open>offset\<close> on.\<close>

definition write_chunk ::
    "'w os \<Rightarrow> com_dev option \<Rightarrow> u16 \<Rightarrow> bytes \<Rightarrow> ('w, exn, com_err + unit) action" where
  "write_chunk os dev chunk_addr chunk =
     (let packet_payload_len = padded_len (length chunk);
          payload = chunk @ replicate (packet_payload_len - length chunk) 0
      in if unat chunk_addr + packet_payload_len > 65535 + 1 then ret (Inl ERR_BAD_ARG)
         else (case com_build_packet (cmd_code CMD_WRITE_DATA) chunk_addr (Some payload)
                      (of_nat packet_payload_len) of
             Inl e \<Rightarrow> ret (Inl e)
           | Inr packet \<Rightarrow> retry RETRIES (write_attempt os dev packet chunk_addr) ERR_FPGA))"

function write_loop ::
    "'w os \<Rightarrow> com_dev option \<Rightarrow> u16 \<Rightarrow> nat \<Rightarrow> bytes \<Rightarrow> ('w, exn, com_err + unit) action" where
  "write_loop os dev addr offset rest =
     (if rest = [] then ret (Inr ())
      else
        let chunk = take COM_MAX_ALIGNED_PAYLOAD rest
        in on_ok (write_chunk os dev (addr + of_nat offset) chunk)
             (\<lambda>_. write_loop os dev addr (offset + length chunk) (drop COM_MAX_ALIGNED_PAYLOAD rest)))"
  by pat_completeness auto
termination
  by (relation "measure (\<lambda>(os, dev, addr, offset, rest). length rest)")
    (auto simp: com_constants)

declare write_loop.simps [simp del]

definition com_write_data ::
    "'w os \<Rightarrow> com_dev option \<Rightarrow> u16 \<Rightarrow> bytes option \<Rightarrow> nat \<Rightarrow> ('w, exn, com_err + unit) action" where
  "com_write_data os dev addr data data_len =
     (if dev = None \<or> data_len > 0 \<and> data = None then ret (Inl ERR_BAD_ARG)
      else if data_len > 65535 - unat addr + 1 then ret (Inl ERR_BAD_ARG)
      else write_loop os dev addr 0 (case data of None \<Rightarrow> [] | Some bs \<Rightarrow> take data_len bs))"

section \<open>Reading\<close>

definition nak_with ::
    "'w os \<Rightarrow> com_dev option \<Rightarrow> u16 \<Rightarrow> com_err \<Rightarrow> ('w, exn, com_err + 'a) action" where
  "nak_with os dev addr e = andThen (com_send_nak os dev addr) (\<lambda>_. ret (Inl e))"

text \<open>A step whose error is answered with a NAK.\<close>

definition or_nak ::
    "'w os \<Rightarrow> com_dev option \<Rightarrow> u16 \<Rightarrow> ('w, exn, com_err + 'a) action
       \<Rightarrow> ('a \<Rightarrow> ('w, exn, com_err + 'b) action) \<Rightarrow> ('w, exn, com_err + 'b) action" where
  "or_nak os dev addr m f =
     andThen m (\<lambda>r. case r of Inl e \<Rightarrow> nak_with os dev addr e | Inr x \<Rightarrow> f x)"

definition read_attempt ::
    "'w os \<Rightarrow> com_dev option \<Rightarrow> bytes \<Rightarrow> u16 \<Rightarrow> u16 \<Rightarrow> ('w, exn, com_err + bytes) action" where
  "read_attempt os dev tx_packet chunk_addr chunk_len =
     on_ok (com_send_raw os dev tx_packet) (\<lambda>_.
     on_ok (com_recv_raw os dev COM_HEADER_SIZE) (\<lambda>header.
     or_nak os dev chunk_addr (fail_unless (header ! 0 = COM_SOF) ERR_NO_SOF) (\<lambda>_.
     let response_len = join_bytes (header ! 4) (header ! 5) in
     or_nak os dev chunk_addr (fail_unless (unat response_len \<le> COM_MAX_PAYLOAD) ERR_PAYLOAD_SIZE) (\<lambda>_.
     or_nak os dev chunk_addr (com_recv_raw os dev (unat response_len + 1)) (\<lambda>tail.
     or_nak os dev chunk_addr (parse_received (header @ tail)) (\<lambda>response.
     or_nak os dev chunk_addr (fail_unless (cp_len response = chunk_len) ERR_SHORT) (\<lambda>_.
     or_nak os dev chunk_addr
       (fail_unless (cp_cmd response = cmd_code CMD_READ_DATA \<and> cp_addr response = chunk_addr) ERR_FPGA) (\<lambda>_.
     on_ok (com_send_ack os dev chunk_addr) (\<lambda>_.
     ret (Inr (take (unat response_len) (cp_payload response))))))))))))"

definition read_chunk ::
    "'w os \<Rightarrow> com_dev option \<Rightarrow> u16 \<Rightarrow> u16 \<Rightarrow> ('w, exn, com_err + bytes) action" where
  "read_chunk os dev chunk_addr chunk_len =
     (case com_build_packet_fields (cmd_code CMD_READ_DATA) chunk_addr chunk_len None 0 of
        Inl e \<Rightarrow> ret (Inl e)
      | Inr packet \<Rightarrow> retry RETRIES (read_attempt os dev packet chunk_addr chunk_len) ERR_FPGA)"

text \<open>
  The chunk loop; \<open>out\<close> is what has been copied to the output buffer so far and \<open>todo\<close> the number
  of bytes still to read. An error leaves the bytes copied before it in the buffer.
\<close>

function read_loop ::
    "'w os \<Rightarrow> com_dev option \<Rightarrow> u16 \<Rightarrow> bytes \<Rightarrow> nat \<Rightarrow> ('w, exn, com_err \<times> bytes) action" where
  "read_loop os dev addr out todo =
     (if todo = 0 then ret (COM_OK, out)
      else
        let chunk_len = min todo COM_MAX_PAYLOAD
        in andThen (read_chunk os dev (addr + of_nat (length out)) (of_nat chunk_len))
             (\<lambda>r. case r of
                Inl e \<Rightarrow> ret (e, out)
              | Inr bs \<Rightarrow> read_loop os dev addr (out @ bs) (todo - chunk_len)))"
  by pat_completeness auto
termination
  by (relation "measure (\<lambda>(os, dev, addr, out, todo). todo)") (auto simp: com_constants)

declare read_loop.simps [simp del]

definition com_read_data ::
    "'w os \<Rightarrow> com_dev option \<Rightarrow> u16 \<Rightarrow> bool \<Rightarrow> nat \<Rightarrow> ('w, exn, com_err \<times> bytes) action" where
  "com_read_data os dev addr out_buf data_len =
     (if dev = None \<or> data_len > 0 \<and> \<not> out_buf then ret (ERR_BAD_ARG, [])
      else if data_len > 65535 - unat addr + 1 then ret (ERR_BAD_ARG, [])
      else read_loop os dev addr [] data_len)"

end
