(* ===== verification/GpuComm.thy ===== *)
theory GpuComm
  imports Context ComLink
begin

text \<open>
  The runtime's transport over the serial link
  (\<open>runtime/src/transports/gpu_comm_transport.cpp\<close>): the commands of the device, each chunked,
  padded to words, acknowledged and retried, the polling wait, and \<open>make_gpu_comm_transport\<close>, the
  callback table the context works with. A function that returns \<open>Status\<close> gives \<open>status + 'a\<close>,
  the right side for \<open>Ok\<close>. The host is little-endian, as the code assumes of the word copies. The
  wait loop has no bound when no time-out is set: it is a partial function, and a wait that never ends
  is the exception \<open>Diverges\<close>.
\<close>

record transport_config =
  tc_constants_use_data_memory :: bool
  tc_status_done_mask :: u32
  tc_status_error_mask :: u32
  tc_status_error_bit :: u32
  tc_status_unsupported_bit :: u32
  tc_status_divide_by_zero_bit :: u32
  tc_address_unit_bytes :: u32

definition default_transport_config :: transport_config where
  "default_transport_config =
     \<lparr>tc_constants_use_data_memory = False, tc_status_done_mask = 0x1, tc_status_error_mask = 0x1c,
      tc_status_error_bit = 0x04, tc_status_unsupported_bit = 0x08,
      tc_status_divide_by_zero_bit = 0x10, tc_address_unit_bytes = 1\<rparr>"

definition kRetries :: nat where "kRetries = 3"
definition kDefaultAddressUnitBytes :: u32 where "kDefaultAddressUnitBytes = 1"

section \<open>Words, addresses, messages\<close>

definition status_pc :: "u32 \<Rightarrow> u32" where
  "status_pc status_word = drop_bit 20 status_word AND 0xfff"

definition status_retired :: "u32 \<Rightarrow> u32" where
  "status_retired status_word = drop_bit 8 status_word AND 0xfff"

definition pad_left :: "nat \<Rightarrow> string \<Rightarrow> string" where
  "pad_left n s = replicate (n - length s) (CHR ''0'') @ s"

definition device_fault_message :: "u32 \<Rightarrow> string \<Rightarrow> string" where
  "device_fault_message status_word fault =
     ''Mini-GPU device fault: '' @ fault @ '' status=0x'' @ pad_left 8 (hex (unat status_word))
     @ '' pc=0x'' @ pad_left 3 (hex (unat (status_pc status_word)))
     @ '' retired='' @ dec (unat (status_retired status_word))"

definition fits_u16 :: "u32 \<Rightarrow> u64 \<Rightarrow> bool" where
  "fits_u16 addr sz \<longleftrightarrow> unat addr \<le> 65535 \<and> unat sz \<le> 65535 - unat addr + 1"

definition aligned_range :: "u32 \<Rightarrow> u64 \<Rightarrow> u32 \<Rightarrow> bool" where
  "aligned_range addr sz unit_bytes \<longleftrightarrow>
     unit_bytes \<noteq> 0 \<and> addr mod unit_bytes = 0 \<and> sz mod widen unit_bytes = 0"

definition max_aligned_payload :: "u32 \<Rightarrow> nat" where
  "max_aligned_payload unit_bytes =
     (if COM_WORD_BYTES = 0 \<or> COM_WORD_BYTES > COM_MAX_PAYLOAD then 0 else COM_MAX_ALIGNED_PAYLOAD)"

definition padded_payload_len :: "nat \<Rightarrow> nat" where
  "padded_payload_len len = (len + COM_WORD_BYTES - 1) div COM_WORD_BYTES * COM_WORD_BYTES"

definition protocol_addr :: "u32 \<Rightarrow> u32 \<Rightarrow> status + u16" where
  "protocol_addr byte_addr unit_bytes =
     (if unit_bytes = 0 \<or> byte_addr mod unit_bytes \<noteq> 0 then Inl BadArgument
      else
        let protocol_address = byte_addr div unit_bytes
        in if \<not> fits_u16 protocol_address 0 then Inl OutOfRange else Inr (ucast protocol_address))"

definition put_u32_rtl_rx :: "u32 \<Rightarrow> bytes" where
  "put_u32_rtl_rx v =
     [ucast (v AND 0xff), ucast (drop_bit 8 v AND 0xff), ucast (drop_bit 16 v AND 0xff),
      ucast (drop_bit 24 v AND 0xff)]"

definition get_u32_be :: "bytes \<Rightarrow> u32" where
  "get_u32_be src = push_bit 24 (ucast (src ! 0)) OR push_bit 16 (ucast (src ! 1))
     OR push_bit 8 (ucast (src ! 2)) OR ucast (src ! 3)"

definition get_u32_le :: "bytes \<Rightarrow> u32" where
  "get_u32_le src = ucast (src ! 0) OR push_bit 8 (ucast (src ! 1))
     OR push_bit 16 (ucast (src ! 2)) OR push_bit 24 (ucast (src ! 3))"

text \<open>\<open>memcpy\<close> from and to a 32-bit variable of the host.\<close>

definition host_load :: "bytes \<Rightarrow> u32" where
  "host_load src = get_u32_le src"

definition host_store :: "u32 \<Rightarrow> bytes" where
  "host_store v = put_u32_rtl_rx v"

fun host_words_loop :: "nat \<Rightarrow> bytes \<Rightarrow> bytes" where
  "host_words_loop 0 src = []"
| "host_words_loop (Suc words) src =
     put_u32_rtl_rx (host_load (take 4 src)) @ host_words_loop words (drop 4 src)"

definition host_words_to_packet :: "bytes \<Rightarrow> nat \<Rightarrow> bytes" where
  "host_words_to_packet src sz = host_words_loop (sz div 4) src"

fun packet_words_loop :: "nat \<Rightarrow> bytes \<Rightarrow> bytes" where
  "packet_words_loop 0 src = []"
| "packet_words_loop (Suc words) src =
     host_store (get_u32_be (take 4 src)) @ packet_words_loop words (drop 4 src)"

definition packet_words_to_host :: "bytes \<Rightarrow> nat \<Rightarrow> bytes" where
  "packet_words_to_host src sz = packet_words_loop (sz div 4) src"

section \<open>Commands\<close>

definition status_from_com :: "com_err \<Rightarrow> status" where
  "status_from_com err =
     (case err of
        COM_OK \<Rightarrow> Ok
      | ERR_BAD_ARG \<Rightarrow> BadArgument | ERR_PAYLOAD_SIZE \<Rightarrow> BadArgument
      | ERR_TIMEOUT \<Rightarrow> Timeout
      | _ \<Rightarrow> Transport)"

definition com_status :: "('w, exn, com_err + 'a) action \<Rightarrow> ('w, exn, status + 'a) action" where
  "com_status m = andThen m (\<lambda>r. ret (case r of Inl e \<Rightarrow> Inl (status_from_com e) | Inr x \<Rightarrow> Inr x))"

definition expect_ack :: "'w os \<Rightarrow> com_dev option \<Rightarrow> u16 \<Rightarrow> ('w, exn, status + unit) action" where
  "expect_ack os dev addr =
     on_ok (com_status (com_recv_raw os dev COM_OVERHEAD)) (\<lambda>ack_buf.
     on_ok (com_status (parse_received ack_buf)) (\<lambda>ack.
     fail_unless (cp_cmd ack = cmd_code CMD_ACK \<and> cp_addr ack = addr \<and> cp_len ack = 0) Transport))"

definition send_ack :: "'w os \<Rightarrow> com_dev option \<Rightarrow> u16 \<Rightarrow> ('w, exn, status + unit) action" where
  "send_ack os dev addr =
     (case com_build_packet (cmd_code CMD_ACK) addr None 0 of
        Inl e \<Rightarrow> ret (Inl (status_from_com e))
      | Inr packet \<Rightarrow> com_status (com_send_raw os dev packet))"

definition send_packet ::
    "'w os \<Rightarrow> com_dev option \<Rightarrow> com_cmd \<Rightarrow> u16 \<Rightarrow> bytes option \<Rightarrow> nat \<Rightarrow> ('w, exn, status + unit) action"
where
  "send_packet os dev cmd addr payload payload_len =
     (case com_build_packet (cmd_code cmd) addr payload (of_nat payload_len) of
        Inl e \<Rightarrow> ret (Inl (status_from_com e))
      | Inr packet \<Rightarrow>
          retry kRetries
            (on_ok (com_status (com_send_raw os dev packet)) (\<lambda>_. expect_ack os dev addr)) Transport)"

text \<open>The chunk loop of a write command; \<open>rest\<close> is the source from \<open>offset\<close> on.\<close>

function write_chunks ::
    "'w os \<Rightarrow> com_dev option \<Rightarrow> com_cmd \<Rightarrow> u32 \<Rightarrow> u32 \<Rightarrow> nat \<Rightarrow> bytes \<Rightarrow> ('w, exn, status + unit) action"
where
  "write_chunks os dev cmd dst_addr unit_bytes offset rest =
     (if rest = [] then ret (Inr ())
      else
        let max_payload = max_aligned_payload unit_bytes
        in if max_payload = 0 then ret (Inl BadArgument)
           else
             let chunk = take max_payload rest
             in (case protocol_addr (dst_addr + of_nat offset) unit_bytes of
                   Inl e \<Rightarrow> ret (Inl e)
                 | Inr chunk_addr \<Rightarrow>
                     let packet_payload_len = padded_payload_len (length chunk);
                         payload = chunk @ replicate (packet_payload_len - length chunk) 0
                     in on_ok (send_packet os dev cmd chunk_addr (Some payload) packet_payload_len)
                          (\<lambda>_. write_chunks os dev cmd dst_addr unit_bytes (offset + length chunk)
                                 (drop max_payload rest))))"
  by pat_completeness auto
termination
  by (relation "measure (\<lambda>(os, dev, cmd, dst_addr, unit_bytes, offset, rest). length rest)") auto

declare write_chunks.simps [simp del]

definition write_chunked_command ::
    "'w os \<Rightarrow> com_dev option \<Rightarrow> com_cmd \<Rightarrow> u32 \<Rightarrow> bytes option \<Rightarrow> u64 \<Rightarrow> u32
       \<Rightarrow> ('w, exn, status + unit) action" where
  "write_chunked_command os dev cmd dst_addr src sz unit_bytes =
     (if dev = None \<or> src = None \<and> sz \<noteq> 0 then ret (Inl BadArgument)
      else if unit_bytes \<noteq> kDefaultAddressUnitBytes then ret (Inl BadArgument)
      else if \<not> aligned_range dst_addr sz unit_bytes then ret (Inl BadArgument)
      else (case protocol_addr dst_addr unit_bytes of
          Inl e \<Rightarrow> ret (Inl e)
        | Inr _ \<Rightarrow> write_chunks os dev cmd dst_addr unit_bytes 0
            (case src of None \<Rightarrow> [] | Some bs \<Rightarrow> take (unat sz) bs)))"

definition read_packet_attempt ::
    "'w os \<Rightarrow> com_dev option \<Rightarrow> bytes \<Rightarrow> ('w, exn, status + com_packet) action" where
  "read_packet_attempt os dev tx_packet =
     on_ok (com_status (com_send_raw os dev tx_packet)) (\<lambda>_.
     on_ok (com_status (com_recv_raw os dev COM_HEADER_SIZE)) (\<lambda>header.
     on_ok (fail_unless (header ! 0 = COM_SOF) Transport) (\<lambda>_.
     let response_len = join_bytes (header ! 4) (header ! 5) in
     on_ok (fail_unless (unat response_len \<le> COM_MAX_PAYLOAD) Transport) (\<lambda>_.
     on_ok (com_status (com_recv_raw os dev (unat response_len + 1))) (\<lambda>tail.
     com_status (parse_received (header @ tail)))))))"

definition read_packet ::
    "'w os \<Rightarrow> com_dev option \<Rightarrow> com_cmd \<Rightarrow> u16 \<Rightarrow> bytes option \<Rightarrow> nat
       \<Rightarrow> ('w, exn, status + com_packet) action" where
  "read_packet os dev cmd addr payload payload_len =
     (case (case payload of
              Some p \<Rightarrow> com_build_packet (cmd_code cmd) addr (Some p) (of_nat payload_len)
            | None \<Rightarrow> com_build_request_packet (cmd_code cmd) addr (of_nat payload_len)) of
        Inl e \<Rightarrow> ret (Inl (status_from_com e))
      | Inr tx_packet \<Rightarrow> retry kRetries (read_packet_attempt os dev tx_packet) Transport)"

text \<open>The chunk loop of a read command; the result has the bytes copied to the destination so far.\<close>

function read_chunks ::
    "'w os \<Rightarrow> com_dev option \<Rightarrow> com_cmd \<Rightarrow> u32 \<Rightarrow> u32 \<Rightarrow> bytes \<Rightarrow> nat \<Rightarrow> ('w, exn, status \<times> bytes) action"
where
  "read_chunks os dev cmd src_addr unit_bytes out todo =
     (if todo = 0 then ret (Ok, out)
      else
        let max_payload = max_aligned_payload unit_bytes
        in if max_payload = 0 then ret (BadArgument, out)
           else
             let chunk_len = min todo max_payload
             in (case protocol_addr (src_addr + of_nat (length out)) unit_bytes of
                   Inl e \<Rightarrow> ret (e, out)
                 | Inr chunk_addr \<Rightarrow>
                     let packet_payload_len = padded_payload_len chunk_len
                     in andThen (read_packet os dev cmd chunk_addr
                                   (Some (replicate COM_MAX_ALIGNED_PAYLOAD 0)) packet_payload_len)
                          (\<lambda>r. case r of
                             Inl e \<Rightarrow> ret (e, out)
                           | Inr response \<Rightarrow>
                               if cp_cmd response \<noteq> cmd_code cmd \<or> cp_addr response \<noteq> chunk_addr
                                  \<or> unat (cp_len response) \<noteq> packet_payload_len
                               then ret (Transport, out)
                               else read_chunks os dev cmd src_addr unit_bytes
                                      (out @ take chunk_len (cp_payload response))
                                      (todo - chunk_len))))"
  by pat_completeness auto
termination
  by (relation "measure (\<lambda>(os, dev, cmd, src_addr, unit_bytes, out, todo). todo)") auto

declare read_chunks.simps [simp del]

definition read_chunked_command ::
    "'w os \<Rightarrow> com_dev option \<Rightarrow> com_cmd \<Rightarrow> u32 \<Rightarrow> bytes option \<Rightarrow> u64 \<Rightarrow> u32
       \<Rightarrow> ('w, exn, status \<times> bytes) action" where
  "read_chunked_command os dev cmd src_addr dst sz unit_bytes =
     (if dev = None \<or> dst = None \<and> sz \<noteq> 0 then ret (BadArgument, [])
      else if unit_bytes \<noteq> kDefaultAddressUnitBytes then ret (BadArgument, [])
      else if \<not> aligned_range src_addr sz unit_bytes then ret (BadArgument, [])
      else (case protocol_addr src_addr unit_bytes of
          Inl e \<Rightarrow> ret (e, [])
        | Inr _ \<Rightarrow> read_chunks os dev cmd src_addr unit_bytes [] (unat sz)))"

section \<open>The exported operations\<close>

text \<open>A result as the status the C++ function returns.\<close>

definition status_of :: "('w, exn, status + unit) action \<Rightarrow> ('w, exn, status) action" where
  "status_of m = andThen m (\<lambda>r. ret (case r of Inl e \<Rightarrow> e | Inr _ \<Rightarrow> Ok))"

definition gpu_comm_write_data ::
    "'w os \<Rightarrow> com_dev option \<Rightarrow> u32 \<Rightarrow> bytes option \<Rightarrow> u64 \<Rightarrow> ('w, exn, status + unit) action" where
  "gpu_comm_write_data os dev dst_addr src sz =
     (if \<not> fits_u16 dst_addr sz then ret (Inl OutOfRange)
      else com_status (com_write_data os dev (ucast dst_addr) src (unat sz)))"

definition gpu_comm_read_data ::
    "'w os \<Rightarrow> com_dev option \<Rightarrow> u32 \<Rightarrow> bytes option \<Rightarrow> u64 \<Rightarrow> ('w, exn, status \<times> bytes) action" where
  "gpu_comm_read_data os dev src_addr dst sz =
     read_chunked_command os dev CMD_READ_DATA src_addr dst sz kDefaultAddressUnitBytes"

text \<open>The words are read from the source, which must not be null when there are any.\<close>

definition packet_words :: "bytes option \<Rightarrow> u64 \<Rightarrow> ('w, exn, bytes) action" where
  "packet_words src sz =
     (case src of
        None \<Rightarrow> if sz = 0 then ret [] else throw (Undefined ''null source read in host_words_to_packet'')
      | Some bs \<Rightarrow> ret (host_words_to_packet bs (unat sz)))"

definition gpu_comm_write_program ::
    "'w os \<Rightarrow> com_dev option \<Rightarrow> u32 \<Rightarrow> bytes option \<Rightarrow> u64 \<Rightarrow> ('w, exn, status + unit) action" where
  "gpu_comm_write_program os dev dst_addr src sz =
     (if unat sz mod COM_WORD_BYTES \<noteq> 0 then ret (Inl BadArgument)
      else andThen (packet_words src sz) (\<lambda>packet_words.
           write_chunked_command os dev CMD_WRITE_PROGRAM dst_addr (Some packet_words)
             (of_nat (length packet_words)) kDefaultAddressUnitBytes))"

definition gpu_validate_kernel ::
    "'w os \<Rightarrow> com_dev option \<Rightarrow> u8 \<Rightarrow> ('w, exn, status + unit) action" where
  "gpu_validate_kernel os dev kernel_id =
     (if dev = None then ret (Inl BadArgument)
      else send_packet os dev CMD_VALIDATE (ucast kernel_id) None 0)"

definition gpu_comm_write_constants ::
    "'w os \<Rightarrow> com_dev option \<Rightarrow> transport_config \<Rightarrow> u32 \<Rightarrow> bytes option \<Rightarrow> u64
       \<Rightarrow> ('w, exn, status + unit) action" where
  "gpu_comm_write_constants os dev config dst_addr src sz =
     (if unat sz mod COM_WORD_BYTES \<noteq> 0 then ret (Inl BadArgument)
      else if tc_constants_use_data_memory config then
        write_chunked_command os dev CMD_WRITE_DATA dst_addr src sz (tc_address_unit_bytes config)
      else if tc_address_unit_bytes config \<noteq> kDefaultAddressUnitBytes then ret (Inl BadArgument)
      else andThen (packet_words src sz) (\<lambda>packet_words.
           write_chunked_command os dev CMD_WRITE_CONSTANTS dst_addr (Some packet_words)
             (of_nat (length packet_words)) kDefaultAddressUnitBytes))"

definition gpu_comm_launch ::
    "'w os \<Rightarrow> com_dev option \<Rightarrow> u32 \<Rightarrow> u32 \<Rightarrow> u32 \<Rightarrow> u32 \<Rightarrow> ('w, exn, status + unit) action" where
  "gpu_comm_launch os dev base_pc grid_dim block_dim active_mask =
     (if dev = None then ret (Inl BadArgument)
      else if \<not> fits_u16 base_pc 0 then ret (Inl OutOfRange)
      else
        let payload = put_u32_rtl_rx grid_dim @ put_u32_rtl_rx block_dim @ put_u32_rtl_rx active_mask
        in send_packet os dev CMD_LAUNCH (ucast base_pc) (Some payload) 12)"

definition gpu_comm_read_status ::
    "'w os \<Rightarrow> com_dev option \<Rightarrow> ('w, exn, status + u32) action" where
  "gpu_comm_read_status os dev =
     (if dev = None then ret (Inl BadArgument)
      else on_ok (read_packet os dev CMD_READ_STATUS 0 (Some [0, 0, 0, 0]) 4) (\<lambda>response.
           if cp_cmd response \<noteq> cmd_code CMD_READ_STATUS \<or> unat (cp_len response) < 4
           then ret (Inl Transport)
           else ret (Inr (get_u32_le (cp_payload response)))))"

section \<open>Waiting\<close>

text \<open>The fault a status word reports, in the order the code tests the bits.\<close>

definition status_fault :: "transport_config \<Rightarrow> u32 \<Rightarrow> exn option" where
  "status_fault config status_word =
     (if status_word AND tc_status_error_mask config \<noteq> 0 then
        Some (if status_word AND tc_status_divide_by_zero_bit config \<noteq> 0
              then Error DivideByZero (device_fault_message status_word ''divide by zero'')
              else if status_word AND tc_status_unsupported_bit config \<noteq> 0
              then Error Unsupported (device_fault_message status_word ''unsupported instruction'')
              else if status_word AND tc_status_error_bit config \<noteq> 0
              then Error Transport (device_fault_message status_word ''core error'')
              else Error Transport (device_fault_message status_word ''unknown status error''))
      else None)"

partial_function (option) wait_loop ::
    "'w os \<Rightarrow> com_dev option \<Rightarrow> transport_config \<Rightarrow> u32 \<Rightarrow> int \<Rightarrow> 'w
       \<Rightarrow> ((exn + status) \<times> 'w) option" where
  "wait_loop os dev config timeout_ms start w =
     (case gpu_comm_read_status os dev w of
        (Inl e, w1) \<Rightarrow> Some (Inl e, w1)
      | (Inr (Inl status), w1) \<Rightarrow> Some (Inr status, w1)
      | (Inr (Inr status_word), w1) \<Rightarrow>
          (case status_fault config status_word of
             Some e \<Rightarrow> Some (Inl e, w1)
           | None \<Rightarrow>
               if status_word AND tc_status_done_mask config \<noteq> 0 then Some (Inr Ok, w1)
               else if timeout_ms \<noteq> 0 then
                 (let (now, w2) = os_now os w1
                  in if now - start \<ge> int (unat timeout_ms) * 1000000 then Some (Inr Timeout, w2)
                     else wait_loop os dev config timeout_ms start (os_sleep_ms os 1 w2))
               else wait_loop os dev config timeout_ms start (os_sleep_ms os 1 w1)))"

definition gpu_comm_wait ::
    "'w os \<Rightarrow> com_dev option \<Rightarrow> transport_config \<Rightarrow> u32 \<Rightarrow> ('w, exn, status) action" where
  "gpu_comm_wait os dev config timeout_ms w =
     (let (start, w1) = os_now os w
      in case wait_loop os dev config timeout_ms start w1 of
           None \<Rightarrow> (Inl Diverges, w1)
         | Some r \<Rightarrow> r)"

section \<open>The callback table\<close>

text \<open>
  The destination of a read keeps its bytes beyond those that were copied.
\<close>

definition fill_destination ::
    "bytes option \<Rightarrow> ('w, exn, status \<times> bytes) action \<Rightarrow> ('w, exn, status \<times> bytes) action" where
  "fill_destination dst m =
     andThen m (\<lambda>(st, out). ret (st, out @ drop (length out) (case dst of None \<Rightarrow> [] | Some old \<Rightarrow> old)))"

definition make_gpu_comm_transport :: "'w os \<Rightarrow> com_dev option \<Rightarrow> transport_config \<Rightarrow> 'w transport" where
  "make_gpu_comm_transport os dev config =
     \<lparr>tr_write_data = Some (\<lambda>dst_addr src sz.
        if tc_address_unit_bytes config \<noteq> kDefaultAddressUnitBytes
        then status_of (write_chunked_command os dev CMD_WRITE_DATA dst_addr src sz (tc_address_unit_bytes config))
        else status_of (gpu_comm_write_data os dev dst_addr src sz)),
      tr_read_data = Some (\<lambda>src_addr dst sz.
        fill_destination dst
          (read_chunked_command os dev CMD_READ_DATA src_addr dst sz (tc_address_unit_bytes config))),
      tr_write_program = Some (\<lambda>dst_addr src sz.
        if tc_address_unit_bytes config \<noteq> kDefaultAddressUnitBytes then ret BadArgument
        else status_of (gpu_comm_write_program os dev dst_addr src sz)),
      tr_validate_kernel = Some (\<lambda>kernel_id. status_of (gpu_validate_kernel os dev kernel_id)),
      tr_write_constants = Some (\<lambda>dst_addr src sz.
        status_of (gpu_comm_write_constants os dev config dst_addr src sz)),
      tr_launch = Some (\<lambda>base_pc grid_dim block_dim active_mask.
        status_of (gpu_comm_launch os dev base_pc grid_dim block_dim active_mask)),
      tr_wait = Some (\<lambda>timeout_ms. gpu_comm_wait os dev config timeout_ms)\<rparr>"

end
