(* ===== verification/Regions.thy ===== *)
theory Regions
  imports Blocks
begin

text \<open>
  The contracts of the memory components, as locales. \<open>regions\<close>: a state describes a set of
  (address, size) ranges that never overlap. \<open>region_allocator\<close>: it also hands out and takes back
  ranges. What every client of such an allocator may rely on is proved here once; the device-memory
  allocator and the instruction-memory cache interpret the locales in their own theories.
\<close>

locale regions =
  fixes regions_of :: "'s \<Rightarrow> (nat \<times> nat) set"
    and good :: "'s \<Rightarrow> bool"
  assumes apart: "good s \<Longrightarrow> r \<in> regions_of s \<Longrightarrow> q \<in> regions_of s \<Longrightarrow> r \<noteq> q \<Longrightarrow> \<not> overlaps r q"
    and inhabited: "good s \<Longrightarrow> r \<in> regions_of s \<Longrightarrow> 0 < snd r"
begin

text \<open>An address belongs to at most one range, so ranges at the same address are equal.\<close>

lemma owner_unique:
  assumes "good s" and "r \<in> regions_of s" and "q \<in> regions_of s"
    and "fst r \<le> x" and "x < fst r + snd r" and "fst q \<le> x" and "x < fst q + snd q"
  shows "r = q"
  using apart [OF assms(1-3)] assms(4-7) by (auto simp: overlaps_def)

lemma same_address:
  assumes "good s" and "r \<in> regions_of s" and "q \<in> regions_of s" and "fst r = fst q"
  shows "r = q"
  using owner_unique [OF assms(1-3), of "fst r"] inhabited [OF assms(1,2)]
    inhabited [OF assms(1,3)] assms(4) by simp

end

text \<open>A sequence of requests and releases; a failing one changes nothing.\<close>

datatype 'q mem_op = Take 'q | Drop nat

fun run_op ::
    "('q \<Rightarrow> 's \<Rightarrow> ((nat \<times> nat) \<times> 's) option) \<Rightarrow> (nat \<Rightarrow> 's \<Rightarrow> 's option) \<Rightarrow> 'q mem_op \<Rightarrow> 's \<Rightarrow> 's"
where
  "run_op alloc release (Take q) s = (case alloc q s of None \<Rightarrow> s | Some (_, s') \<Rightarrow> s')"
| "run_op alloc release (Drop a) s = (case release a s of None \<Rightarrow> s | Some s' \<Rightarrow> s')"

locale region_allocator = regions +
  fixes admissible :: "'q \<Rightarrow> bool"
    and alloc :: "'q \<Rightarrow> 's \<Rightarrow> ((nat \<times> nat) \<times> 's) option"
    and release :: "nat \<Rightarrow> 's \<Rightarrow> 's option"
  assumes alloc_good: "good s \<Longrightarrow> admissible q \<Longrightarrow> alloc q s = Some (r, s') \<Longrightarrow> good s'"
    and alloc_regions: "good s \<Longrightarrow> admissible q \<Longrightarrow> alloc q s = Some (r, s') \<Longrightarrow>
          regions_of s' = insert r (regions_of s)"
    and alloc_fresh: "good s \<Longrightarrow> admissible q \<Longrightarrow> alloc q s = Some (r, s') \<Longrightarrow>
          t \<in> regions_of s \<Longrightarrow> \<not> overlaps r t"
    and release_good: "good s \<Longrightarrow> release a s = Some s' \<Longrightarrow> good s'"
    and release_regions: "good s \<Longrightarrow> release a s = Some s' \<Longrightarrow>
          regions_of s' = {r \<in> regions_of s. fst r \<noteq> a}"
    and release_live: "good s \<Longrightarrow> release a s \<noteq> None \<longleftrightarrow> (\<exists>n. (a, n) \<in> regions_of s)"
begin

lemma alloc_new:
  assumes "good s" and "admissible q" and "alloc q s = Some (r, s')"
  shows "r \<notin> regions_of s" and "t \<in> regions_of s \<Longrightarrow> fst t \<noteq> fst r"
proof -
  have g: "good s'" and m: "regions_of s' = insert r (regions_of s)"
    using alloc_good [OF assms] alloc_regions [OF assms] by blast+
  have pos: "0 < snd t" if "t \<in> insert r (regions_of s)" for t
    using inhabited [OF g] that m by simp
  have "overlaps r r" using pos [of r] by (simp add: overlaps_def)
  then show new: "r \<notin> regions_of s" using alloc_fresh [OF assms] by blast
  show "t \<in> regions_of s \<Longrightarrow> fst t \<noteq> fst r"
    using same_address [OF g, of t r] m new by auto
qed

text \<open>Giving a range back right after taking it restores the ranges.\<close>

lemma release_alloc:
  assumes "good s" and "admissible q" and "alloc q s = Some (r, s1)"
  shows "\<exists>s2. release (fst r) s1 = Some s2 \<and> good s2 \<and> regions_of s2 = regions_of s"
proof -
  have g: "good s1" and m: "regions_of s1 = insert r (regions_of s)"
    using alloc_good [OF assms] alloc_regions [OF assms] by blast+
  have "(fst r, snd r) \<in> regions_of s1" using m by simp
  then obtain s2 where s2: "release (fst r) s1 = Some s2"
    using release_live [OF g] by blast
  have "regions_of s2 = {t \<in> insert r (regions_of s). fst t \<noteq> fst r}"
    using release_regions [OF g s2] m by simp
  also have "\<dots> = regions_of s" using alloc_new [OF assms] by auto
  finally show ?thesis using s2 release_good [OF g s2] by blast
qed

text \<open>A range cannot be given back twice.\<close>

lemma release_twice:
  assumes "good s" and "release a s = Some s'"
  shows "release a s' = None"
proof -
  have "\<not> (\<exists>n. (a, n) \<in> regions_of s')" using release_regions [OF assms] by auto
  then show ?thesis using release_live [OF release_good [OF assms]] by blast
qed

lemma run_op_good: "good s \<Longrightarrow> (\<forall>q. op = Take q \<longrightarrow> admissible q) \<Longrightarrow> good (run_op alloc release op s)"
  by (cases op) (auto split: option.splits intro: alloc_good release_good)

lemma run_op_keeps:
  assumes "good s" and "r \<in> regions_of s" and "op \<noteq> Drop (fst r)"
    and "\<forall>q. op = Take q \<longrightarrow> admissible q"
  shows "r \<in> regions_of (run_op alloc release op s)"
proof (cases op)
  case (Take q)
  then show ?thesis
    using assms alloc_regions [OF assms(1), of q] by (auto split: option.splits)
next
  case (Drop a)
  then show ?thesis
    using assms release_regions [OF assms(1), of a] by (auto split: option.splits)
qed

text \<open>No sequence of other requests and releases touches a live range.\<close>

lemma run_ops_keep:
  assumes "good s" and "r \<in> regions_of s"
    and "\<forall>op \<in> set ops. op \<noteq> Drop (fst r) \<and> (\<forall>q. op = Take q \<longrightarrow> admissible q)"
  shows "good (fold (run_op alloc release) ops s)
       \<and> r \<in> regions_of (fold (run_op alloc release) ops s)"
  using assms
proof (induction ops arbitrary: s)
  case (Cons op ops)
  then show ?case using run_op_good [of s op] run_op_keeps [of s r op] by simp
qed simp

end

end
