(* ===== verification/DeviceMemory.thy ===== *)
theory DeviceMemory
  imports Context Regions
begin

text \<open>
  Device memory: \<open>Context::device_malloc\<close>, \<open>device_malloc_aligned\<close>, \<open>device_free\<close>,
  \<open>copy_to_device\<close>, \<open>copy_from_device\<close> of \<open>runtime/src/minigpu_runtime.cpp\<close>. The allocator is
  shown to keep the block list a packed tiling of the managed range, to refine the abstract region
  allocator of \<open>Regions\<close>, and to fail only when no free block has room.
\<close>

record device_buffer =
  db_context :: bool
  db_addr :: u32
  db_size :: u64

section \<open>Allocation\<close>

text \<open>The body of the first-fit loop for the block that is taken.\<close>

definition malloc_at :: "u64 \<Rightarrow> u32 \<Rightarrow> u64 \<Rightarrow> nat \<Rightarrow> block list \<Rightarrow> u32 \<times> block list" where
  "malloc_at sz aligned padding index blocks =
     (let block = blocks ! index;
          (blocks1, index1) =
            (if padding \<noteq> 0 then
               (insert_at index \<lparr>boffset = boffset block, bsize = padding, bfree = True\<rparr>
                  (blocks[index := block\<lparr>boffset := aligned, bsize := bsize block - padding\<rparr>]),
                index + 1)
             else (blocks, index));
          alloc_addr = boffset (blocks1 ! index1)
      in (alloc_addr, claim_at index1 sz blocks1))"

function malloc_scan :: "u64 \<Rightarrow> u64 \<Rightarrow> nat \<Rightarrow> block list \<Rightarrow> exn + u32 \<times> block list" where
  "malloc_scan sz alignment index blocks =
     (if index < length blocks then
        let block = blocks ! index
        in if \<not> bfree block then malloc_scan sz alignment (index + 1) blocks
           else (case align_up_addr (boffset block) alignment of
               None \<Rightarrow> Inl (Undefined ''division by zero in align_up_addr'')
             | Some aligned \<Rightarrow>
                 let padding = widen (aligned - boffset block)
                 in if padding > bsize block \<or> sz > bsize block - padding
                    then malloc_scan sz alignment (index + 1) blocks
                    else Inr (malloc_at sz aligned padding index blocks))
      else Inl (error NoMemory))"
  by pat_completeness auto
termination
  by (relation "measure (\<lambda>(sz, alignment, index, blocks). length blocks - index)") auto

declare malloc_scan.simps [simp del]

definition device_malloc_aligned ::
    "u64 \<Rightarrow> u64 \<Rightarrow> ('d gpu_context, exn, device_buffer) action" where
  "device_malloc_aligned size0 alignment c =
     (if size0 = 0 \<or> alignment = 0 then (Inl (error BadArgument), c)
      else
        let sz = align_up_size size0 alignment
        in case malloc_scan sz alignment 0 (ctx_blocks c) of
             Inl e \<Rightarrow> (Inl e, c)
           | Inr (alloc_addr, blocks) \<Rightarrow>
               (Inr \<lparr>db_context = True, db_addr = alloc_addr, db_size = sz\<rparr>,
                log_event
                  (''device_malloc addr=0x'' @ hex (unat alloc_addr) @ '' bytes='' @ dec (unat sz))
                  (c\<lparr>ctx_blocks := blocks\<rparr>)))"

definition device_malloc :: "u64 \<Rightarrow> ('d gpu_context, exn, device_buffer) action" where
  "device_malloc sz c = device_malloc_aligned sz (ctx_default_alignment c) c"

section \<open>Release\<close>

text \<open>The search loop of \<open>device_free\<close>: the block freed is the first used one at the address.\<close>

fun mark_free :: "u32 \<Rightarrow> block list \<Rightarrow> block list option" where
  "mark_free addr [] = None"
| "mark_free addr (b # bs) =
     (if \<not> bfree b \<and> boffset b = addr then Some (b\<lparr>bfree := True\<rparr> # bs)
      else map_option (\<lambda>bs'. b # bs') (mark_free addr bs))"

definition device_free :: "u32 \<Rightarrow> 'd gpu_context \<Rightarrow> status \<times> 'd gpu_context" where
  "device_free addr c =
     (case mark_free addr (ctx_blocks c) of
        None \<Rightarrow> (NotFound, c)
      | Some blocks \<Rightarrow>
          (Ok, log_event (''device_free addr=0x'' @ hex (unat addr))
                 (c\<lparr>ctx_blocks := coalesce_blocks blocks\<rparr>)))"

section \<open>Transfers\<close>

definition copy_to_device :: "u32 \<Rightarrow> bytes option \<Rightarrow> u64 \<Rightarrow> ('d sys, exn, unit) action" where
  "copy_to_device dst_addr src sz s =
     (let (c, d) = s
      in if src = None \<and> sz \<noteq> 0 then (Inl (error BadArgument), s)
      else if \<not> range_is_allocated dst_addr sz c then (Inl (error OutOfRange), s)
      else if sz = 0 then (Inr (), s)
      else case tr_write_data (ctx_transport c) of
          None \<Rightarrow> (Inl (error Unsupported), s)
        | Some write_data \<Rightarrow>
            let c' = log_event (''copy_to_device addr=0x'' @ hex (unat dst_addr)
                        @ '' bytes='' @ dec (unat sz)) c
            in (case write_data dst_addr src sz d of
                  (Inl e, d') \<Rightarrow> (Inl e, (c', d'))
                | (Inr st, d') \<Rightarrow> check st (c', d')))"

definition copy_from_device ::
    "bytes option \<Rightarrow> u32 \<Rightarrow> u64 \<Rightarrow> ('d sys, exn, bytes) action" where
  "copy_from_device dst src_addr sz s =
     (let (c, d) = s
      in if dst = None \<and> sz \<noteq> 0 then (Inl (error BadArgument), s)
      else if \<not> range_is_allocated src_addr sz c then (Inl (error OutOfRange), s)
      else if sz = 0 then (Inr (case dst of None \<Rightarrow> [] | Some bs \<Rightarrow> bs), s)
      else case tr_read_data (ctx_transport c) of
          None \<Rightarrow> (Inl (error Unsupported), s)
        | Some read_data \<Rightarrow>
            let c' = log_event (''copy_from_device addr=0x'' @ hex (unat src_addr)
                        @ '' bytes='' @ dec (unat sz)) c
            in (case read_data src_addr dst sz d of
                  (Inl e, d') \<Rightarrow> (Inl e, (c', d'))
                | (Inr (st, bs), d') \<Rightarrow>
                    (case check st (c', d') of
                       (Inl e, s') \<Rightarrow> (Inl e, s')
                     | (Inr _, s') \<Rightarrow> (Inr bs, s'))))"

section \<open>The first-fit loop\<close>

text \<open>A block has room for \<open>n\<close> bytes at an address that is a multiple of \<open>k\<close>.\<close>

definition has_room :: "nat \<Rightarrow> nat \<Rightarrow> block \<Rightarrow> bool" where
  "has_room k n b \<longleftrightarrow>
     bfree b \<and> round_up k (unat (boffset b)) + n \<le> unat (boffset b) + unat (bsize b)"

lemma malloc_at_eq:
  assumes "j < length bs" and "pad = widen (aligned - boffset (bs ! j))"
  shows "malloc_at sz aligned pad j bs
       = (aligned, take j bs @ placed pad aligned sz (bs ! j) @ drop (Suc j) bs)"
proof (cases "pad = 0")
  case True
  then have "aligned = boffset (bs ! j)"
    using assms(2) by (metis eq_iff_diff_eq_0 unat_0 unat_eq_zero unat_widen)
  then show ?thesis
    using True assms(1) by (simp add: malloc_at_def placed_def lead_def claim_at_carve)
next
  case False
  let ?b = "(bs ! j)\<lparr>boffset := aligned, bsize := bsize (bs ! j) - pad\<rparr>"
  let ?p = "\<lparr>boffset = boffset (bs ! j), bsize = pad, bfree = True\<rparr>"
  have ins: "insert_at j ?p (bs[j := ?b]) = (take j bs @ [?p]) @ ?b # drop (Suc j) bs"
    using assms(1) by (simp add: insert_at_def upd_conv_take_nth_drop)
  have len: "length (take j bs @ [?p]) = j + 1" using assms(1) by simp
  have "claim_at (j + 1) sz ((take j bs @ [?p]) @ ?b # drop (Suc j) bs)
      = (take j bs @ [?p]) @ carve sz ?b @ drop (Suc j) bs"
    using assms(1) len by (subst claim_at_carve) (simp_all add: nth_append)
  moreover have "((take j bs @ [?p]) @ ?b # drop (Suc j) bs) ! (j + 1) = ?b"
    using len by (metis nth_append_length)
  ultimately show ?thesis
    using False ins by (simp add: malloc_at_def placed_def lead_def Let_def)
qed

lemma malloc_scan_found:
  assumes "malloc_scan sz alignment i bs = Inr (a, bs')"
  shows "\<exists>j pad. i \<le> j \<and> j < length bs \<and> bfree (bs ! j)
           \<and> align_up_addr (boffset (bs ! j)) alignment = Some a
           \<and> pad = widen (a - boffset (bs ! j)) \<and> pad \<le> bsize (bs ! j)
           \<and> sz \<le> bsize (bs ! j) - pad
           \<and> bs' = take j bs @ placed pad a sz (bs ! j) @ drop (Suc j) bs"
  using assms
proof (induction sz alignment i bs rule: malloc_scan.induct)
  case (1 sz alignment i bs)
  note step = "1.prems" [unfolded malloc_scan.simps [of sz alignment i bs] Let_def]
  have len: "i < length bs" using step by (auto split: if_splits)
  show ?case
  proof (cases "bfree (bs ! i)")
    case False
    then have "malloc_scan sz alignment (i + 1) bs = Inr (a, bs')"
      using step len by simp
    from "1.IH"(1) [OF len refl False this] show ?thesis by (auto intro: Suc_leD)
  next
    case True
    then obtain al where al: "align_up_addr (boffset (bs ! i)) alignment = Some al"
      using step len by (auto split: option.splits)
    let ?pad = "widen (al - boffset (bs ! i))"
    show ?thesis
    proof (cases "?pad > bsize (bs ! i) \<or> sz > bsize (bs ! i) - ?pad")
      case skip: True
      then have "malloc_scan sz alignment (i + 1) bs = Inr (a, bs')"
        using step len True al by (simp add: Let_def)
      from "1.IH"(2) [OF len refl _ al refl skip this] True show ?thesis
        by (auto intro: Suc_leD)
    next
      case take: False
      then have "Inr (a, bs') = (Inr (malloc_at sz al ?pad i bs) :: exn + u32 \<times> block list)"
        using step len True al by (simp add: Let_def)
      then have "a = al" "bs' = take i bs @ placed ?pad al sz (bs ! i) @ drop (Suc i) bs"
        using malloc_at_eq [OF len refl, of sz al] by simp_all
      then show ?thesis using len True al take by (intro exI [of _ i]) (auto simp: not_less)
    qed
  qed
qed

lemma no_room_iff:
  assumes "align_up_addr (boffset b) alignment = Some al" and "alignment \<noteq> 0"
    and "unat alignment < 2 ^ 32" and "bfree b"
  shows "widen (al - boffset b) > bsize b \<or> sz > bsize b - widen (al - boffset b)
     \<longleftrightarrow> \<not> has_room (unat alignment) (unat sz) b"
proof -
  let ?pad = "widen (al - boffset b)"
  have pad: "unat ?pad = round_up (unat alignment) (unat (boffset b)) - unat (boffset b)"
    using align_up_addr_padding [OF assms(1-3)] by simp
  have ge: "unat (boffset b) \<le> round_up (unat alignment) (unat (boffset b))"
    by (rule round_up_ge)
  show ?thesis
  proof (cases "?pad > bsize b")
    case True
    then show ?thesis using pad ge by (auto simp: has_room_def word_less_nat_alt)
  next
    case False
    then have "unat (bsize b - ?pad) = unat (bsize b) - unat ?pad"
      by (intro unat_sub_le) (simp add: word_less_nat_alt)
    then show ?thesis
      using False pad ge assms(4) by (auto simp: has_room_def word_less_nat_alt)
  qed
qed

lemma malloc_scan_failed:
  assumes "malloc_scan sz alignment i bs = Inl e" and "alignment \<noteq> 0" and "unat alignment < 2 ^ 32"
  shows "e = error NoMemory \<and> (\<forall>b \<in> set (drop i bs). \<not> has_room (unat alignment) (unat sz) b)"
  using assms
proof (induction sz alignment i bs rule: malloc_scan.induct)
  case (1 sz alignment i bs)
  note step = "1.prems"(1) [unfolded malloc_scan.simps [of sz alignment i bs] Let_def]
  show ?case
  proof (cases "i < length bs")
    case False
    then show ?thesis using step by simp
  next
    case len: True
    then have d: "drop i bs = bs ! i # drop (i + 1) bs" by (simp add: Cons_nth_drop_Suc)
    show ?thesis
    proof (cases "bfree (bs ! i)")
      case False
      then have "malloc_scan sz alignment (i + 1) bs = Inl e" using step len by simp
      from "1.IH"(1) [OF len refl False this "1.prems"(2,3)] show ?thesis
        using False by (simp add: d has_room_def)
    next
      case True
      obtain al where al: "align_up_addr (boffset (bs ! i)) alignment = Some al"
        using align_up_addr_defined [OF "1.prems"(2,3)] by blast
      let ?pad = "widen (al - boffset (bs ! i))"
      have skip: "?pad > bsize (bs ! i) \<or> sz > bsize (bs ! i) - ?pad"
        using step len True al by (auto simp: Let_def split: if_splits)
      then have "malloc_scan sz alignment (i + 1) bs = Inl e"
        using step len True al by (simp add: Let_def)
      from "1.IH"(2) [OF len refl _ al refl skip this "1.prems"(2,3)] True skip
      show ?thesis using no_room_iff [OF al "1.prems"(2,3) True] by (simp add: d)
    qed
  qed
qed

section \<open>What the allocator guarantees\<close>

definition request_ok :: "u64 \<Rightarrow> u64 \<Rightarrow> bool" where
  "request_ok sz alignment \<longleftrightarrow>
     sz \<noteq> 0 \<and> alignment \<noteq> 0 \<and> unat alignment < 2 ^ 32 \<and>
     round_up (unat alignment) (unat sz) < 2 ^ 64"

abbreviation grant :: "u64 \<Rightarrow> u64 \<Rightarrow> nat" where
  "grant sz alignment \<equiv> round_up (unat alignment) (unat sz)"

lemma device_malloc_Inr:
  assumes "device_malloc_aligned sz alignment c = (Inr buf, c')"
  shows "\<exists>blocks e. malloc_scan (align_up_size sz alignment) alignment 0 (ctx_blocks c)
             = Inr (db_addr buf, blocks)
           \<and> db_context buf \<and> db_size buf = align_up_size sz alignment
           \<and> c' = log_event e (c\<lparr>ctx_blocks := blocks\<rparr>)"
  using assms by (auto simp: device_malloc_aligned_def Let_def split: if_splits sum.splits)

lemma device_malloc_correct:
  assumes ok: "mem_ok c" and req: "request_ok sz alignment"
    and run: "device_malloc_aligned sz alignment c = (Inr buf, c')"
  shows "mem_ok c'"
    and "live (ctx_blocks c') = insert (unat (db_addr buf), grant sz alignment) (live (ctx_blocks c))"
    and "r \<in> live (ctx_blocks c) \<Longrightarrow> \<not> overlaps (unat (db_addr buf), grant sz alignment) r"
    and "unat alignment dvd unat (db_addr buf)"
    and "unat (db_size buf) = grant sz alignment"
    and "free_bytes (ctx_blocks c') + grant sz alignment = free_bytes (ctx_blocks c)"
    and "mem_lo c \<le> unat (db_addr buf)" and "unat (db_addr buf) + grant sz alignment \<le> mem_hi c"
proof -
  let ?sz = "align_up_size sz alignment"
  let ?bs = "ctx_blocks c"
  have al: "alignment \<noteq> 0" "unat alignment < 2 ^ 32" and sz: "unat ?sz = grant sz alignment"
    using req by (auto simp: request_ok_def unat_align_up_size)
  have pos: "0 < unat ?sz"
  proof -
    have "0 < unat sz" using req by (simp add: request_ok_def unat_gt_0)
    then show ?thesis using round_up_ge [of "unat sz" "unat alignment"] sz by simp
  qed
  obtain blocks e where scan: "malloc_scan ?sz alignment 0 ?bs = Inr (db_addr buf, blocks)"
    and size: "db_size buf = ?sz" and c': "c' = log_event e (c\<lparr>ctx_blocks := blocks\<rparr>)"
    using device_malloc_Inr [OF run] by blast
  obtain j pad where j: "j < length ?bs" "bfree (?bs ! j)"
    and aligned: "align_up_addr (boffset (?bs ! j)) alignment = Some (db_addr buf)"
    and pad: "pad = widen (db_addr buf - boffset (?bs ! j))"
    and fit: "pad \<le> bsize (?bs ! j)" "?sz \<le> bsize (?bs ! j) - pad"
    and blocks: "blocks = take j ?bs @ placed pad (db_addr buf) ?sz (?bs ! j) @ drop (Suc j) ?bs"
    using malloc_scan_found [OF scan] by blast
  have split: "?bs = take j ?bs @ ?bs ! j # drop (Suc j) ?bs"
    using j(1) by (rule id_take_nth_drop)
  have tile: "tiles (mem_lo c) (take j ?bs @ ?bs ! j # drop (Suc j) ?bs) (mem_hi c)"
    and hi: "mem_hi c < 2 ^ 32"
    using ok mem_hi_bound [OF ok] split by (simp_all add: mem_ok_def)
  have room: "unat pad + unat ?sz \<le> unat (bsize (?bs ! j))"
    using fit unat_sub_le [of pad "bsize (?bs ! j)"] by (simp add: word_le_nat_alt)
  have padn: "unat pad = round_up (unat alignment) (unat (boffset (?bs ! j))) - unat (boffset (?bs ! j))"
    using align_up_addr_padding [OF aligned al] pad by simp
  have bnd: "unat (boffset (?bs ! j)) + unat (bsize (?bs ! j)) \<le> mem_hi c"
    using tiles_member(3) [OF tile, of "?bs ! j"] by simp
  have "unat (boffset (?bs ! j) + (db_addr buf - boffset (?bs ! j)))
      = unat (boffset (?bs ! j)) + unat (db_addr buf - boffset (?bs ! j))"
    using room bnd hi pad by (intro unat_add_small) simp
  then have addr: "unat (db_addr buf) = unat (boffset (?bs ! j)) + unat pad"
    using pad by simp
  note placed = placed_correct [OF tile hi j(2) pos room addr]
  show "mem_ok c'"
    using ok c' blocks placed(1,4) split
    by (simp add: mem_ok_def mem_lo_def mem_hi_def memory_size_def)
  show "live (ctx_blocks c') = insert (unat (db_addr buf), grant sz alignment) (live ?bs)"
    using placed(2) c' blocks split sz by simp
  show "free_bytes (ctx_blocks c') + grant sz alignment = free_bytes ?bs"
    using placed(3) c' blocks split sz by simp
  show "r \<in> live ?bs \<Longrightarrow> \<not> overlaps (unat (db_addr buf), grant sz alignment) r"
    using placed_fresh [OF tile j(2) pos room addr] split sz by simp
  show "unat alignment dvd unat (db_addr buf)"
    using addr padn al(1) round_up_ge [of "unat (boffset (?bs ! j))" "unat alignment"]
    by (simp add: round_up_dvd unat_gt_0)
  show "unat (db_size buf) = grant sz alignment" using size sz by simp
  show "mem_lo c \<le> unat (db_addr buf)"
    using tiles_member(1) [OF tile, of "?bs ! j"] addr by simp
  show "unat (db_addr buf) + grant sz alignment \<le> mem_hi c"
    using addr room bnd sz by simp
qed

text \<open>A valid request fails only for want of room, and then changes nothing.\<close>

lemma device_malloc_fails:
  assumes "request_ok sz alignment" and "device_malloc_aligned sz alignment c = (Inl e, c')"
  shows "c' = c \<and> e = error NoMemory
       \<and> (\<forall>b \<in> set (ctx_blocks c). \<not> has_room (unat alignment) (grant sz alignment) b)"
proof -
  have al: "alignment \<noteq> 0" "unat alignment < 2 ^ 32"
    and sz: "unat (align_up_size sz alignment) = grant sz alignment"
    using assms(1) by (auto simp: request_ok_def unat_align_up_size)
  have "malloc_scan (align_up_size sz alignment) alignment 0 (ctx_blocks c) = Inl e" "c' = c"
    using assms by (auto simp: device_malloc_aligned_def request_ok_def Let_def
        split: if_splits sum.splits)
  then show ?thesis using malloc_scan_failed [OF _ al, of _ 0] sz by fastforce
qed

section \<open>What releasing guarantees\<close>

lemma mark_free_Some:
  "mark_free addr bs = Some bs' \<Longrightarrow>
     \<exists>pre b post. bs = pre @ b # post \<and> \<not> bfree b \<and> boffset b = addr
       \<and> bs' = pre @ b\<lparr>bfree := True\<rparr> # post"
proof (induction bs arbitrary: bs')
  case (Cons b bs)
  show ?case
  proof (cases "\<not> bfree b \<and> boffset b = addr")
    case True
    then show ?thesis using Cons.prems by (intro exI [of _ "[]"] exI [of _ b] exI [of _ bs]) auto
  next
    case False
    then obtain bs'' where "mark_free addr bs = Some bs''" "bs' = b # bs''"
      using Cons.prems by (auto split: if_splits)
    then show ?thesis using Cons.IH [of bs''] by (metis append_Cons)
  qed
qed simp

lemma mark_free_None: "mark_free addr bs = None \<longleftrightarrow> (\<forall>b \<in> set bs. bfree b \<or> boffset b \<noteq> addr)"
  by (induction bs) auto

lemma mark_free_live:
  "mark_free addr bs \<noteq> None \<longleftrightarrow> (\<exists>n. (unat addr, n) \<in> live bs)"
proof -
  have "mark_free addr bs \<noteq> None \<longleftrightarrow> (\<exists>b \<in> set bs. \<not> bfree b \<and> unat (boffset b) = unat addr)"
    using mark_free_None [of addr bs] by (simp add: word_unat_eq_iff)
  also have "\<dots> \<longleftrightarrow> (\<exists>n. (unat addr, n) \<in> live bs)" by (auto simp: live_def) metis
  finally show ?thesis .
qed

text \<open>Freeing the block at an address takes exactly that range out of the live ones.\<close>

lemma mark_free_correct:
  assumes tile: "tiles lo bs hi" and mark: "mark_free addr bs = Some bs'"
  shows "tiles lo bs' hi"
    and "live bs' = {r \<in> live bs. fst r \<noteq> unat addr}"
    and "(unat addr, n) \<in> live bs \<Longrightarrow> free_bytes bs' = free_bytes bs + n"
proof -
  obtain pre b post where bs: "bs = pre @ b # post" and b: "\<not> bfree b" "boffset b = addr"
    and bs': "bs' = pre @ b\<lparr>bfree := True\<rparr> # post"
    using mark_free_Some [OF mark] by blast
  have tile0: "tiles lo (pre @ b # post) hi" using tile bs by simp
  then show "tiles lo bs' hi" by (auto simp: tiles_append bs')
  have "fst r \<noteq> unat addr" if r: "r \<in> live (pre @ post)" for r
  proof
    assume eq: "fst r = unat addr"
    obtain x where x: "x \<in> set (pre @ post)" "r = (unat (boffset x), unat (bsize x))"
      using r by (auto simp: live_def)
    have "0 < snd r" using tiles_member(2) [OF tile0, of x] x by auto
    moreover have "0 < unat (bsize b)" using tiles_member(2) [OF tile0, of b] by simp
    ultimately show False using live_apart [OF tile0 r] eq b(2) by auto
  qed
  then show "live bs' = {r \<in> live bs. fst r \<noteq> unat addr}"
    using b by (auto simp: bs bs')
  assume "(unat addr, n) \<in> live bs"
  moreover have "(unat addr, unat (bsize b)) \<in> live bs" using bs b by simp
  ultimately have "n = unat (bsize b)" using live_functional [OF tile] by blast
  then show "free_bytes bs' = free_bytes bs + n" using bs b bs' by simp
qed

lemma device_free_Ok:
  assumes ok: "mem_ok c" and run: "device_free addr c = (Ok, c')"
  shows "mem_ok c'"
    and "live (ctx_blocks c') = {r \<in> live (ctx_blocks c). fst r \<noteq> unat addr}"
    and "(unat addr, n) \<in> live (ctx_blocks c) \<Longrightarrow>
           free_bytes (ctx_blocks c') = free_bytes (ctx_blocks c) + n"
proof -
  obtain blocks e where mark: "mark_free addr (ctx_blocks c) = Some blocks"
    and c': "c' = log_event e (c\<lparr>ctx_blocks := coalesce_blocks blocks\<rparr>)"
    using run by (auto simp: device_free_def split: option.splits)
  have tile: "tiles (mem_lo c) (ctx_blocks c) (mem_hi c)" using ok by (simp add: mem_ok_def)
  note m = mark_free_correct [OF tile mark]
  note co = coalesce_correct [OF m(1) mem_hi_bound [OF ok]]
  show "mem_ok c'"
    using ok co c' by (simp add: mem_ok_def mem_lo_def mem_hi_def memory_size_def coalesce_blocks_eq)
  show "live (ctx_blocks c') = {r \<in> live (ctx_blocks c). fst r \<noteq> unat addr}"
    using co c' m(2) by (simp add: coalesce_blocks_eq)
  show "(unat addr, n) \<in> live (ctx_blocks c) \<Longrightarrow>
      free_bytes (ctx_blocks c') = free_bytes (ctx_blocks c) + n"
    using co c' m(3) by (simp add: coalesce_blocks_eq)
qed

lemma device_free_NotFound:
  "fst (device_free addr c) = Ok \<longleftrightarrow> (\<exists>n. (unat addr, n) \<in> live (ctx_blocks c))"
  "fst (device_free addr c) \<noteq> Ok \<Longrightarrow> device_free addr c = (NotFound, c)"
  using mark_free_live [of addr "ctx_blocks c"]
  by (auto simp: device_free_def split: option.splits)

section \<open>The constructor and the accessors\<close>

lemma context_new_Inr:
  assumes "context_new env cfg = Inr c"
  shows "\<exists>spill align path logging.
    cfg_program_memory_size cfg \<noteq> 0 \<and> unat (cfg_program_memory_size cfg) mod 4 = 0 \<and>
    \<not> add_overflows_addr (cfg_memory_base cfg) (cfg_memory_size cfg) \<and>
    spill < cfg_memory_size cfg \<and> align \<noteq> 0 \<and>
    c = log_event ''context created''
      \<lparr>ctx_memory_base = cfg_memory_base cfg, ctx_memory_size = cfg_memory_size cfg,
       ctx_program_memory_size = cfg_program_memory_size cfg, ctx_program_cache_clock = 0,
       ctx_compiler_spill_base = cfg_memory_base cfg + narrow (cfg_memory_size cfg - spill),
       ctx_compiler_spill_size = spill, ctx_default_alignment = align,
       ctx_transport = cfg_transport cfg,
       ctx_blocks = [\<lparr>boffset = cfg_memory_base cfg, bsize = cfg_memory_size cfg - spill, bfree = True\<rparr>],
       ctx_program_blocks = [\<lparr>boffset = 0, bsize = cfg_program_memory_size cfg, bfree = True\<rparr>],
       ctx_program_cache = [], ctx_kernels = [], ctx_logging_enabled = logging,
       ctx_log_path = path, ctx_log = []\<rparr>"
proof -
  define align where "align = (if cfg_default_alignment cfg \<noteq> 0 then cfg_default_alignment cfg else 4)"
  define spill where
    "spill = align_up_size (min kCompilerSpillBytes (max 4 (cfg_memory_size cfg div 8))) align"
  define path0 where
    "path0 = (if cfg_log_path cfg = [] then env_log_path env else cfg_log_path cfg)"
  define logging where "logging = (cfg_enable_logging cfg \<or> path0 \<noteq> [])"
  define path where
    "path = (if logging \<and> path0 = [] then ''/tmp/minigpu_runtime.log'' else path0)"
  note H = assms [unfolded context_new_def Let_def, folded align_def, folded spill_def path0_def,
    folded logging_def, folded path_def]
  have "align \<noteq> 0" by (simp add: align_def)
  moreover have m: "unat (cfg_program_memory_size cfg mod 4) = 0"
    using H by (simp split: if_split_asm)
  then have "unat (cfg_program_memory_size cfg) mod 4 = 0"
    by (simp only: unat_mod unat_numeral) simp
  moreover have "spill < cfg_memory_size cfg" "cfg_program_memory_size cfg \<noteq> 0"
    "\<not> add_overflows_addr (cfg_memory_base cfg) (cfg_memory_size cfg)"
    using H by (simp_all add: not_le split: if_split_asm)
  ultimately show ?thesis
    using H by (intro exI [of _ spill] exI [of _ align] exI [of _ path] exI [of _ logging])
      (simp split: if_split_asm)
qed

lemma context_new_cases:
  assumes "context_new env cfg = Inr c"
  shows "ctx_memory_base c = cfg_memory_base cfg" and "ctx_memory_size c = cfg_memory_size cfg"
    and "ctx_program_memory_size c = cfg_program_memory_size cfg"
    and "ctx_compiler_spill_size c < ctx_memory_size c"
    and "\<not> add_overflows_addr (ctx_memory_base c) (ctx_memory_size c)"
    and "ctx_program_memory_size c \<noteq> 0" and "unat (ctx_program_memory_size c) mod 4 = 0"
    and "ctx_compiler_spill_base c = ctx_memory_base c + narrow (memory_size c)"
    and "ctx_blocks c = [\<lparr>boffset = ctx_memory_base c, bsize = memory_size c, bfree = True\<rparr>]"
    and "ctx_program_blocks c = [\<lparr>boffset = 0, bsize = ctx_program_memory_size c, bfree = True\<rparr>]"
    and "ctx_program_cache c = []" and "ctx_kernels c = []" and "ctx_program_cache_clock c = 0"
    and "ctx_transport c = cfg_transport cfg" and "ctx_default_alignment c \<noteq> 0"
  using context_new_Inr [OF assms] by (auto simp: memory_size_def)

lemma context_new_mem_ok:
  assumes "context_new env cfg = Inr c"
  shows "mem_ok c" and "mem_lo c < mem_hi c" and "live (ctx_blocks c) = {}"
proof -
  note new = context_new_cases [OF assms]
  let ?lo = "unat (ctx_memory_base c)" and ?n = "unat (memory_size c)"
  have size: "?n = unat (ctx_memory_size c) - unat (ctx_compiler_spill_size c)"
    "unat (ctx_compiler_spill_size c) < unat (ctx_memory_size c)"
    using new(4) by (simp_all add: memory_size_def unat_sub_le word_less_nat_alt)
  have fits: "?lo + unat (ctx_memory_size c) < 2 ^ 32"
    using new(5) add_overflows_addr_iff [of "ctx_memory_base c" "ctx_memory_size c"] by simp
  then have "unat (ctx_memory_base c + narrow (memory_size c)) = ?lo + ?n"
    using size by (subst unat_add_small) simp_all
  then show "mem_ok c"
    using new fits size by (simp add: mem_ok_def mem_lo_def mem_hi_def)
  show "mem_lo c < mem_hi c" using size by (simp add: mem_lo_def mem_hi_def)
  show "live (ctx_blocks c) = {}" using new(9) by simp
qed

lemma memory_free_loop_total:
  "unat acc + free_bytes bs < 2 ^ 64 \<Longrightarrow>
     unat (memory_free_loop acc bs) = unat acc + free_bytes bs"
  by (induction bs arbitrary: acc) (auto simp: unat_add_small)

lemma memory_free_bytes:
  assumes "mem_ok c"
  shows "unat (memory_free c) = free_bytes (ctx_blocks c)"
proof -
  have "free_bytes (ctx_blocks c) \<le> mem_hi c"
    using assms tiles_total by (fastforce simp: mem_ok_def)
  then show ?thesis
    using mem_hi_bound [OF assms] by (simp add: memory_free_def memory_free_loop_total)
qed

text \<open>The range check accepts exactly the ranges inside one live allocation.\<close>

lemma range_is_allocated_iff:
  assumes "mem_ok c" and "sz \<noteq> 0"
  shows "range_is_allocated addr sz c \<longleftrightarrow>
     (\<exists>(o', n) \<in> live (ctx_blocks c). o' \<le> unat addr \<and> unat addr + unat sz \<le> o' + n)"
proof -
  have end_eq: "unat (widen (boffset b) + bsize b) = unat (boffset b) + unat (bsize b)"
    and end_lt: "unat (boffset b) + unat (bsize b) < 2 ^ 32" if "b \<in> set (ctx_blocks c)" for b
  proof -
    show lt: "unat (boffset b) + unat (bsize b) < 2 ^ 32"
      using tiles_member(3) [of "mem_lo c" "ctx_blocks c" "mem_hi c" b] assms(1) that
        mem_hi_bound [OF assms(1)] by (simp add: mem_ok_def)
    show "unat (widen (boffset b) + bsize b) = unat (boffset b) + unat (bsize b)"
      using lt by (subst unat_add_small) simp_all
  qed
  have "(addr \<ge> boffset b \<and> \<not> add_overflows_addr addr sz \<and>
          widen addr + sz \<le> widen (boffset b) + bsize b)
      \<longleftrightarrow> unat (boffset b) \<le> unat addr \<and> unat addr + unat sz \<le> unat (boffset b) + unat (bsize b)"
    if b: "b \<in> set (ctx_blocks c)" for b
  proof (cases "unat addr + unat sz < 2 ^ 32")
    case True
    then have "unat (widen addr + sz) = unat addr + unat sz"
      by (subst unat_add_small) simp_all
    then show ?thesis
      using True end_eq [OF b] by (simp add: add_overflows_addr_iff word_le_nat_alt)
  next
    case False
    then show ?thesis using end_lt [OF b] by (simp add: add_overflows_addr_iff)
  qed
  then show ?thesis
    using assms(2) by (auto simp: range_is_allocated_def list_ex_iff live_def)
qed

section \<open>The allocator as a region allocator\<close>

definition malloc_op :: "u64 \<times> u64 \<Rightarrow> 'd gpu_context \<Rightarrow> ((nat \<times> nat) \<times> 'd gpu_context) option" where
  "malloc_op q c =
     (case device_malloc_aligned (fst q) (snd q) c of
        (Inl _, _) \<Rightarrow> None
      | (Inr buf, c') \<Rightarrow> Some ((unat (db_addr buf), unat (db_size buf)), c'))"

definition free_op :: "nat \<Rightarrow> 'd gpu_context \<Rightarrow> 'd gpu_context option" where
  "free_op a c =
     (if a < 2 ^ 32 then
        (case device_free (of_nat a) c of (Ok, c') \<Rightarrow> Some c' | _ \<Rightarrow> None)
      else None)"

lemma free_op_Some:
  "free_op a c = Some c' \<longleftrightarrow> a < 2 ^ 32 \<and> device_free (of_nat a) c = (Ok, c')"
  by (auto simp: free_op_def split: prod.splits status.splits)

lemma malloc_op_Some:
  "malloc_op q c = Some (r, c') \<longleftrightarrow>
     (\<exists>buf. device_malloc_aligned (fst q) (snd q) c = (Inr buf, c')
        \<and> r = (unat (db_addr buf), unat (db_size buf)))"
  by (auto simp: malloc_op_def split: prod.splits sum.splits)

interpretation devmem: region_allocator
  "\<lambda>c. live (ctx_blocks c)" mem_ok "\<lambda>q. request_ok (fst q) (snd q)" malloc_op free_op
proof (unfold_locales, goal_cases)
  case (1 s r q)
  then show ?case using live_disjoint [of "mem_lo s" "ctx_blocks s" "mem_hi s" r q]
    by (simp add: mem_ok_def)
next
  case (2 s r)
  then show ?case using live_bounds [of "mem_lo s" "ctx_blocks s" "mem_hi s" "fst r" "snd r"]
    by (simp add: mem_ok_def)
next
  case (3 s q r s')
  then show ?case using device_malloc_correct(1) by (auto simp: malloc_op_Some)
next
  case (4 s q r s')
  then obtain buf where buf: "device_malloc_aligned (fst q) (snd q) s = (Inr buf, s')"
    and r: "r = (unat (db_addr buf), unat (db_size buf))" by (auto simp: malloc_op_Some)
  show ?case using device_malloc_correct(2,5) [OF 4(1,2) buf] r by simp
next
  case (5 s q r s' t)
  then obtain buf where buf: "device_malloc_aligned (fst q) (snd q) s = (Inr buf, s')"
    and r: "r = (unat (db_addr buf), unat (db_size buf))" by (auto simp: malloc_op_Some)
  show ?case using device_malloc_correct(3,5) [OF 5(1,2) buf] r 5(4) by simp
next
  case (6 s a s')
  then show ?case using device_free_Ok(1) by (auto simp: free_op_Some)
next
  case (7 s a s')
  then show ?case
    using device_free_Ok(2) [of s "of_nat a" s'] by (simp add: free_op_Some unat_of_nat)
next
  case (8 s a)
  have "a < 2 ^ 32" if "(a, n) \<in> live (ctx_blocks s)" for n
    using live_bounds [of "mem_lo s" "ctx_blocks s" "mem_hi s" a n] that 8 mem_hi_bound [OF 8]
    by (simp add: mem_ok_def)
  then show ?case
    using device_free_NotFound(1) [of "of_nat a" s]
    by (auto simp: free_op_def unat_of_nat split: prod.splits status.splits)
qed

text \<open>When nothing is live, one free block spans the managed range again.\<close>

lemma packed_all_free:
  assumes "tiles lo bs hi" and "packed bs" and "live bs = {}" and "lo < hi"
  shows "\<exists>b. bs = [b] \<and> bfree b \<and> unat (boffset b) = lo \<and> unat (bsize b) = hi - lo"
proof (cases bs)
  case Nil
  then show ?thesis using assms(1,4) by simp
next
  case (Cons b rest)
  have free: "bfree x" if "x \<in> set bs" for x using assms(3) that by (auto simp: live_def)
  show ?thesis
  proof (cases rest)
    case Nil
    then show ?thesis using Cons assms(1) free by auto
  next
    case (Cons n more)
    then show ?thesis using \<open>bs = b # rest\<close> assms(2) free by auto
  qed
qed

section \<open>A concrete context\<close>

text \<open>
  A 64-byte device at address 0 with 8 bytes of instruction memory and no transport: the
  context the witnesses below start from. Its spill area takes 8 bytes, so 56 are managed.
\<close>

definition small_config :: "unit config" where
  "small_config = default_config\<lparr>cfg_memory_size := 64, cfg_program_memory_size := 8\<rparr>"

definition small_context :: "unit gpu_context" where
  "small_context =
     \<lparr>ctx_memory_base = 0, ctx_memory_size = 64, ctx_program_memory_size = 8,
      ctx_program_cache_clock = 0, ctx_compiler_spill_base = 56, ctx_compiler_spill_size = 8,
      ctx_default_alignment = 4, ctx_transport = no_transport,
      ctx_blocks = [\<lparr>boffset = 0, bsize = 56, bfree = True\<rparr>],
      ctx_program_blocks = [\<lparr>boffset = 0, bsize = 8, bfree = True\<rparr>],
      ctx_program_cache = [], ctx_kernels = [], ctx_logging_enabled = False,
      ctx_log_path = [], ctx_log = []\<rparr>"

lemma small_context_new: "context_new (\<lambda>_. None) small_config = Inr small_context"
  by (simp add: context_new_def small_config_def default_config_def small_context_def Let_def
      add_overflows_addr_iff env_log_path_def align_up_size_def kCompilerSpillBytes_def
      log_event_def error_def min_def max_def)

lemma small_context_ok: "mem_ok small_context"
  using context_new_mem_ok(1) [OF small_context_new] .

lemma small_malloc:
  "device_malloc_aligned 6 4 small_context =
     (Inr \<lparr>db_context = True, db_addr = 0, db_size = 8\<rparr>,
      small_context\<lparr>ctx_blocks := [\<lparr>boffset = 0, bsize = 8, bfree = False\<rparr>,
                                     \<lparr>boffset = 8, bsize = 48, bfree = True\<rparr>]\<rparr>)"
  by (simp add: device_malloc_aligned_def small_context_def malloc_scan.simps align_up_size_def
      align_up_addr_def malloc_at_def claim_at_def insert_at_def log_event_def)

section \<open>Properties\<close>

lemma run_op_mem_bounds:
  "mem_lo (run_op malloc_op free_op op c) = mem_lo c"
  "mem_hi (run_op malloc_op free_op op c) = mem_hi c"
proof -
  have m: "mem_lo c' = mem_lo c \<and> mem_hi c' = mem_hi c"
    if "device_malloc_aligned sz al c = (Inr buf, c')" for sz al buf c'
    using device_malloc_Inr [OF that] by (auto simp: mem_lo_def mem_hi_def memory_size_def)
  have f: "mem_lo c' = mem_lo c \<and> mem_hi c' = mem_hi c" if "device_free a c = (Ok, c')" for a c'
    using that by (auto simp: device_free_def mem_lo_def mem_hi_def memory_size_def split: option.splits)
  show "mem_lo (run_op malloc_op free_op op c) = mem_lo c"
    "mem_hi (run_op malloc_op free_op op c) = mem_hi c"
    using m f by (cases op; auto simp: malloc_op_Some free_op_Some split: option.splits)+
qed

lemma run_ops_mem_ok:
  assumes "mem_ok c" and "\<forall>op \<in> set ops. \<forall>q. op = Take q \<longrightarrow> request_ok (fst q) (snd q)"
  shows "mem_ok (fold (run_op malloc_op free_op) ops c)
       \<and> mem_lo (fold (run_op malloc_op free_op) ops c) = mem_lo c
       \<and> mem_hi (fold (run_op malloc_op free_op) ops c) = mem_hi c"
  using assms
proof (induction ops arbitrary: c)
  case (Cons op ops)
  then show ?case using devmem.run_op_good [of c op] by (simp add: run_op_mem_bounds)
qed simp

text \<open>
  C4: on a well-formed context a valid allocation request either returns a buffer whose address is
  aligned, whose size is the request rounded up to the alignment, which lies inside the managed
  range and overlaps no live allocation, and then exactly that range becomes live and exactly its
  bytes leave the free ones; or it fails with \<open>NoMemory\<close>, changes nothing, and indeed no free block
  had room. The block list stays a packed tiling of the managed range.
\<close>

theorem device_malloc_spec:
  assumes "mem_ok c" and "request_ok sz alignment"
  shows "case device_malloc_aligned sz alignment c of
      (Inr buf, c') \<Rightarrow>
        mem_ok c' \<and> unat (db_size buf) = grant sz alignment \<and> unat alignment dvd unat (db_addr buf)
        \<and> mem_lo c \<le> unat (db_addr buf) \<and> unat (db_addr buf) + grant sz alignment \<le> mem_hi c
        \<and> (\<forall>r. r \<in> live (ctx_blocks c) \<longrightarrow> \<not> overlaps (unat (db_addr buf), grant sz alignment) r)
        \<and> live (ctx_blocks c') = insert (unat (db_addr buf), grant sz alignment) (live (ctx_blocks c))
        \<and> free_bytes (ctx_blocks c') + grant sz alignment = free_bytes (ctx_blocks c)
    | (Inl e, c') \<Rightarrow>
        e = error NoMemory \<and> c' = c
        \<and> (\<forall>b \<in> set (ctx_blocks c). \<not> has_room (unat alignment) (grant sz alignment) b)"
proof (cases "device_malloc_aligned sz alignment c")
  case (Pair r c')
  show ?thesis
  proof (cases r)
    case (Inl e)
    then show ?thesis using Pair device_malloc_fails [OF assms(2), of c e c'] by simp
  next
    case (Inr buf)
    then have run: "device_malloc_aligned sz alignment c = (Inr buf, c')" using Pair by simp
    show ?thesis using run device_malloc_correct [OF assms run] by simp
  qed
qed

lemma device_malloc_spec_witness:
  "live (ctx_blocks (snd (device_malloc_aligned 6 4 small_context))) = {(0, 8)}"
proof -
  have "request_ok 6 4" by (simp add: request_ok_def round_up_def)
  from device_malloc_spec [OF small_context_ok this] show ?thesis
    by (simp add: small_malloc)
qed

text \<open>
  C5: releasing an address succeeds exactly when a live allocation starts there; it then removes
  that allocation and no other, returns its bytes to the free ones and keeps the context well formed.
  Any other address gives \<open>NotFound\<close> and changes nothing.
\<close>

theorem device_free_spec:
  assumes "mem_ok c"
  shows "case device_free addr c of (st, c') \<Rightarrow>
     if \<exists>n. (unat addr, n) \<in> live (ctx_blocks c)
     then st = Ok \<and> mem_ok c' \<and> live (ctx_blocks c') = {r \<in> live (ctx_blocks c). fst r \<noteq> unat addr}
        \<and> (\<forall>n. (unat addr, n) \<in> live (ctx_blocks c) \<longrightarrow>
             free_bytes (ctx_blocks c') = free_bytes (ctx_blocks c) + n)
     else st = NotFound \<and> c' = c"
proof (cases "\<exists>n. (unat addr, n) \<in> live (ctx_blocks c)")
  case True
  then obtain c' where run: "device_free addr c = (Ok, c')"
    using device_free_NotFound(1) [of addr c] by (metis prod.collapse)
  show ?thesis using run True device_free_Ok [OF assms run] by simp
next
  case False
  then have "device_free addr c = (NotFound, c)"
    using device_free_NotFound [of addr c] by blast
  then show ?thesis using False by simp
qed

lemma device_free_spec_witness:
  "fst (device_free 4 small_context) = NotFound \<and> snd (device_free 4 small_context) = small_context"
  using device_free_spec [OF small_context_ok, of 4]
  by (simp add: small_context_def split: prod.splits)

text \<open>
  C33: a live allocation survives every sequence of valid allocations and of releases of other
  addresses, and the context stays well formed throughout.
\<close>

theorem live_allocation_survives:
  assumes "mem_ok c" and "r \<in> live (ctx_blocks c)"
    and "\<forall>op \<in> set ops. op \<noteq> Drop (fst r) \<and> (\<forall>q. op = Take q \<longrightarrow> request_ok (fst q) (snd q))"
  shows "mem_ok (fold (run_op malloc_op free_op) ops c)
       \<and> r \<in> live (ctx_blocks (fold (run_op malloc_op free_op) ops c))"
  by (rule devmem.run_ops_keep [OF assms])

lemma live_allocation_survives_witness:
  "(0, 8) \<in> live (ctx_blocks (fold (run_op malloc_op free_op) [Take (4, 8), Drop 8]
     (snd (device_malloc_aligned 6 4 small_context))))"
proof -
  have "mem_ok (snd (device_malloc_aligned 6 4 small_context))"
    using device_malloc_correct(1) [OF small_context_ok _ small_malloc]
    by (simp add: small_malloc request_ok_def round_up_def)
  then show ?thesis
    by (rule live_allocation_survives [THEN conjunct2])
      (simp_all add: small_malloc request_ok_def round_up_def)
qed

text \<open>
  No fragmentation is left behind. Whatever was allocated and released since the context was
  created, once nothing is live the block list is the single free block it started with.
\<close>

theorem all_released_restores_memory:
  assumes "context_new env cfg = Inr c"
    and "\<forall>op \<in> set ops. \<forall>q. op = Take q \<longrightarrow> request_ok (fst q) (snd q)"
    and "live (ctx_blocks (fold (run_op malloc_op free_op) ops c)) = {}"
  shows "ctx_blocks (fold (run_op malloc_op free_op) ops c) = ctx_blocks c"
proof -
  let ?c = "fold (run_op malloc_op free_op) ops c"
  note new = context_new_cases(9) [OF assms(1)] context_new_mem_ok [OF assms(1)]
  have ok: "mem_ok ?c" "mem_lo ?c = mem_lo c" "mem_hi ?c = mem_hi c"
    using run_ops_mem_ok [OF new(2) assms(2)] by blast+
  obtain b where b: "ctx_blocks ?c = [b]" "bfree b" "unat (boffset b) = mem_lo c"
      "unat (bsize b) = mem_hi c - mem_lo c"
    using packed_all_free [of "mem_lo c" "ctx_blocks ?c" "mem_hi c"] ok new(3) assms(3)
    by (auto simp: mem_ok_def)
  then have "boffset b = ctx_memory_base c" "bsize b = memory_size c"
    by (simp_all add: mem_lo_def mem_hi_def word_unat_eq_iff)
  then show ?thesis using b new(1) by (cases b) simp
qed

lemma all_released_restores_memory_witness:
  "ctx_blocks (fold (run_op malloc_op free_op) [Take (6, 4), Drop 0] small_context)
     = ctx_blocks small_context"
proof (rule all_released_restores_memory [OF small_context_new])
  show "\<forall>op \<in> set [Take (6, 4), Drop 0]. \<forall>q. op = Take q \<longrightarrow> request_ok (fst q) (snd q)"
    by (simp add: request_ok_def round_up_def)
  show "live (ctx_blocks (fold (run_op malloc_op free_op) [Take (6, 4), Drop 0] small_context)) = {}"
    by (simp add: malloc_op_def free_op_def small_malloc device_free_def coalesce_blocks_eq
        mergeable_def absorb_def log_event_def)
qed

text \<open>
  C29: a host-to-device copy reaches the transport exactly when the source pointer is set and the
  whole range lies inside one live allocation; every other copy of at least one byte is rejected with
  the state unchanged, and an accepted one hands over the arguments as given and turns the status
  into the result.
\<close>

theorem copy_to_device_spec:
  assumes "mem_ok c" and "sz \<noteq> 0"
  shows "copy_to_device dst src sz (c, d) =
    (if src = None then (Inl (error BadArgument), (c, d))
     else if \<not> (\<exists>(a, n) \<in> live (ctx_blocks c). a \<le> unat dst \<and> unat dst + unat sz \<le> a + n)
     then (Inl (error OutOfRange), (c, d))
     else (case tr_write_data (ctx_transport c) of
         None \<Rightarrow> (Inl (error Unsupported), (c, d))
       | Some write_data \<Rightarrow>
           (let c' = log_event (''copy_to_device addr=0x'' @ hex (unat dst)
                       @ '' bytes='' @ dec (unat sz)) c
            in case write_data dst src sz d of
                 (Inl e, d') \<Rightarrow> (Inl e, (c', d'))
               | (Inr st, d') \<Rightarrow>
                   ((if st = Ok then Inr () else Inl (error st)), (c', d')))))"
  using assms(2) range_is_allocated_iff [OF assms, of dst]
  by (auto simp: copy_to_device_def Let_def split: option.splits prod.splits sum.splits)

lemma copy_to_device_spec_witness:
  "copy_to_device 0 (Some [1, 2, 3, 4]) 4 (small_context, ()) = (Inl (error OutOfRange), (small_context, ()))"
  using copy_to_device_spec [OF small_context_ok, of 4 0 "Some [1, 2, 3, 4]" "()"]
  by (simp add: small_context_def)

text \<open>
  Coalescing. On a list that tiles an address range the index loop of \<open>coalesce_blocks\<close> ends with
  a list that tiles the same range, with the same live allocations and the same free bytes, in which
  no two neighbours are both free.
\<close>

theorem coalesce_blocks_spec:
  assumes "tiles lo bs hi" and "hi < 2 ^ 32"
  shows "tiles lo (coalesce_blocks bs) hi \<and> live (coalesce_blocks bs) = live bs
       \<and> free_bytes (coalesce_blocks bs) = free_bytes bs \<and> packed (coalesce_blocks bs)"
  using coalesce_correct [OF assms] by (simp add: coalesce_blocks_eq)

lemma coalesce_blocks_spec_witness:
  "packed (coalesce_blocks [\<lparr>boffset = 4, bsize = 8, bfree = True\<rparr>, \<lparr>boffset = 12, bsize = 4, bfree = True\<rparr>])"
  using coalesce_blocks_spec
    [of 4 "[\<lparr>boffset = 4, bsize = 8, bfree = True\<rparr>, \<lparr>boffset = 12, bsize = 4, bfree = True\<rparr>]" 16]
  by simp

text \<open>
  The size wraps. On a fresh context with four-byte alignment a request for \<open>2^64 - 1\<close> bytes
  succeeds with a buffer of size 0, and the next request gets the same address: the two buffers are
  not apart, and the first of the two to be released frees the other's range.
\<close>

theorem oversized_request_aliases:
  assumes "context_new env cfg = Inr c" and "ctx_default_alignment c = 4"
    and "unat (ctx_memory_base c) mod 4 = 0" and "4 \<le> memory_size c"
  shows "\<exists>c1 c2. device_malloc (- 1) c
           = (Inr \<lparr>db_context = True, db_addr = ctx_memory_base c, db_size = 0\<rparr>, c1)
       \<and> device_malloc 4 c1
           = (Inr \<lparr>db_context = True, db_addr = ctx_memory_base c, db_size = 4\<rparr>, c2)"
proof -
  note new = context_new_cases [OF assms(1)]
  have wrap: "align_up_size (- 1) 4 = 0" "align_up_size 4 4 = 4" by (simp_all add: align_up_size_def)
  have "unat (ctx_memory_base c mod 4) = 0"
    using assms(3) by (simp only: unat_mod unat_numeral) simp
  then have m: "ctx_memory_base c mod 4 = 0" by (simp only: unat_eq_zero)
  have al: "align_up_addr (ctx_memory_base c) 4 = Some (ctx_memory_base c)"
    using m by (simp add: align_up_addr_def flip: dvd_eq_mod_eq_0)
  let ?bs = "[\<lparr>boffset = ctx_memory_base c, bsize = 0, bfree = False\<rparr>,
              \<lparr>boffset = ctx_memory_base c, bsize = memory_size c, bfree = True\<rparr>]"
  have pos: "memory_size c > 0" using assms(4) by (auto simp: word_le_nat_alt word_less_nat_alt)
  have "malloc_scan 0 4 0 (ctx_blocks c) = Inr (ctx_memory_base c, ?bs)"
    using pos by (simp add: malloc_scan.simps new(9) al malloc_at_def claim_at_def insert_at_def)
  then have first: "device_malloc (- 1) c
       = (Inr \<lparr>db_context = True, db_addr = ctx_memory_base c, db_size = 0\<rparr>,
          log_event (''device_malloc addr=0x'' @ hex (unat (ctx_memory_base c)) @ '' bytes='' @ dec 0)
            (c\<lparr>ctx_blocks := ?bs\<rparr>))"
    using assms(2) wrap by (simp add: device_malloc_def device_malloc_aligned_def)
  have "\<exists>bs'. malloc_scan 4 4 0 ?bs = Inr (ctx_memory_base c, bs')"
    using assms(4) by (simp add: malloc_scan.simps al malloc_at_def not_less Let_def)
  then show ?thesis
    unfolding first using assms(2) wrap(2)
    by (auto simp: device_malloc_def device_malloc_aligned_def)
qed

lemma oversized_request_aliases_witness:
  "\<exists>c1. device_malloc (- 1) small_context = (Inr \<lparr>db_context = True, db_addr = 0, db_size = 0\<rparr>, c1)"
  using oversized_request_aliases [OF small_context_new]
  by (auto simp: small_context_def memory_size_def)

end
