(* ===== verification/Buffers.thy ===== *)
theory Buffers
  imports DeviceMemory
begin

text \<open>
  Owning handles on device memory: \<open>DeviceBuffer\<close> (\<open>runtime/src/minigpu_runtime.cpp\<close>) and
  \<open>Tensor<T>\<close> (\<open>runtime/include/minigpu_buffer.hpp\<close>). A handle is a \<open>device_buffer\<close> whose
  \<open>db_context\<close> says that its context pointer is set; there is one context. The value of type
  \<open>T\<close> is its object representation, a byte list of length \<open>sizeof(T)\<close>, the parameter \<open>esz\<close>.
\<close>

section \<open>DeviceBuffer\<close>

definition empty_buffer :: device_buffer where
  "empty_buffer = \<lparr>db_context = False, db_addr = 0, db_size = 0\<rparr>"

definition buffer_addr :: "device_buffer \<Rightarrow> u32" where
  "buffer_addr b = db_addr b"

definition buffer_size :: "device_buffer \<Rightarrow> u64" where
  "buffer_size b = db_size b"

definition buffer_active :: "device_buffer \<Rightarrow> bool" where
  "buffer_active b \<longleftrightarrow> db_context b"

text \<open>Each operation returns the handles as it leaves them.\<close>

definition buffer_release :: "device_buffer \<Rightarrow> u32 \<times> device_buffer" where
  "buffer_release b = (db_addr b, empty_buffer)"

definition buffer_reset :: "device_buffer \<Rightarrow> 'd gpu_context \<Rightarrow> device_buffer \<times> 'd gpu_context" where
  "buffer_reset b c = (empty_buffer, if db_context b then snd (device_free (db_addr b) c) else c)"

definition buffer_move_from :: "device_buffer \<Rightarrow> device_buffer \<times> device_buffer" where
  "buffer_move_from other =
     (\<lparr>db_context = db_context other, db_addr = db_addr other, db_size = db_size other\<rparr>, empty_buffer)"

text \<open>Move assignment between two different handles; assigning a handle to itself is a no-op.\<close>

definition buffer_assign ::
    "device_buffer \<Rightarrow> device_buffer \<Rightarrow> 'd gpu_context \<Rightarrow> (device_buffer \<times> device_buffer) \<times> 'd gpu_context"
where
  "buffer_assign this other c =
     (let (_, c') = buffer_reset this c in (buffer_move_from other, c'))"

section \<open>A program's handles\<close>

text \<open>
  What client code can do with the handles it holds: ask for an allocation of any size and alignment
  and assign it to one (or catch the exception when it fails), move one into another, reset (or
  destroy) one, and release one, taking over its address. The state is the list of handles, the
  addresses taken over by \<open>release\<close>, and the context; a step is labelled with the request it makes,
  if it makes one.
\<close>

type_synonym 'd handles = "device_buffer list \<times> u32 set \<times> 'd gpu_context"

inductive handle_step :: "(u64 \<times> u64) option \<Rightarrow> 'd handles \<Rightarrow> 'd handles \<Rightarrow> bool" where
  declare_handle: "handle_step None (hs, raw, c) (hs @ [empty_buffer], raw, c)"
| assign_new:
    "i < length hs \<Longrightarrow> device_malloc_aligned sz al c = (Inr b, c1) \<Longrightarrow>
     buffer_assign (hs ! i) b c1 = ((h, b'), c2) \<Longrightarrow>
     handle_step (Some (sz, al)) (hs, raw, c) (hs[i := h], raw, c2)"
| allocation_fails:
    "device_malloc_aligned sz al c = (Inl x, c1) \<Longrightarrow>
     handle_step (Some (sz, al)) (hs, raw, c) (hs, raw, c1)"
| move_into:
    "i < length hs \<Longrightarrow> j < length hs \<Longrightarrow> i \<noteq> j \<Longrightarrow>
     buffer_assign (hs ! i) (hs ! j) c = ((h, h'), c1) \<Longrightarrow>
     handle_step None (hs, raw, c) (hs[i := h, j := h'], raw, c1)"
| reset_handle:
    "i < length hs \<Longrightarrow> buffer_reset (hs ! i) c = (h, c1) \<Longrightarrow>
     handle_step None (hs, raw, c) (hs[i := h], raw, c1)"
| release_handle:
    "i < length hs \<Longrightarrow> db_context (hs ! i) \<Longrightarrow> buffer_release (hs ! i) = (a, h) \<Longrightarrow>
     handle_step None (hs, raw, c) (hs[i := h], insert a raw, c)"
| free_raw:
    "a \<in> raw \<Longrightarrow> device_free a c = (st, c1) \<Longrightarrow> handle_step None (hs, raw, c) (hs, raw - {a}, c1)"

inductive_cases handle_stepE: "handle_step q s t"

text \<open>
  A request is in range when its alignment is a 32-bit value and its size rounded up to the
  alignment fits 64 bits. Larger ones wrap around (\<open>oversized_request_aliases\<close>).
\<close>

definition in_range :: "u64 \<times> u64 \<Rightarrow> bool" where
  "in_range q \<longleftrightarrow> unat (snd q) < 2 ^ 32 \<and> round_up (unat (snd q)) (unat (fst q)) < 2 ^ 64"

lemma granted_request_ok:
  assumes "device_malloc_aligned sz al c = (Inr b, c1)" and "in_range (sz, al)"
  shows "request_ok sz al"
  using assms by (auto simp: request_ok_def in_range_def device_malloc_aligned_def split: if_splits)

text \<open>
  The ownership invariant: the live allocations are exactly the ones the active handles own together
  with the released ones, and no allocation has two owners.
\<close>

definition owner :: "device_buffer list \<Rightarrow> nat \<Rightarrow> u32 \<Rightarrow> u64 \<Rightarrow> bool" where
  "owner hs i a n \<longleftrightarrow>
     i < length hs \<and> db_context (hs ! i) \<and> db_addr (hs ! i) = a \<and> db_size (hs ! i) = n"

definition owned :: "'d handles \<Rightarrow> bool" where
  "owned s = (case s of (hs, raw, c) \<Rightarrow>
     mem_ok c
     \<and> (\<forall>i a n. owner hs i a n \<longrightarrow> (unat a, unat n) \<in> live (ctx_blocks c) \<and> a \<notin> raw)
     \<and> (\<forall>i j a n m. owner hs i a n \<longrightarrow> owner hs j a m \<longrightarrow> i = j)
     \<and> (\<forall>a n. (unat a, n) \<in> live (ctx_blocks c) \<longrightarrow> a \<in> raw \<or> (\<exists>i m. owner hs i a m))
     \<and> (\<forall>a \<in> raw. \<exists>n. (unat a, n) \<in> live (ctx_blocks c)))"

lemma empty_buffer_inactive [simp]: "\<not> db_context empty_buffer"
  by (simp add: empty_buffer_def)

lemma owner_update:
  "owner (hs[i := h]) j a n \<longleftrightarrow>
     (if j = i then i < length hs \<and> db_context h \<and> db_addr h = a \<and> db_size h = n
      else owner hs j a n)"
  by (auto simp: owner_def)

lemma owner_append:
  "owner (hs @ [h]) j a n \<longleftrightarrow>
     (if j = length hs then db_context h \<and> db_addr h = a \<and> db_size h = n else owner hs j a n)"
  by (auto simp: owner_def nth_append less_Suc_eq)

lemma owner_idle: "\<not> db_context (hs ! i) \<Longrightarrow> \<not> owner hs i a n"
  by (simp add: owner_def)

lemma owned_append_empty: "owned (hs @ [empty_buffer], raw, c) \<longleftrightarrow> owned (hs, raw, c)"
proof -
  have "owner (hs @ [empty_buffer]) = owner hs"
    by (intro ext) (simp add: owner_append, simp add: owner_def)
  then show ?thesis by (simp add: owned_def)
qed

text \<open>The ownership fields of the invariant, as elimination facts.\<close>

lemma ownedD:
  assumes "owned (hs, raw, c)"
  shows "mem_ok c"
    and "owner hs i a n \<Longrightarrow> (unat a, unat n) \<in> live (ctx_blocks c)"
    and "owner hs i a n \<Longrightarrow> a \<notin> raw"
    and "owner hs i a n \<Longrightarrow> owner hs j a m \<Longrightarrow> i = j"
    and "(unat a, k) \<in> live (ctx_blocks c) \<Longrightarrow> a \<in> raw \<or> (\<exists>i m. owner hs i a m)"
    and "a \<in> raw \<Longrightarrow> \<exists>n. (unat a, n) \<in> live (ctx_blocks c)"
  using assms unfolding owned_def by blast+

lemma ownedI:
  assumes "mem_ok c"
    and "\<And>i a n. owner hs i a n \<Longrightarrow> (unat a, unat n) \<in> live (ctx_blocks c)"
    and "\<And>i a n. owner hs i a n \<Longrightarrow> a \<notin> raw"
    and "\<And>i j a n m. owner hs i a n \<Longrightarrow> owner hs j a m \<Longrightarrow> i = j"
    and "\<And>a k. (unat a, k) \<in> live (ctx_blocks c) \<Longrightarrow> a \<in> raw \<or> (\<exists>i m. owner hs i a m)"
    and "\<And>a. a \<in> raw \<Longrightarrow> \<exists>n. (unat a, n) \<in> live (ctx_blocks c)"
  shows "owned (hs, raw, c)"
  using assms unfolding owned_def by blast

lemma owned_reset:
  assumes own: "owned (hs, raw, c)" and i: "i < length hs"
    and run: "buffer_reset (hs ! i) c = (h, c1)"
  shows "h = empty_buffer \<and> owned (hs[i := h], raw, c1)"
proof (cases "db_context (hs ! i)")
  case False
  then have "h = empty_buffer" "c1 = c" using run by (simp_all add: buffer_reset_def)
  moreover have "owner (hs[i := empty_buffer]) = owner hs"
    by (intro ext) (simp add: owner_update owner_idle [OF False])
  ultimately show ?thesis using own by (simp add: owned_def)
next
  case True
  let ?a = "db_addr (hs ! i)"
  note own' = ownedD [OF own]
  have me: "owner hs i ?a (db_size (hs ! i))" using True i by (simp add: owner_def)
  obtain c2 where free: "device_free ?a c = (Ok, c2)"
    using device_free_NotFound(1) [of ?a c] own'(2) [OF me] by (metis prod.collapse)
  have h: "h = empty_buffer" and c1: "c1 = c2" using run True free by (simp_all add: buffer_reset_def)
  have live: "live (ctx_blocks c1) = {r \<in> live (ctx_blocks c). fst r \<noteq> unat ?a}" and ok1: "mem_ok c1"
    using device_free_Ok(1,2) [OF own'(1) free] c1 by simp_all
  have other: "owner hs j a n \<Longrightarrow> j \<noteq> i \<Longrightarrow> unat a \<noteq> unat ?a" for j n and a :: u32
    using own'(4) [OF _ me] by (auto simp: word_unat_eq_iff [symmetric])
  have ow: "owner (hs[i := empty_buffer]) j a n \<longleftrightarrow> j \<noteq> i \<and> owner hs j a n" for j a n
    by (simp add: owner_update)
  have "owned (hs[i := empty_buffer], raw, c1)"
  proof (rule ownedI)
    fix a :: u32 and k assume "(unat a, k) \<in> live (ctx_blocks c1)"
    then have k: "(unat a, k) \<in> live (ctx_blocks c)" "unat a \<noteq> unat ?a" using live by auto
    have "owner hs j a m \<Longrightarrow> j \<noteq> i" for j m using k(2) by (auto simp: owner_def)
    then show "a \<in> raw \<or> (\<exists>j m. owner (hs[i := empty_buffer]) j a m)"
      using own'(5) [OF k(1)] ow by blast
  next
    fix a assume a: "a \<in> raw"
    then have "unat a \<noteq> unat ?a" using own'(3) [OF me] by (auto simp: word_unat_eq_iff [symmetric])
    then show "\<exists>n. (unat a, n) \<in> live (ctx_blocks c1)" using own'(6) [OF a] live by auto
  qed (use ow own'(2,3,4) other live ok1 in auto)
  then show ?thesis using h by simp
qed

lemma owned_new:
  assumes own: "owned (hs, raw, c)" and req: "request_ok sz al"
    and run: "device_malloc_aligned sz al c = (Inr b, c1)"
  shows "owned (hs @ [b], raw, c1)"
proof -
  note own' = ownedD [OF own]
  note m = device_malloc_correct [OF own'(1) req run]
  have b: "db_context b" using device_malloc_Inr [OF run] by blast
  have live1: "live (ctx_blocks c1) = insert (unat (db_addr b), unat (db_size b)) (live (ctx_blocks c))"
    using m(2,5) by simp
  have malloc: "malloc_op (sz, al) c = Some ((unat (db_addr b), unat (db_size b)), c1)"
    using run by (simp add: malloc_op_def)
  have fresh: "(unat a, n) \<in> live (ctx_blocks c) \<Longrightarrow> a \<noteq> db_addr b" for n and a :: u32
    using devmem.alloc_new(2) [OF own'(1) _ malloc, of "(unat a, n)"] req by auto
  have new: "owner hs i a n \<Longrightarrow> a \<noteq> db_addr b" "a \<in> raw \<Longrightarrow> a \<noteq> db_addr b" for i a n
    using fresh own'(2,6) by blast+
  show ?thesis
  proof (rule ownedI)
    fix i a n assume "owner (hs @ [b]) i a n"
    then show "(unat a, unat n) \<in> live (ctx_blocks c1)" "a \<notin> raw"
      using live1 own'(2,3) new(2) [of "db_addr b"] by (auto simp: owner_append split: if_splits)
  next
    fix i j a n k assume "owner (hs @ [b]) i a n" "owner (hs @ [b]) j a k"
    moreover have "\<not> owner hs l (db_addr b) x" for l x using new(1) by blast
    ultimately show "i = j" using own'(4) by (auto simp: owner_append split: if_splits)
  next
    fix a :: u32 and k assume "(unat a, k) \<in> live (ctx_blocks c1)"
    then consider "a = db_addr b" | "(unat a, k) \<in> live (ctx_blocks c)"
      using live1 by (auto simp: word_unat_eq_iff [symmetric])
    then show "a \<in> raw \<or> (\<exists>i m. owner (hs @ [b]) i a m)"
    proof cases
      case 1
      then show ?thesis using b by (auto simp: owner_append)
    next
      case 2
      have "owner hs i a m \<Longrightarrow> owner (hs @ [b]) i a m" for i m
        by (simp add: owner_append) (simp add: owner_def)
      then show ?thesis using own'(5) [OF 2] by blast
    qed
  qed (use m(1) own'(6) live1 in auto)
qed

lemma owned_move:
  assumes own: "owned (hs, raw, c)" and ij: "i < length hs" "j < length hs" "i \<noteq> j"
    and idle: "\<not> db_context (hs ! i)"
  shows "owned (hs[i := hs ! j, j := empty_buffer], raw, c)"
proof -
  let ?hs = "hs[i := hs ! j, j := empty_buffer]"
  define f where "f k = (if k = i then j else k)" for k
  note own' = ownedD [OF own]
  have ow: "owner ?hs k a n \<longleftrightarrow> k \<noteq> j \<and> owner hs (f k) a n" for k a n
    using ij by (simp add: owner_update f_def) (simp add: owner_def)
  have kept: "owner hs k a n \<Longrightarrow> \<exists>k'. owner ?hs k' a n" for k a n
    using ow [of i a n] ow [of k a n] ij owner_idle [OF idle]
    by (cases "k = j"; cases "k = i") (auto simp: f_def)
  have inj: "f k = f k' \<Longrightarrow> k \<noteq> j \<Longrightarrow> k' \<noteq> j \<Longrightarrow> k = k'" for k k'
    by (auto simp: f_def split: if_splits)
  show ?thesis
  proof (rule ownedI)
    fix k k' a n m assume "owner ?hs k a n" "owner ?hs k' a m"
    then show "k = k'" using own'(4) inj ow by blast
  next
    fix a :: u32 and k assume "(unat a, k) \<in> live (ctx_blocks c)"
    then show "a \<in> raw \<or> (\<exists>i m. owner ?hs i a m)" using own'(5) kept by blast
  qed (use own'(1,2,3,6) ow in blast)+
qed

lemma owned_assign:
  assumes own: "owned (hs, raw, c)" and ij: "i < length hs" "j < length hs" "i \<noteq> j"
    and run: "buffer_assign (hs ! i) (hs ! j) c = ((h, h'), c1)"
  shows "h' = empty_buffer \<and> owned (hs[i := h, j := h'], raw, c1)"
proof -
  obtain r c2 where reset: "buffer_reset (hs ! i) c = (r, c2)" by force
  have "r = empty_buffer" "owned (hs[i := empty_buffer], raw, c2)"
    using owned_reset [OF own ij(1) reset] by auto
  then have "owned ((hs[i := empty_buffer])[i := (hs[i := empty_buffer]) ! j, j := empty_buffer], raw, c2)"
    using ij by (intro owned_move) simp_all
  moreover have "h = hs ! j" "h' = empty_buffer" "c1 = c2"
    using run reset by (auto simp: buffer_assign_def buffer_move_from_def)
  ultimately show ?thesis using ij by simp
qed

lemma owned_release:
  assumes own: "owned (hs, raw, c)" and i: "i < length hs" "db_context (hs ! i)"
  shows "owned (hs[i := empty_buffer], insert (db_addr (hs ! i)) raw, c)"
proof -
  note own' = ownedD [OF own]
  have me: "owner hs i (db_addr (hs ! i)) (db_size (hs ! i))" using i by (simp add: owner_def)
  have ow: "owner (hs[i := empty_buffer]) j a n \<longleftrightarrow> j \<noteq> i \<and> owner hs j a n" for j a n
    by (simp add: owner_update)
  have other: "owner hs j a n \<Longrightarrow> j \<noteq> i \<Longrightarrow> a \<noteq> db_addr (hs ! i)" for j a n
    using own'(4) [OF _ me] by blast
  have mine: "owner hs i a n \<Longrightarrow> a = db_addr (hs ! i)" for a n by (simp add: owner_def)
  show ?thesis
  proof (rule ownedI)
    fix a :: u32 and k assume "(unat a, k) \<in> live (ctx_blocks c)"
    from own'(5) [OF this] consider "a \<in> raw" | j m where "owner hs j a m" by blast
    then show "a \<in> insert (db_addr (hs ! i)) raw \<or> (\<exists>j m. owner (hs[i := empty_buffer]) j a m)"
    proof cases
      case (2 j m)
      then show ?thesis using ow [of j a m] mine [of a m] by (cases "j = i") auto
    qed simp
  next
    fix a assume "a \<in> insert (db_addr (hs ! i)) raw"
    then show "\<exists>n. (unat a, n) \<in> live (ctx_blocks c)" using own'(6) own'(2) [OF me] by blast
  next
    fix j a n assume "owner (hs[i := empty_buffer]) j a n"
    then have j: "j \<noteq> i" "owner hs j a n" using ow by simp_all
    show "(unat a, unat n) \<in> live (ctx_blocks c)" by (rule own'(2) [OF j(2)])
    show "a \<notin> insert (db_addr (hs ! i)) raw" using other [OF j(2,1)] own'(3) [OF j(2)] by simp
  next
    fix j k a n m assume "owner (hs[i := empty_buffer]) j a n" "owner (hs[i := empty_buffer]) k a m"
    then have "owner hs j a n" "owner hs k a m" using ow by simp_all
    then show "j = k" by (rule own'(4))
  qed (rule own'(1))
qed

lemma owned_free_raw:
  assumes own: "owned (hs, raw, c)" and a: "a \<in> raw" and run: "device_free a c = (st, c1)"
  shows "st = Ok \<and> owned (hs, raw - {a}, c1)"
proof -
  note own' = ownedD [OF own]
  have st: "st = Ok" using device_free_NotFound(1) [of a c] own'(6) [OF a] run by simp
  have live: "live (ctx_blocks c1) = {r \<in> live (ctx_blocks c). fst r \<noteq> unat a}" "mem_ok c1"
    using device_free_Ok(1,2) [OF own'(1)] run st by simp_all
  have other: "owner hs i x n \<Longrightarrow> x \<noteq> a" for i x n using own'(3) a by blast
  have "owned (hs, raw - {a}, c1)"
  proof (rule ownedI)
    fix i x n assume o1: "owner hs i x n"
    then show "(unat x, unat n) \<in> live (ctx_blocks c1)"
      using own'(2) other live(1) by (auto simp: word_unat_eq_iff [symmetric])
    show "x \<notin> raw - {a}" using own'(3) o1 by blast
  next
    fix x :: u32 and k assume "(unat x, k) \<in> live (ctx_blocks c1)"
    then show "x \<in> raw - {a} \<or> (\<exists>i m. owner hs i x m)" using own'(5) live(1) by auto
  next
    fix x assume "x \<in> raw - {a}"
    then show "\<exists>n. (unat x, n) \<in> live (ctx_blocks c1)"
      using own'(6) live(1) by (auto simp: word_unat_eq_iff [symmetric])
  qed (use live own'(4) in blast)+
  then show ?thesis using st by simp
qed

lemma handle_step_owned: "handle_step q s t \<Longrightarrow> \<forall>r \<in> set_option q. in_range r \<Longrightarrow> owned s \<Longrightarrow> owned t"
proof (induction rule: handle_step.induct)
  case (assign_new i hs sz al c b c1 h b' c2 raw)
  then have "request_ok sz al" using granted_request_ok by fastforce
  then have o1: "owned (hs @ [b], raw, c1)" using owned_new assign_new by blast
  have "(hs @ [b]) ! i = hs ! i" "(hs @ [b]) ! length hs = b"
    using assign_new(1) by (simp_all add: nth_append)
  with o1 have "b' = empty_buffer \<and> owned ((hs @ [b])[i := h, length hs := b'], raw, c2)"
    using owned_assign [OF o1, of i "length hs" h b' c2] assign_new(1,3) by auto
  moreover have "(hs @ [b])[i := h, length hs := empty_buffer] = hs[i := h] @ [empty_buffer]"
    using assign_new(1) by (simp add: list_update_append)
  ultimately show ?case using owned_append_empty by metis
next
  case (allocation_fails sz al c x c1 hs raw)
  then have "c1 = c" by (auto simp: device_malloc_aligned_def Let_def split: if_splits sum.splits)
  then show ?case using allocation_fails by simp
next
  case (release_handle i hs a h raw c)
  then show ?case using owned_release by (auto simp: buffer_release_def)
next
  case (declare_handle hs raw c)
  then show ?case by (simp add: owned_append_empty)
next
  case (move_into i hs j c h h' c1 raw)
  then show ?case using owned_assign by blast
next
  case (reset_handle i hs c h c1 raw)
  then show ?case using owned_reset by blast
next
  case (free_raw a raw c st c1 hs)
  then show ?case using owned_free_raw by blast
qed

section \<open>Every reachable state is owned\<close>

text \<open>The states a program can reach, with the requests it made on the way.\<close>

inductive handles_reachable :: "'d gpu_context \<Rightarrow> (u64 \<times> u64) set \<Rightarrow> 'd handles \<Rightarrow> bool" for c0 where
  no_handles: "handles_reachable c0 {} ([], {}, c0)"
| one_step: "handles_reachable c0 reqs s \<Longrightarrow> handle_step q s t \<Longrightarrow>
    handles_reachable c0 (reqs \<union> set_option q) t"

lemma handles_reachable_owned:
  assumes "mem_ok c0" and "live (ctx_blocks c0) = {}" and "handles_reachable c0 reqs s"
    and "\<forall>q \<in> reqs. in_range q"
  shows "owned s"
  using assms(3,4)
proof (induction rule: handles_reachable.induct)
  case no_handles
  then show ?case using assms(1,2) by (simp add: owned_def owner_def)
next
  case (one_step reqs s q t)
  then show ?case using handle_step_owned [OF one_step.hyps(2)] by simp
qed

text \<open>
  C6: handles are the unique owners of their allocations. In every state a program can reach through
  the handle operations, failed allocations included, from a fresh context and with requests in range
  (a 32-bit alignment, and a size that rounded up to it fits 64 bits), the context is well formed,
  each active handle stands for a live allocation (so its release succeeds: no double free), the
  ranges of two active handles are apart, and every live allocation belongs to a handle or was
  released to the program (no leak).
\<close>

theorem handles_own_their_memory:
  assumes "context_new env cfg = Inr c0" and "handles_reachable c0 reqs (hs, raw, c)"
    and "\<forall>q \<in> reqs. in_range q"
  shows "mem_ok c
    \<and> (\<forall>i a n. owner hs i a n \<longrightarrow>
         (unat a, unat n) \<in> live (ctx_blocks c) \<and> fst (device_free a c) = Ok)
    \<and> (\<forall>i j a n b m. owner hs i a n \<longrightarrow> owner hs j b m \<longrightarrow> i \<noteq> j \<longrightarrow>
         \<not> overlaps (unat a, unat n) (unat b, unat m))
    \<and> (\<forall>a k. (unat a, k) \<in> live (ctx_blocks c) \<longrightarrow> a \<in> raw \<or> (\<exists>i n. owner hs i a n))"
proof -
  have own: "owned (hs, raw, c)"
    using handles_reachable_owned context_new_mem_ok(1,3) [OF assms(1)] assms(2,3) by blast
  note own' = ownedD [OF own]
  have "\<not> overlaps (unat a, unat n) (unat b, unat m)"
    if "owner hs i a n" "owner hs j b m" "i \<noteq> j" for i j a n b m
  proof -
    have "a \<noteq> b" using own'(4) that by blast
    then have "(unat a, unat n) \<noteq> (unat b, unat m)" by (simp add: word_unat_eq_iff)
    then show ?thesis using devmem.apart [OF own'(1)] own'(2) that by blast
  qed
  moreover have "fst (device_free a c) = Ok" if "owner hs i a n" for i a n
    using device_free_NotFound(1) own'(2) [OF that] by blast
  ultimately show ?thesis using own' by blast
qed

text \<open>Two handles of a small context, each with an allocation of its own.\<close>

definition two_handles :: "unit handles" where
  "two_handles =
     ([\<lparr>db_context = True, db_addr = 0, db_size = 8\<rparr>, \<lparr>db_context = True, db_addr = 8, db_size = 8\<rparr>], {},
      small_context\<lparr>ctx_blocks := [\<lparr>boffset = 0, bsize = 8, bfree = False\<rparr>,
        \<lparr>boffset = 8, bsize = 8, bfree = False\<rparr>, \<lparr>boffset = 16, bsize = 40, bfree = True\<rparr>]\<rparr>)"

lemma two_handles_reachable: "handles_reachable small_context {(6, 4)} two_handles"
proof -
  let ?b = "\<lambda>a. \<lparr>db_context = True, db_addr = a, db_size = 8\<rparr>"
  let ?c1 = "small_context\<lparr>ctx_blocks := [\<lparr>boffset = 0, bsize = 8, bfree = False\<rparr>,
      \<lparr>boffset = 8, bsize = 48, bfree = True\<rparr>]\<rparr>"
  have r1: "handles_reachable small_context {} ([empty_buffer, empty_buffer], {}, small_context)"
    using one_step [OF one_step [OF no_handles declare_handle] declare_handle, of small_context] by simp
  have "handle_step (Some (6, 4)) ([empty_buffer, empty_buffer], {}, small_context)
      ([empty_buffer, empty_buffer][0 := ?b 0], {}, ?c1)"
    by (rule assign_new [OF _ small_malloc]) (simp_all add: buffer_assign_def buffer_reset_def buffer_move_from_def)
  from one_step [OF r1 this]
  have r2: "handles_reachable small_context {(6, 4)} ([?b 0, empty_buffer], {}, ?c1)" by simp
  have m2: "device_malloc_aligned 6 4 ?c1 = (Inr (?b 8), snd (snd two_handles))"
    by (simp add: device_malloc_aligned_def small_context_def malloc_scan.simps align_up_size_def
        align_up_addr_def two_handles_def malloc_at_def claim_at_def insert_at_def log_event_def Let_def)
  have "handle_step (Some (6, 4)) ([?b 0, empty_buffer], {}, ?c1)
      ([?b 0, empty_buffer][1 := ?b 8], {}, snd (snd two_handles))"
    by (rule assign_new [OF _ m2]) (simp_all add: buffer_assign_def buffer_reset_def buffer_move_from_def)
  from one_step [OF r2 this] show ?thesis by (simp add: two_handles_def)
qed

lemma handles_own_their_memory_witness:
  "owner (fst two_handles) 0 0 8 \<and> owner (fst two_handles) 1 8 8
   \<and> \<not> overlaps (0, 8) (8, 8)
   \<and> fst (device_free 0 (snd (snd two_handles))) = Ok \<and> fst (device_free 8 (snd (snd two_handles))) = Ok"
proof -
  have own: "owner (fst two_handles) 0 0 8" "owner (fst two_handles) 1 8 8"
    by (simp_all add: two_handles_def owner_def)
  have "\<forall>q \<in> {(6, 4)}. in_range q" by (simp add: in_range_def round_up_def)
  then show ?thesis
    using handles_own_their_memory [OF small_context_new, of "{(6, 4)}" "fst two_handles"
        "fst (snd two_handles)" "snd (snd two_handles)"] two_handles_reachable own
    by fastforce
qed

text \<open>
  When every handle has been reset or moved from and every released address was freed, all of the
  managed memory is free again.
\<close>

theorem no_handles_no_memory_in_use:
  assumes "context_new env cfg = Inr c0" and "handles_reachable c0 reqs (hs, {}, c)" and "\<forall>q \<in> reqs. in_range q"
    and "\<forall>h \<in> set hs. \<not> buffer_active h"
  shows "memory_free c = memory_size c"
proof -
  have own: "owned (hs, {}, c)"
    using handles_reachable_owned context_new_mem_ok(1,3) [OF assms(1)] assms(2,3) by blast
  have "\<not> owner hs i a n" for i a n using assms(4) by (auto simp: owner_def buffer_active_def)
  then have none: "(unat a, k) \<notin> live (ctx_blocks c)" for k and a :: u32
    using ownedD(5) [OF own] by blast
  have "bfree b" if b: "b \<in> set (ctx_blocks c)" for b
  proof (rule ccontr)
    assume "\<not> bfree b"
    then have "(unat (boffset b), unat (bsize b)) \<in> live (ctx_blocks c)"
      using b unfolding live_def by blast
    then show False using none by blast
  qed
  then have "used_bytes (ctx_blocks c) = 0" by (simp add: used_bytes_def cong: filter_cong)
  moreover have "mem_hi c = mem_lo c + free_bytes (ctx_blocks c) + used_bytes (ctx_blocks c)"
    using ownedD(1) [OF own] by (intro tiles_total) (simp add: mem_ok_def)
  ultimately show ?thesis
    using memory_free_bytes [OF ownedD(1) [OF own]]
    by (simp add: word_unat_eq_iff mem_hi_def mem_lo_def)
qed

lemma no_handles_no_memory_in_use_witness: "memory_free small_context = 56"
  using no_handles_no_memory_in_use [OF small_context_new no_handles]
  by (simp add: memory_size_def small_context_def)

end
