(* ===== verification/Tensors.thy ===== *)
theory Tensors
  imports Buffers
begin

text \<open>
  \<open>Tensor<T>\<close> (\<open>runtime/include/minigpu_buffer.hpp\<close>). A value of type \<open>T\<close> is its
  object representation, a byte list of length \<open>sizeof(T)\<close>, the parameter \<open>esz\<close>. What the
  tensor relies on beyond the context is that the transport's two data callbacks read and write one
  device memory, word by word: \<open>memory_link\<close>.
\<close>

section \<open>The operations\<close>

record tensor =
  tn_buffer :: device_buffer
  tn_count :: u64

definition tensor_addr :: "tensor \<Rightarrow> u32" where
  "tensor_addr t = buffer_addr (tn_buffer t)"

definition tensor_bytes :: "u64 \<Rightarrow> tensor \<Rightarrow> u64" where
  "tensor_bytes esz t = tn_count t * esz"

definition check_index :: "tensor \<Rightarrow> u64 \<Rightarrow> ('s, exn, unit) action" where
  "check_index t index = (if index \<ge> tn_count t then throw (error OutOfRange) else ret ())"

text \<open>The address expression \<open>addr() + index * sizeof(T)\<close>, converted to \<open>DeviceAddress\<close>.\<close>

definition element_addr :: "u64 \<Rightarrow> tensor \<Rightarrow> u64 \<Rightarrow> u32" where
  "element_addr esz t index = narrow (widen (tensor_addr t) + index * esz)"

definition tensor_new :: "u64 \<Rightarrow> u64 \<Rightarrow> ('d sys, exn, tensor) action" where
  "tensor_new esz count =
     andThen (on_context (device_malloc (count * esz)))
       (\<lambda>buf. ret \<lparr>tn_buffer = buf, tn_count = count\<rparr>)"

definition tensor_read :: "u64 \<Rightarrow> tensor \<Rightarrow> u64 \<Rightarrow> ('d sys, exn, bytes) action" where
  "tensor_read esz t index =
     andThen (check_index t index)
       (\<lambda>_. copy_from_device (Some (replicate (unat esz) 0)) (element_addr esz t index) esz)"

definition tensor_write :: "u64 \<Rightarrow> tensor \<Rightarrow> u64 \<Rightarrow> bytes \<Rightarrow> ('d sys, exn, unit) action" where
  "tensor_write esz t index val =
     andThen (check_index t index)
       (\<lambda>_. copy_to_device (element_addr esz t index) (Some val) esz)"

text \<open>Splitting an array's bytes into its \<open>n\<close> elements.\<close>

fun elements_of :: "nat \<Rightarrow> nat \<Rightarrow> bytes \<Rightarrow> bytes list" where
  "elements_of k 0 bs = []"
| "elements_of k (Suc n) bs = take k bs # elements_of k n (drop k bs)"

definition tensor_read_all :: "u64 \<Rightarrow> tensor \<Rightarrow> ('d sys, exn, bytes list) action" where
  "tensor_read_all esz t =
     (if unat (tn_count t) * unat esz \<ge> 2 ^ 63 then
        throw (Runtime_error ''cannot create std::vector larger than max_size()'')
      else if tn_count t \<noteq> 0 then
        andThen (copy_from_device (Some (replicate (unat (tn_count t) * unat esz) 0))
                   (tensor_addr t) (tensor_bytes esz t))
          (\<lambda>bs. ret (elements_of (unat esz) (unat (tn_count t)) bs))
      else ret [])"

definition tensor_write_all :: "u64 \<Rightarrow> tensor \<Rightarrow> bytes list \<Rightarrow> ('d sys, exn, unit) action" where
  "tensor_write_all esz t values =
     (if of_nat (length values) > tn_count t then throw (error OutOfRange)
      else if values \<noteq> [] then
        copy_to_device (tensor_addr t) (Some (concat values)) (of_nat (length values) * esz)
      else ret ())"

text \<open>
  The constructor from a vector delegates to the sizing constructor; when \<open>write_all\<close> throws, the
  complete object is destroyed, which frees the allocation.
\<close>

definition tensor_of_values :: "u64 \<Rightarrow> bytes list \<Rightarrow> ('d sys, exn, tensor) action" where
  "tensor_of_values esz values =
     andThen (tensor_new esz (of_nat (length values)))
       (\<lambda>t s. case tensor_write_all esz t values s of
           (Inr _, s') \<Rightarrow> (Inr t, s')
         | (Inl e, s') \<Rightarrow> (Inl e, (snd (buffer_reset (tn_buffer t) (fst s')), snd s')))"

definition tensor_destroy :: "tensor \<Rightarrow> 'd sys \<Rightarrow> 'd sys" where
  "tensor_destroy t s = (snd (buffer_reset (tn_buffer t) (fst s)), snd s)"

section \<open>Tensors on a memory\<close>

text \<open>
  The link is at rest in the states \<open>idle\<close>, has the memory \<open>mem\<close>, and serves the addresses below
  \<open>limit\<close>.
\<close>

definition memory_link ::
    "'d transport \<Rightarrow> ('d \<Rightarrow> nat \<Rightarrow> u8) \<Rightarrow> ('d \<Rightarrow> bool) \<Rightarrow> nat \<Rightarrow> bool" where
  "memory_link tr mem idle limit \<longleftrightarrow> (\<exists>w r.
     tr_write_data tr = Some w \<and> tr_read_data tr = Some r
     \<and> (\<forall>a bs d. idle d \<longrightarrow> unat a mod 4 = 0 \<longrightarrow> length bs mod 4 = 0 \<longrightarrow> bs \<noteq> [] \<longrightarrow> unat a + length bs \<le> limit \<longrightarrow>
          (\<exists>d'. w a (Some bs) (of_nat (length bs)) d = (Inr Ok, d')
             \<and> idle d' \<and> mem d' = store (unat a) bs (mem d)))
     \<and> (\<forall>a old n d. idle d \<longrightarrow> unat a mod 4 = 0 \<longrightarrow> unat n mod 4 = 0 \<longrightarrow> n \<noteq> 0 \<longrightarrow> unat a + unat n \<le> limit \<longrightarrow>
          length old = unat n \<longrightarrow>
          (\<exists>d'. r a (Some old) n d = (Inr (Ok, load (unat a) (unat n) (mem d)), d')
             \<and> idle d' \<and> mem d' = mem d)))"

lemma memory_link_write:
  assumes "memory_link tr mem idle limit" and "idle d" and "unat a mod 4 = 0" and "length bs mod 4 = 0"
    and "bs \<noteq> []" and "unat a + length bs \<le> limit"
  shows "\<exists>w d'. tr_write_data tr = Some w \<and> w a (Some bs) (of_nat (length bs)) d = (Inr Ok, d')
           \<and> idle d' \<and> idle d' \<and> mem d' = store (unat a) bs (mem d)"
proof -
  obtain w where w: "tr_write_data tr = Some w"
    and W: "\<forall>a bs d. idle d \<longrightarrow> unat a mod 4 = 0 \<longrightarrow> length bs mod 4 = 0 \<longrightarrow> bs \<noteq> [] \<longrightarrow>
          unat a + length bs \<le> limit \<longrightarrow>
          (\<exists>d'. w a (Some bs) (of_nat (length bs)) d = (Inr Ok, d')
             \<and> idle d' \<and> mem d' = store (unat a) bs (mem d))"
    using assms(1) unfolding memory_link_def by (elim exE conjE) rule
  show ?thesis using w W [rule_format, OF assms(2-6)] by (intro exI [of _ w]) simp
qed

lemma memory_link_read:
  assumes "memory_link tr mem idle limit" and "idle d" and "unat a mod 4 = 0" and "unat n mod 4 = 0"
    and "n \<noteq> 0" and "unat a + unat n \<le> limit" and "length old = unat n"
  shows "\<exists>r d'. tr_read_data tr = Some r
           \<and> r a (Some old) n d = (Inr (Ok, load (unat a) (unat n) (mem d)), d')
           \<and> idle d' \<and> idle d' \<and> mem d' = mem d"
proof -
  obtain r where r: "tr_read_data tr = Some r"
    and R: "\<forall>a old n d. idle d \<longrightarrow> unat a mod 4 = 0 \<longrightarrow> unat n mod 4 = 0 \<longrightarrow> n \<noteq> 0 \<longrightarrow>
          unat a + unat n \<le> limit \<longrightarrow> length old = unat n \<longrightarrow>
          (\<exists>d'. r a (Some old) n d = (Inr (Ok, load (unat a) (unat n) (mem d)), d')
             \<and> idle d' \<and> mem d' = mem d)"
    using assms(1) unfolding memory_link_def by (elim exE conjE) rule
  show ?thesis using r R [rule_format, OF assms(2-7)] by (intro exI [of _ r]) simp
qed

lemma memory_linkI:
  assumes "tr_write_data tr = Some w" and "tr_read_data tr = Some r"
    and "\<And>a bs d. idle d \<Longrightarrow> unat a mod 4 = 0 \<Longrightarrow> length bs mod 4 = 0 \<Longrightarrow> bs \<noteq> [] \<Longrightarrow> unat a + length bs \<le> limit \<Longrightarrow>
          \<exists>d'. w a (Some bs) (of_nat (length bs)) d = (Inr Ok, d')
             \<and> idle d' \<and> mem d' = store (unat a) bs (mem d)"
    and "\<And>a old n d. idle d \<Longrightarrow> unat a mod 4 = 0 \<Longrightarrow> unat n mod 4 = 0 \<Longrightarrow> n \<noteq> 0 \<Longrightarrow> unat a + unat n \<le> limit \<Longrightarrow>
          length old = unat n \<Longrightarrow>
          \<exists>d'. r a (Some old) n d = (Inr (Ok, load (unat a) (unat n) (mem d)), d')
             \<and> idle d' \<and> mem d' = mem d"
  shows "memory_link tr mem idle limit"
  unfolding memory_link_def using assms by (intro exI [of _ w] exI [of _ r]) simp

lemma copy_to_link:
  assumes ok: "mem_ok c" and link: "memory_link (ctx_transport c) mem idle limit" "mem_hi c \<le> limit" "idle d"
    and reg: "(p, n) \<in> live (ctx_blocks c)" "p \<le> unat a" "unat a + length bs \<le> p + n"
    and al: "unat a mod 4 = 0" "length bs mod 4 = 0" "bs \<noteq> []"
  shows "\<exists>e d'. copy_to_device a (Some bs) (of_nat (length bs)) (c, d) = (Inr (), (log_event e c, d'))
           \<and> idle d' \<and> mem d' = store (unat a) bs (mem d)"
proof -
  have hi: "unat a + length bs \<le> mem_hi c"
    using live_bounds [OF _ reg(1), of "mem_lo c" "mem_hi c"] reg(3) ok by (simp add: mem_ok_def)
  then have fits: "unat a + length bs \<le> limit" using link(2) by simp
  have len: "unat (of_nat (length bs) :: u64) = length bs"
    using hi mem_hi_bound [OF ok] by (simp add: unat_of_nat)
  then have nz: "(of_nat (length bs) :: u64) \<noteq> 0" using al(3) by (metis length_0_conv unat_0)
  have "range_is_allocated a (of_nat (length bs)) c"
    using reg len by (subst range_is_allocated_iff [OF ok nz]) auto
  moreover obtain w d' where "tr_write_data (ctx_transport c) = Some w"
      "w a (Some bs) (of_nat (length bs)) d = (Inr Ok, d')" "idle d'" "mem d' = store (unat a) bs (mem d)"
    using memory_link_write [OF link(1,3) al(1-3) fits] by blast
  ultimately show ?thesis using nz by (auto simp: copy_to_device_def)
qed

lemma copy_from_link:
  assumes ok: "mem_ok c" and link: "memory_link (ctx_transport c) mem idle limit" "mem_hi c \<le> limit" "idle d"
    and reg: "(p, n) \<in> live (ctx_blocks c)" "p \<le> unat a" "unat a + unat sz \<le> p + n"
    and al: "unat a mod 4 = 0" "unat sz mod 4 = 0" "sz \<noteq> 0" "length old = unat sz"
  shows "\<exists>e d'. copy_from_device (Some old) a sz (c, d)
             = (Inr (load (unat a) (unat sz) (mem d)), (log_event e c, d'))
           \<and> idle d' \<and> mem d' = mem d"
proof -
  have fits: "unat a + unat sz \<le> limit"
    using live_bounds [OF _ reg(1), of "mem_lo c" "mem_hi c"] reg(3) ok link(2) by (simp add: mem_ok_def)
  have "range_is_allocated a sz c"
    using reg by (subst range_is_allocated_iff [OF ok al(3)]) auto
  then obtain r d' where "tr_read_data (ctx_transport c) = Some r"
      and "r a (Some old) sz d = (Inr (Ok, load (unat a) (unat sz) (mem d)), d')" "idle d'" "mem d' = mem d"
    using memory_link_read [OF link(1,3) al(1-3) fits al(4)] by blast
  then show ?thesis
    using \<open>range_is_allocated a sz c\<close> al(3) by (auto simp: copy_from_device_def)
qed

section \<open>A memory behind the callbacks\<close>

text \<open>A transport whose far side is a byte-addressed memory, for concrete runs.\<close>

definition ram_transport :: "(nat \<Rightarrow> u8) transport" where
  "ram_transport = no_transport
     \<lparr>tr_write_data := Some (\<lambda>a src n d. case src of
          None \<Rightarrow> (Inr BadArgument, d)
        | Some bs \<Rightarrow> (Inr Ok, store (unat a) bs d)),
      tr_read_data := Some (\<lambda>a dst n d. (Inr (Ok, load (unat a) (unat n) d), d))\<rparr>"

lemma ram_link: "memory_link ram_transport (\<lambda>d. d) (\<lambda>_. True) 64"
  by (simp add: memory_link_def ram_transport_def no_transport_def)

definition ram_context :: "(nat \<Rightarrow> u8) gpu_context" where
  "ram_context =
     \<lparr>ctx_memory_base = 0, ctx_memory_size = 64, ctx_program_memory_size = 8,
      ctx_program_cache_clock = 0, ctx_compiler_spill_base = 56, ctx_compiler_spill_size = 8,
      ctx_default_alignment = 4, ctx_transport = ram_transport,
      ctx_blocks = [\<lparr>boffset = 0, bsize = 8, bfree = False\<rparr>, \<lparr>boffset = 8, bsize = 48, bfree = True\<rparr>],
      ctx_program_blocks = [\<lparr>boffset = 0, bsize = 8, bfree = True\<rparr>],
      ctx_program_cache = [], ctx_kernels = [], ctx_logging_enabled = False,
      ctx_log_path = [], ctx_log = []\<rparr>"

lemma ram_context_ok: "mem_ok ram_context" "memory_link (ctx_transport ram_context) (\<lambda>d. d) (\<lambda>_. True) 64"
  "mem_hi ram_context \<le> 64"
  "ctx_default_alignment ram_context = 4"
  "ctx_blocks ram_context = [\<lparr>boffset = 0, bsize = 8, bfree = False\<rparr>, \<lparr>boffset = 8, bsize = 48, bfree = True\<rparr>]"
  using ram_link
  by (simp_all add: mem_ok_def ram_context_def mem_lo_def mem_hi_def memory_size_def)

section \<open>Elements\<close>

lemma length_concat_const: "\<forall>v \<in> set vs. length v = k \<Longrightarrow> length (concat vs) = length vs * k"
  by (induction vs) auto

lemma elements_of_concat: "\<forall>v \<in> set vs. length v = k \<Longrightarrow> elements_of k (length vs) (concat vs) = vs"
  by (induction vs) auto

lemma element_of_concat:
  "\<forall>v \<in> set vs. length v = k \<Longrightarrow> i < length vs \<Longrightarrow> take k (drop (i * k) (concat vs)) = vs ! i"
proof (induction vs arbitrary: i)
  case (Cons v vs)
  show ?case
  proof (cases i)
    case 0
    then show ?thesis using Cons.prems by simp
  next
    case (Suc j)
    have "drop (i * k) (concat (v # vs)) = drop (j * k) (concat vs)"
      using Suc Cons.prems(1) by (simp add: add.commute)
    then show ?thesis using Cons Suc by simp
  qed
qed simp

text \<open>A tensor in use: its elements lie in one live allocation, at word addresses.\<close>

definition tensor_ok :: "u64 \<Rightarrow> tensor \<Rightarrow> 'd gpu_context \<Rightarrow> bool" where
  "tensor_ok esz t c \<longleftrightarrow>
     0 < unat esz \<and> unat esz mod 4 = 0 \<and> unat (tensor_addr t) mod 4 = 0 \<and>
     (unat (tensor_addr t), unat (tn_count t) * unat esz) \<in> live (ctx_blocks c)"

lemma tensor_ok_bound:
  assumes "mem_ok c" and "tensor_ok esz t c"
  shows "unat (tensor_addr t) + unat (tn_count t) * unat esz < 2 ^ 32"
  using assms mem_hi_bound [OF assms(1)]
    live_bounds [of "mem_lo c" "ctx_blocks c" "mem_hi c" "unat (tensor_addr t)"
      "unat (tn_count t) * unat esz"]
  by (simp add: tensor_ok_def mem_ok_def)

lemma element_addr_eq:
  assumes "mem_ok c" and "tensor_ok esz t c" and "i < tn_count t"
  shows "unat (element_addr esz t i) = unat (tensor_addr t) + unat i * unat esz"
    and "unat i * unat esz + unat esz \<le> unat (tn_count t) * unat esz"
proof -
  have "Suc (unat i) * unat esz \<le> unat (tn_count t) * unat esz"
    using assms(3) by (intro mult_le_mono1) (simp add: word_less_nat_alt)
  then show le: "unat i * unat esz + unat esz \<le> unat (tn_count t) * unat esz" by (simp add: add.commute)
  have lt: "unat (tensor_addr t) + unat i * unat esz < 2 ^ 32"
    using le tensor_ok_bound [OF assms(1,2)] by linarith
  then have "unat (i * esz) = unat i * unat esz" by (simp add: unat_word_ariths)
  then have "unat (widen (tensor_addr t) + i * esz) = unat (tensor_addr t) + unat i * unat esz"
    using lt by (subst unat_add_small) simp_all
  then show "unat (element_addr esz t i) = unat (tensor_addr t) + unat i * unat esz"
    using lt by (simp add: element_addr_def)
qed

lemma tensor_read_link:
  assumes ok: "mem_ok c" and link: "memory_link (ctx_transport c) mem idle limit" "mem_hi c \<le> limit" "idle d" and t: "tensor_ok esz t c"
    and i: "i < tn_count t"
  shows "\<exists>e d'. tensor_read esz t i (c, d)
           = (Inr (load (unat (tensor_addr t) + unat i * unat esz) (unat esz) (mem d)), (log_event e c, d'))
           \<and> idle d' \<and> mem d' = mem d"
proof -
  note ea = element_addr_eq [OF ok t i]
  have dv: "4 dvd unat (tensor_addr t)" "4 dvd unat esz"
    using t by (simp_all add: tensor_ok_def dvd_eq_mod_eq_0)
  have "4 dvd unat (element_addr esz t i)" unfolding ea(1) using dv by simp
  then have al: "unat (element_addr esz t i) mod 4 = 0" "unat esz mod 4 = 0" "esz \<noteq> 0"
    using t by (auto simp: tensor_ok_def)
  have "\<exists>e d'. copy_from_device (Some (replicate (unat esz) 0)) (element_addr esz t i) esz (c, d)
      = (Inr (load (unat (element_addr esz t i)) (unat esz) (mem d)), (log_event e c, d'))
      \<and> idle d' \<and> mem d' = mem d"
    by (rule copy_from_link [OF ok link t [unfolded tensor_ok_def, THEN conjunct2, THEN conjunct2, THEN conjunct2]])
      (use ea al in simp_all)
  then show ?thesis using i ea(1) by (simp add: tensor_read_def check_index_def andThen_def not_le)
qed

lemma tensor_write_link:
  assumes ok: "mem_ok c" and link: "memory_link (ctx_transport c) mem idle limit" "mem_hi c \<le> limit" "idle d" and t: "tensor_ok esz t c"
    and i: "i < tn_count t" and v: "length v = unat esz"
  shows "\<exists>e d'. tensor_write esz t i v (c, d) = (Inr (), (log_event e c, d'))
           \<and> idle d' \<and> mem d' = store (unat (tensor_addr t) + unat i * unat esz) v (mem d)"
proof -
  note ea = element_addr_eq [OF ok t i]
  have dv: "4 dvd unat (tensor_addr t)" "4 dvd unat esz"
    using t by (simp_all add: tensor_ok_def dvd_eq_mod_eq_0)
  have "4 dvd unat (element_addr esz t i)" unfolding ea(1) using dv by simp
  then have al: "unat (element_addr esz t i) mod 4 = 0" "length v mod 4 = 0" "v \<noteq> []"
    using t v by (auto simp: tensor_ok_def)
  have "\<exists>e d'. copy_to_device (element_addr esz t i) (Some v) (of_nat (length v)) (c, d)
      = (Inr (), (log_event e c, d')) \<and> idle d' \<and> mem d' = store (unat (element_addr esz t i)) v (mem d)"
    by (rule copy_to_link [OF ok link t [unfolded tensor_ok_def, THEN conjunct2, THEN conjunct2, THEN conjunct2]])
      (use ea al v in simp_all)
  moreover have "of_nat (length v) = esz" using v by simp
  ultimately show ?thesis using i ea(1) by (simp add: tensor_write_def check_index_def andThen_def not_le)
qed

lemma tensor_ok_log [simp]: "tensor_ok esz t (log_event e c) = tensor_ok esz t c"
  by (simp add: tensor_ok_def)

text \<open>
  Writing one element of a tensor and reading any element back. The write succeeds, the element
  written reads as the new value, and every other element reads as it did before.
\<close>

theorem tensor_write_read:
  assumes ok: "mem_ok c" and link: "memory_link (ctx_transport c) mem idle limit" "mem_hi c \<le> limit" "idle d" and t: "tensor_ok esz t c"
    and ij: "i < tn_count t" "j < tn_count t" and v: "length v = unat esz"
  shows "\<exists>s. tensor_write esz t i v (c, d) = (Inr (), s)
           \<and> fst (tensor_read esz t j s) = (if j = i then Inr v else fst (tensor_read esz t j (c, d)))"
proof -
  obtain e d' where w: "tensor_write esz t i v (c, d) = (Inr (), (log_event e c, d'))"
    and d': "idle d'" "mem d' = store (unat (tensor_addr t) + unat i * unat esz) v (mem d)"
    using tensor_write_link [OF ok link t ij(1) v] by blast
  have r: "fst (tensor_read esz t j (c', x))
        = Inr (load (unat (tensor_addr t) + unat j * unat esz) (unat esz) (mem x))"
    if c': "c' = c \<or> c' = log_event e c" "idle x" for c' x
    using tensor_read_link [of c' mem idle limit x esz t j] ok link t ij(2) c' by auto
  have "load (unat (tensor_addr t) + unat j * unat esz) (unat esz) (mem d')
      = (if j = i then v else load (unat (tensor_addr t) + unat j * unat esz) (unat esz) (mem d))"
  proof (cases "j = i")
    case True
    then show ?thesis using d' v load_store_same by metis
  next
    case False
    then consider "unat j + 1 \<le> unat i" | "unat i + 1 \<le> unat j" by (fastforce simp: word_unat_eq_iff)
    then have "unat j * unat esz + unat esz \<le> unat i * unat esz
        \<or> unat i * unat esz + unat esz \<le> unat j * unat esz"
      by cases (metis add.commute mult_Suc mult_le_mono1 Suc_eq_plus1)+
    then show ?thesis using False d' v load_store_apart by simp
  qed
  then show ?thesis using w r d'(1) link(3) by auto
qed

lemma tensor_write_read_witness:
  "\<exists>s. tensor_write 4 \<lparr>tn_buffer = \<lparr>db_context = True, db_addr = 0, db_size = 8\<rparr>, tn_count = 2\<rparr>
          1 [5, 6, 7, 8] (ram_context, \<lambda>_. 0) = (Inr (), s)"
  using tensor_write_read [OF ram_context_ok(1,2,3), where d = "\<lambda>_. 0" and esz = 4 and i = 1 and j = 1
      and t = "\<lparr>tn_buffer = \<lparr>db_context = True, db_addr = 0, db_size = 8\<rparr>, tn_count = 2\<rparr>"
      and v = "[5, 6, 7, 8]"]
  by (auto simp: tensor_ok_def tensor_addr_def buffer_addr_def ram_context_ok(5))

section \<open>Building a tensor\<close>

lemma tensor_new_ok:
  assumes ok: "mem_ok c" and al: "ctx_default_alignment c = 4"
    and esz: "0 < unat esz" "unat esz mod 4 = 0" "0 < unat count" "unat count * unat esz < 2 ^ 32"
    and room: "\<exists>b \<in> set (ctx_blocks c). has_room 4 (unat count * unat esz) b"
  shows "\<exists>t c'. tensor_new esz count (c, d) = (Inr t, (c', d)) \<and> tn_count t = count \<and> mem_ok c'
           \<and> tensor_ok esz t c' \<and> ctx_transport c' = ctx_transport c \<and> mem_hi c' = mem_hi c"
proof -
  have n: "unat (count * esz) = unat count * unat esz" using esz(4) by (simp add: unat_word_ariths)
  have g: "grant (count * esz) 4 = unat count * unat esz"
    using esz(2) by (simp add: round_up_def n mod_eq_0_iff_dvd)
  have req: "request_ok (count * esz) 4"
    using g esz n by (auto simp: request_ok_def word_unat_eq_iff)
  obtain r c' where run: "device_malloc_aligned (count * esz) 4 c = (r, c')" by force
  show ?thesis
  proof (cases r)
    case (Inl e)
    then show ?thesis using device_malloc_fails [OF req, of c e c'] run room g by auto
  next
    case (Inr buf)
    then have run: "device_malloc_aligned (count * esz) 4 c = (Inr buf, c')" using run by simp
    note m = device_malloc_correct [OF ok req run]
    have "ctx_transport c' = ctx_transport c" "mem_hi c' = mem_hi c"
      using device_malloc_Inr [OF run] by (auto simp: mem_hi_def memory_size_def)
    moreover have "tensor_ok esz \<lparr>tn_buffer = buf, tn_count = count\<rparr> c'"
      using m(2,4) g esz by (simp add: tensor_ok_def tensor_addr_def buffer_addr_def dvd_eq_mod_eq_0)
    ultimately show ?thesis
      using m(1) run al by (simp add: tensor_new_def andThen_def on_context_def device_malloc_def)
  qed
qed

lemma tensor_values_roundtrip:
  assumes ok: "mem_ok c" and al: "ctx_default_alignment c = 4"
    and link: "memory_link (ctx_transport c) mem idle limit" "mem_hi c \<le> limit" "idle d"
    and vals: "values \<noteq> []" "\<forall>v \<in> set values. length v = unat esz"
    and esz: "0 < unat esz" "unat esz mod 4 = 0" "length values * unat esz < 2 ^ 32"
    and room: "\<exists>b \<in> set (ctx_blocks c). has_room 4 (length values * unat esz) b"
  shows "\<exists>t s. tensor_of_values esz values (c, d) = (Inr t, s)
           \<and> fst (tensor_read_all esz t s) = Inr values
           \<and> (\<forall>i < length values. fst (tensor_read esz t (of_nat i) s) = Inr (values ! i))"
proof -
  let ?n = "of_nat (length values) :: u64"
  have len: "length values < 2 ^ 32"
  proof -
    have "length values \<le> length values * unat esz" using esz(1) by (cases "unat esz") simp_all
    then show ?thesis using esz(3) by (rule le_less_trans)
  qed
  then have n: "unat ?n = length values" by (simp add: unat_of_nat)
  have bytes: "length (concat values) = length values * unat esz"
    using vals(2) by (rule length_concat_const)
  have total: "unat (?n * esz) = length values * unat esz" using esz(3) n by (simp add: unat_word_ariths)
  obtain t c1 where new: "tensor_new esz ?n (c, d) = (Inr t, (c1, d))" and cnt: "tn_count t = ?n"
    and ok1: "mem_ok c1" and t: "tensor_ok esz t c1" and tr: "ctx_transport c1 = ctx_transport c" "mem_hi c1 = mem_hi c"
    using tensor_new_ok [OF ok al esz(1,2), of ?n d] n vals(1) esz(3) room by auto
  have reg: "(unat (tensor_addr t), length values * unat esz) \<in> live (ctx_blocks c1)"
    and addr: "unat (tensor_addr t) mod 4 = 0"
    using t cnt n by (simp_all add: tensor_ok_def)
  have link1: "memory_link (ctx_transport c1) mem idle limit" "mem_hi c1 \<le> limit" "idle d"
    using link tr by simp_all
  have m4: "(length values * unat esz) mod 4 = 0" using esz(2) by auto
  have "length (concat values) \<noteq> 0" unfolding bytes using vals(1) esz(1) by simp
  then have ne: "concat values \<noteq> []" by force
  obtain e d1 where w: "copy_to_device (tensor_addr t) (Some (concat values)) (of_nat (length (concat values))) (c1, d)
        = (Inr (), (log_event e c1, d1))" and d1: "idle d1" "mem d1 = store (unat (tensor_addr t)) (concat values) (mem d)"
    using copy_to_link [OF ok1 link1 reg _ _ addr _ ne] bytes m4 by auto
  let ?s = "(log_event e c1, d1)"
  have "(of_nat (length (concat values)) :: u64) = ?n * esz" using bytes by simp
  then have "tensor_write_all esz t values (c1, d) = (Inr (), ?s)"
    using w vals(1) cnt by (simp add: tensor_write_all_def)
  then have build: "tensor_of_values esz values (c, d) = (Inr t, ?s)"
    using new by (simp add: tensor_of_values_def andThen_def)
  have tb: "unat (tensor_bytes esz t) = length values * unat esz"
    using total cnt by (simp add: tensor_bytes_def)
  moreover have "0 < length values * unat esz" using vals(1) esz(1) by simp
  ultimately have nz: "tensor_bytes esz t \<noteq> 0" "unat (tensor_bytes esz t) = length values * unat esz"
    by (simp_all add: unat_gt_0 [symmetric])
  obtain e2 d2 where "copy_from_device (Some (replicate (length values * unat esz) 0)) (tensor_addr t)
        (tensor_bytes esz t) ?s
      = (Inr (load (unat (tensor_addr t)) (length values * unat esz) (mem d1)), (log_event e2 (log_event e c1), d2))"
    using copy_from_link [of "log_event e c1" mem idle limit d1 "unat (tensor_addr t)" "length values * unat esz"
        "tensor_addr t" "tensor_bytes esz t" "replicate (length values * unat esz) 0"]
      ok1 link1 d1(1) reg addr m4 nz by auto
  moreover have "load (unat (tensor_addr t)) (length values * unat esz) (mem d1) = concat values"
    using d1(2) bytes load_store_same by metis
  moreover have "?n \<noteq> 0" using n vals(1) by auto
  ultimately have "fst (tensor_read_all esz t ?s) = Inr values"
    using cnt n esz(3) vals(2)
    by (simp add: tensor_read_all_def andThen_def elements_of_concat)
  moreover have "fst (tensor_read esz t (of_nat i) ?s) = Inr (values ! i)" if i: "i < length values" for i
  proof -
    have ui: "unat (of_nat i :: u64) = i" using i len by (simp add: unat_of_nat)
    then have lt: "of_nat i < tn_count t" using i n cnt by (simp add: word_less_nat_alt)
    have "Suc i * unat esz \<le> length values * unat esz" using i by (intro mult_le_mono1) simp
    then have "load (unat (tensor_addr t) + i * unat esz) (unat esz) (mem d1) = values ! i"
      using d1 bytes element_of_concat [OF vals(2) i] by (simp add: load_store_part add.commute)
    then show ?thesis
      using tensor_read_link [of "log_event e c1" mem idle limit d1 esz t "of_nat i"] ok1 link1 d1(1) t lt ui by auto
  qed
  ultimately show ?thesis using build by blast
qed

text \<open>
  The round trip through device memory. A tensor built from values that fit reads back, as a
  whole and element by element, exactly the values it was built from.
\<close>

theorem tensor_roundtrip:
  assumes ok: "mem_ok c" and al: "ctx_default_alignment c = 4"
    and link: "memory_link (ctx_transport c) mem idle limit" "mem_hi c \<le> limit" "idle d"
    and vals: "values \<noteq> []" "\<forall>v \<in> set values. length v = unat esz"
    and esz: "0 < unat esz" "unat esz mod 4 = 0" "length values * unat esz < 2 ^ 32"
    and room: "\<exists>b \<in> set (ctx_blocks c). has_room 4 (length values * unat esz) b"
  shows "\<exists>t s. tensor_of_values esz values (c, d) = (Inr t, s)
           \<and> fst (tensor_read_all esz t s) = Inr values
           \<and> (\<forall>i < length values. fst (tensor_read esz t (of_nat i) s) = Inr (values ! i))"
  by (rule tensor_values_roundtrip [OF ok al link vals esz room])

lemma tensor_roundtrip_witness:
  "\<exists>t s. tensor_of_values 4 [[1, 2, 3, 4], [5, 6, 7, 8]] (ram_context, \<lambda>_. 0) = (Inr t, s)
     \<and> fst (tensor_read_all 4 t s) = Inr [[1, 2, 3, 4], [5, 6, 7, 8]]"
proof -
  have "\<exists>b \<in> set (ctx_blocks ram_context). has_room 4 (length [[1, 2, 3, 4], [5, 6, 7, 8 :: u8]] * unat (4 :: u64)) b"
    by (simp add: ram_context_ok(5) has_room_def round_up_def)
  from tensor_roundtrip [OF ram_context_ok(1,4,2,3) _ _ _ _ _ _ this] show ?thesis by fastforce
qed

text \<open>
  The element count is multiplied by the element size without a check. With four-byte elements a
  tensor of \<open>2^62 + 1\<close> elements is built on an allocation of four bytes, and its elements 0 and \<open>2^62\<close>
  share one address.
\<close>

theorem tensor_count_wraps:
  assumes ok: "mem_ok c" and al: "ctx_default_alignment c = 4"
    and room: "\<exists>b \<in> set (ctx_blocks c). has_room 4 4 b"
  shows "\<exists>t c'. tensor_new 4 (2 ^ 62 + 1) (c, d) = (Inr t, (c', d)) \<and> tn_count t = 2 ^ 62 + 1
           \<and> live (ctx_blocks c') = insert (unat (tensor_addr t), 4) (live (ctx_blocks c))
           \<and> element_addr 4 t (2 ^ 62) = element_addr 4 t 0"
proof -
  have wrap: "(18446744073709551620 :: u64) = 4" "(18446744073709551616 :: u64) = 0" by simp_all
  have req: "request_ok 4 4" "grant 4 4 = 4" by (simp_all add: request_ok_def round_up_def)
  obtain r c' where run: "device_malloc_aligned 4 4 c = (r, c')" by force
  show ?thesis
  proof (cases r)
    case (Inl e)
    then show ?thesis using device_malloc_fails [OF req(1), of c e c'] run room req(2) by auto
  next
    case (Inr buf)
    then have run: "device_malloc_aligned 4 4 c = (Inr buf, c')" using run by simp
    have "live (ctx_blocks c') = insert (unat (db_addr buf), 4) (live (ctx_blocks c))"
      using device_malloc_correct(2) [OF ok req(1) run] req(2) by simp
    then show ?thesis
      using run al
      by (simp add: wrap tensor_new_def andThen_def on_context_def device_malloc_def element_addr_def
          tensor_addr_def buffer_addr_def)
  qed
qed

lemma tensor_count_wraps_witness:
  "\<exists>t c'. tensor_new 4 (2 ^ 62 + 1) (ram_context, \<lambda>_. 0) = (Inr t, (c', \<lambda>_. 0)) \<and> tn_count t = 2 ^ 62 + 1"
proof -
  have "\<exists>b \<in> set (ctx_blocks ram_context). has_room 4 4 b"
    by (simp add: ram_context_ok(5) has_room_def round_up_def)
  from tensor_count_wraps [OF ram_context_ok(1,4) this] show ?thesis by blast
qed

end
