(* ===== verification/SerialDevice.thy ===== *)
theory SerialDevice
  imports GpuComm Tensors
begin

text \<open>
  The transport over a device that keeps to the protocol. \<open>serial_device\<close> states what
  \<open>gpu_comm/src/com.h\<close> documents of the other side: a data write is stored and acknowledged, a data
  read is answered with the bytes, and what the device answers arrives in order, in pieces of any size.
  Over such a device the chunked transfers of \<open>com.c\<close> and of the transport are shown to be a
  word-addressed memory, which is what the tensors rely on.
\<close>

text \<open>What the device has to say arrives in order; a read takes at least one pending byte.\<close>

definition delivers :: "'w os \<Rightarrow> int \<Rightarrow> ('w \<Rightarrow> bytes) \<Rightarrow> ('w \<Rightarrow> 'm) \<Rightarrow> bool" where
  "delivers os fd pend mem \<longleftrightarrow>
     (\<forall>w n. 0 < n \<longrightarrow> pend w \<noteq> [] \<longrightarrow>
        (\<exists>k w'. 0 < k \<and> k \<le> n \<and> k \<le> length (pend w)
           \<and> os_read os fd n w = (Inr (take k (pend w)), w')
           \<and> pend w' = drop k (pend w) \<and> mem w' = mem w))"

definition serial_device :: "'w os \<Rightarrow> int \<Rightarrow> ('w \<Rightarrow> bytes) \<Rightarrow> ('w \<Rightarrow> nat \<Rightarrow> u8) \<Rightarrow> bool" where
  "serial_device os fd pend mem \<longleftrightarrow>
     delivers os fd pend mem
     \<and> (\<forall>w a payload. pend w = [] \<longrightarrow> length payload mod 4 = 0 \<longrightarrow> 0 < length payload \<longrightarrow>
          length payload \<le> 252 \<longrightarrow> unat a + length payload \<le> 65536 \<longrightarrow>
        (\<exists>w'. os_write os fd (frame (cmd_code CMD_WRITE_DATA) a (of_nat (length payload)) payload) w
             = (int (7 + length payload), w')
           \<and> pend w' = frame (cmd_code CMD_ACK) a 0 [] \<and> mem w' = store (unat a) payload (mem w)))
     \<and> (\<forall>w a filler. pend w = [] \<longrightarrow> length filler mod 4 = 0 \<longrightarrow> 0 < length filler \<longrightarrow>
          length filler \<le> 252 \<longrightarrow> unat a + length filler \<le> 65536 \<longrightarrow>
        (\<exists>w'. os_write os fd (frame (cmd_code CMD_READ_DATA) a (of_nat (length filler)) filler) w
             = (int (7 + length filler), w')
           \<and> pend w' = frame (cmd_code CMD_READ_DATA) a (of_nat (length filler))
               (load (unat a) (length filler) (mem w))
           \<and> mem w' = mem w))"

lemma serial_device_delivers: "serial_device os fd pend mem \<Longrightarrow> delivers os fd pend mem"
  by (simp add: serial_device_def)

lemma delivers_read:
  assumes "delivers os fd pend mem" and "0 < n" and "pend w \<noteq> []"
  shows "\<exists>k w'. 0 < k \<and> k \<le> n \<and> k \<le> length (pend w)
     \<and> os_read os fd n w = (Inr (take k (pend w)), w')
     \<and> pend w' = drop k (pend w) \<and> mem w' = mem w"
  using assms(1) [unfolded delivers_def, rule_format, OF assms(2,3)] .

lemma serial_device_write:
  assumes "serial_device os fd pend mem" and "pend w = []" and "length payload mod 4 = 0"
    and "0 < length payload" and "length payload \<le> 252" and "unat a + length payload \<le> 65536"
  shows "\<exists>w'. os_write os fd (frame (cmd_code CMD_WRITE_DATA) a (of_nat (length payload)) payload) w
       = (int (7 + length payload), w')
     \<and> pend w' = frame (cmd_code CMD_ACK) a 0 [] \<and> mem w' = store (unat a) payload (mem w)"
  using assms(1) [unfolded serial_device_def, THEN conjunct2, THEN conjunct1, rule_format,
      OF assms(2-6)] .

lemma serial_device_request:
  assumes "serial_device os fd pend mem" and "pend w = []" and "length filler mod 4 = 0"
    and "0 < length filler" and "length filler \<le> 252" and "unat a + length filler \<le> 65536"
  shows "\<exists>w'. os_write os fd (frame (cmd_code CMD_READ_DATA) a (of_nat (length filler)) filler) w
       = (int (7 + length filler), w')
     \<and> pend w' = frame (cmd_code CMD_READ_DATA) a (of_nat (length filler))
         (load (unat a) (length filler) (mem w))
     \<and> mem w' = mem w"
  using assms(1) [unfolded serial_device_def, THEN conjunct2, THEN conjunct2, rule_format,
      OF assms(2-6)] .

section \<open>Receiving\<close>

lemma recv_loop_pending:
  assumes dev: "delivers os fd pend mem" and "length acc \<le> n"
    and "n - length acc \<le> length (pend w)"
  shows "\<exists>w'. recv_loop os fd n acc w = (Inr (Inr (acc @ take (n - length acc) (pend w))), w')
           \<and> pend w' = drop (n - length acc) (pend w) \<and> mem w' = mem w"
  using assms(2,3)
proof (induction "n - length acc" arbitrary: acc w rule: less_induct)
  case less
  show ?case
  proof (cases "length acc < n")
    case False
    then show ?thesis using less.prems by (simp add: recv_loop.simps)
  next
    case True
    then have "pend w \<noteq> []" using less.prems by auto
    then obtain k w1 where k: "0 < k" "k \<le> n - length acc" "k \<le> length (pend w)"
      and read: "os_read os fd (n - length acc) w = (Inr (take k (pend w)), w1)"
      and w1: "pend w1 = drop k (pend w)" "mem w1 = mem w"
      using delivers_read [OF dev, of "n - length acc" w] True by auto
    let ?acc = "acc @ take k (pend w)"
    have len: "length ?acc = length acc + k" using k by simp
    have ne: "take k (pend w) \<noteq> []" using k by auto
    have "recv_loop os fd n acc w = recv_loop os fd n ?acc w1"
      using True read ne k by (subst recv_loop.simps) (simp add: min_def)
    moreover have "\<exists>w'. recv_loop os fd n ?acc w1
        = (Inr (Inr (?acc @ take (n - length ?acc) (pend w1))), w')
        \<and> pend w' = drop (n - length ?acc) (pend w1) \<and> mem w' = mem w1"
      using len k True less.prems w1 by (intro less.hyps) simp_all
    moreover have "take k (pend w) @ take (n - length ?acc) (drop k (pend w)) = take (n - length acc) (pend w)"
      using len k take_add [of k "n - length ?acc" "pend w"] by simp
    moreover have "drop (n - length ?acc) (drop k (pend w)) = drop (n - length acc) (pend w)"
      using len k by simp
    ultimately show ?thesis using w1 by auto
  qed
qed

lemma com_recv_pending:
  assumes "delivers os (dev_fd dv) pend mem" and "n \<le> length (pend w)"
  shows "\<exists>w'. com_recv_raw os (Some dv) n w = (Inr (Inr (take n (pend w))), w')
           \<and> pend w' = drop n (pend w) \<and> mem w' = mem w"
  using recv_loop_pending [OF assms(1), of "[]" n w] assms(2) by (simp add: com_recv_raw_def)

lemma com_send_written:
  "os_write os (dev_fd dv) buf w = (int (length buf), w') \<Longrightarrow>
     com_send_raw os (Some dv) buf w = (Inr (Inr ()), w')"
  by (simp add: com_send_raw_def)

lemma parse_received_frame:
  assumes "length payload = unat len" and "unat len \<le> 255"
  shows "parse_received (frame cmd addr len payload) w
       = (Inr (Inr \<lparr>cp_cmd = cmd, cp_addr = addr, cp_len = len, cp_payload = payload\<rparr>), w)"
  using parse_frame [of payload len cmd addr "[]"] assms by (simp add: parse_received_def)

lemma on_ok_Inr [run_simps]: "m s = (Inr (Inr x), s') \<Longrightarrow> on_ok m f s = f x s'"
  by (simp add: on_ok_def andThen_def)

lemma on_ok_Inl [run_simps]: "m s = (Inr (Inl e), s') \<Longrightarrow> on_ok m f s = (Inr (Inl e), s')"
  by (simp add: on_ok_def andThen_def)

lemma com_status_Inr [run_simps]: "m s = (Inr (Inr x), s') \<Longrightarrow> com_status m s = (Inr (Inr x), s')"
  by (simp add: com_status_def andThen_def)

lemma retry_success: "m s = (Inr (Inr x), s') \<Longrightarrow> retry (Suc n) m e s = (Inr (Inr x), s')"
  by (simp add: andThen_def)

section \<open>Data writes\<close>

lemma write_attempt_ok:
  assumes dev: "serial_device os (dev_fd dv) pend mem" and idle: "pend w = []"
    and p: "length payload mod 4 = 0" "0 < length payload" "length payload \<le> 252"
      "unat a + length payload \<le> 65536"
  shows "\<exists>w'. write_attempt os (Some dv)
      (frame (cmd_code CMD_WRITE_DATA) a (of_nat (length payload)) payload) a w = (Inr (Inr ()), w')
    \<and> pend w' = [] \<and> mem w' = store (unat a) payload (mem w)"
proof -
  obtain w1 where wr: "os_write os (dev_fd dv)
        (frame (cmd_code CMD_WRITE_DATA) a (of_nat (length payload)) payload) w = (int (7 + length payload), w1)"
    and w1: "pend w1 = frame (cmd_code CMD_ACK) a 0 []" "mem w1 = store (unat a) payload (mem w)"
    using serial_device_write [OF dev idle p] by blast
  have send: "com_send_raw os (Some dv) (frame (cmd_code CMD_WRITE_DATA) a (of_nat (length payload)) payload) w
      = (Inr (Inr ()), w1)"
    using wr by (intro com_send_written) simp
  obtain w2 where recv: "com_recv_raw os (Some dv) COM_OVERHEAD w1
        = (Inr (Inr (frame (cmd_code CMD_ACK) a 0 [])), w2)" and w2: "pend w2 = []" "mem w2 = mem w1"
    using com_recv_pending [OF serial_device_delivers [OF dev], of COM_OVERHEAD w1] w1(1) by (auto simp: com_constants)
  have "parse_received (frame (cmd_code CMD_ACK) a 0 []) w2
      = (Inr (Inr \<lparr>cp_cmd = cmd_code CMD_ACK, cp_addr = a, cp_len = 0, cp_payload = []\<rparr>), w2)"
    by (rule parse_received_frame) simp_all
  then show ?thesis
    using send recv w1 w2 by (simp add: write_attempt_def run_simps on_ok_Inr fail_unless_def)
qed

lemma padded_len_bounds:
  "n \<le> padded_len n" "padded_len n mod 4 = 0" "n \<le> 252 \<Longrightarrow> padded_len n \<le> 252"
  "0 < n \<Longrightarrow> 0 < padded_len n" "n mod 4 = 0 \<Longrightarrow> padded_len n = n" "padded_len (252 + n) = 252 + padded_len n"
  unfolding padded_len_def com_constants by presburger+

definition padding :: "bytes \<Rightarrow> bytes" where
  "padding bs = bs @ replicate (padded_len (length bs) - length bs) 0"

lemma length_padding [simp]: "length (padding bs) = padded_len (length bs)"
  using padded_len_bounds(1) [of "length bs"] by (simp add: padding_def)

lemma padding_aligned: "length bs mod 4 = 0 \<Longrightarrow> padding bs = bs"
  by (simp add: padding_def padded_len_bounds(5))

lemma padding_append: "length xs = 252 \<Longrightarrow> padding (xs @ ys) = xs @ padding ys"
  by (simp add: padding_def padded_len_bounds(6))

lemma write_chunk_ok:
  assumes dev: "serial_device os (dev_fd dv) pend mem" and idle: "pend w = []"
    and c: "chunk \<noteq> []" "length chunk \<le> 252" "unat a + padded_len (length chunk) \<le> 65536"
  shows "\<exists>w'. write_chunk os (Some dv) a chunk w = (Inr (Inr ()), w')
    \<and> pend w' = [] \<and> mem w' = store (unat a) (padding chunk) (mem w)"
proof -
  let ?n = "padded_len (length chunk)"
  have n: "?n \<le> 252" "0 < ?n" "?n mod 4 = 0"
    using padded_len_bounds(2,3,4) [of "length chunk"] c by simp_all
  have u: "unat (of_nat ?n :: u16) = ?n" using n by (simp add: unat_of_nat)
  have build: "com_build_packet (cmd_code CMD_WRITE_DATA) a (Some (padding chunk)) (of_nat ?n)
      = Inr (frame (cmd_code CMD_WRITE_DATA) a (of_nat (length (padding chunk))) (padding chunk))"
    using build_fields_frame [of ?n "padding chunk"] n u by (simp add: com_build_packet_def)
  obtain w' where att: "write_attempt os (Some dv)
      (frame (cmd_code CMD_WRITE_DATA) a (of_nat (length (padding chunk))) (padding chunk)) a w
        = (Inr (Inr ()), w')" and w': "pend w' = []" "mem w' = store (unat a) (padding chunk) (mem w)"
    using write_attempt_ok [OF dev idle, of "padding chunk" a] n c by auto
  have "retry RETRIES (write_attempt os (Some dv)
      (frame (cmd_code CMD_WRITE_DATA) a (of_nat (length (padding chunk))) (padding chunk)) a) ERR_FPGA w
      = (Inr (Inr ()), w')"
    unfolding RETRIES_def numeral_3_eq_3 by (rule retry_success) (rule att)
  then show ?thesis
    using build c w' by (simp add: write_chunk_def Let_def padding_def [symmetric] del: retry.simps)
qed

lemma write_loop_ok:
  assumes dev: "serial_device os (dev_fd dv) pend mem"
  shows "pend w = [] \<Longrightarrow> unat addr + offset + padded_len (length rest) \<le> 65536 \<Longrightarrow>
    \<exists>w'. write_loop os (Some dv) addr offset rest w = (Inr (Inr ()), w')
      \<and> pend w' = [] \<and> mem w' = store (unat addr + offset) (padding rest) (mem w)"
proof (induction "length rest" arbitrary: rest offset w rule: less_induct)
  case less
  show ?case
  proof (cases "rest = []")
    case True
    then show ?thesis using less.prems by (simp add: write_loop.simps padding_def padded_len_def com_constants)
  next
    case False
    let ?chunk = "take 252 rest"
    let ?a = "addr + of_nat offset"
    have max: "COM_MAX_ALIGNED_PAYLOAD = 252" by (simp add: com_constants)
    have le: "length ?chunk \<le> length rest" by simp
    have pl: "padded_len (length ?chunk) \<le> padded_len (length rest)"
      unfolding padded_len_def com_constants by (intro mult_le_mono1 div_le_mono) simp
    have "0 < padded_len (length rest)" using False padded_len_bounds(4) by simp
    then have a: "unat ?a = unat addr + offset"
      using less.prems(2) by (subst unat_add_small) (simp_all add: unat_of_nat)
    obtain w1 where c: "write_chunk os (Some dv) ?a ?chunk w = (Inr (Inr ()), w1)"
      and w1: "pend w1 = []" "mem w1 = store (unat ?a) (padding ?chunk) (mem w)"
      using write_chunk_ok [OF dev less.prems(1), of ?chunk ?a] False a pl less.prems(2) by auto
    have step: "write_loop os (Some dv) addr offset rest w
        = write_loop os (Some dv) addr (offset + length ?chunk) (drop 252 rest) w1"
      using False c by (subst write_loop.simps) (simp add: max Let_def on_ok_Inr)
    show ?thesis
    proof (cases "length rest \<le> 252")
      case True
      then show ?thesis using step w1 a by (simp add: write_loop.simps)
    next
      case long: False
      then have split: "rest = ?chunk @ drop 252 rest" "length ?chunk = 252" by simp_all
      then have pads: "padding ?chunk = ?chunk" "padding rest = ?chunk @ padding (drop 252 rest)"
        using padding_append [of ?chunk "drop 252 rest"] padding_aligned [of ?chunk] by auto
      have plen: "padded_len (length rest) = 252 + padded_len (length (drop 252 rest))"
        using long padded_len_bounds(6) [of "length rest - 252"] by simp
      have "\<exists>w'. write_loop os (Some dv) addr (offset + length ?chunk) (drop 252 rest) w1 = (Inr (Inr ()), w')
          \<and> pend w' = [] \<and> mem w' = store (unat addr + (offset + length ?chunk)) (padding (drop 252 rest)) (mem w1)"
        using long w1 less.prems(2) plen split(2) by (intro less.hyps) simp_all
      then show ?thesis
        using step w1(2) pads a split(2) store_append [of "unat addr + offset" ?chunk "padding (drop 252 rest)"]
        by (auto simp: add.assoc)
    qed
  qed
qed

lemma com_write_data_ok:
  assumes dev: "serial_device os (dev_fd dv) pend mem" and idle: "pend w = []"
    and fit: "unat addr + padded_len (length bs) \<le> 65536"
  shows "\<exists>w'. com_write_data os (Some dv) addr (Some bs) (length bs) w = (Inr (Inr ()), w')
    \<and> pend w' = [] \<and> mem w' = store (unat addr) (padding bs) (mem w)"
proof -
  have "length bs \<le> 65535 - unat addr + 1"
    using fit padded_len_bounds(1) [of "length bs"] unsigned_less [of addr] by simp
  then show ?thesis
    using write_loop_ok [OF dev idle, of addr 0 bs] fit by (simp add: com_write_data_def)
qed

section \<open>Data reads\<close>

lemma read_packet_attempt_answered:
  assumes dev: "delivers os (dev_fd dv) pend mem"
    and wr: "os_write os (dev_fd dv) tx w = (int (length tx), w1)"
    and w1: "pend w1 = frame cmd a (of_nat n) body" and n: "length body = n" "n \<le> 252"
  shows "\<exists>w'. read_packet_attempt os (Some dv) tx w
        = (Inr (Inr \<lparr>cp_cmd = cmd, cp_addr = a, cp_len = of_nat n, cp_payload = body\<rparr>), w')
    \<and> pend w' = [] \<and> mem w' = mem w1"
proof -
  let ?rx = "frame cmd a (of_nat n) body"
  have un: "unat (of_nat n :: u16) = n" using n by (simp add: unat_of_nat)
  from wr have send: "com_send_raw os (Some dv) tx w = (Inr (Inr ()), w1)"
    by (intro com_send_written)
  obtain w2 where h: "com_recv_raw os (Some dv) COM_HEADER_SIZE w1 = (Inr (Inr (take 6 ?rx)), w2)"
    and w2: "pend w2 = drop 6 ?rx" "mem w2 = mem w1"
    using com_recv_pending [OF dev, of COM_HEADER_SIZE w1] w1 n by (auto simp: com_constants)
  obtain w3 where t: "com_recv_raw os (Some dv) (n + 1) w2 = (Inr (Inr (drop 6 ?rx)), w3)"
    and w3: "pend w3 = []" "mem w3 = mem w1"
    using com_recv_pending [OF dev, of "n + 1" w2] w2 n by auto
  have head: "take 6 ?rx ! 0 = COM_SOF" "take 6 ?rx ! 4 = hi_byte (of_nat n)" "take 6 ?rx ! 5 = lo_byte (of_nat n)"
    by (simp_all add: frame_def frame_body_def)
  have "parse_received ?rx w3
      = (Inr (Inr \<lparr>cp_cmd = cmd, cp_addr = a, cp_len = of_nat n, cp_payload = body\<rparr>), w3)"
    using n un by (intro parse_received_frame) simp_all
  then have p: "com_status (parse_received (take 6 ?rx @ drop 6 ?rx)) w3
      = (Inr (Inr \<lparr>cp_cmd = cmd, cp_addr = a, cp_len = of_nat n, cp_payload = body\<rparr>), w3)"
    unfolding append_take_drop_id by (rule com_status_Inr)
  have sent: "com_status (com_send_raw os (Some dv) tx) w = (Inr (Inr ()), w1)"
    by (rule com_status_Inr) (rule send)
  have h': "com_status (com_recv_raw os (Some dv) COM_HEADER_SIZE) w1 = (Inr (Inr (take 6 ?rx)), w2)"
    by (rule com_status_Inr) (rule h)
  have t': "com_status (com_recv_raw os (Some dv) (n + 1)) w2 = (Inr (Inr (drop 6 ?rx)), w3)"
    by (rule com_status_Inr) (rule t)
  have max: "unat (of_nat n :: u16) \<le> COM_MAX_PAYLOAD" using un n by (simp add: com_constants)
  show ?thesis
    unfolding read_packet_attempt_def on_ok_Inr [where m = "com_status (com_send_raw os (Some dv) tx)" and s = w, OF sent]
      on_ok_Inr [where m = "com_status (com_recv_raw os (Some dv) COM_HEADER_SIZE)" and s = w1, OF h']
      head join_hi_lo Let_def un
    using max t' p w3 un by (simp add: on_ok_Inr fail_unless_def)
qed

lemma read_packet_attempt_ok:
  assumes dev: "serial_device os (dev_fd dv) pend mem" and idle: "pend w = []"
    and n: "n mod 4 = 0" "0 < n" "n \<le> 252" "unat a + n \<le> 65536"
  shows "\<exists>w'. read_packet_attempt os (Some dv)
      (frame (cmd_code CMD_READ_DATA) a (of_nat n) (replicate n 0)) w
        = (Inr (Inr \<lparr>cp_cmd = cmd_code CMD_READ_DATA, cp_addr = a, cp_len = of_nat n,
                     cp_payload = load (unat a) n (mem w)\<rparr>), w')
    \<and> pend w' = [] \<and> mem w' = mem w"
proof -
  let ?tx = "frame (cmd_code CMD_READ_DATA) a (of_nat n) (replicate n 0)"
  obtain w1 where "os_write os (dev_fd dv) ?tx w = (int (7 + n), w1)"
    and w1: "pend w1 = frame (cmd_code CMD_READ_DATA) a (of_nat n) (load (unat a) n (mem w))" "mem w1 = mem w"
    using serial_device_request [OF dev idle, of "replicate n 0" a] n by auto
  then have "os_write os (dev_fd dv) ?tx w = (int (length ?tx), w1)" by simp
  from read_packet_attempt_answered [OF serial_device_delivers [OF dev] this w1(1)] n w1(2)
  show ?thesis by simp
qed

lemma read_packet_ok:
  assumes dev: "serial_device os (dev_fd dv) pend mem" and idle: "pend w = []"
    and n: "n mod 4 = 0" "0 < n" "n \<le> 252" "unat a + n \<le> 65536"
  shows "\<exists>w'. read_packet os (Some dv) CMD_READ_DATA a (Some (replicate COM_MAX_ALIGNED_PAYLOAD 0)) n w
        = (Inr (Inr \<lparr>cp_cmd = cmd_code CMD_READ_DATA, cp_addr = a, cp_len = of_nat n,
                     cp_payload = load (unat a) n (mem w)\<rparr>), w')
    \<and> pend w' = [] \<and> mem w' = mem w"
proof -
  have un: "unat (of_nat n :: u16) = n" using n by (simp add: unat_of_nat)
  have build: "com_build_packet (cmd_code CMD_READ_DATA) a (Some (replicate COM_MAX_ALIGNED_PAYLOAD 0)) (of_nat n)
      = Inr (frame (cmd_code CMD_READ_DATA) a (of_nat n) (replicate n 0))"
    using n un build_fields_frame [of n "replicate 252 0"]
    by (simp add: com_build_packet_def com_constants min_def)
  obtain w' where att: "read_packet_attempt os (Some dv)
      (frame (cmd_code CMD_READ_DATA) a (of_nat n) (replicate n 0)) w
        = (Inr (Inr \<lparr>cp_cmd = cmd_code CMD_READ_DATA, cp_addr = a, cp_len = of_nat n,
                     cp_payload = load (unat a) n (mem w)\<rparr>), w')"
    and w': "pend w' = []" "mem w' = mem w"
    using read_packet_attempt_ok [OF dev idle n] by blast
  have "retry kRetries (read_packet_attempt os (Some dv)
      (frame (cmd_code CMD_READ_DATA) a (of_nat n) (replicate n 0))) Transport w
        = (Inr (Inr \<lparr>cp_cmd = cmd_code CMD_READ_DATA, cp_addr = a, cp_len = of_nat n,
                     cp_payload = load (unat a) n (mem w)\<rparr>), w')"
    unfolding kRetries_def numeral_3_eq_3 by (rule retry_success) (rule att)
  then show ?thesis using build w' by (simp add: read_packet_def del: retry.simps)
qed

lemma protocol_addr_bytes: "unat a \<le> 65535 \<Longrightarrow> protocol_addr a 1 = Inr (ucast a)"
  by (simp add: protocol_addr_def fits_u16_def)

lemma unat_u16_addr: "unat (a :: u32) \<le> 65535 \<Longrightarrow> unat (ucast a :: u16) = unat a"
  by (simp add: unsigned_ucast_eq take_bit_nat_eq_self)

lemma read_chunks_ok:
  assumes dev: "serial_device os (dev_fd dv) pend mem"
  shows "pend w = [] \<Longrightarrow> todo mod 4 = 0 \<Longrightarrow> unat src + length out + todo \<le> 65536 \<Longrightarrow>
    \<exists>w'. read_chunks os (Some dv) CMD_READ_DATA src 1 out todo w
        = (Inr (Ok, out @ load (unat src + length out) todo (mem w)), w')
      \<and> pend w' = [] \<and> mem w' = mem w"
proof (induction todo arbitrary: out w rule: less_induct)
  case (less todo)
  show ?case
  proof (cases "todo = 0")
    case True
    then show ?thesis using less.prems by (simp add: read_chunks.simps load_def)
  next
    case False
    let ?n = "min todo 252"
    let ?a = "src + of_nat (length out)"
    have max: "max_aligned_payload 1 = 252" by (simp add: max_aligned_payload_def com_constants)
    have n: "?n mod 4 = 0" "0 < ?n" "?n \<le> 252" using less.prems(2) False by (auto simp: min_def)
    have pad: "padded_payload_len ?n = ?n"
      using padded_len_bounds(5) [OF n(1)] by (simp add: padded_payload_len_def padded_len_def)
    have a: "unat ?a = unat src + length out"
      using less.prems(3) False by (subst unat_add_small) (simp_all add: unat_of_nat)
    have a16: "unat ?a \<le> 65535" "unat (ucast ?a :: u16) = unat src + length out"
      using a less.prems(3) False unat_u16_addr [of ?a] by simp_all
    have un: "unat (of_nat ?n :: u16) = ?n" using n(3) by (simp add: unat_of_nat)
    obtain w1 where r: "read_packet os (Some dv) CMD_READ_DATA (ucast ?a)
          (Some (replicate COM_MAX_ALIGNED_PAYLOAD 0)) ?n w
        = (Inr (Inr \<lparr>cp_cmd = cmd_code CMD_READ_DATA, cp_addr = ucast ?a, cp_len = of_nat ?n,
                     cp_payload = load (unat src + length out) ?n (mem w)\<rparr>), w1)"
      and w1: "pend w1 = []" "mem w1 = mem w"
    proof -
      have "?n \<le> todo" by simp
      then have "unat (ucast ?a :: u16) + ?n \<le> 65536" using a16(2) less.prems(3) by linarith
      then show ?thesis
        using read_packet_ok [OF dev less.prems(1) n, of "ucast ?a"] that unfolding a16(2) by blast
    qed
    let ?out = "out @ load (unat src + length out) ?n (mem w)"
    have step: "read_chunks os (Some dv) CMD_READ_DATA src 1 out todo w
        = read_chunks os (Some dv) CMD_READ_DATA src 1 ?out (todo - ?n) w1"
      using False r un pad protocol_addr_bytes [OF a16(1)] n
      by (subst read_chunks.simps) (simp add: max Let_def andThen_def)
    have len: "length ?out = length out + ?n" by simp
    have "(todo - ?n) mod 4 = 0" using less.prems(2) by (auto simp: min_def)
    then have "\<exists>w'. read_chunks os (Some dv) CMD_READ_DATA src 1 ?out (todo - ?n) w1
        = (Inr (Ok, ?out @ load (unat src + length ?out) (todo - ?n) (mem w1)), w')
        \<and> pend w' = [] \<and> mem w' = mem w1"
      using n w1 less.prems(3) len False by (intro less.IH) simp_all
    moreover have "load (unat src + length out) ?n (mem w) @ load (unat src + length ?out) (todo - ?n) (mem w)
        = load (unat src + length out) todo (mem w)"
      using load_append [of "unat src + length out" ?n "todo - ?n" "mem w"] len by (simp add: add.assoc)
    ultimately show ?thesis using step w1(2) by auto
  qed
qed

lemma gpu_comm_link:
  assumes dev: "serial_device os (dev_fd dv) pend mem" and unit: "tc_address_unit_bytes config = 1"
  shows "memory_link (make_gpu_comm_transport os (Some dv) config) mem (\<lambda>w. pend w = []) 65536"
proof (rule memory_linkI)
  show "tr_write_data (make_gpu_comm_transport os (Some dv) config)
      = Some (\<lambda>a src n. status_of (gpu_comm_write_data os (Some dv) a src n))"
    "tr_read_data (make_gpu_comm_transport os (Some dv) config)
      = Some (\<lambda>a dst n. fill_destination dst (read_chunked_command os (Some dv) CMD_READ_DATA a dst n 1))"
    using unit by (simp_all add: make_gpu_comm_transport_def kDefaultAddressUnitBytes_def)
next
  fix a :: u32 and bs :: bytes and d
  assume idle: "pend d = []" and w: "length bs mod 4 = 0" "bs \<noteq> []" "unat a + length bs \<le> 65536"
  have n: "unat (of_nat (length bs) :: u64) = length bs" using w(3) by (simp add: unat_of_nat)
  have a16: "unat a \<le> 65535" using w by (cases bs) auto
  have fits: "fits_u16 a (of_nat (length bs))" using a16 n w(3) by (simp add: fits_u16_def)
  obtain d' where "com_write_data os (Some dv) (ucast a) (Some bs) (length bs) d = (Inr (Inr ()), d')"
    and d': "pend d' = []" "mem d' = store (unat a) bs (mem d)"
    using com_write_data_ok [OF dev idle, of "ucast a" bs] w(1,3) unat_u16_addr [OF a16]
    by (auto simp: padded_len_bounds(5) padding_aligned)
  then have "gpu_comm_write_data os (Some dv) a (Some bs) (of_nat (length bs)) d = (Inr (Inr ()), d')"
    using fits n by (simp add: gpu_comm_write_data_def com_status_Inr)
  then show "\<exists>d'. status_of (gpu_comm_write_data os (Some dv) a (Some bs) (of_nat (length bs))) d = (Inr Ok, d')
      \<and> pend d' = [] \<and> mem d' = store (unat a) bs (mem d)"
    using d' by (simp add: status_of_def andThen_def)
next
  fix a :: u32 and n :: u64 and old :: bytes and d
  assume idle: "pend d = []" and w: "unat n mod 4 = 0" "n \<noteq> 0" "unat a + unat n \<le> 65536"
    "length old = unat n"
  have "0 < unat n" using w(2) by (simp add: unat_gt_0)
  then have a16: "unat a \<le> 65535" using w(3) by simp
  obtain d' where "read_chunks os (Some dv) CMD_READ_DATA a 1 [] (unat n) d
      = (Inr (Ok, load (unat a) (unat n) (mem d)), d')" and d': "pend d' = []" "mem d' = mem d"
    using read_chunks_ok [OF dev idle w(1), of a "[]"] w(3) by auto
  then have "read_chunked_command os (Some dv) CMD_READ_DATA a (Some old) n 1 d
      = (Inr (Ok, load (unat a) (unat n) (mem d)), d')"
    using protocol_addr_bytes [OF a16]
    by (simp add: read_chunked_command_def kDefaultAddressUnitBytes_def aligned_range_def)
  then show "\<exists>d'. fill_destination (Some old) (read_chunked_command os (Some dv) CMD_READ_DATA a (Some old) n 1) d
      = (Inr (Ok, load (unat a) (unat n) (mem d)), d') \<and> pend d' = [] \<and> mem d' = mem d"
    using d' w(4) by (simp add: fill_destination_def andThen_def)
qed

text \<open>
  C8: the serial transport is a memory. Over a device that keeps to the protocol, with byte
  addressing, the data callbacks of \<open>make_gpu_comm_transport\<close> write and read the device memory
  exactly, in transfers of whole words of any length inside the 64 KiB the protocol can address,
  whatever pieces the operating system delivers the answers in.
\<close>

theorem gpu_comm_is_memory_link:
  assumes "serial_device os (dev_fd dv) pend mem" and "tc_address_unit_bytes config = 1"
  shows "memory_link (make_gpu_comm_transport os (Some dv) config) mem (\<lambda>w. pend w = []) 65536"
  by (rule gpu_comm_link [OF assms])

section \<open>A simulated device\<close>

text \<open>
  A device that parses every packet it gets, keeps a memory, and queues its answers; its state is the
  queue and the memory.
\<close>

definition sim_write :: "bytes \<Rightarrow> bytes \<times> (nat \<Rightarrow> u8) \<Rightarrow> bytes \<times> (nat \<Rightarrow> u8)" where
  "sim_write buf s =
     (case com_parse_packet buf of
        Some (Inr p) \<Rightarrow>
          if cp_cmd p = cmd_code CMD_WRITE_DATA
          then (fst s @ frame (cmd_code CMD_ACK) (cp_addr p) 0 [],
                store (unat (cp_addr p)) (cp_payload p) (snd s))
          else if cp_cmd p = cmd_code CMD_READ_DATA
          then (fst s @ frame (cmd_code CMD_READ_DATA) (cp_addr p) (cp_len p)
                  (load (unat (cp_addr p)) (unat (cp_len p)) (snd s)), snd s)
          else s
      | _ \<Rightarrow> s)"

definition sim_os :: "(bytes \<times> (nat \<Rightarrow> u8)) os" where
  "sim_os =
     \<lparr>os_write = (\<lambda>fd buf s. (int (length buf), sim_write buf s)),
      os_read = (\<lambda>fd n s. (Inr (take n (fst s)), (drop n (fst s), snd s))),
      os_now = (\<lambda>s. (0, s)), os_sleep_ms = (\<lambda>n s. s)\<rparr>"

lemma sim_serial_device: "serial_device sim_os fd fst snd"
proof -
  have parse: "com_parse_packet (frame cmd a (of_nat (length p)) p)
      = Some (Inr \<lparr>cp_cmd = cmd, cp_addr = a, cp_len = of_nat (length p), cp_payload = p\<rparr>)"
    "unat (of_nat (length p) :: u16) = length p" if "length p \<le> 252" for cmd a and p :: bytes
    using parse_frame [of p "of_nat (length p)" cmd a "[]"] that by (simp_all add: unat_of_nat)
  have read: "\<exists>k w'. 0 < k \<and> k \<le> n \<and> k \<le> length (fst w)
      \<and> os_read sim_os fd n w = (Inr (take k (fst w)), w') \<and> fst w' = drop k (fst w) \<and> snd w' = snd w"
    if "0 < n" "fst w \<noteq> []" for n and w :: "bytes \<times> (nat \<Rightarrow> u8)"
    using that by (intro exI [of _ "min n (length (fst w))"]) (auto simp: sim_os_def min_def)
  show ?thesis
    unfolding serial_device_def delivers_def
    using read parse by (auto simp: sim_os_def sim_write_def)
qed

lemma gpu_comm_is_memory_link_witness:
  "memory_link (make_gpu_comm_transport sim_os (Some \<lparr>dev_fd = 3, dev_timeout_ms = 100\<rparr>)
      default_transport_config) snd (\<lambda>w. fst w = []) 65536"
  by (rule gpu_comm_is_memory_link [where mem = snd and pend = fst, OF sim_serial_device])
    (simp add: default_transport_config_def)

section \<open>Tensors over the serial link\<close>

text \<open>
  C7: end to end. Over a context whose transport is the serial one, on a device that keeps to
  the protocol, a tensor of whole-word elements built from values that fit reads back exactly those
  values: the allocator, the range checks, the chunking, the packets and the retries together.
\<close>

theorem tensor_over_serial_roundtrip:
  assumes dev: "serial_device os (dev_fd dv) pend mem"
    and tr: "ctx_transport c = make_gpu_comm_transport os (Some dv) config"
      "tc_address_unit_bytes config = 1"
    and ok: "mem_ok c" "mem_hi c \<le> 65536" and al: "ctx_default_alignment c = 4" and idle: "pend d = []"
    and vals: "values \<noteq> []" "\<forall>v \<in> set values. length v = unat esz"
    and esz: "0 < unat esz" "unat esz mod 4 = 0" "length values * unat esz < 2 ^ 32"
    and room: "\<exists>b \<in> set (ctx_blocks c). has_room 4 (length values * unat esz) b"
  shows "\<exists>t s. tensor_of_values esz values (c, d) = (Inr t, s)
           \<and> fst (tensor_read_all esz t s) = Inr values
           \<and> (\<forall>i < length values. fst (tensor_read esz t (of_nat i) s) = Inr (values ! i))"
proof -
  have "memory_link (ctx_transport c) mem (\<lambda>w. pend w = []) 65536"
    unfolding tr(1) by (rule gpu_comm_link [OF dev tr(2)])
  then show ?thesis
    by (rule tensor_values_roundtrip [OF ok(1) al _ ok(2) _ vals esz room]) (rule idle)
qed

definition serial_context :: "(bytes \<times> (nat \<Rightarrow> u8)) gpu_context" where
  "serial_context =
     \<lparr>ctx_memory_base = 0, ctx_memory_size = 64, ctx_program_memory_size = 8,
      ctx_program_cache_clock = 0, ctx_compiler_spill_base = 56, ctx_compiler_spill_size = 8,
      ctx_default_alignment = 4,
      ctx_transport = make_gpu_comm_transport sim_os (Some \<lparr>dev_fd = 3, dev_timeout_ms = 100\<rparr>)
        default_transport_config,
      ctx_blocks = [\<lparr>boffset = 0, bsize = 56, bfree = True\<rparr>],
      ctx_program_blocks = [\<lparr>boffset = 0, bsize = 8, bfree = True\<rparr>],
      ctx_program_cache = [], ctx_kernels = [], ctx_logging_enabled = False,
      ctx_log_path = [], ctx_log = []\<rparr>"

lemma serial_context_ok: "mem_ok serial_context" "mem_hi serial_context \<le> 65536"
  "ctx_default_alignment serial_context = 4"
  "ctx_blocks serial_context = [\<lparr>boffset = 0, bsize = 56, bfree = True\<rparr>]"
  "ctx_transport serial_context
     = make_gpu_comm_transport sim_os (Some \<lparr>dev_fd = 3, dev_timeout_ms = 100\<rparr>) default_transport_config"
  by (simp_all add: mem_ok_def serial_context_def mem_lo_def mem_hi_def memory_size_def)

lemma tensor_over_serial_roundtrip_witness:
  "\<exists>t s. tensor_of_values 4 [[1, 2, 3, 4], [5, 6, 7, 8]] (serial_context, ([], \<lambda>_. 0)) = (Inr t, s)
     \<and> fst (tensor_read_all 4 t s) = Inr [[1, 2, 3, 4], [5, 6, 7, 8]]"
proof -
  have "\<exists>b \<in> set (ctx_blocks serial_context).
      has_room 4 (length [[1, 2, 3, 4], [5, 6, 7, 8 :: u8]] * unat (4 :: u64)) b"
    by (simp add: serial_context_ok(4) has_room_def round_up_def)
  from tensor_over_serial_roundtrip [where pend = fst and mem = snd, OF sim_serial_device serial_context_ok(5) _
      serial_context_ok(1-3) _ _ _ _ _ _ this, of "([], \<lambda>_. 0)"]
  show ?thesis by (simp add: default_transport_config_def) blast
qed

section \<open>Writes that are not whole words\<close>

text \<open>
  A write that does not end on a word boundary clears the bytes up to the next one. Over
  a device that keeps to the protocol, writing one element of a one-byte tensor stores the byte and
  three zeros behind it, which overwrites the next elements.
\<close>

theorem byte_write_clears_neighbours:
  assumes dev: "serial_device os (dev_fd dv) pend mem"
    and tr: "ctx_transport c = make_gpu_comm_transport os (Some dv) config"
      "tc_address_unit_bytes config = 1"
    and ok: "mem_ok c" and idle: "pend d = []"
    and t: "(unat (tensor_addr t), unat (tn_count t)) \<in> live (ctx_blocks c)"
    and i: "i < tn_count t" "unat (tensor_addr t) + unat i + 4 \<le> 65536"
  shows "\<exists>c' d'. tensor_write 1 t i [v] (c, d) = (Inr (), (c', d'))
    \<and> mem d' = store (unat (tensor_addr t) + unat i) [v, 0, 0, 0] (mem d)"
proof -
  let ?a = "element_addr 1 t i"
  have a: "unat ?a = unat (tensor_addr t) + unat i"
  proof -
    have "unat (widen (tensor_addr t) + i) = unat (tensor_addr t) + unat i"
      using i(2) by (subst unat_add_small) simp_all
    then show ?thesis using i(2) by (simp add: element_addr_def)
  qed
  have a16: "unat ?a \<le> 65535" using a i(2) by simp
  have "range_is_allocated ?a 1 c"
    using t i(1) a by (subst range_is_allocated_iff [OF ok])
      (auto simp: word_less_nat_alt intro!: bexI [OF _ t])
  moreover obtain d' where "com_write_data os (Some dv) (ucast ?a) (Some [v]) (length [v]) d = (Inr (Inr ()), d')"
    and d': "mem d' = store (unat ?a) (padding [v]) (mem d)"
    using com_write_data_ok [OF dev idle, of "ucast ?a" "[v]"] i(2) a unat_u16_addr [OF a16]
    by (auto simp: padded_len_def com_constants)
  then have "status_of (gpu_comm_write_data os (Some dv) ?a (Some [v]) 1) d = (Inr Ok, d')"
    using a16 by (simp add: gpu_comm_write_data_def fits_u16_def com_status_Inr status_of_def andThen_def)
  moreover have "padding [v] = [v, 0, 0, 0]"
    by (simp add: padding_def padded_len_def com_constants numeral_3_eq_3)
  ultimately show ?thesis
    using tr i(1) a d'
    by (simp add: tensor_write_def check_index_def andThen_def copy_to_device_def not_le
        make_gpu_comm_transport_def kDefaultAddressUnitBytes_def)
qed

lemma byte_write_clears_neighbours_witness:
  "\<exists>c' d'. tensor_write 1 \<lparr>tn_buffer = \<lparr>db_context = True, db_addr = 0, db_size = 8\<rparr>, tn_count = 8\<rparr>
       0 [9] (serial_context\<lparr>ctx_blocks := ctx_blocks ram_context\<rparr>, ([], \<lambda>_. 7)) = (Inr (), (c', d'))
     \<and> snd d' 1 = 0"
proof -
  let ?c = "serial_context\<lparr>ctx_blocks := ctx_blocks ram_context\<rparr>"
  let ?t = "\<lparr>tn_buffer = \<lparr>db_context = True, db_addr = 0, db_size = 8\<rparr>, tn_count = 8\<rparr>"
  have ok: "mem_ok ?c"
    by (simp add: mem_ok_def serial_context_def ram_context_ok(5) mem_lo_def mem_hi_def memory_size_def)
  have tr: "ctx_transport ?c
      = make_gpu_comm_transport sim_os (Some \<lparr>dev_fd = 3, dev_timeout_ms = 100\<rparr>) default_transport_config"
    by (simp add: serial_context_ok(5))
  have t: "(unat (tensor_addr ?t), unat (tn_count ?t)) \<in> live (ctx_blocks ?c)"
    by (simp add: ram_context_ok(5) tensor_addr_def buffer_addr_def)
  have res: "\<exists>c' d'. tensor_write 1 ?t 0 [9] (?c, ([], \<lambda>_. 7)) = (Inr (), (c', d'))
      \<and> snd d' = store (unat (tensor_addr ?t) + unat (0 :: u64)) [9, 0, 0, 0] (snd ([] :: bytes, \<lambda>_. 7))"
    using byte_write_clears_neighbours [where pend = fst and mem = snd and d = "([], \<lambda>_. 7)" and v = 9 and i = 0,
        OF sim_serial_device tr _ ok _ t]
    by (simp add: default_transport_config_def tensor_addr_def buffer_addr_def)
  then obtain c' d' where "tensor_write 1 ?t 0 [9] (?c, ([], \<lambda>_. 7)) = (Inr (), (c', d'))"
    and "snd d' = store (unat (tensor_addr ?t) + unat (0 :: u64)) [9, 0, 0, 0] (snd ([] :: bytes, \<lambda>_. 7))"
    by blast
  moreover have "store (unat (tensor_addr ?t) + unat (0 :: u64)) [9, 0, 0, 0] (snd ([] :: bytes, \<lambda>_. 7 :: u8)) 1 = 0"
    by (simp add: store_def tensor_addr_def buffer_addr_def)
  ultimately show ?thesis by auto
qed

end
