(* ===== verification/WaitStatus.thy ===== *)
theory WaitStatus
  imports SerialDevice
begin

text \<open>
  Waiting for a launch (\<open>gpu_comm_wait\<close> in \<open>gpu_comm_transport.cpp\<close>): what each outcome says of the
  device, that a wait with a time limit ends, and that one without a limit does not when the device
  stays busy. \<open>polls\<close> is the loop as a step relation between the states in which it asks for
  the status word; \<open>status_device\<close> is what the code relies on of a device's answer to it.
\<close>

section \<open>The loop as a step relation\<close>

text \<open>A poll that neither ends the loop nor runs out of time, and the sleep behind it.\<close>

inductive poll_step :: "'w os \<Rightarrow> com_dev option \<Rightarrow> transport_config \<Rightarrow> u32 \<Rightarrow> int \<Rightarrow> 'w \<Rightarrow> 'w \<Rightarrow> bool"
  for os dev config timeout_ms start where
  unlimited: "\<lbrakk>gpu_comm_read_status os dev w = (Inr (Inr word), w1); status_fault config word = None;
     word AND tc_status_done_mask config = 0; timeout_ms = 0\<rbrakk>
   \<Longrightarrow> poll_step os dev config timeout_ms start w (os_sleep_ms os 1 w1)"
| limited: "\<lbrakk>gpu_comm_read_status os dev w = (Inr (Inr word), w1); status_fault config word = None;
     word AND tc_status_done_mask config = 0; timeout_ms \<noteq> 0; os_now os w1 = (now, w2);
     now - start < int (unat timeout_ms) * 1000000\<rbrakk>
   \<Longrightarrow> poll_step os dev config timeout_ms start w (os_sleep_ms os 1 w2)"

inductive polls :: "'w os \<Rightarrow> com_dev option \<Rightarrow> transport_config \<Rightarrow> u32 \<Rightarrow> int \<Rightarrow> 'w \<Rightarrow> 'w \<Rightarrow> bool"
  for os dev config timeout_ms start where
  here: "polls os dev config timeout_ms start w w"
| further: "\<lbrakk>poll_step os dev config timeout_ms start w v; polls os dev config timeout_ms start v u\<rbrakk>
   \<Longrightarrow> polls os dev config timeout_ms start w u"

text \<open>How the poll made in a state ends the loop.\<close>

definition poll_ends ::
    "'w os \<Rightarrow> com_dev option \<Rightarrow> transport_config \<Rightarrow> u32 \<Rightarrow> int \<Rightarrow> 'w \<Rightarrow> (exn + status) \<times> 'w \<Rightarrow> bool" where
  "poll_ends os dev config timeout_ms start w res \<longleftrightarrow>
     (case gpu_comm_read_status os dev w of
        (Inl e, w1) \<Rightarrow> res = (Inl e, w1)
      | (Inr (Inl status), w1) \<Rightarrow> res = (Inr status, w1)
      | (Inr (Inr word), w1) \<Rightarrow>
          (case status_fault config word of
             Some e \<Rightarrow> res = (Inl e, w1)
           | None \<Rightarrow>
               if word AND tc_status_done_mask config \<noteq> 0 then res = (Inr Ok, w1)
               else timeout_ms \<noteq> 0
                 \<and> int (unat timeout_ms) * 1000000 \<le> fst (os_now os w1) - start
                 \<and> res = (Inr Timeout, snd (os_now os w1))))"

lemma wait_loop_unfold:
  "wait_loop os dev config timeout_ms start w = Some res \<longleftrightarrow>
     poll_ends os dev config timeout_ms start w res
     \<or> (\<exists>v. poll_step os dev config timeout_ms start w v
          \<and> wait_loop os dev config timeout_ms start v = Some res)"
  by (subst wait_loop.simps)
    (auto simp: poll_ends_def poll_step.simps not_le Let_def split: prod.splits sum.splits option.splits)

lemma wait_loop_polls:
  assumes "wait_loop os dev config timeout_ms start w = Some res"
  shows "\<exists>v. polls os dev config timeout_ms start w v \<and> poll_ends os dev config timeout_ms start v res"
proof (rule wait_loop.raw_induct [where P = "\<lambda>os dev config timeout_ms start w res.
    \<exists>v. polls os dev config timeout_ms start w v \<and> poll_ends os dev config timeout_ms start v res", OF _ assms])
  fix loop os dev config timeout_ms start w and res :: "(exn + status) \<times> 'a"
  assume IH: "\<And>os dev config timeout_ms start w res. loop os dev config timeout_ms start w = Some res \<Longrightarrow>
      \<exists>v. polls os dev config timeout_ms start w v \<and> poll_ends os dev config timeout_ms start v res"
    and "(case gpu_comm_read_status os dev w of
        (Inl e, w1) \<Rightarrow> Some (Inl e, w1)
      | (Inr (Inl status), w1) \<Rightarrow> Some (Inr status, w1)
      | (Inr (Inr status_word), w1) \<Rightarrow>
          (case status_fault config status_word of
             Some e \<Rightarrow> Some (Inl e, w1)
           | None \<Rightarrow>
               if status_word AND tc_status_done_mask config \<noteq> 0 then Some (Inr Ok, w1)
               else if timeout_ms \<noteq> 0 then
                 (let (now, w2) = os_now os w1
                  in if now - start \<ge> int (unat timeout_ms) * 1000000 then Some (Inr Timeout, w2)
                     else loop os dev config timeout_ms start (os_sleep_ms os 1 w2))
               else loop os dev config timeout_ms start (os_sleep_ms os 1 w1))) = Some res"
  then have "poll_ends os dev config timeout_ms start w res
     \<or> (\<exists>v. poll_step os dev config timeout_ms start w v \<and> loop os dev config timeout_ms start v = Some res)"
    by (auto simp: poll_ends_def poll_step.simps not_le Let_def
        split: prod.splits sum.splits option.splits if_splits)
  then show "\<exists>v. polls os dev config timeout_ms start w v \<and> poll_ends os dev config timeout_ms start v res"
    using IH by (blast intro: polls.intros)
qed

lemma polls_wait_loop:
  assumes "polls os dev config timeout_ms start w v" and "poll_ends os dev config timeout_ms start v res"
  shows "wait_loop os dev config timeout_ms start w = Some res"
  using assms
proof (induction rule: polls.induct)
  case (here w)
  then show ?case by (subst wait_loop_unfold) simp
next
  case (further w v u)
  then show ?case using wait_loop_unfold [of os dev config timeout_ms start w res] by auto
qed

text \<open>
  The wait loop is its step relation: it returns a result exactly when polling reaches a
  state in which a poll ends with that result, so not returning is never reaching one.
\<close>

theorem wait_loop_iff:
  "wait_loop os dev config timeout_ms start w = Some res \<longleftrightarrow>
     (\<exists>v. polls os dev config timeout_ms start w v \<and> poll_ends os dev config timeout_ms start v res)"
  by (auto intro: polls_wait_loop dest: wait_loop_polls)

section \<open>The clock\<close>

text \<open>
  What the loop needs of the steady clock: it reads the time, no system call turns it back, and a sleep
  takes at least as long as it says. Times are in nanoseconds.
\<close>

definition clock_advances :: "'w os \<Rightarrow> ('w \<Rightarrow> int) \<Rightarrow> bool" where
  "clock_advances os time \<longleftrightarrow>
     (\<forall>w. fst (os_now os w) = time w \<and> time w \<le> time (snd (os_now os w)))
     \<and> (\<forall>w n. time w + int n * 1000000 \<le> time (os_sleep_ms os n w))
     \<and> (\<forall>fd buf w. time w \<le> time (snd (os_write os fd buf w)))
     \<and> (\<forall>fd n w. time w \<le> time (snd (os_read os fd n w)))"

text \<open>A step of the link that does not turn the clock back.\<close>

definition forward :: "('w \<Rightarrow> int) \<Rightarrow> ('w, 'e, 'a) action \<Rightarrow> bool" where
  "forward time m \<longleftrightarrow> (\<forall>w. time w \<le> time (snd (m w)))"

lemma forward_ret [simp]: "forward time (ret x)"
  by (simp add: forward_def)

lemma forward_throw [simp]: "forward time (throw x)"
  by (simp add: forward_def)

lemma forward_andThen:
  "\<lbrakk>forward time m; \<And>x. forward time (f x)\<rbrakk> \<Longrightarrow> forward time (andThen m f)"
  unfolding forward_def by (auto intro!: andThen_preserves [where P = "\<lambda>s. time w \<le> time s" for w]
      elim: order_trans)

lemma forward_on_ok:
  "\<lbrakk>forward time m; \<And>x. forward time (f x)\<rbrakk> \<Longrightarrow> forward time (on_ok m f)"
  unfolding on_ok_def by (rule forward_andThen) (auto split: sum.split)

lemma forward_com_status: "forward time m \<Longrightarrow> forward time (com_status m)"
  unfolding com_status_def by (rule forward_andThen) auto

lemma forward_retry: "forward time m \<Longrightarrow> forward time (retry n m e)"
  by (induction n arbitrary: e) (auto intro!: forward_andThen split: sum.split)

lemma forward_parse: "forward time (parse_received buf)"
  by (simp add: parse_received_def split: option.split)

lemma forward_fail_unless: "forward time (fail_unless ok e)"
  by (simp add: fail_unless_def)

lemma forward_send: "clock_advances os time \<Longrightarrow> forward time (com_send_raw os dev buf)"
  by (auto simp: forward_def com_send_raw_def clock_advances_def Let_def split: option.split prod.split)
    (metis snd_conv)

lemma forward_recv_loop:
  assumes "clock_advances os time"
  shows "time w \<le> time (snd (recv_loop os fd n acc w))"
  using assms
proof (induction os fd n acc w rule: recv_loop.induct)
  case (1 os fd n acc w)
  have rd: "time w \<le> time (snd (os_read os fd k w))" for k
    using 1(2) unfolding clock_advances_def by blast
  show ?case
  proof (cases "length acc < n")
    case False
    then show ?thesis by (simp add: recv_loop.simps)
  next
    case True
    obtain r w1 where r: "os_read os fd (n - length acc) w = (r, w1)" by force
    with rd [of "n - length acc"] have w1: "time w \<le> time w1" by simp
    show ?thesis
    proof (cases r)
      case (Inl u)
      then show ?thesis using True r w1 by (simp add: recv_loop.simps)
    next
      case (Inr got)
      then show ?thesis
        using True r w1 1(1) [OF True r [symmetric] _ _ 1(2)]
        by (subst recv_loop.simps) (auto intro: order_trans)
    qed
  qed
qed

lemma forward_recv: "clock_advances os time \<Longrightarrow> forward time (com_recv_raw os dev n)"
  by (auto simp: forward_def com_recv_raw_def forward_recv_loop split: option.split)

lemmas forward_intros = forward_andThen forward_on_ok forward_com_status forward_retry forward_parse
  forward_fail_unless forward_send forward_recv

lemma forward_read_status:
  assumes "clock_advances os time"
  shows "forward time (gpu_comm_read_status os dev)"
  using assms
  unfolding gpu_comm_read_status_def read_packet_def read_packet_attempt_def
  by (auto intro!: forward_intros simp: Let_def split: sum.split)

section \<open>A wait with a time limit ends\<close>

text \<open>
  Every sleep takes a millisecond off the limit, so at most \<open>timeout_ms\<close> polls find the device busy.
\<close>

lemma wait_ends:
  assumes clock: "clock_advances os time" and t: "timeout_ms \<noteq> 0"
  shows "\<exists>res. wait_loop os dev config timeout_ms start w = Some res"
proof (induction "nat (start + int (unat timeout_ms) * 1000000 - time w)" arbitrary: w rule: less_induct)
  case less
  show ?case
  proof (cases "\<exists>res. poll_ends os dev config timeout_ms start w res")
    case True
    then show ?thesis using wait_loop_unfold [of os dev config timeout_ms start w] by blast
  next
    case False
    then have open_poll: "\<not> poll_ends os dev config timeout_ms start w res" for res by blast
    obtain r w1 where r: "gpu_comm_read_status os dev w = (r, w1)" by force
    have "r \<noteq> Inl e" "r \<noteq> Inr (Inl status)" for e status
      using open_poll [of "(Inl e, w1)"] open_poll [of "(Inr status, w1)"] r by (auto simp: poll_ends_def)
    then obtain word where "r = Inr (Inr word)" by (metis sumE)
    then have read: "gpu_comm_read_status os dev w = (Inr (Inr word), w1)" using r by simp
    obtain now w2 where now: "os_now os w1 = (now, w2)" by force
    have fine: "status_fault config word = None"
      using open_poll [of "(Inl (the (status_fault config word)), w1)"] read
      by (cases "status_fault config word") (auto simp: poll_ends_def)
    then have busy: "word AND tc_status_done_mask config = 0"
      using open_poll [of "(Inr Ok, w1)"] read by (simp add: poll_ends_def split: if_splits)
    have early: "now - start < int (unat timeout_ms) * 1000000"
      using open_poll [of "(Inr Timeout, w2)"] read fine busy now t by (simp add: poll_ends_def)
    let ?v = "os_sleep_ms os 1 w2"
    have "time w \<le> time w1"
      using forward_read_status [OF clock, of dev] read by (auto simp: forward_def dest: spec [of _ w])
    moreover have "now = time w1" "time w1 \<le> time w2" "time w2 + 1000000 \<le> time ?v"
      using clock now unfolding clock_advances_def
      by (metis fst_conv, metis snd_conv, metis mult_1 of_nat_1)
    ultimately have "nat (start + int (unat timeout_ms) * 1000000 - time ?v)
        < nat (start + int (unat timeout_ms) * 1000000 - time w)"
      using early by linarith
    from less(1) [OF this] obtain res where "wait_loop os dev config timeout_ms start ?v = Some res" by blast
    moreover have "poll_step os dev config timeout_ms start w ?v"
      by (rule poll_step.limited [OF read fine busy t now early])
    ultimately show ?thesis using wait_loop_unfold [of os dev config timeout_ms start w res] by blast
  qed
qed

text \<open>
  C32: a wait with a time limit returns. On a clock that advances, whatever the device does, the
  poll loop of \<open>gpu_comm_wait\<close> ends with a result when \<open>timeout_ms\<close> is not zero.
\<close>

theorem timed_wait_returns:
  assumes "clock_advances os time" and "timeout_ms \<noteq> 0"
  shows "\<exists>res. wait_loop os dev config timeout_ms (fst (os_now os w)) (snd (os_now os w)) = Some res
           \<and> gpu_comm_wait os dev config timeout_ms w = res"
  using wait_ends [OF assms] by (auto simp: gpu_comm_wait_def split_beta split: option.split)

section \<open>Success means done\<close>

text \<open>A step of the link that never reports the error code \<open>ok\<close>, the code for success.\<close>

definition avoids :: "'r \<Rightarrow> ('w, exn, 'r + 'a) action \<Rightarrow> bool" where
  "avoids ok m \<longleftrightarrow> (\<forall>w. fst (m w) \<noteq> Inr (Inl ok))"

lemma avoids_on_ok: "\<lbrakk>avoids ok m; \<And>x. avoids ok (f x)\<rbrakk> \<Longrightarrow> avoids ok (on_ok m f)"
  by (auto simp: avoids_def on_ok_def andThen_def split: prod.splits sum.splits) (metis fst_conv)+

lemma avoids_com_status: "avoids COM_OK m \<Longrightarrow> avoids Ok (com_status m)"
  by (auto simp: avoids_def com_status_def andThen_def status_from_com_def
      split: prod.splits sum.splits com_err.splits) (metis fst_conv)+

lemma avoids_retry: "\<lbrakk>avoids ok m; e \<noteq> ok\<rbrakk> \<Longrightarrow> avoids ok (retry n m e)"
proof (induction n arbitrary: e)
  case (Suc n)
  have "fst (retry (Suc n) m e w) \<noteq> Inr (Inl ok)" for w
  proof -
    obtain r w1 where m: "m w = (r, w1)" by force
    with Suc.prems(1) have "r \<noteq> Inr (Inl ok)" unfolding avoids_def by (metis fst_conv)
    then show ?thesis
      using m Suc.IH [OF Suc.prems(1)]
      by (cases r) (auto simp: andThen_def avoids_def split: sum.splits)
  qed
  then show ?case by (simp add: avoids_def)
qed (simp add: avoids_def)

lemma avoids_send: "avoids COM_OK (com_send_raw os dev buf)"
  by (auto simp: avoids_def com_send_raw_def Let_def split: option.split prod.split)

lemma avoids_recv_loop: "fst (recv_loop os fd n acc w) \<noteq> Inr (Inl COM_OK)"
  by (induction os fd n acc w rule: recv_loop.induct) (subst recv_loop.simps, auto split: prod.split sum.split)

lemma avoids_recv: "avoids COM_OK (com_recv_raw os dev n)"
  by (auto simp: avoids_def com_recv_raw_def avoids_recv_loop split: option.split)

lemma avoids_fail_unless: "e \<noteq> ok \<Longrightarrow> avoids ok (fail_unless p e)"
  by (simp add: avoids_def fail_unless_def)

lemma avoids_parse: "avoids COM_OK (parse_received buf)"
  by (auto simp: avoids_def parse_received_def com_parse_packet_def Let_def split: option.split if_splits)

lemma avoids_ret: "x \<noteq> Inl ok \<Longrightarrow> avoids ok (ret x)"
  by (simp add: avoids_def)

lemma build_packet_not_ok: "com_build_packet cmd addr payload len \<noteq> Inl COM_OK"
  by (auto simp: com_build_packet_def com_build_packet_fields_def com_build_request_packet_def Let_def
      split: option.splits if_splits)

lemmas avoids_intros = avoids_on_ok avoids_com_status avoids_retry avoids_send avoids_recv
  avoids_fail_unless avoids_parse avoids_ret

lemma read_status_avoids_ok: "avoids Ok (gpu_comm_read_status os dev)"
  unfolding gpu_comm_read_status_def read_packet_def read_packet_attempt_def
  using build_packet_not_ok [of "cmd_code CMD_READ_STATUS" 0 "Some [0, 0, 0, 0]" "of_nat 4"]
  by (auto intro!: avoids_intros simp: Let_def status_from_com_def split: sum.split com_err.split)

text \<open>
  C31: \<open>gpu_comm_wait\<close> reports success only for a launch that is done. When it returns \<open>Ok\<close>, its
  last poll, made in a state the loop reached, read a status word with the done bit set and no error
  bit, whatever the device and the system calls did.
\<close>

theorem wait_ok_means_done:
  assumes "gpu_comm_wait os dev config timeout_ms w = (Inr Ok, w')"
  shows "\<exists>v word. polls os dev config timeout_ms (fst (os_now os w)) (snd (os_now os w)) v
    \<and> gpu_comm_read_status os dev v = (Inr (Inr word), w')
    \<and> word AND tc_status_done_mask config \<noteq> 0 \<and> word AND tc_status_error_mask config = 0"
proof -
  from assms have "wait_loop os dev config timeout_ms (fst (os_now os w)) (snd (os_now os w)) = Some (Inr Ok, w')"
    by (auto simp: gpu_comm_wait_def split_beta split: option.splits)
  then obtain v where v: "polls os dev config timeout_ms (fst (os_now os w)) (snd (os_now os w)) v"
    and ends: "poll_ends os dev config timeout_ms (fst (os_now os w)) v (Inr Ok, w')"
    by (auto dest!: wait_loop_polls)
  obtain r v1 where r: "gpu_comm_read_status os dev v = (r, v1)" by force
  with read_status_avoids_ok [of os dev] have "r \<noteq> Inr (Inl Ok)" unfolding avoids_def by (metis fst_conv)
  then obtain word where "r = Inr (Inr word)"
    using ends r by (auto simp: poll_ends_def split: sum.splits)
  moreover from this have "word AND tc_status_error_mask config = 0"
    using ends r by (auto simp: poll_ends_def status_fault_def split: if_splits)
  ultimately show ?thesis
    using v ends r by (auto simp: poll_ends_def status_fault_def split: if_splits)
qed

section \<open>A device that answers\<close>

definition status_device :: "'w os \<Rightarrow> int \<Rightarrow> ('w \<Rightarrow> bytes) \<Rightarrow> ('w \<Rightarrow> u32) \<Rightarrow> bool" where
  "status_device os fd pend word \<longleftrightarrow>
     delivers os fd pend word
     \<and> (\<forall>w. pend w = [] \<longrightarrow>
         (\<exists>w'. os_write os fd (frame (cmd_code CMD_READ_STATUS) 0 4 [0, 0, 0, 0]) w = (11, w')
            \<and> pend w' = frame (cmd_code CMD_READ_STATUS) 0 4 (put_u32_rtl_rx (word w))
            \<and> word w' = word w))"

lemma get_put_u32 [simp]: "get_u32_le (put_u32_rtl_rx v) = v"
proof -
  have "get_u32_le (put_u32_rtl_rx v) = ucast (ucast v :: u8) OR push_bit 8 (ucast (ucast (drop_bit 8 v) :: u8))
     OR push_bit 16 (ucast (ucast (drop_bit 16 v) :: u8)) OR push_bit 24 (ucast (ucast (drop_bit 24 v) :: u8))"
    by (simp only: get_u32_le_def put_u32_rtl_rx_def ucast_byte_mask nth_Cons_0 nth_Cons_numeral
        One_nat_def nth_Cons_Suc) simp
  then show ?thesis by (simp only: join_four_bytes)
qed

lemma length_put_u32 [simp]: "length (put_u32_rtl_rx v) = 4"
  by (simp add: put_u32_rtl_rx_def)

text \<open>Reading the status word off an answer that is pending after the request.\<close>

lemma read_status_view:
  assumes dev: "delivers os (dev_fd dv) pend view"
    and wr: "os_write os (dev_fd dv) (frame (cmd_code CMD_READ_STATUS) 0 4 [0, 0, 0, 0]) w = (11, w1)"
    and w1: "pend w1 = frame (cmd_code CMD_READ_STATUS) 0 4 (put_u32_rtl_rx word)"
  shows "\<exists>w'. gpu_comm_read_status os (Some dv) w = (Inr (Inr word), w') \<and> pend w' = [] \<and> view w' = view w1"
proof -
  let ?tx = "frame (cmd_code CMD_READ_STATUS) 0 4 [0, 0, 0, 0]"
  have build: "com_build_packet (cmd_code CMD_READ_STATUS) 0 (Some [0, 0, 0, 0]) 4 = Inr ?tx"
    using build_fields_frame [of 4 "[0, 0, 0, 0]"] by (simp add: com_build_packet_def com_constants)
  have "os_write os (dev_fd dv) ?tx w = (int (length ?tx), w1)"
    "pend w1 = frame (cmd_code CMD_READ_STATUS) 0 (of_nat 4) (put_u32_rtl_rx word)" using wr w1 by simp_all
  from read_packet_attempt_answered [OF dev this] obtain w' where
    "read_packet_attempt os (Some dv) ?tx w = (Inr (Inr \<lparr>cp_cmd = cmd_code CMD_READ_STATUS, cp_addr = 0,
        cp_len = of_nat 4, cp_payload = put_u32_rtl_rx word\<rparr>), w')" and w': "pend w' = []" "view w' = view w1"
    by auto
  then have "retry kRetries (read_packet_attempt os (Some dv) ?tx) Transport w
      = (Inr (Inr \<lparr>cp_cmd = cmd_code CMD_READ_STATUS, cp_addr = 0,
        cp_len = of_nat 4, cp_payload = put_u32_rtl_rx word\<rparr>), w')"
    unfolding kRetries_def numeral_3_eq_3 by (intro retry_success)
  then show ?thesis
    using build w' by (simp add: gpu_comm_read_status_def read_packet_def on_ok_Inr del: retry.simps)
qed

lemma read_status_answered:
  assumes dev: "status_device os (dev_fd dv) pend word" and idle: "pend w = []"
  shows "\<exists>w'. gpu_comm_read_status os (Some dv) w = (Inr (Inr (word w)), w') \<and> pend w' = [] \<and> word w' = word w"
proof -
  have "delivers os (dev_fd dv) pend word" using dev by (simp add: status_device_def)
  moreover obtain w1 where "os_write os (dev_fd dv) (frame (cmd_code CMD_READ_STATUS) 0 4 [0, 0, 0, 0]) w = (11, w1)"
    "pend w1 = frame (cmd_code CMD_READ_STATUS) 0 4 (put_u32_rtl_rx (word w))" "word w1 = word w"
    using dev idle unfolding status_device_def by blast
  ultimately show ?thesis using read_status_view by fastforce
qed

text \<open>
  C30: what a wait reports. Whenever polling reaches a state, after any number of polls that found the device busy,
  in which the status word has an error bit under the error mask or the done bit, \<open>gpu_comm_wait\<close> ends there. An error
  bit wins over the done bit and is thrown, with the whole word in the message: as a division by zero when that bit is
  set, else as an unsupported instruction, else as a core error, else as an unknown error; without an error bit the
  wait returns \<open>Ok\<close>. This holds for every device and all system calls, with and without a time limit.
\<close>

theorem wait_reports_status:
  assumes "polls os dev config timeout_ms (fst (os_now os w)) (snd (os_now os w)) v"
    and "gpu_comm_read_status os dev v = (Inr (Inr word), v')"
    and "word AND tc_status_error_mask config \<noteq> 0 \<or> word AND tc_status_done_mask config \<noteq> 0"
  shows "gpu_comm_wait os dev config timeout_ms w =
    (if word AND tc_status_error_mask config = 0 then Inr Ok
     else if word AND tc_status_divide_by_zero_bit config \<noteq> 0
       then Inl (Error DivideByZero (device_fault_message word ''divide by zero''))
     else if word AND tc_status_unsupported_bit config \<noteq> 0
       then Inl (Error Unsupported (device_fault_message word ''unsupported instruction''))
     else Inl (Error Transport (device_fault_message word
       (if word AND tc_status_error_bit config \<noteq> 0 then ''core error'' else ''unknown status error''))), v')"
    (is "_ = ?res")
proof -
  have "poll_ends os dev config timeout_ms (fst (os_now os w)) v ?res"
    using assms(2,3) by (simp add: poll_ends_def status_fault_def)
  then have "wait_loop os dev config timeout_ms (fst (os_now os w)) (snd (os_now os w)) = Some ?res"
    by (rule polls_wait_loop [OF assms(1)])
  then show ?thesis by (simp add: gpu_comm_wait_def split_beta)
qed

section \<open>A wait without a limit\<close>

lemma busy_polls:
  assumes dev: "status_device os (dev_fd dv) pend word"
    and still: "\<And>w. pend (os_sleep_ms os 1 w) = pend w" "\<And>w. word (os_sleep_ms os 1 w) = word w"
    and p: "polls os (Some dv) config 0 start w v" and w: "pend w = []"
  shows "pend v = [] \<and> word v = word w"
  using p w
proof (induction rule: polls.induct)
  case (further w v u)
  from further(1) obtain x w1 where "gpu_comm_read_status os (Some dv) w = (Inr (Inr x), w1)"
    and v: "v = os_sleep_ms os 1 w1"
    by (auto elim: poll_step.cases)
  with read_status_answered [OF dev further.prems] have "pend w1 = []" "word w1 = word w" by auto
  then show ?case using further.IH v still by simp
qed simp

text \<open>
  A wait without a limit on a device that stays busy does not return. With
  \<open>timeout_ms = 0\<close>, which is what a launch passes by default, and a device whose status word has
  neither the done bit nor an error bit, \<open>gpu_comm_wait\<close> polls for ever.
\<close>

theorem unlimited_wait_diverges:
  assumes dev: "status_device os (dev_fd dv) pend word"
    and still: "\<And>w. pend (os_sleep_ms os 1 w) = pend w" "\<And>w. word (os_sleep_ms os 1 w) = word w"
    and clock: "pend (snd (os_now os w)) = []" "word (snd (os_now os w)) = word w"
    and busy: "word w AND tc_status_error_mask config = 0" "word w AND tc_status_done_mask config = 0"
  shows "fst (gpu_comm_wait os (Some dv) config 0 w) = Inl Diverges"
proof -
  let ?w = "snd (os_now os w)"
  have "wait_loop os (Some dv) config 0 (fst (os_now os w)) ?w = None"
  proof (rule ccontr)
    assume "wait_loop os (Some dv) config 0 (fst (os_now os w)) ?w \<noteq> None"
    then obtain res where "wait_loop os (Some dv) config 0 (fst (os_now os w)) ?w = Some res" by auto
    then obtain v where v: "polls os (Some dv) config 0 (fst (os_now os w)) ?w v"
      and ends: "poll_ends os (Some dv) config 0 (fst (os_now os w)) v res"
      by (auto dest!: wait_loop_polls)
    from busy_polls [OF dev still v clock(1)] clock(2) have "pend v = []" "word v = word w" by auto
    then obtain w1 where "gpu_comm_read_status os (Some dv) v = (Inr (Inr (word w)), w1)"
      using read_status_answered [OF dev, of v] by auto
    then show False using ends busy by (simp add: poll_ends_def status_fault_def)
  qed
  then show ?thesis by (simp add: gpu_comm_wait_def split_beta)
qed

section \<open>A simulated status device\<close>

text \<open>Its state: the queued answer, the status word and the time.\<close>

definition status_os :: "(bytes \<times> u32 \<times> int) os" where
  "status_os =
     \<lparr>os_write = (\<lambda>fd buf (queue, word, t). (int (length buf),
        if buf = frame (cmd_code CMD_READ_STATUS) 0 4 [0, 0, 0, 0]
        then (queue @ frame (cmd_code CMD_READ_STATUS) 0 4 (put_u32_rtl_rx word), word, t)
        else (queue, word, t))),
      os_read = (\<lambda>fd n (queue, word, t). (Inr (take n queue), (drop n queue, word, t))),
      os_now = (\<lambda>s. (snd (snd s), s)),
      os_sleep_ms = (\<lambda>n (queue, word, t). (queue, word, t + int n * 1000000))\<rparr>"

lemma status_os_device: "status_device status_os fd fst (\<lambda>s. fst (snd s))"
  unfolding status_device_def delivers_def status_os_def
  by (auto intro: exI [of _ "min n (length queue)" for n queue] simp: min_def)

lemma status_os_clock: "clock_advances status_os (\<lambda>s. snd (snd s))"
  by (auto simp: clock_advances_def status_os_def)

lemma status_os_still:
  "fst (os_sleep_ms status_os n w) = fst w" "fst (snd (os_sleep_ms status_os n w)) = fst (snd w)"
  "os_now status_os w = (snd (snd w), w)"
  by (auto simp: status_os_def split: prod.split)

section \<open>Waits on the simulated device\<close>

abbreviation status_dev :: "com_dev option" where
  "status_dev \<equiv> Some \<lparr>dev_fd = 3, dev_timeout_ms = 100\<rparr>"

lemma timed_wait_returns_witness:
  "\<exists>res. wait_loop status_os status_dev default_transport_config 5 0 ([], 0, 0) = Some res
     \<and> gpu_comm_wait status_os status_dev default_transport_config 5 ([], 0, 0) = res"
  using timed_wait_returns [OF status_os_clock, of 5 status_dev default_transport_config "([], 0, 0)"]
  by (simp add: status_os_still)

text \<open>A device that needs two milliseconds: it is busy before, and its status word then has every bit of the error mask.\<close>

definition late_os :: "(bytes \<times> u32 \<times> int) os" where
  "late_os = status_os\<lparr>os_write := (\<lambda>fd buf (queue, word, t). (int (length buf),
     (queue @ frame (cmd_code CMD_READ_STATUS) 0 4 (put_u32_rtl_rx (if t < 2000000 then 0 else word)), word, t)))\<rparr>"

lemma late_read: "gpu_comm_read_status late_os status_dev ([], word, t) = (Inr (Inr (if t < 2000000 then 0 else word)), ([], word, t))"
proof -
  have dev: "delivers late_os 3 fst snd"
    unfolding delivers_def late_os_def status_os_def
    by (auto intro: exI [of _ "min n (length queue)" for n queue] simp: min_def)
  have "os_write late_os 3 (frame (cmd_code CMD_READ_STATUS) 0 4 [0, 0, 0, 0]) ([], word, t)
      = (11, (frame (cmd_code CMD_READ_STATUS) 0 4 (put_u32_rtl_rx (if t < 2000000 then 0 else word)), word, t))"
    by (simp add: late_os_def)
  from read_status_view [where dv = "\<lparr>dev_fd = 3, dev_timeout_ms = 100\<rparr>" and pend = fst, unfolded com_dev.simps, OF dev this]
  show ?thesis by (auto simp: prod_eq_iff)
qed

lemma wait_reports_status_witness:
  "gpu_comm_wait late_os status_dev default_transport_config 0 ([], 0x1d, 0)
     = (Inl (Error DivideByZero (device_fault_message 0x1d ''divide by zero'')), ([], 0x1d, 2000000))"
proof -
  have now: "os_now late_os s = (snd (snd s), s)" and sleep: "os_sleep_ms late_os (Suc 0) ([], word, t) = ([], word, t + 1000000)" for s word t
    by (simp_all add: late_os_def status_os_def)
  have step: "poll_step late_os status_dev default_transport_config 0 0 ([], 0x1d, t) ([], 0x1d, t + 1000000)" if "t < 2000000" for t
    using poll_step.unlimited [of late_os status_dev "([], 0x1d, t)" 0 _ default_transport_config 0 0] that late_read [of "0x1d" t]
    by (simp add: sleep status_fault_def)
  have "polls late_os status_dev default_transport_config 0 0 ([], 0x1d, 0) ([], 0x1d, 2000000)"
    using step [of 0] step [of 1000000] by simp (rule polls.further, assumption, rule polls.further, assumption, rule polls.here)
  from wait_reports_status [of late_os status_dev default_transport_config 0 "([], 0x1d, 0)", unfolded now fst_conv snd_conv, OF this late_read]
  show ?thesis by (simp add: default_transport_config_def)
qed

lemma unlimited_wait_diverges_witness:
  "fst (gpu_comm_wait status_os status_dev default_transport_config 0 ([], 2, 0)) = Inl Diverges"
  by (rule unlimited_wait_diverges [where pend = fst and word = "\<lambda>s. fst (snd s)", OF status_os_device])
    (simp_all add: status_os_still default_transport_config_def)

lemma wait_ok_means_done_witness:
  "\<exists>w' v word. polls status_os status_dev default_transport_config 0 0 ([], 1, 0) v
    \<and> gpu_comm_read_status status_os status_dev v = (Inr (Inr word), w')
    \<and> word AND 1 \<noteq> 0"
proof -
  obtain s where "gpu_comm_read_status status_os status_dev ([], 1, 0) = (Inr (Inr 1), s)"
    using read_status_answered [where pend = fst and word = "\<lambda>s. fst (snd s)" and w = "([], 1, 0)", OF status_os_device, of "\<lparr>dev_fd = 3, dev_timeout_ms = 100\<rparr>"]
    unfolding fst_conv snd_conv by blast
  then have "fst (gpu_comm_wait status_os status_dev default_transport_config 0 ([], 1, 0)) = Inr Ok"
    by (simp add: gpu_comm_wait_def status_os_still, subst wait_loop.simps)
      (simp add: status_fault_def default_transport_config_def)
  then obtain w' where "gpu_comm_wait status_os status_dev default_transport_config 0 ([], 1, 0) = (Inr Ok, w')"
    by (metis prod.collapse)
  from wait_ok_means_done [OF this] obtain v word where
    "polls status_os status_dev default_transport_config 0 0 ([], 1, 0) v"
    "gpu_comm_read_status status_os status_dev v = (Inr (Inr word), w')"
    "word AND tc_status_done_mask default_transport_config \<noteq> 0"
    by (auto simp only: status_os_still fst_conv snd_conv)
  moreover have "tc_status_done_mask default_transport_config = 1"
    by (simp add: default_transport_config_def)
  ultimately show ?thesis by metis
qed

end
