(* ===== verification/DeviceLanes.thy ===== *)
theory DeviceLanes
  imports Prelude
begin

text \<open>
  How a device kernel runs (\<open>runtime/kernels/src/*.cu\<close>). Data memory is an array of words, and an
  address is a word address. Every kernel that works on many elements has the same loop: the lane
  \<open>threadIdx.x\<close> handles the elements \<open>threadIdx.x\<close>, \<open>threadIdx.x + blockDim.x\<close>, ... below a bound.
  \<open>lane_loop\<close> is that loop for one lane; \<open>lane_step\<close> interleaves the lanes of a block in any order, one
  element at a time. An index is an exact integer where the source computes it in 32 bits, so what is
  proved of a kernel is about index computations that stay in range (the bounds of device memory keep
  the indices of accesses inside it far below 32 bits), and an operation that divides by zero, which is a device fault, is \<open>None\<close>.
\<close>

type_synonym 'v words = "int \<Rightarrow> 'v"
type_synonym 'v element = "int \<Rightarrow> 'v words \<Rightarrow> 'v words option"

text \<open>Division and remainder of C, which round towards zero.\<close>

definition cdiv :: "int \<Rightarrow> int \<Rightarrow> int option" where
  "cdiv a b = (if b = 0 then None else Some (sgn a * sgn b * (\<bar>a\<bar> div \<bar>b\<bar>)))"

definition cmod :: "int \<Rightarrow> int \<Rightarrow> int option" where
  "cmod a b = (if b = 0 then None else Some (a - sgn a * sgn b * (\<bar>a\<bar> div \<bar>b\<bar>) * b))"

lemma cdiv_pos [simp]: "\<lbrakk>0 \<le> a; 0 < b\<rbrakk> \<Longrightarrow> cdiv a b = Some (a div b)"
  by (cases "a = 0") (simp_all add: cdiv_def)

lemma cmod_pos [simp]: "\<lbrakk>0 \<le> a; 0 < b\<rbrakk> \<Longrightarrow> cmod a b = Some (a mod b)"
  by (cases "a = 0") (simp_all add: cmod_def minus_div_mult_eq_mod)

section \<open>One lane\<close>

function lane_loop :: "int \<Rightarrow> int \<Rightarrow> 'v element \<Rightarrow> int \<Rightarrow> 'v words \<Rightarrow> 'v words option" where
  "lane_loop stride n body i mem =
     (if i < n \<and> 0 < stride then Option.bind (body i mem) (lane_loop stride n body (i + stride))
      else Some mem)"
  by pat_completeness auto
termination
  by (relation "measure (\<lambda>(stride, n, body, i, mem). nat (n - i))") auto

declare lane_loop.simps [simp del]

text \<open>A loop \<open>for (i = lo; i < hi; i += 1)\<close> over a local variable.\<close>

function for_range :: "int \<Rightarrow> int \<Rightarrow> (int \<Rightarrow> 'a \<Rightarrow> 'a) \<Rightarrow> 'a \<Rightarrow> 'a" where
  "for_range lo hi f acc = (if lo < hi then for_range (lo + 1) hi f (f lo acc) else acc)"
  by pat_completeness auto
termination
  by (relation "measure (\<lambda>(lo, hi, f, acc). nat (hi - lo))") auto

declare for_range.simps [simp del]

lemma for_range_fold: "for_range lo hi f acc = fold f [lo..hi - 1] acc"
proof (induction lo hi f acc rule: for_range.induct)
  case (1 lo hi f acc)
  then show ?case
    by (subst for_range.simps) (simp add: upto_rec1)
qed

lemma for_range_cong:
  assumes "\<And>i a. \<lbrakk>lo \<le> i; i < hi\<rbrakk> \<Longrightarrow> f i a = g i a"
  shows "for_range lo hi f acc = for_range lo hi g acc"
  unfolding for_range_fold using assms by (intro fold_cong) auto

lemma for_range_sum:
  fixes acc :: "'a::comm_monoid_add"
  shows "for_range lo hi (\<lambda>i a. a + g i) acc = acc + (\<Sum>i \<in> {lo..<hi}. g i)"
proof (induction "nat (hi - lo)" arbitrary: lo acc)
  case 0
  then show ?case by (subst for_range.simps) simp
next
  case (Suc k)
  then have "lo < hi" and "k = nat (hi - (lo + 1))" by linarith+
  moreover have "{lo..<hi} = insert lo {lo + 1..<hi}" using \<open>lo < hi\<close> by auto
  ultimately show ?case
    using Suc.hyps(1) [of "lo + 1" "acc + g lo"] by (subst for_range.simps) (simp add: add.assoc)
qed

section \<open>The lanes of a block\<close>

text \<open>
  The state of a block: the element each lane comes to next, and the memory. A step runs one element
  of one active lane.
\<close>

inductive lane_step ::
    "int set \<Rightarrow> int \<Rightarrow> int \<Rightarrow> 'v element \<Rightarrow> (int \<Rightarrow> int) \<times> 'v words \<Rightarrow> (int \<Rightarrow> int) \<times> 'v words \<Rightarrow> bool"
  for lanes stride n body where
  element: "\<lbrakk>t \<in> lanes; at t < n; body (at t) mem = Some mem'\<rbrakk>
   \<Longrightarrow> lane_step lanes stride n body (at, mem) (at(t := at t + stride), mem')"

inductive_cases lane_stepE: "lane_step lanes stride n body s s'"

definition finished :: "int set \<Rightarrow> int \<Rightarrow> (int \<Rightarrow> int) \<times> 'v words \<Rightarrow> bool" where
  "finished lanes n s \<longleftrightarrow> (\<forall>t \<in> lanes. n \<le> fst s t)"

text \<open>The lanes of a list, one after the other.\<close>

fun run_lanes :: "int \<Rightarrow> int \<Rightarrow> 'v element \<Rightarrow> int list \<Rightarrow> 'v words \<Rightarrow> 'v words option" where
  "run_lanes stride n body [] mem = Some mem"
| "run_lanes stride n body (t # ts) mem =
     Option.bind (lane_loop stride n body t mem) (run_lanes stride n body ts)"

text \<open>A kernel is what one lane does, given the number of lanes and its own number.\<close>

type_synonym 'v lane = "int \<Rightarrow> int \<Rightarrow> 'v words \<Rightarrow> 'v words option"

text \<open>The loop \<open>for (int i = threadIdx.x; i < n; i += blockDim.x)\<close>.\<close>

definition over_elements :: "int \<Rightarrow> 'v element \<Rightarrow> 'v lane" where
  "over_elements n body stride lane mem = lane_loop stride n body lane mem"

fun run_block :: "'v lane \<Rightarrow> int \<Rightarrow> int list \<Rightarrow> 'v words \<Rightarrow> 'v words option" where
  "run_block lane_code stride [] mem = Some mem"
| "run_block lane_code stride (t # ts) mem =
     Option.bind (lane_code stride t mem) (run_block lane_code stride ts)"

lemma run_block_over_elements:
  "run_block (over_elements n body) stride ts mem = run_lanes stride n body ts mem"
proof (induction ts arbitrary: mem)
  case (Cons t ts)
  then show ?case by (cases "lane_loop stride n body t mem") (simp_all add: over_elements_def)
qed simp

text \<open>Two ranges of words that do not meet.\<close>

definition disjoint_ranges :: "int \<Rightarrow> int \<Rightarrow> int \<Rightarrow> int \<Rightarrow> bool" where
  "disjoint_ranges a n b m \<longleftrightarrow> a + n \<le> b \<or> b + m \<le> a"

text \<open>Every step uses up one of finitely many elements, so no schedule runs for ever.\<close>

lemma lane_step_decreases:
  assumes "lane_step lanes stride n body s s'" and "finite lanes" and "0 < stride"
  shows "(\<Sum>t \<in> lanes. nat (n - fst s' t)) < (\<Sum>t \<in> lanes. nat (n - fst s t))"
  using assms(1)
proof (rule lane_stepE)
  fix t at mem mem'
  assume element: "s = (at, mem)" "s' = (at(t := at t + stride), mem')" "t \<in> lanes" "at t < n"
  show ?thesis
  proof (rule sum_strict_mono_ex1)
    show "\<forall>u \<in> lanes. nat (n - fst s' u) \<le> nat (n - fst s u)" using element assms(3) by auto
    show "\<exists>u \<in> lanes. nat (n - fst s' u) < nat (n - fst s u)" using element assms(3) by auto
  qed (rule assms(2))
qed

lemma same_lane:
  assumes "j mod s = i mod s" and "i \<le> j" and "j < i + (s :: int)"
  shows "j = i"
proof -
  have "s dvd j - i" using assms(1) by (simp add: mod_eq_dvd_iff)
  then have "(j - i) mod s = 0" by (simp add: dvd_eq_mod_eq_0)
  moreover have "(j - i) mod s = j - i" using assms(2,3) by (intro mod_pos_pos_trivial) simp_all
  ultimately show ?thesis by simp
qed

text \<open>
  The contract of a kernel whose elements write one result each: on parameters that keep the result
  apart from the operands, element \<open>i\<close> writes its value to word \<open>i\<close> of the result, whatever the
  other elements have written by then.
\<close>

locale lane_kernel =
  fixes body :: "'p \<Rightarrow> 'v element" and elem :: "'p \<Rightarrow> 'v words \<Rightarrow> int \<Rightarrow> 'v"
    and result count_of :: "'p \<Rightarrow> int" and apart :: "'p \<Rightarrow> bool"
  assumes one_element: "\<lbrakk>apart p; 0 \<le> i; i < count_of p;
      \<And>a. (\<And>j. \<lbrakk>0 \<le> j; j < count_of p; j \<noteq> i\<rbrakk> \<Longrightarrow> a \<noteq> result p + j) \<Longrightarrow> mem a = mem0 a\<rbrakk>
    \<Longrightarrow> body p i mem = Some (mem(result p + i := elem p mem0 i))"
begin

definition element_done :: "int set \<Rightarrow> int \<Rightarrow> (int \<Rightarrow> int) \<Rightarrow> int \<Rightarrow> bool" where
  "element_done lanes stride at i \<longleftrightarrow> i mod stride \<in> lanes \<and> i < at (i mod stride)"

definition partial_result :: "int set \<Rightarrow> int \<Rightarrow> 'p \<Rightarrow> 'v words \<Rightarrow> (int \<Rightarrow> int) \<Rightarrow> 'v words" where
  "partial_result lanes stride p mem0 at =
     (\<lambda>a. if 0 \<le> a - result p \<and> a - result p < count_of p \<and> element_done lanes stride at (a - result p)
          then elem p mem0 (a - result p) else mem0 a)"

definition running :: "int set \<Rightarrow> int \<Rightarrow> 'p \<Rightarrow> 'v words \<Rightarrow> (int \<Rightarrow> int) \<times> 'v words \<Rightarrow> bool" where
  "running lanes stride p mem0 s \<longleftrightarrow>
     (\<forall>t \<in> lanes. fst s t mod stride = t \<and> t \<le> fst s t)
     \<and> snd s = partial_result lanes stride p mem0 (fst s)"

lemma running_start:
  assumes "lanes \<subseteq> {0..<stride}"
  shows "running lanes stride p mem0 (\<lambda>t. t, mem0)"
proof -
  have "\<not> element_done lanes stride (\<lambda>t. t) i" if "0 \<le> i" for i
    using zmod_le_nonneg_dividend [OF that, of stride] by (simp add: element_done_def)
  then have "partial_result lanes stride p mem0 (\<lambda>t. t) = mem0"
    by (intro ext) (auto simp: partial_result_def)
  then show ?thesis using assms by (auto simp: running_def)
qed

text \<open>In a running state the next element of any lane can run, and the state stays running.\<close>

lemma running_element:
  assumes inv: "running lanes stride p mem0 (at, mem)" and lanes: "lanes \<subseteq> {0..<stride}"
    and p: "apart p" and t: "t \<in> lanes" "at t < count_of p"
  shows "\<exists>mem'. body p (at t) mem = Some mem' \<and> running lanes stride p mem0 (at(t := at t + stride), mem')"
proof -
  let ?i = "at t"
  from inv t lanes have i: "?i mod stride = t" "0 \<le> ?i" and stride: "0 < stride"
    and mem: "mem = partial_result lanes stride p mem0 at"
    by (force simp: running_def)+
  have "body p ?i mem = Some (mem(result p + ?i := elem p mem0 ?i))"
  proof (rule one_element [OF p i(2) t(2)])
    fix a
    assume free: "\<And>j. \<lbrakk>0 \<le> j; j < count_of p; j \<noteq> ?i\<rbrakk> \<Longrightarrow> a \<noteq> result p + j"
    have "\<not> element_done lanes stride at ?i" using i by (simp add: element_done_def)
    then show "mem a = mem0 a"
      using free [of "a - result p"] by (cases "a - result p = ?i") (auto simp: mem partial_result_def)
  qed
  moreover have "element_done lanes stride (at(t := ?i + stride)) j
      \<longleftrightarrow> element_done lanes stride at j \<or> j = ?i" for j
  proof (cases "j mod stride = t")
    case True
    then show ?thesis
      using i t(1) stride same_lane [of j stride ?i] by (cases "?i \<le> j") (auto simp: element_done_def)
  next
    case False
    then show ?thesis using i(1) by (auto simp: element_done_def)
  qed
  then have "mem(result p + ?i := elem p mem0 ?i)
      = partial_result lanes stride p mem0 (at(t := ?i + stride))"
    using i(2) t(2) by (auto simp: mem partial_result_def fun_eq_iff)
  ultimately show ?thesis
    using inv i t(1) stride lanes by (auto simp: running_def)
qed

lemma running_step:
  assumes "lane_step lanes stride (count_of p) (body p) s s'" and "running lanes stride p mem0 s"
    and "lanes \<subseteq> {0..<stride}" and "apart p"
  shows "running lanes stride p mem0 s'"
  using assms(1)
proof (rule lane_stepE)
  fix t at mem mem'
  assume s: "s = (at, mem)" "s' = (at(t := at t + stride), mem')" "t \<in> lanes" "at t < count_of p"
    and b: "body p (at t) mem = Some mem'"
  from running_element [of lanes stride p mem0 at mem t] assms(2-4) s b
  show "running lanes stride p mem0 s'" by auto
qed

text \<open>What a block leaves behind: the values of the elements that an active lane handles.\<close>

definition block_result :: "int set \<Rightarrow> int \<Rightarrow> 'p \<Rightarrow> 'v words \<Rightarrow> 'v words" where
  "block_result lanes stride p mem0 =
     (\<lambda>a. if 0 \<le> a - result p \<and> a - result p < count_of p \<and> (a - result p) mod stride \<in> lanes
          then elem p mem0 (a - result p) else mem0 a)"

lemma running_finished:
  assumes "running lanes stride p mem0 s" and "finished lanes (count_of p) s"
  shows "snd s = block_result lanes stride p mem0"
proof -
  have "element_done lanes stride (fst s) i \<longleftrightarrow> i mod stride \<in> lanes" if "i < count_of p" for i
    using assms(2) that by (auto simp: element_done_def finished_def intro: less_le_trans)
  then show ?thesis
    using assms(1) by (auto simp: running_def partial_result_def block_result_def fun_eq_iff)
qed

lemma reachable_running:
  assumes "rtranclp (lane_step lanes stride (count_of p) (body p)) (\<lambda>t. t, mem0) s"
    and "lanes \<subseteq> {0..<stride}" and "apart p"
  shows "running lanes stride p mem0 s"
  using assms(1)
proof (induction rule: rtranclp_induct)
  case base
  show ?case by (rule running_start [OF assms(2)])
next
  case (step s s')
  show ?case by (rule running_step [OF step.hyps(2) step.IH assms(2,3)])
qed

text \<open>No schedule is stuck before it is finished, and every finished schedule has the same result.\<close>

lemma schedule_result:
  assumes "rtranclp (lane_step lanes stride (count_of p) (body p)) (\<lambda>t. t, mem0) s"
    and "lanes \<subseteq> {0..<stride}" and "apart p"
  shows "(finished lanes (count_of p) s \<longrightarrow> snd s = block_result lanes stride p mem0)
    \<and> (\<not> finished lanes (count_of p) s \<longrightarrow> (\<exists>s'. lane_step lanes stride (count_of p) (body p) s s'))"
proof -
  from reachable_running [OF assms] have run: "running lanes stride p mem0 s" .
  have "\<exists>s'. lane_step lanes stride (count_of p) (body p) s s'" if "\<not> finished lanes (count_of p) s"
  proof -
    obtain at mem where s: "s = (at, mem)" by force
    with that obtain t where t: "t \<in> lanes" "at t < count_of p" by (auto simp: finished_def not_le)
    from running_element [OF run [unfolded s] assms(2,3) t] obtain mem' where
      "body p (at t) mem = Some mem'" by auto
    with t s show ?thesis by (auto intro: lane_step.element)
  qed
  then show ?thesis using running_finished [OF run] by blast
qed

lemma lane_loop_running:
  assumes "running lanes stride p mem0 (at, mem)" and "lanes \<subseteq> {0..<stride}" and "apart p" and "t \<in> lanes"
  shows "\<exists>mem' x. lane_loop stride (count_of p) (body p) (at t) mem = Some mem'
    \<and> count_of p \<le> x \<and> running lanes stride p mem0 (at(t := x), mem')"
  using assms(1)
proof (induction "nat (count_of p - at t)" arbitrary: at mem rule: less_induct)
  case less
  have stride: "0 < stride" using assms(2,4) by force
  show ?case
  proof (cases "at t < count_of p")
    case False
    then show ?thesis
      using less.prems by (subst lane_loop.simps) (auto intro!: exI [of _ "at t"])
  next
    case True
    from running_element [OF less.prems assms(2-4) True] obtain mem1 where
      b: "body p (at t) mem = Some mem1" and r: "running lanes stride p mem0 (at(t := at t + stride), mem1)"
      by auto
    have "nat (count_of p - (at(t := at t + stride)) t) < nat (count_of p - at t)"
      using True stride by simp
    from less.hyps [OF this r] obtain mem' x where
      "lane_loop stride (count_of p) (body p) (at t + stride) mem1 = Some mem'"
      "count_of p \<le> x" "running lanes stride p mem0 (at(t := x), mem')"
      by auto
    then show ?thesis using True stride b by (subst lane_loop.simps) auto
  qed
qed

lemma run_lanes_running:
  assumes "running lanes stride p mem0 (at, mem)" and "lanes \<subseteq> {0..<stride}" and "apart p"
    and "distinct ts" and "set ts \<subseteq> lanes" and "\<forall>t \<in> set ts. at t = t"
    and "\<forall>t \<in> lanes - set ts. count_of p \<le> at t"
  shows "run_lanes stride (count_of p) (body p) ts mem = Some (block_result lanes stride p mem0)"
  using assms(1,4-7)
proof (induction ts arbitrary: at mem)
  case Nil
  then have "finished lanes (count_of p) (at, mem)" by (simp add: finished_def)
  from running_finished [OF Nil.prems(1) this] show ?case by simp
next
  case (Cons t ts)
  then have t: "t \<in> lanes" "at t = t" by auto
  from lane_loop_running [OF Cons.prems(1) assms(2,3) t(1)] obtain mem' x where
    l: "lane_loop stride (count_of p) (body p) t mem = Some mem'" "count_of p \<le> x"
    and r: "running lanes stride p mem0 (at(t := x), mem')"
    using t(2) by auto
  have "run_lanes stride (count_of p) (body p) ts mem' = Some (block_result lanes stride p mem0)"
    using Cons.prems l(2) by (intro Cons.IH [OF r]) auto
  then show ?case using l(1) by simp
qed

text \<open>Running the lanes one after the other is one of the schedules.\<close>

lemma run_lanes_result:
  assumes "distinct ts" and "set ts \<subseteq> {0..<stride}" and "apart p"
  shows "run_lanes stride (count_of p) (body p) ts mem = Some (block_result (set ts) stride p mem)"
  by (rule run_lanes_running [OF running_start]) (use assms in auto)

text \<open>With all lanes active every element has its value.\<close>

lemma block_result_all:
  assumes "0 < stride"
  shows "block_result {0..<stride} stride p mem
    = (\<lambda>a. if 0 \<le> a - result p \<and> a - result p < count_of p then elem p mem (a - result p) else mem a)"
  using assms by (auto simp: block_result_def fun_eq_iff)

end

text \<open>
  A kernel that computes each result from operands apart from the result: what it may read is a set of
  words, and a value depends on these words only. Such a kernel keeps the contract above.
\<close>

locale reading_kernel =
  fixes body :: "'p \<Rightarrow> 'v element" and elem :: "'p \<Rightarrow> 'v words \<Rightarrow> int \<Rightarrow> 'v"
    and result count_of :: "'p \<Rightarrow> int" and apart :: "'p \<Rightarrow> bool" and reads :: "'p \<Rightarrow> int set"
  assumes writes: "\<lbrakk>apart p; 0 \<le> i; i < count_of p\<rbrakk>
      \<Longrightarrow> body p i mem = Some (mem(result p + i := elem p mem i))"
    and only_reads: "\<lbrakk>apart p; 0 \<le> i; i < count_of p; \<And>x. x \<in> reads p \<Longrightarrow> mem x = mem0 x\<rbrakk>
      \<Longrightarrow> elem p mem i = elem p mem0 i"
    and reads_apart: "\<lbrakk>apart p; x \<in> reads p; 0 \<le> j; j < count_of p\<rbrakk> \<Longrightarrow> x \<noteq> result p + j"

sublocale reading_kernel \<subseteq> lane_kernel body elem result count_of apart
proof
  fix p i and mem mem0 :: "'v words"
  assume range: "apart p" "0 \<le> i" "i < count_of p"
    and same: "\<And>a. (\<And>j. \<lbrakk>0 \<le> j; j < count_of p; j \<noteq> i\<rbrakk> \<Longrightarrow> a \<noteq> result p + j) \<Longrightarrow> mem a = mem0 a"
  have "elem p mem i = elem p mem0 i"
    using range(1) by (intro only_reads range same reads_apart)
  then show "body p i mem = Some (mem(result p + i := elem p mem0 i))"
    by (simp add: writes [OF range])
qed

end
