(* ===== verification/DeviceMath.thy ===== *)
theory DeviceMath
  imports Prelude
begin

text \<open>
  The float functions of the device library (\<open>runtime/kernels/include/minigpu_kernel.h\<close>), on the bits
  of 32-bit floats. The arithmetic of the float unit is the parameter record \<open>fpu\<close>; everything the
  library does on top of it, the bit selections, the order, the special values and the iterations, is
  written out. A float literal is given by its bits.
\<close>

record fpu =
  fp_add :: "u32 \<Rightarrow> u32 \<Rightarrow> u32"
  fp_sub :: "u32 \<Rightarrow> u32 \<Rightarrow> u32"
  fp_mul :: "u32 \<Rightarrow> u32 \<Rightarrow> u32"
  fp_lt :: "u32 \<Rightarrow> u32 \<Rightarrow> bool"
  fp_le :: "u32 \<Rightarrow> u32 \<Rightarrow> bool"
  fp_gt :: "u32 \<Rightarrow> u32 \<Rightarrow> bool"
  fp_ge :: "u32 \<Rightarrow> u32 \<Rightarrow> bool"
  fp_to_int :: "u32 \<Rightarrow> u32"
  fp_of_int :: "u32 \<Rightarrow> u32"

abbreviation mag_mask :: u32 where "mag_mask \<equiv> 0x7fffffff"
abbreviation sign_bit :: u32 where "sign_bit \<equiv> 0x80000000"
abbreviation inf_bits :: u32 where "inf_bits \<equiv> 0x7f800000"

section \<open>Selections\<close>

definition minigpu_mask_u32 :: "bool \<Rightarrow> u32" where
  "minigpu_mask_u32 pred = 0 - of_bool pred"

definition minigpu_select_u32 :: "u32 \<Rightarrow> u32 \<Rightarrow> u32 \<Rightarrow> u32" where
  "minigpu_select_u32 sel if_set if_clear = (sel AND if_set) OR (NOT sel AND if_clear)"

definition minigpu_select_f32 :: "u32 \<Rightarrow> u32 \<Rightarrow> u32 \<Rightarrow> u32" where
  "minigpu_select_f32 sel if_set if_clear = minigpu_select_u32 sel if_set if_clear"

section \<open>Order\<close>

definition minigpu_float_order_key :: "u32 \<Rightarrow> int" where
  "minigpu_float_order_key x =
     (if x AND sign_bit \<noteq> 0 then sint (NOT x OR sign_bit) else sint x)"

definition minigpu_float_lt :: "u32 \<Rightarrow> u32 \<Rightarrow> bool" where
  "minigpu_float_lt a b \<longleftrightarrow> minigpu_float_order_key a < minigpu_float_order_key b"

definition minigpu_float_gt :: "u32 \<Rightarrow> u32 \<Rightarrow> bool" where
  "minigpu_float_gt a b \<longleftrightarrow> minigpu_float_order_key a > minigpu_float_order_key b"

definition fabsf :: "u32 \<Rightarrow> u32" where
  "fabsf x = x AND mag_mask"

definition fminf :: "u32 \<Rightarrow> u32 \<Rightarrow> u32" where
  "fminf a b = (if minigpu_float_lt b a then b else a)"

definition fmaxf :: "u32 \<Rightarrow> u32 \<Rightarrow> u32" where
  "fmaxf a b = (if minigpu_float_gt b a then b else a)"

definition copysignf :: "u32 \<Rightarrow> u32 \<Rightarrow> u32" where
  "copysignf mag sgn_of = (mag AND mag_mask) OR (sgn_of AND sign_bit)"

definition clampf :: "u32 \<Rightarrow> u32 \<Rightarrow> u32 \<Rightarrow> u32" where
  "clampf x lo hi =
     (let y = (if minigpu_float_lt x lo then lo else x)
      in if minigpu_float_gt y hi then hi else y)"

section \<open>Rounding\<close>

definition minigpu_round_i32 :: "fpu \<Rightarrow> u32 \<Rightarrow> u32" where
  "minigpu_round_i32 f x = fp_to_int f (fp_add f x (copysignf 0x3f000000 x))"

definition roundf :: "fpu \<Rightarrow> u32 \<Rightarrow> u32" where
  "roundf f x = fp_of_int f (minigpu_round_i32 f x)"

definition truncf :: "fpu \<Rightarrow> u32 \<Rightarrow> u32" where
  "truncf f x = fp_of_int f (fp_to_int f x)"

definition floorf :: "fpu \<Rightarrow> u32 \<Rightarrow> u32" where
  "floorf f x =
     (let i = fp_to_int f x; y = fp_of_int f i
      in if minigpu_float_gt y x then fp_of_int f (i - 1) else y)"

definition ceilf :: "fpu \<Rightarrow> u32 \<Rightarrow> u32" where
  "ceilf f x =
     (let i = fp_to_int f x; y = fp_of_int f i
      in if minigpu_float_lt y x then fp_of_int f (i + 1) else y)"

section \<open>Reciprocal and square root\<close>

definition rcp_step :: "fpu \<Rightarrow> u32 \<Rightarrow> u32 \<Rightarrow> u32" where
  "rcp_step f x y = fp_mul f y (fp_sub f 0x40000000 (fp_mul f x y))"

definition rcpf :: "fpu \<Rightarrow> u32 \<Rightarrow> u32" where
  "rcpf f x =
     (let s = x AND sign_bit;
          mag = x AND mag_mask;
          iy = s OR (0x7ef311c3 - mag);
          y = rcp_step f x (rcp_step f x (rcp_step f x iy));
          zero_mask = minigpu_mask_u32 (mag = 0);
          inf_mask = minigpu_mask_u32 (mag = inf_bits);
          nan_mask = minigpu_mask_u32 (mag > inf_bits);
          r0 = y;
          r1 = minigpu_select_u32 zero_mask (s OR inf_bits) r0;
          r2 = minigpu_select_u32 inf_mask s r1
      in minigpu_select_u32 nan_mask x r2)"

definition rsqrt_step :: "fpu \<Rightarrow> u32 \<Rightarrow> u32 \<Rightarrow> u32" where
  "rsqrt_step f x y =
     fp_mul f y (fp_sub f 0x3fc00000 (fp_mul f (fp_mul f (fp_mul f 0x3f000000 x) y) y))"

definition rsqrtf :: "fpu \<Rightarrow> u32 \<Rightarrow> u32" where
  "rsqrtf f x =
     (let seed = 0x5f3759df - drop_bit 1 x
      in rsqrt_step f x (rsqrt_step f x (rsqrt_step f x seed)))"

definition sqrtf :: "fpu \<Rightarrow> u32 \<Rightarrow> u32" where
  "sqrtf f x =
     (let mag = x AND mag_mask;
          s = x AND sign_bit;
          y = fp_mul f x (rsqrtf f x);
          neg_mask = minigpu_mask_u32 (s \<noteq> 0 \<and> mag \<noteq> 0);
          zero_mask = minigpu_mask_u32 (mag = 0);
          inf_mask = minigpu_mask_u32 (s = 0 \<and> mag = inf_bits);
          nan_mask = minigpu_mask_u32 (mag > inf_bits);
          r0 = y;
          r1 = minigpu_select_u32 neg_mask 0x7fc00000 r0;
          r2 = minigpu_select_u32 zero_mask x r1;
          r3 = minigpu_select_u32 inf_mask x r2
      in minigpu_select_u32 nan_mask x r3)"

section \<open>Logarithm and exponential\<close>

text \<open>
  One range reduction of the logarithm: when the comparison holds of \<open>y\<close>, scale \<open>y\<close> and adjust the
  sum.
\<close>

definition log_step ::
    "fpu \<Rightarrow> (u32 \<Rightarrow> u32 \<Rightarrow> bool) \<Rightarrow> u32 \<Rightarrow> u32 \<Rightarrow> (u32 \<Rightarrow> u32 \<Rightarrow> u32) \<Rightarrow> u32
       \<Rightarrow> u32 \<times> u32 \<Rightarrow> u32 \<times> u32" where
  "log_step f test bound factor adjust amount ys =
     (if test (fst ys) bound then (fp_mul f (fst ys) factor, adjust (snd ys) amount) else ys)"

definition log_reduce :: "fpu \<Rightarrow> u32 \<Rightarrow> u32 \<times> u32" where
  "log_reduce f x = fold (\<lambda>st. st)
     [log_step f (fp_ge f) 0x5f800000 0x1f800000 (fp_add f) 0x42317218,
      log_step f (fp_ge f) 0x4f800000 0x2f800000 (fp_add f) 0x41b17218,
      log_step f (fp_ge f) 0x47800000 0x37800000 (fp_add f) 0x41317218,
      log_step f (fp_ge f) 0x43800000 0x3b800000 (fp_add f) 0x40b17218,
      log_step f (fp_ge f) 0x41800000 0x3d800000 (fp_add f) 0x40317218,
      log_step f (fp_ge f) 0x40800000 0x3e800000 (fp_add f) 0x3fb17218,
      log_step f (fp_gt f) 0x3fb504f3 0x3f000000 (fp_add f) 0x3f317218,
      log_step f (fp_lt f) 0x1f800000 0x5f800000 (fp_sub f) 0x42317218,
      log_step f (fp_lt f) 0x2f800000 0x4f800000 (fp_sub f) 0x41b17218,
      log_step f (fp_lt f) 0x37800000 0x47800000 (fp_sub f) 0x41317218,
      log_step f (fp_lt f) 0x3b800000 0x43800000 (fp_sub f) 0x40b17218,
      log_step f (fp_lt f) 0x3d800000 0x41800000 (fp_sub f) 0x40317218,
      log_step f (fp_lt f) 0x3e800000 0x40800000 (fp_sub f) 0x3fb17218,
      log_step f (fp_lt f) 0x3f3504f3 0x40000000 (fp_sub f) 0x3f317218]
     (x, 0x00000000)"

definition log_series :: "fpu \<Rightarrow> u32 \<Rightarrow> u32" where
  "log_series f z =
     (let z2 = fp_mul f z z;
          series0 = z;
          term1 = fp_mul f z z2;
          series1 = fp_add f series0 (fp_mul f 0x3eaaaaab term1);
          term2 = fp_mul f term1 z2;
          series2 = fp_add f series1 (fp_mul f 0x3e4ccccd term2);
          term3 = fp_mul f term2 z2;
          series3 = fp_add f series2 (fp_mul f 0x3e124925 term3);
          term4 = fp_mul f term3 z2;
          series4 = fp_add f series3 (fp_mul f 0x3de38e39 term4);
          term5 = fp_mul f term4 z2
      in fp_add f series4 (fp_mul f 0x3dba2e8c term5))"

definition logf :: "fpu \<Rightarrow> u32 \<Rightarrow> u32" where
  "logf f x =
     (let (y, scale) = log_reduce f x;
          z = fp_mul f (fp_sub f y 0x3f800000) (rcpf f (fp_add f y 0x3f800000));
          series = log_series f z;
          mag = x AND mag_mask;
          s = x AND sign_bit;
          r0 = fp_add f scale (fp_mul f 0x40000000 series);
          zero_mask = minigpu_mask_u32 (mag = 0);
          neg_mask = minigpu_mask_u32 (s \<noteq> 0 \<and> mag \<noteq> 0);
          inf_mask = minigpu_mask_u32 (s = 0 \<and> mag = inf_bits);
          nan_mask = minigpu_mask_u32 (mag > inf_bits);
          r1 = minigpu_select_u32 zero_mask 0xff800000 r0;
          r2 = minigpu_select_u32 neg_mask 0x7fc00000 r1;
          r3 = minigpu_select_u32 inf_mask x r2
      in minigpu_select_u32 nan_mask x r3)"

definition log2f :: "fpu \<Rightarrow> u32 \<Rightarrow> u32" where
  "log2f f x = fp_mul f 0x3fb8aa3b (logf f x)"

definition log10f :: "fpu \<Rightarrow> u32 \<Rightarrow> u32" where
  "log10f f x = fp_mul f 0x3e9a209b (log2f f x)"

text \<open>The exponential: \<open>1 + x / 2048\<close> squared eleven times.\<close>

definition expf :: "fpu \<Rightarrow> u32 \<Rightarrow> u32" where
  "expf f x =
     (let mag = x AND mag_mask;
          s = x AND sign_bit;
          y0 = fp_add f 0x3f800000 (fp_mul f x 0x3a000000);
          y = ((\<lambda>y. fp_mul f y y) ^^ 11) y0;
          overflow_mask = minigpu_mask_u32 (s = 0 \<and> mag > 0x42b17217);
          underflow_mask = minigpu_mask_u32 (s \<noteq> 0 \<and> mag > 0x42aeac50);
          nan_mask = minigpu_mask_u32 (mag > inf_bits);
          r0 = y;
          r1 = minigpu_select_u32 overflow_mask inf_bits r0;
          r2 = minigpu_select_u32 underflow_mask 0 r1
      in minigpu_select_u32 nan_mask x r2)"

definition exp2f :: "fpu \<Rightarrow> u32 \<Rightarrow> u32" where
  "exp2f f x = expf f (fp_mul f x 0x3f317218)"

definition powf :: "fpu \<Rightarrow> u32 \<Rightarrow> u32 \<Rightarrow> u32" where
  "powf f x e = expf f (fp_mul f e (logf f x))"

section \<open>Trigonometry\<close>

definition minigpu_xor_sign_f32 :: "u32 \<Rightarrow> u32 \<Rightarrow> u32" where
  "minigpu_xor_sign_f32 x sign_mask = x XOR (sign_mask AND sign_bit)"

definition minigpu_sin_poly :: "fpu \<Rightarrow> u32 \<Rightarrow> u32" where
  "minigpu_sin_poly f r =
     (let r2 = fp_mul f r r; r3 = fp_mul f r2 r; r5 = fp_mul f r3 r2; r7 = fp_mul f r5 r2
      in fp_sub f (fp_add f (fp_sub f r (fp_mul f 0x3e2aaaab r3)) (fp_mul f 0x3c088889 r5))
           (fp_mul f 0x39500d01 r7))"

definition minigpu_cos_poly :: "fpu \<Rightarrow> u32 \<Rightarrow> u32" where
  "minigpu_cos_poly f r =
     (let r2 = fp_mul f r r; r4 = fp_mul f r2 r2; r6 = fp_mul f r4 r2
      in fp_sub f (fp_add f (fp_sub f 0x3f800000 (fp_mul f 0x3f000000 r2)) (fp_mul f 0x3d2aaaab r4))
           (fp_mul f 0x3ab60b61 r6))"

definition minigpu_nearest_quadrant :: "fpu \<Rightarrow> u32 \<Rightarrow> u32" where
  "minigpu_nearest_quadrant f x = minigpu_round_i32 f (fp_mul f x 0x3f22f983)"

definition sinf :: "fpu \<Rightarrow> u32 \<Rightarrow> u32" where
  "sinf f x =
     (let q = minigpu_nearest_quadrant f x;
          quadrant = q AND 3;
          r = fp_sub f x (fp_mul f (fp_of_int f q) 0x3fc90fdb);
          s = minigpu_sin_poly f r;
          c = minigpu_cos_poly f r;
          swap_mask = 0 - (quadrant AND 1);
          sign_mask = 0 - (drop_bit 1 quadrant AND 1)
      in minigpu_xor_sign_f32 (minigpu_select_f32 swap_mask c s) sign_mask)"

definition cosf :: "fpu \<Rightarrow> u32 \<Rightarrow> u32" where
  "cosf f x =
     (let q = minigpu_nearest_quadrant f x;
          quadrant = q AND 3;
          r = fp_sub f x (fp_mul f (fp_of_int f q) 0x3fc90fdb);
          s = minigpu_sin_poly f r;
          c = minigpu_cos_poly f r;
          swap_mask = 0 - (quadrant AND 1);
          sign_mask = 0 - (drop_bit 1 (quadrant + 1) AND 1)
      in minigpu_xor_sign_f32 (minigpu_select_f32 swap_mask s c) sign_mask)"

definition tanf :: "fpu \<Rightarrow> u32 \<Rightarrow> u32" where
  "tanf f x = fp_mul f (sinf f x) (rcpf f (cosf f x))"

section \<open>Sigmoid and hyperbolic tangent\<close>

definition sigmoidf :: "fpu \<Rightarrow> u32 \<Rightarrow> u32" where
  "sigmoidf f x =
     (let mag = x AND mag_mask;
          s = x AND sign_bit;
          y = rcpf f (fp_add f 0x3f800000 (expf f (fp_sub f 0x00000000 x)));
          pos_sat_mask = minigpu_mask_u32 (s = 0 \<and> mag > 0x42b17217);
          neg_sat_mask = minigpu_mask_u32 (s \<noteq> 0 \<and> mag > 0x42b17217);
          nan_mask = minigpu_mask_u32 (mag > inf_bits);
          r0 = y;
          r1 = minigpu_select_u32 pos_sat_mask 0x3f800000 r0;
          r2 = minigpu_select_u32 neg_sat_mask 0 r1
      in minigpu_select_u32 nan_mask x r2)"

definition tanhf :: "fpu \<Rightarrow> u32 \<Rightarrow> u32" where
  "tanhf f x =
     (let mag = x AND mag_mask;
          s = x AND sign_bit;
          y = fp_sub f (fp_mul f 0x40000000 (sigmoidf f (fp_mul f 0x40000000 x))) 0x3f800000;
          sat_mask = minigpu_mask_u32 (mag > 0x41200000);
          nan_mask = minigpu_mask_u32 (mag > inf_bits);
          sat = s OR 0x3f800000;
          r0 = y;
          r1 = minigpu_select_u32 sat_mask sat r0
      in minigpu_select_u32 nan_mask x r1)"

section \<open>The other names\<close>

text \<open>The functions under their names without the suffix (\<open>__frcp_rn\<close> for the reciprocal).\<close>

definition fabs :: "u32 \<Rightarrow> u32" where "fabs x = fabsf x"

definition fmin :: "u32 \<Rightarrow> u32 \<Rightarrow> u32" where "fmin x y = fminf x y"

definition fmax :: "u32 \<Rightarrow> u32 \<Rightarrow> u32" where "fmax x y = fmaxf x y"

definition copysign :: "u32 \<Rightarrow> u32 \<Rightarrow> u32" where "copysign x y = copysignf x y"

definition round_fp :: "fpu \<Rightarrow> u32 \<Rightarrow> u32" where "round_fp f x = roundf f x"

definition trunc_fp :: "fpu \<Rightarrow> u32 \<Rightarrow> u32" where "trunc_fp f x = truncf f x"

definition floor_fp :: "fpu \<Rightarrow> u32 \<Rightarrow> u32" where "floor_fp f x = floorf f x"

definition ceil_fp :: "fpu \<Rightarrow> u32 \<Rightarrow> u32" where "ceil_fp f x = ceilf f x"

definition frcp_rn :: "fpu \<Rightarrow> u32 \<Rightarrow> u32" where "frcp_rn f x = rcpf f x"

definition sqrt_fp :: "fpu \<Rightarrow> u32 \<Rightarrow> u32" where "sqrt_fp f x = sqrtf f x"

definition log2_fp :: "fpu \<Rightarrow> u32 \<Rightarrow> u32" where "log2_fp f x = log2f f x"

definition log_fp :: "fpu \<Rightarrow> u32 \<Rightarrow> u32" where "log_fp f x = logf f x"

definition log10_fp :: "fpu \<Rightarrow> u32 \<Rightarrow> u32" where "log10_fp f x = log10f f x"

definition exp_fp :: "fpu \<Rightarrow> u32 \<Rightarrow> u32" where "exp_fp f x = expf f x"

definition exp2_fp :: "fpu \<Rightarrow> u32 \<Rightarrow> u32" where "exp2_fp f x = exp2f f x"

definition pow_fp :: "fpu \<Rightarrow> u32 \<Rightarrow> u32 \<Rightarrow> u32" where "pow_fp f x y = powf f x y"

definition sin_fp :: "fpu \<Rightarrow> u32 \<Rightarrow> u32" where "sin_fp f x = sinf f x"

definition cos_fp :: "fpu \<Rightarrow> u32 \<Rightarrow> u32" where "cos_fp f x = cosf f x"

definition tan_fp :: "fpu \<Rightarrow> u32 \<Rightarrow> u32" where "tan_fp f x = tanf f x"

definition tanh_fp :: "fpu \<Rightarrow> u32 \<Rightarrow> u32" where "tanh_fp f x = tanhf f x"

section \<open>Selections choose\<close>

lemma select_mask [simp]:
  "minigpu_select_u32 (minigpu_mask_u32 b) x y = (if b then x else y)"
  by (simp add: minigpu_select_u32_def minigpu_mask_u32_def)

text \<open>
  The special values of the reciprocal, the square root, the logarithm and the exponential,
  whatever the float unit does: a NaN comes back unchanged, the reciprocal of a zero is the infinity of
  its sign and of an infinity the zero of its sign, the square root and the logarithm of a negative
  number are a NaN, the square root of a zero is that zero and the logarithm of a zero is minus infinity,
  positive infinity has itself as root and logarithm, and its exponential is infinity.
\<close>

theorem special_values:
  "rcpf f x = (if x AND mag_mask > inf_bits then x
               else if x AND mag_mask = inf_bits then x AND sign_bit
               else if x AND mag_mask = 0 then (x AND sign_bit) OR inf_bits
               else rcp_step f x (rcp_step f x (rcp_step f x
                 ((x AND sign_bit) OR (0x7ef311c3 - (x AND mag_mask))))))
   \<and> sqrtf f x = (if x AND mag_mask > inf_bits then x
               else if x AND mag_mask = 0 then x
               else if x AND sign_bit \<noteq> 0 then 0x7fc00000
               else if x AND mag_mask = inf_bits then x
               else fp_mul f x (rsqrtf f x))
   \<and> (x AND mag_mask > inf_bits \<or> x = inf_bits \<longrightarrow> logf f x = x)
   \<and> (x AND mag_mask = 0 \<longrightarrow> logf f x = 0xff800000)
   \<and> (x AND mag_mask \<noteq> 0 \<and> x AND mag_mask \<le> inf_bits \<and> x AND sign_bit \<noteq> 0 \<longrightarrow> logf f x = 0x7fc00000)
   \<and> (x AND mag_mask > inf_bits \<longrightarrow> expf f x = x)
   \<and> (x = inf_bits \<longrightarrow> expf f x = inf_bits)"
proof (intro conjI)
  show "rcpf f x = (if x AND mag_mask > inf_bits then x
               else if x AND mag_mask = inf_bits then x AND sign_bit
               else if x AND mag_mask = 0 then (x AND sign_bit) OR inf_bits
               else rcp_step f x (rcp_step f x (rcp_step f x
                 ((x AND sign_bit) OR (0x7ef311c3 - (x AND mag_mask))))))"
    by (simp add: rcpf_def Let_def)
  show "sqrtf f x = (if x AND mag_mask > inf_bits then x
               else if x AND mag_mask = 0 then x
               else if x AND sign_bit \<noteq> 0 then 0x7fc00000
               else if x AND mag_mask = inf_bits then x
               else fp_mul f x (rsqrtf f x))"
    by (auto simp add: sqrtf_def Let_def)
  show "x AND mag_mask > inf_bits \<or> x = inf_bits \<longrightarrow> logf f x = x"
    by (auto simp add: logf_def Let_def split: prod.split)
  show "x AND mag_mask = 0 \<longrightarrow> logf f x = 0xff800000"
    by (auto simp add: logf_def Let_def split: prod.split)
  show "x AND mag_mask \<noteq> 0 \<and> x AND mag_mask \<le> inf_bits \<and> x AND sign_bit \<noteq> 0 \<longrightarrow> logf f x = 0x7fc00000"
    by (auto simp add: logf_def Let_def not_less split: prod.split)
  show "x AND mag_mask > inf_bits \<longrightarrow> expf f x = x"
    by (simp add: expf_def Let_def)
  show "x = inf_bits \<longrightarrow> expf f x = inf_bits"
    by (simp add: expf_def Let_def)
qed

section \<open>The order of floats\<close>

text \<open>
  The value of the bits of a float that is not a NaN, scaled by \<open>2 ^ 149\<close>, which makes it an
  integer; the infinities come out beyond every finite value.
\<close>

definition magnitude :: "nat \<Rightarrow> nat" where
  "magnitude m =
     (if m < 2 ^ 23 then m else (2 ^ 23 + m mod 2 ^ 23) * 2 ^ (m div 2 ^ 23 - 1))"

definition float_value :: "u32 \<Rightarrow> int" where
  "float_value x =
     (if bit x 31 then - int (magnitude (unat (x AND mag_mask))) else int (magnitude (unat (x AND mag_mask))))"

lemma magnitude_step: "magnitude m < magnitude (Suc m)"
proof -
  define e r where "e = m div 2 ^ 23" and "r = m mod 2 ^ 23"
  then have m: "m = e * 2 ^ 23 + r" and r: "r < 2 ^ 23" by simp_all
  show ?thesis
  proof (cases "Suc r < 2 ^ 23")
    case True
    have "Suc m div 2 ^ 23 = e" "Suc m mod 2 ^ 23 = Suc r"
      using True r unfolding m by (simp_all add: div_add1_eq [of "e * 2 ^ 23"] flip: add_Suc_right)
    moreover have "m < 2 ^ 23 \<longleftrightarrow> e = 0" using r unfolding m by (cases e) auto
    moreover have "Suc m < 2 ^ 23 \<longleftrightarrow> e = 0" using True unfolding m by (cases e) auto
    ultimately show ?thesis using e_def r_def by (simp add: magnitude_def)
  next
    case False
    then have r: "r = 2 ^ 23 - 1" using r by simp
    then have S: "Suc m = Suc e * 2 ^ 23" unfolding m by simp
    then have "Suc m div 2 ^ 23 = Suc e" "Suc m mod 2 ^ 23 = 0" by simp_all
    then have right: "magnitude (Suc m) = 2 ^ 23 * 2 ^ e" using S by (simp add: magnitude_def)
    show ?thesis
    proof (cases e)
      case 0
      then show ?thesis using right m r by (simp add: magnitude_def)
    next
      case (Suc e')
      then have "\<not> m < 2 ^ 23" unfolding m by simp
      then have "magnitude m = (2 ^ 23 + r) * 2 ^ e'" using e_def r_def Suc by (simp add: magnitude_def)
      then show ?thesis using right r Suc by simp
    qed
  qed
qed

lemma magnitude_less [simp]: "magnitude m < magnitude n \<longleftrightarrow> m < n"
proof -
  have "strict_mono magnitude" by (simp add: strict_mono_Suc_iff magnitude_step)
  then show ?thesis by (rule strict_mono_less)
qed

lemma magnitude_0 [simp]: "magnitude 0 = 0"
  by (simp add: magnitude_def)

abbreviation mag_of :: "u32 \<Rightarrow> nat" where "mag_of x \<equiv> unat (x AND mag_mask)"

lemma mag_mask_eq: "mag_mask = mask 31"
  by (simp add: mask_eq_exp_minus_1)

lemma sign_bit_eq: "sign_bit = push_bit 31 1"
  by simp

lemma bit_mag: "bit (x AND mag_mask) n \<longleftrightarrow> bit x n \<and> n < 31"
  unfolding mag_mask_eq by (auto simp: bit_and_iff bit_mask_iff)

lemma bit_sign: "bit sign_bit n \<longleftrightarrow> n = 31"
  unfolding sign_bit_eq by (simp only: bit_push_bit_iff bit_1_iff) auto

lemma mag_of_less: "mag_of x < 2 ^ 31"
proof -
  have "x AND mag_mask = take_bit 31 x" unfolding mag_mask_eq by (simp add: take_bit_eq_mask)
  moreover have "unat (take_bit 31 x) = take_bit 31 (unat x)" by (simp add: unsigned_take_bit_eq)
  ultimately show ?thesis by (simp add: take_bit_eq_mod)
qed

lemma sint_small: assumes "unat (y :: u32) < 2 ^ 31" shows "sint y = int (unat y)"
proof -
  have "int (unat y) < int (2 ^ 31)" using assms by (simp only: of_nat_less_iff)
  then have u: "uint y < 2 ^ 31" by simp
  have "- (2 ^ 31) \<le> (0 :: int)" by simp
  also have "0 \<le> uint y" by simp
  finally have l: "- (2 ^ 31) \<le> uint y" .
  have "sint y = signed_take_bit 31 (uint y)" by (simp add: sint_uint)
  also have "\<dots> = uint y" using l u by (rule signed_take_bit_int_eq_self)
  also have "\<dots> = int (unat y)" by simp
  finally show ?thesis .
qed

lemma order_key_bits: "NOT (x :: u32) OR sign_bit = NOT (x AND mag_mask)"
  by (rule bit_word_eqI) (simp only: bit_or_iff bit_not_iff bit_mag bit_sign, auto)

lemma sint_complement: "sint (NOT (y :: u32)) = - 1 - sint y"
proof -
  have "sint (NOT y) = NOT (sint y)"
    by (rule bit_eqI) (simp add: bit_signed_iff bit_not_iff min_def)
  then show ?thesis by (simp add: not_int_def)
qed

lemma positive_bits: "\<not> bit x 31 \<Longrightarrow> x AND mag_mask = x"
  by (rule bit_word_eqI) (auto simp: bit_mag less_Suc_eq numeral_eq_Suc)

lemma sign_bit_test: "x AND sign_bit \<noteq> 0 \<longleftrightarrow> bit (x :: u32) 31"
  unfolding sign_bit_eq by (simp only: bit_iff_and_push_bit_not_eq_0)

text \<open>The key: the magnitude, or its complement for a negative float.\<close>

lemma order_key: "minigpu_float_order_key x = (if bit x 31 then - 1 - int (mag_of x) else int (mag_of x))"
  using sint_small [OF mag_of_less [of x]] positive_bits [of x]
  by (simp only: minigpu_float_order_key_def sign_bit_test order_key_bits sint_complement split: if_split) auto

lemma float_lt_iff:
  "minigpu_float_lt a b \<longleftrightarrow> float_value a < float_value b \<or> a = sign_bit \<and> b = 0"
proof -
  have zero: "x = 0 \<longleftrightarrow> \<not> bit x 31 \<and> mag_of x = 0" for x :: u32
    using positive_bits [of x] by (auto simp: unat_eq_0)
  have neg_zero: "x = sign_bit \<longleftrightarrow> bit x 31 \<and> mag_of x = 0" for x :: u32
  proof
    assume r: "bit x 31 \<and> mag_of x = 0"
    show "x = sign_bit"
    proof (rule bit_word_eqI)
      fix n assume "n < LENGTH(32)"
      moreover have "\<not> (bit x n \<and> n < 31)"
        using r bit_mag [of x n] by (simp only: unat_eq_0) simp
      ultimately show "bit x n \<longleftrightarrow> bit sign_bit n" using r by (auto simp only: bit_sign) (simp add: less_Suc_eq)
    qed
  next
    assume "x = sign_bit"
    then show "bit x 31 \<and> mag_of x = 0" by (simp only: bit_sign) simp
  qed
  have "- int (magnitude m) < int (magnitude n) \<longleftrightarrow> 0 < m \<or> 0 < n" for m n
    using magnitude_less [of 0 m] magnitude_less [of 0 n] by auto
  moreover have "\<not> int (magnitude m) < - int (magnitude n)" for m n by simp
  ultimately have "(if p then - 1 - int m else int m) < (if q then - 1 - int n else int n) \<longleftrightarrow>
      (if p then - int (magnitude m) else int (magnitude m)) < (if q then - int (magnitude n) else int (magnitude n))
      \<or> (p \<and> m = 0) \<and> \<not> q \<and> n = 0" for p q m n
    by auto
  then show ?thesis
    unfolding minigpu_float_lt_def order_key float_value_def zero neg_zero .
qed

text \<open>
  The library's comparison is the order of the float values, except that it puts the negative
  zero below the positive one.
\<close>

theorem float_lt_spec:
  "minigpu_float_lt a b \<longleftrightarrow> float_value a < float_value b \<or> a = sign_bit \<and> b = 0"
  by (rule float_lt_iff)

text \<open>
  Rounding the negative zero down gives minus one. On a float unit that converts the negative
  zero to the integer zero and zero to the positive zero, as any does, \<open>floorf\<close> takes the positive
  zero to be above the negative one and subtracts one.
\<close>

theorem floor_of_negative_zero:
  assumes "fp_to_int f sign_bit = 0" and "fp_of_int f 0 = 0"
  shows "floorf f sign_bit = fp_of_int f (- 1)"
proof -
  have "minigpu_float_gt 0 sign_bit"
    using float_lt_iff [of sign_bit 0] by (simp add: minigpu_float_gt_def minigpu_float_lt_def)
  then show ?thesis using assms by (simp add: floorf_def)
qed

text \<open>
  Clamping. When the lower bound is not above the upper one, the result is one of the three
  arguments, not below the lower and not above the upper bound, and the argument itself when that lies
  between them.
\<close>

theorem clampf_spec:
  assumes "\<not> minigpu_float_gt lo hi"
  shows "\<not> minigpu_float_lt (clampf x lo hi) lo \<and> \<not> minigpu_float_gt (clampf x lo hi) hi
    \<and> clampf x lo hi \<in> {x, lo, hi}
    \<and> (\<not> minigpu_float_lt x lo \<and> \<not> minigpu_float_gt x hi \<longrightarrow> clampf x lo hi = x)"
  using assms by (auto simp: clampf_def minigpu_float_lt_def minigpu_float_gt_def Let_def)

section \<open>A small float unit\<close>

text \<open>A float unit that is right on minus one, zero and one.\<close>

definition tiny_fpu :: fpu where
  "tiny_fpu =
     \<lparr>fp_add = (\<lambda>a b. if a AND mag_mask = 0 then b else a), fp_sub = (\<lambda>a b. if b AND mag_mask = 0 then a else 0),
      fp_mul = (\<lambda>a b. if a = 0x3f800000 then b else if b = 0x3f800000 then a else 0),
      fp_lt = minigpu_float_lt, fp_le = (\<lambda>a b. \<not> minigpu_float_gt a b),
      fp_gt = minigpu_float_gt, fp_ge = (\<lambda>a b. \<not> minigpu_float_lt a b),
      fp_to_int = (\<lambda>x. if x AND mag_mask < 0x3f800000 then 0 else if x AND sign_bit \<noteq> 0 then - 1 else 1),
      fp_of_int = (\<lambda>i. if i = 0 then 0 else if i = 1 then 0x3f800000 else 0xbf800000)\<rparr>"

lemma special_values_witness:
  "rcpf tiny_fpu sign_bit = 0xff800000 \<and> logf tiny_fpu 0 = 0xff800000 \<and> logf tiny_fpu 0xbf800000 = 0x7fc00000
     \<and> expf tiny_fpu inf_bits = inf_bits \<and> sqrtf tiny_fpu 0xff800000 = 0x7fc00000"
  using special_values [of tiny_fpu sign_bit] special_values [of tiny_fpu 0] special_values [of tiny_fpu "0xbf800000"]
    special_values [of tiny_fpu inf_bits] special_values [of tiny_fpu "0xff800000"]
  by simp

lemma floor_of_negative_zero_witness: "floorf tiny_fpu sign_bit = 0xbf800000"
  using floor_of_negative_zero [of tiny_fpu] by (simp add: tiny_fpu_def)

lemma clampf_spec_witness:
  "\<not> minigpu_float_gt 0 0x3f800000 \<and> clampf 0x40000000 0 0x3f800000 \<in> {0x40000000, 0, 0x3f800000}
     \<and> \<not> minigpu_float_gt (clampf 0x40000000 0 0x3f800000) 0x3f800000"
proof -
  have "\<not> minigpu_float_gt 0 0x3f800000"
    by (simp add: minigpu_float_gt_def minigpu_float_order_key_def sint_uint signed_take_bit_int_eq_self)
  from clampf_spec [OF this, of "0x40000000"] this show ?thesis by simp
qed

end
