(* ===== verification/DeviceKernels.thy ===== *)
theory DeviceKernels
  imports DeviceLanes DeviceMath
begin

text \<open>
  The device kernels of \<open>runtime/kernels/src/*.cu\<close> and the routines they share
  (\<open>runtime/kernels/include/minigpu_linalg.h\<close>). A pointer is a word address, a kernel is what one lane
  does, given the number of lanes and its own number. The element type of a template is the parameter
  record \<open>arith\<close>; \<open>fp32_arith\<close> and \<open>i32_arith\<close> are its instances on whole words, which are all that
  the templates are compiled for but \<open>vector_add\<close>, \<open>mul\<close> and \<open>relu\<close>. These three are also compiled for
  the narrower types i16, i8, fp16 and fp8, whose elements are not words; they are not instances here.
\<close>

record 'v arith =
  ar_zero :: 'v
  ar_add :: "'v \<Rightarrow> 'v \<Rightarrow> 'v"
  ar_mul :: "'v \<Rightarrow> 'v \<Rightarrow> 'v"
  ar_less :: "'v \<Rightarrow> 'v \<Rightarrow> bool"

definition fp32_arith :: "fpu \<Rightarrow> u32 arith" where
  "fp32_arith f = \<lparr>ar_zero = 0, ar_add = fp_add f, ar_mul = fp_mul f, ar_less = fp_lt f\<rparr>"

definition i32_arith :: "u32 arith" where
  "i32_arith = \<lparr>ar_zero = 0, ar_add = (+), ar_mul = (*), ar_less = (\<lambda>x y. sint x < sint y)\<rparr>"

section \<open>Shared routines\<close>

definition minigpu_scal_value :: "'v arith \<Rightarrow> 'v \<Rightarrow> 'v \<Rightarrow> 'v" where
  "minigpu_scal_value ar alpha x = ar_mul ar alpha x"

definition minigpu_axpy_value :: "'v arith \<Rightarrow> 'v \<Rightarrow> 'v \<Rightarrow> 'v \<Rightarrow> 'v" where
  "minigpu_axpy_value ar alpha x y = ar_add ar (ar_mul ar alpha x) y"

definition minigpu_dot_strided ::
    "'v arith \<Rightarrow> 'v words \<Rightarrow> int \<Rightarrow> int \<Rightarrow> int \<Rightarrow> int \<Rightarrow> int \<Rightarrow> int \<Rightarrow> int \<Rightarrow> 'v" where
  "minigpu_dot_strided ar mem a a_offset a_stride b b_offset b_stride n =
     for_range 0 n (\<lambda>i sum. ar_add ar sum (ar_mul ar (mem (a + (a_offset + i * a_stride)))
                                                     (mem (b + (b_offset + i * b_stride)))))
       (ar_zero ar)"

definition minigpu_gemv_element :: "'v arith \<Rightarrow> 'v words \<Rightarrow> int \<Rightarrow> int \<Rightarrow> int \<Rightarrow> int \<Rightarrow> 'v" where
  "minigpu_gemv_element ar mem a x row n = minigpu_dot_strided ar mem a (row * n) 1 x 0 1 n"

definition minigpu_gemm_element :: "'v arith \<Rightarrow> 'v words \<Rightarrow> int \<Rightarrow> int \<Rightarrow> int \<Rightarrow> int \<Rightarrow> int \<Rightarrow> int \<Rightarrow> 'v" where
  "minigpu_gemm_element ar mem a b row col n k = minigpu_dot_strided ar mem a (row * k) 1 b col n k"

definition minigpu_addmm_element ::
    "'v arith \<Rightarrow> 'v words \<Rightarrow> int \<Rightarrow> int \<Rightarrow> int \<Rightarrow> 'v \<Rightarrow> 'v \<Rightarrow> int \<Rightarrow> int \<Rightarrow> int \<Rightarrow> int \<Rightarrow> 'v" where
  "minigpu_addmm_element ar mem self a b beta alpha row col n k =
     ar_add ar (ar_mul ar beta (mem (self + (row * n + col))))
       (ar_mul ar alpha (minigpu_gemm_element ar mem a b row col n k))"

definition minigpu_linear_element ::
    "'v arith \<Rightarrow> 'v words \<Rightarrow> int \<Rightarrow> int \<Rightarrow> int \<Rightarrow> int \<Rightarrow> int \<Rightarrow> int \<Rightarrow> 'v" where
  "minigpu_linear_element ar mem input weight row col out_features in_features =
     minigpu_dot_strided ar mem input (row * in_features) 1 weight (col * in_features) 1 in_features"

definition minigpu_conv1d_element ::
    "'v arith \<Rightarrow> 'v words \<Rightarrow> int \<Rightarrow> int \<Rightarrow> 'v \<Rightarrow> int \<Rightarrow> int \<Rightarrow> int \<Rightarrow> int \<Rightarrow> int \<Rightarrow> int \<Rightarrow> int \<Rightarrow> int \<Rightarrow> 'v" where
  "minigpu_conv1d_element ar mem input weight bias n oc ow in_channels input_width kernel_width stride padding =
     for_range 0 in_channels (\<lambda>ic sum.
       for_range 0 kernel_width (\<lambda>kw sum.
         let iw = ow * stride + kw - padding;
             input_idx = n * in_channels * input_width + ic * input_width + iw;
             weight_idx = oc * in_channels * kernel_width + ic * kernel_width + kw
         in ar_add ar sum (ar_mul ar (mem (input + input_idx)) (mem (weight + weight_idx)))) sum)
       bias"

definition minigpu_conv2d_element ::
    "'v arith \<Rightarrow> 'v words \<Rightarrow> int \<Rightarrow> int \<Rightarrow> 'v \<Rightarrow> int \<Rightarrow> int \<Rightarrow> int \<Rightarrow> int \<Rightarrow> int \<Rightarrow> int \<Rightarrow> int \<Rightarrow> int \<Rightarrow> int
       \<Rightarrow> int \<Rightarrow> int \<Rightarrow> int \<Rightarrow> int \<Rightarrow> 'v" where
  "minigpu_conv2d_element ar mem input weight bias n oc oy ox in_channels input_height input_width
     kernel_height kernel_width stride_h stride_w padding_h padding_w =
     for_range 0 in_channels (\<lambda>ic sum.
       for_range 0 kernel_height (\<lambda>ky sum.
         for_range 0 kernel_width (\<lambda>kx sum.
           let iy = oy * stride_h + ky - padding_h;
               ix = ox * stride_w + kx - padding_w;
               input_idx = n * in_channels * input_height * input_width
                 + ic * input_height * input_width + iy * input_width + ix;
               weight_idx = oc * in_channels * kernel_height * kernel_width
                 + ic * kernel_height * kernel_width + ky * kernel_width + kx
           in ar_add ar sum (ar_mul ar (mem (input + input_idx)) (mem (weight + weight_idx)))) sum) sum)
       bias"

section \<open>Elementwise kernels\<close>

text \<open>The two shapes of an elementwise kernel: one operand, and two.\<close>

definition map_element :: "('v \<Rightarrow> 'v) \<Rightarrow> int \<Rightarrow> int \<Rightarrow> 'v element" where
  "map_element g a out i mem = Some (mem(out + i := g (mem (a + i))))"

definition map2_element :: "('v \<Rightarrow> 'v \<Rightarrow> 'v) \<Rightarrow> int \<Rightarrow> int \<Rightarrow> int \<Rightarrow> 'v element" where
  "map2_element g a b out i mem = Some (mem(out + i := g (mem (a + i)) (mem (b + i))))"

definition vector_add_kernel :: "'v arith \<Rightarrow> int \<Rightarrow> int \<Rightarrow> int \<Rightarrow> int \<Rightarrow> 'v lane" where
  "vector_add_kernel ar a b out n = over_elements n (map2_element (ar_add ar) a b out)"

definition mul_kernel :: "'v arith \<Rightarrow> int \<Rightarrow> int \<Rightarrow> int \<Rightarrow> int \<Rightarrow> 'v lane" where
  "mul_kernel ar a b out n = over_elements n (map2_element (ar_mul ar) a b out)"

definition relu_kernel :: "'v arith \<Rightarrow> int \<Rightarrow> int \<Rightarrow> int \<Rightarrow> 'v lane" where
  "relu_kernel ar a out n =
     over_elements n (map_element (\<lambda>v. if ar_less ar v (ar_zero ar) then ar_zero ar else v) a out)"

definition exp_fp32 :: "fpu \<Rightarrow> int \<Rightarrow> int \<Rightarrow> int \<Rightarrow> u32 lane" where
  "exp_fp32 f a out n = over_elements n (map_element (expf f) a out)"

definition sigmoid_fp32 :: "fpu \<Rightarrow> int \<Rightarrow> int \<Rightarrow> int \<Rightarrow> u32 lane" where
  "sigmoid_fp32 f a out n = over_elements n (map_element (sigmoidf f) a out)"

definition tanh_fp32 :: "fpu \<Rightarrow> int \<Rightarrow> int \<Rightarrow> int \<Rightarrow> u32 lane" where
  "tanh_fp32 f a out n = over_elements n (map_element (tanhf f) a out)"

definition relu_backward_fp32 :: "fpu \<Rightarrow> int \<Rightarrow> int \<Rightarrow> int \<Rightarrow> u32 \<Rightarrow> int \<Rightarrow> u32 lane" where
  "relu_backward_fp32 f grad_out self out threshold n =
     over_elements n (map2_element (\<lambda>g s. if fp_le f s threshold then 0 else g) grad_out self out)"

definition sigmoid_backward_fp32 :: "fpu \<Rightarrow> int \<Rightarrow> int \<Rightarrow> int \<Rightarrow> int \<Rightarrow> u32 lane" where
  "sigmoid_backward_fp32 f grad_out output out n =
     over_elements n (map2_element (\<lambda>g y. fp_mul f (fp_mul f g y) (fp_sub f 0x3f800000 y)) grad_out output out)"

definition tanh_backward_fp32 :: "fpu \<Rightarrow> int \<Rightarrow> int \<Rightarrow> int \<Rightarrow> int \<Rightarrow> u32 lane" where
  "tanh_backward_fp32 f grad_out output out n =
     over_elements n (map2_element (\<lambda>g y. fp_mul f g (fp_sub f 0x3f800000 (fp_mul f y y))) grad_out output out)"

definition reciprocal_fp32 :: "fpu \<Rightarrow> int \<Rightarrow> int \<Rightarrow> int \<Rightarrow> u32 lane" where
  "reciprocal_fp32 f a out n = over_elements n (map_element (rcpf f) a out)"

definition div_fp32 :: "fpu \<Rightarrow> int \<Rightarrow> int \<Rightarrow> int \<Rightarrow> int \<Rightarrow> u32 lane" where
  "div_fp32 f a b out n = over_elements n (map2_element (\<lambda>x y. fp_mul f x (rcpf f y)) a b out)"

definition sqrt_fp32 :: "fpu \<Rightarrow> int \<Rightarrow> int \<Rightarrow> int \<Rightarrow> u32 lane" where
  "sqrt_fp32 f a out n = over_elements n (map_element (sqrtf f) a out)"

definition log_fp32 :: "fpu \<Rightarrow> int \<Rightarrow> int \<Rightarrow> int \<Rightarrow> u32 lane" where
  "log_fp32 f a out n = over_elements n (map_element (logf f) a out)"

definition log2_fp32 :: "fpu \<Rightarrow> int \<Rightarrow> int \<Rightarrow> int \<Rightarrow> u32 lane" where
  "log2_fp32 f a out n = over_elements n (map_element (log2f f) a out)"

definition log10_fp32 :: "fpu \<Rightarrow> int \<Rightarrow> int \<Rightarrow> int \<Rightarrow> u32 lane" where
  "log10_fp32 f a out n = over_elements n (map_element (log10f f) a out)"

definition sin_fp32 :: "fpu \<Rightarrow> int \<Rightarrow> int \<Rightarrow> int \<Rightarrow> u32 lane" where
  "sin_fp32 f a out n = over_elements n (map_element (sinf f) a out)"

definition cos_fp32 :: "fpu \<Rightarrow> int \<Rightarrow> int \<Rightarrow> int \<Rightarrow> u32 lane" where
  "cos_fp32 f a out n = over_elements n (map_element (cosf f) a out)"

definition tan_fp32 :: "fpu \<Rightarrow> int \<Rightarrow> int \<Rightarrow> int \<Rightarrow> u32 lane" where
  "tan_fp32 f a out n = over_elements n (map_element (tanf f) a out)"

definition pow_fp32 :: "fpu \<Rightarrow> int \<Rightarrow> int \<Rightarrow> int \<Rightarrow> int \<Rightarrow> u32 lane" where
  "pow_fp32 f a b out n = over_elements n (map2_element (powf f) a b out)"

section \<open>Linear algebra\<close>

definition scal_fp32 :: "fpu \<Rightarrow> int \<Rightarrow> int \<Rightarrow> u32 \<Rightarrow> int \<Rightarrow> u32 lane" where
  "scal_fp32 f x out alpha n =
     over_elements n (map_element (minigpu_scal_value (fp32_arith f) alpha) x out)"

definition axpy_fp32 :: "fpu \<Rightarrow> int \<Rightarrow> int \<Rightarrow> int \<Rightarrow> u32 \<Rightarrow> int \<Rightarrow> u32 lane" where
  "axpy_fp32 f x y out alpha n =
     over_elements n (map2_element (minigpu_axpy_value (fp32_arith f) alpha) x y out)"

definition dot_kernel :: "'v arith \<Rightarrow> int \<Rightarrow> int \<Rightarrow> int \<Rightarrow> int \<Rightarrow> 'v lane" where
  "dot_kernel ar a b out n stride lane mem =
     Some (mem(out := for_range 0 n
       (\<lambda>i sum. ar_add ar sum (ar_mul ar (mem (a + i)) (mem (b + i)))) (ar_zero ar)))"

definition gemv_element :: "'v arith \<Rightarrow> int \<Rightarrow> int \<Rightarrow> int \<Rightarrow> int \<Rightarrow> 'v element" where
  "gemv_element ar a x out n row mem = Some (mem(out + row := minigpu_gemv_element ar mem a x row n))"

definition gemv_kernel :: "'v arith \<Rightarrow> int \<Rightarrow> int \<Rightarrow> int \<Rightarrow> int \<Rightarrow> int \<Rightarrow> 'v lane" where
  "gemv_kernel ar a x out m n = over_elements m (gemv_element ar a x out n)"

definition addmm_element :: "fpu \<Rightarrow> int \<Rightarrow> int \<Rightarrow> int \<Rightarrow> int \<Rightarrow> u32 \<Rightarrow> u32 \<Rightarrow> int \<Rightarrow> int \<Rightarrow> u32 element" where
  "addmm_element f self a b out beta alpha n k idx mem =
     Option.bind (cdiv idx n) (\<lambda>row.
       let col = idx - row * n
       in Some (mem(out + idx := minigpu_addmm_element (fp32_arith f) mem self a b beta alpha row col n k)))"

definition addmm_fp32 ::
    "fpu \<Rightarrow> int \<Rightarrow> int \<Rightarrow> int \<Rightarrow> int \<Rightarrow> u32 \<Rightarrow> u32 \<Rightarrow> int \<Rightarrow> int \<Rightarrow> int \<Rightarrow> u32 lane" where
  "addmm_fp32 f self a b out beta alpha m n k =
     over_elements (m * n) (addmm_element f self a b out beta alpha n k)"

definition matmul_element :: "'v arith \<Rightarrow> int \<Rightarrow> int \<Rightarrow> int \<Rightarrow> int \<Rightarrow> int \<Rightarrow> 'v element" where
  "matmul_element ar a b out n k idx mem =
     Option.bind (cdiv idx n) (\<lambda>row.
       let col = idx - row * n
       in Some (mem(out + idx := minigpu_gemm_element ar mem a b row col n k)))"

definition matmul_kernel :: "'v arith \<Rightarrow> int \<Rightarrow> int \<Rightarrow> int \<Rightarrow> int \<Rightarrow> int \<Rightarrow> int \<Rightarrow> 'v lane" where
  "matmul_kernel ar a b out m n k = over_elements (m * n) (matmul_element ar a b out n k)"

definition linear_element :: "'v arith \<Rightarrow> int \<Rightarrow> int \<Rightarrow> int \<Rightarrow> int \<Rightarrow> int \<Rightarrow> 'v element" where
  "linear_element ar input weight out out_features in_features idx mem =
     Option.bind (cdiv idx out_features) (\<lambda>row.
       let col = idx - row * out_features
       in Some (mem(out + idx :=
            minigpu_linear_element ar mem input weight row col out_features in_features)))"

definition linear_kernel :: "'v arith \<Rightarrow> int \<Rightarrow> int \<Rightarrow> int \<Rightarrow> int \<Rightarrow> int \<Rightarrow> int \<Rightarrow> 'v lane" where
  "linear_kernel ar input weight out total_count out_features in_features =
     over_elements total_count (linear_element ar input weight out out_features in_features)"

definition linear_bias_element :: "'v arith \<Rightarrow> int \<Rightarrow> int \<Rightarrow> int \<Rightarrow> int \<Rightarrow> int \<Rightarrow> int \<Rightarrow> 'v element" where
  "linear_bias_element ar input weight bias out out_features in_features idx mem =
     Option.bind (cdiv idx out_features) (\<lambda>row.
       let col = idx - row * out_features
       in Some (mem(out + idx := ar_add ar (mem (bias + col))
            (minigpu_linear_element ar mem input weight row col out_features in_features))))"

definition linear_bias_kernel ::
    "'v arith \<Rightarrow> int \<Rightarrow> int \<Rightarrow> int \<Rightarrow> int \<Rightarrow> int \<Rightarrow> int \<Rightarrow> int \<Rightarrow> 'v lane" where
  "linear_bias_kernel ar input weight bias out total_count out_features in_features =
     over_elements total_count (linear_bias_element ar input weight bias out out_features in_features)"

definition linear_backward_input_element ::
    "'v arith \<Rightarrow> int \<Rightarrow> int \<Rightarrow> int \<Rightarrow> int \<Rightarrow> int \<Rightarrow> 'v element" where
  "linear_backward_input_element ar grad_out weight grad_input out_features in_features idx mem =
     Option.bind (cdiv idx in_features) (\<lambda>row.
       let in_col = idx - row * in_features;
           sum = for_range 0 out_features (\<lambda>out_col sum.
             ar_add ar sum (ar_mul ar (mem (grad_out + (row * out_features + out_col)))
                                      (mem (weight + (out_col * in_features + in_col))))) (ar_zero ar)
       in Some (mem(grad_input + idx := sum)))"

definition linear_backward_input_fp32 :: "fpu \<Rightarrow> int \<Rightarrow> int \<Rightarrow> int \<Rightarrow> int \<Rightarrow> int \<Rightarrow> int \<Rightarrow> u32 lane" where
  "linear_backward_input_fp32 f grad_out weight grad_input batch out_features in_features =
     over_elements (batch * in_features)
       (linear_backward_input_element (fp32_arith f) grad_out weight grad_input out_features in_features)"

definition linear_backward_weight_element ::
    "'v arith \<Rightarrow> int \<Rightarrow> int \<Rightarrow> int \<Rightarrow> int \<Rightarrow> int \<Rightarrow> int \<Rightarrow> 'v element" where
  "linear_backward_weight_element ar input grad_out grad_weight batch out_features in_features idx mem =
     Option.bind (cdiv idx in_features) (\<lambda>out_col.
       let in_col = idx - out_col * in_features;
           sum = for_range 0 batch (\<lambda>row sum.
             ar_add ar sum (ar_mul ar (mem (grad_out + (row * out_features + out_col)))
                                      (mem (input + (row * in_features + in_col))))) (ar_zero ar)
       in Some (mem(grad_weight + idx := sum)))"

definition linear_backward_weight_fp32 :: "fpu \<Rightarrow> int \<Rightarrow> int \<Rightarrow> int \<Rightarrow> int \<Rightarrow> int \<Rightarrow> int \<Rightarrow> u32 lane" where
  "linear_backward_weight_fp32 f input grad_out grad_weight batch out_features in_features =
     over_elements (out_features * in_features)
       (linear_backward_weight_element (fp32_arith f) input grad_out grad_weight batch out_features in_features)"

definition linear_backward_bias_element :: "'v arith \<Rightarrow> int \<Rightarrow> int \<Rightarrow> int \<Rightarrow> int \<Rightarrow> 'v element" where
  "linear_backward_bias_element ar grad_out grad_bias batch out_features out_col mem =
     Some (mem(grad_bias + out_col := for_range 0 batch
       (\<lambda>row sum. ar_add ar sum (mem (grad_out + (row * out_features + out_col)))) (ar_zero ar)))"

definition linear_backward_bias_fp32 :: "fpu \<Rightarrow> int \<Rightarrow> int \<Rightarrow> int \<Rightarrow> int \<Rightarrow> u32 lane" where
  "linear_backward_bias_fp32 f grad_out grad_bias batch out_features =
     over_elements out_features
       (linear_backward_bias_element (fp32_arith f) grad_out grad_bias batch out_features)"

section \<open>Exact arithmetic\<close>

text \<open>Arithmetic in a commutative ring; the 32-bit integers of the device are one.\<close>

definition ring_arith :: "('v \<Rightarrow> 'v \<Rightarrow> bool) \<Rightarrow> ('v :: comm_ring_1) arith" where
  "ring_arith lt = \<lparr>ar_zero = 0, ar_add = (+), ar_mul = (*), ar_less = lt\<rparr>"

lemma i32_ring: "i32_arith = ring_arith (\<lambda>x y. sint x < sint y)"
  by (simp add: i32_arith_def ring_arith_def)

lemma ring_arith_simps [simp]:
  "ar_zero (ring_arith lt) = 0" "ar_add (ring_arith lt) = (+)" "ar_mul (ring_arith lt) = (*)"
  by (simp_all add: ring_arith_def)

lemma dot_strided_ring:
  "minigpu_dot_strided (ring_arith lt) mem a ao as b bo bs n
    = (\<Sum>i \<in> {0..<n}. mem (a + (ao + i * as)) * mem (b + (bo + i * bs)))"
  by (simp add: minigpu_dot_strided_def for_range_sum)

lemma dot_strided_cong:
  assumes "\<And>i. \<lbrakk>0 \<le> i; i < n\<rbrakk> \<Longrightarrow> mem (a + (ao + i * as)) = mem0 (a + (ao + i * as))"
    and "\<And>i. \<lbrakk>0 \<le> i; i < n\<rbrakk> \<Longrightarrow> mem (b + (bo + i * bs)) = mem0 (b + (bo + i * bs))"
  shows "minigpu_dot_strided ar mem a ao as b bo bs n = minigpu_dot_strided ar mem0 a ao as b bo bs n"
  unfolding minigpu_dot_strided_def using assms by (intro for_range_cong) simp

section \<open>Elementwise kernels on any schedule\<close>

text \<open>An operand of an elementwise kernel lies apart from the result or is the result itself.\<close>

definition apart_or_same :: "int \<Rightarrow> int \<Rightarrow> int \<Rightarrow> bool" where
  "apart_or_same a out n \<longleftrightarrow> a = out \<or> disjoint_ranges a n out n"

lemma apart_or_same_free:
  assumes "apart_or_same a out n" and "0 \<le> i" and "i < n" and "0 \<le> j" and "j < n" and "j \<noteq> i"
  shows "a + i \<noteq> out + j"
  using assms by (auto simp: apart_or_same_def disjoint_ranges_def)

lemma apart_read:
  assumes "apart_or_same a out n" and "0 \<le> i" and "i < n"
    and "\<And>x. (\<And>j. \<lbrakk>0 \<le> j; j < n; j \<noteq> i\<rbrakk> \<Longrightarrow> x \<noteq> out + j) \<Longrightarrow> mem x = mem0 x"
  shows "mem (a + i) = mem0 (a + i)"
  using assms(4) [of "a + i"] apart_or_same_free [OF assms(1-3)] by blast

interpretation ew1: lane_kernel
  "\<lambda>(g, a, out, n). map_element g a out"
  "\<lambda>(g, a, out, n) mem i. g (mem (a + i))"
  "\<lambda>(g, a, out, n). out" "\<lambda>(g, a, out, n). n" "\<lambda>(g, a, out, n). apart_or_same a out n"
proof (unfold_locales, clarify)
  fix g a out n i and mem mem0 :: "int \<Rightarrow> 'a"
  assume range: "0 \<le> i" "i < n" and a: "apart_or_same a out n"
    and same: "\<And>x. (\<And>j. \<lbrakk>0 \<le> j; j < n; j \<noteq> i\<rbrakk> \<Longrightarrow> x \<noteq> out + j) \<Longrightarrow> mem x = mem0 x"
  have "mem (a + i) = mem0 (a + i)" by (rule apart_read [OF a range]) (rule same)
  then show "map_element g a out i mem = Some (mem(out + i := g (mem0 (a + i))))"
    by (simp add: map_element_def)
qed

interpretation ew2: lane_kernel
  "\<lambda>(g, a, b, out, n). map2_element g a b out"
  "\<lambda>(g, a, b, out, n) mem i. g (mem (a + i)) (mem (b + i))"
  "\<lambda>(g, a, b, out, n). out" "\<lambda>(g, a, b, out, n). n"
  "\<lambda>(g, a, b, out, n). apart_or_same a out n \<and> apart_or_same b out n"
proof (unfold_locales, clarify)
  fix g a b out n i and mem mem0 :: "int \<Rightarrow> 'a"
  assume range: "0 \<le> i" "i < n" and ab: "apart_or_same a out n" "apart_or_same b out n"
    and same: "\<And>x. (\<And>j. \<lbrakk>0 \<le> j; j < n; j \<noteq> i\<rbrakk> \<Longrightarrow> x \<noteq> out + j) \<Longrightarrow> mem x = mem0 x"
  have "mem (a + i) = mem0 (a + i)" by (rule apart_read [OF ab(1) range]) (rule same)
  moreover have "mem (b + i) = mem0 (b + i)" by (rule apart_read [OF ab(2) range]) (rule same)
  ultimately show "map2_element g a b out i mem = Some (mem(out + i := g (mem0 (a + i)) (mem0 (b + i))))"
    by (simp add: map2_element_def)
qed

text \<open>The words of a result whose index is handled by an active lane.\<close>

definition handled :: "int list \<Rightarrow> int \<Rightarrow> int \<Rightarrow> int \<Rightarrow> int \<Rightarrow> bool" where
  "handled ts stride out n x \<longleftrightarrow> out \<le> x \<and> x < out + n \<and> (x - out) mod stride \<in> set ts"

lemma run_map_element:
  assumes "distinct ts" and "set ts \<subseteq> {0..<stride}" and "apart_or_same a out n"
  shows "run_block (over_elements n (map_element g a out)) stride ts mem
    = Some (\<lambda>x. if handled ts stride out n x then g (mem (a + (x - out))) else mem x)"
  using ew1.run_lanes_result [of ts stride "(g, a, out, n)" mem] assms
  by (simp add: run_block_over_elements ew1.block_result_def handled_def fun_eq_iff)

lemma run_map2_element:
  assumes "distinct ts" and "set ts \<subseteq> {0..<stride}" and "apart_or_same a out n" and "apart_or_same b out n"
  shows "run_block (over_elements n (map2_element g a b out)) stride ts mem
    = Some (\<lambda>x. if handled ts stride out n x then g (mem (a + (x - out))) (mem (b + (x - out))) else mem x)"
  using ew2.run_lanes_result [of ts stride "(g, a, b, out, n)" mem] assms
  by (simp add: run_block_over_elements ew2.block_result_def handled_def fun_eq_iff)

section \<open>Matrix products on any schedule\<close>

lemma index2_bound:
  assumes "0 \<le> r" and "r < m" and "0 \<le> c" and "c < (n :: int)"
  shows "0 \<le> r * n + c \<and> r * n + c < m * n"
proof -
  have "r * n + c < (r + 1) * n" using assms by (simp add: distrib_right)
  also have "\<dots> \<le> m * n" using assms by (intro mult_right_mono) auto
  finally show ?thesis using assms by simp
qed

lemma index2_split:
  assumes "0 \<le> idx" and "idx < m * n" and "0 < (n :: int)"
  shows "0 \<le> idx div n" "idx div n < m" "0 \<le> idx mod n" "idx mod n < n"
proof -
  have "idx div n * n \<le> idx" using assms(3) div_mult_mod_eq [of idx n] pos_mod_sign [of n idx] by linarith
  then show "idx div n < m" using assms mult_right_mono [of m "idx div n" n] by linarith
qed (use assms in \<open>simp_all add: pos_imp_zdiv_nonneg_iff\<close>)

lemma row_rest: "idx - idx div n * n = idx mod (n :: int)"
  by (simp add: minus_div_mult_eq_mod)

text \<open>A window that lies inside the row.\<close>

lemma window_inside:
  assumes "(ows - 1) * stride + kw \<le> iw" and "0 \<le> (stride :: int)"
    and "0 \<le> ow" and "ow < ows" and "0 \<le> k" and "k < kw"
  shows "0 \<le> ow * stride + k \<and> ow * stride + k < iw"
proof -
  have "ow * stride \<le> (ows - 1) * stride" using assms(2,4) by (intro mult_right_mono) auto
  moreover have "0 \<le> ow * stride" using assms(2,3) by simp
  ultimately show ?thesis using assms by linarith
qed

text \<open>The words \<open>a\<close>, ..., \<open>a + n - 1\<close>.\<close>

definition span_of :: "int \<Rightarrow> int \<Rightarrow> int set" where
  "span_of a n = {a..<a + n}"

lemma span_of_index: "\<lbrakk>0 \<le> q; q < n\<rbrakk> \<Longrightarrow> a + q \<in> span_of a n"
  by (simp add: span_of_def)

lemma span_of_index2:
  assumes "0 \<le> r" and "r < m" and "0 \<le> c" and "c < n"
  shows "a + (r * n + c) \<in> span_of a (m * n)" "a + (c + r * n) \<in> span_of a (m * n)"
  using index2_bound [OF assms] by (simp_all add: span_of_def add.commute)

lemma disjoint_span:
  "\<lbrakk>disjoint_ranges a n out m; x \<in> span_of a n; 0 \<le> j; j < m\<rbrakk> \<Longrightarrow> x \<noteq> out + j"
  by (auto simp: disjoint_ranges_def span_of_def)

definition matmul_value :: "'v arith \<Rightarrow> 'v words \<Rightarrow> int \<Rightarrow> int \<Rightarrow> int \<Rightarrow> int \<Rightarrow> int \<Rightarrow> 'v" where
  "matmul_value ar mem a b n k idx = minigpu_gemm_element ar mem a b (idx div n) (idx mod n) n k"

interpretation mm: reading_kernel
  "\<lambda>(ar, a, b, out, m, n, k). matmul_element ar a b out n k"
  "\<lambda>(ar, a, b, out, m, n, k) mem. matmul_value ar mem a b n k"
  "\<lambda>(ar, a, b, out, m, n, k). out" "\<lambda>(ar, a, b, out, m, n, k). m * n"
  "\<lambda>(ar, a, b, out, m, n, k).
     0 < n \<and> disjoint_ranges a (m * k) out (m * n) \<and> disjoint_ranges b (k * n) out (m * n)"
  "\<lambda>(ar, a, b, out, m, n, k). span_of a (m * k) \<union> span_of b (k * n)"
proof (unfold_locales, goal_cases)
  case (1 p i mem)
  then show ?case
    by (auto simp: matmul_element_def matmul_value_def row_rest Let_def)
next
  case (2 p idx mem mem0)
  then obtain ar a b out m n k where p: "p = (ar, a, b, out, m, n, k)" by (cases p)
  have idx: "0 \<le> idx div n" "idx div n < m" "0 \<le> idx mod n" "idx mod n < n"
    using 2 index2_split [of idx m n] by (auto simp: p)
  have "matmul_value ar mem a b n k idx = matmul_value ar mem0 a b n k idx"
    unfolding matmul_value_def minigpu_gemm_element_def
    by (intro dot_strided_cong) (use 2(4) idx in \<open>auto simp: p intro!: span_of_index2\<close>)
  then show ?case by (simp add: p)
next
  case (3 p x j)
  then show ?case by (auto dest: disjoint_span)
qed

lemma matmul_value_ring:
  "matmul_value (ring_arith lt) mem a b n k idx
    = (\<Sum>i \<in> {0..<k}. mem (a + (idx div n * k + i)) * mem (b + (i * n + idx mod n)))"
  by (simp add: matmul_value_def minigpu_gemm_element_def dot_strided_ring ac_simps)

section \<open>Linear layers and their gradients\<close>

definition linear_value :: "'v arith \<Rightarrow> 'v words \<Rightarrow> int \<Rightarrow> int \<Rightarrow> int \<Rightarrow> int \<Rightarrow> int \<Rightarrow> 'v" where
  "linear_value ar mem input weight outs ins idx =
     minigpu_linear_element ar mem input weight (idx div outs) (idx mod outs) outs ins"

interpretation lin: reading_kernel
  "\<lambda>(ar, x, w, out, batch, outs, ins). linear_element ar x w out outs ins"
  "\<lambda>(ar, x, w, out, batch, outs, ins) mem. linear_value ar mem x w outs ins"
  "\<lambda>(ar, x, w, out, batch, outs, ins). out" "\<lambda>(ar, x, w, out, batch, outs, ins). batch * outs"
  "\<lambda>(ar, x, w, out, batch, outs, ins). 0 < outs \<and> disjoint_ranges x (batch * ins) out (batch * outs)
     \<and> disjoint_ranges w (outs * ins) out (batch * outs)"
  "\<lambda>(ar, x, w, out, batch, outs, ins). span_of x (batch * ins) \<union> span_of w (outs * ins)"
proof (unfold_locales, goal_cases)
  case (1 p i mem)
  then show ?case by (auto simp: linear_element_def linear_value_def row_rest Let_def)
next
  case (2 p idx mem mem0)
  then obtain ar x w out batch outs ins where p: "p = (ar, x, w, out, batch, outs, ins)" by (cases p)
  have idx: "0 \<le> idx div outs" "idx div outs < batch" "0 \<le> idx mod outs" "idx mod outs < outs"
    using 2 index2_split [of idx batch outs] by (auto simp: p)
  have "linear_value ar mem x w outs ins idx = linear_value ar mem0 x w outs ins idx"
    unfolding linear_value_def minigpu_linear_element_def
    by (intro dot_strided_cong) (use 2(4) idx in \<open>auto simp: p intro!: span_of_index2\<close>)
  then show ?case by (simp add: p)
next
  case (3 p x j)
  then show ?case by (auto dest: disjoint_span)
qed

definition linear_bias_value :: "'v arith \<Rightarrow> 'v words \<Rightarrow> int \<Rightarrow> int \<Rightarrow> int \<Rightarrow> int \<Rightarrow> int \<Rightarrow> int \<Rightarrow> 'v" where
  "linear_bias_value ar mem input weight bias outs ins idx =
     ar_add ar (mem (bias + idx mod outs)) (linear_value ar mem input weight outs ins idx)"

interpretation linb: reading_kernel
  "\<lambda>(ar, x, w, b, out, batch, outs, ins). linear_bias_element ar x w b out outs ins"
  "\<lambda>(ar, x, w, b, out, batch, outs, ins) mem. linear_bias_value ar mem x w b outs ins"
  "\<lambda>(ar, x, w, b, out, batch, outs, ins). out" "\<lambda>(ar, x, w, b, out, batch, outs, ins). batch * outs"
  "\<lambda>(ar, x, w, b, out, batch, outs, ins). 0 < outs \<and> disjoint_ranges x (batch * ins) out (batch * outs)
     \<and> disjoint_ranges w (outs * ins) out (batch * outs) \<and> disjoint_ranges b outs out (batch * outs)"
  "\<lambda>(ar, x, w, b, out, batch, outs, ins).
     span_of x (batch * ins) \<union> span_of w (outs * ins) \<union> span_of b outs"
proof (unfold_locales, goal_cases)
  case (1 p i mem)
  then show ?case
    by (auto simp: linear_bias_element_def linear_bias_value_def linear_value_def row_rest Let_def)
next
  case (2 p idx mem mem0)
  obtain ar x w b out batch outs ins where p: "p = (ar, x, w, b, out, batch, outs, ins)"
    by (metis surj_pair)
  have idx: "0 \<le> idx mod outs" "idx mod outs < outs"
    using 2 index2_split [of idx batch outs] by (auto simp: p)
  have "linear_value ar mem x w outs ins idx = linear_value ar mem0 x w outs ins idx"
    using lin.only_reads [of "(ar, x, w, out, batch, outs, ins)" idx mem mem0] 2 by (simp add: p)
  moreover have "mem (b + idx mod outs) = mem0 (b + idx mod outs)"
    using 2(4) span_of_index [OF idx] by (simp add: p)
  ultimately show ?case by (simp add: p linear_bias_value_def)
next
  case (3 p x j)
  then show ?case by (auto dest: disjoint_span)
qed

definition linear_backward_input_value ::
    "'v arith \<Rightarrow> 'v words \<Rightarrow> int \<Rightarrow> int \<Rightarrow> int \<Rightarrow> int \<Rightarrow> int \<Rightarrow> 'v" where
  "linear_backward_input_value ar mem g w outs ins idx =
     for_range 0 outs (\<lambda>oc sum. ar_add ar sum (ar_mul ar (mem (g + (idx div ins * outs + oc)))
       (mem (w + (oc * ins + idx mod ins))))) (ar_zero ar)"

interpretation linbi: reading_kernel
  "\<lambda>(ar, g, w, gi, batch, outs, ins). linear_backward_input_element ar g w gi outs ins"
  "\<lambda>(ar, g, w, gi, batch, outs, ins) mem. linear_backward_input_value ar mem g w outs ins"
  "\<lambda>(ar, g, w, gi, batch, outs, ins). gi" "\<lambda>(ar, g, w, gi, batch, outs, ins). batch * ins"
  "\<lambda>(ar, g, w, gi, batch, outs, ins). 0 < ins \<and> disjoint_ranges g (batch * outs) gi (batch * ins)
     \<and> disjoint_ranges w (outs * ins) gi (batch * ins)"
  "\<lambda>(ar, g, w, gi, batch, outs, ins). span_of g (batch * outs) \<union> span_of w (outs * ins)"
proof (unfold_locales, goal_cases)
  case (1 p i mem)
  then show ?case
    by (auto simp: linear_backward_input_element_def linear_backward_input_value_def row_rest Let_def)
next
  case (2 p idx mem mem0)
  then obtain ar g w gi batch outs ins where p: "p = (ar, g, w, gi, batch, outs, ins)" by (cases p)
  have idx: "0 \<le> idx div ins" "idx div ins < batch" "0 \<le> idx mod ins" "idx mod ins < ins"
    using 2 index2_split [of idx batch ins] by (auto simp: p)
  have "linear_backward_input_value ar mem g w outs ins idx = linear_backward_input_value ar mem0 g w outs ins idx"
    unfolding linear_backward_input_value_def
    by (intro for_range_cong) (use 2(4) idx in \<open>auto simp: p span_of_index2\<close>)
  then show ?case by (simp add: p)
next
  case (3 p x j)
  then show ?case by (auto dest: disjoint_span)
qed

definition linear_backward_weight_value ::
    "'v arith \<Rightarrow> 'v words \<Rightarrow> int \<Rightarrow> int \<Rightarrow> int \<Rightarrow> int \<Rightarrow> int \<Rightarrow> int \<Rightarrow> 'v" where
  "linear_backward_weight_value ar mem x g batch outs ins idx =
     for_range 0 batch (\<lambda>r sum. ar_add ar sum (ar_mul ar (mem (g + (r * outs + idx div ins)))
       (mem (x + (r * ins + idx mod ins))))) (ar_zero ar)"

interpretation linbw: reading_kernel
  "\<lambda>(ar, x, g, gw, batch, outs, ins). linear_backward_weight_element ar x g gw batch outs ins"
  "\<lambda>(ar, x, g, gw, batch, outs, ins) mem. linear_backward_weight_value ar mem x g batch outs ins"
  "\<lambda>(ar, x, g, gw, batch, outs, ins). gw" "\<lambda>(ar, x, g, gw, batch, outs, ins). outs * ins"
  "\<lambda>(ar, x, g, gw, batch, outs, ins). 0 < ins \<and> disjoint_ranges g (batch * outs) gw (outs * ins)
     \<and> disjoint_ranges x (batch * ins) gw (outs * ins)"
  "\<lambda>(ar, x, g, gw, batch, outs, ins). span_of g (batch * outs) \<union> span_of x (batch * ins)"
proof (unfold_locales, goal_cases)
  case (1 p i mem)
  then show ?case
    by (auto simp: linear_backward_weight_element_def linear_backward_weight_value_def row_rest Let_def)
next
  case (2 p idx mem mem0)
  then obtain ar x g gw batch outs ins where p: "p = (ar, x, g, gw, batch, outs, ins)" by (cases p)
  have idx: "0 \<le> idx div ins" "idx div ins < outs" "0 \<le> idx mod ins" "idx mod ins < ins"
    using 2 index2_split [of idx outs ins] by (auto simp: p)
  have "linear_backward_weight_value ar mem x g batch outs ins idx = linear_backward_weight_value ar mem0 x g batch outs ins idx"
    unfolding linear_backward_weight_value_def
    by (intro for_range_cong) (use 2(4) idx in \<open>auto simp: p span_of_index2\<close>)
  then show ?case by (simp add: p)
next
  case (3 p x j)
  then show ?case by (auto dest: disjoint_span)
qed

end
