(* ===== verification/DeviceConv.thy ===== *)
theory DeviceConv
  imports DeviceKernels
begin

text \<open>
  The convolution kernels of \<open>runtime/kernels/src/conv.cu\<close>: the forward kernels in one and two
  dimensions, with and without a bias, and the gradients by input, weight and bias. Where a kernel
  divides inside its reduction loop, the running sum is an option and a division by zero makes it
  \<open>None\<close>.
\<close>

section \<open>Forward kernels\<close>

definition conv1d_element ::
    "'v arith \<Rightarrow> int \<Rightarrow> int \<Rightarrow> int \<Rightarrow> int \<Rightarrow> int \<Rightarrow> int \<Rightarrow> int \<Rightarrow> int \<Rightarrow> int \<Rightarrow> int \<Rightarrow> 'v element" where
  "conv1d_element ar input weight out in_channels out_channels input_width output_width
     kernel_width stride padding idx mem =
     Option.bind (cdiv idx output_width) (\<lambda>tmp.
       let ow = idx - tmp * output_width
       in Option.bind (cdiv tmp out_channels) (\<lambda>tmp_n.
         let oc = tmp - tmp_n * out_channels; n = tmp_n
         in Some (mem(out + idx := minigpu_conv1d_element ar mem input weight (ar_zero ar) n oc ow
              in_channels input_width kernel_width stride padding))))"

definition conv1d_kernel ::
    "'v arith \<Rightarrow> int \<Rightarrow> int \<Rightarrow> int \<Rightarrow> int \<Rightarrow> int \<Rightarrow> int \<Rightarrow> int \<Rightarrow> int \<Rightarrow> int \<Rightarrow> int \<Rightarrow> int \<Rightarrow> int \<Rightarrow> 'v lane" where
  "conv1d_kernel ar input weight out total_count batch_size in_channels out_channels input_width
     output_width kernel_width stride padding =
     over_elements total_count (conv1d_element ar input weight out in_channels out_channels
       input_width output_width kernel_width stride padding)"

definition conv1d_bias_element ::
    "'v arith \<Rightarrow> int \<Rightarrow> int \<Rightarrow> int \<Rightarrow> int \<Rightarrow> int \<Rightarrow> int \<Rightarrow> int \<Rightarrow> int \<Rightarrow> int \<Rightarrow> int \<Rightarrow> int \<Rightarrow> 'v element" where
  "conv1d_bias_element ar input weight bias out in_channels out_channels input_width output_width
     kernel_width stride padding idx mem =
     Option.bind (cdiv idx output_width) (\<lambda>tmp.
       let ow = idx - tmp * output_width
       in Option.bind (cdiv tmp out_channels) (\<lambda>tmp_n.
         let oc = tmp - tmp_n * out_channels; n = tmp_n
         in Some (mem(out + idx := minigpu_conv1d_element ar mem input weight (mem (bias + oc)) n oc ow
              in_channels input_width kernel_width stride padding))))"

definition conv1d_bias_kernel ::
    "'v arith \<Rightarrow> int \<Rightarrow> int \<Rightarrow> int \<Rightarrow> int \<Rightarrow> int \<Rightarrow> int \<Rightarrow> int \<Rightarrow> int \<Rightarrow> int \<Rightarrow> int \<Rightarrow> int \<Rightarrow> int \<Rightarrow> int \<Rightarrow> 'v lane" where
  "conv1d_bias_kernel ar input weight bias out total_count batch_size in_channels out_channels input_width
     output_width kernel_width stride padding =
     over_elements total_count (conv1d_bias_element ar input weight bias out in_channels out_channels
       input_width output_width kernel_width stride padding)"

text \<open>The sizes of a two-dimensional convolution, in the order the kernels take them.\<close>

record conv2d_dims =
  d_in_channels :: int
  d_out_channels :: int
  d_input_height :: int
  d_input_width :: int
  d_output_height :: int
  d_output_width :: int
  d_kernel_height :: int
  d_kernel_width :: int
  d_stride_h :: int
  d_stride_w :: int
  d_padding_h :: int
  d_padding_w :: int

definition conv2d_output ::
    "'v arith \<Rightarrow> int \<Rightarrow> int \<Rightarrow> (int \<Rightarrow> 'v) \<Rightarrow> int \<Rightarrow> conv2d_dims \<Rightarrow> 'v element" where
  "conv2d_output ar input weight bias_of out d idx mem =
     Option.bind (cdiv idx (d_output_width d)) (\<lambda>tmp0.
       let ox = idx - tmp0 * d_output_width d
       in Option.bind (cdiv tmp0 (d_output_height d)) (\<lambda>tmp1.
         let oy = tmp0 - tmp1 * d_output_height d
         in Option.bind (cdiv tmp1 (d_out_channels d)) (\<lambda>n.
           let oc = tmp1 - n * d_out_channels d
           in Some (mem(out + idx := minigpu_conv2d_element ar mem input weight (bias_of oc) n oc oy ox
                (d_in_channels d) (d_input_height d) (d_input_width d) (d_kernel_height d) (d_kernel_width d)
                (d_stride_h d) (d_stride_w d) (d_padding_h d) (d_padding_w d))))))"

definition conv2d_kernel :: "'v arith \<Rightarrow> int \<Rightarrow> int \<Rightarrow> int \<Rightarrow> int \<Rightarrow> int \<Rightarrow> conv2d_dims \<Rightarrow> 'v lane" where
  "conv2d_kernel ar input weight out total_count batch_size d =
     over_elements total_count (\<lambda>idx mem. conv2d_output ar input weight (\<lambda>oc. ar_zero ar) out d idx mem)"

definition conv2d_bias_kernel ::
    "'v arith \<Rightarrow> int \<Rightarrow> int \<Rightarrow> int \<Rightarrow> int \<Rightarrow> int \<Rightarrow> int \<Rightarrow> conv2d_dims \<Rightarrow> 'v lane" where
  "conv2d_bias_kernel ar input weight bias out total_count batch_size d =
     over_elements total_count
       (\<lambda>idx mem. conv2d_output ar input weight (\<lambda>oc. mem (bias + oc)) out d idx mem)"

section \<open>Gradients in one dimension\<close>

definition conv1d_backward_input_term ::
    "'v arith \<Rightarrow> 'v words \<Rightarrow> int \<Rightarrow> int \<Rightarrow> int \<Rightarrow> int \<Rightarrow> int \<Rightarrow> int \<Rightarrow> int \<Rightarrow> int \<Rightarrow> int \<Rightarrow> int \<Rightarrow> int
       \<Rightarrow> int \<Rightarrow> 'v option \<Rightarrow> 'v option" where
  "conv1d_backward_input_term ar mem grad_out weight n ic iw in_channels out_channels output_width
     kernel_width stride padding ridx acc =
     Option.bind acc (\<lambda>sum.
     Option.bind (cmod ridx kernel_width) (\<lambda>kw.
     Option.bind (cdiv ridx kernel_width) (\<lambda>tmp_r0.
     Option.bind (cmod tmp_r0 output_width) (\<lambda>ow.
     Option.bind (cdiv tmp_r0 output_width) (\<lambda>oc.
       let source_iw = ow * stride + kw - padding;
           grad_idx = n * out_channels * output_width + oc * output_width + ow;
           weight_idx = oc * in_channels * kernel_width + ic * kernel_width + kw
       in Some (if source_iw = iw
                then ar_add ar sum (ar_mul ar (mem (grad_out + grad_idx)) (mem (weight + weight_idx)))
                else sum))))))"

definition conv1d_backward_input_element ::
    "'v arith \<Rightarrow> int \<Rightarrow> int \<Rightarrow> int \<Rightarrow> int \<Rightarrow> int \<Rightarrow> int \<Rightarrow> int \<Rightarrow> int \<Rightarrow> int \<Rightarrow> int \<Rightarrow> 'v element" where
  "conv1d_backward_input_element ar grad_out weight grad_input in_channels out_channels input_width
     output_width kernel_width stride padding idx mem =
     Option.bind (cmod idx input_width) (\<lambda>iw.
     Option.bind (cdiv idx input_width) (\<lambda>tmp.
     Option.bind (cmod tmp in_channels) (\<lambda>ic.
     Option.bind (cdiv tmp in_channels) (\<lambda>n.
     Option.bind (for_range 0 (out_channels * output_width * kernel_width)
         (conv1d_backward_input_term ar mem grad_out weight n ic iw in_channels out_channels
            output_width kernel_width stride padding) (Some (ar_zero ar)))
       (\<lambda>sum. Some (mem(grad_input + idx := sum)))))))"

definition conv1d_backward_input_fp32 ::
    "fpu \<Rightarrow> int \<Rightarrow> int \<Rightarrow> int \<Rightarrow> int \<Rightarrow> int \<Rightarrow> int \<Rightarrow> int \<Rightarrow> int \<Rightarrow> int \<Rightarrow> int \<Rightarrow> int \<Rightarrow> int \<Rightarrow> u32 lane" where
  "conv1d_backward_input_fp32 f grad_out weight grad_input total_count batch_size in_channels
     out_channels input_width output_width kernel_width stride padding =
     over_elements total_count (conv1d_backward_input_element (fp32_arith f) grad_out weight grad_input
       in_channels out_channels input_width output_width kernel_width stride padding)"

definition conv1d_backward_weight_term ::
    "'v arith \<Rightarrow> 'v words \<Rightarrow> int \<Rightarrow> int \<Rightarrow> int \<Rightarrow> int \<Rightarrow> int \<Rightarrow> int \<Rightarrow> int \<Rightarrow> int \<Rightarrow> int \<Rightarrow> int \<Rightarrow> int
       \<Rightarrow> int \<Rightarrow> 'v option \<Rightarrow> 'v option" where
  "conv1d_backward_weight_term ar mem input grad_out oc ic kw in_channels out_channels input_width
     output_width stride padding ridx acc =
     Option.bind acc (\<lambda>sum.
     Option.bind (cmod ridx output_width) (\<lambda>ow.
     Option.bind (cdiv ridx output_width) (\<lambda>n.
       let iw = ow * stride + kw - padding;
           input_idx = n * in_channels * input_width + ic * input_width + iw;
           grad_idx = n * out_channels * output_width + oc * output_width + ow
       in Some (ar_add ar sum (ar_mul ar (mem (input + input_idx)) (mem (grad_out + grad_idx)))))))"

definition conv1d_backward_weight_element ::
    "'v arith \<Rightarrow> int \<Rightarrow> int \<Rightarrow> int \<Rightarrow> int \<Rightarrow> int \<Rightarrow> int \<Rightarrow> int \<Rightarrow> int \<Rightarrow> int \<Rightarrow> int \<Rightarrow> int \<Rightarrow> 'v element" where
  "conv1d_backward_weight_element ar input grad_out grad_weight batch_size in_channels out_channels
     input_width output_width kernel_width stride padding idx mem =
     Option.bind (cmod idx kernel_width) (\<lambda>kw.
     Option.bind (cdiv idx kernel_width) (\<lambda>tmp.
     Option.bind (cmod tmp in_channels) (\<lambda>ic.
     Option.bind (cdiv tmp in_channels) (\<lambda>oc.
     Option.bind (for_range 0 (batch_size * output_width)
         (conv1d_backward_weight_term ar mem input grad_out oc ic kw in_channels out_channels
            input_width output_width stride padding) (Some (ar_zero ar)))
       (\<lambda>sum. Some (mem(grad_weight + idx := sum)))))))"

definition conv1d_backward_weight_fp32 ::
    "fpu \<Rightarrow> int \<Rightarrow> int \<Rightarrow> int \<Rightarrow> int \<Rightarrow> int \<Rightarrow> int \<Rightarrow> int \<Rightarrow> int \<Rightarrow> int \<Rightarrow> int \<Rightarrow> int \<Rightarrow> int \<Rightarrow> u32 lane" where
  "conv1d_backward_weight_fp32 f input grad_out grad_weight total_count batch_size in_channels
     out_channels input_width output_width kernel_width stride padding =
     over_elements total_count (conv1d_backward_weight_element (fp32_arith f) input grad_out grad_weight
       batch_size in_channels out_channels input_width output_width kernel_width stride padding)"

definition conv1d_backward_bias_element ::
    "'v arith \<Rightarrow> int \<Rightarrow> int \<Rightarrow> int \<Rightarrow> int \<Rightarrow> int \<Rightarrow> 'v element" where
  "conv1d_backward_bias_element ar grad_out grad_bias batch_size out_channels output_width oc mem =
     Some (mem(grad_bias + oc := for_range 0 batch_size (\<lambda>n sum.
       for_range 0 output_width (\<lambda>ow sum.
         ar_add ar sum (mem (grad_out + (n * out_channels * output_width + oc * output_width + ow)))) sum)
       (ar_zero ar)))"

definition conv1d_backward_bias_fp32 :: "fpu \<Rightarrow> int \<Rightarrow> int \<Rightarrow> int \<Rightarrow> int \<Rightarrow> int \<Rightarrow> u32 lane" where
  "conv1d_backward_bias_fp32 f grad_out grad_bias batch_size out_channels output_width =
     over_elements out_channels
       (conv1d_backward_bias_element (fp32_arith f) grad_out grad_bias batch_size out_channels output_width)"

section \<open>Gradients in two dimensions\<close>

definition conv2d_backward_input_term ::
    "'v arith \<Rightarrow> 'v words \<Rightarrow> int \<Rightarrow> int \<Rightarrow> int \<Rightarrow> int \<Rightarrow> int \<Rightarrow> int \<Rightarrow> conv2d_dims
       \<Rightarrow> int \<Rightarrow> 'v option \<Rightarrow> 'v option" where
  "conv2d_backward_input_term ar mem grad_out weight n ic iy ix d ridx acc =
     Option.bind acc (\<lambda>sum.
     Option.bind (cmod ridx (d_kernel_width d)) (\<lambda>kx.
     Option.bind (cdiv ridx (d_kernel_width d)) (\<lambda>tmp_r0.
     Option.bind (cmod tmp_r0 (d_kernel_height d)) (\<lambda>ky.
     Option.bind (cdiv tmp_r0 (d_kernel_height d)) (\<lambda>tmp_r1.
     Option.bind (cmod tmp_r1 (d_output_width d)) (\<lambda>ox.
     Option.bind (cdiv tmp_r1 (d_output_width d)) (\<lambda>tmp_r2.
     Option.bind (cmod tmp_r2 (d_output_height d)) (\<lambda>oy.
     Option.bind (cdiv tmp_r2 (d_output_height d)) (\<lambda>oc.
       let source_iy = oy * d_stride_h d + ky - d_padding_h d;
           source_ix = ox * d_stride_w d + kx - d_padding_w d;
           grad_idx = n * d_out_channels d * d_output_height d * d_output_width d
             + oc * d_output_height d * d_output_width d + oy * d_output_width d + ox;
           weight_idx = oc * d_in_channels d * d_kernel_height d * d_kernel_width d
             + ic * d_kernel_height d * d_kernel_width d + ky * d_kernel_width d + kx
       in Some (if source_iy = iy \<and> source_ix = ix
                then ar_add ar sum (ar_mul ar (mem (grad_out + grad_idx)) (mem (weight + weight_idx)))
                else sum))))))))))"

definition conv2d_backward_input_element ::
    "'v arith \<Rightarrow> int \<Rightarrow> int \<Rightarrow> int \<Rightarrow> conv2d_dims \<Rightarrow> 'v element" where
  "conv2d_backward_input_element ar grad_out weight grad_input d idx mem =
     Option.bind (cmod idx (d_input_width d)) (\<lambda>ix.
     Option.bind (cdiv idx (d_input_width d)) (\<lambda>tmp0.
     Option.bind (cmod tmp0 (d_input_height d)) (\<lambda>iy.
     Option.bind (cdiv tmp0 (d_input_height d)) (\<lambda>tmp1.
     Option.bind (cmod tmp1 (d_in_channels d)) (\<lambda>ic.
     Option.bind (cdiv tmp1 (d_in_channels d)) (\<lambda>n.
     Option.bind (for_range 0 (d_out_channels d * d_output_height d * d_output_width d * d_kernel_height d * d_kernel_width d)
         (conv2d_backward_input_term ar mem grad_out weight n ic iy ix d) (Some (ar_zero ar)))
       (\<lambda>sum. Some (mem(grad_input + idx := sum)))))))))"

definition conv2d_backward_input_fp32 ::
    "fpu \<Rightarrow> int \<Rightarrow> int \<Rightarrow> int \<Rightarrow> int \<Rightarrow> int \<Rightarrow> conv2d_dims \<Rightarrow> u32 lane" where
  "conv2d_backward_input_fp32 f grad_out weight grad_input total_count batch_size d =
     over_elements total_count (conv2d_backward_input_element (fp32_arith f) grad_out weight grad_input d)"

definition conv2d_backward_weight_term ::
    "'v arith \<Rightarrow> 'v words \<Rightarrow> int \<Rightarrow> int \<Rightarrow> int \<Rightarrow> int \<Rightarrow> int \<Rightarrow> int \<Rightarrow> conv2d_dims
       \<Rightarrow> int \<Rightarrow> 'v option \<Rightarrow> 'v option" where
  "conv2d_backward_weight_term ar mem input grad_out oc ic ky kx d ridx acc =
     Option.bind acc (\<lambda>sum.
     Option.bind (cmod ridx (d_output_width d)) (\<lambda>ox.
     Option.bind (cdiv ridx (d_output_width d)) (\<lambda>tmp_r0.
     Option.bind (cmod tmp_r0 (d_output_height d)) (\<lambda>oy.
     Option.bind (cdiv tmp_r0 (d_output_height d)) (\<lambda>n.
       let iy = oy * d_stride_h d + ky - d_padding_h d;
           ix = ox * d_stride_w d + kx - d_padding_w d;
           input_idx = n * d_in_channels d * d_input_height d * d_input_width d
             + ic * d_input_height d * d_input_width d + iy * d_input_width d + ix;
           grad_idx = n * d_out_channels d * d_output_height d * d_output_width d
             + oc * d_output_height d * d_output_width d + oy * d_output_width d + ox
       in Some (ar_add ar sum (ar_mul ar (mem (input + input_idx)) (mem (grad_out + grad_idx)))))))))"

definition conv2d_backward_weight_element ::
    "'v arith \<Rightarrow> int \<Rightarrow> int \<Rightarrow> int \<Rightarrow> int \<Rightarrow> conv2d_dims \<Rightarrow> 'v element" where
  "conv2d_backward_weight_element ar input grad_out grad_weight batch_size d idx mem =
     Option.bind (cmod idx (d_kernel_width d)) (\<lambda>kx.
     Option.bind (cdiv idx (d_kernel_width d)) (\<lambda>tmp0.
     Option.bind (cmod tmp0 (d_kernel_height d)) (\<lambda>ky.
     Option.bind (cdiv tmp0 (d_kernel_height d)) (\<lambda>tmp1.
     Option.bind (cmod tmp1 (d_in_channels d)) (\<lambda>ic.
     Option.bind (cdiv tmp1 (d_in_channels d)) (\<lambda>oc.
     Option.bind (for_range 0 (batch_size * d_output_height d * d_output_width d)
         (conv2d_backward_weight_term ar mem input grad_out oc ic ky kx d) (Some (ar_zero ar)))
       (\<lambda>sum. Some (mem(grad_weight + idx := sum)))))))))"

definition conv2d_backward_weight_fp32 ::
    "fpu \<Rightarrow> int \<Rightarrow> int \<Rightarrow> int \<Rightarrow> int \<Rightarrow> int \<Rightarrow> conv2d_dims \<Rightarrow> u32 lane" where
  "conv2d_backward_weight_fp32 f input grad_out grad_weight total_count batch_size d =
     over_elements total_count
       (conv2d_backward_weight_element (fp32_arith f) input grad_out grad_weight batch_size d)"

definition conv2d_backward_bias_element ::
    "'v arith \<Rightarrow> int \<Rightarrow> int \<Rightarrow> int \<Rightarrow> int \<Rightarrow> int \<Rightarrow> int \<Rightarrow> 'v element" where
  "conv2d_backward_bias_element ar grad_out grad_bias batch_size out_chans out_height out_width oc mem =
     Some (mem(grad_bias + oc := for_range 0 batch_size (\<lambda>n sum.
       for_range 0 out_height (\<lambda>oy sum.
         for_range 0 out_width (\<lambda>ox sum.
           ar_add ar sum (mem (grad_out + (n * out_chans * out_height * out_width
             + oc * out_height * out_width + oy * out_width + ox)))) sum) sum)
       (ar_zero ar)))"

definition conv2d_backward_bias_fp32 :: "fpu \<Rightarrow> int \<Rightarrow> int \<Rightarrow> int \<Rightarrow> int \<Rightarrow> int \<Rightarrow> int \<Rightarrow> u32 lane" where
  "conv2d_backward_bias_fp32 f grad_out grad_bias batch_size out_chans out_height out_width =
     over_elements out_chans (conv2d_backward_bias_element (fp32_arith f) grad_out grad_bias
       batch_size out_chans out_height out_width)"

end
