(* ===== verification/DeviceSpec.thy ===== *)
theory DeviceSpec
  imports DeviceKernels
begin

text \<open>
  What the elementwise kernels, the matrix product and the linear layers compute, whatever the order
  in which the lanes of a block run and whichever lanes are active.
\<close>

section \<open>Sums over a grid\<close>

lemma grid_image: "0 < n \<Longrightarrow> {0..<m * n} = (\<lambda>(r, c). r * n + c) ` ({0..<m} \<times> {0..<n :: int})"
proof (intro set_eqI iffI)
  fix j assume n: "0 < n" and j: "j \<in> {0..<m * n}"
  then have "j = (\<lambda>(r, c). r * n + c) (j div n, j mod n)" by simp
  moreover have "(j div n, j mod n) \<in> {0..<m} \<times> {0..<n}" using n j index2_split [of j m n] by auto
  ultimately show "j \<in> (\<lambda>(r, c). r * n + c) ` ({0..<m} \<times> {0..<n})" by (rule image_eqI)
qed (auto dest: index2_bound)

lemma grid_inj: "inj_on (\<lambda>(r, c). r * n + c) ({0..<m} \<times> {0..<n :: int})"
proof (rule inj_on_inverseI [where g = "\<lambda>j. (j div n, j mod n)"])
  fix p assume "p \<in> {0..<m} \<times> {0..<n}"
  then show "((case p of (r, c) \<Rightarrow> r * n + c) div n, (case p of (r, c) \<Rightarrow> r * n + c) mod n) = p"
    by auto
qed

lemma sum_grid:
  assumes "0 < (n :: int)"
  shows "(\<Sum>j \<in> {0..<m * n}. f j) = (\<Sum>r \<in> {0..<m}. \<Sum>c \<in> {0..<n}. f (r * n + c))"
  unfolding grid_image [OF assms] sum.reindex [OF grid_inj] sum.cartesian_product
  by (intro sum.cong) auto

section \<open>Elementwise kernels\<close>

lemmas elementwise_defs = vector_add_kernel_def mul_kernel_def relu_kernel_def div_fp32_def

text \<open>
  C37: Elementwise kernels. Whatever the order of the active lanes, also when an operand is the result
  itself, the sum, product and quotient kernels and relu write to each word of the result whose index
  an active lane handles the value of the operands at that index, and to no other word. A quotient is
  the product with the device library's reciprocal.
\<close>

theorem elementwise_kernels:
  assumes "distinct ts" and "set ts \<subseteq> {0..<stride}" and "apart_or_same a out n" and "apart_or_same b out n"
  shows "run_block (vector_add_kernel ar a b out n) stride ts mem
      = Some (\<lambda>x. if handled ts stride out n x then ar_add ar (mem (a + (x - out))) (mem (b + (x - out))) else mem x)
    \<and> run_block (mul_kernel ar a b out n) stride ts mem
      = Some (\<lambda>x. if handled ts stride out n x then ar_mul ar (mem (a + (x - out))) (mem (b + (x - out))) else mem x)
    \<and> run_block (div_fp32 f a b out n) stride ts mem32
      = Some (\<lambda>x. if handled ts stride out n x
                  then fp_mul f (mem32 (a + (x - out))) (rcpf f (mem32 (b + (x - out)))) else mem32 x)
    \<and> run_block (relu_kernel ar a out n) stride ts mem
      = Some (\<lambda>x. if \<not> handled ts stride out n x then mem x
                  else if ar_less ar (mem (a + (x - out))) (ar_zero ar) then ar_zero ar else mem (a + (x - out)))"
  unfolding elementwise_defs run_map_element [OF assms(1,2,3)] run_map2_element [OF assms]
  by (simp add: fun_eq_iff)

text \<open>Six words on four lanes in the order 2, 0, 3 (lane 1 is masked out), in place.\<close>

theorem elementwise_kernels_witness:
  "map_option (\<lambda>m. map m [0, 1, 2, 3, 4, 5, 6]) (run_block (vector_add_kernel i32_arith 0 6 0 6) 4 [2, 0, 3] of_int)
     = Some [6, 1, 10, 12, 14, 5, 6]"
proof -
  have "distinct [2, 0, 3 :: int]" "set [2, 0, 3] \<subseteq> {0..<4 :: int}" "apart_or_same 0 0 6" "apart_or_same 6 0 6"
    by (simp_all add: apart_or_same_def disjoint_ranges_def)
  from elementwise_kernels [OF this, of i32_arith of_int] show ?thesis
    by (simp add: handled_def i32_arith_def)
qed

section \<open>Matrix products\<close>

definition product_entry :: "('v :: comm_ring_1) words \<Rightarrow> int \<Rightarrow> int \<Rightarrow> int \<Rightarrow> int \<Rightarrow> int \<Rightarrow> int \<Rightarrow> 'v" where
  "product_entry mem a b n k row col = (\<Sum>i \<in> {0..<k}. mem (a + (row * k + i)) * mem (b + (i * n + col)))"

lemma matmul_value_entry:
  "matmul_value (ring_arith lt) mem a b n k idx = product_entry mem a b n k (idx div n) (idx mod n)"
  by (simp add: matmul_value_ring product_entry_def)

lemma mm_result:
  assumes "0 < n" and "disjoint_ranges a (m * k) out (m * n)" and "disjoint_ranges b (k * n) out (m * n)"
  shows "mm.block_result (set ts) stride (ring_arith lt, a, b, out, m, n, k) mem
    = (\<lambda>x. if handled ts stride out (m * n) x
            then product_entry mem a b n k ((x - out) div n) ((x - out) mod n) else mem x)"
  by (simp add: mm.block_result_def handled_def matmul_value_entry fun_eq_iff)

text \<open>
  The matrix product on 32-bit integers. Whatever the order of the active lanes, the kernel writes
  to each word of the result whose index an active lane handles the entry of the product of the two
  row-major matrices, modulo $2^{32}$, and to no other word.
\<close>

theorem matmul_kernel_product:
  assumes "0 < n" and "disjoint_ranges a (m * k) out (m * n)" and "disjoint_ranges b (k * n) out (m * n)"
    and "distinct ts" and "set ts \<subseteq> {0..<stride}"
  shows "run_block (matmul_kernel i32_arith a b out m n k) stride ts mem
    = Some (\<lambda>x. if handled ts stride out (m * n) x
                then product_entry mem a b n k ((x - out) div n) ((x - out) mod n) else mem x)"
  using mm.run_lanes_result [of ts stride "(i32_arith, a, b, out, m, n, k)" mem] assms
  by (simp add: matmul_kernel_def run_block_over_elements mm_result i32_ring)

theorem matmul_kernel_product_witness:
  "map_option (\<lambda>m. map m [7, 8, 9, 10, 11, 12]) (run_block (matmul_kernel i32_arith 0 4 8 2 2 2) 3 [1, 0, 2] of_int)
    = Some [7, 6, 7, 26, 31, 12]"
proof -
  have "{0..<2 :: int} = {0, 1}" by auto
  moreover have "0 < (2 :: int)" "disjoint_ranges 0 (2 * 2) 8 (2 * 2)" "disjoint_ranges 4 (2 * 2) 8 (2 * 2)"
    "distinct [1, 0, 2 :: int]" "set [1, 0, 2] \<subseteq> {0..<3 :: int}"
    by (simp_all add: disjoint_ranges_def)
  note matmul_kernel_product [OF this, of of_int]
  ultimately show ?thesis by (simp add: handled_def product_entry_def)
qed

text \<open>
  C25: Interleaved lanes. However the lanes of a block interleave, one element at a time, the matrix
  product never gets stuck before every lane is done, each step uses up one of finitely many elements,
  and a finished block has left the memory that the lanes leave when they run one after the other.
\<close>

theorem matmul_interleaved:
  assumes "0 < n" and "disjoint_ranges a (m * k) out (m * n)" and "disjoint_ranges b (k * n) out (m * n)"
    and "distinct ts" and "set ts \<subseteq> {0..<stride}" and "0 < stride"
    and "rtranclp (lane_step (set ts) stride (m * n) (matmul_element ar a b out n k)) (\<lambda>t. t, mem) s"
  shows "(finished (set ts) (m * n) s \<longrightarrow> run_block (matmul_kernel ar a b out m n k) stride ts mem = Some (snd s))
    \<and> (\<not> finished (set ts) (m * n) s \<longrightarrow>
         (\<exists>s'. lane_step (set ts) stride (m * n) (matmul_element ar a b out n k) s s'))
    \<and> (\<forall>s'. lane_step (set ts) stride (m * n) (matmul_element ar a b out n k) s s'
         \<longrightarrow> (\<Sum>t \<in> set ts. nat (m * n - fst s' t)) < (\<Sum>t \<in> set ts. nat (m * n - fst s t)))"
proof (intro conjI)
  note result = mm.schedule_result [of "set ts" stride "(ar, a, b, out, m, n, k)" mem s]
    mm.run_lanes_result [of ts stride "(ar, a, b, out, m, n, k)" mem]
  show "finished (set ts) (m * n) s \<longrightarrow> run_block (matmul_kernel ar a b out m n k) stride ts mem = Some (snd s)"
    using result assms by (simp add: matmul_kernel_def run_block_over_elements)
  show "\<not> finished (set ts) (m * n) s \<longrightarrow>
      (\<exists>s'. lane_step (set ts) stride (m * n) (matmul_element ar a b out n k) s s')"
    using result assms by simp
  show "\<forall>s'. lane_step (set ts) stride (m * n) (matmul_element ar a b out n k) s s'
      \<longrightarrow> (\<Sum>t \<in> set ts. nat (m * n - fst s' t)) < (\<Sum>t \<in> set ts. nat (m * n - fst s t))"
    using assms(6) by (intro allI impI) (rule lane_step_decreases, simp_all)
qed

text \<open>Lane 1 first, on a product of two 1 by 1 matrices stored at words 0 and 1.\<close>

theorem matmul_interleaved_witness:
  "\<exists>s'. lane_step {0, 1} 2 (1 * 1) (matmul_element i32_arith 0 1 2 1 1) (\<lambda>t. t, of_int) s'"
proof -
  have args: "0 < (1 :: int)" "disjoint_ranges 0 (1 * 1) 2 (1 * 1)" "disjoint_ranges 1 (1 * 1) 2 (1 * 1)"
    "distinct [1, 0 :: int]" "set [1, 0] \<subseteq> {0..<2 :: int}" "0 < (2 :: int)"
    by (simp_all add: disjoint_ranges_def)
  have "\<not> finished (set [1, 0]) (1 * 1) (\<lambda>t. t, of_int :: int \<Rightarrow> u32)" by (simp add: finished_def)
  with matmul_interleaved [OF args, of i32_arith of_int "(\<lambda>t. t, of_int)"]
  show ?thesis by (simp add: insert_commute)
qed

section \<open>Linear layers\<close>

lemma linear_value_ring:
  "linear_value (ring_arith lt) mem x w outs ins idx
    = (\<Sum>i \<in> {0..<ins}. mem (x + (idx div outs * ins + i)) * mem (w + (idx mod outs * ins + i)))"
  by (simp add: linear_value_def minigpu_linear_element_def dot_strided_ring)

lemma linear_backward_input_ring:
  "linear_backward_input_value (ring_arith lt) mem g w outs ins idx
    = (\<Sum>oc \<in> {0..<outs}. mem (g + (idx div ins * outs + oc)) * mem (w + (oc * ins + idx mod ins)))"
  by (simp add: linear_backward_input_value_def for_range_sum)

lemma linear_backward_weight_ring:
  "linear_backward_weight_value (ring_arith lt) mem x g batch outs ins idx
    = (\<Sum>r \<in> {0..<batch}. mem (g + (r * outs + idx div ins)) * mem (x + (r * ins + idx mod ins)))"
  by (simp add: linear_backward_weight_value_def for_range_sum)

text \<open>
  The linear layer with bias on 32-bit integers. Whatever the order of the active lanes, the kernel
  writes to each word of the result whose index an active lane handles the bias of its column plus the
  product of its input row with its weight row, and to no other word.
\<close>

theorem linear_bias_kernel_product:
  assumes "0 < outs" and "disjoint_ranges x (batch * ins) out (batch * outs)"
    and "disjoint_ranges w (outs * ins) out (batch * outs)" and "disjoint_ranges b outs out (batch * outs)"
    and "distinct ts" and "set ts \<subseteq> {0..<stride}"
  shows "run_block (linear_bias_kernel i32_arith x w b out (batch * outs) outs ins) stride ts mem
    = Some (\<lambda>q. if handled ts stride out (batch * outs) q
                then mem (b + (q - out) mod outs)
                     + (\<Sum>i \<in> {0..<ins}. mem (x + ((q - out) div outs * ins + i))
                                         * mem (w + ((q - out) mod outs * ins + i)))
                else mem q)"
  using linb.run_lanes_result [of ts stride "(i32_arith, x, w, b, out, batch, outs, ins)" mem] assms
  by (simp add: linear_bias_kernel_def run_block_over_elements linb.block_result_def handled_def
      linear_bias_value_def linear_value_ring i32_ring fun_eq_iff)

theorem linear_bias_kernel_product_witness:
  "map_option (\<lambda>m. map m [8, 9, 10, 11]) (run_block (linear_bias_kernel i32_arith 0 2 6 9 2 2 2) 2 [1, 0] of_int)
    = Some [8, 9, 12, 11]"
proof -
  have "{0..<2 :: int} = {0, 1}" by auto
  moreover have "0 < (2 :: int)" "disjoint_ranges 0 (1 * 2) 9 (1 * 2)" "disjoint_ranges 2 (2 * 2) 9 (1 * 2)"
    "disjoint_ranges 6 2 9 (1 * 2)" "distinct [1, 0 :: int]" "set [1, 0] \<subseteq> {0..<2 :: int}"
    by (simp_all add: disjoint_ranges_def)
  note linear_bias_kernel_product [OF this, of of_int]
  ultimately show ?thesis by (simp add: handled_def)
qed

section \<open>Gradients of a linear layer\<close>

lemma handled_all:
  "\<lbrakk>set ts = {0..<stride}; 0 < stride; 0 \<le> j; j < n\<rbrakk> \<Longrightarrow> handled ts stride out n (out + j)"
  by (simp add: handled_def)

lemma input_gradient_adjoint:
  assumes "0 < outs" and "0 < ins"
  shows "(\<Sum>j \<in> {0..<batch * outs}. mem (g + j) * linear_value (ring_arith lt) mem x w outs ins j)
    = (\<Sum>j \<in> {0..<batch * ins}. mem (x + j) * linear_backward_input_value (ring_arith lt) mem g w outs ins j)"
proof -
  have "(\<Sum>j \<in> {0..<batch * outs}. mem (g + j) * linear_value (ring_arith lt) mem x w outs ins j)
      = (\<Sum>r \<in> {0..<batch}. \<Sum>oc \<in> {0..<outs}. \<Sum>i \<in> {0..<ins}.
           mem (g + (r * outs + oc)) * (mem (x + (r * ins + i)) * mem (w + (oc * ins + i))))"
    unfolding sum_grid [OF assms(1)] linear_value_ring sum_distrib_left by (intro sum.cong) simp_all
  also have "\<dots> = (\<Sum>r \<in> {0..<batch}. \<Sum>i \<in> {0..<ins}. \<Sum>oc \<in> {0..<outs}.
           mem (x + (r * ins + i)) * (mem (g + (r * outs + oc)) * mem (w + (oc * ins + i))))"
    by (subst sum.swap [of _ "{0..<outs}"]) (simp add: mult.left_commute)
  also have "\<dots> = (\<Sum>j \<in> {0..<batch * ins}. mem (x + j) * linear_backward_input_value (ring_arith lt) mem g w outs ins j)"
    unfolding sum_grid [OF assms(2)] linear_backward_input_ring sum_distrib_left by (intro sum.cong) simp_all
  finally show ?thesis .
qed

lemma weight_gradient_adjoint:
  assumes "0 < outs" and "0 < ins"
  shows "(\<Sum>j \<in> {0..<batch * outs}. mem (g + j) * linear_value (ring_arith lt) mem x w outs ins j)
    = (\<Sum>j \<in> {0..<outs * ins}. mem (w + j) * linear_backward_weight_value (ring_arith lt) mem x g batch outs ins j)"
proof -
  have "(\<Sum>j \<in> {0..<batch * outs}. mem (g + j) * linear_value (ring_arith lt) mem x w outs ins j)
      = (\<Sum>r \<in> {0..<batch}. \<Sum>oc \<in> {0..<outs}. \<Sum>i \<in> {0..<ins}.
           mem (g + (r * outs + oc)) * (mem (x + (r * ins + i)) * mem (w + (oc * ins + i))))"
    unfolding sum_grid [OF assms(1)] linear_value_ring sum_distrib_left by (intro sum.cong) simp_all
  also have "\<dots> = (\<Sum>oc \<in> {0..<outs}. \<Sum>r \<in> {0..<batch}. \<Sum>i \<in> {0..<ins}.
           mem (g + (r * outs + oc)) * (mem (x + (r * ins + i)) * mem (w + (oc * ins + i))))"
    by (rule sum.swap)
  also have "\<dots> = (\<Sum>oc \<in> {0..<outs}. \<Sum>i \<in> {0..<ins}. \<Sum>r \<in> {0..<batch}.
           mem (g + (r * outs + oc)) * (mem (x + (r * ins + i)) * mem (w + (oc * ins + i))))"
    by (intro sum.cong [OF refl], rule sum.swap)
  also have "\<dots> = (\<Sum>oc \<in> {0..<outs}. \<Sum>i \<in> {0..<ins}. \<Sum>r \<in> {0..<batch}.
           mem (w + (oc * ins + i)) * (mem (g + (r * outs + oc)) * mem (x + (r * ins + i))))"
    by (simp add: ac_simps)
  also have "\<dots> = (\<Sum>j \<in> {0..<outs * ins}. mem (w + j) * linear_backward_weight_value (ring_arith lt) mem x g batch outs ins j)"
    unfolding sum_grid [OF assms(2)] linear_backward_weight_ring sum_distrib_left by (intro sum.cong) simp_all
  finally show ?thesis .
qed

text \<open>
  C26: The gradients of a linear layer are the transposes of the layer. With exact arithmetic in any
  commutative ring, and the lanes in any order, pairing the output gradient with the layer's output
  gives the same number as pairing the input with the input gradient and as pairing the weights with
  the weight gradient.
\<close>

theorem linear_gradients_transpose:
  fixes mem :: "('v :: comm_ring_1) words"
  assumes "0 < outs" and "0 < ins" and "distinct ts" and "set ts = {0..<stride}" and "0 < stride"
    and "disjoint_ranges x (batch * ins) y (batch * outs)" and "disjoint_ranges w (outs * ins) y (batch * outs)"
    and "disjoint_ranges g (batch * outs) gi (batch * ins)" and "disjoint_ranges w (outs * ins) gi (batch * ins)"
    and "disjoint_ranges g (batch * outs) gw (outs * ins)" and "disjoint_ranges x (batch * ins) gw (outs * ins)"
  shows "\<exists>forward by_input by_weight.
      run_block (linear_kernel (ring_arith lt) x w y (batch * outs) outs ins) stride ts mem = Some forward
    \<and> run_block (over_elements (batch * ins) (linear_backward_input_element (ring_arith lt) g w gi outs ins))
        stride ts mem = Some by_input
    \<and> run_block (over_elements (outs * ins) (linear_backward_weight_element (ring_arith lt) x g gw batch outs ins))
        stride ts mem = Some by_weight
    \<and> (\<Sum>j \<in> {0..<batch * outs}. mem (g + j) * forward (y + j)) = (\<Sum>j \<in> {0..<batch * ins}. mem (x + j) * by_input (gi + j))
    \<and> (\<Sum>j \<in> {0..<batch * outs}. mem (g + j) * forward (y + j)) = (\<Sum>j \<in> {0..<outs * ins}. mem (w + j) * by_weight (gw + j))"
proof -
  have "set ts \<subseteq> {0..<stride}" using assms(4) by simp
  note runs = lin.run_lanes_result [of ts stride "(ring_arith lt, x, w, y, batch, outs, ins)" mem, OF assms(3) this]
    linbi.run_lanes_result [of ts stride "(ring_arith lt, g, w, gi, batch, outs, ins)" mem, OF assms(3) this]
    linbw.run_lanes_result [of ts stride "(ring_arith lt, x, g, gw, batch, outs, ins)" mem, OF assms(3) this]
  have "(\<Sum>j \<in> {0..<batch * outs}. mem (g + j) * lin.block_result (set ts) stride (ring_arith lt, x, w, y, batch, outs, ins) mem (y + j))
      = (\<Sum>j \<in> {0..<batch * outs}. mem (g + j) * linear_value (ring_arith lt) mem x w outs ins j)"
    using assms(4,5) by (intro sum.cong) (simp_all add: lin.block_result_def)
  moreover have "(\<Sum>j \<in> {0..<batch * ins}. mem (x + j) * linbi.block_result (set ts) stride (ring_arith lt, g, w, gi, batch, outs, ins) mem (gi + j))
      = (\<Sum>j \<in> {0..<batch * ins}. mem (x + j) * linear_backward_input_value (ring_arith lt) mem g w outs ins j)"
    using assms(4,5) by (intro sum.cong) (simp_all add: linbi.block_result_def)
  moreover have "(\<Sum>j \<in> {0..<outs * ins}. mem (w + j) * linbw.block_result (set ts) stride (ring_arith lt, x, g, gw, batch, outs, ins) mem (gw + j))
      = (\<Sum>j \<in> {0..<outs * ins}. mem (w + j) * linear_backward_weight_value (ring_arith lt) mem x g batch outs ins j)"
    using assms(4,5) by (intro sum.cong) (simp_all add: linbw.block_result_def)
  moreover note input_gradient_adjoint [OF assms(1,2)] weight_gradient_adjoint [OF assms(1,2)]
  ultimately show ?thesis
    using runs assms(1,2,6-11) by (auto simp: linear_kernel_def run_block_over_elements)
qed

theorem linear_gradients_transpose_witness:
  "\<exists>forward by_input by_weight.
      run_block (linear_kernel (ring_arith (<)) 0 2 8 (1 * 2) 2 2) 2 [1, 0] (\<lambda>x. x :: int) = Some forward
    \<and> run_block (over_elements (1 * 2) (linear_backward_input_element (ring_arith (<)) 6 2 8 2 2)) 2 [1, 0] (\<lambda>x. x) = Some by_input
    \<and> run_block (over_elements (2 * 2) (linear_backward_weight_element (ring_arith (<)) 0 6 8 1 2 2)) 2 [1, 0] (\<lambda>x. x) = Some by_weight
    \<and> 6 * forward 8 + 7 * forward 9 = by_input 9
    \<and> 6 * forward 8 + 7 * forward 9 = 2 * by_weight 8 + 3 * by_weight 9 + 4 * by_weight 10 + 5 * by_weight 11"
proof -
  have two: "{0..<2 :: int} = {0, 1}" and four: "{0..<4 :: int} = {0, 1, 2, 3}" by auto
  have args: "0 < (2 :: int)" "distinct [1, 0 :: int]" "set [1, 0] = {0..<2 :: int}"
    "disjoint_ranges 0 (1 * 2) 8 (1 * 2)" "disjoint_ranges 2 (2 * 2) 8 (1 * 2)"
    "disjoint_ranges 6 (1 * 2) 8 (1 * 2)" "disjoint_ranges 6 (1 * 2) 8 (2 * 2)" "disjoint_ranges 0 (1 * 2) 8 (2 * 2)"
    by (auto simp: disjoint_ranges_def)
  from linear_gradients_transpose [OF args(1) args(1-3) args(1) args(4,5) args(6) args(5) args(7,8), of "(<)" "\<lambda>x. x"]
  show ?thesis by (elim ex_forward conjE, intro conjI) (simp_all add: two four ac_simps)
qed

end
