(* ===== verification/ConvSpec.thy ===== *)
theory ConvSpec
  imports DeviceConv DeviceSpec
begin

text \<open>
  What the one-dimensional convolution kernels compute. Without padding the forward kernel is the
  convolution and its two gradient kernels are its transposes; with padding the forward kernel does not
  pad but reads the words around the row.
\<close>

section \<open>The forward kernel without padding\<close>

text \<open>
  The reference: the input is zero outside its rows. Indices are batch \<open>n\<close>, output channel \<open>oc\<close> and
  output position \<open>ow\<close>.
\<close>

definition padded_input ::
    "('v :: comm_ring_1) words \<Rightarrow> int \<Rightarrow> int \<Rightarrow> int \<Rightarrow> int \<Rightarrow> int \<Rightarrow> int \<Rightarrow> 'v" where
  "padded_input mem x ics iw n ic q = (if 0 \<le> q \<and> q < iw then mem (x + ((n * ics + ic) * iw + q)) else 0)"

definition convolution ::
    "('v :: comm_ring_1) words \<Rightarrow> int \<Rightarrow> int \<Rightarrow> int \<Rightarrow> int \<Rightarrow> int \<Rightarrow> int \<Rightarrow> int \<Rightarrow> int \<Rightarrow> int \<Rightarrow> int \<Rightarrow> 'v" where
  "convolution mem x w ics iw kw stride padding n oc ow =
     (\<Sum>ic \<in> {0..<ics}. \<Sum>k \<in> {0..<kw}.
        padded_input mem x ics iw n ic (ow * stride + k - padding) * mem (w + ((oc * ics + ic) * kw + k)))"

lemma conv1d_element_ring:
  "minigpu_conv1d_element (ring_arith lt) mem x w bias n oc ow ics iw kw stride padding
    = bias + (\<Sum>ic \<in> {0..<ics}. \<Sum>k \<in> {0..<kw}.
        mem (x + ((n * ics + ic) * iw + (ow * stride + k - padding))) * mem (w + ((oc * ics + ic) * kw + k)))"
  by (simp add: minigpu_conv1d_element_def for_range_sum Let_def algebra_simps)

lemma conv1d_element_convolution:
  assumes "(ows - 1) * stride + kw \<le> iw" and "0 \<le> stride" and "0 \<le> ow" and "ow < ows"
  shows "minigpu_conv1d_element (ring_arith lt) mem x w bias n oc ow ics iw kw stride 0
    = bias + convolution mem x w ics iw kw stride 0 n oc ow"
  unfolding conv1d_element_ring convolution_def padded_input_def
  using window_inside [OF assms] by simp

definition conv1d_bias_value ::
    "'v arith \<Rightarrow> 'v words \<Rightarrow> int \<Rightarrow> int \<Rightarrow> int \<Rightarrow> int \<Rightarrow> int \<Rightarrow> int \<Rightarrow> int \<Rightarrow> int \<Rightarrow> int \<Rightarrow> int \<Rightarrow> 'v" where
  "conv1d_bias_value ar mem x w b ics ocs iw ows kw stride idx =
     minigpu_conv1d_element ar mem x w (mem (b + idx div ows mod ocs)) (idx div ows div ocs) (idx div ows mod ocs)
       (idx mod ows) ics iw kw stride 0"

lemma conv1d_element_cong:
  assumes "(ows - 1) * stride + kw \<le> iw" and "0 \<le> stride" and "0 \<le> ow" and "ow < ows"
    and "0 \<le> n" and "n < batch" and "0 \<le> oc" and "oc < ocs"
    and "\<And>q. q \<in> span_of x (batch * ics * iw) \<Longrightarrow> mem q = mem0 q"
    and "\<And>q. q \<in> span_of w (ocs * ics * kw) \<Longrightarrow> mem q = mem0 q"
  shows "minigpu_conv1d_element ar mem x w bias n oc ow ics iw kw stride 0
    = minigpu_conv1d_element ar mem0 x w bias n oc ow ics iw kw stride 0"
proof -
  have "mem (x + (n * ics * iw + ic * iw + (ow * stride + k))) = mem0 (x + (n * ics * iw + ic * iw + (ow * stride + k)))"
    if "0 \<le> ic" "ic < ics" "0 \<le> k" "k < kw" for ic k
    using index2_bound [OF assms(5,6) that(1,2)] window_inside [OF assms(1-4) that(3,4)]
      span_of_index2(1) [of "n * ics + ic" "batch * ics" "ow * stride + k" iw x]
    by (intro assms(9)) (simp add: distrib_right)
  moreover have "mem (w + (oc * ics * kw + ic * kw + k)) = mem0 (w + (oc * ics * kw + ic * kw + k))"
    if "0 \<le> ic" "ic < ics" "0 \<le> k" "k < kw" for ic k
    using index2_bound [OF assms(7,8) that(1,2)] span_of_index2(1) [of "oc * ics + ic" "ocs * ics" k kw w] that
    by (intro assms(10)) (simp add: distrib_right)
  ultimately show ?thesis
    unfolding minigpu_conv1d_element_def Let_def by (intro for_range_cong) simp
qed

interpretation cv: reading_kernel
  "\<lambda>(ar, x, w, b, out, (batch, ics, ocs), (iw, ows, kw, stride)).
     conv1d_bias_element ar x w b out ics ocs iw ows kw stride 0"
  "\<lambda>(ar, x, w, b, out, (batch, ics, ocs), (iw, ows, kw, stride)) mem.
     conv1d_bias_value ar mem x w b ics ocs iw ows kw stride"
  "\<lambda>(ar, x, w, b, out, dims). out"
  "\<lambda>(ar, x, w, b, out, (batch, ics, ocs), (iw, ows, kw, stride)). batch * ocs * ows"
  "\<lambda>(ar, x, w, b, out, (batch, ics, ocs), (iw, ows, kw, stride)).
     0 < ocs \<and> 0 < ows \<and> 0 \<le> stride \<and> (ows - 1) * stride + kw \<le> iw
     \<and> disjoint_ranges x (batch * ics * iw) out (batch * ocs * ows)
     \<and> disjoint_ranges w (ocs * ics * kw) out (batch * ocs * ows)
     \<and> disjoint_ranges b ocs out (batch * ocs * ows)"
  "\<lambda>(ar, x, w, b, out, (batch, ics, ocs), (iw, ows, kw, stride)).
     span_of x (batch * ics * iw) \<union> span_of w (ocs * ics * kw) \<union> span_of b ocs"
proof (unfold_locales, goal_cases)
  case (1 p i mem)
  then show ?case
    by (auto simp: conv1d_bias_element_def conv1d_bias_value_def row_rest Let_def pos_imp_zdiv_nonneg_iff)
next
  case (2 p idx mem mem0)
  obtain ar x w b out batch ics ocs iw ows kw stride
    where p: "p = (ar, x, w, b, out, (batch, ics, ocs), (iw, ows, kw, stride))"
    by (metis surj_pair)
  have sizes: "0 < ocs" "0 < ows" "0 \<le> stride" "(ows - 1) * stride + kw \<le> iw" and i: "0 \<le> idx" "idx < batch * ocs * ows"
    and same: "\<And>q. q \<in> span_of x (batch * ics * iw) \<union> span_of w (ocs * ics * kw) \<union> span_of b ocs \<Longrightarrow> mem q = mem0 q"
    using 2 by (simp_all add: p)
  note at = index2_split [OF i sizes(2)]
  note row = index2_split [OF at(1,2) sizes(1)]
  have "mem (b + idx div ows mod ocs) = mem0 (b + idx div ows mod ocs)"
    using span_of_index [OF row(3,4)] by (intro same) auto
  moreover have "minigpu_conv1d_element ar mem x w c (idx div ows div ocs) (idx div ows mod ocs) (idx mod ows) ics iw kw stride 0
      = minigpu_conv1d_element ar mem0 x w c (idx div ows div ocs) (idx div ows mod ocs) (idx mod ows) ics iw kw stride 0" for c
    by (rule conv1d_element_cong [OF sizes(4,3) at(3,4) row]) (simp_all add: same)
  ultimately show ?case by (simp add: p conv1d_bias_value_def)
next
  case (3 p x j)
  then show ?case by (auto dest: disjoint_span)
qed

text \<open>
  C28: The one-dimensional convolution. Without padding, with windows that fit the rows and with exact
  arithmetic, the kernel writes, whatever the order of the active lanes, to each word of the result
  whose index an active lane handles the bias of its channel plus the convolution of the zero-extended
  rows with the weights, and to no other word.
\<close>

theorem conv1d_bias_kernel_convolution:
  fixes mem :: "('v :: comm_ring_1) words"
  assumes "0 < ocs" and "0 < ows" and "0 \<le> stride" and "(ows - 1) * stride + kw \<le> iw"
    and "disjoint_ranges x (batch * ics * iw) out (batch * ocs * ows)"
    and "disjoint_ranges w (ocs * ics * kw) out (batch * ocs * ows)"
    and "disjoint_ranges b ocs out (batch * ocs * ows)"
    and "distinct ts" and "set ts \<subseteq> {0..<lanes}"
  shows "run_block (conv1d_bias_kernel (ring_arith lt) x w b out (batch * ocs * ows) batch ics ocs iw ows kw stride 0)
      lanes ts mem
    = Some (\<lambda>q. if handled ts lanes out (batch * ocs * ows) q
                then let i = q - out; oc = i div ows mod ocs
                     in mem (b + oc) + convolution mem x w ics iw kw stride 0 (i div ows div ocs) oc (i mod ows)
                else mem q)"
proof -
  have "conv1d_bias_value (ring_arith lt) mem x w b ics ocs iw ows kw stride i
      = mem (b + i div ows mod ocs) + convolution mem x w ics iw kw stride 0 (i div ows div ocs) (i div ows mod ocs) (i mod ows)" for i
    unfolding conv1d_bias_value_def
    by (rule conv1d_element_convolution [OF assms(4,3)]) (simp_all add: assms(2))
  then show ?thesis
    using cv.run_lanes_result [of ts lanes "(ring_arith lt, x, w, b, out, (batch, ics, ocs), (iw, ows, kw, stride))" mem] assms
    by (simp add: conv1d_bias_kernel_def run_block_over_elements cv.block_result_def handled_def fun_eq_iff Let_def)
qed

text \<open>A row of four words at 0, a kernel of two words at 4, a bias at 6, three results at 7.\<close>

theorem conv1d_bias_kernel_convolution_witness:
  "map_option (\<lambda>m. map m [6, 7, 8, 9, 10])
     (run_block (conv1d_bias_kernel (ring_arith (<)) 0 4 6 7 3 1 1 1 4 3 2 1 0) 2 [1, 0] (\<lambda>x. x :: int))
    = Some [6, 11, 20, 29, 10]"
proof -
  have "{0..<1 :: int} = {0}" "{0..<2 :: int} = {0, 1}" by auto
  moreover have "0 < (1 :: int)" "0 < (3 :: int)" "0 \<le> (1 :: int)" "(3 - 1) * 1 + 2 \<le> (4 :: int)"
    "disjoint_ranges 0 (1 * 1 * 4) 7 (1 * 1 * 3)" "disjoint_ranges 4 (1 * 1 * 2) 7 (1 * 1 * 3)"
    "disjoint_ranges 6 1 7 (1 * 1 * 3)" "distinct [1, 0 :: int]" "set [1, 0] \<subseteq> {0..<2 :: int}"
    by (simp_all add: disjoint_ranges_def)
  note conv1d_bias_kernel_convolution [OF this, of "(<)" "\<lambda>x. x"]
  ultimately show ?thesis by (simp add: handled_def convolution_def padded_input_def Let_def)
qed

section \<open>Padding\<close>

text \<open>
  Padding is not implemented on the device. With one input channel and one kernel word, the result
  at position 0 of the first channel is, for every positive padding, made from the word \<open>padding\<close> places
  before the input, where the zero-extended convolution has the bias alone.
\<close>

theorem conv1d_padding_reads_before_input:
  fixes mem :: "('v :: comm_ring_1) words"
  assumes "0 < padding" and "0 < iw"
  shows "minigpu_conv1d_element (ring_arith lt) mem x w bias 0 0 0 1 iw 1 stride padding
      = bias + mem (x - padding) * mem w
    \<and> bias + convolution mem x w 1 iw 1 stride padding 0 0 0 = bias"
proof -
  have "{0..<1 :: int} = {0}" by auto
  then show ?thesis
    using assms by (simp add: conv1d_element_ring convolution_def padded_input_def)
qed

theorem conv1d_padding_reads_before_input_witness:
  "minigpu_conv1d_element (ring_arith (<)) (\<lambda>x. x :: int) 8 20 0 0 0 0 1 4 1 1 1 = 7 * 20
    \<and> 0 + convolution (\<lambda>x. x :: int) 8 20 1 4 1 1 1 0 0 0 = 0"
  using conv1d_padding_reads_before_input [of 1 4 "(<)" "\<lambda>x. x" 8 20 0 1] by simp

section \<open>The gradients\<close>

lemma for_range_option:
  assumes "\<And>i a. \<lbrakk>lo \<le> i; i < hi\<rbrakk> \<Longrightarrow> f i (Some a) = Some (g i a)"
  shows "for_range lo hi f (Some acc) = Some (for_range lo hi g acc)"
  using assms
proof (induction lo hi g acc rule: for_range.induct)
  case (1 lo hi g acc)
  show ?case
    using "1.IH" "1.prems" by (subst (1 2) for_range.simps) simp
qed

text \<open>The input gradient, as a sum over the positions of the output gradient and the kernel.\<close>

definition conv1d_backward_input_value ::
    "'v arith \<Rightarrow> 'v words \<Rightarrow> int \<Rightarrow> int \<Rightarrow> int \<Rightarrow> int \<Rightarrow> int \<Rightarrow> int \<Rightarrow> int \<Rightarrow> int \<Rightarrow> int \<Rightarrow> int \<Rightarrow> int \<Rightarrow> 'v" where
  "conv1d_backward_input_value ar mem g w ics ocs ows kw stride padding n ic iw =
     for_range 0 (ocs * ows * kw) (\<lambda>r sum.
       if r div kw mod ows * stride + r mod kw - padding = iw
       then ar_add ar sum (ar_mul ar
              (mem (g + (n * ocs * ows + r div kw div ows * ows + r div kw mod ows)))
              (mem (w + (r div kw div ows * ics * kw + ic * kw + r mod kw))))
       else sum) (ar_zero ar)"

lemma conv1d_backward_input_element_value:
  assumes "0 \<le> idx" and "0 < iws" and "0 < ics" and "0 < ows" and "0 < kw"
  shows "conv1d_backward_input_element ar g w gi ics ocs iws ows kw stride padding idx mem
    = Some (mem(gi + idx := conv1d_backward_input_value ar mem g w ics ocs ows kw stride padding
        (idx div iws div ics) (idx div iws mod ics) (idx mod iws)))"
proof -
  have "0 \<le> idx div iws" using assms(1,2) by (simp add: pos_imp_zdiv_nonneg_iff)
  then show ?thesis
    using assms unfolding conv1d_backward_input_element_def conv1d_backward_input_value_def
    by (simp add: pos_imp_zdiv_nonneg_iff, subst for_range_option)
      (simp_all add: conv1d_backward_input_term_def pos_imp_zdiv_nonneg_iff Let_def)
qed

lemma sum_innermost_first:
  "(\<Sum>a \<in> A. \<Sum>b \<in> B. \<Sum>c \<in> C. f a b c) = (\<Sum>c \<in> C. \<Sum>a \<in> A. \<Sum>b \<in> B. f a b c)"
proof -
  have "(\<Sum>a \<in> A. \<Sum>b \<in> B. \<Sum>c \<in> C. f a b c) = (\<Sum>a \<in> A. \<Sum>c \<in> C. \<Sum>b \<in> B. f a b c)"
    by (intro sum.cong [OF refl], rule sum.swap)
  also have "\<dots> = (\<Sum>c \<in> C. \<Sum>a \<in> A. \<Sum>b \<in> B. f a b c)" by (rule sum.swap)
  finally show ?thesis .
qed

lemma sum_grid3:
  assumes "0 < (n :: int)" and "0 < k"
  shows "(\<Sum>j \<in> {0..<m * n * k}. f (j div k div n) (j div k mod n) (j mod k))
    = (\<Sum>a \<in> {0..<m}. \<Sum>b \<in> {0..<n}. \<Sum>c \<in> {0..<k}. f a b c)"
  unfolding sum_grid [OF assms(2)] sum_grid [OF assms(1)] by (intro sum.cong refl) simp

lemma index3: "0 < (k :: int) \<Longrightarrow> j = (j div k div n * n + j div k mod n) * k + j mod k"
  by simp

lemma backward_input_value_ring:
  assumes "0 < ows" and "0 < kw"
  shows "conv1d_backward_input_value (ring_arith lt) mem g w ics ocs ows kw stride padding n ic iw
    = (\<Sum>oc \<in> {0..<ocs}. \<Sum>ow \<in> {0..<ows}. \<Sum>k \<in> {0..<kw}.
         if ow * stride + k - padding = iw
         then mem (g + ((n * ocs + oc) * ows + ow)) * mem (w + ((oc * ics + ic) * kw + k)) else 0)"
proof -
  have step: "(\<lambda>r sum. if P r then sum + f r else sum) = (\<lambda>r sum. sum + (if P r then f r else 0))"
    for P and f :: "int \<Rightarrow> 'a" by auto
  show ?thesis
    unfolding sum_grid3 [OF assms, symmetric, of _ ocs] conv1d_backward_input_value_def
    by (simp add: step for_range_sum algebra_simps cong: if_cong)
qed

lemma padded_input_sum:
  "padded_input mem x ics iws n ic q
    = (\<Sum>iw \<in> {0..<iws}. if q = iw then mem (x + ((n * ics + ic) * iws + iw)) else 0)"
  by (simp add: padded_input_def)

text \<open>
  C27: The input gradient of the one-dimensional convolution. For every padding and with exact
  arithmetic, pairing the output gradient with the zero-padded convolution gives the same number as
  pairing the input with the values the input-gradient kernel writes.
\<close>

theorem conv1d_input_gradient_transpose:
  fixes mem :: "('v :: comm_ring_1) words"
  assumes "0 < ics" and "0 < ocs" and "0 < iws" and "0 < ows" and "0 < kw"
  shows "\<exists>G. (\<forall>idx \<in> {0..<batch * ics * iws}.
        conv1d_backward_input_element (ring_arith lt) g w gi ics ocs iws ows kw stride padding idx mem
          = Some (mem(gi + idx := G idx)))
    \<and> (\<Sum>j \<in> {0..<batch * ocs * ows}. mem (g + j)
          * convolution mem x w ics iws kw stride padding (j div ows div ocs) (j div ows mod ocs) (j mod ows))
      = (\<Sum>j \<in> {0..<batch * ics * iws}. mem (x + j) * G j)"
proof (intro exI conjI ballI)
  let ?G = "\<lambda>idx. conv1d_backward_input_value (ring_arith lt) mem g w ics ocs ows kw stride padding
    (idx div iws div ics) (idx div iws mod ics) (idx mod iws)"
  let ?g = "\<lambda>n oc ow. mem (g + ((n * ocs + oc) * ows + ow))"
  let ?x = "\<lambda>n ic iw. mem (x + ((n * ics + ic) * iws + iw))"
  let ?w = "\<lambda>oc ic k. mem (w + ((oc * ics + ic) * kw + k))"
  let ?T = "\<lambda>n ic iw oc ow k. if ow * stride + k - padding = iw then ?x n ic iw * ?g n oc ow * ?w oc ic k else 0"
  show "conv1d_backward_input_element (ring_arith lt) g w gi ics ocs iws ows kw stride padding idx mem
      = Some (mem(gi + idx := ?G idx))" if "idx \<in> {0..<batch * ics * iws}" for idx
    using that by (simp add: conv1d_backward_input_element_value assms)
  have conv: "?g n oc ow * convolution mem x w ics iws kw stride padding n oc ow
      = (\<Sum>ic \<in> {0..<ics}. \<Sum>k \<in> {0..<kw}. \<Sum>iw \<in> {0..<iws}. ?T n ic iw oc ow k)" for n oc ow
    unfolding convolution_def padded_input_sum sum_distrib_left sum_distrib_right
    by (intro sum.cong refl) (simp add: ac_simps)
  have grad: "?x n ic iw * conv1d_backward_input_value (ring_arith lt) mem g w ics ocs ows kw stride padding n ic iw
      = (\<Sum>oc \<in> {0..<ocs}. \<Sum>ow \<in> {0..<ows}. \<Sum>k \<in> {0..<kw}. ?T n ic iw oc ow k)" for n ic iw
    unfolding backward_input_value_ring [OF assms(4,5)] sum_distrib_left
    by (intro sum.cong refl) (simp add: ac_simps)
  have "(\<Sum>j \<in> {0..<batch * ocs * ows}. mem (g + j)
          * convolution mem x w ics iws kw stride padding (j div ows div ocs) (j div ows mod ocs) (j mod ows))
      = (\<Sum>n \<in> {0..<batch}. \<Sum>oc \<in> {0..<ocs}. \<Sum>ow \<in> {0..<ows}.
           ?g n oc ow * convolution mem x w ics iws kw stride padding n oc ow)"
    unfolding sum_grid3 [OF assms(2,4), symmetric] by simp
  also have "\<dots> = (\<Sum>n \<in> {0..<batch}. \<Sum>ic \<in> {0..<ics}. \<Sum>oc \<in> {0..<ocs}. \<Sum>ow \<in> {0..<ows}.
           \<Sum>k \<in> {0..<kw}. \<Sum>iw \<in> {0..<iws}. ?T n ic iw oc ow k)"
    unfolding conv by (intro sum.cong [OF refl], rule sum_innermost_first)
  also have "\<dots> = (\<Sum>n \<in> {0..<batch}. \<Sum>ic \<in> {0..<ics}. \<Sum>iw \<in> {0..<iws}.
           \<Sum>oc \<in> {0..<ocs}. \<Sum>ow \<in> {0..<ows}. \<Sum>k \<in> {0..<kw}. ?T n ic iw oc ow k)"
    by (intro sum.cong [OF refl], subst sum_innermost_first [symmetric], intro sum.cong [OF refl], rule sum.swap)
  also have "\<dots> = (\<Sum>n \<in> {0..<batch}. \<Sum>ic \<in> {0..<ics}. \<Sum>iw \<in> {0..<iws}. ?x n ic iw
           * conv1d_backward_input_value (ring_arith lt) mem g w ics ocs ows kw stride padding n ic iw)"
    unfolding grad ..
  also have "\<dots> = (\<Sum>j \<in> {0..<batch * ics * iws}. mem (x + j) * ?G j)"
    unfolding sum_grid3 [OF assms(1,3), symmetric] by simp
  finally show "(\<Sum>j \<in> {0..<batch * ocs * ows}. mem (g + j)
          * convolution mem x w ics iws kw stride padding (j div ows div ocs) (j div ows mod ocs) (j mod ows))
      = (\<Sum>j \<in> {0..<batch * ics * iws}. mem (x + j) * ?G j)" .
qed

text \<open>One row of two words at 0, a kernel of one word at 2, two output gradients at 3, padding 1.\<close>

theorem conv1d_input_gradient_transpose_witness:
  "\<exists>G :: int \<Rightarrow> int. conv1d_backward_input_element (ring_arith (<)) 3 2 6 1 1 2 4 1 1 1 1 (\<lambda>x. x :: int)
        = Some ((\<lambda>x. x)(6 + 1 := G 1))
    \<and> 4 * (0 * 2) + 5 * (1 * 2) = 0 * G 0 + 1 * G 1"
proof -
  have sets: "{0..<1 :: int} = {0}" "{0..<2 :: int} = {0, 1}" "{0..<4 :: int} = {0, 1, 2, 3}" by auto
  have "0 < (1 :: int)" "0 < (1 :: int)" "0 < (2 :: int)" "0 < (4 :: int)" "0 < (1 :: int)" by simp_all
  from conv1d_input_gradient_transpose [OF this, of 1 "(<)" 3 2 6 1 1 "\<lambda>x. x" 0]
  show ?thesis
    by (elim ex_forward) (simp add: sets convolution_def padded_input_def)
qed

end
