(* ===== verification/ComPort.thy ===== *)
theory ComPort
  imports ComLink DeviceLanes
begin

text \<open>
  Opening and closing the serial port (\<open>gpu_comm/src/com.c\<close>, the POSIX part): \<open>baud_to_speed\<close>,
  \<open>open_com\<close> and \<open>close_com\<close>. The system calls are the fields of a parameter record; the names of the
  platform's flags and speeds are looked up in \<open>po_const\<close>, on a platform that has the two fastest
  speeds. The message on the error stream is left out.
\<close>

record termios =
  c_iflag :: u32
  c_oflag :: u32
  c_cflag :: u32
  c_lflag :: u32
  c_cc :: "nat \<Rightarrow> u8"
  c_ispeed :: u32
  c_ospeed :: u32

definition zero_termios :: termios where
  "zero_termios = \<lparr>c_iflag = 0, c_oflag = 0, c_cflag = 0, c_lflag = 0, c_cc = (\<lambda>_. 0), c_ispeed = 0, c_ospeed = 0\<rparr>"

text \<open>
  \<open>open\<close>, \<open>tcgetattr\<close> (which leaves the structure alone when it fails), \<open>cfsetospeed\<close>, \<open>cfsetispeed\<close>,
  \<open>tcsetattr\<close>, \<open>tcflush\<close>, \<open>malloc\<close> (whether it succeeds) and \<open>close\<close>.
\<close>

record 'w port_ops =
  po_open :: "string \<Rightarrow> 'w \<Rightarrow> int \<times> 'w"
  po_getattr :: "int \<Rightarrow> 'w \<Rightarrow> termios option \<times> 'w"
  po_cfsetospeed :: "u32 \<Rightarrow> termios \<Rightarrow> termios"
  po_cfsetispeed :: "u32 \<Rightarrow> termios \<Rightarrow> termios"
  po_setattr :: "int \<Rightarrow> termios \<Rightarrow> 'w \<Rightarrow> 'w"
  po_flush :: "int \<Rightarrow> 'w \<Rightarrow> 'w"
  po_malloc :: "'w \<Rightarrow> bool \<times> 'w"
  po_close :: "int \<Rightarrow> 'w \<Rightarrow> 'w"
  po_const :: "string \<Rightarrow> u32"
  po_vmin :: nat
  po_vtime :: nat

definition baud_to_speed :: "'w port_ops \<Rightarrow> int \<Rightarrow> u32" where
  "baud_to_speed po baud =
     (if baud = 9600 then po_const po ''B9600''
      else if baud = 19200 then po_const po ''B19200''
      else if baud = 38400 then po_const po ''B38400''
      else if baud = 57600 then po_const po ''B57600''
      else if baud = 115200 then po_const po ''B115200''
      else if baud = 230400 then po_const po ''B230400''
      else if baud = 460800 then po_const po ''B460800''
      else if baud = 921600 then po_const po ''B921600''
      else - 1)"

definition any_flag :: "'w port_ops \<Rightarrow> string list \<Rightarrow> u32" where
  "any_flag po names = foldr (\<lambda>n m. po_const po n OR m) names 0"

definition vtime_of :: "int \<Rightarrow> int" where
  "vtime_of timeout_ms =
     (let vtime = (case cdiv (timeout_ms + 99) 100 of Some q \<Rightarrow> q | None \<Rightarrow> 0);
          at_least = (if vtime < 1 then 1 else vtime)
      in if at_least > 255 then 255 else at_least)"

definition port_settings :: "'w port_ops \<Rightarrow> int \<Rightarrow> int \<Rightarrow> termios \<Rightarrow> termios" where
  "port_settings po baud timeout_ms tty0 =
     (let sp = baud_to_speed po baud;
          tty = po_cfsetispeed po sp (po_cfsetospeed po sp tty0);
          cflag = ((((c_cflag tty AND NOT (any_flag po [''CSIZE''])) OR any_flag po [''CS8''])
                      OR any_flag po [''CLOCAL'', ''CREAD''])
                     AND NOT (any_flag po [''PARENB'', ''PARODD'']))
                    AND NOT (any_flag po [''CSTOPB''])
                    AND NOT (any_flag po [''CRTSCTS'']);
          iflag = c_iflag tty AND NOT (any_flag po [''IXON'', ''IXOFF'', ''IXANY''])
                    AND NOT (any_flag po [''IGNBRK'', ''BRKINT'', ''ICRNL'', ''INLCR'', ''PARMRK'', ''INPCK'', ''ISTRIP''])
      in tty\<lparr>c_cflag := cflag, c_iflag := iflag, c_oflag := 0, c_lflag := 0,
             c_cc := (c_cc tty)(po_vmin po := 0, po_vtime po := of_int (vtime_of timeout_ms))\<rparr>)"

text \<open>\<open>timeout_ms + 99\<close> overflows an \<open>int\<close> for the last 99 values.\<close>

definition open_com :: "'w port_ops \<Rightarrow> string \<Rightarrow> int \<Rightarrow> int \<Rightarrow> ('w, exn, com_dev option) action" where
  "open_com po port baud timeout_ms w =
     (let (fd, w1) = po_open po port w
      in if fd < 0 then (Inr None, w1)
         else if timeout_ms + 99 \<ge> 2 ^ 31 then (Inl (Undefined ''signed integer overflow''), w1)
         else
           let (got, w2) = po_getattr po fd w1;
               tty0 = (case got of None \<Rightarrow> zero_termios | Some t \<Rightarrow> t);
               w3 = po_flush po fd (po_setattr po fd (port_settings po baud timeout_ms tty0) w2);
               (allocated, w4) = po_malloc po w3
           in if \<not> allocated then (Inr None, po_close po fd w4)
              else (Inr (Some \<lparr>dev_fd = fd, dev_timeout_ms = timeout_ms\<rparr>), w4))"

definition close_com :: "'w port_ops \<Rightarrow> com_dev option \<Rightarrow> 'w \<Rightarrow> 'w" where
  "close_com po dev w = (case dev of None \<Rightarrow> w | Some d \<Rightarrow> po_close po (dev_fd d) w)"

text \<open>A port of one serial line: its state is the settings, kept until they are set again.\<close>

definition line_ops :: "termios port_ops" where
  "line_ops =
     \<lparr>po_open = (\<lambda>_ w. (3, w)), po_getattr = (\<lambda>_ w. (Some w, w)),
      po_cfsetospeed = (\<lambda>s t. if s \<le> 0x100F then t\<lparr>c_ospeed := s\<rparr> else t),
      po_cfsetispeed = (\<lambda>s t. if s \<le> 0x100F then t\<lparr>c_ispeed := s\<rparr> else t),
      po_setattr = (\<lambda>_ t _. t), po_flush = (\<lambda>_ w. w), po_malloc = (\<lambda>w. (True, w)), po_close = (\<lambda>_ w. w),
      po_const = (\<lambda>n. case map_of
        [(''CSIZE'', 0x30), (''CS8'', 0x30), (''CSTOPB'', 0x40), (''CREAD'', 0x80), (''PARENB'', 0x100), (''PARODD'', 0x200),
         (''CLOCAL'', 0x800), (''CRTSCTS'', 0x80000000), (''IGNBRK'', 1), (''BRKINT'', 2), (''PARMRK'', 8), (''INPCK'', 0x10),
         (''ISTRIP'', 0x20), (''INLCR'', 0x40), (''ICRNL'', 0x100), (''IXON'', 0x400), (''IXANY'', 0x800), (''IXOFF'', 0x1000),
         (''B9600'', 0xD), (''B19200'', 0xE), (''B38400'', 0xF), (''B57600'', 0x1001), (''B115200'', 0x1002), (''B230400'', 0x1003),
         (''B460800'', 0x1004), (''B921600'', 0x1007)] n of Some v \<Rightarrow> v | None \<Rightarrow> 0),
      po_vmin = 6, po_vtime = 5\<rparr>"

definition flags_apart :: "'w port_ops \<Rightarrow> bool" where
  "flags_apart po \<longleftrightarrow>
     po_const po ''CS8'' AND NOT (po_const po ''CSIZE'') = 0 \<and>
     list_all (\<lambda>m. list_all (\<lambda>n. po_const po m AND po_const po n = 0)
         [''CSTOPB'', ''PARENB'', ''PARODD'', ''CRTSCTS'']) [''CSIZE'', ''CLOCAL'', ''CREAD''] \<and>
     po_const po ''CSIZE'' AND (po_const po ''CLOCAL'' OR po_const po ''CREAD'') = 0 \<and>
     po_vmin po \<noteq> po_vtime po"


section \<open>What is set\<close>

lemma u32_eq_iff: "(a :: u32) = b \<longleftrightarrow> (\<forall>n < 32. bit a n \<longleftrightarrow> bit b n)"
  by (auto intro: bit_word_eqI)

lemma and_zero_bits: "(a AND b :: u32) = 0 \<longleftrightarrow> (\<forall>n. \<not> (bit a n \<and> bit b n))"
  using bit_imp_le_length [of a] by (fastforce simp: u32_eq_iff bit_and_iff)

lemma vtime_of_bounds:
  "1 \<le> vtime_of t" "vtime_of t \<le> 255" "0 < t \<Longrightarrow> t \<le> 25500 \<Longrightarrow> t \<le> 100 * vtime_of t \<and> 100 * vtime_of t < t + 100"
  by (auto simp: vtime_of_def cdiv_def Let_def)

lemma flags_apart_bits:
  fixes x y :: u32
  assumes "flags_apart po"
  defines "flag \<equiv> po_const po"
  defines "cflag \<equiv> ((((x AND NOT (flag ''CSIZE'')) OR flag ''CS8'') OR (flag ''CLOCAL'' OR flag ''CREAD''))
      AND NOT (flag ''PARENB'' OR flag ''PARODD'')) AND NOT (flag ''CSTOPB'') AND NOT (flag ''CRTSCTS'')"
  defines "iflag \<equiv> y AND NOT (flag ''IXON'' OR (flag ''IXOFF'' OR flag ''IXANY''))
      AND NOT (flag ''IGNBRK'' OR (flag ''BRKINT'' OR (flag ''ICRNL'' OR (flag ''INLCR'' OR (flag ''PARMRK'' OR (flag ''INPCK'' OR flag ''ISTRIP''))))))"
  shows "cflag AND flag ''CSIZE'' = flag ''CS8''"
    "cflag AND (flag ''PARENB'' OR flag ''PARODD'' OR flag ''CSTOPB'' OR flag ''CRTSCTS'') = 0"
    "cflag AND (flag ''CLOCAL'' OR flag ''CREAD'') = (flag ''CLOCAL'' OR flag ''CREAD'')"
    "iflag AND (flag ''IXON'' OR flag ''IXOFF'' OR flag ''ICRNL'' OR flag ''INLCR'' OR flag ''ISTRIP'') = 0"
proof -
  have "\<not> (bit (flag ''CS8'') n \<and> \<not> bit (flag ''CSIZE'') n)" if "n < 32" for n
    using assms(1) that by (auto simp: flags_apart_def flag_def and_zero_bits bit_not_iff)
  moreover have "\<not> (bit (flag m) n \<and> bit (flag k) n)"
    if "m \<in> {''CSIZE'', ''CLOCAL'', ''CREAD''}" "k \<in> {''CSTOPB'', ''PARENB'', ''PARODD'', ''CRTSCTS''}" for m k n
    using assms(1) that by (auto simp: flags_apart_def flag_def and_zero_bits)
  moreover have "\<not> (bit (flag ''CSIZE'') n \<and> (bit (flag ''CLOCAL'') n \<or> bit (flag ''CREAD'') n))" for n
    using assms(1) by (auto simp: flags_apart_def flag_def and_zero_bits bit_or_iff)
  ultimately have b: "\<And>n. n < 32 \<Longrightarrow> bit (flag ''CS8'') n \<Longrightarrow> bit (flag ''CSIZE'') n"
    "\<And>m n. m \<in> {''CSIZE'', ''CLOCAL'', ''CREAD''} \<Longrightarrow> bit (flag m) n \<Longrightarrow>
       \<not> bit (flag ''CSTOPB'') n \<and> \<not> bit (flag ''PARENB'') n \<and> \<not> bit (flag ''PARODD'') n \<and> \<not> bit (flag ''CRTSCTS'') n"
    "\<And>n. bit (flag ''CSIZE'') n \<Longrightarrow> \<not> bit (flag ''CLOCAL'') n \<and> \<not> bit (flag ''CREAD'') n"
    by blast+
  note c = b(2) [of "''CSIZE''"] b(2) [of "''CLOCAL''"] b(2) [of "''CREAD''"]
  show "cflag AND flag ''CSIZE'' = flag ''CS8''"
    using b(1,3) c by (auto simp: u32_eq_iff cflag_def bit_simps)
  show "cflag AND (flag ''PARENB'' OR flag ''PARODD'' OR flag ''CSTOPB'' OR flag ''CRTSCTS'') = 0"
    by (auto simp: u32_eq_iff cflag_def bit_simps)
  show "cflag AND (flag ''CLOCAL'' OR flag ''CREAD'') = (flag ''CLOCAL'' OR flag ''CREAD'')"
    using c by (auto simp: u32_eq_iff cflag_def bit_simps)
  show "iflag AND (flag ''IXON'' OR flag ''IXOFF'' OR flag ''ICRNL'' OR flag ''INLCR'' OR flag ''ISTRIP'') = 0"
    by (auto simp: u32_eq_iff iflag_def bit_simps)
qed

text \<open>
  Whatever the port was set to before, \<open>open_com\<close> sets it to eight data bits, no parity, one stop
  bit, no flow control, the receiver on, raw input and output, and reads that return after the time-out
  rounded up to tenths of a second, between 1 and 255 of them.
\<close>

theorem open_com_settings:
  assumes "flags_apart po"
  shows "let t = port_settings po baud timeout_ms tty; flag = po_const po in
    c_cflag t AND flag ''CSIZE'' = flag ''CS8'' \<and>
    c_cflag t AND (flag ''PARENB'' OR flag ''PARODD'' OR flag ''CSTOPB'' OR flag ''CRTSCTS'') = 0 \<and>
    c_cflag t AND (flag ''CLOCAL'' OR flag ''CREAD'') = (flag ''CLOCAL'' OR flag ''CREAD'') \<and>
    c_iflag t AND (flag ''IXON'' OR flag ''IXOFF'' OR flag ''ICRNL'' OR flag ''INLCR'' OR flag ''ISTRIP'') = 0 \<and>
    c_oflag t = 0 \<and> c_lflag t = 0 \<and> c_cc t (po_vmin po) = 0 \<and>
    1 \<le> uint (c_cc t (po_vtime po)) \<and>
    (0 < timeout_ms \<and> timeout_ms \<le> 25500 \<longrightarrow>
       timeout_ms \<le> 100 * uint (c_cc t (po_vtime po)) \<and> 100 * uint (c_cc t (po_vtime po)) < timeout_ms + 100)"
proof -
  have v: "uint (of_int (vtime_of timeout_ms) :: u8) = vtime_of timeout_ms"
    using vtime_of_bounds(1,2) [of timeout_ms] by (simp add: uint_word_of_int)
  show ?thesis
    using vtime_of_bounds [of timeout_ms] flags_apart_bits [OF assms] assms
    by (simp add: Let_def port_settings_def any_flag_def v flags_apart_def)
qed


lemma line_flags_apart: "flags_apart line_ops"
  by (simp add: flags_apart_def line_ops_def)

lemma open_com_settings_witness: "c_cflag (port_settings line_ops 115200 5000 zero_termios) AND 0x30 = 0x30"
  using open_com_settings [OF line_flags_apart, of 115200 5000 zero_termios]
  unfolding Let_def by (simp add: line_ops_def)

text \<open>
  A baud rate outside the table is accepted all the same: the speed handed to the system is the
  largest number, the system refuses it, nobody looks, and the port is opened at the speed it had.
\<close>

theorem unsupported_baud_keeps_speed:
  assumes "baud \<notin> {9600, 19200, 38400, 57600, 115200, 230400, 460800, 921600}"
    and refused: "\<And>t. po_cfsetospeed po (- 1) t = t" "\<And>t. po_cfsetispeed po (- 1) t = t"
    and opened: "po_open po port w = (fd, w1)" "0 \<le> fd" "po_getattr po fd w1 = (Some tty, w2)"
    and room: "\<And>v. fst (po_malloc po v)" and timeout: "timeout_ms < 2 ^ 31 - 99"
  shows "(\<exists>w'. open_com po port baud timeout_ms w = (Inr (Some \<lparr>dev_fd = fd, dev_timeout_ms = timeout_ms\<rparr>), w'))
    \<and> c_ospeed (port_settings po baud timeout_ms tty) = c_ospeed tty
    \<and> c_ispeed (port_settings po baud timeout_ms tty) = c_ispeed tty"
proof (intro conjI)
  show "\<exists>w'. open_com po port baud timeout_ms w = (Inr (Some \<lparr>dev_fd = fd, dev_timeout_ms = timeout_ms\<rparr>), w')"
    using opened timeout room [of "po_flush po fd (po_setattr po fd (port_settings po baud timeout_ms tty) w2)"]
    by (cases "po_malloc po (po_flush po fd (po_setattr po fd (port_settings po baud timeout_ms tty) w2))")
      (auto simp: open_com_def)
  have "baud_to_speed po baud = - 1" using assms(1) by (simp add: baud_to_speed_def)
  then show "c_ospeed (port_settings po baud timeout_ms tty) = c_ospeed tty"
    "c_ispeed (port_settings po baud timeout_ms tty) = c_ispeed tty"
    by (simp_all add: port_settings_def refused)
qed

lemma unsupported_baud_keeps_speed_witness:
  "\<exists>w'. open_com line_ops ''/dev/ttyUSB0'' 250000 5000 zero_termios
     = (Inr (Some \<lparr>dev_fd = 3, dev_timeout_ms = 5000\<rparr>), w')"
  by (rule unsupported_baud_keeps_speed [THEN conjunct1, of 250000 line_ops "''/dev/ttyUSB0''" zero_termios 3 zero_termios zero_termios zero_termios 5000])
    (simp_all add: line_ops_def word_le_nat_alt unsigned_minus_1_eq_mask mask_eq_exp_minus_1)

section \<open>The ports\<close>

text \<open>
  What the system promises of its ports: \<open>opened\<close> are the descriptors in use; opening takes a new one,
  closing gives it back, and the other calls take none.
\<close>

definition port_laws :: "'w port_ops \<Rightarrow> ('w \<Rightarrow> int set) \<Rightarrow> bool" where
  "port_laws po opened \<longleftrightarrow>
     (\<forall>port w fd w'. po_open po port w = (fd, w') \<longrightarrow>
        (if fd < 0 then opened w' = opened w else fd \<notin> opened w \<and> opened w' = insert fd (opened w)))
     \<and> (\<forall>fd w. opened (snd (po_getattr po fd w)) = opened w)
     \<and> (\<forall>fd t w. opened (po_setattr po fd t w) = opened w)
     \<and> (\<forall>fd w. opened (po_flush po fd w) = opened w)
     \<and> (\<forall>w. opened (snd (po_malloc po w)) = opened w)
     \<and> (\<forall>fd w. opened (po_close po fd w) = opened w - {fd})"

lemma port_lawsD:
  assumes "port_laws po opened"
  shows "opened (snd (po_getattr po fd w)) = opened w" and "opened (po_setattr po fd t w) = opened w"
    and "opened (po_flush po fd w) = opened w" and "opened (snd (po_malloc po w)) = opened w"
    and "opened (po_close po fd w) = opened w - {fd}"
    and "po_open po port w = (fd, w') \<Longrightarrow>
      if fd < 0 then opened w' = opened w else fd \<notin> opened w \<and> opened w' = insert fd (opened w)"
  using assms by (simp_all add: port_laws_def)

lemma open_com_ports:
  assumes "port_laws po opened" and "timeout_ms < 2 ^ 31 - 99" and "open_com po port baud timeout_ms w = (r, w')"
  shows "case r of Inl _ \<Rightarrow> False | Inr None \<Rightarrow> opened w' = opened w
     | Inr (Some dev) \<Rightarrow> dev_fd dev \<notin> opened w \<and> opened w' = insert (dev_fd dev) (opened w)"
proof -
  note laws = port_lawsD [OF assms(1)]
  obtain fd w1 where o: "po_open po port w = (fd, w1)" by (metis prod.exhaust)
  then have fd: "if fd < 0 then opened w1 = opened w else fd \<notin> opened w \<and> opened w1 = insert fd (opened w)"
    using laws(6) by blast
  obtain got w2 where g: "po_getattr po fd w1 = (got, w2)" by (metis prod.exhaust)
  define w3 where "w3 = po_flush po fd (po_setattr po fd (port_settings po baud timeout_ms
      (case got of None \<Rightarrow> zero_termios | Some t \<Rightarrow> t)) w2)"
  obtain a w4 where a: "po_malloc po w3 = (a, w4)" by (metis prod.exhaust)
  have "opened (snd (po_getattr po fd w1)) = opened w1" "opened (snd (po_malloc po w3)) = opened w3"
    "opened w3 = opened w2" "opened (po_close po fd w4) = opened w4 - {fd}"
    by (simp_all add: w3_def laws)
  then have same: "opened w4 = opened w1" "opened (po_close po fd w4) = opened w1 - {fd}" using g a by simp_all
  have "open_com po port baud timeout_ms w = (if fd < 0 then (Inr None, w1) else if \<not> a then (Inr None, po_close po fd w4)
      else (Inr (Some \<lparr>dev_fd = fd, dev_timeout_ms = timeout_ms\<rparr>), w4))"
    using assms(2) a by (simp add: open_com_def o g Let_def w3_def)
  then show ?thesis using assms(3) fd same by (auto split: if_splits)
qed

lemma close_com_ports: "port_laws po opened \<Longrightarrow> opened (close_com po (Some dev) w) = opened w - {dev_fd dev}"
  by (simp add: close_com_def port_laws_def)

text \<open>The world is the list of open descriptors; opening takes the one after the largest.\<close>

definition counted_ops :: "int list port_ops" where
  "counted_ops =
     \<lparr>po_open = (\<lambda>_ w. (foldr max w 2 + 1, (foldr max w 2 + 1) # w)), po_getattr = (\<lambda>_ w. (None, w)),
      po_cfsetospeed = (\<lambda>_ t. t), po_cfsetispeed = (\<lambda>_ t. t), po_setattr = (\<lambda>_ _ w. w), po_flush = (\<lambda>_ w. w),
      po_malloc = (\<lambda>w. (True, w)), po_close = (\<lambda>fd w. filter (\<lambda>x. x \<noteq> fd) w), po_const = (\<lambda>_. 0),
      po_vmin = 6, po_vtime = 5\<rparr>"

lemma counted_laws: "port_laws counted_ops set"
proof -
  have "x \<le> foldr max w 2" if "x \<in> set w" for x :: int and w
    using that by (induction w) auto
  moreover have "2 \<le> foldr max w (2 :: int)" for w by (induction w) auto
  ultimately have "foldr max w 2 + 1 \<notin> set w" "\<not> foldr max w (2 :: int) + 1 < 0" for w
    by (force, smt (verit))
  then show ?thesis by (auto simp: port_laws_def counted_ops_def)
qed

end
