(* ===== verification/Programs.thy ===== *)
theory Programs
  imports DeviceMemory
begin

text \<open>
  Instruction memory: the program cache of \<open>minigpu::Context\<close> (\<open>runtime/src/minigpu_runtime.cpp\<close>)
  with its first-fit slot allocator and its least-recently-used eviction, and the two plain uploads
  \<open>write_program\<close> and \<open>write_constants\<close>. The program blocks tile the instruction memory the way the
  data blocks tile the data memory, and the slots in use belong to the cache entries, except after a
  failed upload.
\<close>

section \<open>Uploads\<close>

definition write_program :: "u32 \<Rightarrow> bytes option \<Rightarrow> u64 \<Rightarrow> ('d sys, exn, unit) action" where
  "write_program dst_addr program sz s =
     (let (c, d) = s
      in if program = None \<and> sz \<noteq> 0 then (Inl (error BadArgument), s)
      else if sz = 0 then (Inr (), s)
      else case tr_write_program (ctx_transport c) of
          None \<Rightarrow> (Inl (error Unsupported), s)
        | Some write \<Rightarrow>
            let c' = log_event (''write_program addr=0x'' @ hex (unat dst_addr)
                        @ '' bytes='' @ dec (unat sz)) c
            in (case write dst_addr program sz d of
                  (Inl e, d') \<Rightarrow> (Inl e, (c', d'))
                | (Inr st, d') \<Rightarrow> check st (c', d')))"

definition write_constants :: "u32 \<Rightarrow> bytes option \<Rightarrow> u64 \<Rightarrow> ('d sys, exn, unit) action" where
  "write_constants dst_addr constants sz s =
     (let (c, d) = s
      in if constants = None \<and> sz \<noteq> 0 then (Inl (error BadArgument), s)
      else if sz = 0 then (Inr (), s)
      else case tr_write_constants (ctx_transport c) of
          None \<Rightarrow> (Inl (error Unsupported), s)
        | Some write \<Rightarrow>
            let c' = log_event (''write_constants addr=0x'' @ hex (unat dst_addr)
                        @ '' bytes='' @ dec (unat sz)) c
            in (case write dst_addr constants sz d of
                  (Inl e, d') \<Rightarrow> (Inl e, (c', d'))
                | (Inr st, d') \<Rightarrow> check st (c', d')))"

section \<open>Eviction\<close>

definition coalesce_program_blocks :: "block list \<Rightarrow> block list" where
  "coalesce_program_blocks blocks = coalesce_from 0 blocks"

text \<open>\<open>std::min_element\<close> by \<open>last_used\<close>: the position of the first smallest entry.\<close>

fun lru_from :: "nat \<Rightarrow> nat \<Rightarrow> u64 \<Rightarrow> program_cache_entry list \<Rightarrow> nat" where
  "lru_from best i smallest [] = best"
| "lru_from best i smallest (e # es) =
     (if ce_last_used e < smallest then lru_from i (i + 1) (ce_last_used e) es
      else lru_from best (i + 1) smallest es)"

fun lru_index :: "program_cache_entry list \<Rightarrow> nat" where
  "lru_index [] = 0"
| "lru_index (e # es) = lru_from 0 1 (ce_last_used e) es"

fun release_slot :: "u32 \<Rightarrow> u64 \<Rightarrow> block list \<Rightarrow> block list" where
  "release_slot addr sz [] = []"
| "release_slot addr sz (b # bs) =
     (if \<not> bfree b \<and> boffset b = addr \<and> bsize b = sz then b\<lparr>bfree := True\<rparr> # bs
      else b # release_slot addr sz bs)"

definition evict_lru_program :: "'d gpu_context \<Rightarrow> bool \<times> 'd gpu_context" where
  "evict_lru_program c =
     (if ctx_program_cache c = [] then (False, c)
      else
        let k = lru_index (ctx_program_cache c);
            victim = ctx_program_cache c ! k;
            c1 = log_event (''evict_program name='' @ ce_name victim
                   @ '' addr=0x'' @ hex (unat (ce_addr victim))
                   @ '' bytes='' @ dec (unat (ce_size victim))) c
        in (True, c1\<lparr>ctx_program_blocks := coalesce_program_blocks
                        (release_slot (ce_addr victim) (ce_size victim) (ctx_program_blocks c1)),
                     ctx_program_cache := erase_at k (ctx_program_cache c1)\<rparr>))"

lemma lru_from_bound: "best < i \<Longrightarrow> lru_from best i m es < i + length es"
  by (induction best i m es rule: lru_from.induct) (auto split: if_splits)

lemma lru_index_bound [simp]: "es \<noteq> [] \<Longrightarrow> lru_index es < length es"
  using lru_from_bound [of 0 1] by (cases es) auto

lemma evict_shrinks [simp]:
  "ctx_program_cache c \<noteq> [] \<Longrightarrow>
     length (ctx_program_cache (snd (evict_lru_program c))) = length (ctx_program_cache c) - 1"
  by (simp add: evict_lru_program_def Let_def)

section \<open>Slots\<close>

text \<open>The inner loop: the first free block that is large enough.\<close>

fun find_slot :: "u64 \<Rightarrow> nat \<Rightarrow> block list \<Rightarrow> nat option" where
  "find_slot sz index [] = None"
| "find_slot sz index (b # bs) =
     (if \<not> bfree b \<or> bsize b < sz then find_slot sz (index + 1) bs else Some index)"

function allocate_slot_loop ::
    "string \<Rightarrow> u64 \<Rightarrow> 'd gpu_context \<Rightarrow> (exn + u32) \<times> 'd gpu_context" where
  "allocate_slot_loop name sz c =
     (case find_slot sz 0 (ctx_program_blocks c) of
        Some index \<Rightarrow>
          let addr = boffset (ctx_program_blocks c ! index)
          in (Inr addr,
              log_event (''allocate_program name='' @ name @ '' addr=0x'' @ hex (unat addr)
                          @ '' bytes='' @ dec (unat sz))
                (c\<lparr>ctx_program_blocks := claim_at index sz (ctx_program_blocks c)\<rparr>))
      | None \<Rightarrow>
          if ctx_program_cache c = [] then (Inl (error NoMemory), c)
          else allocate_slot_loop name sz (snd (evict_lru_program c)))"
  by pat_completeness auto
termination
  by (relation "measure (\<lambda>(name, sz, c). length (ctx_program_cache c))") auto

declare allocate_slot_loop.simps [simp del]

definition allocate_program_slot :: "string \<Rightarrow> u64 \<Rightarrow> ('d gpu_context, exn, u32) action" where
  "allocate_program_slot name sz c =
     (if sz = 0 \<or> unat sz mod 4 \<noteq> 0 then (Inl (error BadArgument), c)
      else if sz > ctx_program_memory_size c then (Inl (error NoMemory), c)
      else allocate_slot_loop name sz c)"

section \<open>Loading a program\<close>

text \<open>The cache lookup: a hit gets the new time stamp.\<close>

fun touch_entry ::
    "string \<Rightarrow> u64 \<Rightarrow> program_cache_entry list \<Rightarrow> (u32 \<times> program_cache_entry list) option" where
  "touch_entry name clock [] = None"
| "touch_entry name clock (e # es) =
     (if ce_name e = name then Some (ce_addr e, e\<lparr>ce_last_used := clock\<rparr> # es)
      else map_option (\<lambda>(a, es'). (a, e # es')) (touch_entry name clock es))"

definition cache_name :: "precompiled_kernel \<Rightarrow> string" where
  "cache_name pk = (if pk_program_id pk = [] then pk_name pk else pk_program_id pk)"

definition kernel_image :: "precompiled_kernel \<Rightarrow> bytes option \<times> u64" where
  "kernel_image pk =
     (if pk_program_bytes pk = [] then (pk_program pk, pk_program_size pk)
      else (Some (pk_program_bytes pk), of_nat (length (pk_program_bytes pk))))"

definition validate_loaded :: "u8 \<Rightarrow> ('d sys, exn, unit) action" where
  "validate_loaded kernel_id s =
     (case tr_validate_kernel (ctx_transport (fst s)) of
        None \<Rightarrow> (Inl (error Unsupported), s)
      | Some validate \<Rightarrow>
          (case validate kernel_id (snd s) of
             (Inl e, d') \<Rightarrow> (Inl e, (fst s, d'))
           | (Inr st, d') \<Rightarrow> check st (fst s, d')))"

definition cache_insert :: "string \<Rightarrow> u32 \<Rightarrow> u64 \<Rightarrow> 'd gpu_context \<Rightarrow> 'd gpu_context" where
  "cache_insert name addr sz c =
     c\<lparr>ctx_program_cache_clock := ctx_program_cache_clock c + 1,
       ctx_program_cache := ctx_program_cache c @
         [\<lparr>ce_name = name, ce_addr = addr, ce_size = sz,
           ce_last_used = ctx_program_cache_clock c + 1\<rparr>]\<rparr>"

definition ensure_program_loaded :: "precompiled_kernel \<Rightarrow> u8 \<Rightarrow> ('d sys, exn, u32) action" where
  "ensure_program_loaded pk kernel_id s =
     (let (c, d) = s; name = cache_name pk; (program, sz) = kernel_image pk
      in case touch_entry name (ctx_program_cache_clock c + 1) (ctx_program_cache c) of
           Some (addr, cache) \<Rightarrow>
             (Inr addr, (c\<lparr>ctx_program_cache_clock := ctx_program_cache_clock c + 1,
                            ctx_program_cache := cache\<rparr>, d))
         | None \<Rightarrow>
             if program = None \<or> sz = 0 then (Inl (error BadArgument), s)
             else
               andThen (on_context (allocate_program_slot name sz)) (\<lambda>addr.
               andThen (write_program addr program sz) (\<lambda>_.
               andThen (validate_loaded kernel_id) (\<lambda>_.
               andThen (modify (\<lambda>(c, d). (cache_insert name addr sz c, d))) (\<lambda>_.
               ret addr)))) s)"

section \<open>The cache invariant\<close>

text \<open>Everything outside the program blocks, the cache, its clock and the log is as before.\<close>

definition cache_only :: "'d gpu_context \<Rightarrow> 'd gpu_context \<Rightarrow> bool" where
  "cache_only c c' \<longleftrightarrow>
     ctx_memory_base c' = ctx_memory_base c \<and> ctx_memory_size c' = ctx_memory_size c \<and>
     ctx_program_memory_size c' = ctx_program_memory_size c \<and>
     ctx_compiler_spill_base c' = ctx_compiler_spill_base c \<and>
     ctx_compiler_spill_size c' = ctx_compiler_spill_size c \<and>
     ctx_default_alignment c' = ctx_default_alignment c \<and> ctx_transport c' = ctx_transport c \<and>
     ctx_blocks c' = ctx_blocks c \<and> ctx_kernels c' = ctx_kernels c"

lemma cache_only_refl [simp]: "cache_only c c"
  by (simp add: cache_only_def)

lemma cache_only_log [simp]: "cache_only c (log_event e c') = cache_only c c'"
  "cache_only (log_event e c) c' = cache_only c c'"
  by (simp_all add: cache_only_def)

lemma cache_only_trans: "cache_only c c1 \<Longrightarrow> cache_only c1 c2 \<Longrightarrow> cache_only c c2"
  by (simp add: cache_only_def)

lemma cache_only_mem_ok: "cache_only c c' \<Longrightarrow> mem_ok c' = mem_ok c"
  by (simp add: cache_only_def mem_ok_def mem_lo_def mem_hi_def memory_size_def)

definition slot_of :: "program_cache_entry \<Rightarrow> nat \<times> nat" where
  "slot_of e = (unat (ce_addr e), unat (ce_size e))"

definition slots :: "'d gpu_context \<Rightarrow> (nat \<times> nat) set" where
  "slots c = slot_of ` set (ctx_program_cache c)"

text \<open>Slots in use that no cache entry stands for.\<close>

definition leaked :: "'d gpu_context \<Rightarrow> (nat \<times> nat) set" where
  "leaked c = live (ctx_program_blocks c) - slots c"

definition prog_ok :: "'d gpu_context \<Rightarrow> bool" where
  "prog_ok c \<longleftrightarrow>
     unat (ctx_program_memory_size c) < 2 ^ 32 \<and> 0 < unat (ctx_program_memory_size c) \<and>
     tiles 0 (ctx_program_blocks c) (unat (ctx_program_memory_size c)) \<and>
     packed (ctx_program_blocks c) \<and>
     slots c \<subseteq> live (ctx_program_blocks c) \<and>
     distinct (map ce_addr (ctx_program_cache c)) \<and> distinct (map ce_name (ctx_program_cache c))"

lemma prog_ok_log [simp]: "prog_ok (log_event e c) = prog_ok c" "slots (log_event e c) = slots c"
  "leaked (log_event e c) = leaked c"
  by (simp_all add: prog_ok_def slots_def leaked_def)

section \<open>Which entry is evicted\<close>

lemma lru_from_least:
  assumes "best < i" and "\<forall>j < i. m \<le> ce_last_used (es0 ! j)" and "m = ce_last_used (es0 ! best)"
    and "es = drop i es0"
  shows "\<forall>j < length es0. ce_last_used (es0 ! lru_from best i m es) \<le> ce_last_used (es0 ! j)"
  using assms
proof (induction best i m es rule: lru_from.induct)
  case (1 best i m)
  then have "length es0 \<le> i" by simp
  then show ?case using 1 by simp
next
  case (2 best i m e es)
  have i: "i < length es0" using "2.prems"(4) by (metis drop_eq_Nil list.discI not_le)
  then have e: "e = es0 ! i" "es = drop (i + 1) es0"
    using "2.prems"(4) by (metis Cons_nth_drop_Suc list.inject Suc_eq_plus1)+
  show ?case
  proof (cases "ce_last_used e < m")
    case True
    have "\<forall>j < i + 1. ce_last_used e \<le> ce_last_used (es0 ! j)"
      using True "2.prems"(2) e(1) by (metis Suc_eq_plus1 less_SucE order.strict_implies_order order.trans order_refl)
    then show ?thesis using "2.IH"(1) [OF True] True e by simp
  next
    case False
    have "\<forall>j < i + 1. m \<le> ce_last_used (es0 ! j)"
      using False "2.prems"(2) e(1) by (metis Suc_eq_plus1 less_SucE not_less)
    then show ?thesis using "2.IH"(2) [OF False] False e "2.prems"(1,3) by simp
  qed
qed

lemma lru_index_least:
  assumes "e \<in> set es"
  shows "ce_last_used (es ! lru_index es) \<le> ce_last_used e"
proof -
  obtain f fs where es: "es = f # fs" using assms by (cases es) auto
  obtain j where j: "j < length es" "e = es ! j" using assms by (metis in_set_conv_nth)
  have "\<forall>j < length es. ce_last_used (es ! lru_from 0 1 (ce_last_used f) fs) \<le> ce_last_used (es ! j)"
    by (rule lru_from_least) (simp_all add: es)
  then show ?thesis using j es by simp
qed

lemma set_erase_at:
  assumes "distinct (map f xs)" and "k < length xs"
  shows "set (erase_at k xs) = {x \<in> set xs. f x \<noteq> f (xs ! k)}"
    and "distinct (map f (erase_at k xs))"
proof -
  have xs: "xs = take k xs @ xs ! k # drop (Suc k) xs" using assms(2) by (rule id_take_nth_drop)
  then have "distinct (map f (take k xs @ xs ! k # drop (Suc k) xs))" using assms(1) by simp
  then show "distinct (map f (erase_at k xs))" by (simp add: erase_at_def)
  have "set xs = set (take k xs) \<union> {xs ! k} \<union> set (drop (Suc k) xs)" using xs by (metis Un_insert_right list.simps(15) set_append sup_bot_right sup_commute sup_left_commute)
  then show "set (erase_at k xs) = {x \<in> set xs. f x \<noteq> f (xs ! k)}"
    using \<open>distinct (map f (take k xs @ xs ! k # drop (Suc k) xs))\<close>
    by (auto simp: erase_at_def) (metis image_eqI)+
qed

lemma release_slot_mark_free:
  assumes "tiles lo bs hi" and "(unat addr, unat sz) \<in> live bs"
  shows "mark_free addr bs = Some (release_slot addr sz bs)"
  using assms
proof (induction bs arbitrary: lo)
  case (Cons b bs)
  have fn: "(unat addr, n) \<in> live (b # bs) \<Longrightarrow> n = unat sz" for n
    using live_functional [OF Cons.prems(1) _ Cons.prems(2)] by blast
  show ?case
  proof (cases "\<not> bfree b \<and> boffset b = addr")
    case True
    then have "bsize b = sz" using fn [of "unat (bsize b)"] by (simp add: word_unat_eq_iff)
    then show ?thesis using True by simp
  next
    case False
    then have "(unat addr, unat sz) \<in> live bs"
      using Cons.prems(2) by (auto simp: word_unat_eq_iff split: if_splits)
    then show ?thesis using Cons.IH [of "lo + unat (bsize b)"] Cons.prems(1) False by auto
  qed
qed simp

lemma coalesce_program_blocks_eq: "coalesce_program_blocks bs = coalesce bs"
  by (simp add: coalesce_program_blocks_def coalesce_from_coalesce)

lemma evict_eq:
  assumes "ctx_program_cache c \<noteq> []"
  shows "\<exists>e. evict_lru_program c = (True, (log_event e c)\<lparr>ctx_program_blocks :=
             coalesce (release_slot (ce_addr (ctx_program_cache c ! lru_index (ctx_program_cache c)))
               (ce_size (ctx_program_cache c ! lru_index (ctx_program_cache c))) (ctx_program_blocks c)),
           ctx_program_cache := erase_at (lru_index (ctx_program_cache c)) (ctx_program_cache c)\<rparr>)"
  unfolding evict_lru_program_def Let_def coalesce_program_blocks_eq log_event_frame
    if_not_P [OF assms] by (rule exI, rule refl)

text \<open>Evicting gives back the slot of a least recently used entry and nothing else.\<close>

lemma evict_correct:
  assumes ok: "prog_ok c" and ne: "ctx_program_cache c \<noteq> []"
    and run: "evict_lru_program c = (r, c')"
  shows "prog_ok c'" and "r" and "leaked c' = leaked c"
    and "\<exists>v \<in> set (ctx_program_cache c). (\<forall>e \<in> set (ctx_program_cache c). ce_last_used v \<le> ce_last_used e)
           \<and> set (ctx_program_cache c') = set (ctx_program_cache c) - {v}"
    and "cache_only c c'" and "ctx_program_cache_clock c' = ctx_program_cache_clock c"
proof -
  let ?es = "ctx_program_cache c" and ?bs = "ctx_program_blocks c"
  let ?k = "lru_index ?es"
  let ?v = "?es ! ?k"
  have k: "?k < length ?es" using ne by simp
  then have v: "?v \<in> set ?es" by simp
  have dist: "distinct (map ce_addr ?es)" "distinct (map ce_name ?es)"
    and tile: "tiles 0 ?bs (unat (ctx_program_memory_size c))"
    and small: "unat (ctx_program_memory_size c) < 2 ^ 32"
    and sub: "slots c \<subseteq> live ?bs"
    using ok by (simp_all add: prog_ok_def)
  have lv: "(unat (ce_addr ?v), unat (ce_size ?v)) \<in> live ?bs"
    using sub v by (auto simp: slots_def slot_of_def)
  let ?bs' = "release_slot (ce_addr ?v) (ce_size ?v) ?bs"
  note mark = release_slot_mark_free [OF tile lv]
  note m = mark_free_correct [OF tile mark]
  note co = coalesce_correct [OF m(1) small]
  obtain e where c': "c' = (log_event e c)\<lparr>ctx_program_blocks := coalesce ?bs',
        ctx_program_cache := erase_at ?k ?es\<rparr>" and r: r
    using run evict_eq [OF ne] by auto
  have cache: "set (ctx_program_cache c') = {x \<in> set ?es. ce_addr x \<noteq> ce_addr ?v}"
    using set_erase_at(1) [OF dist(1) k] c' by simp
  have live': "live (ctx_program_blocks c') = {q \<in> live ?bs. fst q \<noteq> unat (ce_addr ?v)}"
    using co m(2) c' by simp
  have slots': "slots c' = {q \<in> slots c. fst q \<noteq> unat (ce_addr ?v)}"
  proof -
    have iff: "fst (slot_of x) = unat (ce_addr ?v) \<longleftrightarrow> ce_addr x = ce_addr ?v" for x
      by (simp add: slot_of_def word_unat_eq_iff)
    have "slots c' = slot_of ` {x \<in> set ?es. ce_addr x \<noteq> ce_addr ?v}"
      by (simp only: slots_def cache)
    also have "\<dots> = {q \<in> slot_of ` set ?es. fst q \<noteq> unat (ce_addr ?v)}"
      by (rule image_Collect_eq) (simp only: iff)
    finally show ?thesis by (simp only: slots_def)
  qed
  show r by (rule r)
  show "prog_ok c'"
  proof -
    have "slots c' \<subseteq> live (ctx_program_blocks c')" using live' slots' sub by blast
    then show ?thesis
      using ok co set_erase_at(2) [OF dist(1) k] set_erase_at(2) [OF dist(2) k] c'
      by (simp add: prog_ok_def)
  qed
  have only: "q \<in> live ?bs \<Longrightarrow> fst q = unat (ce_addr ?v) \<Longrightarrow> q \<in> slots c" for q
    using live_functional [OF tile _ lv, of "snd q"] v
    by (cases q) (auto simp: slots_def slot_of_def image_iff)
  show "leaked c' = leaked c"
    using live' slots' only by (auto simp: leaked_def)
  have "set (ctx_program_cache c') = set ?es - {?v}"
    using cache dist(1) v by (auto simp: distinct_map inj_on_def)
  then show "\<exists>v \<in> set ?es. (\<forall>e \<in> set ?es. ce_last_used v \<le> ce_last_used e)
           \<and> set (ctx_program_cache c') = set ?es - {v}"
    using v lru_index_least by blast
  show "cache_only c c'" "ctx_program_cache_clock c' = ctx_program_cache_clock c"
    by (simp_all add: c' cache_only_def)
qed

section \<open>Taking a slot\<close>

lemma find_slot_Some:
  "find_slot sz i bs = Some k \<Longrightarrow>
     \<exists>j. k = i + j \<and> j < length bs \<and> bfree (bs ! j) \<and> sz \<le> bsize (bs ! j)"
proof (induction sz i bs rule: find_slot.induct)
  case (2 sz i b bs)
  show ?case
  proof (cases "\<not> bfree b \<or> bsize b < sz")
    case True
    then obtain j where "k = i + 1 + j" "j < length bs" "bfree (bs ! j)" "sz \<le> bsize (bs ! j)"
      using 2 by auto
    then show ?thesis by (intro exI [of _ "Suc j"]) simp
  next
    case False
    then have "k = i" using "2.prems" by simp
    then show ?thesis using False by (intro exI [of _ 0]) (simp add: not_less)
  qed
qed simp

lemma find_slot_None: "find_slot sz i bs = None \<longleftrightarrow> (\<forall>b \<in> set bs. \<not> (bfree b \<and> sz \<le> bsize b))"
  by (induction sz i bs rule: find_slot.induct) (auto simp: not_less)

text \<open>
  What eviction may drop: entries none of which was used after an entry that stays.
\<close>

definition lru_subset :: "program_cache_entry set \<Rightarrow> program_cache_entry set \<Rightarrow> bool" where
  "lru_subset kept es \<longleftrightarrow> kept \<subseteq> es \<and> (\<forall>x \<in> es - kept. \<forall>y \<in> kept. ce_last_used x \<le> ce_last_used y)"

lemma lru_subset_refl [simp]: "lru_subset es es"
  by (simp add: lru_subset_def)

lemma lru_subset_evict:
  assumes "v \<in> es" and "\<forall>e \<in> es. ce_last_used v \<le> ce_last_used e" and "lru_subset kept (es - {v})"
  shows "lru_subset kept es"
  using assms unfolding lru_subset_def by blast

lemma slot_at_correct:
  assumes ok: "prog_ok c" and sz: "0 < unat sz"
    and find: "find_slot sz 0 (ctx_program_blocks c) = Some k"
  shows "prog_ok (c\<lparr>ctx_program_blocks := claim_at k sz (ctx_program_blocks c)\<rparr>)"
    and "leaked (c\<lparr>ctx_program_blocks := claim_at k sz (ctx_program_blocks c)\<rparr>)
       = insert (unat (boffset (ctx_program_blocks c ! k)), unat sz) (leaked c)"
    and "r \<in> live (ctx_program_blocks c) \<Longrightarrow>
           \<not> overlaps (unat (boffset (ctx_program_blocks c ! k)), unat sz) r"
    and "unat (boffset (ctx_program_blocks c ! k)) + unat sz \<le> unat (ctx_program_memory_size c)"
proof -
  let ?bs = "ctx_program_blocks c" and ?r = "(unat (boffset (ctx_program_blocks c ! k)), unat sz)"
  have k: "k < length ?bs" "bfree (?bs ! k)" "sz \<le> bsize (?bs ! k)"
    using find_slot_Some [OF find] by auto
  have t: "tiles 0 ?bs (unat (ctx_program_memory_size c))" "unat (ctx_program_memory_size c) < 2 ^ 32"
    using ok by (simp_all add: prog_ok_def)
  note cl = claim_at_correct [OF t k(1,2) sz k(3)]
  show fresh: "r \<in> live ?bs \<Longrightarrow> \<not> overlaps ?r r" for r by (rule cl(4))
  have sub: "slots c \<subseteq> live ?bs" using ok by (simp add: prog_ok_def)
  have "?r \<notin> slots c" using fresh [of ?r] sub sz by (auto simp: overlaps_def)
  then show "leaked (c\<lparr>ctx_program_blocks := claim_at k sz ?bs\<rparr>) = insert ?r (leaked c)"
    using cl(2) by (auto simp: leaked_def slots_def)
  show "prog_ok (c\<lparr>ctx_program_blocks := claim_at k sz ?bs\<rparr>)"
    using ok cl sub by (auto simp: prog_ok_def slots_def)
  show "unat (boffset (?bs ! k)) + unat sz \<le> unat (ctx_program_memory_size c)"
    using tiles_member(3) [OF t(1), of "?bs ! k"] k by (simp add: word_le_nat_alt)
qed

lemma allocate_slot_loop_correct:
  assumes "prog_ok c" and "0 < unat sz" and "allocate_slot_loop name sz c = (r, c')"
  shows "prog_ok c'
    \<and> lru_subset (set (ctx_program_cache c')) (set (ctx_program_cache c))
    \<and> cache_only c c' \<and> ctx_program_cache_clock c' = ctx_program_cache_clock c
    \<and> (case r of
         Inr addr \<Rightarrow> leaked c' = insert (unat addr, unat sz) (leaked c)
           \<and> (unat addr, unat sz) \<notin> leaked c
           \<and> unat addr + unat sz \<le> unat (ctx_program_memory_size c)
       | Inl e \<Rightarrow> e = error NoMemory \<and> leaked c' = leaked c \<and> ctx_program_cache c' = []
           \<and> find_slot sz 0 (ctx_program_blocks c') = None)"
  using assms
proof (induction name sz c rule: allocate_slot_loop.induct)
  case (1 name sz c)
  note step = "1.prems"(3) [unfolded allocate_slot_loop.simps [of name sz c]]
  show ?case
  proof (cases "find_slot sz 0 (ctx_program_blocks c)")
    case (Some k)
    let ?c = "c\<lparr>ctx_program_blocks := claim_at k sz (ctx_program_blocks c)\<rparr>"
    let ?a = "boffset (ctx_program_blocks c ! k)"
    note s = slot_at_correct [OF "1.prems"(1,2) Some]
    obtain e where r: "r = Inr ?a" and c': "c' = log_event e ?c" using step Some by (auto simp: Let_def)
    have fresh: "(unat ?a, unat sz) \<notin> leaked c"
      using s(3) [of "(unat ?a, unat sz)"] "1.prems"(2) by (auto simp: leaked_def overlaps_def)
    have "cache_only c c'" "ctx_program_cache_clock c' = ctx_program_cache_clock c"
      by (simp_all add: c' cache_only_def)
    then show ?thesis using s(1,2,4) fresh r c' by simp
  next
    case None
    show ?thesis
    proof (cases "ctx_program_cache c = []")
      case True
      then have "r = Inl (error NoMemory)" "c' = c" using step None by simp_all
      then show ?thesis using "1.prems"(1) True None by simp
    next
      case False
      obtain b c1 where ev: "evict_lru_program c = (b, c1)" by force
      note e = evict_correct [OF "1.prems"(1) False ev]
      have "allocate_slot_loop name sz c1 = (r, c')" using step None False ev by simp
      then have ih: "prog_ok c' \<and> lru_subset (set (ctx_program_cache c')) (set (ctx_program_cache c1))
          \<and> cache_only c1 c' \<and> ctx_program_cache_clock c' = ctx_program_cache_clock c1
          \<and> (case r of
               Inr addr \<Rightarrow> leaked c' = insert (unat addr, unat sz) (leaked c1)
                 \<and> (unat addr, unat sz) \<notin> leaked c1
                 \<and> unat addr + unat sz \<le> unat (ctx_program_memory_size c1)
             | Inl e \<Rightarrow> e = error NoMemory \<and> leaked c' = leaked c1 \<and> ctx_program_cache c' = []
                 \<and> find_slot sz 0 (ctx_program_blocks c') = None)"
        by (rule "1.IH" [OF None False, unfolded ev snd_conv, OF e(1) "1.prems"(2)])
      have lru: "lru_subset (set (ctx_program_cache c')) (set (ctx_program_cache c))"
        using e(4) ih lru_subset_evict by metis
      have ps: "ctx_program_memory_size c1 = ctx_program_memory_size c"
        using e(5) by (simp add: cache_only_def)
      have fr: "cache_only c c'" "ctx_program_cache_clock c' = ctx_program_cache_clock c"
        using ih e(5,6) cache_only_trans by auto
      show ?thesis using ih lru fr unfolding e(3) ps by blast
    qed
  qed
qed

text \<open>With nothing leaked, an empty cache leaves one free block that takes any admissible program.\<close>

lemma empty_cache_has_room:
  assumes "prog_ok c" and "leaked c = {}" and "ctx_program_cache c = []"
    and "sz \<le> ctx_program_memory_size c"
  shows "find_slot sz i (ctx_program_blocks c) \<noteq> None"
proof -
  have "live (ctx_program_blocks c) = {}" using assms(2,3) by (simp add: leaked_def slots_def)
  then obtain b where "ctx_program_blocks c = [b]" "bfree b"
      "unat (bsize b) = unat (ctx_program_memory_size c)"
    using packed_all_free [of 0 "ctx_program_blocks c" "unat (ctx_program_memory_size c)"] assms(1)
    by (auto simp: prog_ok_def)
  then show ?thesis using assms(4) by (simp add: word_unat_eq_iff [symmetric] not_less)
qed

text \<open>
  C35: a program slot. With a well-formed cache, a request for a positive multiple of four
  bytes that fits the instruction memory returns a slot inside it that no cached program and no
  leaked slot overlaps, evicting only least recently used programs; if no slot has leaked the request
  cannot fail. It fails only with \<open>NoMemory\<close>, after the whole cache was evicted.
\<close>

theorem allocate_program_slot_spec:
  assumes "prog_ok c" and "sz \<noteq> 0" and "unat sz mod 4 = 0" and "sz \<le> ctx_program_memory_size c"
  shows "case allocate_program_slot name sz c of
      (Inr addr, c') \<Rightarrow> prog_ok c' \<and> cache_only c c'
        \<and> lru_subset (set (ctx_program_cache c')) (set (ctx_program_cache c))
        \<and> unat addr + unat sz \<le> unat (ctx_program_memory_size c)
        \<and> live (ctx_program_blocks c') = insert (unat addr, unat sz) (slots c' \<union> leaked c)
        \<and> (\<forall>r \<in> slots c' \<union> leaked c. \<not> overlaps (unat addr, unat sz) r)
    | (Inl e, c') \<Rightarrow> e = error NoMemory \<and> leaked c \<noteq> {} \<and> ctx_program_cache c' = [] \<and> prog_ok c'"
proof -
  obtain r c' where run: "allocate_slot_loop name sz c = (r, c')" by force
  have alloc: "allocate_program_slot name sz c = (r, c')"
    using assms(2-4) run by (auto simp: allocate_program_slot_def not_less)
  have pos: "0 < unat sz" using assms(2) by (simp add: unat_gt_0)
  note L = allocate_slot_loop_correct [OF assms(1) pos run]
  have ok: "prog_ok c'" and only: "cache_only c c'" using L by blast+
  have psz: "ctx_program_memory_size c' = ctx_program_memory_size c"
    using only by (simp add: cache_only_def)
  have live: "live (ctx_program_blocks c') = slots c' \<union> leaked c'"
    using ok by (auto simp: leaked_def prog_ok_def)
  show ?thesis
  proof (cases r)
    case (Inl e)
    have "leaked c \<noteq> {}"
      using L Inl empty_cache_has_room [OF ok, of sz 0] assms(4) psz by auto
    then show ?thesis using L Inl alloc by simp
  next
    case (Inr addr)
    let ?r = "(unat addr, unat sz)"
    have lk: "leaked c' = insert ?r (leaked c)" "?r \<notin> leaked c" using L Inr by auto
    then have "?r \<notin> slots c'" by (auto simp: leaked_def)
    then have "\<not> overlaps ?r q" if "q \<in> slots c' \<union> leaked c" for q
      using live_disjoint [of 0 "ctx_program_blocks c'" "unat (ctx_program_memory_size c')" ?r q]
        ok lk that live by (auto simp: prog_ok_def)
    then show ?thesis using L Inr alloc live lk by auto
  qed
qed

section \<open>The cache as a whole\<close>

interpretation progmem: regions "\<lambda>c. live (ctx_program_blocks c)" prog_ok
proof (unfold_locales, goal_cases)
  case (1 s r q)
  then show ?case
    using live_disjoint [of 0 "ctx_program_blocks s" "unat (ctx_program_memory_size s)" r q]
    by (simp add: prog_ok_def)
next
  case (2 s r)
  then show ?case
    using live_bounds [of 0 "ctx_program_blocks s" "unat (ctx_program_memory_size s)" "fst r" "snd r"]
    by (simp add: prog_ok_def)
qed

lemma touch_entry_Some:
  "touch_entry name clock es = Some (a, es') \<Longrightarrow>
     \<exists>pre e post. es = pre @ e # post \<and> ce_name e = name \<and> ce_addr e = a
       \<and> es' = pre @ e\<lparr>ce_last_used := clock\<rparr> # post"
proof (induction es arbitrary: es')
  case (Cons f es)
  show ?case
  proof (cases "ce_name f = name")
    case True
    then show ?thesis using Cons.prems by (intro exI [of _ "[]"] exI [of _ f] exI [of _ es]) auto
  next
    case False
    then obtain es'' where "touch_entry name clock es = Some (a, es'')" "es' = f # es''"
      using Cons.prems by auto
    then show ?thesis using Cons.IH [of es''] by (metis append_Cons)
  qed
qed simp

lemma touch_entry_None: "touch_entry name clock es = None \<longleftrightarrow> name \<notin> ce_name ` set es"
  by (induction es) auto

lemma touch_entry_hit:
  "distinct (map ce_name es) \<Longrightarrow> e \<in> set es \<Longrightarrow>
     \<exists>es'. touch_entry (ce_name e) clock es = Some (ce_addr e, es')"
  by (induction es) (auto simp: image_iff)

text \<open>A hit renews the entry's time stamp and changes nothing else.\<close>

definition cache_hit :: "program_cache_entry list \<Rightarrow> 'd gpu_context \<Rightarrow> 'd gpu_context" where
  "cache_hit es c = c\<lparr>ctx_program_cache_clock := ctx_program_cache_clock c + 1, ctx_program_cache := es\<rparr>"

text \<open>Time stamps come from the clock, so none is ahead of it.\<close>

definition stamps_ok :: "'d gpu_context \<Rightarrow> bool" where
  "stamps_ok c \<longleftrightarrow> (\<forall>e \<in> set (ctx_program_cache c). ce_last_used e \<le> ctx_program_cache_clock c)"

lemma cache_hit_ok:
  assumes "prog_ok c" and "touch_entry name (ctx_program_cache_clock c + 1) (ctx_program_cache c) = Some (a, es)"
  shows "prog_ok (cache_hit es c)" and "leaked (cache_hit es c) = leaked c"
    and "slots (cache_hit es c) = slots c" and "cache_only c (cache_hit es c)"
proof -
  obtain pre e post where es: "ctx_program_cache c = pre @ e # post"
    "es = pre @ e\<lparr>ce_last_used := ctx_program_cache_clock c + 1\<rparr> # post"
    using touch_entry_Some [OF assms(2)] by blast
  then show sl: "slots (cache_hit es c) = slots c"
    by (simp add: slots_def cache_hit_def slot_of_def)
  then show "leaked (cache_hit es c) = leaked c" by (simp add: leaked_def) (simp add: cache_hit_def)
  show "prog_ok (cache_hit es c)"
    using assms(1) es sl by (simp add: prog_ok_def) (simp add: cache_hit_def)
  show "cache_only c (cache_hit es c)" by (simp add: cache_only_def cache_hit_def)
qed

text \<open>A miss that goes through enters the new slot into the cache.\<close>

lemma cache_insert_ok:
  assumes ok: "prog_ok c" and slot: "(unat addr, unat sz) \<in> leaked c"
    and new: "name \<notin> ce_name ` set (ctx_program_cache c)"
  shows "prog_ok (cache_insert name addr sz c)"
    and "leaked (cache_insert name addr sz c) = leaked c - {(unat addr, unat sz)}"
    and "cache_only c (cache_insert name addr sz c)"
proof -
  have lv: "(unat addr, unat sz) \<in> live (ctx_program_blocks c)" and ns: "(unat addr, unat sz) \<notin> slots c"
    using slot by (simp_all add: leaked_def)
  have sl: "slots (cache_insert name addr sz c) = insert (unat addr, unat sz) (slots c)"
    by (simp add: slots_def cache_insert_def slot_of_def)
  have bl: "ctx_program_blocks (cache_insert name addr sz c) = ctx_program_blocks c"
    by (simp add: cache_insert_def)
  show "leaked (cache_insert name addr sz c) = leaked c - {(unat addr, unat sz)}"
    using sl bl by (auto simp: leaked_def)
  have "ce_addr e \<noteq> addr" if e: "e \<in> set (ctx_program_cache c)" for e
  proof
    assume "ce_addr e = addr"
    moreover have "slot_of e \<in> live (ctx_program_blocks c)" "slot_of e \<in> slots c"
      using ok e by (auto simp: prog_ok_def slots_def)
    ultimately have "slot_of e = (unat addr, unat sz)"
      using progmem.same_address [OF ok _ lv] by (simp add: slot_of_def)
    then show False using ns \<open>slot_of e \<in> slots c\<close> by simp
  qed
  then have "distinct (map ce_addr (ctx_program_cache (cache_insert name addr sz c)))"
    "distinct (map ce_name (ctx_program_cache (cache_insert name addr sz c)))"
    using ok new by (auto simp: prog_ok_def cache_insert_def)
  then show "prog_ok (cache_insert name addr sz c)"
    using ok sl bl lv by (simp add: prog_ok_def) (simp add: cache_insert_def)
  show "cache_only c (cache_insert name addr sz c)" by (simp add: cache_only_def cache_insert_def)
qed

text \<open>The uploads touch the context only through the log.\<close>

lemma write_program_context:
  "write_program a p n (c, d) = (r, (c', d')) \<Longrightarrow> c' = c \<or> (\<exists>e. c' = log_event e c)"
  by (auto simp: write_program_def Let_def split: if_splits option.splits prod.splits sum.splits)

lemma write_constants_context:
  "write_constants a p n (c, d) = (r, (c', d')) \<Longrightarrow> c' = c \<or> (\<exists>e. c' = log_event e c)"
  by (auto simp: write_constants_def Let_def split: if_splits option.splits prod.splits sum.splits)

lemma validate_loaded_context: "validate_loaded k (c, d) = (r, (c', d')) \<Longrightarrow> c' = c"
  by (auto simp: validate_loaded_def split: option.splits prod.splits sum.splits if_splits)

lemma log_only_frame:
  assumes "c' = c \<or> (\<exists>e. c' = log_event e c)"
  shows "prog_ok c' = prog_ok c" and "leaked c' = leaked c" and "slots c' = slots c"
    and "ctx_program_cache c' = ctx_program_cache c" and "cache_only c c'"
    and "ctx_program_cache_clock c' = ctx_program_cache_clock c"
  using assms by auto

lemma allocate_program_slot_frame:
  assumes "prog_ok c" and "allocate_program_slot name sz c = (r, c')"
  shows "prog_ok c'" and "cache_only c c'"
    and "lru_subset (set (ctx_program_cache c')) (set (ctx_program_cache c))"
    and "ctx_program_cache_clock c' = ctx_program_cache_clock c"
    and "r = Inr addr \<Longrightarrow> leaked c' = insert (unat addr, unat sz) (leaked c) \<and> (unat addr, unat sz) \<notin> leaked c"
    and "r = Inl e \<Longrightarrow> leaked c' = leaked c"
proof -
  have "r = Inl (error BadArgument) \<and> c' = c \<or> r = Inl (error NoMemory) \<and> c' = c
      \<or> 0 < unat sz \<and> allocate_slot_loop name sz c = (r, c')"
    using assms(2) by (auto simp: allocate_program_slot_def unat_gt_0 split: if_splits)
  then show "prog_ok c'" "cache_only c c'"
    "lru_subset (set (ctx_program_cache c')) (set (ctx_program_cache c))"
    "ctx_program_cache_clock c' = ctx_program_cache_clock c"
    "r = Inr addr \<Longrightarrow> leaked c' = insert (unat addr, unat sz) (leaked c) \<and> (unat addr, unat sz) \<notin> leaked c"
    "r = Inl e \<Longrightarrow> leaked c' = leaked c"
    using allocate_slot_loop_correct [OF assms(1), of sz name r c'] assms(1) by auto
qed

text \<open>How a load can end: a hit, a refusal, a failed allocation, a failed upload, or a new entry.\<close>

lemma ensure_program_loaded_cases:
  assumes run: "ensure_program_loaded pk kid (c, d) = (r, (c', d'))"
    and img: "kernel_image pk = (program, sz)"
  obtains (hit) addr es where
      "touch_entry (cache_name pk) (ctx_program_cache_clock c + 1) (ctx_program_cache c) = Some (addr, es)"
      "r = Inr addr" "c' = cache_hit es c" "d' = d"
  | (refused) "cache_name pk \<notin> ce_name ` set (ctx_program_cache c)" "program = None \<or> sz = 0"
      "r = Inl (error BadArgument)" "c' = c" "d' = d"
  | (no_slot) e where "cache_name pk \<notin> ce_name ` set (ctx_program_cache c)"
      "allocate_program_slot (cache_name pk) sz c = (Inl e, c')" "r = Inl e" "d' = d"
  | (failed) addr c1 e where "cache_name pk \<notin> ce_name ` set (ctx_program_cache c)"
      "allocate_program_slot (cache_name pk) sz c = (Inr addr, c1)" "r = Inl e"
      "c' = c1 \<or> (\<exists>l. c' = log_event l c1)"
  | (loaded) addr c1 c2 where "cache_name pk \<notin> ce_name ` set (ctx_program_cache c)"
      "allocate_program_slot (cache_name pk) sz c = (Inr addr, c1)" "r = Inr addr"
      "c2 = c1 \<or> (\<exists>l. c2 = log_event l c1)" "c' = cache_insert (cache_name pk) addr sz c2"
proof (cases "touch_entry (cache_name pk) (ctx_program_cache_clock c + 1) (ctx_program_cache c)")
  case (Some h)
  then obtain addr es where "h = (addr, es)" by force
  then show ?thesis
    using Some run by (intro hit [of addr es]) (auto simp: ensure_program_loaded_def cache_hit_def
        split: prod.splits)
next
  case None
  have miss: "cache_name pk \<notin> ce_name ` set (ctx_program_cache c)"
    using None by (simp add: touch_entry_None)
  show ?thesis
  proof (cases "program = None \<or> sz = 0")
    case True
    then show ?thesis using None run img miss
      by (intro refused) (auto simp: ensure_program_loaded_def)
  next
    case False
    obtain r1 c1 where alloc: "allocate_program_slot (cache_name pk) sz c = (r1, c1)" by force
    show ?thesis
    proof (cases r1)
      case (Inl e)
      then show ?thesis using None False run img alloc miss
        by (intro no_slot [of e]) (auto simp: ensure_program_loaded_def andThen_def on_context_def)
    next
      case (Inr addr)
      obtain r2 c2 d2 where w: "write_program addr program sz (c1, d) = (r2, (c2, d2))"
        by (metis prod.exhaust)
      have c2: "c2 = c1 \<or> (\<exists>l. c2 = log_event l c1)" by (rule write_program_context [OF w])
      obtain r3 c3 d3 where v: "validate_loaded kid (c2, d2) = (r3, (c3, d3))" by (metis prod.exhaust)
      have c3: "c3 = c2" by (rule validate_loaded_context [OF v])
      consider (w) e where "r2 = Inl e" | (v) e where "r2 = Inr ()" "r3 = Inl e"
        | (ok) "r2 = Inr ()" "r3 = Inr ()" by (cases r2; cases r3) auto
      then show ?thesis
      proof cases
        case w: (w e)
        then show ?thesis using None False run img alloc Inr miss c2 \<open>write_program _ _ _ _ = _\<close>
          by (intro failed [of addr c1 e]) (auto simp: ensure_program_loaded_def andThen_def on_context_def)
      next
        case v: (v e)
        then show ?thesis using None False run img alloc Inr miss c2 c3 w \<open>validate_loaded _ _ = _\<close>
          by (intro failed [of addr c1 e]) (auto simp: ensure_program_loaded_def andThen_def on_context_def)
      next
        case ok
        then show ?thesis using None False run img alloc Inr miss c2 c3 w v
          by (intro loaded [of addr c1 c2]) (auto simp: ensure_program_loaded_def andThen_def on_context_def)
      qed
    qed
  qed
qed

lemma ensure_program_loaded_frame:
  assumes ok: "prog_ok c" and run: "ensure_program_loaded pk kid (c, d) = (r, (c', d'))"
  shows "prog_ok c' \<and> cache_only c c'
    \<and> (case r of
         Inr addr \<Rightarrow> leaked c' = leaked c \<and> ctx_program_cache_clock c' = ctx_program_cache_clock c + 1
           \<and> (\<exists>e \<in> set (ctx_program_cache c'). ce_name e = cache_name pk \<and> ce_addr e = addr
                \<and> ce_last_used e = ctx_program_cache_clock c')
       | Inl e \<Rightarrow> ctx_program_cache_clock c' = ctx_program_cache_clock c
           \<and> lru_subset (set (ctx_program_cache c')) (set (ctx_program_cache c))
           \<and> (leaked c' = leaked c \<or>
              (\<exists>addr :: u32. (unat addr, unat (snd (kernel_image pk))) \<notin> leaked c
                 \<and> leaked c' = insert (unat addr, unat (snd (kernel_image pk))) (leaked c))))"
proof -
  obtain program sz where img: "kernel_image pk = (program, sz)" by force
  from run img show ?thesis
  proof (cases rule: ensure_program_loaded_cases)
    case (hit addr es)
    obtain pre e post where "ctx_program_cache c = pre @ e # post" "ce_name e = cache_name pk"
        "ce_addr e = addr" "es = pre @ e\<lparr>ce_last_used := ctx_program_cache_clock c + 1\<rparr> # post"
      using touch_entry_Some [OF hit(1)] by blast
    then show ?thesis using hit cache_hit_ok [OF ok hit(1)] by (simp add: cache_hit_def)
  next
    case refused
    then show ?thesis using ok by simp
  next
    case (no_slot e)
    then show ?thesis using allocate_program_slot_frame [OF ok no_slot(2)] by auto
  next
    case (failed addr c1 e)
    note a = allocate_program_slot_frame [OF ok failed(2)]
    note l = log_only_frame [OF failed(4)]
    have "cache_only c c'" using a(2) l(5) cache_only_trans by blast
    moreover have "leaked c' = insert (unat addr, unat (snd (kernel_image pk))) (leaked c)"
      "(unat addr, unat (snd (kernel_image pk))) \<notin> leaked c"
      using a(5) [OF refl] l(2) img by simp_all
    moreover have "prog_ok c'" "ctx_program_cache_clock c' = ctx_program_cache_clock c"
      "lru_subset (set (ctx_program_cache c')) (set (ctx_program_cache c))"
      using a(1,3,4) l by simp_all
    ultimately show ?thesis unfolding failed(3) sum.case by blast
  next
    case (loaded addr c1 c2)
    note a = allocate_program_slot_frame [OF ok loaded(2)]
    note l = log_only_frame [OF loaded(4)]
    have slot: "(unat addr, unat sz) \<in> leaked c2" "prog_ok c2" "leaked c2 = insert (unat addr, unat sz) (leaked c)"
      and fresh: "(unat addr, unat sz) \<notin> leaked c"
      using a(1) a(5) [OF refl] l by auto
    have new: "cache_name pk \<notin> ce_name ` set (ctx_program_cache c2)"
      using loaded(1) a(3) l(4) by (auto simp: lru_subset_def)
    note ins = cache_insert_ok [OF slot(2,1) new]
    have "cache_only c c'" using a(2) l(5) ins(3) loaded(5) cache_only_trans by blast
    moreover have "leaked c' = leaked c" using ins(2) slot(3) fresh loaded(5) by auto
    ultimately show ?thesis
      using ins(1) loaded(3,5) a(4) l(6) by (simp add: cache_insert_def)
  qed
qed

text \<open>
  C9: loading a program. The cache stays well formed and nothing outside it changes. A success
  leaves an entry with the program's name, the returned address and the newest time stamp, and leaks
  nothing; a failure leaves the clock, may have evicted least recently used programs, and leaks at
  most the one slot it had taken.
\<close>

theorem ensure_program_loaded_spec:
  assumes "prog_ok c"
  shows "case ensure_program_loaded pk kid (c, d) of (r, (c', d')) \<Rightarrow>
     prog_ok c' \<and> cache_only c c'
     \<and> (case r of
         Inr addr \<Rightarrow> leaked c' = leaked c \<and> ctx_program_cache_clock c' = ctx_program_cache_clock c + 1
           \<and> (\<exists>e \<in> set (ctx_program_cache c'). ce_name e = cache_name pk \<and> ce_addr e = addr
                \<and> ce_last_used e = ctx_program_cache_clock c')
       | Inl e \<Rightarrow> ctx_program_cache_clock c' = ctx_program_cache_clock c
           \<and> lru_subset (set (ctx_program_cache c')) (set (ctx_program_cache c))
           \<and> (leaked c' = leaked c \<or>
              (\<exists>addr :: u32. (unat addr, unat (snd (kernel_image pk))) \<notin> leaked c
                 \<and> leaked c' = insert (unat addr, unat (snd (kernel_image pk))) (leaked c))))"
proof -
  obtain r c' d' where run: "ensure_program_loaded pk kid (c, d) = (r, (c', d'))"
    by (metis prod.exhaust)
  show ?thesis using ensure_program_loaded_frame [OF assms run] by (simp add: run)
qed

text \<open>
  A loaded program stays resident. Loading it again right away returns the same address
  without any use of the transport, whatever state the device is in.
\<close>

theorem load_again_is_a_hit:
  assumes "prog_ok c" and "ensure_program_loaded pk kid (c, d) = (Inr addr, (c1, d1))"
  shows "\<exists>c2. ensure_program_loaded pk kid' (c1, d2) = (Inr addr, (c2, d2))"
proof -
  have "prog_ok c1" and "\<exists>e \<in> set (ctx_program_cache c1). ce_name e = cache_name pk \<and> ce_addr e = addr"
    using ensure_program_loaded_frame [OF assms] by auto
  then obtain es where
    "touch_entry (cache_name pk) (ctx_program_cache_clock c1 + 1) (ctx_program_cache c1) = Some (addr, es)"
    using touch_entry_hit by (metis prog_ok_def)
  then show ?thesis by (simp add: ensure_program_loaded_def Let_def split: prod.splits)
qed

lemma live_le_used: "(a, n) \<in> live bs \<Longrightarrow> n \<le> used_bytes bs"
  by (induction bs) (auto split: if_splits)

lemma free_le_free_bytes: "b \<in> set bs \<Longrightarrow> bfree b \<Longrightarrow> unat (bsize b) \<le> free_bytes bs"
  by (induction bs) auto

lemma full_memory_has_no_slot:
  assumes "tiles 0 bs n" and "(a, n) \<in> live bs"
  shows "find_slot sz i bs = None"
proof -
  have "n = free_bytes bs + used_bytes bs" using tiles_total [OF assms(1)] by simp
  then have none: "free_bytes bs = 0" using live_le_used [OF assms(2)] by simp
  have "\<not> bfree b" if "b \<in> set bs" for b
    using free_le_free_bytes [OF that] tiles_member(2) [OF assms(1) that] none by auto
  then show ?thesis by (simp add: find_slot_None)
qed

text \<open>
  A failed upload can block instruction memory for good. When the first program to be loaded
  takes all of it and its upload or validation fails, its slot stays allocated and belongs to no cache
  entry; from then on no program can be loaded, whatever the device answers.
\<close>

theorem failed_upload_blocks_loading:
  assumes ok: "prog_ok c" and empty: "ctx_program_cache c = []" and clean: "leaked c = {}"
    and img: "kernel_image pk = (Some bs, ctx_program_memory_size c)"
    and m4: "unat (ctx_program_memory_size c) mod 4 = 0"
    and run: "ensure_program_loaded pk kid (c, d) = (Inl e, (c1, d1))"
  shows "fst (ensure_program_loaded pk' kid' (c1, d')) \<in> {Inl (error BadArgument), Inl (error NoMemory)}"
proof -
  let ?n = "ctx_program_memory_size c"
  have nz: "?n \<noteq> 0" using ok by (auto simp: prog_ok_def)
  have "prog_ok c1 \<and> ctx_program_cache c1 = [] \<and> cache_only c c1 \<and> (\<exists>a. (a, unat ?n) \<in> leaked c1)"
    using run img
  proof (cases rule: ensure_program_loaded_cases)
    case (no_slot e')
    then show ?thesis
      using allocate_program_slot_spec [OF ok nz m4, of "cache_name pk"] clean by simp
  next
    case (failed addr c2 e')
    note a = allocate_program_slot_frame [OF ok failed(2)]
    note l = log_only_frame [OF failed(4)]
    have "cache_only c c1" using a(2) l(5) cache_only_trans by blast
    then show ?thesis using a(1,3) a(5) [OF refl] l empty by (auto simp: lru_subset_def)
  qed (use nz empty in auto)
  then have c1: "prog_ok c1" "ctx_program_cache c1 = []" "ctx_program_memory_size c1 = ?n"
    and lk: "\<exists>a. (a, unat ?n) \<in> leaked c1"
    by (auto simp: cache_only_def)
  then have none: "find_slot sz i (ctx_program_blocks c1) = None" for sz i
    using full_memory_has_no_slot by (auto simp: prog_ok_def leaked_def)
  have "allocate_slot_loop name sz c1 = (Inl (error NoMemory), c1)" for name sz
    using none c1(2) by (simp add: allocate_slot_loop.simps)
  then have alloc: "allocate_program_slot name sz c1
      = (Inl (error (if sz = 0 \<or> unat sz mod 4 \<noteq> 0 then BadArgument else NoMemory)), c1)" for name sz
    by (simp add: allocate_program_slot_def)
  obtain program sz where img': "kernel_image pk' = (program, sz)" by force
  show ?thesis
    using c1(2) alloc
    by (simp add: ensure_program_loaded_def img' andThen_def on_context_def Let_def)
qed

section \<open>Concrete loads\<close>

text \<open>A link that accepts everything.\<close>

definition accepting_transport :: "unit transport" where
  "accepting_transport =
     \<lparr>tr_write_data = Some (\<lambda>_ _ _ d. (Inr Ok, d)), tr_read_data = None,
      tr_write_program = Some (\<lambda>_ _ _ d. (Inr Ok, d)),
      tr_validate_kernel = Some (\<lambda>_ d. (Inr Ok, d)),
      tr_write_constants = Some (\<lambda>_ _ _ d. (Inr Ok, d)),
      tr_launch = Some (\<lambda>_ _ _ _ d. (Inr Ok, d)), tr_wait = Some (\<lambda>_ d. (Inr Ok, d))\<rparr>"

definition accepting_context :: "unit gpu_context" where
  "accepting_context = small_context\<lparr>ctx_transport := accepting_transport\<rparr>"

definition full_kernel :: precompiled_kernel where
  "full_kernel = empty_precompiled_kernel
     \<lparr>pk_name := ''k'', pk_program_bytes := [1, 2, 3, 4, 5, 6, 7, 8], pk_program_size := 8\<rparr>"

lemma small_prog_ok: "prog_ok small_context" "leaked small_context = {}" "ctx_program_cache small_context = []"
  "prog_ok accepting_context"
  by (simp_all add: prog_ok_def small_context_def accepting_context_def slots_def leaked_def)

lemma full_kernel_image: "kernel_image full_kernel = (Some [1, 2, 3, 4, 5, 6, 7, 8], 8)"
  by (simp add: kernel_image_def full_kernel_def empty_precompiled_kernel_def)

lemma full_kernel_slot:
  "allocate_program_slot name 8 accepting_context = (Inr 0,
     accepting_context\<lparr>ctx_program_blocks := [\<lparr>boffset = 0, bsize = 8, bfree = False\<rparr>]\<rparr>)"
  "allocate_program_slot name 8 small_context = (Inr 0,
     small_context\<lparr>ctx_program_blocks := [\<lparr>boffset = 0, bsize = 8, bfree = False\<rparr>]\<rparr>)"
  by (simp_all add: allocate_program_slot_def allocate_slot_loop.simps accepting_context_def
      small_context_def claim_at_def log_event_def)

lemma concrete_fields:
  "ctx_program_cache accepting_context = []" "ctx_transport accepting_context = accepting_transport"
  "ctx_logging_enabled accepting_context = False"
  "ctx_program_cache small_context = []" "ctx_transport small_context = no_transport"
  "ctx_logging_enabled small_context = False"
  by (simp_all add: accepting_context_def small_context_def)

lemma full_kernel_load:
  "\<exists>c1. ensure_program_loaded full_kernel kid (accepting_context, ()) = (Inr 0, (c1, ()))"
  by (simp add: ensure_program_loaded_def full_kernel_image andThen_def on_context_def full_kernel_slot
      Let_def write_program_def validate_loaded_def concrete_fields accepting_transport_def log_event_def)

lemma full_kernel_fails:
  "\<exists>c1. ensure_program_loaded full_kernel kid (small_context, ()) = (Inl (error Unsupported), (c1, ()))"
  by (simp add: ensure_program_loaded_def full_kernel_image andThen_def on_context_def full_kernel_slot
      Let_def write_program_def concrete_fields no_transport_def)

lemma allocate_program_slot_spec_witness:
  "live (ctx_program_blocks (snd (allocate_program_slot ''k'' 8 accepting_context))) = {(0, 8)}"
  using allocate_program_slot_spec [OF small_prog_ok(4), of 8 "''k''"]
  by (simp add: full_kernel_slot)

lemma ensure_program_loaded_spec_witness:
  "prog_ok (fst (snd (ensure_program_loaded full_kernel 0 (accepting_context, ()))))"
  using ensure_program_loaded_spec [OF small_prog_ok(4), of full_kernel 0 "()"]
  by (auto split: prod.splits)

lemma load_again_is_a_hit_witness:
  "\<exists>c1 c2. ensure_program_loaded full_kernel 0 (accepting_context, ()) = (Inr 0, (c1, ()))
     \<and> ensure_program_loaded full_kernel 0 (c1, ()) = (Inr 0, (c2, ()))"
  using full_kernel_load [of 0] load_again_is_a_hit [OF small_prog_ok(4), of full_kernel 0 "()" 0]
  by blast

lemma failed_upload_blocks_loading_witness:
  "\<exists>c1. ensure_program_loaded full_kernel 0 (small_context, ()) = (Inl (error Unsupported), (c1, ()))
     \<and> fst (ensure_program_loaded full_kernel 0 (c1, ())) \<in> {Inl (error BadArgument), Inl (error NoMemory)}"
proof -
  have img: "kernel_image full_kernel
      = (Some [1, 2, 3, 4, 5, 6, 7, 8], ctx_program_memory_size small_context)"
    by (simp add: full_kernel_image small_context_def)
  have m4: "unat (ctx_program_memory_size small_context) mod 4 = 0" by (simp add: small_context_def)
  obtain c1 where c1: "ensure_program_loaded full_kernel 0 (small_context, ()) = (Inl (error Unsupported), (c1, ()))"
    using full_kernel_fails by blast
  show ?thesis
    using c1 failed_upload_blocks_loading [OF small_prog_ok(1,3,2) img m4 c1] by blast
qed

end
