(* ===== verification/Launch.thy ===== *)
theory Launch
  imports Programs
begin

text \<open>
  The kernel registry and the two \<open>launch_kernel\<close> overloads of \<open>minigpu::Context\<close>
  (\<open>runtime/src/minigpu_runtime.cpp\<close>), with \<open>KernelArg\<close>. A float argument is its IEEE bit pattern.
  The map \<open>KERNEL_ID_MAP\<close> is generated at build time and is the parameter \<open>ids\<close>.
\<close>

section \<open>Arguments and descriptors\<close>

record kernel_arg =
  ka_value :: u32

definition arg_u32 :: "u32 \<Rightarrow> kernel_arg" where
  "arg_u32 v = \<lparr>ka_value = v\<rparr>"

definition arg_f32 :: "u32 \<Rightarrow> kernel_arg" where
  "arg_f32 bits = \<lparr>ka_value = bits\<rparr>"

definition arg_device_ptr :: "u32 \<Rightarrow> u32 \<Rightarrow> exn + kernel_arg" where
  "arg_device_ptr byte_addr bytes_per_word =
     (if bytes_per_word = 0 \<or> byte_addr mod bytes_per_word \<noteq> 0 then Inl (error BadArgument)
      else Inr \<lparr>ka_value = byte_addr div bytes_per_word\<rparr>)"

record kernel_desc =
  kn_program :: "bytes option"
  kn_program_size :: u64
  kn_program_addr :: u32
  kn_constants :: "bytes option"
  kn_constants_size :: u64
  kn_constants_addr :: u32
  kn_base_pc :: u32
  kn_grid_dim :: u32
  kn_block_dim :: u32
  kn_active_mask :: u32
  kn_timeout_ms :: u32
  kn_kernel_id :: u8

definition default_kernel_desc :: kernel_desc where
  "default_kernel_desc =
     \<lparr>kn_program = None, kn_program_size = 0, kn_program_addr = 0, kn_constants = None,
      kn_constants_size = 0, kn_constants_addr = 0, kn_base_pc = 0, kn_grid_dim = 1,
      kn_block_dim = 1, kn_active_mask = 0xffffffff, kn_timeout_ms = 0, kn_kernel_id = 0\<rparr>"

section \<open>Launching a descriptor\<close>

definition log_line :: "string \<Rightarrow> ('d sys, exn, unit) action" where
  "log_line e = modify (\<lambda>(c, d). (log_event e c, d))"

definition start_kernel :: "kernel_desc \<Rightarrow> ('d sys, exn, unit) action" where
  "start_kernel k s =
     (case tr_launch (ctx_transport (fst s)) of
        None \<Rightarrow> (Inl (error Unsupported), s)
      | Some launch \<Rightarrow>
          let c' = log_event (''launch base_pc=0x'' @ hex (unat (kn_base_pc k))
                     @ '' grid='' @ dec (unat (kn_grid_dim k)) @ '' block='' @ dec (unat (kn_block_dim k))
                     @ '' mask=0x'' @ hex (unat (kn_active_mask k))) (fst s)
          in (case launch (kn_base_pc k) (kn_grid_dim k) (kn_block_dim k) (kn_active_mask k) (snd s) of
                (Inl e, d') \<Rightarrow> (Inl e, (c', d'))
              | (Inr st, d') \<Rightarrow> check st (c', d')))"

definition wait_kernel :: "u32 \<Rightarrow> ('d sys, exn, unit) action" where
  "wait_kernel timeout_ms s =
     (case tr_wait (ctx_transport (fst s)) of
        None \<Rightarrow> (Inr (), s)
      | Some wait \<Rightarrow>
          let c' = log_event ''wait begin'' (fst s)
          in (case wait timeout_ms (snd s) of
                (Inl e, d') \<Rightarrow> (Inl e, (c', d'))
              | (Inr st, d') \<Rightarrow> andThen (check st) (\<lambda>_. log_line ''wait done'') (c', d')))"

definition launch_desc :: "kernel_desc \<Rightarrow> ('d sys, exn, unit) action" where
  "launch_desc k =
     andThen (unless_throw (\<not> (kn_program_size k \<noteq> 0 \<and> kn_program k = None)) (error BadArgument)) (\<lambda>_.
     andThen (unless_throw (\<not> (kn_constants_size k \<noteq> 0 \<and> kn_constants k = None)) (error BadArgument)) (\<lambda>_.
     andThen (if kn_program k \<noteq> None \<and> kn_program_size k \<noteq> 0
              then write_program (kn_program_addr k) (kn_program k) (kn_program_size k) else ret ()) (\<lambda>_.
     andThen (if kn_program_size k > 0 then validate_loaded (kn_kernel_id k) else ret ()) (\<lambda>_.
     andThen (if kn_constants k \<noteq> None \<and> kn_constants_size k \<noteq> 0
              then write_constants (kn_constants_addr k) (kn_constants k) (kn_constants_size k)
              else ret ()) (\<lambda>_.
     andThen (start_kernel k) (\<lambda>_.
     wait_kernel (kn_timeout_ms k)))))))"

section \<open>The registry\<close>

fun replace_kernel :: "precompiled_kernel \<Rightarrow> precompiled_kernel list \<Rightarrow> precompiled_kernel list option" where
  "replace_kernel pk [] = None"
| "replace_kernel pk (r # rs) =
     (if pk_name r = pk_name pk then Some (pk # rs)
      else map_option (\<lambda>rs'. r # rs') (replace_kernel pk rs))"

definition register_log :: "precompiled_kernel \<Rightarrow> string" where
  "register_log pk = ''register_kernel name='' @ pk_name pk
     @ '' bytes='' @ dec (unat (pk_program_size pk)) @ '' entry_pc=0x'' @ hex (unat (pk_entry_pc pk))"

definition normalize_kernel :: "precompiled_kernel \<Rightarrow> precompiled_kernel" where
  "normalize_kernel pk =
     (if pk_program_bytes pk \<noteq> []
      then pk\<lparr>pk_program := None, pk_program_size := of_nat (length (pk_program_bytes pk))\<rparr> else pk)"

definition register_kernel :: "precompiled_kernel \<Rightarrow> ('d gpu_context, exn, unit) action" where
  "register_kernel pk0 c =
     (let pk = normalize_kernel pk0
      in if pk_name pk = [] \<or>
            ((pk_program pk = None \<or> pk_program_size pk = 0) \<and> pk_program_bytes pk = [])
         then (Inl (error BadArgument), c)
         else (case replace_kernel pk (ctx_kernels c) of
             Some kernels \<Rightarrow> (Inr (), log_event (register_log pk) (c\<lparr>ctx_kernels := kernels\<rparr>))
           | None \<Rightarrow> (Inr (), log_event (register_log pk) (c\<lparr>ctx_kernels := ctx_kernels c @ [pk]\<rparr>))))"

definition find_kernel :: "string \<Rightarrow> 'd gpu_context \<Rightarrow> precompiled_kernel option" where
  "find_kernel name c = find (\<lambda>pk. pk_name pk = name) (ctx_kernels c)"

section \<open>Launching by name\<close>

text \<open>
  The constant table: the arguments, padded with zeros to 33 words, with the word address of the
  spill area in word 32. Words lie in memory in little-endian order.
\<close>

definition spill_slot :: nat where
  "spill_slot = 32"

definition constants_table :: "kernel_arg list \<Rightarrow> u32 \<Rightarrow> u32 list" where
  "constants_table args spill_base =
     (let constants = map ka_value args;
          padded = (if length constants < 33
                    then constants @ replicate (33 - length constants) 0 else constants)
      in padded[spill_slot := spill_base div 4])"

definition word_bytes :: "u32 \<Rightarrow> bytes" where
  "word_bytes w = [ucast w, ucast (drop_bit 8 w), ucast (drop_bit 16 w), ucast (drop_bit 24 w)]"

text \<open>
  The log line. The stream is left in hexadecimal after the first argument, so from the second one
  on the argument's number is printed in hexadecimal too.
\<close>

definition launch_log :: "string \<Rightarrow> kernel_arg list \<Rightarrow> string" where
  "launch_log name args = ''launch_kernel name='' @ name @ '' args='' @ dec (length args)
     @ concat (map (\<lambda>i. '' arg'' @ (if i = 0 then dec i else hex i) @ ''=0x''
                          @ hex (unat (ka_value (args ! i)))) [0 ..< length args])"

definition kernel_defaults :: "precompiled_kernel \<Rightarrow> launch_config" where
  "kernel_defaults pk =
     \<lparr>lc_grid_dim = pk_default_grid_dim pk, lc_block_dim = pk_default_block_dim pk,
      lc_active_mask = pk_default_active_mask pk, lc_timeout_ms = pk_default_timeout_ms pk\<rparr>"

definition launch_descriptor ::
    "precompiled_kernel \<Rightarrow> u8 \<Rightarrow> u32 list \<Rightarrow> launch_config \<Rightarrow> u32 \<Rightarrow> kernel_desc" where
  "launch_descriptor pk kid constants launch loaded_program_addr =
     \<lparr>kn_program = None, kn_program_size = 0, kn_program_addr = loaded_program_addr,
      kn_constants = (if constants = [] then None else Some (concat (map word_bytes constants))),
      kn_constants_size = of_nat (length constants) * 4, kn_constants_addr = 0,
      kn_base_pc = narrow (widen loaded_program_addr div 4 + widen (pk_entry_pc pk)),
      kn_grid_dim = lc_grid_dim launch, kn_block_dim = lc_block_dim launch,
      kn_active_mask = lc_active_mask launch, kn_timeout_ms = lc_timeout_ms launch,
      kn_kernel_id = kid\<rparr>"

definition launch_kernel ::
    "(string \<Rightarrow> u8 option) \<Rightarrow> string \<Rightarrow> kernel_arg list \<Rightarrow> launch_config option
       \<Rightarrow> ('d sys, exn, unit) action" where
  "launch_kernel ids name args config s =
     (case find_kernel name (fst s) of
        None \<Rightarrow> (Inl (error NotFound), s)
      | Some pk \<Rightarrow>
          (case ids name of
             None \<Rightarrow> (Inl (error NotFound), s)
           | Some kid \<Rightarrow>
               let launch = (case config of None \<Rightarrow> kernel_defaults pk | Some l \<Rightarrow> l);
                   constants = constants_table args (ctx_compiler_spill_base (fst s))
               in andThen (ensure_program_loaded pk kid) (\<lambda>loaded_program_addr.
                  andThen (log_line (launch_log name args)) (\<lambda>_.
                  launch_desc (launch_descriptor pk kid constants launch loaded_program_addr))) s))"

section \<open>The registry as a keyed store\<close>

text \<open>A store in which inserting a value makes it the one found under its key.\<close>

locale keyed_store =
  fixes lookup :: "'k \<Rightarrow> 's \<Rightarrow> 'v option"
    and insert_value :: "'w \<Rightarrow> 's \<Rightarrow> 's"
    and key :: "'w \<Rightarrow> 'k"
    and stored :: "'w \<Rightarrow> 'v"
    and valid :: "'w \<Rightarrow> bool"
  assumes lookup_insert: "valid w \<Longrightarrow>
    lookup k (insert_value w s) = (if k = key w then Some (stored w) else lookup k s)"
begin

text \<open>After a series of insertions the last one with a key is found, and no other key changed.\<close>

lemma lookup_fold:
  "\<forall>w \<in> set ws. valid w \<Longrightarrow>
     lookup k (fold insert_value ws s) =
       (case find (\<lambda>w. key w = k) (rev ws) of Some w \<Rightarrow> Some (stored w) | None \<Rightarrow> lookup k s)"
proof (induction ws rule: rev_induct)
  case (snoc w ws)
  then show ?case by (simp add: lookup_insert)
qed simp

lemma lookup_fold_other:
  "\<forall>w \<in> set ws. valid w \<and> key w \<noteq> k \<Longrightarrow> lookup k (fold insert_value ws s) = lookup k s"
  by (induction ws arbitrary: s) (auto simp: lookup_insert)

end

definition registrable :: "precompiled_kernel \<Rightarrow> bool" where
  "registrable pk \<longleftrightarrow> pk_name pk \<noteq> [] \<and>
     (pk_program_bytes pk \<noteq> [] \<or> pk_program pk \<noteq> None \<and> pk_program_size pk \<noteq> 0)"

lemma normalize_kernel_frame [simp]:
  "pk_name (normalize_kernel pk) = pk_name pk" "pk_program_id (normalize_kernel pk) = pk_program_id pk"
  "pk_program_bytes (normalize_kernel pk) = pk_program_bytes pk"
  "pk_entry_pc (normalize_kernel pk) = pk_entry_pc pk"
  "cache_name (normalize_kernel pk) = cache_name pk"
  by (simp_all add: normalize_kernel_def cache_name_def)

lemma replace_kernel_None: "replace_kernel pk rs = None \<longleftrightarrow> find (\<lambda>r. pk_name r = pk_name pk) rs = None"
  by (induction rs) auto

lemma replace_kernel_Some:
  "replace_kernel pk rs = Some rs' \<Longrightarrow>
     find (\<lambda>r. pk_name r = n) rs' = (if n = pk_name pk then Some pk else find (\<lambda>r. pk_name r = n) rs)"
  by (induction rs arbitrary: rs') (auto split: if_splits)

lemma find_append: "find P (xs @ ys) = (case find P xs of None \<Rightarrow> find P ys | Some x \<Rightarrow> Some x)"
  by (induction xs) auto

lemma register_kernel_result:
  "register_kernel pk c =
     (if registrable pk then
        (Inr (), log_event (register_log (normalize_kernel pk))
          (c\<lparr>ctx_kernels := (case replace_kernel (normalize_kernel pk) (ctx_kernels c) of
             Some kernels \<Rightarrow> kernels | None \<Rightarrow> ctx_kernels c @ [normalize_kernel pk])\<rparr>))
      else (Inl (error BadArgument), c))"
  by (auto simp: register_kernel_def registrable_def normalize_kernel_def Let_def split: option.splits)

lemma find_kernel_log [simp]: "find_kernel n (log_event e c) = find_kernel n c"
  by (simp add: find_kernel_def)

lemma find_after_register:
  assumes "registrable pk"
  shows "find_kernel n (snd (register_kernel pk c)) =
    (if n = pk_name pk then Some (normalize_kernel pk) else find_kernel n c)"
proof (cases "replace_kernel (normalize_kernel pk) (ctx_kernels c)")
  case None
  then have "n = pk_name pk \<Longrightarrow> find_kernel n c = None"
    by (auto simp: replace_kernel_None find_kernel_def)
  then show ?thesis using assms None
    by (auto simp: register_kernel_result find_kernel_def find_append split: option.splits)
next
  case (Some rs)
  show ?thesis using assms Some replace_kernel_Some [OF Some, of n]
    by (simp add: register_kernel_result find_kernel_def)
qed

interpretation kernels: keyed_store
  find_kernel "\<lambda>pk c. snd (register_kernel pk c)" pk_name normalize_kernel registrable
  by unfold_locales (rule find_after_register)

text \<open>
  The registry. Registering a list of valid kernels in turn, looking a name up gives the
  last kernel of that name, with its size taken from its bytes where it has any, and every name not in
  the list gives what it gave before.
\<close>

theorem register_kernels_lookup:
  assumes "\<forall>pk \<in> set pks. registrable pk"
  shows "find_kernel name (fold (\<lambda>pk c. snd (register_kernel pk c)) pks c) =
    (case find (\<lambda>pk. pk_name pk = name) (rev pks) of
       Some pk \<Rightarrow> Some (normalize_kernel pk) | None \<Rightarrow> find_kernel name c)"
  by (rule kernels.lookup_fold [OF assms])

lemma register_kernels_lookup_witness:
  "find_kernel ''k'' (fold (\<lambda>pk c. snd (register_kernel pk c))
      [full_kernel, full_kernel\<lparr>pk_entry_pc := 7\<rparr>] small_context)
     = Some (full_kernel\<lparr>pk_entry_pc := 7\<rparr>)"
proof -
  have "\<forall>pk \<in> set [full_kernel, full_kernel\<lparr>pk_entry_pc := 7\<rparr>]. registrable pk"
    by (simp add: registrable_def full_kernel_def empty_precompiled_kernel_def)
  from register_kernels_lookup [OF this, of "''k''" small_context] show ?thesis
    by (simp add: full_kernel_def empty_precompiled_kernel_def normalize_kernel_def)
qed

text \<open>
  A kernel replaced in the registry keeps running the old program. When a program is
  resident and a kernel with the same program name but other bytes is registered, loading the new
  kernel succeeds as a cache hit at the old address, and nothing is uploaded.
\<close>

theorem replaced_kernel_runs_old_program:
  assumes "prog_ok c" and "ensure_program_loaded pk kid (c, d) = (Inr addr, (c1, d1))"
    and "registrable pk'" and "cache_name pk' = cache_name pk"
    and "register_kernel pk' c1 = (Inr (), c2)"
  shows "find_kernel (pk_name pk') c2 = Some (normalize_kernel pk')
    \<and> (\<exists>c3. ensure_program_loaded (normalize_kernel pk') kid' (c2, d2) = (Inr addr, (c3, d2)))"
proof -
  have found: "find_kernel (pk_name pk') c2 = Some (normalize_kernel pk')"
    using find_after_register [OF assms(3), of "pk_name pk'" c1] assms(5) by simp
  have "prog_ok c1" and "\<exists>e \<in> set (ctx_program_cache c1). ce_name e = cache_name pk \<and> ce_addr e = addr"
    using ensure_program_loaded_frame [OF assms(1,2)] by auto
  then obtain es where
    "touch_entry (cache_name pk) (ctx_program_cache_clock c1 + 1) (ctx_program_cache c1) = Some (addr, es)"
    using touch_entry_hit by (metis prog_ok_def)
  moreover have "ctx_program_cache c2 = ctx_program_cache c1"
    "ctx_program_cache_clock c2 = ctx_program_cache_clock c1"
    using assms(3,5) by (auto simp: register_kernel_result)
  ultimately show ?thesis
    using assms(4) found by (simp add: ensure_program_loaded_def Let_def split: prod.splits)
qed

lemma replaced_kernel_runs_old_program_witness:
  "\<exists>c1 c2 c3. ensure_program_loaded full_kernel 0 (accepting_context, ()) = (Inr 0, (c1, ()))
     \<and> register_kernel (full_kernel\<lparr>pk_program_bytes := [9, 9, 9, 9]\<rparr>) c1 = (Inr (), c2)
     \<and> ensure_program_loaded (normalize_kernel (full_kernel\<lparr>pk_program_bytes := [9, 9, 9, 9]\<rparr>)) 0 (c2, ())
         = (Inr 0, (c3, ()))"
proof -
  let ?new = "full_kernel\<lparr>pk_program_bytes := [9, 9, 9, 9]\<rparr>"
  obtain c1 where c1: "ensure_program_loaded full_kernel 0 (accepting_context, ()) = (Inr 0, (c1, ()))"
    using full_kernel_load by blast
  have new: "registrable ?new" "cache_name ?new = cache_name full_kernel"
    by (simp_all add: registrable_def cache_name_def full_kernel_def empty_precompiled_kernel_def)
  then obtain c2 where c2: "register_kernel ?new c1 = (Inr (), c2)" by (simp add: register_kernel_result)
  from replaced_kernel_runs_old_program [OF small_prog_ok(4) c1 new c2] c1 c2 show ?thesis by blast
qed

text \<open>
  The constant table has at least 33 words: the arguments in order, then zeros, with the
  spill address in word 32. A 33rd argument is therefore overwritten.
\<close>

theorem constants_table_spec:
  "length (constants_table args spill_base) = max 33 (length args)
   \<and> (\<forall>i < max 33 (length args). constants_table args spill_base ! i =
        (if i = spill_slot then spill_base div 4
         else if i < length args then ka_value (args ! i) else 0))"
  by (auto simp: constants_table_def spill_slot_def nth_append nth_list_update Let_def)

lemma constants_table_spec_witness:
  "constants_table (replicate 40 \<lparr>ka_value = 5\<rparr>) 64 ! 32 = 16"
  using constants_table_spec [of "replicate 40 \<lparr>ka_value = 5\<rparr>" 64] by (simp add: spill_slot_def)

section \<open>What a launch sends\<close>

text \<open>
  A link that records every program, constant and control request and answers as the function
  \<open>resp\<close> says, from what was sent before and the request: with a status, or with an exception,
  since a callback may throw.
\<close>

datatype link_event =
    EvProgram u32 "bytes option" u64
  | EvValidate u8
  | EvConstants u32 "bytes option" u64
  | EvLaunch u32 u32 u32 u32
  | EvWait u32

type_synonym responses = "link_event list \<Rightarrow> link_event \<Rightarrow> exn + status"

definition answer :: "responses \<Rightarrow> link_event \<Rightarrow> link_event list callback" where
  "answer resp e es = (resp es e, es @ [e])"

definition recording :: "responses \<Rightarrow> link_event list transport" where
  "recording resp = \<lparr>tr_write_data = None, tr_read_data = None,
     tr_write_program = Some (\<lambda>a p n. answer resp (EvProgram a p n)),
     tr_validate_kernel = Some (\<lambda>k. answer resp (EvValidate k)),
     tr_write_constants = Some (\<lambda>a p n. answer resp (EvConstants a p n)),
     tr_launch = Some (\<lambda>pc g b m. answer resp (EvLaunch pc g b m)),
     tr_wait = Some (\<lambda>t. answer resp (EvWait t))\<rparr>"

text \<open>
  The outcome of sending a plan: the requests go out in order up to the first one that is not
  answered \<open>Ok\<close>, whose answer, a status or an exception, is the outcome.
\<close>

fun outcome :: "responses \<Rightarrow> link_event list \<Rightarrow> link_event list \<Rightarrow> (exn + status) \<times> link_event list" where
  "outcome resp es [] = (Inr Ok, es)"
| "outcome resp es (e # plan) =
     (if resp es e = Inr Ok then outcome resp (es @ [e]) plan else (resp es e, es @ [e]))"

fun result_of :: "exn + status \<Rightarrow> exn + unit" where
  "result_of (Inl x) = Inl x"
| "result_of (Inr st) = (if st = Ok then Inr () else Inl (error st))"

text \<open>A computation that sends exactly the plan.\<close>

definition sends :: "responses \<Rightarrow> (link_event list sys, exn, unit) action \<Rightarrow> link_event list \<Rightarrow> bool" where
  "sends resp m plan \<longleftrightarrow> (\<forall>c es. ctx_transport c = recording resp \<longrightarrow>
     (\<exists>c'. ctx_transport c' = recording resp
        \<and> m (c, es) = (result_of (fst (outcome resp es plan)), (c', snd (outcome resp es plan)))))"

lemma outcome_append:
  "outcome resp es (plan @ post) =
     (if fst (outcome resp es plan) = Inr Ok then outcome resp (snd (outcome resp es plan)) post
      else outcome resp es plan)"
  by (induction plan arbitrary: es) auto

text \<open>
  What was sent is a beginning of the plan. Every request of it but the last was answered \<open>Ok\<close>, the
  answer to the last is the outcome, and nothing of the plan is left when that answer is \<open>Ok\<close>.
\<close>

lemma outcome_sent:
  assumes "plan \<noteq> []"
  shows "\<exists>sent rest. plan = sent @ rest \<and> sent \<noteq> [] \<and> snd (outcome resp es plan) = es @ sent
    \<and> (\<forall>i. Suc i < length sent \<longrightarrow> resp (es @ take i sent) (sent ! i) = Inr Ok)
    \<and> fst (outcome resp es plan) = resp (es @ butlast sent) (last sent)
    \<and> (resp (es @ butlast sent) (last sent) = Inr Ok \<longrightarrow> rest = [])"
  using assms
proof (induction plan arbitrary: es)
  case (Cons e plan)
  show ?case
  proof (cases "resp es e = Inr Ok \<and> plan \<noteq> []")
    case True
    then obtain sent rest where ih: "plan = sent @ rest" "sent \<noteq> []"
        "snd (outcome resp (es @ [e]) plan) = (es @ [e]) @ sent"
        "\<And>i. Suc i < length sent \<Longrightarrow> resp ((es @ [e]) @ take i sent) (sent ! i) = Inr Ok"
        "fst (outcome resp (es @ [e]) plan) = resp ((es @ [e]) @ butlast sent) (last sent)"
        "resp ((es @ [e]) @ butlast sent) (last sent) = Inr Ok \<longrightarrow> rest = []"
      using Cons.IH [of "es @ [e]"] by blast
    have "resp (es @ take i (e # sent)) ((e # sent) ! i) = Inr Ok" if "Suc i < length (e # sent)" for i
      using that True ih(4) by (cases i) auto
    then show ?thesis
      using True ih(1,2,3,5,6) by (intro exI [of _ "e # sent"] exI [of _ rest]) simp
  next
    case False
    then show ?thesis by (intro exI [of _ "[e]"] exI [of _ plan]) auto
  qed
qed simp

lemma sends_then:
  assumes m: "sends resp m plan" and f: "sends resp (f ()) post"
  shows "sends resp (andThen m f) (plan @ post)"
  unfolding sends_def
proof (intro allI impI)
  fix c :: "link_event list gpu_context" and es assume "ctx_transport c = recording resp"
  then obtain c1 where c1: "ctx_transport c1 = recording resp"
    and run: "m (c, es) = (result_of (fst (outcome resp es plan)), (c1, snd (outcome resp es plan)))"
    using m unfolding sends_def by blast
  obtain c2 where "ctx_transport c2 = recording resp" and
    "f () (c1, snd (outcome resp es plan)) = (result_of (fst (outcome resp (snd (outcome resp es plan)) post)),
        (c2, snd (outcome resp (snd (outcome resp es plan)) post)))"
    using f c1 unfolding sends_def by blast
  then show "\<exists>c'. ctx_transport c' = recording resp \<and> andThen m f (c, es)
      = (result_of (fst (outcome resp es (plan @ post))), (c', snd (outcome resp es (plan @ post))))"
    using run c1 by (cases "fst (outcome resp es plan)")
      (auto simp: andThen_def outcome_append)
qed

lemma sends_nothing:
  assumes "\<And>c es. ctx_transport c = recording resp \<Longrightarrow>
    \<exists>c'. ctx_transport c' = recording resp \<and> m (c, es) = (Inr (), (c', es))"
  shows "sends resp m []"
  using assms by (simp add: sends_def)

lemma sends_ret [simp]: "sends resp (ret ()) []"
  by (rule sends_nothing) simp

lemma sends_log [simp]: "sends resp (log_line e) []"
  by (rule sends_nothing) (simp add: log_line_def)

lemma sends_write_program:
  "p \<noteq> None \<Longrightarrow> n \<noteq> 0 \<Longrightarrow> sends resp (write_program a p n) [EvProgram a p n]"
  by (simp add: sends_def write_program_def recording_def answer_def Let_def split: sum.split)

lemma sends_write_constants:
  "p \<noteq> None \<Longrightarrow> n \<noteq> 0 \<Longrightarrow> sends resp (write_constants a p n) [EvConstants a p n]"
  by (simp add: sends_def write_constants_def recording_def answer_def Let_def split: sum.split)

lemma sends_validate: "sends resp (validate_loaded k) [EvValidate k]"
  by (simp add: sends_def validate_loaded_def recording_def answer_def split: sum.split)

lemma sends_start:
  "sends resp (start_kernel k)
     [EvLaunch (kn_base_pc k) (kn_grid_dim k) (kn_block_dim k) (kn_active_mask k)]"
  by (simp add: sends_def start_kernel_def recording_def answer_def Let_def split: sum.split)

lemma sends_wait: "sends resp (wait_kernel t) [EvWait t]"
  by (simp add: sends_def wait_kernel_def recording_def answer_def Let_def
      andThen_def log_line_def split: sum.split)

text \<open>The requests of a descriptor without a program of its own.\<close>

definition launch_plan :: "kernel_desc \<Rightarrow> link_event list" where
  "launch_plan k =
     [EvConstants (kn_constants_addr k) (kn_constants k) (kn_constants_size k),
      EvLaunch (kn_base_pc k) (kn_grid_dim k) (kn_block_dim k) (kn_active_mask k),
      EvWait (kn_timeout_ms k)]"

lemma sends_launch_desc:
  assumes "kn_program_size k = 0" and "kn_constants k \<noteq> None" and "kn_constants_size k \<noteq> 0"
  shows "sends resp (launch_desc k) (launch_plan k)"
proof -
  have c: "sends resp (if kn_constants k \<noteq> None \<and> kn_constants_size k \<noteq> 0
        then write_constants (kn_constants_addr k) (kn_constants k) (kn_constants_size k) else ret ())
      [EvConstants (kn_constants_addr k) (kn_constants k) (kn_constants_size k)]"
    using assms sends_write_constants by simp
  have u: "sends resp (unless_throw True e) []" for e by (rule sends_nothing) simp
  have "sends resp (launch_desc k) ([] @ [] @ [] @ [] @
      [EvConstants (kn_constants_addr k) (kn_constants k) (kn_constants_size k)] @
      [EvLaunch (kn_base_pc k) (kn_grid_dim k) (kn_block_dim k) (kn_active_mask k)] @
      [EvWait (kn_timeout_ms k)])"
    unfolding launch_desc_def
    by (intro sends_then c sends_start sends_wait) (use assms u in simp_all)
  then show ?thesis by (simp add: launch_plan_def)
qed

lemma constants_nonempty:
  assumes "length args < 2 ^ 32"
  shows "constants_table args b \<noteq> []" and "(of_nat (length (constants_table args b)) * 4 :: u64) \<noteq> 0"
proof -
  have l: "length (constants_table args b) = max 33 (length args)"
    by (simp add: constants_table_def Let_def)
  then show "constants_table args b \<noteq> []" by (auto simp: max_def split: if_splits)
  have "unat (of_nat (length (constants_table args b)) * 4 :: u64) = max 33 (length args) * 4"
    using assms l by (simp add: unat_word_ariths unat_of_nat)
  then show "(of_nat (length (constants_table args b)) * 4 :: u64) \<noteq> 0"
    by (metis max.cobounded1 mult_is_0 numeral_le_iff unat_0 zero_neq_numeral rel_simps(51) le_zero_eq)
qed

text \<open>Where a kernel's program will be and what loading it sends; \<open>None\<close> when no slot can be had.\<close>

definition load_plan :: "u8 \<Rightarrow> precompiled_kernel \<Rightarrow> 'd gpu_context \<Rightarrow> (u32 \<times> link_event list) option" where
  "load_plan kid pk c =
     (case touch_entry (cache_name pk) (ctx_program_cache_clock c + 1) (ctx_program_cache c) of
        Some (addr, _) \<Rightarrow> Some (addr, [])
      | None \<Rightarrow>
          (let (p, n) = kernel_image pk
           in case fst (allocate_program_slot (cache_name pk) n c) of
                Inl _ \<Rightarrow> None
              | Inr addr \<Rightarrow> Some (addr, [EvProgram addr p n, EvValidate kid])))"

lemma allocate_slot_transport:
  "ctx_transport (snd (allocate_program_slot name sz c)) = ctx_transport c"
proof -
  have "ctx_transport (snd (allocate_slot_loop name sz c)) = ctx_transport c"
  proof (induction name sz c rule: allocate_slot_loop.induct)
    case (1 name sz c)
    have "ctx_transport (snd (evict_lru_program c)) = ctx_transport c"
      by (simp add: evict_lru_program_def Let_def)
    then show ?case
      using 1 by (subst allocate_slot_loop.simps) (auto simp: Let_def split: option.splits)
  qed
  then show ?thesis by (simp add: allocate_program_slot_def)
qed

text \<open>Loading and then going on with \<open>f\<close> sends the load plan and then what \<open>f\<close> sends.\<close>

lemma load_then_sends:
  assumes tr: "ctx_transport c = recording resp" and plan: "load_plan kid pk c = Some (addr, pre)"
    and img: "kernel_image pk = (Some bs, n)" "n \<noteq> 0" and f: "sends resp (f addr) post"
  shows "\<exists>c'. ctx_transport c' = recording resp \<and>
    andThen (ensure_program_loaded pk kid) f (c, es)
      = (result_of (fst (outcome resp es (pre @ post))), (c', snd (outcome resp es (pre @ post))))"
proof (cases "touch_entry (cache_name pk) (ctx_program_cache_clock c + 1) (ctx_program_cache c)")
  case (Some h)
  then obtain cache where h: "h = (addr, cache)" "pre = []"
    using plan by (cases h) (auto simp: load_plan_def)
  let ?c = "c\<lparr>ctx_program_cache_clock := ctx_program_cache_clock c + 1, ctx_program_cache := cache\<rparr>"
  have "andThen (ensure_program_loaded pk kid) f (c, es) = f addr (?c, es)"
    using Some h img by (simp add: andThen_def ensure_program_loaded_def)
  moreover have "ctx_transport ?c = recording resp" using tr by simp
  ultimately show ?thesis using f h(2) unfolding sends_def by simp
next
  case None
  let ?alloc = "allocate_program_slot (cache_name pk) n c"
  have alloc: "fst ?alloc = Inr addr" and pre: "pre = [EvProgram addr (Some bs) n, EvValidate kid]"
    using plan None img by (auto simp: load_plan_def split: sum.splits)
  let ?tail = "andThen (write_program addr (Some bs) n) (\<lambda>_. andThen (validate_loaded kid)
      (\<lambda>_. andThen (modify (\<lambda>(c, d). (cache_insert (cache_name pk) addr n c, d))) (\<lambda>_. f addr)))"
  let ?load = "\<lambda>addr. andThen (write_program addr (Some bs) n) (\<lambda>_. andThen (validate_loaded kid)
      (\<lambda>_. andThen (modify (\<lambda>(c, d). (cache_insert (cache_name pk) addr n c, d))) (\<lambda>_. ret addr)))"
  have "ensure_program_loaded pk kid (c, es)
      = andThen (on_context (allocate_program_slot (cache_name pk) n)) ?load (c, es)"
    using None img by (simp add: ensure_program_loaded_def Let_def)
  then have "andThen (ensure_program_loaded pk kid) f (c, es)
      = andThen (andThen (on_context (allocate_program_slot (cache_name pk) n)) ?load) f (c, es)"
    by (rule andThen_cong_state)
  also have "\<dots> = ?tail (snd ?alloc, es)"
  proof -
    have "on_context (allocate_program_slot (cache_name pk) n) (c, es) = (Inr addr, (snd ?alloc, es))"
      using alloc by (cases ?alloc) (simp add: on_context_def)
    then show ?thesis by (simp add: andThen_assoc andThen_Inr)
  qed
  finally have "andThen (ensure_program_loaded pk kid) f (c, es) = ?tail (snd ?alloc, es)" .
  moreover have "sends resp ?tail ([EvProgram addr (Some bs) n] @ [EvValidate kid] @ [] @ post)"
    using f img(2)
    by (intro sends_then sends_write_program sends_validate sends_nothing)
      (simp_all add: cache_insert_def)
  moreover have "ctx_transport (snd ?alloc) = recording resp" using tr by (simp add: allocate_slot_transport)
  ultimately show ?thesis using pre unfolding sends_def by simp
qed

text \<open>
  When no slot can be had, loading fails with the allocator's error before anything is sent.
\<close>

lemma no_slot_sends_nothing:
  assumes "load_plan kid pk c = None" and "kernel_image pk = (Some bs, n)" and "n \<noteq> 0"
  shows "\<exists>x. fst (allocate_program_slot (cache_name pk) n c) = Inl x \<and>
    andThen (ensure_program_loaded pk kid) f (c, es)
      = (Inl x, (snd (allocate_program_slot (cache_name pk) n c), es))"
proof -
  have miss: "touch_entry (cache_name pk) (ctx_program_cache_clock c + 1) (ctx_program_cache c) = None"
    using assms(1,2) by (auto simp: load_plan_def split: option.splits)
  then obtain x where x: "fst (allocate_program_slot (cache_name pk) n c) = Inl x"
    using assms(1,2) by (auto simp: load_plan_def split: sum.splits)
  then have "ensure_program_loaded pk kid (c, es)
      = (Inl x, (snd (allocate_program_slot (cache_name pk) n c), es))"
    using miss assms(2,3)
    by (cases "allocate_program_slot (cache_name pk) n c")
      (simp add: ensure_program_loaded_def andThen_def on_context_def)
  then show ?thesis using x by (simp add: andThen_def)
qed

text \<open>
  C12: the launch protocol. Launching a registered kernel whose image is not empty, with fewer than
  \<open>2 ^ 32\<close> arguments, over a link that may answer each request with any status or exception, plans
  these requests: the program and its validation when it is not resident, then the constant table,
  the launch and the wait. When no slot can be had for the program, nothing is sent and the launch
  raises the allocator's error. Otherwise the requests go out in that order up to and including the
  first that is not answered \<open>Ok\<close>: every request but the last sent was answered \<open>Ok\<close>, the answer
  to the last decides the result (the exception thrown, the error for a status other than \<open>Ok\<close>, or
  success), and on success the whole plan was sent. So no kernel is launched before its program was
  validated and its constants written, and nothing is sent after a refusal.
\<close>

theorem launch_kernel_protocol:
  assumes tr: "ctx_transport c = recording resp" and pk: "find_kernel name c = Some pk" "ids name = Some kid"
    and img: "kernel_image pk = (Some bs, n)" "n \<noteq> 0" and args: "length args < 2 ^ 32"
    and launch: "launch = (case config of None \<Rightarrow> kernel_defaults pk | Some l \<Rightarrow> l)"
  shows "\<exists>c'. case load_plan kid pk c of
      None \<Rightarrow> (\<exists>x. fst (allocate_program_slot (cache_name pk) n c) = Inl x
        \<and> launch_kernel ids name args config (c, es) = (Inl x, (c', es)))
    | Some (addr, pre) \<Rightarrow> (\<exists>sent rest r.
        pre @ launch_plan (launch_descriptor pk kid
          (constants_table args (ctx_compiler_spill_base c)) launch addr) = sent @ rest
        \<and> sent \<noteq> []
        \<and> launch_kernel ids name args config (c, es) = (r, (c', es @ sent))
        \<and> (\<forall>i. Suc i < length sent \<longrightarrow> resp (es @ take i sent) (sent ! i) = Inr Ok)
        \<and> (case resp (es @ butlast sent) (last sent) of
              Inl x \<Rightarrow> r = Inl x
            | Inr st \<Rightarrow> if st = Ok then r = Inr () \<and> rest = [] else r = Inl (error st)))"
proof -
  let ?k = "\<lambda>a. launch_descriptor pk kid (constants_table args (ctx_compiler_spill_base c)) launch a"
  let ?f = "\<lambda>a. andThen (log_line (launch_log name args)) (\<lambda>_. launch_desc (?k a))"
  have run: "launch_kernel ids name args config (c, es) = andThen (ensure_program_loaded pk kid) ?f (c, es)"
    using pk launch by (simp add: launch_kernel_def Let_def)
  show ?thesis
  proof (cases "load_plan kid pk c")
    case None
    obtain x where "fst (allocate_program_slot (cache_name pk) n c) = Inl x"
      "launch_kernel ids name args config (c, es)
        = (Inl x, (snd (allocate_program_slot (cache_name pk) n c), es))"
      using no_slot_sends_nothing [OF None img, of ?f es] run by auto
    then show ?thesis using None by simp
  next
    case (Some h)
    obtain addr pre where h: "h = (addr, pre)" by (cases h)
    define plan where "plan = pre @ launch_plan (?k addr)"
    have "sends resp (launch_desc (?k addr)) (launch_plan (?k addr))"
      using constants_nonempty [OF args] by (intro sends_launch_desc) (simp_all add: launch_descriptor_def)
    then have "sends resp (?f addr) ([] @ launch_plan (?k addr))" by (intro sends_then) simp_all
    then obtain c' where out: "launch_kernel ids name args config (c, es)
        = (result_of (fst (outcome resp es plan)), (c', snd (outcome resp es plan)))"
      using load_then_sends [OF tr _ img, of kid addr pre ?f "launch_plan (?k addr)" es] Some h run plan_def
      by auto
    have "plan \<noteq> []" by (simp add: plan_def launch_plan_def)
    from outcome_sent [OF this, of resp es] obtain sent rest where s: "plan = sent @ rest" "sent \<noteq> []"
      "snd (outcome resp es plan) = es @ sent"
      "\<forall>i. Suc i < length sent \<longrightarrow> resp (es @ take i sent) (sent ! i) = Inr Ok"
      "fst (outcome resp es plan) = resp (es @ butlast sent) (last sent)"
      "resp (es @ butlast sent) (last sent) = Inr Ok \<longrightarrow> rest = []" by blast
    show ?thesis
      using Some h out s unfolding plan_def
      by (intro exI [of _ c']) (auto split: sum.splits intro!: exI [of _ sent])
  qed
qed

definition recording_context :: "responses \<Rightarrow> link_event list gpu_context" where
  "recording_context resp =
     \<lparr>ctx_memory_base = 0, ctx_memory_size = 64, ctx_program_memory_size = 8,
      ctx_program_cache_clock = 0, ctx_compiler_spill_base = 56, ctx_compiler_spill_size = 8,
      ctx_default_alignment = 4, ctx_transport = recording resp,
      ctx_blocks = [\<lparr>boffset = 0, bsize = 56, bfree = True\<rparr>],
      ctx_program_blocks = [\<lparr>boffset = 0, bsize = 8, bfree = True\<rparr>],
      ctx_program_cache = [], ctx_kernels = [full_kernel], ctx_logging_enabled = False,
      ctx_log_path = [], ctx_log = []\<rparr>"

text \<open>A device that refuses the launch: the program and the constants went out before, no wait after.\<close>

definition refusing :: responses where
  "refusing es e = Inr (case e of EvLaunch _ _ _ _ \<Rightarrow> Unsupported | _ \<Rightarrow> Ok)"

lemma launch_kernel_protocol_witness:
  "\<exists>c' sent. launch_kernel (\<lambda>_. Some 3) ''k'' [] None (recording_context refusing, [])
     = (Inl (error Unsupported), (c', sent)) \<and> length sent = 4"
proof -
  let ?c = "recording_context refusing"
  let ?k = "launch_descriptor full_kernel 3 (constants_table [] (ctx_compiler_spill_base ?c))
      (kernel_defaults full_kernel) 0"
  let ?p = "EvProgram 0 (Some [1, 2, 3, 4, 5, 6, 7, 8]) 8"
  have "fst (allocate_program_slot (cache_name full_kernel) 8 ?c) = Inr 0"
    by (simp add: allocate_program_slot_def allocate_slot_loop.simps recording_context_def Let_def)
  then have load: "load_plan 3 full_kernel ?c = Some (0, [?p, EvValidate 3])"
    by (simp add: load_plan_def full_kernel_image recording_context_def)
  have found: "find_kernel ''k'' ?c = Some full_kernel"
    by (simp add: find_kernel_def recording_context_def full_kernel_def empty_precompiled_kernel_def)
  have tr: "ctx_transport ?c = recording refusing" by (simp add: recording_context_def)
  obtain c' sent rest r where s: "[?p, EvValidate 3] @ launch_plan ?k = sent @ rest" "sent \<noteq> []"
    "launch_kernel (\<lambda>_. Some 3) ''k'' [] None (?c, []) = (r, (c', sent))"
    "\<forall>i. Suc i < length sent \<longrightarrow> refusing (take i sent) (sent ! i) = Inr Ok"
    "case refusing (butlast sent) (last sent) of Inl x \<Rightarrow> r = Inl x
      | Inr st \<Rightarrow> if st = Ok then r = Inr () \<and> rest = [] else r = Inl (error st)"
    using launch_kernel_protocol [where ids = "\<lambda>_. Some 3" and kid = 3 and args = "[]" and config = None
        and es = "[]", OF tr found refl full_kernel_image _ _ refl] load
    by (auto simp del: append_Cons)
  obtain a b d where k: "launch_plan ?k = [a, b, d]" "\<And>es. refusing es a = Inr Ok"
    "\<And>es. refusing es b = Inr Unsupported" by (simp add: launch_plan_def refusing_def)
  have "length sent = 4 \<and> r = Inl (error Unsupported)"
    using s(1,2,4,5) k unfolding refusing_def
    by (auto simp: append_eq_Cons_conv Cons_eq_append_conv)
  then show ?thesis using s(3) by blast
qed

end
