(* ===== verification/KernelFiles.thy ===== *)
theory KernelFiles
  imports Launch
begin

text \<open>
  Kernel artifacts and the kernel manifest: the file readers of \<open>runtime/src/minigpu_runtime.cpp\<close> and
  \<open>runtime/src/minigpu_kernels.cpp\<close>, the parsing of symbol maps and manifests, and the registration
  of what a manifest lists. The file system is a parameter: what opening a path gives, with the size
  \<open>tellg\<close> reports and the bytes that can be read. yaml-cpp is the parameter record \<open>yaml\<close> over an
  abstract type of nodes. The readings of \<open>std::istream\<close> and \<open>std::stoul\<close> are written out as the
  standard library defines them in the classic locale.
\<close>

section \<open>Results\<close>

definition bind_ok :: "'e + 'a \<Rightarrow> ('a \<Rightarrow> 'e + 'b) \<Rightarrow> 'e + 'b" where
  "bind_ok r f = (case r of Inl e \<Rightarrow> Inl e | Inr x \<Rightarrow> f x)"

lemma bind_ok_Inl [simp]: "bind_ok (Inl e) f = Inl e"
  by (simp add: bind_ok_def)

lemma bind_ok_Inr [simp]: "bind_ok (Inr x) f = f x"
  by (simp add: bind_ok_def)

lemma bind_ok_eq_Inr [simp]: "bind_ok r f = Inr y \<longleftrightarrow> (\<exists>x. r = Inr x \<and> f x = Inr y)"
  by (cases r) auto

text \<open>Results of the elements of a list, the first failure first.\<close>

fun map_ok :: "('a \<Rightarrow> 'e + 'b) \<Rightarrow> 'a list \<Rightarrow> 'e + 'b list" where
  "map_ok f [] = Inr []"
| "map_ok f (x # xs) = bind_ok (f x) (\<lambda>y. bind_ok (map_ok f xs) (\<lambda>ys. Inr (y # ys)))"

lemma map_ok_mem: "\<lbrakk>map_ok f xs = Inr ys; y \<in> set ys\<rbrakk> \<Longrightarrow> \<exists>x \<in> set xs. f x = Inr y"
  by (induction xs arbitrary: ys) auto

section \<open>Files\<close>

record disk_file =
  df_size :: int
  df_bytes :: bytes

type_synonym file_system = "string \<Rightarrow> disk_file option"

definition read_binary_file :: "file_system \<Rightarrow> string \<Rightarrow> exn + bytes" where
  "read_binary_file fs path =
     (case fs path of
        None \<Rightarrow> Inl (error NotFound)
      | Some f \<Rightarrow>
          if df_size f \<le> 0 then Inl (error BadArgument)
          else if int (length (df_bytes f)) < df_size f then Inl (error Transport)
          else Inr (take (nat (df_size f)) (df_bytes f)))"

section \<open>Text\<close>

text \<open>\<open>isspace\<close>, and the extraction of a word by \<open>>>\<close>: what it gives and what is left.\<close>

definition is_space :: "char \<Rightarrow> bool" where
  "is_space c \<longleftrightarrow> c = CHR '' '' \<or> 9 \<le> (of_char c :: nat) \<and> (of_char c :: nat) \<le> 13"

definition next_token :: "string \<Rightarrow> (string \<times> string) option" where
  "next_token s =
     (let s' = dropWhile is_space s
      in if s' = [] then None
         else Some (takeWhile (\<lambda>c. \<not> is_space c) s', dropWhile (\<lambda>c. \<not> is_space c) s'))"

text \<open>\<open>std::getline\<close>: what is left behind the end of the line.\<close>

definition newline :: char where
  "newline = CHR 0x0A"

definition after_line :: "string \<Rightarrow> string" where
  "after_line s = drop 1 (dropWhile (\<lambda>c. c \<noteq> newline) s)"

definition digit_value :: "char \<Rightarrow> nat option" where
  "digit_value c =
     (let n = of_char c :: nat
      in if 48 \<le> n \<and> n \<le> 57 then Some (n - 48)
         else if 97 \<le> n \<and> n \<le> 122 then Some (n - 87)
         else if 65 \<le> n \<and> n \<le> 90 then Some (n - 55)
         else None)"

definition is_digit :: "nat \<Rightarrow> char \<Rightarrow> bool" where
  "is_digit base c = (case digit_value c of None \<Rightarrow> False | Some d \<Rightarrow> d < base)"

definition digits_value :: "nat \<Rightarrow> string \<Rightarrow> nat" where
  "digits_value base s = foldl (\<lambda>n c. n * base + the (digit_value c)) 0 s"

definition strip_sign :: "string \<Rightarrow> bool \<times> string" where
  "strip_sign s =
     (case s of
        [] \<Rightarrow> (False, [])
      | c # r \<Rightarrow> if c = CHR ''-'' then (True, r) else if c = CHR ''+'' then (False, r) else (False, s))"

text \<open>
  The prefix a hexadecimal extraction consumes: one zero, or one zero and an \<open>x\<close>, which needs a digit
  behind it; the first component says whether a number was found already.
\<close>

definition strip_hex_prefix :: "string \<Rightarrow> bool \<times> string" where
  "strip_hex_prefix s =
     (case s of
        [] \<Rightarrow> (False, [])
      | z # r \<Rightarrow>
          if z \<noteq> CHR ''0'' then (False, s)
          else (case r of
                  [] \<Rightarrow> (True, [])
                | c # r' \<Rightarrow> if c = CHR ''x'' \<or> c = CHR ''X'' then (False, r') else (True, r)))"

text \<open>
  \<open>parse_hex_word\<close>: the stream must hold one number and nothing behind it. The extraction of an
  unsigned integer accepts a minus sign, which negates the value, and fails above the largest value.
\<close>

definition parse_hex_word :: "string \<Rightarrow> exn + u32" where
  "parse_hex_word text =
     (let (negative, s) = strip_sign (dropWhile is_space text);
          (found_zero, s') = strip_hex_prefix s;
          digits = takeWhile (is_digit 16) s';
          v = digits_value 16 digits
      in if digits = [] \<and> \<not> found_zero \<or> dropWhile (is_digit 16) s' \<noteq> [] \<or> v > 0xffffffff
         then Inl (error BadArgument)
         else Inr (if negative then - of_nat v else of_nat v))"

definition text_of :: "bytes \<Rightarrow> string" where
  "text_of bs = map (\<lambda>b. char_of (unat b)) bs"

text \<open>The token loop of \<open>read_hex_words_file\<close>.\<close>

lemma next_token_shorter: "next_token s = Some (tok, rest) \<Longrightarrow> length rest < length s"
proof -
  assume a: "next_token s = Some (tok, rest)"
  let ?s = "dropWhile is_space s"
  have ne: "?s \<noteq> []" and tok: "tok = takeWhile (\<lambda>c. \<not> is_space c) ?s"
    and rest: "rest = dropWhile (\<lambda>c. \<not> is_space c) ?s"
    using a by (auto simp: next_token_def Let_def split: if_splits)
  then have "tok \<noteq> []" using hd_dropWhile [OF ne] by (cases ?s) auto
  then have "length rest < length ?s"
    using tok rest takeWhile_dropWhile_id [of "\<lambda>c. \<not> is_space c" ?s]
    by (metis length_append length_greater_0_conv less_add_same_cancel2)
  then show "length rest < length s"
    using length_dropWhile_le [of is_space s] by linarith
qed

lemma after_line_shorter: "length (after_line s) \<le> length s"
  using length_dropWhile_le [of "\<lambda>c. c \<noteq> newline" s] by (simp add: after_line_def)

function hex_words :: "string \<Rightarrow> exn + bytes" where
  "hex_words s =
     (case next_token s of
        None \<Rightarrow> Inr []
      | Some (tok, rest) \<Rightarrow>
          if hd tok = CHR ''#'' then hex_words (after_line rest)
          else bind_ok (parse_hex_word tok) (\<lambda>word.
               bind_ok (hex_words rest) (\<lambda>bs. Inr (word_bytes word @ bs))))"
  by pat_completeness auto
termination
  by (relation "measure length")
    (auto dest: next_token_shorter intro: le_less_trans [OF after_line_shorter])

declare hex_words.simps [simp del]

definition read_hex_words_file :: "file_system \<Rightarrow> string \<Rightarrow> exn + bytes" where
  "read_hex_words_file fs path =
     (case fs path of
        None \<Rightarrow> Inl (error NotFound)
      | Some f \<Rightarrow> bind_ok (hex_words (text_of (df_bytes f))) (\<lambda>bs.
                  if bs = [] then Inl (error BadArgument) else Inr bs))"

text \<open>Big-endian instruction words, stored in host order.\<close>

fun be_words :: "bytes \<Rightarrow> bytes" where
  "be_words (a # b # c # d # raw) =
     word_bytes (push_bit 24 (ucast a) OR push_bit 16 (ucast b) OR push_bit 8 (ucast c) OR ucast d)
       @ be_words raw"
| "be_words _ = []"

definition read_binary_words_file :: "file_system \<Rightarrow> string \<Rightarrow> exn + bytes" where
  "read_binary_words_file fs path =
     bind_ok (read_binary_file fs path) (\<lambda>raw.
       if length raw mod 4 \<noteq> 0 then Inl (error BadArgument) else Inr (be_words raw))"

definition has_suffix :: "string \<Rightarrow> string \<Rightarrow> bool" where
  "has_suffix suffix path \<longleftrightarrow>
     length suffix \<le> length path \<and> drop (length path - length suffix) path = suffix"

definition read_kernel_file :: "file_system \<Rightarrow> string \<Rightarrow> exn + bytes" where
  "read_kernel_file fs path =
     (if has_suffix ''.hex'' path then read_hex_words_file fs path
      else if has_suffix ''.bin'' path then read_binary_words_file fs path
      else read_binary_file fs path)"

text \<open>
  The runtime has readers of its own: the same code for hexadecimal and raw files, and no case for
  \<open>.bin\<close>.
\<close>

definition runtime_read_binary_file :: "file_system \<Rightarrow> string \<Rightarrow> exn + bytes" where
  "runtime_read_binary_file fs path =
     (case fs path of
        None \<Rightarrow> Inl (error NotFound)
      | Some f \<Rightarrow>
          if df_size f \<le> 0 then Inl (error BadArgument)
          else if int (length (df_bytes f)) < df_size f then Inl (error Transport)
          else Inr (take (nat (df_size f)) (df_bytes f)))"

definition runtime_read_hex_words_file :: "file_system \<Rightarrow> string \<Rightarrow> exn + bytes" where
  "runtime_read_hex_words_file fs path =
     (case fs path of
        None \<Rightarrow> Inl (error NotFound)
      | Some f \<Rightarrow> bind_ok (hex_words (text_of (df_bytes f))) (\<lambda>bs.
                  if bs = [] then Inl (error BadArgument) else Inr bs))"

definition runtime_read_kernel_file :: "file_system \<Rightarrow> string \<Rightarrow> exn + bytes" where
  "runtime_read_kernel_file fs path =
     (if has_suffix ''.hex'' path then runtime_read_hex_words_file fs path
      else runtime_read_binary_file fs path)"

definition register_kernel_from_file ::
    "file_system \<Rightarrow> string \<Rightarrow> string \<Rightarrow> u32 \<Rightarrow> u32 \<Rightarrow> launch_config \<Rightarrow> ('d gpu_context, exn, unit) action" where
  "register_kernel_from_file fs name path program_addr base_pc defaults =
     andThen (of_sum (runtime_read_kernel_file fs path)) (\<lambda>program_bytes.
       register_kernel (empty_precompiled_kernel
         \<lparr>pk_name := name, pk_program_id := name, pk_program_bytes := program_bytes,
          pk_program_addr := program_addr, pk_base_pc := base_pc, pk_entry_pc := base_pc,
          pk_default_grid_dim := lc_grid_dim defaults, pk_default_block_dim := lc_block_dim defaults,
          pk_default_active_mask := lc_active_mask defaults,
          pk_default_timeout_ms := lc_timeout_ms defaults\<rparr>))"

section \<open>Numbers in the manifest\<close>

text \<open>
  \<open>std::stoul(text, nullptr, 0)\<close>: space, a sign, a prefix that chooses the base (an \<open>x\<close> only with a
  digit behind it), then the longest run of digits; what follows is ignored. No digits, or a value above
  the largest \<open>unsigned long\<close>, is an exception that is not a \<open>minigpu::Error\<close>.
\<close>

definition stoul_base :: "string \<Rightarrow> nat \<times> string" where
  "stoul_base s =
     (case s of
        [] \<Rightarrow> (10, s)
      | z # r \<Rightarrow>
          if z \<noteq> CHR ''0'' then (10, s)
          else (case r of
                  c # d # r' \<Rightarrow>
                    if (c = CHR ''x'' \<or> c = CHR ''X'') \<and> is_digit 16 d then (16, d # r') else (8, s)
                | _ \<Rightarrow> (8, s)))"

definition stoul :: "string \<Rightarrow> exn + u64" where
  "stoul text =
     (let (negative, s) = strip_sign (dropWhile is_space text);
          (base, s') = stoul_base s;
          digits = takeWhile (is_digit base) s';
          v = digits_value base digits
      in if digits = [] then Inl (Runtime_error ''stoul: no conversion'')
         else if v > 2 ^ 64 - 1 then Inl (Runtime_error ''stoul: out of range'')
         else Inr (if negative then - of_nat v else of_nat v))"

section \<open>YAML\<close>

text \<open>
  The yaml-cpp operations the loaders call: \<open>LoadFile\<close> (nothing on a \<open>YAML::Exception\<close>), \<open>operator[]\<close> by
  key, the tests, \<open>as<std::string>\<close>, the elements of a sequence, and the node of \<open>YAML::Node{}\<close>.
\<close>

record 'n yaml =
  y_load :: "string \<Rightarrow> 'n option"
  y_get :: "'n \<Rightarrow> string \<Rightarrow> exn + 'n"
  y_defined :: "'n \<Rightarrow> bool"
  y_is_scalar :: "'n \<Rightarrow> bool"
  y_is_sequence :: "'n \<Rightarrow> bool"
  y_is_map :: "'n \<Rightarrow> bool"
  y_string :: "'n \<Rightarrow> exn + string"
  y_items :: "'n \<Rightarrow> 'n list"
  y_null :: 'n

definition yaml_u32 :: "'n yaml \<Rightarrow> 'n \<Rightarrow> u32 \<Rightarrow> exn + u32" where
  "yaml_u32 y node fallback =
     (if \<not> y_defined y node then Inr fallback
      else if y_is_scalar y node then
        bind_ok (y_string y node) (\<lambda>text. bind_ok (stoul text) (\<lambda>v. Inr (narrow v)))
      else Inl (error BadArgument))"

definition all_lanes :: "u32 \<Rightarrow> u32" where
  "all_lanes block_dim = (if block_dim \<ge> 32 then 0xffffffff else push_bit (unat block_dim) 1 - 1)"

definition yaml_active_mask :: "'n yaml \<Rightarrow> 'n \<Rightarrow> u32 \<Rightarrow> exn + u32" where
  "yaml_active_mask y node block_dim =
     (if \<not> y_defined y node then Inr (all_lanes block_dim)
      else bind_ok (y_string y node) (\<lambda>text.
        if text = ''auto'' then Inr (all_lanes block_dim)
        else bind_ok (stoul text) (\<lambda>v. Inr (narrow v))))"

section \<open>Paths\<close>

definition is_absolute_path :: "string \<Rightarrow> bool" where
  "is_absolute_path path \<longleftrightarrow> path \<noteq> [] \<and> hd path = CHR ''/''"

text \<open>\<open>find_last_of\<close>: the index of the last occurrence of a character.\<close>

fun find_last_of :: "char \<Rightarrow> string \<Rightarrow> nat option" where
  "find_last_of c [] = None"
| "find_last_of c (x # xs) =
     (case find_last_of c xs of
        Some i \<Rightarrow> Some (Suc i)
      | None \<Rightarrow> if x = c then Some 0 else None)"

definition parent_dir :: "string \<Rightarrow> string" where
  "parent_dir path =
     (case find_last_of (CHR ''/'') path of
        None \<Rightarrow> ''.''
      | Some slash \<Rightarrow> if slash = 0 then ''/'' else take slash path)"

definition resolve_artifact_path :: "string \<Rightarrow> string \<Rightarrow> string" where
  "resolve_artifact_path manifest_path file =
     (if is_absolute_path file then file else parent_dir manifest_path @ ''/'' @ file)"

definition replace_extension :: "string \<Rightarrow> string \<Rightarrow> string" where
  "replace_extension path extension =
     (case find_last_of (CHR ''.'') path of
        None \<Rightarrow> path @ extension
      | Some dot \<Rightarrow>
          (case find_last_of (CHR ''/'') path of
             Some slash \<Rightarrow> if dot < slash then path @ extension else take dot path @ extension
           | None \<Rightarrow> take dot path @ extension))"

section \<open>Symbol maps and manifests\<close>

text \<open>\<open>std::unordered_map::emplace\<close> keeps the value a key has.\<close>

definition emplace :: "'k \<Rightarrow> 'v \<Rightarrow> ('k \<rightharpoonup> 'v) \<Rightarrow> ('k \<rightharpoonup> 'v)" where
  "emplace k v m = (case m k of None \<Rightarrow> m(k \<mapsto> v) | Some _ \<Rightarrow> m)"

fun symbol_entries :: "'n yaml \<Rightarrow> 'n list \<Rightarrow> (string \<rightharpoonup> u32) \<Rightarrow> exn + (string \<rightharpoonup> u32)" where
  "symbol_entries y [] out = Inr out"
| "symbol_entries y (entry # entries) out =
     bind_ok (bind_ok (y_get y entry ''name'') (y_string y)) (\<lambda>name.
     bind_ok (bind_ok (y_get y entry ''pc'') (\<lambda>pc. yaml_u32 y pc 0)) (\<lambda>pc.
     symbol_entries y entries (emplace name pc out)))"

definition read_symbol_map :: "'n yaml \<Rightarrow> string \<Rightarrow> exn + (string \<rightharpoonup> u32)" where
  "read_symbol_map y path =
     (case y_load y path of
        None \<Rightarrow> Inl (error NotFound)
      | Some root \<Rightarrow> bind_ok (y_get y root ''symbols'') (\<lambda>symbols.
          if \<not> y_defined y symbols \<or> \<not> y_is_sequence y symbols then Inl (error BadArgument)
          else symbol_entries y (y_items y symbols) Map.empty))"

definition parse_kernel_entry ::
    "'n yaml \<Rightarrow> 'n \<Rightarrow> string \<Rightarrow> bytes \<Rightarrow> (string \<rightharpoonup> u32) \<Rightarrow> launch_config \<Rightarrow> exn + precompiled_kernel" where
  "parse_kernel_entry y entry artifact_path program_bytes symbols defaults =
     bind_ok (bind_ok (y_get y entry ''name'') (y_string y)) (\<lambda>name.
     bind_ok (bind_ok (y_get y entry ''op'') (y_string y)) (\<lambda>op.
     bind_ok (bind_ok (y_get y entry ''dtype'') (y_string y)) (\<lambda>dtype.
     bind_ok (bind_ok (y_get y entry ''entry'') (\<lambda>n. if y_defined y n then y_string y n else Inr name)) (\<lambda>entry_name.
     (case symbols entry_name of
        None \<Rightarrow> Inl (error NotFound)
      | Some pc \<Rightarrow>
     bind_ok (bind_ok (y_get y entry ''grid_dim'') (\<lambda>n. yaml_u32 y n (lc_grid_dim defaults))) (\<lambda>grid_dim.
     bind_ok (bind_ok (y_get y entry ''block_dim'') (\<lambda>n. yaml_u32 y n (lc_block_dim defaults))) (\<lambda>block_dim.
     bind_ok (bind_ok (y_get y entry ''active_mask'') (\<lambda>n. yaml_active_mask y n block_dim)) (\<lambda>active_mask.
     bind_ok (bind_ok (y_get y entry ''timeout_ms'') (\<lambda>n. yaml_u32 y n (lc_timeout_ms defaults))) (\<lambda>timeout_ms.
       if name = [] \<or> op = [] \<or> dtype = [] \<or> artifact_path = [] \<or> program_bytes = []
       then Inl (error BadArgument)
       else Inr (empty_precompiled_kernel
         \<lparr>pk_name := name, pk_program_id := artifact_path, pk_op := op, pk_dtype := dtype,
          pk_program_bytes := program_bytes, pk_entry_pc := pc, pk_base_pc := pc,
          pk_default_grid_dim := grid_dim, pk_default_block_dim := block_dim,
          pk_default_active_mask := active_mask, pk_default_timeout_ms := timeout_ms\<rparr>))))))))))"

definition manifest_defaults :: "'n yaml \<Rightarrow> 'n \<Rightarrow> exn + launch_config" where
  "manifest_defaults y root =
     bind_ok (y_get y root ''defaults'') (\<lambda>defaults_node.
       if y_defined y defaults_node then
         bind_ok (bind_ok (y_get y defaults_node ''grid_dim'')
           (\<lambda>n. yaml_u32 y n (lc_grid_dim default_launch_config))) (\<lambda>grid_dim.
         bind_ok (bind_ok (y_get y defaults_node ''block_dim'')
           (\<lambda>n. yaml_u32 y n (lc_block_dim default_launch_config))) (\<lambda>block_dim.
         bind_ok (bind_ok (y_get y defaults_node ''active_mask'') (\<lambda>n. yaml_active_mask y n block_dim)) (\<lambda>active_mask.
         bind_ok (bind_ok (y_get y defaults_node ''timeout_ms'')
           (\<lambda>n. yaml_u32 y n (lc_timeout_ms default_launch_config))) (\<lambda>timeout_ms.
           Inr \<lparr>lc_grid_dim = grid_dim, lc_block_dim = block_dim, lc_active_mask = active_mask,
                lc_timeout_ms = timeout_ms\<rparr>))))
       else bind_ok (yaml_active_mask y (y_null y) (lc_block_dim default_launch_config)) (\<lambda>active_mask.
         Inr (default_launch_config\<lparr>lc_active_mask := active_mask\<rparr>)))"

definition parse_artifact ::
    "file_system \<Rightarrow> 'n yaml \<Rightarrow> string \<Rightarrow> launch_config \<Rightarrow> 'n \<Rightarrow> exn + precompiled_kernel list" where
  "parse_artifact fs y manifest_path defaults artifact =
     (if \<not> y_is_map y artifact then Inl (error BadArgument)
      else
     bind_ok (bind_ok (y_get y artifact ''file'') (y_string y)) (\<lambda>file.
     let artifact_path = resolve_artifact_path manifest_path file in
     bind_ok (bind_ok (y_get y artifact ''map'')
       (\<lambda>n. if y_defined y n then y_string y n else Inr (replace_extension file ''.map''))) (\<lambda>map_file.
     let map_path = resolve_artifact_path manifest_path map_file in
     bind_ok (read_kernel_file fs artifact_path) (\<lambda>program_bytes.
     bind_ok (read_symbol_map y map_path) (\<lambda>symbols.
     bind_ok (y_get y artifact ''kernels'') (\<lambda>kernel_nodes.
       if \<not> y_defined y kernel_nodes \<or> \<not> y_is_sequence y kernel_nodes then Inl (error BadArgument)
       else map_ok (\<lambda>entry. parse_kernel_entry y entry artifact_path program_bytes symbols defaults)
              (y_items y kernel_nodes)))))))"

definition parse_manifest :: "file_system \<Rightarrow> 'n yaml \<Rightarrow> string \<Rightarrow> exn + precompiled_kernel list" where
  "parse_manifest fs y manifest_path =
     (case y_load y manifest_path of
        None \<Rightarrow> Inl (error NotFound)
      | Some root \<Rightarrow>
     bind_ok (y_get y root ''artifacts'') (\<lambda>artifact_nodes.
       if \<not> y_defined y artifact_nodes \<or> \<not> y_is_sequence y artifact_nodes then Inl (error BadArgument)
       else
     bind_ok (manifest_defaults y root) (\<lambda>defaults.
     bind_ok (map_ok (parse_artifact fs y manifest_path defaults) (y_items y artifact_nodes)) (\<lambda>kernels.
       Inr (concat kernels)))))"

section \<open>Default paths and registration\<close>

definition default_kernel_dir :: "(string \<Rightarrow> string option) \<Rightarrow> string \<Rightarrow> string" where
  "default_kernel_dir env built_in =
     (case env ''MINIGPU_KERNEL_DIR'' of
        Some d \<Rightarrow> if d \<noteq> [] then d else built_in
      | None \<Rightarrow> built_in)"

definition default_manifest_path :: "(string \<Rightarrow> string option) \<Rightarrow> string \<Rightarrow> string" where
  "default_manifest_path env built_in =
     (case env ''MINIGPU_KERNEL_MANIFEST'' of
        Some m \<Rightarrow> if m \<noteq> [] then m else default_kernel_dir env built_in @ ''/kernels.yaml''
      | None \<Rightarrow> default_kernel_dir env built_in @ ''/kernels.yaml'')"

fun register_all :: "precompiled_kernel list \<Rightarrow> ('d gpu_context, exn, unit) action" where
  "register_all [] = ret ()"
| "register_all (pk # pks) = andThen (register_kernel pk) (\<lambda>_. register_all pks)"

definition register_manifest ::
    "file_system \<Rightarrow> 'n yaml \<Rightarrow> string \<Rightarrow> ('d gpu_context, exn, unit) action" where
  "register_manifest fs y manifest_path =
     andThen (of_sum (parse_manifest fs y manifest_path)) register_all"

definition register_builtin_kernels ::
    "file_system \<Rightarrow> 'n yaml \<Rightarrow> (string \<Rightarrow> string option) \<Rightarrow> string \<Rightarrow> ('d gpu_context, exn, unit) action" where
  "register_builtin_kernels fs y env built_in =
     register_manifest fs y (default_manifest_path env built_in)"

section \<open>Rendered numbers and lines are read back\<close>

lemma of_char_digit: "d < 36 \<Longrightarrow> (of_char (digit_char d) :: nat) = (if d < 10 then 48 + d else 87 + d)"
  by (simp add: digit_char_def)

lemma digit_value_char [simp]: "d < 36 \<Longrightarrow> digit_value (digit_char d) = Some d"
  by (auto simp: digit_value_def of_char_digit Let_def)

lemma is_digit_char: "d < b \<Longrightarrow> b \<le> 36 \<Longrightarrow> is_digit b (digit_char d)"
  by (simp add: is_digit_def)

lemma digits_value_snoc: "digits_value b (s @ [c]) = digits_value b s * b + the (digit_value c)"
  by (simp add: digits_value_def)

lemma render_digits:
  assumes "2 \<le> b" and "b \<le> 36"
  shows "list_all (is_digit b) (render_base b n) \<and> digits_value b (render_base b n) = n
    \<and> render_base b n \<noteq> [] \<and> (0 < n \<longrightarrow> hd (render_base b n) \<noteq> CHR ''0'')"
proof (induction n rule: less_induct)
  case (less n)
  show ?case
  proof (cases "n < b")
    case True
    then have "n < 36" using assms by simp
    moreover have "digit_char n \<noteq> CHR ''0''" if "0 < n"
    proof
      assume "digit_char n = CHR ''0''"
      then have "digit_value (digit_char n) = Some 0" by (simp add: digit_value_def)
      then show False using that \<open>n < 36\<close> by simp
    qed
    ultimately show ?thesis
      using True assms by (simp add: render_base.simps [of b n] is_digit_char digits_value_def)
  next
    case False
    then have "n div b < n" "0 < n div b" using assms by (auto simp: div_greater_zero_iff)
    with less have IH: "list_all (is_digit b) (render_base b (n div b))" "digits_value b (render_base b (n div b)) = n div b"
      "render_base b (n div b) \<noteq> []" "hd (render_base b (n div b)) \<noteq> CHR ''0''" by auto
    have d: "n mod b < b" "n mod b < 36" using assms mod_less_divisor [of b n] by linarith+
    show ?thesis
      using False assms IH d by (simp add: render_base.simps [of b n] is_digit_char digits_value_snoc)
  qed
qed

lemma parse_hex:
  assumes "n < 2 ^ 32"
  shows "parse_hex_word (hex n) = Inr (of_nat n)"
proof -
  let ?s = "hex n"
  have r: "list_all (is_digit 16) ?s" "digits_value 16 ?s = n" "?s \<noteq> []" "0 < n \<Longrightarrow> hd ?s \<noteq> CHR ''0''"
    using render_digits [of 16 n] by (auto simp: hex_def)
  then obtain c cs where s: "?s = c # cs" by (cases ?s) auto
  have c: "is_digit 16 c" using r(1) s by simp
  have "\<not> is_space c" "c \<noteq> CHR ''-''" "c \<noteq> CHR ''+''"
    using c by (auto simp: is_digit_def digit_value_def is_space_def Let_def split: if_splits)
  then have strip: "dropWhile is_space ?s = ?s" "strip_sign ?s = (False, ?s)"
    using s by (auto simp: strip_sign_def)
  have all: "takeWhile (is_digit 16) ?s = ?s" "dropWhile (is_digit 16) ?s = []"
    using r(1) by (simp_all add: list_all_iff)
  show ?thesis
  proof (cases "n = 0")
    case True
    have "digit_char 0 = CHR ''0''" by code_simp
    then have "?s = [CHR ''0'']" using True by (simp add: hex_def render_base.simps)
    then show ?thesis using True by (simp add: parse_hex_word_def strip_sign_def strip_hex_prefix_def is_space_def digits_value_def Let_def)
  next
    case False
    then have "c \<noteq> CHR ''0''" using r(4) s by simp
    then have pre: "strip_hex_prefix ?s = (False, ?s)"
      using s by (simp add: strip_hex_prefix_def)
    then show ?thesis using r(1,3) assms by (simp add: parse_hex_word_def Let_def strip all pre r(2) list_all_iff)
  qed
qed

lemma hex_token:
  shows "list_all (\<lambda>c. \<not> is_space c) (hex n)" "hex n \<noteq> []" "hd (hex n) \<noteq> CHR ''#''"
proof -
  have d: "\<not> is_space c" "c \<noteq> CHR ''#''" if "is_digit 16 c" for c
    using that by (auto simp: is_digit_def digit_value_def is_space_def Let_def split: if_splits)
  have r: "list_all (is_digit 16) (hex n)" "hex n \<noteq> []"
    using render_digits [of 16 n] by (auto simp: hex_def)
  then show "list_all (\<lambda>c. \<not> is_space c) (hex n)" "hex n \<noteq> []" by (auto simp: list_all_iff d)
  show "hd (hex n) \<noteq> CHR ''#''" using r d by (cases "hex n") auto
qed

lemma next_token_word:
  assumes "list_all (\<lambda>c. \<not> is_space c) tok" and "tok \<noteq> []" and "is_space c"
  shows "next_token (tok @ c # rest) = Some (tok, c # rest)"
proof -
  have "dropWhile is_space (tok @ c # rest) = tok @ c # rest"
    using assms by (cases tok) auto
  moreover have "takeWhile (\<lambda>c. \<not> is_space c) (tok @ c # rest) = tok"
    "dropWhile (\<lambda>c. \<not> is_space c) (tok @ c # rest) = c # rest"
    using assms by (auto simp: list_all_iff takeWhile_append dropWhile_append)
  ultimately show ?thesis by (simp add: next_token_def)
qed

lemma next_token_space: "is_space c \<Longrightarrow> next_token (c # s) = next_token s"
  by (simp add: next_token_def)

lemma hex_words_space: "is_space c \<Longrightarrow> hex_words (c # s) = hex_words s"
  by (subst (1 2) hex_words.simps) (simp add: next_token_space)

lemma is_space_newline [simp]: "is_space newline"
  by (simp add: is_space_def newline_def)

text \<open>A line of a \<open>.hex\<close> file: a word, or a comment.\<close>

fun hex_line :: "string + u32 \<Rightarrow> string" where
  "hex_line (Inr w) = hex (unat w) @ [newline]"
| "hex_line (Inl comment) = CHR ''#'' # comment @ [newline]"

fun comment_free_of_newlines :: "string + u32 \<Rightarrow> bool" where
  "comment_free_of_newlines (Inl comment) \<longleftrightarrow> newline \<notin> set comment"
| "comment_free_of_newlines (Inr _) \<longleftrightarrow> True"

fun line_bytes :: "string + u32 \<Rightarrow> bytes" where
  "line_bytes (Inr w) = word_bytes w"
| "line_bytes (Inl comment) = []"

lemma hex_words_line_word:
  "hex_words (hex (unat w) @ newline # rest) = bind_ok (hex_words rest) (\<lambda>bs. Inr (word_bytes w @ bs))"
proof -
  have "parse_hex_word (hex (unat w)) = Inr w"
    using parse_hex [of "unat w"] unsigned_less [of w] by simp
  then show ?thesis
    using hex_token [of "unat w"] by (subst hex_words.simps) (simp add: next_token_word hex_words_space)
qed

lemma after_comment:
  assumes "newline \<notin> set comment"
  shows "after_line (dropWhile (\<lambda>c. \<not> is_space c) (comment @ newline # rest)) = rest"
  using assms
proof (induction comment)
  case (Cons c comment)
  then show ?case
    by (cases "is_space c") (auto simp: after_line_def dropWhile_append1 dropWhile_append2 dropWhile_append)
qed (simp add: after_line_def)

lemma hex_words_line_comment:
  assumes "newline \<notin> set comment"
  shows "hex_words (CHR ''#'' # comment @ newline # rest) = hex_words rest"
proof -
  have ns: "\<not> is_space (CHR ''#'')" by (simp add: is_space_def)
  have "next_token (CHR ''#'' # comment @ newline # rest)
      = Some (CHR ''#'' # takeWhile (\<lambda>c. \<not> is_space c) (comment @ newline # rest),
              dropWhile (\<lambda>c. \<not> is_space c) (comment @ newline # rest))"
    using ns by (simp add: next_token_def)
  then show ?thesis using after_comment [OF assms, of rest] by (subst hex_words.simps) simp
qed

lemma hex_words_lines:
  "\<forall>l \<in> set ls. comment_free_of_newlines l \<Longrightarrow>
     hex_words (concat (map hex_line ls)) = Inr (concat (map line_bytes ls))"
proof (induction ls)
  case Nil
  then show ?case by (subst hex_words.simps) (simp add: next_token_def)
next
  case (Cons l ls)
  then show ?case by (cases l) (simp_all add: hex_words_line_word hex_words_line_comment)
qed

lemma word_bytes_nonempty [simp]: "word_bytes w \<noteq> []"
  by (simp add: word_bytes_def)

lemma text_of_chars: "text_of (map of_char s) = s"
proof -
  have "unat (of_char c :: u8) = of_char c" for c
  proof -
    have "unat (of_nat (of_char c) :: u8) = (of_char c :: nat)"
      by (simp only: unat_of_nat) simp
    then show ?thesis by (simp only: of_nat_of_char)
  qed
  then show ?thesis by (simp add: text_of_def comp_def)
qed

text \<open>
  A \<open>.hex\<close> artifact is read back. From a file of lines, each a word in hexadecimal or a comment
  behind \<open>#\<close>, with at least one word, the reader gives the words in order as little-endian bytes.
\<close>

theorem hex_file_roundtrip:
  assumes "fs path = Some f" and "has_suffix ''.hex'' path"
    and "text_of (df_bytes f) = concat (map hex_line ls)"
    and "\<forall>l \<in> set ls. comment_free_of_newlines l" and "Inr w \<in> set ls"
  shows "read_kernel_file fs path = Inr (concat (map line_bytes ls))
    \<and> runtime_read_kernel_file fs path = Inr (concat (map line_bytes ls))"
proof -
  have "concat (map line_bytes ls) \<noteq> []" using assms(5) by (auto intro!: bexI [of _ "Inr w"])
  then show ?thesis
    using assms hex_words_lines [of ls]
    by (simp_all add: read_kernel_file_def read_hex_words_file_def runtime_read_kernel_file_def
        runtime_read_hex_words_file_def)
qed

lemma hex_file_roundtrip_witness:
  "\<exists>fs. read_kernel_file fs ''k.hex'' = Inr [0x2a, 0, 0, 0]"
proof -
  let ?ls = "[Inl '' add'', Inr 0x2a] :: (string + u32) list"
  let ?f = "\<lparr>df_size = 9, df_bytes = map of_char (concat (map hex_line ?ls))\<rparr>"
  have "read_kernel_file (\<lambda>_. Some ?f) ''k.hex'' = Inr (concat (map line_bytes ?ls))"
    by (rule hex_file_roundtrip [where w = "0x2a" and f = ?f, THEN conjunct1])
      (simp_all only: disk_file.simps text_of_chars, simp_all add: newline_def has_suffix_def)
  moreover have "concat (map line_bytes ?ls) = [0x2a, 0, 0, 0]" by (simp add: word_bytes_def)
  ultimately show ?thesis by (intro exI) simp
qed

section \<open>Instruction words in binary files\<close>

definition be_bytes :: "u32 \<Rightarrow> bytes" where
  "be_bytes w = rev (word_bytes w)"

lemma be_words_file: "be_words (concat (map be_bytes ws)) = concat (map word_bytes ws)"
proof (induction ws)
  case (Cons w ws)
  have "push_bit 24 (ucast (ucast (drop_bit 24 w) :: u8)) OR push_bit 16 (ucast (ucast (drop_bit 16 w) :: u8))
      OR push_bit 8 (ucast (ucast (drop_bit 8 w) :: u8)) OR ucast (ucast w :: u8) = w"
    using join_four_bytes [of w] by (simp only: or.assoc or.commute or.left_commute)
  then show ?case using Cons by (simp add: be_bytes_def word_bytes_def)
qed simp

lemma be_bytes_length [simp]: "length (concat (map be_bytes ws)) = 4 * length ws"
  by (induction ws) (simp_all add: be_bytes_def word_bytes_def)

text \<open>
  The two readers disagree on \<open>.bin\<close> files. A file of big-endian instruction words gives the
  words in host order when it is loaded through a manifest, and the bytes as they lie in the file, each
  word reversed, when it is loaded with \<open>Context::register_kernel_from_file\<close>.
\<close>

theorem bin_file_readers:
  assumes "fs path = Some \<lparr>df_size = int (length raw), df_bytes = raw\<rparr>" and "has_suffix ''.bin'' path"
    and "raw = concat (map be_bytes ws)" and "ws \<noteq> []"
  shows "read_kernel_file fs path = Inr (concat (map word_bytes ws))
    \<and> runtime_read_kernel_file fs path = Inr (concat (map (\<lambda>w. rev (word_bytes w)) ws))"
proof -
  have "\<not> has_suffix ''.hex'' path"
    using assms(2) by (auto simp: has_suffix_def)
  then show ?thesis
    using assms
    by (simp add: read_kernel_file_def read_binary_words_file_def read_binary_file_def be_words_file
        runtime_read_kernel_file_def runtime_read_binary_file_def) (simp add: be_bytes_def [abs_def])
qed

lemma bin_file_readers_witness:
  "\<exists>fs. read_kernel_file fs ''k.bin'' = Inr [4, 3, 2, 1] \<and> runtime_read_kernel_file fs ''k.bin'' = Inr [1, 2, 3, 4]"
proof -
  have w: "word_bytes 0x01020304 = [4, 3, 2, 1]" by (simp add: word_bytes_def)
  let ?raw = "[1, 2, 3, 4] :: bytes" and ?ws = "[0x01020304] :: u32 list"
  let ?f = "\<lparr>df_size = int (length ?raw), df_bytes = ?raw\<rparr>"
  have "read_kernel_file (\<lambda>_. Some ?f) ''k.bin'' = Inr (concat (map word_bytes ?ws))
      \<and> runtime_read_kernel_file (\<lambda>_. Some ?f) ''k.bin'' = Inr (concat (map (\<lambda>w. rev (word_bytes w)) ?ws))"
    by (rule bin_file_readers [where raw = ?raw]) (simp_all add: has_suffix_def be_bytes_def w)
  then show ?thesis unfolding list.map concat.simps w by (intro exI [of _ "\<lambda>_. Some ?f"]) simp
qed

section \<open>Lane masks\<close>

text \<open>
  The automatic lane mask has exactly the lanes of the block: lane \<open>i\<close> of the 32 is set when
  \<open>i\<close> is less than the block dimension.
\<close>

theorem all_lanes_spec: "bit (all_lanes block_dim) i \<longleftrightarrow> i < 32 \<and> i < unat block_dim"
proof (cases "32 \<le> block_dim")
  case True
  then have "all_lanes block_dim = mask 32" by (simp add: all_lanes_def mask_eq_exp_minus_1)
  then show ?thesis using True by (auto simp only: bit_mask_iff word_le_nat_alt) simp_all
next
  case False
  have "all_lanes block_dim = mask (unat block_dim)"
    using False by (simp add: all_lanes_def mask_eq_exp_minus_1 push_bit_eq_mult)
  then show ?thesis using False by (auto simp: bit_mask_iff word_le_nat_alt)
qed

section \<open>Registering a manifest\<close>

lemma parse_kernel_entry_ok:
  assumes "parse_kernel_entry y entry artifact_path program_bytes symbols defaults = Inr pk"
  shows "registrable pk \<and> pk_base_pc pk = pk_entry_pc pk \<and> pk_program_id pk = artifact_path
    \<and> pk_program_bytes pk = program_bytes \<and> (\<exists>entry_name. symbols entry_name = Some (pk_entry_pc pk))"
  using assms
  by (auto simp: parse_kernel_entry_def registrable_def split: option.splits if_splits)

lemma parse_artifact_ok:
  assumes "parse_artifact fs y manifest_path defaults artifact = Inr pks" and "pk \<in> set pks"
  shows "registrable pk \<and> pk_base_pc pk = pk_entry_pc pk
    \<and> read_kernel_file fs (pk_program_id pk) = Inr (pk_program_bytes pk)"
proof -
  from assms(1) obtain fname program_bytes symbols nodes where
    rd: "read_kernel_file fs (resolve_artifact_path manifest_path fname) = Inr program_bytes"
    and "map_ok (\<lambda>entry. parse_kernel_entry y entry (resolve_artifact_path manifest_path fname)
           program_bytes symbols defaults) nodes = Inr pks"
    by (auto simp: parse_artifact_def Let_def split: if_splits)
  from map_ok_mem [OF this(2) assms(2)] obtain entry where
    "parse_kernel_entry y entry (resolve_artifact_path manifest_path fname) program_bytes symbols defaults = Inr pk"
    by blast
  from parse_kernel_entry_ok [OF this] rd show ?thesis by auto
qed

lemma parse_manifest_ok:
  assumes "parse_manifest fs y manifest_path = Inr pks" and "pk \<in> set pks"
  shows "registrable pk \<and> pk_base_pc pk = pk_entry_pc pk
    \<and> read_kernel_file fs (pk_program_id pk) = Inr (pk_program_bytes pk)"
proof -
  from assms(1) obtain defaults nodes kernels where
    m: "map_ok (parse_artifact fs y manifest_path defaults) nodes = Inr kernels" and pks: "pks = concat kernels"
    by (auto simp: parse_manifest_def split: option.splits if_splits)
  from pks assms(2) obtain ks where ks: "ks \<in> set kernels" "pk \<in> set ks" by auto
  from map_ok_mem [OF m ks(1)] obtain artifact where
    "parse_artifact fs y manifest_path defaults artifact = Inr ks" by (elim bexE)
  then show ?thesis using ks(2) by (rule parse_artifact_ok)
qed

lemma register_all_ok:
  "\<forall>pk \<in> set pks. registrable pk \<Longrightarrow>
     register_all pks c = (Inr (), fold (\<lambda>pk c. snd (register_kernel pk c)) pks c)"
  by (induction pks arbitrary: c) (simp_all add: andThen_def register_kernel_result)

text \<open>
  C36: registering a manifest is all or nothing. When the manifest or a file it names cannot be
  read, the exception leaves the context as it was; otherwise every kernel of the manifest is
  registered, a name then finds the last kernel the manifest has under it, with the bytes of its artifact
  and its entry point as base, and the other names find what they found before.
\<close>

theorem register_manifest_spec:
  "(case parse_manifest fs y manifest_path of
      Inl e \<Rightarrow> register_manifest fs y manifest_path c = (Inl e, c)
    | Inr pks \<Rightarrow>
        (\<exists>c'. register_manifest fs y manifest_path c = (Inr (), c')
           \<and> (\<forall>name. find_kernel name c' =
                (case find (\<lambda>pk. pk_name pk = name) (rev pks) of
                   Some pk \<Rightarrow> Some (normalize_kernel pk) | None \<Rightarrow> find_kernel name c)))
        \<and> (\<forall>pk \<in> set pks. pk_base_pc pk = pk_entry_pc pk
             \<and> read_kernel_file fs (pk_program_id pk) = Inr (pk_program_bytes pk)))"
proof (cases "parse_manifest fs y manifest_path")
  case (Inr pks)
  then have "\<forall>pk \<in> set pks. registrable pk" using parse_manifest_ok [OF Inr] by blast
  from register_all_ok [OF this] kernels.lookup_fold [OF this] Inr parse_manifest_ok [OF Inr]
  show ?thesis by (auto simp: register_manifest_def andThen_def)
qed (simp add: register_manifest_def andThen_def)

section \<open>A small manifest\<close>

text \<open>Documents, and the operations of \<open>yaml\<close> on them.\<close>

datatype doc = Missing | Scalar string | Items "doc list" | Dict "(string \<times> doc) list"

definition doc_yaml :: "(string \<Rightarrow> doc option) \<Rightarrow> doc yaml" where
  "doc_yaml files =
     \<lparr>y_load = files,
      y_get = (\<lambda>d k. case d of
         Dict kvs \<Rightarrow> Inr (case map_of kvs k of None \<Rightarrow> Missing | Some v \<Rightarrow> v)
       | Missing \<Rightarrow> Inr Missing
       | _ \<Rightarrow> Inl (Runtime_error ''bad subscript'')),
      y_defined = (\<lambda>d. d \<noteq> Missing),
      y_is_scalar = (\<lambda>d. case d of Scalar _ \<Rightarrow> True | _ \<Rightarrow> False),
      y_is_sequence = (\<lambda>d. case d of Items _ \<Rightarrow> True | _ \<Rightarrow> False),
      y_is_map = (\<lambda>d. case d of Dict _ \<Rightarrow> True | _ \<Rightarrow> False),
      y_string = (\<lambda>d. case d of Scalar t \<Rightarrow> Inr t | _ \<Rightarrow> Inl (Runtime_error ''bad conversion'')),
      y_items = (\<lambda>d. case d of Items ds \<Rightarrow> ds | _ \<Rightarrow> []),
      y_null = Missing\<rparr>"

definition demo_files :: file_system where
  "demo_files path =
     (if path = ''/m/add.bin'' then Some \<lparr>df_size = 4, df_bytes = [1, 2, 3, 4]\<rparr> else None)"

definition demo_yaml :: "doc yaml" where
  "demo_yaml = doc_yaml (\<lambda>path.
     if path = ''/m/kernels.yaml'' then Some (Dict [(''artifacts'', Items [Dict [
         (''file'', Scalar ''add.bin''),
         (''kernels'', Items [Dict [(''name'', Scalar ''add.fp32''), (''op'', Scalar ''add''),
            (''dtype'', Scalar ''fp32''), (''entry'', Scalar ''add''), (''grid_dim'', Scalar ''0x10'')]])]])])
     else if path = ''/m/add.map'' then
       Some (Dict [(''symbols'', Items [Dict [(''name'', Scalar ''add'')]])])
     else None)"

definition demo_kernel :: precompiled_kernel where
  "demo_kernel = empty_precompiled_kernel
     \<lparr>pk_name := ''add.fp32'', pk_program_id := ''/m/add.bin'', pk_op := ''add'', pk_dtype := ''fp32'',
      pk_program_bytes := [4, 3, 2, 1], pk_default_grid_dim := 16, pk_default_active_mask := 15\<rparr>"

lemma demo_paths:
  "resolve_artifact_path ''/m/kernels.yaml'' ''add.bin'' = ''/m/add.bin''"
  "resolve_artifact_path ''/m/kernels.yaml'' ''add.map'' = ''/m/add.map''"
  "replace_extension ''add.bin'' ''.map'' = ''add.map''"
  by (simp_all add: resolve_artifact_path_def is_absolute_path_def parent_dir_def replace_extension_def)

lemma demo_program: "read_kernel_file demo_files ''/m/add.bin'' = Inr [4, 3, 2, 1]"
  by (simp add: read_kernel_file_def has_suffix_def read_binary_words_file_def read_binary_file_def
      demo_files_def word_bytes_def)

lemma demo_numbers: "stoul ''0x10'' = Inr 16" "narrow 16 = 16" "all_lanes 4 = 15"
  by (simp_all add: stoul_def stoul_base_def strip_sign_def is_space_def is_digit_def digit_value_def
      digits_value_def all_lanes_def Let_def)

lemma demo_manifest: "parse_manifest demo_files demo_yaml ''/m/kernels.yaml'' = Inr [demo_kernel]"
  by (simp add: parse_manifest_def demo_yaml_def doc_yaml_def manifest_defaults_def parse_artifact_def
      parse_kernel_entry_def read_symbol_map_def yaml_u32_def yaml_active_mask_def emplace_def
      default_launch_config_def demo_paths demo_program demo_numbers demo_kernel_def
      empty_precompiled_kernel_def Let_def)

lemma register_manifest_spec_witness:
  "\<exists>c'. register_manifest demo_files demo_yaml ''/m/kernels.yaml'' small_context = (Inr (), c')
     \<and> find_kernel ''add.fp32'' c' = Some (normalize_kernel demo_kernel)"
  using register_manifest_spec [of demo_files demo_yaml "''/m/kernels.yaml''" small_context]
  by (auto simp: demo_manifest) (simp add: demo_kernel_def)

end
