(* ===== verification/KernelLaunch.thy ===== *)
theory KernelLaunch
  imports KernelFiles
begin

text \<open>
  The launch functions of \<open>runtime/src/minigpu_kernels.cpp\<close>: each checks the element types (and, for the
  elementwise ones, the element counts) of its tensor views, builds the argument list, pointers as word
  addresses first, and launches the kernel named after the operation and the element type. The
  argument list is evaluated from left to right before the launch, and a pointer that is not a
  multiple of four throws. A float argument is given by its bits.
\<close>

record tensor_view =
  tv_addr :: u32
  tv_elements :: u64
  tv_dtype :: string

definition ptr :: "tensor_view \<Rightarrow> exn + kernel_arg" where
  "ptr v = arg_device_ptr (tv_addr v) 4"

definition num :: "u32 \<Rightarrow> exn + kernel_arg" where
  "num v = Inr (arg_u32 v)"

definition flt :: "u32 \<Rightarrow> exn + kernel_arg" where
  "flt bits = Inr (arg_f32 bits)"

definition launch_named ::
    "(string \<Rightarrow> u8 option) \<Rightarrow> string \<Rightarrow> (exn + kernel_arg) list \<Rightarrow> launch_config option
       \<Rightarrow> ('d sys, exn, unit) action" where
  "launch_named ids name args config =
     andThen (of_sum (map_ok (\<lambda>a. a) args)) (\<lambda>values. launch_kernel ids name values config)"

section \<open>Elementwise operations\<close>

definition launch_elementwise_binary ::
    "(string \<Rightarrow> u8 option) \<Rightarrow> string \<Rightarrow> tensor_view \<Rightarrow> tensor_view \<Rightarrow> tensor_view
       \<Rightarrow> launch_config option \<Rightarrow> ('d sys, exn, unit) action" where
  "launch_elementwise_binary ids op a b out config =
     (if tv_dtype a \<noteq> tv_dtype b \<or> tv_dtype a \<noteq> tv_dtype out \<or>
        tv_elements a \<noteq> tv_elements b \<or> tv_elements a \<noteq> tv_elements out
      then throw (error BadArgument)
      else if tv_elements a > 0xffffffff
      then throw (error OutOfRange)
      else launch_named ids (op @ ''.'' @ tv_dtype a)
        [ptr a, ptr b, ptr out, num (narrow (tv_elements a))] config)"

definition launch_elementwise_unary ::
    "(string \<Rightarrow> u8 option) \<Rightarrow> string \<Rightarrow> tensor_view \<Rightarrow> tensor_view
       \<Rightarrow> launch_config option \<Rightarrow> ('d sys, exn, unit) action" where
  "launch_elementwise_unary ids op a out config =
     (if tv_dtype a \<noteq> tv_dtype out \<or> tv_elements a \<noteq> tv_elements out
      then throw (error BadArgument)
      else if tv_elements a > 0xffffffff
      then throw (error OutOfRange)
      else launch_named ids (op @ ''.'' @ tv_dtype a)
        [ptr a, ptr out, num (narrow (tv_elements a))] config)"

section \<open>Linear algebra\<close>

definition launch_matmul ::
    "(string \<Rightarrow> u8 option) \<Rightarrow> tensor_view \<Rightarrow> tensor_view \<Rightarrow> tensor_view \<Rightarrow> u32 \<Rightarrow>
       u32 \<Rightarrow> u32
       \<Rightarrow> launch_config option \<Rightarrow> ('d sys, exn, unit) action" where
  "launch_matmul ids a b out m n k config =
     (if tv_dtype a \<noteq> tv_dtype b \<or> tv_dtype a \<noteq> tv_dtype out
      then throw (error BadArgument)
      else launch_named ids (''matmul.'' @ tv_dtype a)
        [ptr a, ptr b, ptr out, num m, num n, num k] config)"

definition launch_gemv ::
    "(string \<Rightarrow> u8 option) \<Rightarrow> tensor_view \<Rightarrow> tensor_view \<Rightarrow> tensor_view \<Rightarrow> u32 \<Rightarrow>
       u32
       \<Rightarrow> launch_config option \<Rightarrow> ('d sys, exn, unit) action" where
  "launch_gemv ids a x out m n config =
     (if tv_dtype a \<noteq> tv_dtype x \<or> tv_dtype a \<noteq> tv_dtype out
      then throw (error BadArgument)
      else launch_named ids (''gemv.'' @ tv_dtype a)
        [ptr a, ptr x, ptr out, num m, num n] config)"

definition launch_dot ::
    "(string \<Rightarrow> u8 option) \<Rightarrow> tensor_view \<Rightarrow> tensor_view \<Rightarrow> tensor_view \<Rightarrow> u32
       \<Rightarrow> launch_config option \<Rightarrow> ('d sys, exn, unit) action" where
  "launch_dot ids a b out n config =
     (if tv_dtype a \<noteq> tv_dtype b \<or> tv_dtype a \<noteq> tv_dtype out
      then throw (error BadArgument)
      else launch_named ids (''dot.'' @ tv_dtype a)
        [ptr a, ptr b, ptr out, num n] config)"

definition launch_scal ::
    "(string \<Rightarrow> u8 option) \<Rightarrow> tensor_view \<Rightarrow> tensor_view \<Rightarrow> u32
       \<Rightarrow> launch_config option \<Rightarrow> ('d sys, exn, unit) action" where
  "launch_scal ids x out alpha config =
     (if tv_dtype x \<noteq> tv_dtype out \<or> tv_dtype x \<noteq> ''fp32'' \<or>
        tv_elements x \<noteq> tv_elements out
      then throw (error BadArgument)
      else if tv_elements x > 0xffffffff
      then throw (error OutOfRange)
      else launch_named ids ''scal.fp32''
        [ptr x, ptr out, flt alpha, num (narrow (tv_elements x))] config)"

definition launch_axpy ::
    "(string \<Rightarrow> u8 option) \<Rightarrow> tensor_view \<Rightarrow> tensor_view \<Rightarrow> tensor_view \<Rightarrow> u32
       \<Rightarrow> launch_config option \<Rightarrow> ('d sys, exn, unit) action" where
  "launch_axpy ids x y out alpha config =
     (if tv_dtype x \<noteq> tv_dtype y \<or> tv_dtype x \<noteq> tv_dtype out \<or>
        tv_dtype x \<noteq> ''fp32'' \<or> tv_elements x \<noteq> tv_elements y \<or>
        tv_elements x \<noteq> tv_elements out
      then throw (error BadArgument)
      else if tv_elements x > 0xffffffff
      then throw (error OutOfRange)
      else launch_named ids ''axpy.fp32''
        [ptr x, ptr y, ptr out, flt alpha, num (narrow (tv_elements x))] config)"

definition launch_addmm ::
    "(string \<Rightarrow> u8 option) \<Rightarrow> tensor_view \<Rightarrow> tensor_view \<Rightarrow> tensor_view \<Rightarrow> tensor_view \<Rightarrow>
       u32 \<Rightarrow> u32 \<Rightarrow> u32 \<Rightarrow> u32 \<Rightarrow> u32
       \<Rightarrow> launch_config option \<Rightarrow> ('d sys, exn, unit) action" where
  "launch_addmm ids self a b out beta alpha m n k config =
     (if tv_dtype self \<noteq> tv_dtype a \<or> tv_dtype self \<noteq> tv_dtype b \<or>
        tv_dtype self \<noteq> tv_dtype out \<or> tv_dtype self \<noteq> ''fp32''
      then throw (error BadArgument)
      else launch_named ids ''addmm.fp32''
        [ptr self, ptr a, ptr b, ptr out, flt beta, flt alpha, num m, num n, num k] config)"

definition launch_linear ::
    "(string \<Rightarrow> u8 option) \<Rightarrow> tensor_view \<Rightarrow> tensor_view \<Rightarrow> tensor_view \<Rightarrow> u32 \<Rightarrow>
       u32 \<Rightarrow> u32
       \<Rightarrow> launch_config option \<Rightarrow> ('d sys, exn, unit) action" where
  "launch_linear ids input weight out total_count out_features in_features config =
     (if tv_dtype input \<noteq> tv_dtype weight \<or> tv_dtype input \<noteq> tv_dtype out
      then throw (error BadArgument)
      else launch_named ids (''linear.'' @ tv_dtype input)
        [ptr input, ptr weight, ptr out, num total_count, num out_features, num in_features] config)"

definition launch_linear_bias ::
    "(string \<Rightarrow> u8 option) \<Rightarrow> tensor_view \<Rightarrow> tensor_view \<Rightarrow> tensor_view \<Rightarrow> tensor_view \<Rightarrow>
       u32 \<Rightarrow> u32 \<Rightarrow> u32
       \<Rightarrow> launch_config option \<Rightarrow> ('d sys, exn, unit) action" where
  "launch_linear_bias ids input weight bias out total_count out_features in_features config =
     (if tv_dtype input \<noteq> tv_dtype weight \<or> tv_dtype input \<noteq> tv_dtype out \<or>
        tv_dtype input \<noteq> tv_dtype bias \<or> tv_dtype weight \<noteq> tv_dtype bias
      then throw (error BadArgument)
      else launch_named ids (''linear_bias.'' @ tv_dtype input)
        [ptr input, ptr weight, ptr bias, ptr out, num total_count, num out_features,
         num in_features] config)"

section \<open>Convolutions\<close>

definition launch_conv1d ::
    "(string \<Rightarrow> u8 option) \<Rightarrow> tensor_view \<Rightarrow> tensor_view \<Rightarrow> tensor_view \<Rightarrow> u32 \<Rightarrow>
       u32 \<Rightarrow> u32 \<Rightarrow> u32 \<Rightarrow> u32 \<Rightarrow> u32 \<Rightarrow> u32 \<Rightarrow>
       u32 \<Rightarrow> u32
       \<Rightarrow> launch_config option \<Rightarrow> ('d sys, exn, unit) action" where
  "launch_conv1d ids input weight out total_count batch_size in_channels out_channels
     input_width output_width kernel_width stride padding config =
     (if tv_dtype input \<noteq> tv_dtype weight \<or> tv_dtype input \<noteq> tv_dtype out
      then throw (error BadArgument)
      else launch_named ids (''conv1d.'' @ tv_dtype input)
        [ptr input, ptr weight, ptr out, num total_count, num batch_size, num in_channels,
         num out_channels, num input_width, num output_width, num kernel_width, num stride,
         num padding] config)"

definition launch_conv1d_bias ::
    "(string \<Rightarrow> u8 option) \<Rightarrow> tensor_view \<Rightarrow> tensor_view \<Rightarrow> tensor_view \<Rightarrow> tensor_view \<Rightarrow>
       u32 \<Rightarrow> u32 \<Rightarrow> u32 \<Rightarrow> u32 \<Rightarrow> u32 \<Rightarrow> u32 \<Rightarrow>
       u32 \<Rightarrow> u32 \<Rightarrow> u32
       \<Rightarrow> launch_config option \<Rightarrow> ('d sys, exn, unit) action" where
  "launch_conv1d_bias ids input weight bias out total_count batch_size in_channels
     out_channels input_width output_width kernel_width stride padding config =
     (if tv_dtype input \<noteq> tv_dtype weight \<or> tv_dtype input \<noteq> tv_dtype out \<or>
        tv_dtype input \<noteq> tv_dtype bias \<or> tv_dtype weight \<noteq> tv_dtype bias
      then throw (error BadArgument)
      else launch_named ids (''conv1d_bias.'' @ tv_dtype input)
        [ptr input, ptr weight, ptr bias, ptr out, num total_count, num batch_size,
         num in_channels, num out_channels, num input_width, num output_width,
         num kernel_width, num stride, num padding] config)"

definition launch_conv2d ::
    "(string \<Rightarrow> u8 option) \<Rightarrow> tensor_view \<Rightarrow> tensor_view \<Rightarrow> tensor_view \<Rightarrow> u32 \<Rightarrow>
       u32 \<Rightarrow> u32 \<Rightarrow> u32 \<Rightarrow> u32 \<Rightarrow> u32 \<Rightarrow> u32 \<Rightarrow>
       u32 \<Rightarrow> u32 \<Rightarrow> u32 \<Rightarrow> u32 \<Rightarrow> u32 \<Rightarrow> u32 \<Rightarrow>
       u32
       \<Rightarrow> launch_config option \<Rightarrow> ('d sys, exn, unit) action" where
  "launch_conv2d ids input weight out total_count batch_size in_channels out_channels
     input_height input_width output_height output_width kernel_height kernel_width
     stride_h stride_w padding_h padding_w config =
     (if tv_dtype input \<noteq> tv_dtype weight \<or> tv_dtype input \<noteq> tv_dtype out
      then throw (error BadArgument)
      else launch_named ids (''conv2d.'' @ tv_dtype input)
        [ptr input, ptr weight, ptr out, num total_count, num batch_size, num in_channels,
         num out_channels, num input_height, num input_width, num output_height,
         num output_width, num kernel_height, num kernel_width, num stride_h, num stride_w,
         num padding_h, num padding_w] config)"

definition launch_conv2d_bias ::
    "(string \<Rightarrow> u8 option) \<Rightarrow> tensor_view \<Rightarrow> tensor_view \<Rightarrow> tensor_view \<Rightarrow> tensor_view \<Rightarrow>
       u32 \<Rightarrow> u32 \<Rightarrow> u32 \<Rightarrow> u32 \<Rightarrow> u32 \<Rightarrow> u32 \<Rightarrow>
       u32 \<Rightarrow> u32 \<Rightarrow> u32 \<Rightarrow> u32 \<Rightarrow> u32 \<Rightarrow> u32 \<Rightarrow>
       u32 \<Rightarrow> u32
       \<Rightarrow> launch_config option \<Rightarrow> ('d sys, exn, unit) action" where
  "launch_conv2d_bias ids input weight bias out total_count batch_size in_channels
     out_channels input_height input_width output_height output_width kernel_height
     kernel_width stride_h stride_w padding_h padding_w config =
     (if tv_dtype input \<noteq> tv_dtype weight \<or> tv_dtype input \<noteq> tv_dtype out \<or>
        tv_dtype input \<noteq> tv_dtype bias \<or> tv_dtype weight \<noteq> tv_dtype bias
      then throw (error BadArgument)
      else launch_named ids (''conv2d_bias.'' @ tv_dtype input)
        [ptr input, ptr weight, ptr bias, ptr out, num total_count, num batch_size,
         num in_channels, num out_channels, num input_height, num input_width,
         num output_height, num output_width, num kernel_height, num kernel_width,
         num stride_h, num stride_w, num padding_h, num padding_w] config)"

section \<open>What the launch functions do\<close>

text \<open>The argument for a view: its address in words.\<close>

definition word_arg :: "tensor_view \<Rightarrow> kernel_arg" where
  "word_arg v = \<lparr>ka_value = tv_addr v div 4\<rparr>"

definition aligned :: "tensor_view \<Rightarrow> bool" where
  "aligned v \<longleftrightarrow> tv_addr v mod 4 = 0"

lemma ptr_cases: "ptr v = (if aligned v then Inr (word_arg v) else Inl (error BadArgument))"
  by (simp add: ptr_def arg_device_ptr_def aligned_def word_arg_def)

lemma map_ok_rest: "map_ok (\<lambda>a. a) (map Inr xs) = Inr xs"
  by (induction xs) simp_all

lemma map_ok_views:
  "map_ok (\<lambda>a. a) (map ptr vs @ map Inr rest)
     = (if \<forall>v \<in> set vs. aligned v then Inr (map word_arg vs @ rest) else Inl (error BadArgument))"
  by (induction vs) (auto simp: ptr_cases map_ok_rest)

lemma launch_named_views:
  "launch_named ids name (map ptr vs @ map Inr rest) config s
     = (if \<forall>v \<in> set vs. aligned v then launch_kernel ids name (map word_arg vs @ rest) config s
        else (Inl (error BadArgument), s))"
  by (simp add: launch_named_def map_ok_views andThen_def)

text \<open>
  An elementwise launch on every branch. Operands that differ in type or count are a bad
  argument, more elements than 32 bits hold are out of range, an address that is not a multiple of four
  is a bad argument, each without touching the context or the device; otherwise the kernel
  \<open>op.dtype\<close> is launched on the word addresses and the count.
\<close>

theorem elementwise_binary_spec:
  "launch_elementwise_binary ids op a b out config s =
     (if \<not> (tv_dtype a = tv_dtype b \<and> tv_dtype b = tv_dtype out
           \<and> tv_elements a = tv_elements b \<and> tv_elements b = tv_elements out)
      then (Inl (error BadArgument), s)
      else if 2 ^ 32 \<le> unat (tv_elements a) then (Inl (error OutOfRange), s)
      else if \<not> (aligned a \<and> aligned b \<and> aligned out) then (Inl (error BadArgument), s)
      else launch_kernel ids (op @ ''.'' @ tv_dtype a)
        [word_arg a, word_arg b, word_arg out, \<lparr>ka_value = of_nat (unat (tv_elements a))\<rparr>] config s)"
proof -
  have "(tv_elements a > 0xffffffff) = (2 ^ 32 \<le> unat (tv_elements a))"
    by (auto simp: word_less_nat_alt)
  moreover have "narrow (tv_elements a) = of_nat (unat (tv_elements a))"
    by simp
  ultimately show ?thesis
    using launch_named_views [of ids "op @ ''.'' @ tv_dtype a" "[a, b, out]" "[arg_u32 (narrow (tv_elements a))]" config s]
    by (auto simp: launch_elementwise_binary_def num_def arg_u32_def)
qed

text \<open>
  The convolution with the most arguments still fits the constant table. On aligned operands of
  one type the two-dimensional convolution with a bias launches its kernel with 18 arguments in the
  order of the kernel's parameters, and the table holds them unharmed below the spill slot.
\<close>

theorem conv2d_bias_arguments:
  assumes "tv_dtype input = tv_dtype weight" and "tv_dtype weight = tv_dtype bias"
    and "tv_dtype bias = tv_dtype out" and "\<forall>v \<in> {input, weight, bias, out}. aligned v"
  shows "\<exists>args. launch_conv2d_bias ids input weight bias out t nb ic oc ih iw oh ow kh kw sh sw ph pw config s
        = launch_kernel ids (''conv2d_bias.'' @ tv_dtype input) args config s
      \<and> map ka_value args = map (\<lambda>v. tv_addr v div 4) [input, weight, bias, out]
          @ [t, nb, ic, oc, ih, iw, oh, ow, kh, kw, sh, sw, ph, pw]
      \<and> constants_table args base = map ka_value args @ replicate 14 0 @ [base div 4]"
proof (intro exI conjI)
  let ?nums = "[t, nb, ic, oc, ih, iw, oh, ow, kh, kw, sh, sw, ph, pw]"
  let ?args = "map word_arg [input, weight, bias, out] @ map arg_u32 ?nums"
  show "launch_conv2d_bias ids input weight bias out t nb ic oc ih iw oh ow kh kw sh sw ph pw config s
      = launch_kernel ids (''conv2d_bias.'' @ tv_dtype input) ?args config s"
    using assms launch_named_views [of ids "''conv2d_bias.'' @ tv_dtype input" "[input, weight, bias, out]"
        "map arg_u32 ?nums" config s]
    by (simp add: launch_conv2d_bias_def num_def)
  show "map ka_value ?args = map (\<lambda>v. tv_addr v div 4) [input, weight, bias, out] @ ?nums"
    by (simp add: word_arg_def arg_u32_def)
  show "constants_table ?args base = map ka_value ?args @ replicate 14 0 @ [base div 4]"
    by (simp add: constants_table_def spill_slot_def numeral_eq_Suc)
qed

lemma conv2d_bias_arguments_witness:
  "\<forall>ids (s :: unit sys). \<exists>args. launch_conv2d_bias ids \<lparr>tv_addr = 0, tv_elements = 9, tv_dtype = ''fp32''\<rparr>
        \<lparr>tv_addr = 64, tv_elements = 1, tv_dtype = ''fp32''\<rparr> \<lparr>tv_addr = 68, tv_elements = 1, tv_dtype = ''fp32''\<rparr>
        \<lparr>tv_addr = 128, tv_elements = 9, tv_dtype = ''fp32''\<rparr> 9 1 1 1 3 3 3 3 1 1 1 1 0 0 None s
      = launch_kernel ids ''conv2d_bias.fp32'' args None s
    \<and> constants_table args 256 ! 1 = 16 \<and> constants_table args 256 ! 32 = 64"
proof (intro allI)
  fix ids :: "string \<Rightarrow> u8 option" and s :: "unit sys"
  let ?v = "\<lambda>a n. \<lparr>tv_addr = a, tv_elements = n, tv_dtype = ''fp32''\<rparr>"
  have "\<forall>v \<in> {?v 0 9, ?v 64 1, ?v 68 1, ?v 128 9}. aligned v" by (simp add: aligned_def)
  from conv2d_bias_arguments [OF _ _ _ this, of ids 9 1 1 1 3 3 3 3 1 1 1 1 0 0 None s 256]
  show "\<exists>args. launch_conv2d_bias ids \<lparr>tv_addr = 0, tv_elements = 9, tv_dtype = ''fp32''\<rparr>
        \<lparr>tv_addr = 64, tv_elements = 1, tv_dtype = ''fp32''\<rparr> \<lparr>tv_addr = 68, tv_elements = 1, tv_dtype = ''fp32''\<rparr>
        \<lparr>tv_addr = 128, tv_elements = 9, tv_dtype = ''fp32''\<rparr> 9 1 1 1 3 3 3 3 1 1 1 1 0 0 None s
      = launch_kernel ids ''conv2d_bias.fp32'' args None s
    \<and> constants_table args 256 ! 1 = 16 \<and> constants_table args 256 ! 32 = 64"
    by (auto simp: nth_append)
qed

end
