(* ===== verification/TorchTensors.thy ===== *)
theory TorchTensors
  imports KernelLaunch Tensors
begin

text \<open>
  The tensors of the PyTorch backend (\<open>torch_ext/src/ops/tensor.cpp\<close>): the allocator, \<open>empty\<close>, the
  copies, fills and views. What the code calls of PyTorch itself is the parameter record \<open>torch\<close>. A
  Mini-GPU tensor is what the code observes of it; a CPU tensor is given by its element type, its sizes
  and the bytes of its elements in row-major order. The operations run on the context that
  \<open>runtime_context()\<close> returns; \<open>TorchState\<close> has the case that there is none.
\<close>

datatype scalar_type =
    kInt | kFloat | kShort | kChar | kHalf | kFloat8_e4m3fn | kOther nat

datatype device_type = PrivateUse1 | CPU | OtherDevice nat

datatype tensor_layout = Strided | OtherLayout

record at_tensor =
  at_device :: device_type
  at_dtype :: scalar_type
  at_sizes :: "int list"
  at_strides :: "int list"
  at_storage_offset :: int
  at_storage :: u64

record cpu_tensor =
  ct_dtype :: scalar_type
  ct_sizes :: "int list"
  ct_bytes :: bytes

text \<open>A scalar argument: whether it is one as a double, its bits as a 32-bit float, and its bytes as an element of a type.\<close>

record at_scalar =
  sc_is_one :: bool
  sc_float :: u32
  sc_element :: "scalar_type \<Rightarrow> bytes"

text \<open>
  PyTorch: the element size of a type, the bytes \<open>empty_generic\<close> and \<open>empty_strided_generic\<close> ask of the
  allocator (or their exception), the strides of a new tensor, contiguity, the data pointer of a tensor,
  conversion between element types, uninitialised memory, and the element functions of the CPU.
\<close>

record torch =
  pt_element_size :: "scalar_type \<Rightarrow> u64"
  pt_storage_bytes :: "int list \<Rightarrow> scalar_type \<Rightarrow> exn + u64"
  pt_strided_bytes :: "int list \<Rightarrow> int list \<Rightarrow> scalar_type \<Rightarrow> exn + u64"
  pt_strides :: "int list \<Rightarrow> nat option \<Rightarrow> int list"
  pt_is_contiguous :: "int list \<Rightarrow> int list \<Rightarrow> bool"
  pt_data_ptr :: "at_tensor \<Rightarrow> u64"
  pt_convert :: "scalar_type \<Rightarrow> cpu_tensor \<Rightarrow> cpu_tensor"
  pt_garbage :: "u64 \<Rightarrow> bytes"
  pt_quotient :: "nat \<Rightarrow> u32 \<Rightarrow> u32"
  pt_pow :: "cpu_tensor \<Rightarrow> cpu_tensor \<Rightarrow> cpu_tensor"
  pt_pow_scalar :: "cpu_tensor \<Rightarrow> at_scalar \<Rightarrow> cpu_tensor"
  pt_sin :: "cpu_tensor \<Rightarrow> cpu_tensor"
  pt_cos :: "cpu_tensor \<Rightarrow> cpu_tensor"
  pt_tan :: "cpu_tensor \<Rightarrow> cpu_tensor"

definition numel :: "at_tensor \<Rightarrow> int" where
  "numel t = prod_list (at_sizes t)"

definition dim :: "at_tensor \<Rightarrow> nat" where
  "dim t = length (at_sizes t)"

abbreviation size_at :: "at_tensor \<Rightarrow> nat \<Rightarrow> int" where
  "size_at t d \<equiv> at_sizes t ! d"

definition is_contiguous :: "torch \<Rightarrow> at_tensor \<Rightarrow> bool" where
  "is_contiguous pt t = pt_is_contiguous pt (at_sizes t) (at_strides t)"

text \<open>A sequence of checks, each with the message of the exception it throws.\<close>

fun requires :: "(bool \<times> string) list \<Rightarrow> ('s, exn, unit) action" where
  "requires [] = ret ()"
| "requires ((ok, msg) # checks) = (if ok then requires checks else throw (Runtime_error msg))"

section \<open>Device pointers and the allocator\<close>

definition opaque :: "u32 \<Rightarrow> u64" where
  "opaque addr = widen addr + 1"

definition decode :: "u64 \<Rightarrow> exn + u32" where
  "decode encoded =
     (if encoded = 0 then Inl (Runtime_error ''Mini-GPU tensor has a null data pointer'')
      else Inr (narrow (encoded - 1)))"

definition allocate :: "u64 \<Rightarrow> ('d sys, exn, u64) action" where
  "allocate n =
     (if n = 0 then ret 0
      else andThen (on_context (device_malloc n)) (\<lambda>buffer. ret (opaque (fst (buffer_release buffer)))))"

text \<open>The deleter of a storage; a null storage has none.\<close>

definition delete_minigpu_allocation :: "u64 \<Rightarrow> 'd sys \<Rightarrow> 'd sys" where
  "delete_minigpu_allocation storage s =
     (case decode storage of Inl _ \<Rightarrow> s | Inr addr \<Rightarrow> (snd (device_free addr (fst s)), snd s))"

definition is_minigpu_tensor :: "at_tensor \<Rightarrow> bool" where
  "is_minigpu_tensor t \<longleftrightarrow> at_device t = PrivateUse1"

definition tensor_nbytes :: "torch \<Rightarrow> at_tensor \<Rightarrow> u64" where
  "tensor_nbytes pt t = of_int (numel t) * pt_element_size pt (at_dtype t)"

definition device_address :: "torch \<Rightarrow> at_tensor \<Rightarrow> exn + u32" where
  "device_address pt t =
     (if \<not> is_minigpu_tensor t then Inl (Runtime_error ''Mini-GPU tensor address requested for CPU tensor'')
      else decode (pt_data_ptr pt t))"

section \<open>New tensors\<close>

definition generic_tensor :: "torch \<Rightarrow> int list \<Rightarrow> int list \<Rightarrow> scalar_type \<Rightarrow> exn + u64 \<Rightarrow> ('d sys, exn, at_tensor) action" where
  "generic_tensor pt sizes strides dtype nbytes =
     andThen (of_sum nbytes) (\<lambda>n.
     andThen (allocate n) (\<lambda>storage.
     ret \<lparr>at_device = PrivateUse1, at_dtype = dtype, at_sizes = sizes, at_strides = strides,
          at_storage_offset = 0, at_storage = storage\<rparr>))"

definition empty ::
    "torch \<Rightarrow> int list \<Rightarrow> scalar_type option \<Rightarrow> tensor_layout option \<Rightarrow> bool option \<Rightarrow> nat option
       \<Rightarrow> ('d sys, exn, at_tensor) action" where
  "empty pt sizes dtype layout pin_memory memory_format =
     andThen (requires
       [(layout = None \<or> layout = Some Strided, ''Mini-GPU only supports strided tensors''),
        (pin_memory \<noteq> Some True, ''Mini-GPU does not support pinned memory'')]) (\<lambda>_.
     let scalar_type = (case dtype of None \<Rightarrow> kFloat | Some d \<Rightarrow> d)
     in generic_tensor pt sizes (pt_strides pt sizes memory_format) scalar_type
          (pt_storage_bytes pt sizes scalar_type))"

definition empty_strided ::
    "torch \<Rightarrow> int list \<Rightarrow> int list \<Rightarrow> scalar_type option \<Rightarrow> tensor_layout option \<Rightarrow> bool option
       \<Rightarrow> ('d sys, exn, at_tensor) action" where
  "empty_strided pt sizes strides dtype layout pin_memory =
     andThen (requires
       [(layout = None \<or> layout = Some Strided, ''Mini-GPU only supports strided tensors''),
        (pin_memory \<noteq> Some True, ''Mini-GPU does not support pinned memory'')]) (\<lambda>_.
     let scalar_type = (case dtype of None \<Rightarrow> kFloat | Some d \<Rightarrow> d)
     in generic_tensor pt sizes strides scalar_type (pt_strided_bytes pt sizes strides scalar_type))"

text \<open>\<open>at::empty(sizes, options)\<close> with the options of a Mini-GPU tensor, as PyTorch dispatches it.\<close>

abbreviation new_tensor :: "torch \<Rightarrow> int list \<Rightarrow> scalar_type \<Rightarrow> ('d sys, exn, at_tensor) action" where
  "new_tensor pt sizes dtype \<equiv> empty pt sizes (Some dtype) (Some Strided) (Some False) None"

text \<open>
  A tensor that is created, worked on and returned; when the work throws, unwinding drops the tensor and
  with it its storage. A temporary is dropped either way.
\<close>

definition with_output ::
    "('d sys, exn, at_tensor) action \<Rightarrow> (at_tensor \<Rightarrow> ('d sys, exn, unit) action) \<Rightarrow> ('d sys, exn, at_tensor) action" where
  "with_output create work =
     andThen create (\<lambda>out s.
       case work out s of
         (Inr _, s') \<Rightarrow> (Inr out, s')
       | (Inl e, s') \<Rightarrow> (Inl e, delete_minigpu_allocation (at_storage out) s'))"

definition with_temporary ::
    "('d sys, exn, at_tensor) action \<Rightarrow> (at_tensor \<Rightarrow> ('d sys, exn, 'a) action) \<Rightarrow> ('d sys, exn, 'a) action" where
  "with_temporary create work =
     andThen create (\<lambda>tmp s.
       case work tmp s of (r, s') \<Rightarrow> (r, delete_minigpu_allocation (at_storage tmp) s'))"

section \<open>Copies\<close>

datatype any_tensor = Gpu at_tensor | Cpu cpu_tensor

fun any_sizes :: "any_tensor \<Rightarrow> int list" where
  "any_sizes (Gpu t) = at_sizes t"
| "any_sizes (Cpu t) = ct_sizes t"

fun any_dtype :: "any_tensor \<Rightarrow> scalar_type" where
  "any_dtype (Gpu t) = at_dtype t"
| "any_dtype (Cpu t) = ct_dtype t"

definition require_contiguous :: "torch \<Rightarrow> at_tensor \<Rightarrow> string \<Rightarrow> ('s, exn, unit) action" where
  "require_contiguous pt t name =
     requires [(is_contiguous pt t, name @ '' must be contiguous for Mini-GPU copy_'')]"

definition converted :: "torch \<Rightarrow> scalar_type \<Rightarrow> cpu_tensor \<Rightarrow> cpu_tensor" where
  "converted pt dtype t = (if ct_dtype t = dtype then t else pt_convert pt dtype t)"

definition upload :: "torch \<Rightarrow> at_tensor \<Rightarrow> bytes \<Rightarrow> u64 \<Rightarrow> ('d sys, exn, unit) action" where
  "upload pt t bs nbytes =
     andThen (of_sum (decode (pt_data_ptr pt t))) (\<lambda>addr. copy_to_device addr (Some bs) nbytes)"

definition download :: "torch \<Rightarrow> at_tensor \<Rightarrow> ('d sys, exn, cpu_tensor) action" where
  "download pt t =
     andThen (of_sum (decode (pt_data_ptr pt t))) (\<lambda>addr.
     andThen (copy_from_device (Some (pt_garbage pt (tensor_nbytes pt t))) addr (tensor_nbytes pt t)) (\<lambda>bs.
     ret \<lparr>ct_dtype = at_dtype t, ct_sizes = at_sizes t, ct_bytes = bs\<rparr>))"

definition any_nbytes :: "torch \<Rightarrow> any_tensor \<Rightarrow> u64" where
  "any_nbytes pt t = of_int (prod_list (any_sizes t)) * pt_element_size pt (any_dtype t)"

definition copy_tensor :: "torch \<Rightarrow> any_tensor \<Rightarrow> any_tensor \<Rightarrow> ('d sys, exn, any_tensor) action" where
  "copy_tensor pt self src =
     andThen (requires
       [((\<exists>t. self = Gpu t) \<or> (\<exists>t. src = Gpu t), ''Mini-GPU copy_ called without a Mini-GPU tensor''),
        (any_sizes self = any_sizes src, ''Mini-GPU copy_ requires matching tensor shapes'')]) (\<lambda>_.
     let nbytes = any_nbytes pt self
     in if nbytes = 0 then ret self
        else (case (self, src) of
            (Gpu dst, Cpu from) \<Rightarrow>
              andThen (require_contiguous pt dst ''destination'') (\<lambda>_.
              andThen (upload pt dst (ct_bytes (converted pt (at_dtype dst) from)) nbytes) (\<lambda>_.
              ret self))
          | (Cpu dst, Gpu from) \<Rightarrow>
              andThen (require_contiguous pt from ''source'') (\<lambda>_.
              andThen (download pt from) (\<lambda>cpu_src.
              ret (Cpu (dst\<lparr>ct_bytes := ct_bytes (converted pt (ct_dtype dst) cpu_src)\<rparr>))))
          | (Gpu dst, Gpu from) \<Rightarrow>
              andThen (require_contiguous pt dst ''destination'') (\<lambda>_.
              andThen (require_contiguous pt from ''source'') (\<lambda>_.
              andThen (download pt from) (\<lambda>cpu_src.
              andThen (upload pt dst (ct_bytes (converted pt (at_dtype dst) cpu_src)) nbytes) (\<lambda>_.
              ret self))))
          | (Cpu dst, Cpu from) \<Rightarrow> ret self))"

definition fill_scalar :: "torch \<Rightarrow> at_tensor \<Rightarrow> at_scalar \<Rightarrow> ('d sys, exn, at_tensor) action" where
  "fill_scalar pt self v =
     andThen (requires [(is_minigpu_tensor self, ''Mini-GPU fill_ called without a Mini-GPU tensor'')]) (\<lambda>_.
     andThen (require_contiguous pt self ''destination'') (\<lambda>_.
     let nbytes = tensor_nbytes pt self
     in if nbytes = 0 then ret self
        else andThen (upload pt self (concat (replicate (nat (numel self)) (sc_element v (at_dtype self)))) nbytes)
               (\<lambda>_. ret self)))"

definition zero_scalar :: "torch \<Rightarrow> at_scalar" where
  "zero_scalar pt = \<lparr>sc_is_one = False, sc_float = 0, sc_element = (\<lambda>d. replicate (unat (pt_element_size pt d)) 0)\<rparr>"

definition zero_tensor :: "torch \<Rightarrow> at_tensor \<Rightarrow> ('d sys, exn, at_tensor) action" where
  "zero_tensor pt self = fill_scalar pt self (zero_scalar pt)"

definition to_copy ::
    "torch \<Rightarrow> any_tensor \<Rightarrow> scalar_type option \<Rightarrow> tensor_layout option \<Rightarrow> device_type option \<Rightarrow> bool option
       \<Rightarrow> nat option \<Rightarrow> ('d sys, exn, any_tensor) action" where
  "to_copy pt self dtype layout device pin_memory memory_format =
     (let target_dtype = (case dtype of None \<Rightarrow> any_dtype self | Some d \<Rightarrow> d);
          own_device = (case self of Gpu t \<Rightarrow> PrivateUse1 | Cpu t \<Rightarrow> CPU);
          target_device = (case device of None \<Rightarrow> own_device | Some d \<Rightarrow> d);
          target_layout = (case layout of None \<Rightarrow> Strided | Some l \<Rightarrow> l)
      in andThen (requires
           [(target_layout = Strided, ''Mini-GPU _to_copy only supports strided tensors''),
            (pin_memory \<noteq> Some True, ''Mini-GPU _to_copy does not support pinned memory'')]) (\<lambda>_.
         if target_device = PrivateUse1
         then andThen (with_output (empty pt (any_sizes self) (Some target_dtype) (Some target_layout) (Some False) memory_format)
                (\<lambda>out. andThen (copy_tensor pt (Gpu out) self) (\<lambda>_. ret ()))) (\<lambda>out. ret (Gpu out))
         else andThen (requires [(target_device = CPU, ''Mini-GPU _to_copy can only target CPU or Mini-GPU'')]) (\<lambda>_.
           case self of
             Cpu t \<Rightarrow> ret (Cpu (converted pt target_dtype t))
           | Gpu t \<Rightarrow>
               copy_tensor pt (Cpu \<lparr>ct_dtype = target_dtype, ct_sizes = any_sizes self,
                              ct_bytes = pt_garbage pt (of_int (prod_list (any_sizes self)) * pt_element_size pt target_dtype)\<rparr>)
                 self)))"

section \<open>Views\<close>

text \<open>
  A product of 64-bit signed integers; out of range it is undefined behaviour. A size that is not a
  concrete integer does not occur.
\<close>

definition mult_i64 :: "int \<Rightarrow> int \<Rightarrow> exn + int" where
  "mult_i64 a b =
     (if - (2 ^ 63) \<le> a * b \<and> a * b < 2 ^ 63 then Inr (a * b)
      else Inl (Undefined ''signed integer overflow''))"

fun infer_view_loop :: "int list \<Rightarrow> nat \<Rightarrow> int \<Rightarrow> nat option \<Rightarrow> int list \<Rightarrow> exn + (int \<times> nat option \<times> int list)" where
  "infer_view_loop [] i known_product inferred_dim inferred = Inr (known_product, inferred_dim, inferred)"
| "infer_view_loop (d # ds) i known_product inferred_dim inferred =
     (if d = - 1 then
        if inferred_dim \<noteq> None then Inl (Runtime_error ''Mini-GPU view only allows one inferred dim'')
        else infer_view_loop ds (i + 1) known_product (Some i) (inferred @ [1])
      else if d < 0 then Inl (Runtime_error ''Mini-GPU view received a negative dim'')
      else bind_ok (mult_i64 known_product d) (\<lambda>p.
             infer_view_loop ds (i + 1) p inferred_dim (inferred @ [d])))"

definition infer_view_size :: "int \<Rightarrow> int list \<Rightarrow> exn + int list" where
  "infer_view_size self_numel sizes =
     bind_ok (infer_view_loop sizes 0 1 None []) (\<lambda>(known_product, inferred_dim, inferred).
       case inferred_dim of
         Some i \<Rightarrow>
           if known_product = 0 \<or> self_numel mod known_product \<noteq> 0
           then Inl (Runtime_error ''Mini-GPU view cannot infer requested shape'')
           else Inr (inferred[i := self_numel div known_product])
       | None \<Rightarrow>
           if known_product \<noteq> self_numel
           then Inl (Runtime_error ''Mini-GPU view changes tensor element count'')
           else Inr inferred)"

text \<open>
  The strides are computed from the last dimension to the first, here in exact integers. The products of
  the source are 64-bit and stay in range when the number of elements of a tensor without empty
  dimensions does; only for a shape with a zero among sizes beyond that range do they differ.
\<close>

fun contiguous_strides_loop :: "int list \<Rightarrow> int list \<times> int" where
  "contiguous_strides_loop [] = ([], 1)"
| "contiguous_strides_loop (d # ds) =
     (let (strides, next_stride) = contiguous_strides_loop ds in (next_stride # strides, next_stride * d))"

definition contiguous_strides :: "int list \<Rightarrow> int list" where
  "contiguous_strides sizes = fst (contiguous_strides_loop sizes)"

definition make_alias :: "at_tensor \<Rightarrow> int list \<Rightarrow> int list \<Rightarrow> int \<Rightarrow> at_tensor" where
  "make_alias self sizes strides offset =
     self\<lparr>at_sizes := sizes, at_strides := strides, at_storage_offset := offset\<rparr>"

definition view :: "torch \<Rightarrow> at_tensor \<Rightarrow> int list \<Rightarrow> exn + at_tensor" where
  "view pt self sizes =
     (if \<not> is_contiguous pt self then Inl (Runtime_error ''Mini-GPU view currently requires contiguous input'')
      else bind_ok (infer_view_size (numel self) sizes) (\<lambda>inferred.
        Inr (make_alias self inferred (contiguous_strides inferred) (at_storage_offset self))))"

definition as_strided :: "at_tensor \<Rightarrow> int list \<Rightarrow> int list \<Rightarrow> int option \<Rightarrow> at_tensor" where
  "as_strided self sizes strides offset =
     make_alias self sizes strides (case offset of None \<Rightarrow> at_storage_offset self | Some x \<Rightarrow> x)"

definition reshape_alias :: "at_tensor \<Rightarrow> int list \<Rightarrow> int list \<Rightarrow> at_tensor" where
  "reshape_alias self sizes strides = make_alias self sizes strides (at_storage_offset self)"

end
