(* ===== verification/TorchState.thy ===== *)
theory TorchState
  imports ComPort TorchTensors GpuComm
begin

text \<open>
  The process-wide state of the PyTorch backend (\<open>torch_ext/src/backend/state.cpp\<close>): connecting to the
  device and disconnecting, and the context every operator runs on. The world \<open>'w\<close> is the one of the
  serial port. What the code reads of the process (the serial port calls, the environment, the file
  system, the YAML library, the built-in manifest path) is the parameter record \<open>platform\<close>. The mutex
  makes each function one step.
\<close>

record ('w, 'n) platform =
  pl_port :: "'w port_ops"
  pl_os :: "'w os"
  pl_env :: "string \<Rightarrow> string option"
  pl_files :: file_system
  pl_yaml :: "'n yaml"
  pl_manifest :: string

text \<open>\<open>bs_hooks\<close> is PyTorch's own record of whether hooks are registered for the device type.\<close>

record 'w backend_state =
  bs_hooks :: bool
  bs_initialized :: bool
  bs_current_device :: int
  bs_dev :: "com_dev option"
  bs_context :: "'w gpu_context option"

type_synonym 'w backend = "'w backend_state \<times> 'w"

definition initial_backend :: "'w backend_state" where
  "initial_backend = \<lparr>bs_hooks = False, bs_initialized = False, bs_current_device = 0, bs_dev = None, bs_context = None\<rparr>"

section \<open>The context\<close>

text \<open>An operation on the context that \<open>runtime_context()\<close> returns.\<close>

definition runtime_context :: "('w sys, exn, 'a) action \<Rightarrow> ('w backend, exn, 'a) action" where
  "runtime_context work = (\<lambda>(b, w).
     case bs_context b of
       None \<Rightarrow> (Inl (Runtime_error ''Mini-GPU runtime context is not connected to gpu_comm yet''), (b, w))
     | Some c \<Rightarrow> (case work (c, w) of (r, (c', w')) \<Rightarrow> (r, (b\<lparr>bs_context := Some c'\<rparr>, w'))))"

text \<open>The deleter swallows every exception, also that there is no context.\<close>

definition drop_storage :: "u64 \<Rightarrow> 'w backend \<Rightarrow> 'w backend" where
  "drop_storage storage = (\<lambda>(b, w).
     case bs_context b of
       None \<Rightarrow> (b, w)
     | Some c \<Rightarrow> (case delete_minigpu_allocation storage (c, w) of (c', w') \<Rightarrow> (b\<lparr>bs_context := Some c'\<rparr>, w')))"

section \<open>Queries and the current device\<close>

definition init :: "'w backend_state \<Rightarrow> 'w backend_state" where
  "init b = (if bs_initialized b then b else b\<lparr>bs_hooks := True, bs_initialized := True\<rparr>)"

definition is_built :: bool where
  "is_built = True"

definition is_available :: "'w backend_state \<Rightarrow> bool" where
  "is_available b \<longleftrightarrow> bs_context b \<noteq> None"

definition device_count :: "'w backend_state \<Rightarrow> int" where
  "device_count b = (if is_available b then 1 else 0)"

definition get_device :: "'w backend_state \<Rightarrow> int" where
  "get_device b = bs_current_device b"

definition set_device :: "int \<Rightarrow> ('w backend_state, exn, unit) action" where
  "set_device index b =
     (if index \<noteq> 0 then (Inl (Runtime_error ''Mini-GPU currently only supports device index 0''), b)
      else (Inr (), b\<lparr>bs_current_device := index\<rparr>))"

definition hasPrimaryContext :: "int \<Rightarrow> 'w backend_state \<Rightarrow> bool" where
  "hasPrimaryContext device_index b \<longleftrightarrow> device_index = 0 \<and> bs_context b \<noteq> None"

definition resizePrivateUse1Bytes :: "u64 \<Rightarrow> ('s, exn, unit) action" where
  "resizePrivateUse1Bytes newsize =
     (if newsize \<noteq> 0 then throw (Runtime_error ''Mini-GPU storage resize is not supported yet'') else ret ())"

section \<open>Connecting\<close>

text \<open>\<open>std::stoul(text)\<close> in base ten.\<close>

definition stoul10 :: "string \<Rightarrow> exn + u64" where
  "stoul10 text =
     (let (negative, s) = strip_sign (dropWhile is_space text);
          digits = takeWhile (is_digit 10) s;
          v = digits_value 10 digits
      in if digits = [] then Inl (Runtime_error ''stoul: no conversion'')
         else if v > 2 ^ 64 - 1 then Inl (Runtime_error ''stoul: out of range'')
         else Inr (if negative then - of_nat v else of_nat v))"

definition connect_config ::
    "('w, 'n) platform \<Rightarrow> com_dev \<Rightarrow> u32 \<Rightarrow> exn + 'w config" where
  "connect_config pl dev msize =
     bind_ok (case pl_env pl ''MINIGPU_PROGRAM_MEMORY_BYTES'' of
                None \<Rightarrow> Inr (cfg_program_memory_size (default_config :: 'w config))
              | Some text \<Rightarrow> if text = [] then Inr (cfg_program_memory_size (default_config :: 'w config)) else stoul10 text) (\<lambda>psize.
     Inr (default_config\<lparr>cfg_memory_base := 0, cfg_memory_size := widen msize, cfg_program_memory_size := psize,
       cfg_default_alignment := 4,
       cfg_transport := make_gpu_comm_transport (pl_os pl) (Some dev) default_transport_config\<rparr>))"

text \<open>What happens once the port is open; the configuration is read outside the \<open>try\<close> block.\<close>

definition connect_opened ::
    "('w, 'n) platform \<Rightarrow> com_dev \<Rightarrow> u32 \<Rightarrow> ('w backend, exn, unit) action" where
  "connect_opened pl dev msize = (\<lambda>(b, w).
     case connect_config pl dev msize of
       Inl e \<Rightarrow> (Inl e, (b, w))
     | Inr config \<Rightarrow>
         let b1 = b\<lparr>bs_hooks := True\<rparr>;
             closed = close_com (pl_port pl) (Some dev) w
         in (case context_new (pl_env pl) config of
              Inl e \<Rightarrow> (Inl e, (b1, closed))
            | Inr c \<Rightarrow>
                (case register_builtin_kernels (pl_files pl) (pl_yaml pl) (pl_env pl) (pl_manifest pl) c of
                   (Inl e, c') \<Rightarrow> (Inl e, (b1\<lparr>bs_context := Some c'\<rparr>, closed))
                 | (Inr _, c') \<Rightarrow> (Inr (), (b1\<lparr>bs_context := Some c', bs_dev := Some dev, bs_initialized := True\<rparr>, w)))))"

definition connect :: "('w, 'n) platform \<Rightarrow> string \<Rightarrow> u32 \<Rightarrow> u32 \<Rightarrow> ('w backend, exn, unit) action" where
  "connect pl port baud msize = (\<lambda>(b, w).
     if bs_context b \<noteq> None then (Inr (), (b, w))
     else (case open_com (pl_port pl) port (sint baud) 5000 w of
         (Inl e, w1) \<Rightarrow> (Inl e, (b, w1))
       | (Inr None, w1) \<Rightarrow> (Inl (Runtime_error (''failed to open Mini-GPU serial device: '' @ port)), (b, w1))
       | (Inr (Some dev), w1) \<Rightarrow> connect_opened pl dev msize (b, w1)))"

definition disconnect :: "('w, 'n) platform \<Rightarrow> 'w backend \<Rightarrow> 'w backend" where
  "disconnect pl = (\<lambda>(b, w).
     let b1 = b\<lparr>bs_context := None\<rparr>
     in case bs_dev b of
          None \<Rightarrow> (b1, w)
        | Some dev \<Rightarrow> (b1\<lparr>bs_dev := None\<rparr>, close_com (pl_port pl) (Some dev) w))"

end
