(* ===== verification/TorchOps.thy ===== *)
theory TorchOps
  imports TorchTensors DeviceLanes
begin

text \<open>
  The forward operators of the PyTorch backend (\<open>torch_ext/src/ops/elementwise.cpp\<close> and the first part
  of \<open>math.cpp\<close>): each checks its operands in order, creates its result and launches a kernel. An
  operator whose name is a constant of the library has the suffix \<open>_op\<close>. \<open>ids\<close> gives the numbers of the
  kernels, as in \<open>Launch\<close>.
\<close>

type_synonym kernel_ids = "string \<Rightarrow> u8 option"

section \<open>Checks and arguments\<close>

definition require_minigpu_contiguous :: "torch \<Rightarrow> at_tensor \<Rightarrow> string \<Rightarrow> (bool \<times> string) list" where
  "require_minigpu_contiguous pt t op_name =
     [(at_device t = PrivateUse1, op_name @ '' requires a Mini-GPU tensor''),
      (is_contiguous pt t, op_name @ '' requires a contiguous tensor'')]"

definition require_fp32_minigpu_contiguous :: "torch \<Rightarrow> at_tensor \<Rightarrow> string \<Rightarrow> (bool \<times> string) list" where
  "require_fp32_minigpu_contiguous pt t op_name =
     require_minigpu_contiguous pt t op_name
     @ [(at_dtype t = kFloat, op_name @ '' on Mini-GPU currently supports fp32 only'')]"

definition checked_u32 :: "int \<Rightarrow> string \<Rightarrow> exn + u32" where
  "checked_u32 v name =
     (if v < 0 \<or> v > 4294967295 then Inl (Runtime_error (name @ '' is out of range for Mini-GPU''))
      else Inr (of_int v))"

definition sym_u32 :: "int \<Rightarrow> string \<Rightarrow> exn + u32" where
  "sym_u32 v name = checked_u32 v name"

definition sym_array_u32 :: "int list \<Rightarrow> nat \<Rightarrow> string \<Rightarrow> exn + u32" where
  "sym_array_u32 values index name =
     (if length values \<le> index then Inl (Runtime_error (name @ '' has too few dimensions''))
      else sym_u32 (values ! index) name)"

definition sym_array_all :: "int list \<Rightarrow> int \<Rightarrow> bool" where
  "sym_array_all values expected = list_all (\<lambda>v. v = expected) values"

definition int_array_all :: "int list \<Rightarrow> int \<Rightarrow> bool" where
  "int_array_all values expected = list_all (\<lambda>v. v = expected) values"

definition scalar_or_keepdim_shape :: "at_tensor \<Rightarrow> bool \<Rightarrow> int list" where
  "scalar_or_keepdim_shape t keepdim = (if \<not> keepdim then [] else replicate (dim t) 1)"

fun dims_seen :: "int list \<Rightarrow> int \<Rightarrow> bool list \<Rightarrow> bool" where
  "dims_seen [] rank seen = True"
| "dims_seen (d # ds) rank seen =
     (let d' = (if d < 0 then d + rank else d)
      in if d' < 0 \<or> d' \<ge> rank \<or> seen ! nat d' then False
         else dims_seen ds rank (seen[nat d' := True]))"

text \<open>The overload for a list of dimensions, and the one for an optional list.\<close>

definition dims_cover_list :: "int list \<Rightarrow> nat \<Rightarrow> bool" where
  "dims_cover_list ds rank =
     (if ds = [] then True
      else if length ds \<noteq> rank then False
      else dims_seen ds (int rank) (replicate rank False))"

definition dims_cover_all :: "int list option \<Rightarrow> nat \<Rightarrow> bool" where
  "dims_cover_all dims rank =
     (case dims of
        None \<Rightarrow> True
      | Some ds \<Rightarrow>
          if ds = [] then True
          else if length ds \<noteq> rank then False
          else dims_seen ds (int rank) (replicate rank False))"

definition pair_u32_or :: "int list \<Rightarrow> u32 \<Rightarrow> u32 \<Rightarrow> string \<Rightarrow> exn + (u32 \<times> u32)" where
  "pair_u32_or values fallback_h fallback_w name =
     (case values of
        [] \<Rightarrow> Inr (fallback_h, fallback_w)
      | [v] \<Rightarrow> bind_ok (checked_u32 v name) (\<lambda>x. Inr (x, x))
      | [v, w] \<Rightarrow> bind_ok (checked_u32 v name) (\<lambda>x. bind_ok (checked_u32 w name) (\<lambda>y. Inr (x, y)))
      | _ \<Rightarrow> Inl (Runtime_error (name @ '' expects one or two values'')))"

definition supported_kernel_dtype :: "at_tensor \<Rightarrow> string \<Rightarrow> exn + string" where
  "supported_kernel_dtype t op_name =
     (if at_dtype t = kInt then Inr ''i32''
      else if at_dtype t = kFloat then Inr ''fp32''
      else Inl (Runtime_error (op_name @ '' on Mini-GPU currently supports int32 and fp32'')))"

text \<open>The kernel arguments: a tensor's address, a size in 32 bits, the bits of a float.\<close>

definition addr_arg :: "torch \<Rightarrow> at_tensor \<Rightarrow> exn + kernel_arg" where
  "addr_arg pt t = bind_ok (device_address pt t) (\<lambda>a. arg_device_ptr a 4)"

definition size_arg :: "int \<Rightarrow> string \<Rightarrow> exn + kernel_arg" where
  "size_arg v name = bind_ok (checked_u32 v name) num"

definition view_of :: "torch \<Rightarrow> string \<Rightarrow> at_tensor \<Rightarrow> exn + tensor_view" where
  "view_of pt dtype t =
     bind_ok (device_address pt t) (\<lambda>a. Inr \<lparr>tv_addr = a, tv_elements = of_int (numel t), tv_dtype = dtype\<rparr>)"

definition on_views ::
    "torch \<Rightarrow> string \<Rightarrow> at_tensor list \<Rightarrow> (tensor_view list \<Rightarrow> ('d sys, exn, unit) action) \<Rightarrow> ('d sys, exn, unit) action" where
  "on_views pt dtype ts work = andThen (of_sum (map_ok (view_of pt dtype) ts)) work"

definition launch :: "kernel_ids \<Rightarrow> string \<Rightarrow> (exn + kernel_arg) list \<Rightarrow> ('d sys, exn, unit) action" where
  "launch ids name args = launch_named ids name args None"

abbreviation empty_like :: "torch \<Rightarrow> at_tensor \<Rightarrow> ('d sys, exn, at_tensor) action" where
  "empty_like pt t \<equiv> new_tensor pt (at_sizes t) (at_dtype t)"

section \<open>Elementwise operators\<close>

definition kernel_dtype :: "at_tensor \<Rightarrow> string \<Rightarrow> exn + string" where
  "kernel_dtype t op_name =
     (case at_dtype t of
        kInt \<Rightarrow> Inr ''i32'' | kFloat \<Rightarrow> Inr ''fp32'' | kShort \<Rightarrow> Inr ''i16'' | kChar \<Rightarrow> Inr ''i8''
      | kHalf \<Rightarrow> Inr ''fp16'' | kFloat8_e4m3fn \<Rightarrow> Inr ''fp8_e4m3fn''
      | kOther n \<Rightarrow> Inl (Runtime_error (op_name @ '' does not have a registered Mini-GPU dtype'')))"

definition run_binary_kernel ::
    "torch \<Rightarrow> kernel_ids \<Rightarrow> at_tensor \<Rightarrow> at_tensor \<Rightarrow> string \<Rightarrow> string \<Rightarrow> ('d sys, exn, at_tensor) action" where
  "run_binary_kernel pt ids a b kernel_op op_name =
     andThen (requires
       [(at_device a = PrivateUse1 \<and> at_device b = PrivateUse1, op_name @ '' requires Mini-GPU tensors''),
        (at_sizes a = at_sizes b, op_name @ '' requires matching shapes''),
        (is_contiguous pt a \<and> is_contiguous pt b, op_name @ '' requires contiguous tensors''),
        (at_dtype a = at_dtype b, op_name @ '' requires matching dtypes'')]) (\<lambda>_.
     andThen (of_sum (kernel_dtype a op_name)) (\<lambda>layout.
     with_output (empty_like pt a) (\<lambda>out.
     andThen (of_sum (map_ok (device_address pt) [a, b, out])) (\<lambda>addrs.
     let elements = of_int (numel a);
         view = (\<lambda>addr. \<lparr>tv_addr = addr, tv_elements = elements, tv_dtype = layout\<rparr>)
     in launch_elementwise_binary ids kernel_op (view (addrs ! 0)) (view (addrs ! 1)) (view (addrs ! 2)) None))))"

definition run_unary_kernel ::
    "torch \<Rightarrow> kernel_ids \<Rightarrow> at_tensor \<Rightarrow> string \<Rightarrow> string \<Rightarrow> ('d sys, exn, at_tensor) action" where
  "run_unary_kernel pt ids a kernel_op op_name =
     andThen (requires
       [(at_device a = PrivateUse1, op_name @ '' requires a Mini-GPU tensor''),
        (is_contiguous pt a, op_name @ '' requires a contiguous tensor'')]) (\<lambda>_.
     andThen (of_sum (kernel_dtype a op_name)) (\<lambda>layout.
     with_output (empty_like pt a) (\<lambda>out.
     andThen (of_sum (map_ok (device_address pt) [a, out])) (\<lambda>addrs.
     let elements = of_int (numel a);
         view = (\<lambda>addr. \<lparr>tv_addr = addr, tv_elements = elements, tv_dtype = layout\<rparr>)
     in launch_elementwise_unary ids kernel_op (view (addrs ! 0)) (view (addrs ! 1)) None))))"

definition run_vector_add_kernel ::
    "torch \<Rightarrow> kernel_ids \<Rightarrow> at_tensor \<Rightarrow> at_tensor \<Rightarrow> string \<Rightarrow> ('d sys, exn, at_tensor) action" where
  "run_vector_add_kernel pt ids a b op_name = run_binary_kernel pt ids a b ''vector_add'' op_name"

definition run_relu_kernel :: "torch \<Rightarrow> kernel_ids \<Rightarrow> at_tensor \<Rightarrow> string \<Rightarrow> ('d sys, exn, at_tensor) action" where
  "run_relu_kernel pt ids a op_name = run_unary_kernel pt ids a ''relu'' op_name"

definition run_fp32_unary_kernel ::
    "torch \<Rightarrow> kernel_ids \<Rightarrow> at_tensor \<Rightarrow> string \<Rightarrow> string \<Rightarrow> ('d sys, exn, at_tensor) action" where
  "run_fp32_unary_kernel pt ids a kernel_op op_name =
     andThen (requires (require_minigpu_contiguous pt a op_name
       @ [(at_dtype a = kFloat, op_name @ '' on Mini-GPU currently supports fp32 only'')])) (\<lambda>_.
     run_unary_kernel pt ids a kernel_op op_name)"

definition scal :: "torch \<Rightarrow> kernel_ids \<Rightarrow> at_tensor \<Rightarrow> at_scalar \<Rightarrow> ('d sys, exn, at_tensor) action" where
  "scal pt ids x alpha =
     andThen (requires (require_minigpu_contiguous pt x ''minigpu::scal''
       @ [(at_dtype x = kFloat, ''minigpu::scal currently supports fp32 only'')])) (\<lambda>_.
     with_output (empty_like pt x) (\<lambda>out.
     on_views pt ''fp32'' [x, out] (\<lambda>v. launch_scal ids (v ! 0) (v ! 1) (sc_float alpha) None)))"

definition axpy :: "torch \<Rightarrow> kernel_ids \<Rightarrow> at_tensor \<Rightarrow> at_tensor \<Rightarrow> at_scalar \<Rightarrow> ('d sys, exn, at_tensor) action" where
  "axpy pt ids x y alpha =
     andThen (requires (require_minigpu_contiguous pt x ''minigpu::axpy x''
       @ require_minigpu_contiguous pt y ''minigpu::axpy y''
       @ [(at_sizes x = at_sizes y, ''minigpu::axpy requires matching shapes''),
          (at_dtype x = at_dtype y, ''minigpu::axpy requires matching dtypes''),
          (at_dtype x = kFloat, ''minigpu::axpy currently supports fp32 only'')])) (\<lambda>_.
     with_output (empty_like pt x) (\<lambda>out.
     on_views pt ''fp32'' [x, y, out] (\<lambda>v. launch_axpy ids (v ! 0) (v ! 1) (v ! 2) (sc_float alpha) None)))"

definition add_tensor :: "torch \<Rightarrow> kernel_ids \<Rightarrow> at_tensor \<Rightarrow> at_tensor \<Rightarrow> at_scalar \<Rightarrow> ('d sys, exn, at_tensor) action" where
  "add_tensor pt ids a b alpha =
     andThen (requires (require_minigpu_contiguous pt a ''aten::add.Tensor self''
       @ require_minigpu_contiguous pt b ''aten::add.Tensor other''
       @ [(at_sizes a = at_sizes b, ''aten::add.Tensor on Mini-GPU requires matching shapes''),
          (at_dtype a = at_dtype b, ''aten::add.Tensor on Mini-GPU requires matching dtypes'')])) (\<lambda>_.
     if \<not> sc_is_one alpha
     then andThen (requires [(at_dtype a = kFloat,
            ''aten::add.Tensor on Mini-GPU currently supports alpha!=1 for fp32 only'')]) (\<lambda>_.
          axpy pt ids b a alpha)
     else run_vector_add_kernel pt ids a b ''aten::add.Tensor'')"

definition add_tensor_inplace ::
    "torch \<Rightarrow> kernel_ids \<Rightarrow> at_tensor \<Rightarrow> at_tensor \<Rightarrow> at_scalar \<Rightarrow> ('d sys, exn, at_tensor) action" where
  "add_tensor_inplace pt ids a b alpha =
     andThen (requires (require_minigpu_contiguous pt a ''aten::add_.Tensor self''
       @ require_minigpu_contiguous pt b ''aten::add_.Tensor other''
       @ [(at_sizes a = at_sizes b, ''aten::add_.Tensor on Mini-GPU requires matching shapes''),
          (at_dtype a = at_dtype b, ''aten::add_.Tensor on Mini-GPU requires matching dtypes'')])) (\<lambda>_.
     with_temporary (add_tensor pt ids a b alpha) (\<lambda>updated.
     andThen (copy_tensor pt (Gpu a) (Gpu updated)) (\<lambda>_. ret a)))"

definition vector_add :: "torch \<Rightarrow> kernel_ids \<Rightarrow> at_tensor \<Rightarrow> at_tensor \<Rightarrow> ('d sys, exn, at_tensor) action" where
  "vector_add pt ids a b = run_vector_add_kernel pt ids a b ''minigpu::vector_add''"

definition mul_tensor :: "torch \<Rightarrow> kernel_ids \<Rightarrow> at_tensor \<Rightarrow> at_tensor \<Rightarrow> ('d sys, exn, at_tensor) action" where
  "mul_tensor pt ids a b = run_binary_kernel pt ids a b ''mul'' ''aten::mul.Tensor''"

definition div_tensor :: "torch \<Rightarrow> kernel_ids \<Rightarrow> at_tensor \<Rightarrow> at_tensor \<Rightarrow> ('d sys, exn, at_tensor) action" where
  "div_tensor pt ids a b =
     andThen (requires
       [(at_device a = PrivateUse1 \<and> at_device b = PrivateUse1, ''aten::div.Tensor requires Mini-GPU tensors''),
        (at_sizes a = at_sizes b, ''aten::div.Tensor on Mini-GPU requires matching shapes''),
        (is_contiguous pt a \<and> is_contiguous pt b, ''aten::div.Tensor on Mini-GPU requires contiguous tensors''),
        (at_dtype a = kFloat \<and> at_dtype b = kFloat, ''aten::div.Tensor on Mini-GPU currently supports fp32 only'')]) (\<lambda>_.
     with_output (empty_like pt a) (\<lambda>out.
     on_views pt ''fp32'' [a, b, out] (\<lambda>v. launch_elementwise_binary ids ''div'' (v ! 0) (v ! 1) (v ! 2) None)))"

definition relu_op :: "torch \<Rightarrow> kernel_ids \<Rightarrow> at_tensor \<Rightarrow> ('d sys, exn, at_tensor) action" where
  "relu_op pt ids a = run_relu_kernel pt ids a ''aten::relu''"

definition exp_op :: "torch \<Rightarrow> kernel_ids \<Rightarrow> at_tensor \<Rightarrow> ('d sys, exn, at_tensor) action" where
  "exp_op pt ids a = run_fp32_unary_kernel pt ids a ''exp'' ''aten::exp''"

definition log_op :: "torch \<Rightarrow> kernel_ids \<Rightarrow> at_tensor \<Rightarrow> ('d sys, exn, at_tensor) action" where
  "log_op pt ids a = run_fp32_unary_kernel pt ids a ''log'' ''aten::log''"

definition log2_op :: "torch \<Rightarrow> kernel_ids \<Rightarrow> at_tensor \<Rightarrow> ('d sys, exn, at_tensor) action" where
  "log2_op pt ids a = run_fp32_unary_kernel pt ids a ''log2'' ''aten::log2''"

definition log10_op :: "torch \<Rightarrow> kernel_ids \<Rightarrow> at_tensor \<Rightarrow> ('d sys, exn, at_tensor) action" where
  "log10_op pt ids a = run_fp32_unary_kernel pt ids a ''log10'' ''aten::log10''"

definition sigmoid_op :: "torch \<Rightarrow> kernel_ids \<Rightarrow> at_tensor \<Rightarrow> ('d sys, exn, at_tensor) action" where
  "sigmoid_op pt ids a = run_fp32_unary_kernel pt ids a ''sigmoid'' ''aten::sigmoid''"

definition tanh_op :: "torch \<Rightarrow> kernel_ids \<Rightarrow> at_tensor \<Rightarrow> ('d sys, exn, at_tensor) action" where
  "tanh_op pt ids a = run_fp32_unary_kernel pt ids a ''tanh'' ''aten::tanh''"

definition sqrt_op :: "torch \<Rightarrow> kernel_ids \<Rightarrow> at_tensor \<Rightarrow> ('d sys, exn, at_tensor) action" where
  "sqrt_op pt ids a =
     andThen (requires
       [(at_device a = PrivateUse1, ''aten::sqrt requires a Mini-GPU tensor''),
        (is_contiguous pt a, ''aten::sqrt on Mini-GPU requires a contiguous tensor''),
        (at_dtype a = kFloat, ''aten::sqrt on Mini-GPU currently supports fp32 only'')]) (\<lambda>_.
     with_output (empty_like pt a) (\<lambda>out.
     on_views pt ''fp32'' [a, out] (\<lambda>v. launch_elementwise_unary ids ''sqrt'' (v ! 0) (v ! 1) None)))"

definition reciprocal_op :: "torch \<Rightarrow> kernel_ids \<Rightarrow> at_tensor \<Rightarrow> ('d sys, exn, at_tensor) action" where
  "reciprocal_op pt ids a =
     andThen (requires
       [(at_device a = PrivateUse1, ''aten::reciprocal requires a Mini-GPU tensor''),
        (is_contiguous pt a, ''aten::reciprocal on Mini-GPU requires a contiguous tensor''),
        (at_dtype a = kFloat, ''aten::reciprocal on Mini-GPU currently supports fp32 only'')]) (\<lambda>_.
     with_output (empty_like pt a) (\<lambda>out.
     on_views pt ''fp32'' [a, out] (\<lambda>v. launch_elementwise_unary ids ''reciprocal'' (v ! 0) (v ! 1) None)))"

section \<open>Operators computed on the host\<close>

definition to_cpu_tensor :: "torch \<Rightarrow> at_tensor \<Rightarrow> string \<Rightarrow> ('d sys, exn, cpu_tensor) action" where
  "to_cpu_tensor pt t op_name =
     andThen (requires (require_minigpu_contiguous pt t op_name)) (\<lambda>_.
     andThen (of_sum (device_address pt t)) (\<lambda>addr.
     andThen (copy_from_device (Some (pt_garbage pt (tensor_nbytes pt t))) addr (tensor_nbytes pt t)) (\<lambda>bs.
     ret \<lparr>ct_dtype = at_dtype t, ct_sizes = at_sizes t, ct_bytes = bs\<rparr>)))"

definition to_minigpu_tensor :: "torch \<Rightarrow> cpu_tensor \<Rightarrow> ('d sys, exn, at_tensor) action" where
  "to_minigpu_tensor pt cpu =
     with_output (new_tensor pt (ct_sizes cpu) (ct_dtype cpu)) (\<lambda>out.
     andThen (of_sum (device_address pt out)) (\<lambda>addr.
     copy_to_device addr (Some (ct_bytes cpu))
       (of_int (prod_list (ct_sizes cpu)) * pt_element_size pt (ct_dtype cpu))))"

definition pow_tensor_tensor :: "torch \<Rightarrow> at_tensor \<Rightarrow> at_tensor \<Rightarrow> ('d sys, exn, at_tensor) action" where
  "pow_tensor_tensor pt a b =
     andThen (requires (require_minigpu_contiguous pt a ''aten::pow.Tensor_Tensor''
       @ require_minigpu_contiguous pt b ''aten::pow.Tensor_Tensor''
       @ [(at_sizes a = at_sizes b, ''aten::pow.Tensor_Tensor requires matching shapes''),
          (at_dtype a = kFloat \<and> at_dtype b = kFloat, ''aten::pow.Tensor_Tensor on Mini-GPU currently supports fp32 only'')])) (\<lambda>_.
     andThen (to_cpu_tensor pt a ''aten::pow.Tensor_Tensor'') (\<lambda>x.
     andThen (to_cpu_tensor pt b ''aten::pow.Tensor_Tensor'') (\<lambda>y.
     to_minigpu_tensor pt (pt_pow pt x y))))"

definition pow_tensor_scalar :: "torch \<Rightarrow> at_tensor \<Rightarrow> at_scalar \<Rightarrow> ('d sys, exn, at_tensor) action" where
  "pow_tensor_scalar pt a b =
     andThen (to_cpu_tensor pt a ''aten::pow.Tensor_Scalar'') (\<lambda>x. to_minigpu_tensor pt (pt_pow_scalar pt x b))"

definition sin_op :: "torch \<Rightarrow> at_tensor \<Rightarrow> ('d sys, exn, at_tensor) action" where
  "sin_op pt a = andThen (to_cpu_tensor pt a ''aten::sin'') (\<lambda>x. to_minigpu_tensor pt (pt_sin pt x))"

definition cos_op :: "torch \<Rightarrow> at_tensor \<Rightarrow> ('d sys, exn, at_tensor) action" where
  "cos_op pt a = andThen (to_cpu_tensor pt a ''aten::cos'') (\<lambda>x. to_minigpu_tensor pt (pt_cos pt x))"

definition tan_op :: "torch \<Rightarrow> at_tensor \<Rightarrow> ('d sys, exn, at_tensor) action" where
  "tan_op pt a = andThen (to_cpu_tensor pt a ''aten::tan'') (\<lambda>x. to_minigpu_tensor pt (pt_tan pt x))"

end
