(* ===== verification/TorchLayers.thy ===== *)
theory TorchLayers
  imports TorchOps
begin

text \<open>
  The layer operators of the PyTorch backend (\<open>torch_ext/src/ops/math.cpp\<close>): matrix products, linear
  layers, convolutions, reductions, softmax and pooling. The arguments of a kernel launch are in the
  order of the kernel's parameters.
\<close>

definition u32_of :: "int \<Rightarrow> u32" where
  "u32_of v = of_int v"

text \<open>\<open>static_cast<std::size_t>(t.numel())\<close> etc. are in \<open>view_of\<close>; a size passed on without a check is cast.\<close>

section \<open>Matrix products\<close>

definition mm :: "torch \<Rightarrow> kernel_ids \<Rightarrow> at_tensor \<Rightarrow> at_tensor \<Rightarrow> ('d sys, exn, at_tensor) action" where
  "mm pt ids a b =
     andThen (requires
       [(at_device a = PrivateUse1 \<and> at_device b = PrivateUse1, ''aten::mm requires Mini-GPU tensors''),
        (dim a = 2 \<and> dim b = 2, ''aten::mm on Mini-GPU requires 2D tensors''),
        (size_at a 1 = size_at b 0, ''aten::mm on Mini-GPU requires compatible shapes''),
        (is_contiguous pt a \<and> is_contiguous pt b, ''aten::mm on Mini-GPU requires contiguous tensors''),
        (at_dtype a = at_dtype b, ''aten::mm on Mini-GPU requires matching dtypes'')]) (\<lambda>_.
     andThen (of_sum (supported_kernel_dtype a ''aten::mm'')) (\<lambda>dtype.
     with_output (new_tensor pt [size_at a 0, size_at b 1] (at_dtype a)) (\<lambda>out.
     on_views pt dtype [a, b, out] (\<lambda>v.
       launch_matmul ids (v ! 0) (v ! 1) (v ! 2) (u32_of (size_at a 0)) (u32_of (size_at b 1))
         (u32_of (size_at a 1)) None))))"

definition mv :: "torch \<Rightarrow> kernel_ids \<Rightarrow> at_tensor \<Rightarrow> at_tensor \<Rightarrow> ('d sys, exn, at_tensor) action" where
  "mv pt ids a x =
     andThen (requires (require_minigpu_contiguous pt a ''aten::mv input''
       @ require_minigpu_contiguous pt x ''aten::mv vec''
       @ [(dim a = 2 \<and> dim x = 1, ''aten::mv on Mini-GPU requires a 2D matrix and 1D vector''),
          (size_at a 1 = size_at x 0, ''aten::mv on Mini-GPU requires compatible shapes''),
          (at_dtype a = at_dtype x, ''aten::mv on Mini-GPU requires matching dtypes'')])) (\<lambda>_.
     andThen (of_sum (supported_kernel_dtype a ''aten::mv'')) (\<lambda>dtype.
     with_output (new_tensor pt [size_at a 0] (at_dtype a)) (\<lambda>out.
     on_views pt dtype [a, x, out] (\<lambda>v.
       launch_gemv ids (v ! 0) (v ! 1) (v ! 2) (u32_of (size_at a 0)) (u32_of (size_at a 1)) None))))"

definition dot_op :: "torch \<Rightarrow> kernel_ids \<Rightarrow> at_tensor \<Rightarrow> at_tensor \<Rightarrow> ('d sys, exn, at_tensor) action" where
  "dot_op pt ids a b =
     andThen (requires (require_minigpu_contiguous pt a ''aten::dot input''
       @ require_minigpu_contiguous pt b ''aten::dot input''
       @ [(dim a = 1 \<and> dim b = 1, ''aten::dot on Mini-GPU requires 1D tensors''),
          (size_at a 0 = size_at b 0, ''aten::dot on Mini-GPU requires matching lengths''),
          (at_dtype a = at_dtype b, ''aten::dot on Mini-GPU requires matching dtypes'')])) (\<lambda>_.
     andThen (of_sum (supported_kernel_dtype a ''aten::dot'')) (\<lambda>dtype.
     with_output (new_tensor pt [] (at_dtype a)) (\<lambda>out.
     on_views pt dtype [a, b, out] (\<lambda>v. launch_dot ids (v ! 0) (v ! 1) (v ! 2) (u32_of (size_at a 0)) None))))"

definition addmm ::
    "torch \<Rightarrow> kernel_ids \<Rightarrow> at_tensor \<Rightarrow> at_tensor \<Rightarrow> at_tensor \<Rightarrow> at_scalar \<Rightarrow> at_scalar \<Rightarrow> ('d sys, exn, at_tensor) action" where
  "addmm pt ids self mat1 mat2 beta alpha =
     andThen (requires (require_minigpu_contiguous pt self ''aten::addmm self''
       @ require_minigpu_contiguous pt mat1 ''aten::addmm mat1''
       @ require_minigpu_contiguous pt mat2 ''aten::addmm mat2''
       @ [(dim self = 2 \<and> dim mat1 = 2 \<and> dim mat2 = 2, ''aten::addmm on Mini-GPU currently requires 2D tensors''),
          (size_at mat1 1 = size_at mat2 0, ''aten::addmm on Mini-GPU requires compatible matmul shapes''),
          (size_at self 0 = size_at mat1 0 \<and> size_at self 1 = size_at mat2 1,
           ''aten::addmm on Mini-GPU currently requires self shape [mat1.rows, mat2.cols]''),
          (at_dtype self = at_dtype mat1 \<and> at_dtype self = at_dtype mat2,
           ''aten::addmm on Mini-GPU requires matching dtypes''),
          (at_dtype self = kFloat, ''aten::addmm on Mini-GPU currently supports fp32 only'')])) (\<lambda>_.
     with_output (empty_like pt self) (\<lambda>out.
     on_views pt ''fp32'' [self, mat1, mat2, out] (\<lambda>v.
       launch_addmm ids (v ! 0) (v ! 1) (v ! 2) (v ! 3) (sc_float beta) (sc_float alpha)
         (u32_of (size_at mat1 0)) (u32_of (size_at mat2 1)) (u32_of (size_at mat1 1)) None)))"

section \<open>Linear layers\<close>

text \<open>The bias is \<open>None\<close> unless \<open>bias.has_value() && bias->defined()\<close>.\<close>

definition bias_checks :: "torch \<Rightarrow> at_tensor option \<Rightarrow> at_tensor \<Rightarrow> at_tensor \<Rightarrow> string \<Rightarrow> string \<Rightarrow> (bool \<times> string) list" where
  "bias_checks pt bias weight input op_name features =
     (case bias of
        None \<Rightarrow> []
      | Some b \<Rightarrow>
          require_minigpu_contiguous pt b (op_name @ '' bias'')
          @ [(dim b = 1 \<and> size_at b 0 = size_at weight 0,
              op_name @ '' on Mini-GPU requires bias shape ['' @ features @ '']''),
             (at_dtype b = at_dtype input, op_name @ '' on Mini-GPU requires matching bias dtype'')])"

definition linear_op ::
    "torch \<Rightarrow> kernel_ids \<Rightarrow> at_tensor \<Rightarrow> at_tensor \<Rightarrow> at_tensor option \<Rightarrow> ('d sys, exn, at_tensor) action" where
  "linear_op pt ids input weight bias =
     andThen (requires
       [(at_device input = PrivateUse1 \<and> at_device weight = PrivateUse1, ''aten::linear requires Mini-GPU tensors''),
        (dim input = 1 \<or> dim input = 2, ''aten::linear on Mini-GPU currently supports 1D or 2D input''),
        (dim weight = 2, ''aten::linear on Mini-GPU requires a 2D weight tensor''),
        (is_contiguous pt input \<and> is_contiguous pt weight, ''aten::linear on Mini-GPU requires contiguous tensors''),
        (at_dtype input = at_dtype weight, ''aten::linear on Mini-GPU requires matching input and weight dtypes''),
        (size_at input (dim input - 1) = size_at weight 1, ''aten::linear on Mini-GPU requires matching in_features'')]) (\<lambda>_.
     andThen (of_sum (supported_kernel_dtype input ''aten::linear'')) (\<lambda>dtype.
     andThen (requires (bias_checks pt bias weight input ''aten::linear'' ''out_features'')) (\<lambda>_.
     andThen (of_sum (if dim input = 1 then view pt input [1, size_at input 0] else Inr input)) (\<lambda>input_2d.
     andThen (with_output (new_tensor pt [size_at input_2d 0, size_at weight 0] (at_dtype input)) (\<lambda>out_2d.
       let total_count = u32_of (numel out_2d);
           out_features = u32_of (size_at weight 0);
           in_features = u32_of (size_at weight 1)
       in case bias of
            Some b \<Rightarrow> on_views pt dtype [input_2d, weight, b, out_2d] (\<lambda>v.
              launch_linear_bias ids (v ! 0) (v ! 1) (v ! 2) (v ! 3) total_count out_features in_features None)
          | None \<Rightarrow> on_views pt dtype [input_2d, weight, out_2d] (\<lambda>v.
              launch_linear ids (v ! 0) (v ! 1) (v ! 2) total_count out_features in_features None))) (\<lambda>out_2d s.
     if dim input = 1
     then (case view pt out_2d [size_at weight 0] of
             Inr v \<Rightarrow> (Inr v, s)
           | Inl e \<Rightarrow> (Inl e, delete_minigpu_allocation (at_storage out_2d) s))
     else (Inr out_2d, s))))))"

section \<open>Convolutions\<close>

text \<open>The number of windows along one dimension; the division is the one of C on 64-bit integers.\<close>

definition window_count :: "int \<Rightarrow> u32 \<Rightarrow> u32 \<Rightarrow> u32 \<Rightarrow> string \<Rightarrow> exn + u32" where
  "window_count input_size padding window stride name =
     (case cdiv (input_size + 2 * uint padding - uint window) (uint stride) of
        None \<Rightarrow> Inl (Undefined ''integer division by zero'')
      | Some q \<Rightarrow> checked_u32 (q + 1) name)"

definition convolution_checks ::
    "torch \<Rightarrow> at_tensor \<Rightarrow> at_tensor \<Rightarrow> int list \<Rightarrow> bool \<Rightarrow> int list \<Rightarrow> int \<Rightarrow> (bool \<times> string) list" where
  "convolution_checks pt input weight dilation transposed output_padding groups =
     require_minigpu_contiguous pt input ''aten::convolution input''
     @ require_minigpu_contiguous pt weight ''aten::convolution weight''
     @ [(at_dtype input = at_dtype weight, ''aten::convolution on Mini-GPU requires matching input and weight dtypes''),
        (\<not> transposed, ''aten::convolution on Mini-GPU does not support transposed convolution yet''),
        (groups = 1, ''aten::convolution on Mini-GPU currently supports groups=1 only''),
        (sym_array_all dilation 1, ''aten::convolution on Mini-GPU currently supports dilation=1 only''),
        (sym_array_all output_padding 0, ''aten::convolution on Mini-GPU requires output_padding=0''),
        (dim input = 3 \<or> dim input = 4, ''aten::convolution on Mini-GPU currently supports NCL and NCHW inputs''),
        (dim weight = dim input, ''aten::convolution on Mini-GPU weight rank must match input rank''),
        (size_at input 1 = size_at weight 1, ''aten::convolution on Mini-GPU requires matching input channels'')]"

definition convolution_1d ::
    "torch \<Rightarrow> kernel_ids \<Rightarrow> string \<Rightarrow> at_tensor \<Rightarrow> at_tensor \<Rightarrow> at_tensor option \<Rightarrow> int list \<Rightarrow> int list \<Rightarrow> int list
       \<Rightarrow> int list \<Rightarrow> u32 \<Rightarrow> u32 \<Rightarrow> u32 \<Rightarrow> ('d sys, exn, at_tensor) action" where
  "convolution_1d pt ids dtype input weight bias stride padding dilation output_padding batch_size in_channels out_channels =
     andThen (requires [(length stride = 1 \<and> length padding = 1 \<and> length dilation = 1 \<and> length output_padding = 1,
       ''aten::convolution 1D expects one stride/padding/dilation value'')]) (\<lambda>_.
     andThen (of_sum (checked_u32 (size_at input 2) ''input_width'')) (\<lambda>input_width.
     andThen (of_sum (checked_u32 (size_at weight 2) ''kernel_width'')) (\<lambda>kernel_width.
     andThen (of_sum (sym_array_u32 stride 0 ''stride'')) (\<lambda>stride_w.
     andThen (of_sum (sym_array_u32 padding 0 ''padding'')) (\<lambda>padding_w.
     andThen (requires
       [(padding_w = 0, ''aten::convolution 1D on Mini-GPU currently supports padding=0 only''),
        (stride_w \<noteq> 0, ''aten::convolution 1D on Mini-GPU requires nonzero stride'')]) (\<lambda>_.
     andThen (of_sum (window_count (size_at input 2) padding_w kernel_width stride_w ''output_width'')) (\<lambda>output_width.
     with_output (new_tensor pt [size_at input 0, size_at weight 0, uint output_width] (at_dtype input)) (\<lambda>out.
       case bias of
         Some b \<Rightarrow> on_views pt dtype [out, input, weight, b] (\<lambda>v.
           launch_conv1d_bias ids (v ! 1) (v ! 2) (v ! 3) (v ! 0) (u32_of (numel out)) batch_size in_channels
             out_channels input_width output_width kernel_width stride_w padding_w None)
       | None \<Rightarrow> on_views pt dtype [out, input, weight] (\<lambda>v.
           launch_conv1d ids (v ! 1) (v ! 2) (v ! 0) (u32_of (numel out)) batch_size in_channels
             out_channels input_width output_width kernel_width stride_w padding_w None)))))))))"

definition convolution_2d ::
    "torch \<Rightarrow> kernel_ids \<Rightarrow> string \<Rightarrow> at_tensor \<Rightarrow> at_tensor \<Rightarrow> at_tensor option \<Rightarrow> int list \<Rightarrow> int list \<Rightarrow> int list
       \<Rightarrow> int list \<Rightarrow> u32 \<Rightarrow> u32 \<Rightarrow> u32 \<Rightarrow> ('d sys, exn, at_tensor) action" where
  "convolution_2d pt ids dtype input weight bias stride padding dilation output_padding batch_size in_channels out_channels =
     andThen (requires [(length stride = 2 \<and> length padding = 2 \<and> length dilation = 2 \<and> length output_padding = 2,
       ''aten::convolution 2D expects two stride/padding/dilation values'')]) (\<lambda>_.
     andThen (of_sum (checked_u32 (size_at input 2) ''input_height'')) (\<lambda>input_height.
     andThen (of_sum (checked_u32 (size_at input 3) ''input_width'')) (\<lambda>input_width.
     andThen (of_sum (checked_u32 (size_at weight 2) ''kernel_height'')) (\<lambda>kernel_height.
     andThen (of_sum (checked_u32 (size_at weight 3) ''kernel_width'')) (\<lambda>kernel_width.
     andThen (of_sum (sym_array_u32 stride 0 ''stride'')) (\<lambda>stride_h.
     andThen (of_sum (sym_array_u32 stride 1 ''stride'')) (\<lambda>stride_w.
     andThen (of_sum (sym_array_u32 padding 0 ''padding'')) (\<lambda>padding_h.
     andThen (of_sum (sym_array_u32 padding 1 ''padding'')) (\<lambda>padding_w.
     andThen (requires
       [(padding_h = 0 \<and> padding_w = 0, ''aten::convolution 2D on Mini-GPU currently supports padding=0 only''),
        (stride_h \<noteq> 0 \<and> stride_w \<noteq> 0, ''aten::convolution 2D on Mini-GPU requires nonzero stride'')]) (\<lambda>_.
     andThen (of_sum (window_count (size_at input 2) padding_h kernel_height stride_h ''output_height'')) (\<lambda>output_height.
     andThen (of_sum (window_count (size_at input 3) padding_w kernel_width stride_w ''output_width'')) (\<lambda>output_width.
     with_output (new_tensor pt [size_at input 0, size_at weight 0, uint output_height, uint output_width] (at_dtype input)) (\<lambda>out.
       case bias of
         Some b \<Rightarrow> on_views pt dtype [out, input, weight, b] (\<lambda>v.
           launch_conv2d_bias ids (v ! 1) (v ! 2) (v ! 3) (v ! 0) (u32_of (numel out)) batch_size in_channels
             out_channels input_height input_width output_height output_width kernel_height kernel_width
             stride_h stride_w padding_h padding_w None)
       | None \<Rightarrow> on_views pt dtype [out, input, weight] (\<lambda>v.
           launch_conv2d ids (v ! 1) (v ! 2) (v ! 0) (u32_of (numel out)) batch_size in_channels
             out_channels input_height input_width output_height output_width kernel_height kernel_width
             stride_h stride_w padding_h padding_w None))))))))))))))"

definition convolution_op ::
    "torch \<Rightarrow> kernel_ids \<Rightarrow> at_tensor \<Rightarrow> at_tensor \<Rightarrow> at_tensor option \<Rightarrow> int list \<Rightarrow> int list \<Rightarrow> int list \<Rightarrow> bool
       \<Rightarrow> int list \<Rightarrow> int \<Rightarrow> ('d sys, exn, at_tensor) action" where
  "convolution_op pt ids input weight bias stride padding dilation transposed output_padding groups =
     andThen (requires (convolution_checks pt input weight dilation transposed output_padding groups)) (\<lambda>_.
     andThen (of_sum (supported_kernel_dtype input ''aten::convolution'')) (\<lambda>dtype.
     andThen (requires (bias_checks pt bias weight input ''aten::convolution'' ''out_channels'')) (\<lambda>_.
     andThen (of_sum (checked_u32 (size_at input 0) ''batch_size'')) (\<lambda>batch_size.
     andThen (of_sum (checked_u32 (size_at input 1) ''in_channels'')) (\<lambda>in_channels.
     andThen (of_sum (checked_u32 (size_at weight 0) ''out_channels'')) (\<lambda>out_channels.
     (if dim input = 3 then convolution_1d else convolution_2d)
       pt ids dtype input weight bias stride padding dilation output_padding batch_size in_channels out_channels))))))"

section \<open>Reductions\<close>

definition run_global_reduction_kernel ::
    "torch \<Rightarrow> kernel_ids \<Rightarrow> at_tensor \<Rightarrow> string \<Rightarrow> string \<Rightarrow> bool \<Rightarrow> ('d sys, exn, at_tensor) action" where
  "run_global_reduction_kernel pt ids a kernel_name op_name keepdim =
     andThen (requires (require_fp32_minigpu_contiguous pt a op_name
       @ [(\<not> numel a \<le> 0, op_name @ '' on Mini-GPU requires non-empty input'')])) (\<lambda>_.
     with_output (new_tensor pt (scalar_or_keepdim_shape a keepdim) (at_dtype a)) (\<lambda>out.
     launch ids kernel_name [addr_arg pt a, addr_arg pt out, size_arg (numel a) ''reduction input size'']))"

definition run_mean_kernel ::
    "torch \<Rightarrow> kernel_ids \<Rightarrow> at_tensor \<Rightarrow> string \<Rightarrow> bool \<Rightarrow> ('d sys, exn, at_tensor) action" where
  "run_mean_kernel pt ids a op_name keepdim =
     andThen (requires (require_fp32_minigpu_contiguous pt a op_name
       @ [(\<not> numel a \<le> 0, op_name @ '' on Mini-GPU requires non-empty input'')])) (\<lambda>_.
     with_output (new_tensor pt (scalar_or_keepdim_shape a keepdim) (at_dtype a)) (\<lambda>out.
     andThen (of_sum (checked_u32 (numel a) ''mean input size'')) (\<lambda>count.
     launch ids ''mean.fp32'' [addr_arg pt a, addr_arg pt out, num count, flt (pt_quotient pt 1 count)])))"

definition sum_op :: "torch \<Rightarrow> kernel_ids \<Rightarrow> at_tensor \<Rightarrow> scalar_type option \<Rightarrow> ('d sys, exn, at_tensor) action" where
  "sum_op pt ids a dtype =
     andThen (requires [(dtype = None \<or> dtype = Some kFloat, ''aten::sum on Mini-GPU currently supports fp32 output only'')]) (\<lambda>_.
     run_global_reduction_kernel pt ids a ''sum.fp32'' ''aten::sum'' False)"

definition sum_dim ::
    "torch \<Rightarrow> kernel_ids \<Rightarrow> at_tensor \<Rightarrow> int list option \<Rightarrow> bool \<Rightarrow> scalar_type option \<Rightarrow> ('d sys, exn, at_tensor) action" where
  "sum_dim pt ids a dims keepdim dtype =
     andThen (requires
       [(dims_cover_all dims (dim a), ''aten::sum.dim_IntList on Mini-GPU currently supports all-dim reductions only''),
        (dtype = None \<or> dtype = Some kFloat, ''aten::sum.dim_IntList on Mini-GPU currently supports fp32 output only'')]) (\<lambda>_.
     run_global_reduction_kernel pt ids a ''sum.fp32'' ''aten::sum.dim_IntList'' keepdim)"

definition mean_op :: "torch \<Rightarrow> kernel_ids \<Rightarrow> at_tensor \<Rightarrow> scalar_type option \<Rightarrow> ('d sys, exn, at_tensor) action" where
  "mean_op pt ids a dtype =
     andThen (requires [(dtype = None \<or> dtype = Some kFloat, ''aten::mean on Mini-GPU currently supports fp32 output only'')]) (\<lambda>_.
     run_mean_kernel pt ids a ''aten::mean'' False)"

definition mean_dim ::
    "torch \<Rightarrow> kernel_ids \<Rightarrow> at_tensor \<Rightarrow> int list option \<Rightarrow> bool \<Rightarrow> scalar_type option \<Rightarrow> ('d sys, exn, at_tensor) action" where
  "mean_dim pt ids a dims keepdim dtype =
     andThen (requires
       [(dims_cover_all dims (dim a), ''aten::mean.dim on Mini-GPU currently supports all-dim reductions only''),
        (dtype = None \<or> dtype = Some kFloat, ''aten::mean.dim on Mini-GPU currently supports fp32 output only'')]) (\<lambda>_.
     run_mean_kernel pt ids a ''aten::mean.dim'' keepdim)"

definition amax_op :: "torch \<Rightarrow> kernel_ids \<Rightarrow> at_tensor \<Rightarrow> int list \<Rightarrow> bool \<Rightarrow> ('d sys, exn, at_tensor) action" where
  "amax_op pt ids a dims keepdim =
     andThen (requires [(dims_cover_list dims (dim a),
       ''aten::amax on Mini-GPU currently supports all-dim reductions only'')]) (\<lambda>_.
     run_global_reduction_kernel pt ids a ''amax.fp32'' ''aten::amax'' keepdim)"

definition amin_op :: "torch \<Rightarrow> kernel_ids \<Rightarrow> at_tensor \<Rightarrow> int list \<Rightarrow> bool \<Rightarrow> ('d sys, exn, at_tensor) action" where
  "amin_op pt ids a dims keepdim =
     andThen (requires [(dims_cover_list dims (dim a),
       ''aten::amin on Mini-GPU currently supports all-dim reductions only'')]) (\<lambda>_.
     run_global_reduction_kernel pt ids a ''amin.fp32'' ''aten::amin'' keepdim)"

definition argmax_op :: "torch \<Rightarrow> kernel_ids \<Rightarrow> at_tensor \<Rightarrow> int option \<Rightarrow> bool \<Rightarrow> ('d sys, exn, at_tensor) action" where
  "argmax_op pt ids a dims keepdim =
     andThen (requires ([(dims = None, ''aten::argmax on Mini-GPU currently supports dim=None only'')]
       @ require_fp32_minigpu_contiguous pt a ''aten::argmax'')) (\<lambda>_.
     with_output (new_tensor pt (scalar_or_keepdim_shape a keepdim) kInt) (\<lambda>out.
     launch ids ''argmax.fp32'' [addr_arg pt a, addr_arg pt out, size_arg (numel a) ''argmax input size'']))"

definition argmin_op :: "torch \<Rightarrow> kernel_ids \<Rightarrow> at_tensor \<Rightarrow> int option \<Rightarrow> bool \<Rightarrow> ('d sys, exn, at_tensor) action" where
  "argmin_op pt ids a dims keepdim =
     andThen (requires ([(dims = None, ''aten::argmin on Mini-GPU currently supports dim=None only'')]
       @ require_fp32_minigpu_contiguous pt a ''aten::argmin'')) (\<lambda>_.
     with_output (new_tensor pt (scalar_or_keepdim_shape a keepdim) kInt) (\<lambda>out.
     launch ids ''argmin.fp32'' [addr_arg pt a, addr_arg pt out, size_arg (numel a) ''argmin input size'']))"

section \<open>Softmax\<close>

text \<open>The number of rows: \<open>numel() / size(dim)\<close>, a division by zero when the last dimension is empty.\<close>

definition softmax_rows :: "at_tensor \<Rightarrow> nat \<Rightarrow> string \<Rightarrow> exn + u32" where
  "softmax_rows a d name =
     (case cdiv (numel a) (size_at a d) of
        None \<Rightarrow> Inl (Undefined ''integer division by zero'')
      | Some rows \<Rightarrow> checked_u32 rows name)"

definition softmax_impl :: "torch \<Rightarrow> kernel_ids \<Rightarrow> at_tensor \<Rightarrow> int \<Rightarrow> bool \<Rightarrow> ('d sys, exn, at_tensor) action" where
  "softmax_impl pt ids a d half_to_float =
     (let last = (if d < 0 then d + int (dim a) else d)
      in andThen (requires ([(\<not> half_to_float, ''aten::_softmax on Mini-GPU does not support half_to_float yet'')]
           @ require_fp32_minigpu_contiguous pt a ''aten::_softmax''
           @ [(dim a \<noteq> 0, ''aten::_softmax on Mini-GPU requires at least 1D input''),
              (last = int (dim a) - 1, ''aten::_softmax on Mini-GPU currently supports the last dimension only'')])) (\<lambda>_.
         with_output (empty_like pt a) (\<lambda>out.
         andThen (of_sum (checked_u32 (size_at a (nat last)) ''softmax cols'')) (\<lambda>cols.
         andThen (of_sum (softmax_rows a (nat last) ''softmax rows'')) (\<lambda>rows.
         launch ids ''softmax.fp32'' [addr_arg pt a, addr_arg pt out, num rows, num cols])))))"

definition softmax_op :: "torch \<Rightarrow> kernel_ids \<Rightarrow> at_tensor \<Rightarrow> int \<Rightarrow> scalar_type option \<Rightarrow> ('d sys, exn, at_tensor) action" where
  "softmax_op pt ids a d dtype =
     andThen (requires [(dtype = None \<or> dtype = Some kFloat, ''aten::softmax on Mini-GPU currently supports fp32 output only'')]) (\<lambda>_.
     softmax_impl pt ids a d False)"

section \<open>Pooling\<close>

text \<open>The launch both pooling operators share, behind their own checks.\<close>

definition pool_launch ::
    "torch \<Rightarrow> kernel_ids \<Rightarrow> string \<Rightarrow> at_tensor \<Rightarrow> u32 \<times> u32 \<Rightarrow> u32 \<times> u32 \<Rightarrow> ('d sys, exn, at_tensor) action" where
  "pool_launch pt ids op a window stride =
     andThen (of_sum (window_count (size_at a 2) 0 (fst window) (fst stride) (op @ '' output height''))) (\<lambda>out_h.
     andThen (of_sum (window_count (size_at a 3) 0 (snd window) (snd stride) (op @ '' output width''))) (\<lambda>out_w.
     with_output (new_tensor pt [size_at a 0, size_at a 1, uint out_h, uint out_w] (at_dtype a)) (\<lambda>out.
     launch ids (op @ ''.fp32'') [addr_arg pt a, addr_arg pt out,
       size_arg (numel out) (op @ '' output size''), size_arg (size_at a 1) (op @ '' channels''),
       size_arg (size_at a 2) (op @ '' input height''), size_arg (size_at a 3) (op @ '' input width''),
       num out_h, num out_w, num (fst stride), num (snd stride)])))"

definition max_pool2d_op ::
    "torch \<Rightarrow> kernel_ids \<Rightarrow> at_tensor \<Rightarrow> int list \<Rightarrow> int list \<Rightarrow> int list \<Rightarrow> int list \<Rightarrow> bool \<Rightarrow> ('d sys, exn, at_tensor) action" where
  "max_pool2d_op pt ids a kernel_size stride padding dilation ceil_mode =
     andThen (requires (require_fp32_minigpu_contiguous pt a ''aten::max_pool2d''
       @ [(dim a = 4, ''aten::max_pool2d on Mini-GPU requires NCHW input'')])) (\<lambda>_.
     andThen (of_sum (pair_u32_or kernel_size 0 0 ''max_pool2d kernel_size'')) (\<lambda>kernel.
     andThen (of_sum (pair_u32_or stride (fst kernel) (snd kernel) ''max_pool2d stride'')) (\<lambda>strides.
     andThen (of_sum (pair_u32_or padding 0 0 ''max_pool2d padding'')) (\<lambda>pads.
     andThen (of_sum (pair_u32_or dilation 1 1 ''max_pool2d dilation'')) (\<lambda>dilations.
     andThen (requires
       [(pads = (0, 0) \<and> dilations = (1, 1) \<and> \<not> ceil_mode,
         ''aten::max_pool2d on Mini-GPU currently requires padding=0 dilation=1 ceil_mode=False''),
        (kernel = (2, 2), ''aten::max_pool2d on Mini-GPU currently supports kernel_size=2 only'')]) (\<lambda>_.
     pool_launch pt ids ''max_pool2d'' a kernel strides))))))"

definition avg_pool2d_op ::
    "torch \<Rightarrow> kernel_ids \<Rightarrow> at_tensor \<Rightarrow> int list \<Rightarrow> int list \<Rightarrow> int list \<Rightarrow> bool \<Rightarrow> bool \<Rightarrow> int option \<Rightarrow> ('d sys, exn, at_tensor) action" where
  "avg_pool2d_op pt ids a kernel_size stride padding ceil_mode count_include_pad divisor_override =
     andThen (requires (require_fp32_minigpu_contiguous pt a ''aten::avg_pool2d''
       @ [(dim a = 4, ''aten::avg_pool2d on Mini-GPU requires NCHW input'')])) (\<lambda>_.
     andThen (of_sum (pair_u32_or kernel_size 0 0 ''avg_pool2d kernel_size'')) (\<lambda>kernel.
     andThen (of_sum (pair_u32_or stride (fst kernel) (snd kernel) ''avg_pool2d stride'')) (\<lambda>strides.
     andThen (of_sum (pair_u32_or padding 0 0 ''avg_pool2d padding'')) (\<lambda>pads.
     andThen (requires
       [(pads = (0, 0) \<and> \<not> ceil_mode \<and> count_include_pad \<and> divisor_override = None,
         ''aten::avg_pool2d on Mini-GPU currently requires padding=0 ceil_mode=False count_include_pad=True and no divisor_override''),
        (kernel = (2, 2), ''aten::avg_pool2d on Mini-GPU currently supports kernel_size=2 only'')]) (\<lambda>_.
     pool_launch pt ids ''avg_pool2d'' a kernel strides)))))"

definition adaptive_avg_pool2d_op :: "torch \<Rightarrow> kernel_ids \<Rightarrow> at_tensor \<Rightarrow> int list \<Rightarrow> ('d sys, exn, at_tensor) action" where
  "adaptive_avg_pool2d_op pt ids a output_size =
     andThen (requires (require_fp32_minigpu_contiguous pt a ''aten::adaptive_avg_pool2d''
       @ [(dim a = 4 \<and> length output_size = 2,
           ''aten::adaptive_avg_pool2d on Mini-GPU requires NCHW input and 2D output_size'')])) (\<lambda>_.
     andThen (of_sum (sym_array_u32 output_size 0 ''adaptive_avg_pool2d output height'')) (\<lambda>out_h.
     andThen (of_sum (sym_array_u32 output_size 1 ''adaptive_avg_pool2d output width'')) (\<lambda>out_w.
     andThen (requires [(size_at a 2 = uint out_h * 2 \<and> size_at a 3 = uint out_w * 2,
       ''aten::adaptive_avg_pool2d on Mini-GPU currently supports exact 2x downsampling only'')]) (\<lambda>_.
     with_output (new_tensor pt [size_at a 0, size_at a 1, uint out_h, uint out_w] (at_dtype a)) (\<lambda>out.
     launch ids ''adaptive_avg_pool2d.fp32'' [addr_arg pt a, addr_arg pt out,
       size_arg (numel out) ''adaptive_avg_pool2d output size'', size_arg (size_at a 1) ''adaptive_avg_pool2d channels'',
       size_arg (size_at a 2) ''adaptive_avg_pool2d input height'', size_arg (size_at a 3) ''adaptive_avg_pool2d input width'',
       num out_h, num out_w])))))"

end
