(* ===== verification/TorchGrad.thy ===== *)
theory TorchGrad
  imports TorchLayers
begin

text \<open>
  The losses and the backward operators of the PyTorch backend (the second part of
  \<open>torch_ext/src/ops/math.cpp\<close>). An operator with several results returns those its mask asks for; when
  a later one throws, the earlier ones are dropped.
\<close>

section \<open>Losses\<close>

definition mse_loss :: "torch \<Rightarrow> kernel_ids \<Rightarrow> at_tensor \<Rightarrow> at_tensor \<Rightarrow> ('d sys, exn, at_tensor) action" where
  "mse_loss pt ids input target =
     andThen (requires (require_fp32_minigpu_contiguous pt input ''minigpu::mse_loss input''
       @ require_fp32_minigpu_contiguous pt target ''minigpu::mse_loss target''
       @ [(at_sizes input = at_sizes target, ''minigpu::mse_loss requires matching shapes''),
          (\<not> numel input \<le> 0, ''minigpu::mse_loss requires non-empty input'')])) (\<lambda>_.
     andThen (of_sum (checked_u32 (numel input) ''mse_loss input size'')) (\<lambda>count.
     with_output (new_tensor pt [] (at_dtype input)) (\<lambda>out.
     launch ids ''mse_loss.fp32'' [addr_arg pt input, addr_arg pt target, addr_arg pt out, num count,
       flt (pt_quotient pt 1 count)])))"

definition l1_loss :: "torch \<Rightarrow> kernel_ids \<Rightarrow> at_tensor \<Rightarrow> at_tensor \<Rightarrow> ('d sys, exn, at_tensor) action" where
  "l1_loss pt ids input target =
     andThen (requires (require_fp32_minigpu_contiguous pt input ''minigpu::l1_loss input''
       @ require_fp32_minigpu_contiguous pt target ''minigpu::l1_loss target''
       @ [(at_sizes input = at_sizes target, ''minigpu::l1_loss requires matching shapes''),
          (\<not> numel input \<le> 0, ''minigpu::l1_loss requires non-empty input'')])) (\<lambda>_.
     andThen (of_sum (checked_u32 (numel input) ''l1_loss input size'')) (\<lambda>count.
     with_output (new_tensor pt [] (at_dtype input)) (\<lambda>out.
     launch ids ''l1_loss.fp32'' [addr_arg pt input, addr_arg pt target, addr_arg pt out, num count,
       flt (pt_quotient pt 1 count)])))"

definition l2_loss :: "torch \<Rightarrow> kernel_ids \<Rightarrow> at_tensor \<Rightarrow> at_tensor \<Rightarrow> ('d sys, exn, at_tensor) action" where
  "l2_loss pt ids input target =
     andThen (requires (require_fp32_minigpu_contiguous pt input ''minigpu::l2_loss input''
       @ require_fp32_minigpu_contiguous pt target ''minigpu::l2_loss target''
       @ [(at_sizes input = at_sizes target, ''minigpu::l2_loss requires matching shapes''),
          (\<not> numel input \<le> 0, ''minigpu::l2_loss requires non-empty input'')])) (\<lambda>_.
     with_output (new_tensor pt [] (at_dtype input)) (\<lambda>out.
     launch ids ''l2_loss.fp32'' [addr_arg pt input, addr_arg pt target, addr_arg pt out,
       size_arg (numel input) ''l2_loss input size'']))"

text \<open>The checks and the first kernel that the cross-entropy loss and its debugging variant share.\<close>

definition cross_entropy_checks :: "torch \<Rightarrow> string \<Rightarrow> at_tensor \<Rightarrow> at_tensor \<Rightarrow> (bool \<times> string) list" where
  "cross_entropy_checks pt op_name logits target =
     require_fp32_minigpu_contiguous pt logits (op_name @ '' logits'')
     @ require_minigpu_contiguous pt target (op_name @ '' target'')
     @ [(at_dtype target = kInt, op_name @ '' target must be int32 class indices''),
        (dim logits = 2, op_name @ '' logits must have shape [batch, classes]''),
        (dim target = 1 \<and> size_at target 0 = size_at logits 0, op_name @ '' target must have shape [batch]''),
        (\<not> (size_at logits 0 \<le> 0 \<or> size_at logits 1 \<le> 0), op_name @ '' requires non-empty logits'')]"

definition launch_cross_entropy_stats ::
    "torch \<Rightarrow> kernel_ids \<Rightarrow> at_tensor \<Rightarrow> at_tensor \<Rightarrow> at_tensor \<Rightarrow> u32 \<Rightarrow> u32 \<Rightarrow> ('d sys, exn, unit) action" where
  "launch_cross_entropy_stats pt ids logits target stats rows cols =
     launch ids ''cross_entropy_stats.fp32''
       [addr_arg pt logits, addr_arg pt target, addr_arg pt stats, num rows, num cols]"

definition cross_entropy_loss :: "torch \<Rightarrow> kernel_ids \<Rightarrow> at_tensor \<Rightarrow> at_tensor \<Rightarrow> ('d sys, exn, at_tensor) action" where
  "cross_entropy_loss pt ids logits target =
     andThen (requires (cross_entropy_checks pt ''minigpu::cross_entropy'' logits target)) (\<lambda>_.
     andThen (of_sum (checked_u32 (size_at logits 0) ''cross_entropy batch'')) (\<lambda>rows.
     andThen (of_sum (checked_u32 (size_at logits 1) ''cross_entropy classes'')) (\<lambda>cols.
     with_temporary (new_tensor pt [size_at logits 0, 3] (at_dtype logits)) (\<lambda>stats.
     with_output (new_tensor pt [] (at_dtype logits)) (\<lambda>out.
     andThen (launch_cross_entropy_stats pt ids logits target stats rows cols) (\<lambda>_.
     launch ids ''cross_entropy_finish.fp32''
       [addr_arg pt stats, addr_arg pt out, num rows, flt (pt_quotient pt 1 rows)]))))))"

definition cross_entropy_debug :: "torch \<Rightarrow> kernel_ids \<Rightarrow> at_tensor \<Rightarrow> at_tensor \<Rightarrow> ('d sys, exn, at_tensor) action" where
  "cross_entropy_debug pt ids logits target =
     andThen (requires (cross_entropy_checks pt ''minigpu::cross_entropy_debug'' logits target)) (\<lambda>_.
     andThen (of_sum (checked_u32 (size_at logits 0) ''cross_entropy_debug batch'')) (\<lambda>rows.
     andThen (of_sum (checked_u32 (size_at logits 1) ''cross_entropy_debug classes'')) (\<lambda>cols.
     with_temporary (new_tensor pt [size_at logits 0, 3] (at_dtype logits)) (\<lambda>stats.
     with_output (new_tensor pt [size_at logits 0, 5] (at_dtype logits)) (\<lambda>out.
     andThen (launch_cross_entropy_stats pt ids logits target stats rows cols) (\<lambda>_.
     launch ids ''cross_entropy_debug_finish.fp32'' [addr_arg pt stats, addr_arg pt out, num rows]))))))"

section \<open>Elementwise gradients\<close>

definition threshold_backward ::
    "torch \<Rightarrow> kernel_ids \<Rightarrow> at_tensor \<Rightarrow> at_tensor \<Rightarrow> at_scalar \<Rightarrow> ('d sys, exn, at_tensor) action" where
  "threshold_backward pt ids grad_output self threshold =
     andThen (requires (require_fp32_minigpu_contiguous pt grad_output ''aten::threshold_backward grad_output''
       @ require_fp32_minigpu_contiguous pt self ''aten::threshold_backward self''
       @ [(at_sizes grad_output = at_sizes self, ''aten::threshold_backward on Mini-GPU requires matching shapes'')])) (\<lambda>_.
     with_output (empty_like pt self) (\<lambda>out.
     launch ids ''relu_backward.fp32'' [addr_arg pt grad_output, addr_arg pt self, addr_arg pt out,
       flt (sc_float threshold), size_arg (numel self) ''threshold_backward size'']))"

definition sigmoid_backward :: "torch \<Rightarrow> kernel_ids \<Rightarrow> at_tensor \<Rightarrow> at_tensor \<Rightarrow> ('d sys, exn, at_tensor) action" where
  "sigmoid_backward pt ids grad_output output =
     andThen (requires (require_fp32_minigpu_contiguous pt grad_output ''aten::sigmoid_backward grad_output''
       @ require_fp32_minigpu_contiguous pt output ''aten::sigmoid_backward output''
       @ [(at_sizes grad_output = at_sizes output, ''aten::sigmoid_backward on Mini-GPU requires matching shapes'')])) (\<lambda>_.
     with_output (empty_like pt output) (\<lambda>out.
     launch ids ''sigmoid_backward.fp32'' [addr_arg pt grad_output, addr_arg pt output, addr_arg pt out,
       size_arg (numel output) ''sigmoid_backward size'']))"

definition tanh_backward :: "torch \<Rightarrow> kernel_ids \<Rightarrow> at_tensor \<Rightarrow> at_tensor \<Rightarrow> ('d sys, exn, at_tensor) action" where
  "tanh_backward pt ids grad_output output =
     andThen (requires (require_fp32_minigpu_contiguous pt grad_output ''aten::tanh_backward grad_output''
       @ require_fp32_minigpu_contiguous pt output ''aten::tanh_backward output''
       @ [(at_sizes grad_output = at_sizes output, ''aten::tanh_backward on Mini-GPU requires matching shapes'')])) (\<lambda>_.
     with_output (empty_like pt output) (\<lambda>out.
     launch ids ''tanh_backward.fp32'' [addr_arg pt grad_output, addr_arg pt output, addr_arg pt out,
       size_arg (numel output) ''tanh_backward size'']))"

section \<open>Loss gradients\<close>

definition loss_backward_checks :: "torch \<Rightarrow> string \<Rightarrow> at_tensor \<Rightarrow> at_tensor \<Rightarrow> at_tensor \<Rightarrow> (bool \<times> string) list" where
  "loss_backward_checks pt op_name grad_output input target =
     require_fp32_minigpu_contiguous pt grad_output (op_name @ '' grad_output'')
     @ require_fp32_minigpu_contiguous pt input (op_name @ '' input'')
     @ require_fp32_minigpu_contiguous pt target (op_name @ '' target'')
     @ [(numel grad_output = 1, op_name @ '' requires scalar grad_output''),
        (at_sizes input = at_sizes target, op_name @ '' requires matching shapes'')]"

definition mse_loss_backward ::
    "torch \<Rightarrow> kernel_ids \<Rightarrow> at_tensor \<Rightarrow> at_tensor \<Rightarrow> at_tensor \<Rightarrow> ('d sys, exn, at_tensor) action" where
  "mse_loss_backward pt ids grad_output input target =
     andThen (requires (loss_backward_checks pt ''minigpu::mse_loss_backward'' grad_output input target)) (\<lambda>_.
     andThen (of_sum (checked_u32 (numel input) ''mse_loss_backward input size'')) (\<lambda>count.
     with_output (empty_like pt input) (\<lambda>out.
     launch ids ''mse_loss_backward.fp32'' [addr_arg pt grad_output, addr_arg pt input, addr_arg pt target,
       addr_arg pt out, num count, flt (pt_quotient pt 2 count)])))"

definition l1_loss_backward ::
    "torch \<Rightarrow> kernel_ids \<Rightarrow> at_tensor \<Rightarrow> at_tensor \<Rightarrow> at_tensor \<Rightarrow> ('d sys, exn, at_tensor) action" where
  "l1_loss_backward pt ids grad_output input target =
     andThen (requires (loss_backward_checks pt ''minigpu::l1_loss_backward'' grad_output input target)) (\<lambda>_.
     andThen (of_sum (checked_u32 (numel input) ''l1_loss_backward input size'')) (\<lambda>count.
     with_output (empty_like pt input) (\<lambda>out.
     launch ids ''l1_loss_backward.fp32'' [addr_arg pt grad_output, addr_arg pt input, addr_arg pt target,
       addr_arg pt out, num count, flt (pt_quotient pt 1 count)])))"

definition l2_loss_backward ::
    "torch \<Rightarrow> kernel_ids \<Rightarrow> at_tensor \<Rightarrow> at_tensor \<Rightarrow> at_tensor \<Rightarrow> ('d sys, exn, at_tensor) action" where
  "l2_loss_backward pt ids grad_output input target =
     andThen (requires (loss_backward_checks pt ''minigpu::l2_loss_backward'' grad_output input target)) (\<lambda>_.
     with_output (empty_like pt input) (\<lambda>out.
     launch ids ''l2_loss_backward.fp32'' [addr_arg pt grad_output, addr_arg pt input, addr_arg pt target,
       addr_arg pt out, size_arg (numel input) ''l2_loss_backward input size'']))"

definition cross_entropy_loss_backward ::
    "torch \<Rightarrow> kernel_ids \<Rightarrow> at_tensor \<Rightarrow> at_tensor \<Rightarrow> at_tensor \<Rightarrow> ('d sys, exn, at_tensor) action" where
  "cross_entropy_loss_backward pt ids grad_output logits target =
     andThen (requires (require_fp32_minigpu_contiguous pt grad_output ''minigpu::cross_entropy_backward grad_output''
       @ require_fp32_minigpu_contiguous pt logits ''minigpu::cross_entropy_backward logits''
       @ require_minigpu_contiguous pt target ''minigpu::cross_entropy_backward target''
       @ [(at_dtype target = kInt, ''minigpu::cross_entropy_backward target must be int32 class indices''),
          (numel grad_output = 1, ''minigpu::cross_entropy_backward requires scalar grad_output''),
          (dim logits = 2, ''minigpu::cross_entropy_backward logits must have shape [batch, classes]''),
          (dim target = 1 \<and> size_at target 0 = size_at logits 0,
           ''minigpu::cross_entropy_backward target must have shape [batch]'')])) (\<lambda>_.
     andThen (of_sum (checked_u32 (size_at logits 0) ''cross_entropy_backward batch'')) (\<lambda>rows.
     andThen (of_sum (checked_u32 (size_at logits 1) ''cross_entropy_backward classes'')) (\<lambda>cols.
     with_output (empty_like pt logits) (\<lambda>out.
     launch ids ''cross_entropy_backward.fp32'' [addr_arg pt grad_output, addr_arg pt logits, addr_arg pt target,
       addr_arg pt out, num rows, num cols, flt (pt_quotient pt 1 rows)]))))"

definition softmax_backward_data ::
    "torch \<Rightarrow> kernel_ids \<Rightarrow> at_tensor \<Rightarrow> at_tensor \<Rightarrow> int \<Rightarrow> scalar_type \<Rightarrow> ('d sys, exn, at_tensor) action" where
  "softmax_backward_data pt ids grad_output output d input_dtype =
     (let last = (if d < 0 then d + int (dim output) else d)
      in andThen (requires ([(input_dtype = kFloat, ''aten::_softmax_backward_data on Mini-GPU currently supports fp32 only'')]
           @ require_fp32_minigpu_contiguous pt grad_output ''aten::_softmax_backward_data grad_output''
           @ require_fp32_minigpu_contiguous pt output ''aten::_softmax_backward_data output''
           @ [(at_sizes grad_output = at_sizes output, ''aten::_softmax_backward_data on Mini-GPU requires matching shapes''),
              (dim output \<noteq> 0, ''aten::_softmax_backward_data on Mini-GPU requires at least 1D input''),
              (last = int (dim output) - 1,
               ''aten::_softmax_backward_data on Mini-GPU currently supports the last dimension only'')])) (\<lambda>_.
         with_output (empty_like pt output) (\<lambda>out.
         andThen (of_sum (checked_u32 (size_at output (nat last)) ''softmax backward cols'')) (\<lambda>cols.
         andThen (of_sum (softmax_rows output (nat last) ''softmax backward rows'')) (\<lambda>rows.
         launch ids ''softmax_backward.fp32''
           [addr_arg pt grad_output, addr_arg pt output, addr_arg pt out, num rows, num cols])))))"

section \<open>Gradients of layers\<close>

text \<open>A result that the mask asks for, followed by the rest; when the rest throws it is dropped.\<close>

definition optional_output ::
    "bool \<Rightarrow> ('d sys, exn, at_tensor) action \<Rightarrow> (at_tensor option \<Rightarrow> ('d sys, exn, 'a) action) \<Rightarrow> ('d sys, exn, 'a) action" where
  "optional_output wanted create rest =
     (if \<not> wanted then rest None
      else andThen create (\<lambda>t s.
        case rest (Some t) s of
          (Inr r, s') \<Rightarrow> (Inr r, s')
        | (Inl e, s') \<Rightarrow> (Inl e, delete_minigpu_allocation (at_storage t) s')))"

type_synonym gradients = "at_tensor option \<times> at_tensor option \<times> at_tensor option"

definition linear_backward ::
    "torch \<Rightarrow> kernel_ids \<Rightarrow> at_tensor \<Rightarrow> at_tensor \<Rightarrow> at_tensor \<Rightarrow> bool \<times> bool \<times> bool \<Rightarrow> ('d sys, exn, gradients) action" where
  "linear_backward pt ids self grad_output weight output_mask =
     andThen (requires (require_fp32_minigpu_contiguous pt self ''aten::linear_backward self''
       @ require_fp32_minigpu_contiguous pt grad_output ''aten::linear_backward grad_output''
       @ require_fp32_minigpu_contiguous pt weight ''aten::linear_backward weight''
       @ [(dim weight = 2, ''aten::linear_backward on Mini-GPU requires a 2D weight tensor''),
          (dim self = 1 \<or> dim self = 2, ''aten::linear_backward on Mini-GPU currently supports 1D or 2D input'')])) (\<lambda>_.
     let input_was_1d = (dim self = 1)
     in andThen (of_sum (checked_u32 (if input_was_1d then 1 else size_at self 0) ''linear_backward batch'')) (\<lambda>batch.
     andThen (of_sum (checked_u32 (if input_was_1d then size_at self 0 else size_at self 1) ''linear_backward in_features'')) (\<lambda>in_features.
     andThen (of_sum (checked_u32 (size_at weight 0) ''linear_backward out_features'')) (\<lambda>out_features.
     andThen (requires
       [(size_at weight 1 = uint in_features, ''aten::linear_backward on Mini-GPU requires compatible input and weight''),
        (\<not> input_was_1d \<or> (dim grad_output = 1 \<and> size_at grad_output 0 = uint out_features),
         ''aten::linear_backward on Mini-GPU requires 1D grad_output shape [out_features]''),
        (input_was_1d \<or> (dim grad_output = 2 \<and> size_at grad_output 0 = uint batch \<and> size_at grad_output 1 = uint out_features),
         ''aten::linear_backward on Mini-GPU requires 2D grad_output shape [batch, out_features]'')]) (\<lambda>_.
     optional_output (fst output_mask) (with_output (empty_like pt self) (\<lambda>grad_input.
       launch ids ''linear_backward_input.fp32'' [addr_arg pt grad_output, addr_arg pt weight,
         addr_arg pt grad_input, num batch, num out_features, num in_features])) (\<lambda>grad_input.
     optional_output (fst (snd output_mask)) (with_output (empty_like pt weight) (\<lambda>grad_weight.
       launch ids ''linear_backward_weight.fp32'' [addr_arg pt self, addr_arg pt grad_output,
         addr_arg pt grad_weight, num batch, num out_features, num in_features])) (\<lambda>grad_weight.
     optional_output (snd (snd output_mask)) (with_output (new_tensor pt [uint out_features] (at_dtype grad_output)) (\<lambda>grad_bias.
       launch ids ''linear_backward_bias.fp32'' [addr_arg pt grad_output, addr_arg pt grad_bias,
         num batch, num out_features])) (\<lambda>grad_bias.
     ret (grad_input, grad_weight, grad_bias)))))))))"

definition convolution_backward_checks ::
    "torch \<Rightarrow> at_tensor \<Rightarrow> at_tensor \<Rightarrow> at_tensor \<Rightarrow> int list \<Rightarrow> bool \<Rightarrow> int list \<Rightarrow> int \<Rightarrow> (bool \<times> string) list" where
  "convolution_backward_checks pt input grad_output weight dilation transposed output_padding groups =
     require_fp32_minigpu_contiguous pt input ''aten::convolution_backward input''
     @ require_fp32_minigpu_contiguous pt grad_output ''aten::convolution_backward grad_output''
     @ require_fp32_minigpu_contiguous pt weight ''aten::convolution_backward weight''
     @ [(\<not> transposed, ''aten::convolution_backward on Mini-GPU does not support transposed convolution yet''),
        (groups = 1, ''aten::convolution_backward on Mini-GPU currently supports groups=1 only''),
        (dim input = 3 \<or> dim input = 4, ''aten::convolution_backward on Mini-GPU currently supports NCL and NCHW input''),
        (dim weight = dim input \<and> dim grad_output = dim input,
         ''aten::convolution_backward on Mini-GPU requires matching input/weight/grad ranks''),
        (int_array_all dilation 1, ''aten::convolution_backward on Mini-GPU currently supports dilation=1 only''),
        (int_array_all output_padding 0, ''aten::convolution_backward on Mini-GPU requires output_padding=0'')]"

text \<open>
  The three launches, of the one- and of the two-dimensional kernels. \<open>sizes\<close> holds the numbers behind
  the tensors' addresses.
\<close>

definition convolution_backward_launches ::
    "torch \<Rightarrow> kernel_ids \<Rightarrow> string \<Rightarrow> at_tensor \<Rightarrow> at_tensor \<Rightarrow> at_tensor \<Rightarrow> u32 \<Rightarrow> u32 list \<Rightarrow> u32 list
       \<Rightarrow> bool \<times> bool \<times> bool \<Rightarrow> ('d sys, exn, gradients) action" where
  "convolution_backward_launches pt ids conv input grad_output weight out_channels sizes bias_sizes output_mask =
     optional_output (fst output_mask) (with_output (empty_like pt input) (\<lambda>grad_input.
       launch ids (conv @ ''_backward_input.fp32'') ([addr_arg pt grad_output, addr_arg pt weight, addr_arg pt grad_input,
         size_arg (numel input) (conv @ '' backward input size'')] @ map num sizes))) (\<lambda>grad_input.
     optional_output (fst (snd output_mask)) (with_output (empty_like pt weight) (\<lambda>grad_weight.
       launch ids (conv @ ''_backward_weight.fp32'') ([addr_arg pt input, addr_arg pt grad_output, addr_arg pt grad_weight,
         size_arg (numel weight) (conv @ '' backward weight size'')] @ map num sizes))) (\<lambda>grad_weight.
     optional_output (snd (snd output_mask)) (with_output (new_tensor pt [uint out_channels] (at_dtype grad_output)) (\<lambda>grad_bias.
       launch ids (conv @ ''_backward_bias.fp32'') ([addr_arg pt grad_output, addr_arg pt grad_bias] @ map num bias_sizes))) (\<lambda>grad_bias.
     ret (grad_input, grad_weight, grad_bias))))"

definition convolution_backward ::
    "torch \<Rightarrow> kernel_ids \<Rightarrow> at_tensor \<Rightarrow> at_tensor \<Rightarrow> at_tensor \<Rightarrow> int list \<Rightarrow> int list \<Rightarrow> int list \<Rightarrow> bool
       \<Rightarrow> int list \<Rightarrow> int \<Rightarrow> bool \<times> bool \<times> bool \<Rightarrow> ('d sys, exn, gradients) action" where
  "convolution_backward pt ids input grad_output weight stride padding dilation transposed output_padding groups output_mask =
     andThen (requires (convolution_backward_checks pt input grad_output weight dilation transposed output_padding groups)) (\<lambda>_.
     andThen (of_sum (checked_u32 (size_at input 0) ''conv backward batch_size'')) (\<lambda>batch_size.
     andThen (of_sum (checked_u32 (size_at input 1) ''conv backward in_channels'')) (\<lambda>in_channels.
     andThen (of_sum (checked_u32 (size_at weight 0) ''conv backward out_channels'')) (\<lambda>out_channels.
     andThen (requires
       [(size_at weight 1 = uint in_channels, ''aten::convolution_backward on Mini-GPU requires matching input channels''),
        (size_at grad_output 0 = size_at input 0 \<and> size_at grad_output 1 = size_at weight 0,
         ''aten::convolution_backward on Mini-GPU requires compatible grad_output shape'')]) (\<lambda>_.
     if dim input = 3 then
       andThen (requires [(length stride = 1 \<and> length padding = 1 \<and> length dilation = 1 \<and> length output_padding = 1,
         ''aten::convolution_backward 1D expects one stride/padding/dilation value'')]) (\<lambda>_.
       andThen (of_sum (map_ok (\<lambda>(v, name). checked_u32 v (''conv backward '' @ name))
         [(size_at input 2, ''input_width''), (size_at grad_output 2, ''output_width''), (size_at weight 2, ''kernel_width''),
          (stride ! 0, ''stride''), (padding ! 0, ''padding'')])) (\<lambda>w.
       andThen (requires
         [(w ! 4 = 0, ''aten::convolution_backward 1D on Mini-GPU currently supports padding=0 only''),
          (w ! 3 \<noteq> 0, ''aten::convolution_backward 1D on Mini-GPU requires nonzero stride'')]) (\<lambda>_.
       convolution_backward_launches pt ids ''conv1d'' input grad_output weight out_channels
         ([batch_size, in_channels, out_channels] @ w) [batch_size, out_channels, w ! 1] output_mask)))
     else
       andThen (requires [(length stride = 2 \<and> length padding = 2 \<and> length dilation = 2 \<and> length output_padding = 2,
         ''aten::convolution_backward 2D expects two stride/padding/dilation values'')]) (\<lambda>_.
       andThen (of_sum (map_ok (\<lambda>(v, name). checked_u32 v (''conv backward '' @ name))
         [(size_at input 2, ''input_height''), (size_at input 3, ''input_width''),
          (size_at grad_output 2, ''output_height''), (size_at grad_output 3, ''output_width''),
          (size_at weight 2, ''kernel_height''), (size_at weight 3, ''kernel_width''),
          (stride ! 0, ''stride_h''), (stride ! 1, ''stride_w''), (padding ! 0, ''padding_h''), (padding ! 1, ''padding_w'')])) (\<lambda>w.
       andThen (requires
         [(w ! 8 = 0 \<and> w ! 9 = 0, ''aten::convolution_backward 2D on Mini-GPU currently supports padding=0 only''),
          (w ! 6 \<noteq> 0 \<and> w ! 7 \<noteq> 0, ''aten::convolution_backward 2D on Mini-GPU requires nonzero stride'')]) (\<lambda>_.
       convolution_backward_launches pt ids ''conv2d'' input grad_output weight out_channels
         ([batch_size, in_channels, out_channels] @ w) [batch_size, out_channels, w ! 2, w ! 3] output_mask))))))))"

end
