(* ===== verification/Keeps.thy ===== *)
theory Keeps
  imports ComLink
begin

text \<open>
  What actions leave alone. \<open>keeps P m\<close> says that a property \<open>P\<close> of the state survives the action \<open>m\<close>,
  whether it returns or throws. The functions of \<open>gpu_comm/src/com.c\<close> keep what the operating system's
  reads and writes keep.
\<close>

section \<open>Actions that keep a property\<close>

named_theorems keeps_intros \<open>actions that keep a property of the state\<close>

definition keeps :: "('s \<Rightarrow> bool) \<Rightarrow> ('s, 'e, 'a) action \<Rightarrow> bool" where
  "keeps P m \<longleftrightarrow> (\<forall>s. P s \<longrightarrow> P (snd (m s)))"

lemma keepsD: "keeps P m \<Longrightarrow> P s \<Longrightarrow> m s = (r, s') \<Longrightarrow> P s'"
  unfolding keeps_def by (metis snd_conv)

lemma keepsI: "(\<And>s r s'. P s \<Longrightarrow> m s = (r, s') \<Longrightarrow> P s') \<Longrightarrow> keeps P m"
  unfolding keeps_def by (metis prod.collapse)

lemma keeps_ret [keeps_intros]: "keeps P (ret x)"
  by (simp add: keeps_def)

lemma keeps_throw [keeps_intros]: "keeps P (throw e)"
  by (simp add: keeps_def)

lemma keeps_andThen [keeps_intros]: "keeps P m \<Longrightarrow> (\<And>x. keeps P (f x)) \<Longrightarrow> keeps P (andThen m f)"
  unfolding keeps_def by (intro allI impI andThen_preserves [where P = P]) (auto dest: spec)

lemma keeps_if [keeps_intros]: "(b \<Longrightarrow> keeps P m) \<Longrightarrow> (\<not> b \<Longrightarrow> keeps P m') \<Longrightarrow> keeps P (if b then m else m')"
  by simp

lemma keeps_case_sum [keeps_intros]:
  "(\<And>e. r = Inl e \<Longrightarrow> keeps P (f e)) \<Longrightarrow> (\<And>x. r = Inr x \<Longrightarrow> keeps P (g x)) \<Longrightarrow> keeps P (case r of Inl e \<Rightarrow> f e | Inr x \<Rightarrow> g x)"
  by (cases r) simp_all

lemma keeps_case_option [keeps_intros]:
  "(r = None \<Longrightarrow> keeps P m) \<Longrightarrow> (\<And>x. r = Some x \<Longrightarrow> keeps P (g x)) \<Longrightarrow> keeps P (case r of None \<Rightarrow> m | Some x \<Rightarrow> g x)"
  by (cases r) simp_all

lemma keeps_case_prod [keeps_intros]: "(\<And>x y. keeps P (f x y)) \<Longrightarrow> keeps P (case p of (x, y) \<Rightarrow> f x y)"
  by (cases p) simp

lemma keeps_let [keeps_intros]: "(\<And>y. y = x \<Longrightarrow> keeps P (f y)) \<Longrightarrow> keeps P (let y = x in f y)"
  by simp

lemma keeps_unless_throw [keeps_intros]: "keeps P (unless_throw ok e)"
  by (simp add: keeps_def)

lemma keeps_check [keeps_intros]: "keeps P (check st)"
  by (simp add: keeps_def)

lemma keeps_of_sum [keeps_intros]: "keeps P (of_sum r)"
  by (simp add: keeps_def)

lemma keeps_on_ok [keeps_intros]: "keeps P m \<Longrightarrow> (\<And>x. keeps P (f x)) \<Longrightarrow> keeps P (on_ok m f)"
  unfolding on_ok_def by (intro keeps_intros)

lemma keeps_fail_unless [keeps_intros]: "keeps P (fail_unless ok e)"
  unfolding fail_unless_def by (rule keeps_ret)

lemma keeps_retry [keeps_intros]: "keeps P m \<Longrightarrow> keeps P (retry n m e)"
  by (induction n m e rule: retry.induct) (simp_all add: keeps_ret, intro keeps_intros)

lemma keeps_parse_received [keeps_intros]: "keeps P (parse_received buf)"
  unfolding parse_received_def by (intro keeps_intros)

section \<open>The link\<close>

text \<open>Reading from and writing to a port keep a property of the world.\<close>

definition io_keeps :: "('w \<Rightarrow> bool) \<Rightarrow> 'w os \<Rightarrow> bool" where
  "io_keeps P os \<longleftrightarrow> (\<forall>fd bs w. P w \<longrightarrow> P (snd (os_write os fd bs w)))
     \<and> (\<forall>fd n w. P w \<longrightarrow> P (snd (os_read os fd n w)))"

lemma io_keepsD:
  assumes "io_keeps P os" and "P w"
  shows "os_write os fd bs w = (n, w1) \<Longrightarrow> P w1" and "os_read os fd k w = (got, w2) \<Longrightarrow> P w2"
  using assms unfolding io_keeps_def by (metis snd_conv)+

lemma keeps_send [keeps_intros]: "io_keeps P os \<Longrightarrow> keeps P (com_send_raw os dev buf)"
  by (rule keepsI) (auto simp: com_send_raw_def dest: io_keepsD(1) split: option.splits prod.splits)

lemma keeps_recv_loop [keeps_intros]:
  assumes "io_keeps P os"
  shows "keeps P (recv_loop os fd n acc)"
proof -
  have "P w \<Longrightarrow> P (snd (recv_loop os fd n acc w))" for w
    using assms
  proof (induction os fd n acc w rule: recv_loop.induct)
    case (1 os fd n acc w)
    then show ?case
      by (subst recv_loop.simps) (auto dest: io_keepsD(2) split: prod.splits sum.splits)
  qed
  then show ?thesis by (simp add: keeps_def)
qed

lemma keeps_recv [keeps_intros]: "io_keeps P os \<Longrightarrow> keeps P (com_recv_raw os dev n)"
  using keeps_recv_loop [of P os] by (auto simp: com_recv_raw_def keeps_def split: option.splits)

lemma keeps_attempts [keeps_intros]:
  assumes "io_keeps P os"
  shows "keeps P (com_send_ack os dev addr)" "keeps P (nak_with os dev addr e)"
    "keeps P m \<Longrightarrow> (\<And>x. keeps P (f x)) \<Longrightarrow> keeps P (or_nak os dev addr m f)"
    "keeps P (write_attempt os dev packet addr)" "keeps P (write_chunk os dev addr chunk)"
  unfolding com_send_ack_def or_nak_def nak_with_def com_send_nak_def write_attempt_def write_chunk_def Let_def
  by (intro keeps_intros assms; assumption)+

lemma keeps_read_chunk [keeps_intros]: "io_keeps P os \<Longrightarrow> keeps P (read_chunk os dev addr n)"
  unfolding read_chunk_def read_attempt_def by (intro keeps_intros)

lemma keeps_write_loop [keeps_intros]:
  assumes "io_keeps P os"
  shows "keeps P (write_loop os dev addr offset rest)"
  using assms
proof (induction os dev addr offset rest rule: write_loop.induct)
  case (1 os dev addr offset rest)
  show ?case by (subst write_loop.simps) (intro keeps_intros 1)
qed

lemma keeps_read_loop [keeps_intros]:
  assumes "io_keeps P os"
  shows "keeps P (read_loop os dev addr out todo)"
  using assms
proof (induction os dev addr out todo rule: read_loop.induct)
  case (1 os dev addr out todo)
  show ?case by (subst read_loop.simps) (intro keeps_intros 1)
qed

lemma keeps_transfers [keeps_intros]:
  assumes "io_keeps P os"
  shows "keeps P (com_write_data os dev addr data n)" "keeps P (com_read_data os dev addr out_buf n)"
  unfolding com_write_data_def com_read_data_def by (intro keeps_intros assms)+

end
