(* ===== verification/Frames.thy ===== *)
theory Frames
  imports Launch GpuComm Keeps
begin

text \<open>
  What the host runtime leaves alone. The callbacks of the serial transport keep whatever the calls of the
  operating system keep, and the operations of the context (\<open>runtime/src/minigpu_runtime.cpp\<close>) do nothing to the
  device but through the callbacks of their transport, which they never replace.
\<close>

section \<open>The serial transport\<close>

text \<open>All the calls of the operating system keep a property of the world.\<close>

definition os_keeps :: "('w \<Rightarrow> bool) \<Rightarrow> 'w os \<Rightarrow> bool" where
  "os_keeps P os \<longleftrightarrow> io_keeps P os
     \<and> (\<forall>w. P w \<longrightarrow> P (snd (os_now os w))) \<and> (\<forall>ms w. P w \<longrightarrow> P (os_sleep_ms os ms w))"

lemma os_keepsD:
  assumes "os_keeps P os"
  shows "io_keeps P os" and "P w \<Longrightarrow> os_now os w = (now, w3) \<Longrightarrow> P w3" and "P w \<Longrightarrow> P (os_sleep_ms os ms w)"
  using assms unfolding os_keeps_def by (simp, metis snd_conv, simp)

lemma keeps_com_status [keeps_intros]: "keeps P m \<Longrightarrow> keeps P (com_status m)"
  unfolding com_status_def by (intro keeps_intros)

lemma keeps_status_of [keeps_intros]: "keeps P m \<Longrightarrow> keeps P (status_of m)"
  unfolding status_of_def by (intro keeps_intros)

lemma keeps_packet_words [keeps_intros]: "keeps P (packet_words src sz)"
  unfolding packet_words_def by (intro keeps_intros)

lemma keeps_fill_destination [keeps_intros]: "keeps P m \<Longrightarrow> keeps P (fill_destination dst m)"
  unfolding fill_destination_def by (intro keeps_intros)

lemma keeps_packets [keeps_intros]:
  assumes "io_keeps P os"
  shows "keeps P (expect_ack os dev addr)" "keeps P (send_ack os dev addr)" "keeps P (send_packet os dev cmd addr payload n)"
    "keeps P (read_packet os dev cmd addr payload n)"
  unfolding expect_ack_def send_ack_def send_packet_def read_packet_def read_packet_attempt_def
  by (intro keeps_intros assms)+

lemma keeps_write_chunks [keeps_intros]:
  assumes "io_keeps P os"
  shows "keeps P (write_chunks os dev cmd dst_addr unit_bytes offset rest)"
  using assms
proof (induction os dev cmd dst_addr unit_bytes offset rest rule: write_chunks.induct)
  case (1 os dev cmd dst_addr unit_bytes offset rest)
  show ?case
    by (subst write_chunks.simps) (intro keeps_intros 1)
qed

lemma keeps_read_chunks [keeps_intros]:
  assumes "io_keeps P os"
  shows "keeps P (read_chunks os dev cmd src_addr unit_bytes out todo)"
  using assms
proof (induction os dev cmd src_addr unit_bytes out todo rule: read_chunks.induct)
  case (1 os dev cmd src_addr unit_bytes out todo)
  show ?case
    by (subst read_chunks.simps) (intro keeps_intros 1)
qed

lemma keeps_commands [keeps_intros]:
  assumes "io_keeps P os"
  shows "keeps P (write_chunked_command os dev cmd dst_addr src n unit_bytes)"
    "keeps P (read_chunked_command os dev cmd src_addr dst n unit_bytes)"
    "keeps P (gpu_validate_kernel os dev kernel_id)" "keeps P (gpu_comm_launch os dev base_pc grid_dim block_dim active_mask)"
    "keeps P (gpu_comm_read_status os dev)"
  unfolding write_chunked_command_def read_chunked_command_def gpu_validate_kernel_def gpu_comm_launch_def
    gpu_comm_read_status_def Let_def
  by (intro keeps_intros assms)+

lemma keeps_writes [keeps_intros]:
  assumes "io_keeps P os"
  shows "keeps P (gpu_comm_write_data os dev dst_addr src n)" "keeps P (gpu_comm_write_program os dev dst_addr src n)"
    "keeps P (gpu_comm_write_constants os dev config dst_addr src n)"
  unfolding gpu_comm_write_data_def gpu_comm_write_program_def gpu_comm_write_constants_def
  by (intro keeps_intros assms)+

text \<open>The wait loop keeps the property however long it polls.\<close>

lemma wait_loop_keeps:
  assumes "wait_loop os dev config timeout_ms start w = Some res" and "os_keeps P os" and "P w"
  shows "P (snd res)"
proof -
  have "os_keeps P os \<longrightarrow> P w \<longrightarrow> P (snd res)"
  proof (rule wait_loop.raw_induct [where P = "\<lambda>os dev config timeout_ms start w res. os_keeps P os \<longrightarrow> P w \<longrightarrow> P (snd res)",
      OF _ assms(1)], intro impI)
    fix loop os dev config timeout_ms start w and res :: "(exn + status) \<times> 'a"
    assume IH: "\<And>os dev config timeout_ms start w res. loop os dev config timeout_ms start w = Some res \<Longrightarrow>
        os_keeps P os \<longrightarrow> P w \<longrightarrow> P (snd res)"
      and run: "(case gpu_comm_read_status os dev w of
        (Inl e, w1) \<Rightarrow> Some (Inl e, w1)
      | (Inr (Inl status), w1) \<Rightarrow> Some (Inr status, w1)
      | (Inr (Inr status_word), w1) \<Rightarrow>
          (case status_fault config status_word of
             Some e \<Rightarrow> Some (Inl e, w1)
           | None \<Rightarrow>
               if status_word AND tc_status_done_mask config \<noteq> 0 then Some (Inr Ok, w1)
               else if timeout_ms \<noteq> 0 then
                 (let (now, w2) = os_now os w1
                  in if now - start \<ge> int (unat timeout_ms) * 1000000 then Some (Inr Timeout, w2)
                     else loop os dev config timeout_ms start (os_sleep_ms os 1 w2))
               else loop os dev config timeout_ms start (os_sleep_ms os 1 w1))) = Some res"
      and os: "os_keeps P os" and w: "P w"
    obtain q w1 where q: "gpu_comm_read_status os dev w = (q, w1)" by force
    have w1: "P w1" using keepsD [OF keeps_commands(5) [OF os_keepsD(1) [OF os]] w q] .
    obtain now w2 where now: "os_now os w1 = (now, w2)" by force
    have w2: "P w2" using os_keepsD(2) [OF os w1 now] .
    show "P (snd res)"
      using run q now w1 w2 IH os os_keepsD(3) [OF os w1, of 1] os_keepsD(3) [OF os w2, of 1]
      by (auto simp: Let_def split: sum.splits option.splits if_splits)
  qed
  then show ?thesis using assms(2,3) by blast
qed

lemma keeps_wait [keeps_intros]:
  assumes "os_keeps P os"
  shows "keeps P (gpu_comm_wait os dev config timeout_ms)"
proof (rule keepsI)
  fix w r w' assume w: "P w" and run: "gpu_comm_wait os dev config timeout_ms w = (r, w')"
  obtain start w1 where now: "os_now os w = (start, w1)" by force
  show "P w'"
    using run now os_keepsD(2) [OF assms w now] wait_loop_keeps [OF _ assms, of dev config timeout_ms start w1]
    by (cases "wait_loop os dev config timeout_ms start w1") (auto simp: gpu_comm_wait_def)
qed

section \<open>Transports\<close>

definition transport_keeps :: "('d \<Rightarrow> bool) \<Rightarrow> 'd transport \<Rightarrow> bool" where
  "transport_keeps P tr \<longleftrightarrow>
     (\<forall>f \<in> set_option (tr_write_data tr). \<forall>a p n. keeps P (f a p n))
     \<and> (\<forall>f \<in> set_option (tr_read_data tr). \<forall>a p n. keeps P (f a p n))
     \<and> (\<forall>f \<in> set_option (tr_write_program tr). \<forall>a p n. keeps P (f a p n))
     \<and> (\<forall>f \<in> set_option (tr_validate_kernel tr). \<forall>k. keeps P (f k))
     \<and> (\<forall>f \<in> set_option (tr_write_constants tr). \<forall>a p n. keeps P (f a p n))
     \<and> (\<forall>f \<in> set_option (tr_launch tr). \<forall>pc g b m. keeps P (f pc g b m))
     \<and> (\<forall>f \<in> set_option (tr_wait tr). \<forall>t. keeps P (f t))"

text \<open>The callbacks of the serial transport keep what the operating system keeps.\<close>

lemma serial_transport_keeps: "os_keeps P os \<Longrightarrow> transport_keeps P (make_gpu_comm_transport os dev config)"
  unfolding transport_keeps_def make_gpu_comm_transport_def
  using os_keepsD(1) [of P os] by (simp add: keeps_intros)

section \<open>Confined actions\<close>

text \<open>
  An action on the context is confined when it keeps the context's transport and touches the device only
  through it: every property of the device that the callbacks keep survives.
\<close>

definition linked :: "'d transport \<Rightarrow> ('d \<Rightarrow> bool) \<Rightarrow> 'd sys \<Rightarrow> bool" where
  "linked tr P s \<longleftrightarrow> ctx_transport (fst s) = tr \<and> P (snd s)"

definition confined :: "('d sys, exn, 'a) action \<Rightarrow> bool" where
  "confined m \<longleftrightarrow> (\<forall>tr P. transport_keeps P tr \<longrightarrow> keeps (linked tr P) m)"

named_theorems confined_intros \<open>confined actions\<close>

lemma confinedI: "(\<And>tr P. transport_keeps P tr \<Longrightarrow> keeps (linked tr P) m) \<Longrightarrow> confined m"
  unfolding confined_def by blast

lemma confinedD: "confined m \<Longrightarrow> transport_keeps P tr \<Longrightarrow> linked tr P s \<Longrightarrow> m s = (r, s') \<Longrightarrow> linked tr P s'"
  unfolding confined_def by (blast dest: keepsD)

lemma confined_basic [confined_intros]:
  "confined (ret x)" "confined (throw e)" "confined (of_sum r)" "confined (check st)" "confined (unless_throw ok e)"
  by (intro confinedI keeps_intros)+

lemma confined_andThen [confined_intros]: "confined m \<Longrightarrow> (\<And>x. confined (f x)) \<Longrightarrow> confined (andThen m f)"
  unfolding confined_def by (blast intro: keeps_andThen)

lemma confined_if [confined_intros]: "confined m \<Longrightarrow> confined m' \<Longrightarrow> confined (if b then m else m')"
  by simp

text \<open>An action that changes only the context, and not its transport.\<close>

lemma confined_context:
  assumes "\<And>s r s'. m s = (r, s') \<Longrightarrow> ctx_transport (fst s') = ctx_transport (fst s) \<and> snd s' = snd s"
  shows "confined m"
  by (intro confinedI keepsI) (use assms in \<open>fastforce simp: linked_def\<close>)

lemma confined_on_context:
  "(\<And>c. ctx_transport (snd (m c)) = ctx_transport c) \<Longrightarrow> confined (on_context m)"
  by (rule confined_context) (auto simp: on_context_def split: prod.splits dest: sndI)

lemma confined_log_line [confined_intros]: "confined (log_line e)"
  by (rule confined_context) (auto simp: log_line_def split: prod.splits)

text \<open>The requests through the callbacks.\<close>

lemma transport_keepsD:
  assumes "transport_keeps P tr"
  shows "tr_write_data tr = Some f1 \<Longrightarrow> keeps P (f1 a p n)" and "tr_read_data tr = Some f2 \<Longrightarrow> keeps P (f2 a p n)"
    and "tr_write_program tr = Some f3 \<Longrightarrow> keeps P (f3 a p n)" and "tr_validate_kernel tr = Some f4 \<Longrightarrow> keeps P (f4 k)"
    and "tr_write_constants tr = Some f5 \<Longrightarrow> keeps P (f5 a p n)" and "tr_launch tr = Some f6 \<Longrightarrow> keeps P (f6 pc g b m)"
    and "tr_wait tr = Some f7 \<Longrightarrow> keeps P (f7 t)"
  using assms unfolding transport_keeps_def by simp_all

lemma keeps_callback:
  assumes "linked tr P (c, d)" and "keeps P m" and "m d = (r, d')" and "ctx_transport c' = ctx_transport c"
  shows "linked tr P (c', d')"
  using assms keepsD [OF assms(2)] by (auto simp: linked_def)

lemma confined_copies [confined_intros]: "confined (copy_to_device a src n)" "confined (copy_from_device dst a n)"
proof -
  show "confined (copy_to_device a src n)"
    by (intro confinedI keepsI, unfold copy_to_device_def)
      (auto simp: linked_def Let_def dest: transport_keepsD(1) keepsD split: if_splits option.splits prod.splits sum.splits)
  show "confined (copy_from_device dst a n)"
    by (intro confinedI keepsI, unfold copy_from_device_def)
      (auto simp: linked_def Let_def dest: transport_keepsD(2) keepsD split: if_splits option.splits prod.splits sum.splits)
qed

lemma confined_program [confined_intros]:
  "confined (write_program a p n)" "confined (write_constants a p n)" "confined (validate_loaded k)"
proof -
  show "confined (write_program a p n)"
    by (intro confinedI keepsI, unfold write_program_def)
      (auto simp: linked_def Let_def dest: transport_keepsD(3) keepsD split: if_splits option.splits prod.splits sum.splits)
  show "confined (write_constants a p n)"
    by (intro confinedI keepsI, unfold write_constants_def)
      (auto simp: linked_def Let_def dest: transport_keepsD(5) keepsD split: if_splits option.splits prod.splits sum.splits)
  show "confined (validate_loaded k)"
    by (intro confinedI keepsI, unfold validate_loaded_def)
      (auto simp: linked_def Let_def dest: transport_keepsD(4) keepsD split: if_splits option.splits prod.splits sum.splits)
qed

lemma confined_start [confined_intros]: "confined (start_kernel k)"
  by (intro confinedI keepsI, unfold start_kernel_def)
    (auto simp: linked_def Let_def dest: transport_keepsD(6) keepsD split: if_splits option.splits prod.splits sum.splits)

lemma confined_wait [confined_intros]: "confined (wait_kernel t)"
proof (intro confinedI keepsI)
  fix tr P s r s' assume tk: "transport_keeps P tr" and s: "linked tr P s" and run: "wait_kernel t s = (r, s')"
  show "linked tr P s'"
  proof (cases "tr_wait (ctx_transport (fst s))")
    case None
    then show ?thesis using run s by (simp add: wait_kernel_def)
  next
    case (Some wait)
    obtain q d where q: "wait t (snd s) = (q, d)" by force
    have kept: "keeps P (wait t)" using transport_keepsD(7) [OF tk] Some s by (simp add: linked_def)
    have step: "linked tr P (log_event ''wait begin'' (fst s), d)"
      by (rule keeps_callback [where c = "fst s" and d = "snd s", OF _ kept q]) (use s in simp_all)
    have "confined (andThen (check st) (\<lambda>_. log_line ''wait done''))" for st by (intro confined_intros)
    from confinedD [OF this tk step] show ?thesis
      using run step Some q by (cases q) (auto simp: wait_kernel_def)
  qed
qed

lemma confined_launch_desc [confined_intros]: "confined (launch_desc k)"
  unfolding launch_desc_def by (intro confined_intros)

lemma confined_ensure_program_loaded [confined_intros]: "confined (ensure_program_loaded pk kid)"
proof (intro confinedI keepsI)
  fix tr P s r s' assume tk: "transport_keeps P tr" and s: "linked tr P s"
    and run: "ensure_program_loaded pk kid s = (r, s')"
  have insert: "confined (modify (\<lambda>(c, d). (cache_insert name addr sz c, d)))" for name addr sz
    by (rule confined_context) (auto simp: cache_insert_def split: prod.splits)
  have "confined (andThen (on_context (allocate_program_slot name sz)) (\<lambda>addr.
      andThen (write_program addr program sz) (\<lambda>_. andThen (validate_loaded kid) (\<lambda>_.
      andThen (modify (\<lambda>(c, d). (cache_insert name addr sz c, d))) (\<lambda>_. ret addr)))))" for name sz program
    by (intro confined_intros insert confined_on_context allocate_slot_transport)
  from confinedD [OF this tk s] show "linked tr P s'"
    using run s by (auto simp: ensure_program_loaded_def linked_def Let_def split: prod.splits option.splits if_splits)
qed

lemma confined_launch_kernel [confined_intros]: "confined (launch_kernel ids name args config)"
proof (intro confinedI keepsI)
  fix tr P s r s' assume tk: "transport_keeps P tr" and s: "linked tr P s"
    and run: "launch_kernel ids name args config s = (r, s')"
  have "confined (andThen (ensure_program_loaded pk kid) (\<lambda>a.
      andThen (log_line (launch_log name args)) (\<lambda>_. launch_desc (k a))))" for pk kid k
    by (intro confined_intros)
  from confinedD [OF this tk s] show "linked tr P s'"
    using run s by (auto simp: launch_kernel_def Let_def split: option.splits)
qed

end
