(* ===== verification/TorchMemory.thy ===== *)
theory TorchMemory
  imports TorchGrad Frames
begin

text \<open>
  Who owns device memory in the PyTorch backend. An action is \<open>neat\<close> when it leaves exactly the memory
  of the tensors it returns: what was live before stays live, a new live range is owned by one returned
  tensor, and an action that throws leaves nothing behind; and it touches the device only through the
  context's transport (it is \<open>confined\<close>). The combinators of the operators keep this.
\<close>

named_theorems neat_intros \<open>actions that keep the ownership of device memory\<close>

definition held :: "'d sys \<Rightarrow> (nat \<times> nat) set" where
  "held s = live (ctx_blocks (fst s))"

definition sys_ok :: "'d sys \<Rightarrow> bool" where
  "sys_ok s \<longleftrightarrow> mem_ok (fst s) \<and> prog_ok (fst s)
     \<and> ctx_default_alignment (fst s) \<noteq> 0 \<and> unat (ctx_default_alignment (fst s)) < 2 ^ 32"

definition owns :: "at_tensor \<Rightarrow> nat \<times> nat \<Rightarrow> bool" where
  "owns t r \<longleftrightarrow> (\<exists>a. at_storage t = opaque a \<and> fst r = unat a)"

text \<open>\<open>rs\<close> are the new ranges, one for each returned tensor with a storage.\<close>

definition adds :: "at_tensor list \<Rightarrow> (nat \<times> nat) set \<Rightarrow> (nat \<times> nat) set \<Rightarrow> bool" where
  "adds ts before after \<longleftrightarrow> (\<exists>rs.
     list_all2 owns (filter (\<lambda>t. at_storage t \<noteq> 0) ts) rs \<and> distinct (map fst rs)
     \<and> fst ` set rs \<inter> fst ` before = {} \<and> after = before \<union> set rs)"

definition neat :: "('a \<Rightarrow> at_tensor list) \<Rightarrow> ('d sys, exn, 'a) action \<Rightarrow> bool" where
  "neat tensors m \<longleftrightarrow> confined m \<and> (\<forall>s r s'. sys_ok s \<longrightarrow> m s = (r, s') \<longrightarrow>
     sys_ok s' \<and> adds (case r of Inl _ \<Rightarrow> [] | Inr x \<Rightarrow> tensors x) (held s) (held s'))"

abbreviation nothing :: "'a \<Rightarrow> at_tensor list" where
  "nothing \<equiv> (\<lambda>_. [])"

abbreviation result :: "at_tensor \<Rightarrow> at_tensor list" where
  "result \<equiv> (\<lambda>t. [t])"

lemma neatI:
  assumes "confined m" and "\<And>s r s'. sys_ok s \<Longrightarrow> m s = (r, s') \<Longrightarrow>
     sys_ok s' \<and> adds (case r of Inl _ \<Rightarrow> [] | Inr x \<Rightarrow> tensors x) (held s) (held s')"
  shows "neat tensors m"
  using assms by (simp add: neat_def)

lemma neatD:
  assumes "neat tensors m" and "sys_ok s" and "m s = (r, s')"
  shows "sys_ok s'" and "adds (case r of Inl _ \<Rightarrow> [] | Inr x \<Rightarrow> tensors x) (held s) (held s')"
  using assms unfolding neat_def by blast+

lemma neat_confined: "neat tensors m \<Longrightarrow> confined m"
  unfolding neat_def by blast

lemma adds_nothing [simp]: "adds [] before after \<longleftrightarrow> after = before"
  by (auto simp: adds_def)

lemma adds_one:
  "adds [t] before after \<longleftrightarrow>
     (if at_storage t = 0 then after = before
      else \<exists>r. owns t r \<and> fst r \<notin> fst ` before \<and> after = insert r before)"
proof (cases "at_storage t = 0")
  case False
  then have "adds [t] before after \<longleftrightarrow>
      (\<exists>rs. (\<exists>r. owns t r \<and> rs = [r]) \<and> distinct (map fst rs)
         \<and> fst ` set rs \<inter> fst ` before = {} \<and> after = before \<union> set rs)"
    by (auto simp: adds_def list_all2_Cons1)
  also have "\<dots> \<longleftrightarrow> (\<exists>r. owns t r \<and> fst r \<notin> fst ` before \<and> after = insert r before)"
  proof -
    have "(\<exists>rs. (\<exists>r. owns t r \<and> rs = [r]) \<and> Q rs) \<longleftrightarrow> (\<exists>r. owns t r \<and> Q [r])" for Q :: "(nat \<times> nat) list \<Rightarrow> bool"
      by blast
    then show ?thesis by simp
  qed
  finally show ?thesis using False by simp
qed (auto simp: adds_def)

lemma adds_append:
  assumes "adds ts x y" and "adds us y z"
  shows "adds (ts @ us) x z"
proof -
  obtain rs qs where "list_all2 owns (filter (\<lambda>t. at_storage t \<noteq> 0) ts) rs" "distinct (map fst rs)"
      "fst ` set rs \<inter> fst ` x = {}" "y = x \<union> set rs"
    and "list_all2 owns (filter (\<lambda>t. at_storage t \<noteq> 0) us) qs" "distinct (map fst qs)"
      "fst ` set qs \<inter> fst ` y = {}" "z = y \<union> set qs"
    using assms by (auto simp: adds_def)
  then show ?thesis
    unfolding adds_def by (intro exI [of _ "rs @ qs"]) (auto simp: list_all2_appendI image_Un)
qed

lemma opaque_nonzero [simp]: "opaque a \<noteq> 0"
proof
  assume "opaque a = 0"
  then have "unat (widen a + 1) = 0" by (simp add: opaque_def)
  moreover have "unat (widen a + 1) = unat a + 1"
    using unat_u32_lt [of a] by (subst unat_add_small) simp_all
  ultimately show False by simp
qed

lemma decode_opaque [simp]: "decode (opaque a) = Inr a"
proof -
  have "narrow (widen a) = a" by (simp add: word_unat_eq_iff unat_narrow unat_u32_lt [simplified])
  then show ?thesis using opaque_nonzero [of a] by (simp add: decode_def opaque_def)
qed

lemma opaque_inject [simp]: "opaque a = opaque b \<longleftrightarrow> a = b"
  by (metis decode_opaque sum.inject(2))

section \<open>The combinators\<close>

lemma neat_nothing:
  assumes "confined m" and "\<And>s. sys_ok s \<Longrightarrow> sys_ok (snd (m s)) \<and> held (snd (m s)) = held s"
  shows "neat nothing m"
  using assms(2) by (intro neatI assms(1)) (fastforce split: sum.splits)

lemma neat_ret [neat_intros]: "tensors x = [] \<Longrightarrow> neat tensors (ret x)"
  by (auto simp: neat_def confined_basic)

lemma neat_throw [neat_intros]: "neat tensors (throw e)"
  by (auto simp: neat_def confined_basic)

lemma neat_of_sum [neat_intros]: "neat nothing (of_sum r)"
  by (intro neat_nothing confined_intros) simp

lemma requires_run: "requires checks s = (case find (\<lambda>c. \<not> fst c) checks of
    None \<Rightarrow> (Inr (), s) | Some c \<Rightarrow> (Inl (Runtime_error (snd c)), s))"
  by (induction checks rule: requires.induct) auto

lemma requires_ok: "requires checks s = (Inr u, s') \<longleftrightarrow> s' = s \<and> (\<forall>c \<in> set checks. fst c)"
  by (auto simp: requires_run find_None_iff find_Some_iff split: option.splits)

lemma confined_requires [confined_intros]: "confined (requires checks)"
  by (rule confined_context) (auto simp: requires_run split: option.splits)

lemma neat_requires [neat_intros]: "neat nothing (requires checks)"
  by (intro neat_nothing confined_intros) (auto simp: requires_run split: option.splits)

lemma neat_andThen:
  assumes "neat nothing m" and "\<And>x. neat tensors (k x)"
  shows "neat tensors (andThen m k)"
proof (rule neatI)
  show "confined (andThen m k)" by (rule confined_andThen [OF neat_confined [OF assms(1)] neat_confined [OF assms(2)]])
next
  fix s r s' assume s: "sys_ok s" and run: "andThen m k s = (r, s')"
  obtain q t where m: "m s = (q, t)" by (metis prod.exhaust)
  have "sys_ok t" "held t = held s"
    using neatD [OF assms(1) s m] by (auto split: sum.splits)
  then show "sys_ok s' \<and> adds (case r of Inl _ \<Rightarrow> [] | Inr x \<Rightarrow> tensors x) (held s) (held s')"
    using run m neatD [OF assms(2), of t] by (cases q) (fastforce simp: andThen_def)+
qed

lemma delete_owned:
  assumes "sys_ok s" and "at_storage t \<noteq> 0" and "owns t r" and "r \<in> held s"
  shows "sys_ok (delete_minigpu_allocation (at_storage t) s)"
    and "held (delete_minigpu_allocation (at_storage t) s) = {q \<in> held s. fst q \<noteq> fst r}"
proof -
  obtain a where a: "at_storage t = opaque a" "fst r = unat a" using assms(3) by (auto simp: owns_def)
  obtain st c where free: "device_free a (fst s) = (st, c)" by force
  have "(unat a, snd r) \<in> live (ctx_blocks (fst s))"
    using assms(4) a(2) by (metis held_def prod.collapse)
  then have st: "st = Ok" using device_free_NotFound(1) [of a "fst s"] free by auto
  have same: "ctx_default_alignment c = ctx_default_alignment (fst s)" "prog_ok c = prog_ok (fst s)"
    using free by (cases "mark_free a (ctx_blocks (fst s))"; auto simp: device_free_def prog_ok_def slots_def)+
  show "sys_ok (delete_minigpu_allocation (at_storage t) s)"
    "held (delete_minigpu_allocation (at_storage t) s) = {q \<in> held s. fst q \<noteq> fst r}"
    using device_free_Ok(1,2) [of "fst s" a c] free st assms(1) a same
    by (simp_all add: delete_minigpu_allocation_def sys_ok_def held_def)
qed

lemma delete_null: "at_storage t = 0 \<Longrightarrow> delete_minigpu_allocation (at_storage t) s = s"
  by (simp add: delete_minigpu_allocation_def decode_def)

text \<open>Dropping a tensor takes back what creating it added.\<close>

lemma delete_added:
  assumes "sys_ok s" and "adds [t] before mid" and "adds us mid (held s)"
  shows "sys_ok (delete_minigpu_allocation (at_storage t) s)"
    and "adds us before (held (delete_minigpu_allocation (at_storage t) s))"
proof -
  have "sys_ok (delete_minigpu_allocation (at_storage t) s)
     \<and> adds us before (held (delete_minigpu_allocation (at_storage t) s))"
  proof (cases "at_storage t = 0")
    case True
    then show ?thesis using assms delete_null [OF True, of s] by (simp add: adds_one)
  next
    case False
    then obtain r where r: "owns t r" "fst r \<notin> fst ` before" "mid = insert r before"
      using assms(2) by (auto simp: adds_one)
    obtain rs where rs: "list_all2 owns (filter (\<lambda>t. at_storage t \<noteq> 0) us) rs" "distinct (map fst rs)"
        "fst ` set rs \<inter> fst ` mid = {}" "held s = mid \<union> set rs"
      using assms(3) by (auto simp: adds_def)
    have "r \<in> held s" using r rs by simp
    note d = delete_owned [OF assms(1) False r(1) this]
    have "{q \<in> held s. fst q \<noteq> fst r} = before \<union> set rs"
      using r rs by (auto simp: image_iff)
    then show ?thesis using d r rs unfolding adds_def by auto
  qed
  then show "sys_ok (delete_minigpu_allocation (at_storage t) s)"
    "adds us before (held (delete_minigpu_allocation (at_storage t) s))" by simp_all
qed

section \<open>Transfers and launches keep the memory\<close>

lemma neat_log_only:
  assumes "confined m" and "\<And>c d r c' d'. m (c, d) = (r, (c', d')) \<Longrightarrow> c' = c \<or> (\<exists>e. c' = log_event e c)"
  shows "neat nothing m"
proof (rule neat_nothing [OF assms(1)])
  fix s :: "'a sys" assume s: "sys_ok s"
  obtain c d where [simp]: "s = (c, d)" by force
  obtain r c' d' where [simp]: "m (c, d) = (r, (c', d'))" by (metis prod.exhaust)
  show "sys_ok (snd (m s)) \<and> held (snd (m s)) = held s"
    using s assms(2) [of c d r c' d'] by (auto simp: sys_ok_def held_def)
qed

lemma neat_copy_to_device [neat_intros]: "neat nothing (copy_to_device a src n)"
  by (intro neat_log_only confined_intros)
    (auto simp: copy_to_device_def Let_def split: if_splits option.splits prod.splits sum.splits)

lemma neat_copy_from_device [neat_intros]: "neat nothing (copy_from_device dst a n)"
  by (intro neat_log_only confined_intros)
    (auto simp: copy_from_device_def Let_def split: if_splits option.splits prod.splits sum.splits)

lemma neat_write_program [neat_intros]: "neat nothing (write_program a p n)"
  by (intro neat_log_only confined_intros write_program_context)

lemma neat_write_constants [neat_intros]: "neat nothing (write_constants a p n)"
  by (intro neat_log_only confined_intros write_constants_context)

lemma neat_validate_loaded [neat_intros]: "neat nothing (validate_loaded k)"
  by (intro neat_log_only confined_intros disjI1 validate_loaded_context)

lemma neat_log_line [neat_intros]: "neat nothing (log_line e)"
  by (intro neat_log_only confined_intros) (auto simp: log_line_def)

lemma neat_start_kernel [neat_intros]: "neat nothing (start_kernel k)"
  by (intro neat_log_only confined_intros) (auto simp: start_kernel_def Let_def split: option.splits prod.splits sum.splits if_splits)

lemma neat_check [neat_intros]: "neat nothing (check st)"
  by (intro neat_nothing confined_intros) simp

lemma neat_wait_kernel [neat_intros]: "neat nothing (wait_kernel t)"
proof (rule neat_nothing [OF confined_wait])
  fix s :: "'a sys" assume s: "sys_ok s"
  have step: "sys_ok (log_event e (fst s), d)" "held (log_event e (fst s), d) = held s" for e d
    using s by (simp_all add: sys_ok_def held_def)
  have "neat nothing (andThen (check st) (\<lambda>_. log_line ''wait done'') :: ('a sys, exn, unit) action)" for st
    by (intro neat_andThen neat_intros)
  from neatD [OF this step(1)] step(2)
  have "sys_ok (snd (andThen (check st) (\<lambda>_. log_line ''wait done'') (log_event e (fst s), d)))
      \<and> held (snd (andThen (check st) (\<lambda>_. log_line ''wait done'') (log_event e (fst s), d))) = held s" for st e d
    by (cases "andThen (check st) (\<lambda>_. log_line ''wait done'') (log_event e (fst s), d)")
      (fastforce split: sum.splits)
  then show "sys_ok (snd (wait_kernel t s)) \<and> held (snd (wait_kernel t s)) = held s"
    using s step by (auto simp: wait_kernel_def Let_def split: option.splits prod.splits sum.splits)
qed

lemma neat_unless_throw [neat_intros]: "neat nothing (unless_throw ok e)"
  by (intro neat_nothing confined_intros) simp

lemma neat_if [neat_intros]: "neat tensors m \<Longrightarrow> neat tensors m' \<Longrightarrow> neat tensors (if b then m else m')"
  by simp

lemma neat_launch_desc [neat_intros]: "neat nothing (launch_desc k)"
  unfolding launch_desc_def by (intro neat_andThen neat_intros refl)

lemma neat_ensure_program_loaded [neat_intros]: "neat nothing (ensure_program_loaded pk kid)"
proof (rule neat_nothing [OF confined_ensure_program_loaded])
  fix s :: "'a sys" assume s: "sys_ok s"
  obtain c d where sc [simp]: "s = (c, d)" by force
  obtain r c' d' where run [simp]: "ensure_program_loaded pk kid (c, d) = (r, (c', d'))" by (metis prod.exhaust)
  have "prog_ok c' \<and> cache_only c c'"
    using ensure_program_loaded_frame [OF _ run] s by (simp add: sys_ok_def)
  then show "sys_ok (snd (ensure_program_loaded pk kid s)) \<and> held (snd (ensure_program_loaded pk kid s)) = held s"
    using s cache_only_mem_ok [of c c'] by (simp add: sys_ok_def held_def cache_only_def)
qed

lemma neat_launch_kernel [neat_intros]: "neat nothing (launch_kernel ids name args config)"
proof (rule neat_nothing [OF confined_launch_kernel])
  fix s :: "'a sys" assume s: "sys_ok s"
  have neat: "neat nothing (andThen (ensure_program_loaded pk kid) (\<lambda>a.
      andThen (log_line (launch_log name args)) (\<lambda>_. launch_desc (k a))) :: ('a sys, exn, unit) action)" for pk kid k
    by (intro neat_andThen neat_ensure_program_loaded neat_log_line neat_launch_desc)
  have kept: "sys_ok (snd (m s)) \<and> held (snd (m s)) = held s" if "neat nothing m" for m :: "('a sys, exn, unit) action"
    using neatD [OF that s, of "fst (m s)" "snd (m s)"] by (auto split: sum.splits)
  show "sys_ok (snd (launch_kernel ids name args config s)) \<and> held (snd (launch_kernel ids name args config s)) = held s"
    using kept [OF neat] s by (auto simp: launch_kernel_def Let_def split: option.splits)
qed

lemma neat_launch_named [neat_intros]: "neat nothing (launch_named ids name args config)"
  unfolding launch_named_def by (intro neat_andThen neat_of_sum neat_launch_kernel)

lemma neat_launches [neat_intros]:
  "neat nothing (launch ids name args)"
  "neat nothing (launch_elementwise_binary ids op a b out config)"
  "neat nothing (launch_elementwise_unary ids op a out config)"
  "neat nothing (launch_matmul ids a b out m n k config)"
  "neat nothing (launch_gemv ids a b out m n config)"
  "neat nothing (launch_dot ids a b out n config)"
  "neat nothing (launch_scal ids a out al config)"
  "neat nothing (launch_axpy ids a b out al config)"
  "neat nothing (launch_addmm ids self a b out be al m n k config)"
  "neat nothing (launch_linear ids a b out m n k config)"
  "neat nothing (launch_linear_bias ids a b bias out m n k config)"
  by (simp_all add: neat_intros launch_def launch_elementwise_binary_def launch_elementwise_unary_def launch_matmul_def
      launch_gemv_def launch_dot_def launch_scal_def launch_axpy_def launch_addmm_def launch_linear_def launch_linear_bias_def)

lemma neat_launches_conv [neat_intros]:
  "neat nothing (launch_conv1d ids a b out x0 x1 x2 x3 x4 x5 x6 x7 x8 config)"
  "neat nothing (launch_conv1d_bias ids a b bias out x0 x1 x2 x3 x4 x5 x6 x7 x8 config)"
  "neat nothing (launch_conv2d ids a b out x0 x1 x2 x3 x4 x5 x6 x7 x8 x9 y0 y1 y2 y3 config)"
  "neat nothing (launch_conv2d_bias ids a b bias out x0 x1 x2 x3 x4 x5 x6 x7 x8 x9 y0 y1 y2 y3 config)"
  by (simp_all add: neat_intros launch_conv1d_def launch_conv1d_bias_def launch_conv2d_def launch_conv2d_bias_def)

section \<open>New tensors\<close>

text \<open>PyTorch asks the allocator for fewer bytes than a signed 64-bit number can hold.\<close>

definition storage_sane :: "torch \<Rightarrow> bool" where
  "storage_sane pt \<longleftrightarrow>
     (\<forall>sizes dtype n. pt_storage_bytes pt sizes dtype = Inr n \<longrightarrow> unat n < 2 ^ 63)"

lemma prog_ok_blocks [simp]: "prog_ok (c\<lparr>ctx_blocks := bs\<rparr>) = prog_ok c"
  by (simp add: prog_ok_def slots_def)

lemma allocate_cases:
  assumes s: "sys_ok s" and n: "unat n < 2 ^ 63" and run: "allocate n s = (r, s')"
  shows "sys_ok s' \<and> (case r of
      Inl _ \<Rightarrow> held s' = held s
    | Inr p \<Rightarrow>
        if p = 0 then n = 0 \<and> held s' = held s
        else \<exists>a m. p = opaque a \<and> unat a \<notin> fst ` held s \<and> held s' = insert (unat a, m) (held s))"
proof (cases "n = 0")
  case True
  then show ?thesis using s run by (auto simp: allocate_def)
next
  case False
  let ?al = "ctx_default_alignment (fst s)"
  have al: "?al \<noteq> 0" "unat ?al < 2 ^ 32" and ok: "mem_ok (fst s)" using s by (simp_all add: sys_ok_def)
  have "round_up (unat ?al) (unat n) < unat n + unat ?al"
    using al by (intro round_up_lt) (simp add: unat_gt_0)
  then have req: "request_ok n ?al" using al n False by (simp add: request_ok_def)
  obtain q c' where malloc: "device_malloc_aligned n ?al (fst s) = (q, c')" by force
  show ?thesis
  proof (cases q)
    case (Inl e)
    then show ?thesis
      using device_malloc_fails [OF req, of "fst s" e c'] malloc run s False
      by (auto simp: allocate_def andThen_def on_context_def device_malloc_def)
  next
    case (Inr buf)
    then have malloc: "device_malloc_aligned n ?al (fst s) = (Inr buf, c')" using malloc by simp
    note m = device_malloc_correct [OF ok req malloc]
    have "0 < k" if "(i, k) \<in> live (ctx_blocks (fst s))" for i k
      using live_bounds [OF _ that] ok by (auto simp: mem_ok_def)
    moreover have "0 < grant n ?al"
      using round_up_ge [of "unat n" "unat ?al"] False by (metis gr_zeroI le_zero_eq unat_eq_zero)
    ultimately have fresh: "unat (db_addr buf) \<notin> fst ` live (ctx_blocks (fst s))"
      using m(3) by (fastforce simp: overlaps_def)
    have "prog_ok c' = prog_ok (fst s)" "ctx_default_alignment c' = ?al"
      using device_malloc_Inr [OF malloc] by auto
    then show ?thesis
      using m(1,2) run malloc s False fresh
      by (auto simp: allocate_def andThen_def on_context_def device_malloc_def buffer_release_def
          sys_ok_def held_def split: if_splits)
  qed
qed

lemma linked_delete [simp]: "linked tr P (delete_minigpu_allocation storage s) = linked tr P s"
  by (auto simp: delete_minigpu_allocation_def device_free_def linked_def split: sum.splits option.splits)

lemma confined_generic_tensor [confined_intros]: "confined (generic_tensor pt sizes strides dtype nbytes)"
proof -
  have "ctx_transport (snd (device_malloc n c)) = ctx_transport c" for n and c :: "'a gpu_context"
    by (auto simp: device_malloc_def device_malloc_aligned_def Let_def split: sum.splits)
  then show ?thesis
    unfolding generic_tensor_def allocate_def by (intro confined_intros confined_on_context)
qed

lemma neat_generic_tensor:
  assumes "\<And>n. nbytes = Inr n \<Longrightarrow> unat n < 2 ^ 63"
  shows "neat result (generic_tensor pt sizes strides dtype nbytes)"
proof (rule neatI)
  show "confined (generic_tensor pt sizes strides dtype nbytes)" by (rule confined_generic_tensor)
next
  fix s r s' assume s: "sys_ok s" and run: "generic_tensor pt sizes strides dtype nbytes s = (r, s')"
  show "sys_ok s' \<and> adds (case r of Inl _ \<Rightarrow> [] | Inr x \<Rightarrow> [x]) (held s) (held s')"
  proof (cases nbytes)
    case (Inl e)
    then show ?thesis using s run by (auto simp: generic_tensor_def andThen_def)
  next
    case (Inr n)
    obtain q t where q: "allocate n s = (q, t)" by (metis prod.exhaust)
    from allocate_cases [OF s assms [OF Inr] q] show ?thesis
      using run Inr q by (cases q) (auto simp: generic_tensor_def andThen_def adds_one owns_def, blast?)
  qed
qed

lemma neat_new_tensor: "storage_sane pt \<Longrightarrow> neat result (empty pt sizes dtype layout pin format)"
  unfolding empty_def Let_def
  by (intro neat_andThen neat_requires neat_generic_tensor) (auto simp: storage_sane_def)

text \<open>The combinators that drop a tensor are confined as well.\<close>

lemma keeps_dropping:
  assumes "keeps (linked tr P) create" and "\<And>t. keeps (linked tr P) (work t)"
    and "\<And>t s r s'. work t s = (r, s') \<Longrightarrow> snd (finish t s) \<in> {s', delete_minigpu_allocation (at_storage t) s'}"
  shows "keeps (linked tr P) (andThen create finish)"
proof (rule keeps_andThen [OF assms(1)], rule keepsI)
  fix t s r s' assume s: "linked tr P s" and run: "finish t s = (r, s')"
  obtain q u where w: "work t s = (q, u)" by (metis prod.exhaust)
  show "linked tr P s'" using keepsD [OF assms(2) s w] assms(3) [OF w] run by auto
qed

lemma confined_with_output [confined_intros]:
  assumes "confined create" and "\<And>t. confined (work t)"
  shows "confined (with_output create work)"
  unfolding with_output_def using assms unfolding confined_def
  by (intro allI impI keeps_dropping [where work = work]) (auto split: sum.splits)

lemma confined_with_temporary [confined_intros]:
  assumes "confined create" and "\<And>t. confined (work t)"
  shows "confined (with_temporary create work)"
  unfolding with_temporary_def using assms unfolding confined_def
  by (intro allI impI keeps_dropping [where work = work]) auto

lemma confined_optional_output [confined_intros]:
  assumes "confined create" and "\<And>g. confined (rest g)"
  shows "confined (optional_output wanted create rest)"
  unfolding optional_output_def using assms unfolding confined_def
  by (intro allI impI keeps_if keeps_dropping [where work = "\<lambda>t. rest (Some t)"]) (auto split: sum.splits)

lemma neat_with_output:
  assumes "neat result create" and "\<And>t. neat nothing (work t)"
  shows "neat result (with_output create work)"
proof (rule neatI)
  show "confined (with_output create work)" by (intro confined_intros neat_confined [OF assms(1)] neat_confined [OF assms(2)])
next
  fix s r s' assume s: "sys_ok s" and run: "with_output create work s = (r, s')"
  obtain q t where c: "create s = (q, t)" by (metis prod.exhaust)
  note created = neatD [OF assms(1) s c]
  show "sys_ok s' \<and> adds (case r of Inl _ \<Rightarrow> [] | Inr x \<Rightarrow> [x]) (held s) (held s')"
  proof (cases q)
    case (Inl e)
    then show ?thesis using created run c by (auto simp: with_output_def andThen_def)
  next
    case (Inr out)
    obtain w u where w: "work out t = (w, u)" by (metis prod.exhaust)
    note worked = neatD [OF assms(2) created(1) w]
    have kept: "held u = held t" using worked(2) by (auto split: sum.splits)
    show ?thesis
    proof (cases w)
      case (Inl e)
      then show ?thesis
        using delete_added [OF worked(1), of out "held s" "held t" "[]"] created kept run c w Inr
        by (auto simp: with_output_def andThen_def)
    next
      case (Inr x)
      then show ?thesis using created kept worked(1) run c w \<open>q = Inr out\<close>
        by (auto simp: with_output_def andThen_def)
    qed
  qed
qed

lemma neat_with_temporary:
  assumes "neat result create" and "\<And>t. neat tensors (work t)"
  shows "neat tensors (with_temporary create work)"
proof (rule neatI)
  show "confined (with_temporary create work)" by (intro confined_intros neat_confined [OF assms(1)] neat_confined [OF assms(2)])
next
  fix s r s' assume s: "sys_ok s" and run: "with_temporary create work s = (r, s')"
  obtain q t where c: "create s = (q, t)" by (metis prod.exhaust)
  note created = neatD [OF assms(1) s c]
  show "sys_ok s' \<and> adds (case r of Inl _ \<Rightarrow> [] | Inr x \<Rightarrow> tensors x) (held s) (held s')"
  proof (cases q)
    case (Inl e)
    then show ?thesis using created run c by (auto simp: with_temporary_def andThen_def)
  next
    case (Inr tmp)
    obtain w u where w: "work tmp t = (w, u)" by (metis prod.exhaust)
    note worked = neatD [OF assms(2) created(1) w]
    show ?thesis
      using delete_added [OF worked(1) _ worked(2), of tmp "held s"] created run c w Inr
      by (auto simp: with_temporary_def andThen_def)
  qed
qed

text \<open>An optional result: \<open>own\<close> lists the results of the whole, \<open>rest_own\<close> those that are not this one.\<close>

lemma neat_optional_output:
  assumes "neat result create" and rest: "\<And>g. neat rest_own (rest g)"
    and own: "\<And>g s x s'. rest g s = (Inr x, s') \<Longrightarrow> own x = (case g of None \<Rightarrow> [] | Some t \<Rightarrow> [t]) @ rest_own x"
  shows "neat own (optional_output wanted create rest)"
proof (rule neatI)
  show "confined (optional_output wanted create rest)"
    by (intro confined_intros neat_confined [OF assms(1)] neat_confined [OF rest])
next
  fix s r s' assume s: "sys_ok s" and run: "optional_output wanted create rest s = (r, s')"
  show "sys_ok s' \<and> adds (case r of Inl _ \<Rightarrow> [] | Inr x \<Rightarrow> own x) (held s) (held s')"
  proof (cases wanted)
    case False
    then have "rest None s = (r, s')" using run by (simp add: optional_output_def)
    then show ?thesis using neatD [OF rest s, of None r s'] own by (cases r) fastforce+
  next
    case True
    obtain q t where c: "create s = (q, t)" by (metis prod.exhaust)
    note created = neatD [OF assms(1) s c]
    show ?thesis
    proof (cases q)
      case (Inl e)
      then show ?thesis using created run c True by (auto simp: optional_output_def andThen_def)
    next
      case (Inr g)
      obtain w u where w: "rest (Some g) t = (w, u)" by (metis prod.exhaust)
      note worked = neatD [OF rest created(1) w]
      show ?thesis
      proof (cases w)
        case (Inl e)
        then show ?thesis
          using delete_added [OF worked(1), of g "held s" "held t" "[]"] created worked run c w Inr True
          by (auto simp: optional_output_def andThen_def)
      next
        case (Inr x)
        then show ?thesis
          using adds_append [of "[g]" "held s" "held t" "rest_own x" "held u"] created worked run c w \<open>q = Inr g\<close> True own [OF w [unfolded Inr]]
          by (auto simp: optional_output_def andThen_def)
      qed
    qed
  qed
qed

section \<open>The operators\<close>

lemma neat_on_views [neat_intros]: "(\<And>v. neat nothing (work v)) \<Longrightarrow> neat nothing (on_views pt dtype ts work)"
  unfolding on_views_def by (intro neat_andThen neat_of_sum)

lemma neat_case_option [neat_intros]:
  "neat tensors m \<Longrightarrow> (\<And>b. neat tensors (m' b)) \<Longrightarrow> neat tensors (case bias of None \<Rightarrow> m | Some b \<Rightarrow> m' b)"
  by (cases bias) simp_all

lemmas operator_intros = neat_andThen neat_intros neat_with_output neat_with_temporary neat_new_tensor

text \<open>Every operator whose result is a new tensor.\<close>

lemma neat_elementwise:
  assumes "storage_sane pt"
  shows "neat result (run_binary_kernel pt ids a b kop op)" "neat result (run_unary_kernel pt ids a kop op)"
    "neat result (scal pt ids a alpha)" "neat result (axpy pt ids a b alpha)" "neat result (div_tensor pt ids a b)"
    "neat result (sqrt_op pt ids a)" "neat result (reciprocal_op pt ids a)"
  unfolding run_binary_kernel_def run_unary_kernel_def scal_def axpy_def div_tensor_def sqrt_op_def reciprocal_op_def Let_def
  by (intro operator_intros assms)+

lemma neat_matrix:
  assumes "storage_sane pt"
  shows "neat result (mm pt ids a b)" "neat result (mv pt ids a b)" "neat result (dot_op pt ids a b)"
    "neat result (addmm pt ids a b c beta alpha)"
  unfolding mm_def mv_def dot_op_def addmm_def Let_def by (intro operator_intros assms)+

lemma neat_convolution_parts:
  assumes "storage_sane pt"
  shows "neat result (convolution_1d pt ids dt input weight bias stride pad dilation out_pad b i k)"
    "neat result (convolution_2d pt ids dt input weight bias stride pad dilation out_pad b i k)"
  unfolding convolution_1d_def convolution_2d_def by (intro operator_intros assms)+

lemma neat_convolution:
  assumes "storage_sane pt"
  shows "neat result (convolution_op pt ids input weight bias stride pad dilation transposed out_pad groups)"
proof -
  have "neat result ((if dim input = 3 then convolution_1d else convolution_2d)
      pt ids dt input weight bias stride pad dilation out_pad b i k)" for dt b i k
    by (simp add: neat_convolution_parts [OF assms])
  then show ?thesis unfolding convolution_op_def by (intro operator_intros assms)
qed

lemma neat_reductions:
  assumes "storage_sane pt"
  shows "neat result (run_global_reduction_kernel pt ids a kop op keep)" "neat result (run_mean_kernel pt ids a op keep)"
    "neat result (argmax_op pt ids a d keep)" "neat result (softmax_impl pt ids a k half)"
    "neat result (pool_launch pt ids op a window strides)" "neat result (adaptive_avg_pool2d_op pt ids a sizes)"
  unfolding run_global_reduction_kernel_def run_mean_kernel_def argmax_op_def softmax_impl_def pool_launch_def
    adaptive_avg_pool2d_op_def Let_def
  by (intro operator_intros assms)+

lemma neat_losses:
  assumes "storage_sane pt"
  shows "neat result (mse_loss pt ids a b)" "neat result (cross_entropy_loss pt ids a b)"
    "neat result (cross_entropy_debug pt ids a b)" "neat result (cross_entropy_loss_backward pt ids g a b)"
  unfolding mse_loss_def cross_entropy_loss_def cross_entropy_debug_def cross_entropy_loss_backward_def
    launch_cross_entropy_stats_def
  by (intro operator_intros assms)+

text \<open>The last step of a linear layer: a view of the result shares its storage.\<close>

lemma view_storage: "view pt t sizes = Inr v \<Longrightarrow> at_storage v = at_storage t"
  by (auto simp: view_def make_alias_def split: if_splits)

lemma neat_then_view:
  assumes "neat result m"
    and "\<And>t s. k t s = (Inr t, s) \<or> (\<exists>v. k t s = (Inr v, s) \<and> at_storage v = at_storage t)
      \<or> (\<exists>e. k t s = (Inl e, delete_minigpu_allocation (at_storage t) s))"
  shows "neat result (andThen m k)"
proof (rule neatI)
  have "confined (k t)" for t
  proof (intro confinedI keepsI)
    fix tr P s r s' assume "linked tr P s" "k t s = (r, s')"
    then show "linked tr P s'" using assms(2) [of t s] by auto
  qed
  then show "confined (andThen m k)" by (intro confined_andThen neat_confined [OF assms(1)])
next
  fix s r s' assume s: "sys_ok s" and run: "andThen m k s = (r, s')"
  obtain q t where m: "m s = (q, t)" by (metis prod.exhaust)
  note made = neatD [OF assms(1) s m]
  show "sys_ok s' \<and> adds (case r of Inl _ \<Rightarrow> [] | Inr x \<Rightarrow> [x]) (held s) (held s')"
  proof (cases q)
    case (Inl e)
    then show ?thesis using run m made by (auto simp: andThen_def)
  next
    case (Inr out)
    then have made': "adds [out] (held s) (held t)" and k: "k out t = (r, s')"
      using made run m by (simp_all add: andThen_def)
    from assms(2) [of out t] show ?thesis
    proof (elim disjE exE conjE)
      fix v assume "k out t = (Inr v, t)" "at_storage v = at_storage out"
      moreover from this(2) have "adds [v] x y = adds [out] x y" for x y by (simp add: adds_one owns_def)
      ultimately show ?thesis using made(1) made' k by simp
    qed (use made(1) made' k delete_added [OF made(1) made', of "[]"] in simp_all)
  qed
qed

lemma neat_linear:
  assumes "storage_sane pt"
  shows "neat result (linear_op pt ids input weight bias)"
  unfolding linear_op_def Let_def
  by (intro neat_andThen neat_requires neat_of_sum neat_then_view operator_intros assms)
    (auto split: sum.splits dest: view_storage)

lemma neat_copy_tensor: "neat nothing (copy_tensor pt x y)"
proof (cases x; cases y)
  fix a b assume "x = Gpu a" "y = Gpu b"
  then show ?thesis unfolding copy_tensor_def require_contiguous_def upload_def download_def Let_def
    by (simp, intro operator_intros impI conjI refl)
next
  fix a b assume "x = Gpu a" "y = Cpu b"
  then show ?thesis unfolding copy_tensor_def require_contiguous_def upload_def Let_def
    by (simp, intro operator_intros impI conjI refl)
next
  fix a b assume "x = Cpu a" "y = Gpu b"
  then show ?thesis unfolding copy_tensor_def require_contiguous_def download_def Let_def
    by (simp, intro operator_intros impI conjI refl)
next
  fix a b assume "x = Cpu a" "y = Cpu b"
  then show ?thesis unfolding copy_tensor_def Let_def by (simp, intro operator_intros impI conjI refl)
qed

lemma neat_add_tensor:
  assumes "storage_sane pt"
  shows "neat result (add_tensor pt ids a b alpha)"
  unfolding add_tensor_def run_vector_add_kernel_def
  by (intro operator_intros neat_elementwise assms)

lemma neat_add_inplace:
  assumes "storage_sane pt"
  shows "neat nothing (add_tensor_inplace pt ids a b alpha)"
  unfolding add_tensor_inplace_def
  by (intro operator_intros neat_add_tensor neat_copy_tensor assms refl)

definition gradients :: "gradients \<Rightarrow> at_tensor list" where
  "gradients g = (case g of (x, y, z) \<Rightarrow> List.map_filter id [x, y, z])"

lemma optional_output_Inr:
  "optional_output w m rest s = (Inr x, s') \<Longrightarrow> \<exists>g t. rest g t = (Inr x, s')"
proof (cases w)
  case True
  moreover assume "optional_output w m rest s = (Inr x, s')"
  ultimately obtain t u where "(case rest (Some t) u of (Inr r, s') \<Rightarrow> (Inr r, s')
      | (Inl e, s') \<Rightarrow> (Inl e, delete_minigpu_allocation (at_storage t) s')) = (Inr x, s')"
    by (auto simp: optional_output_def elim!: andThen_okE)
  then have "rest (Some t) u = (Inr x, s')" by (simp split: prod.splits sum.splits)
  then show ?thesis by blast
next
  case False
  moreover assume "optional_output w m rest s = (Inr x, s')"
  ultimately have "rest None s = (Inr x, s')" by (simp add: optional_output_def)
  then show ?thesis by blast
qed

lemma neat_gradient_triple:
  assumes "neat result m1" "neat result m2" "neat result m3"
  shows "neat gradients (optional_output w1 m1 (\<lambda>x. optional_output w2 m2 (\<lambda>y. optional_output w3 m3 (\<lambda>z. ret (x, y, z)))))"
proof -
  let ?last = "\<lambda>x y. optional_output w3 m3 (\<lambda>z. ret (x, y, z)) :: ('a sys, exn, gradients) action"
  have third: "neat (\<lambda>(x, y, z). List.map_filter id [z]) (?last x y)" for x y
    by (intro neat_optional_output [where rest_own = nothing] assms neat_ret refl)
      (auto simp: map_filter_simps split: option.splits)
  have x3: "fst g = x \<and> fst (snd g) = y" if "?last x y s = (Inr g, s')" for x y g s s'
    using optional_output_Inr [OF that] by auto
  let ?mid = "\<lambda>x. optional_output w2 m2 (\<lambda>y. ?last x y)"
  have second: "neat (\<lambda>(x, y, z). List.map_filter id [y, z]) (?mid x)" for x
    by (intro neat_optional_output [OF assms(2) third])
      (auto simp: map_filter_simps dest!: x3 split: option.splits)
  have x2: "fst g = x" if "?mid x s = (Inr g, s')" for x g s s'
    using optional_output_Inr [OF that] x3 by blast
  show ?thesis unfolding gradients_def
    by (intro neat_optional_output [OF assms(1) second])
      (auto simp: map_filter_simps dest!: x2 split: option.splits)
qed

lemma neat_backward:
  assumes "storage_sane pt"
  shows "neat gradients (linear_backward pt ids x g w wanted)"
    "neat gradients (convolution_backward pt ids x g w stride pad dilation transposed out_pad groups wanted)"
proof -
  show "neat gradients (linear_backward pt ids x g w wanted)"
    unfolding linear_backward_def Let_def
    by (intro neat_andThen neat_requires neat_of_sum neat_gradient_triple neat_with_output neat_new_tensor
        neat_launches assms)
  have "neat gradients (convolution_backward_launches pt ids conv x g w oc sizes bias_sizes wanted)" for conv oc sizes bias_sizes
    unfolding convolution_backward_launches_def
    by (intro neat_gradient_triple neat_with_output neat_new_tensor neat_launches assms)
  then show "neat gradients (convolution_backward pt ids x g w stride pad dilation transposed out_pad groups wanted)"
    unfolding convolution_backward_def by (intro neat_andThen neat_requires neat_of_sum neat_if)
qed

section \<open>The property\<close>

text \<open>
  A device type of PyTorch with contiguous tensors of four-byte elements, for concrete runs.
\<close>

definition demo_torch :: torch where
  "demo_torch = \<lparr>pt_element_size = (\<lambda>_. 4),
     pt_storage_bytes = (\<lambda>sizes _. if 0 \<le> prod_list sizes \<and> prod_list sizes < 2 ^ 60
        then Inr (of_int (prod_list sizes * 4)) else Inl (Runtime_error ''invalid size'')),
     pt_strided_bytes = (\<lambda>_ _ _. Inl (Runtime_error ''invalid size'')),
     pt_strides = (\<lambda>sizes _. contiguous_strides sizes), pt_is_contiguous = (\<lambda>sizes strides. strides = contiguous_strides sizes),
     pt_data_ptr = (\<lambda>t. if numel t = 0 then 0 else at_storage t + of_int (at_storage_offset t * 4)),
     pt_convert = (\<lambda>_ t. t), pt_garbage = (\<lambda>n. replicate (unat n) 0), pt_quotient = (\<lambda>_ _. 0),
     pt_pow = (\<lambda>x _. x), pt_pow_scalar = (\<lambda>x _. x), pt_sin = id, pt_cos = id, pt_tan = id\<rparr>"

lemma demo_torch_fields:
  "pt_element_size demo_torch dt = 4" "pt_strides demo_torch sizes fmt = contiguous_strides sizes"
  "pt_is_contiguous demo_torch sizes strides \<longleftrightarrow> strides = contiguous_strides sizes"
  "pt_data_ptr demo_torch t = (if numel t = 0 then 0 else at_storage t + of_int (at_storage_offset t * 4))"
  "pt_storage_bytes demo_torch sizes dt = (if 0 \<le> prod_list sizes \<and> prod_list sizes < 2 ^ 60
     then Inr (of_int (prod_list sizes * 4)) else Inl (Runtime_error ''invalid size''))"
  by (simp_all add: demo_torch_def)

lemma demo_storage_sane: "storage_sane demo_torch"
proof -
  have small: "unat (of_int v :: u64) < 2 ^ 63" if "0 \<le> v" "v < 2 ^ 63" for v :: int
  proof -
    have "v mod 2 ^ 64 = v" using that by (intro mod_pos_pos_trivial) simp_all
    then have "uint (of_int v :: u64) = v" by (simp add: uint_word_of_int)
    then show ?thesis using that by (simp add: unat_eq_nat_uint nat_less_iff)
  qed
  show ?thesis unfolding storage_sane_def
  proof (intro allI impI)
    fix sizes dtype n assume "pt_storage_bytes demo_torch sizes dtype = Inr n"
    then have "0 \<le> prod_list sizes * 4" "prod_list sizes * 4 < 2 ^ 63" "n = of_int (prod_list sizes * 4)"
      by (simp_all add: demo_torch_fields split: if_split_asm)
    then show "unat n < 2 ^ 63" using small by blast
  qed
qed

lemma small_sys_ok: "sys_ok (small_context, ())"
  using small_context_ok small_prog_ok by (simp add: sys_ok_def) (simp add: small_context_def)

text \<open>
  The operators of the PyTorch backend neither leak nor free too much device memory: when one
  returns, what was allocated before still is, and what is new belongs to exactly one of the tensors it
  returned, temporaries being gone; when it throws, on whatever path, the live allocations are those of before.
\<close>

theorem operators_own_their_results:
  assumes "storage_sane pt"
  shows "neat result (run_binary_kernel pt ids a b kop op)
      \<and> neat result (run_unary_kernel pt ids a kop op)
      \<and> neat result (mm pt ids a b)
      \<and> neat result (linear_op pt ids a b bias)
      \<and> neat result (convolution_op pt ids a b bias stride pad dilation transposed out_pad groups)
      \<and> neat result (softmax_impl pt ids a k half)
      \<and> neat result (cross_entropy_loss pt ids a b)
      \<and> neat nothing (add_tensor_inplace pt ids a b alpha)
      \<and> neat gradients (linear_backward pt ids a g b wanted)
      \<and> neat gradients (convolution_backward pt ids a g b stride2 pad2 dilation2 transposed out_pad2 groups wanted)"
  by (intro conjI, rule neat_elementwise(1) [OF assms], rule neat_elementwise(2) [OF assms], rule neat_matrix(1) [OF assms],
      rule neat_linear [OF assms], rule neat_convolution [OF assms], rule neat_reductions(4) [OF assms],
      rule neat_losses(2) [OF assms], rule neat_add_inplace [OF assms], rule neat_backward(1) [OF assms],
      rule neat_backward(2) [OF assms])

definition demo_matrix :: "u64 \<Rightarrow> at_tensor" where
  "demo_matrix storage = \<lparr>at_device = PrivateUse1, at_dtype = kInt, at_sizes = [2, 2], at_strides = [2, 1],
     at_storage_offset = 0, at_storage = storage\<rparr>"

lemma small_allocate:
  "allocate 16 (small_context, d) = (Inr 1, (small_context\<lparr>ctx_blocks := [\<lparr>boffset = 0, bsize = 16, bfree = False\<rparr>,
     \<lparr>boffset = 16, bsize = 40, bfree = True\<rparr>]\<rparr>, d))"
  by (simp add: allocate_def andThen_def on_context_def device_malloc_def device_malloc_aligned_def small_context_def
      malloc_scan.simps align_up_size_def align_up_addr_def malloc_at_def claim_at_def insert_at_def log_event_def
      buffer_release_def opaque_def)

lemma demo_mm:
  "fst (mm demo_torch (\<lambda>_. None) (demo_matrix 1) (demo_matrix 17) (small_context, ())) = Inl (error NotFound)"
  apply (simp add: mm_def andThen_def requires_run demo_matrix_def is_contiguous_def dim_def demo_torch_fields
      contiguous_strides_def supported_kernel_dtype_def)
  apply (simp add: with_output_def andThen_def empty_def generic_tensor_def requires_run demo_torch_fields small_allocate)
  apply (simp add: on_views_def andThen_def view_of_def device_address_def is_minigpu_tensor_def demo_torch_fields
      numel_def decode_def)
  apply (simp add: launch_matmul_def u32_of_def launch_named_def ptr_def arg_device_ptr_def num_def andThen_def
      launch_kernel_def find_kernel_def small_context_def)
  done

text \<open>The product's memory was allocated, the kernel is not registered, and the memory is given back.\<close>

lemma operators_own_their_results_witness:
  "held (snd (mm demo_torch (\<lambda>_. None) (demo_matrix 1) (demo_matrix 17) (small_context, ()))) = {}"
proof -
  obtain s' where r: "mm demo_torch (\<lambda>_. None) (demo_matrix 1) (demo_matrix 17) (small_context, ())
      = (Inl (error NotFound), s')" using demo_mm by (metis prod.collapse)
  have "held (small_context, ()) = {}" by (simp add: held_def small_context_def)
  moreover have "neat result (mm demo_torch (\<lambda>_. None) (demo_matrix 1) (demo_matrix 17) :: (unit sys, exn, at_tensor) action)"
    by (rule operators_own_their_results [OF demo_storage_sane, THEN conjunct2, THEN conjunct2, THEN conjunct1])
  note neatD(2) [OF this small_sys_ok r]
  ultimately show ?thesis using r by simp
qed

section \<open>A device that accepts launches\<close>

text \<open>One kernel is registered; every request is answered \<open>Ok\<close>. The first allocation takes four bytes.\<close>

definition serving :: "string \<Rightarrow> unit gpu_context" where
  "serving name = accepting_context\<lparr>ctx_kernels := [full_kernel\<lparr>pk_name := name\<rparr>]\<rparr>"

definition after_four :: "string \<Rightarrow> unit gpu_context" where
  "after_four name = (serving name)\<lparr>ctx_blocks := [\<lparr>boffset = 0, bsize = 4, bfree = False\<rparr>,
     \<lparr>boffset = 4, bsize = 52, bfree = True\<rparr>]\<rparr>"

lemma serving_allocate: "allocate 4 (serving name, ()) = (Inr 1, (after_four name, ()))"
  by (simp add: allocate_def andThen_def on_context_def device_malloc_def device_malloc_aligned_def small_context_def
      accepting_context_def serving_def after_four_def malloc_scan.simps align_up_size_def align_up_addr_def malloc_at_def
      claim_at_def insert_at_def log_event_def buffer_release_def opaque_def)

lemma serving_launch: "\<exists>c'. launch_kernel (\<lambda>_. Some 0) name args None (after_four name, ()) = (Inr (), (c', ()))"
proof -
  let ?pk = "full_kernel\<lparr>pk_name := name\<rparr>" and ?c = "after_four name"
  have found: "find_kernel name ?c = Some ?pk"
    by (simp add: after_four_def serving_def find_kernel_def)
  have img: "kernel_image ?pk = (Some [1, 2, 3, 4, 5, 6, 7, 8], 8)"
    by (simp add: kernel_image_def full_kernel_def empty_precompiled_kernel_def)
  have slot: "allocate_program_slot n 8 ?c = (Inr 0, ?c\<lparr>ctx_program_blocks := [\<lparr>boffset = 0, bsize = 8, bfree = False\<rparr>]\<rparr>)" for n
    by (simp add: allocate_program_slot_def allocate_slot_loop.simps accepting_context_def after_four_def serving_def
        small_context_def claim_at_def log_event_def)
  have rest: "ctx_transport ?c = accepting_transport" "ctx_program_cache ?c = []" "ctx_logging_enabled ?c = False"
    by (simp_all add: after_four_def serving_def concrete_fields)
  have "\<exists>c1. ctx_transport c1 = accepting_transport \<and> ensure_program_loaded ?pk 0 (?c, ()) = (Inr 0, (c1, ()))"
    by (simp add: ensure_program_loaded_def img andThen_def on_context_def slot modify_def cache_insert_def
      Let_def write_program_def validate_loaded_def rest accepting_transport_def log_event_def)
  then obtain c1 where c1: "ctx_transport c1 = accepting_transport" "ensure_program_loaded ?pk 0 (?c, ()) = (Inr 0, (c1, ()))"
    by blast
  show ?thesis
    by (simp add: launch_kernel_def found c1 andThen_def log_line_def log_event_def launch_desc_def launch_descriptor_def
        write_constants_def start_kernel_def wait_kernel_def accepting_transport_def Let_def)
qed

text \<open>A new tensor of one element there.\<close>

lemma serving_new:
  assumes "prod_list sizes = 1"
  shows "new_tensor demo_torch sizes dtype (serving name, ()) =
    (Inr \<lparr>at_device = PrivateUse1, at_dtype = dtype, at_sizes = sizes, at_strides = contiguous_strides sizes,
       at_storage_offset = 0, at_storage = 1\<rparr>, (after_four name, ()))"
  using assms by (simp add: empty_def generic_tensor_def andThen_def requires_run demo_torch_fields serving_allocate)

end
