(* ===== verification/TorchAutograd.thy ===== *)
theory TorchAutograd
  imports TorchMemory
begin

text \<open>
  The autograd functions of the PyTorch backend (\<open>torch_ext/src/registrations/aten.cpp\<close>,
  \<open>custom.cpp\<close>): what a forward call saves, and what the backward call makes of it. An autograd context
  holds named values and tensors; which inputs need a gradient is an argument of the backward functions.
  An undefined tensor is \<open>None\<close>.
\<close>

section \<open>The context\<close>

text \<open>An element type is saved as its number and converted back; here it stands for itself.\<close>

datatype ivalue = Int_Value int | Bool_Value bool | Type_Value scalar_type

record autograd_context =
  saved_data :: "string \<Rightarrow> ivalue option"
  saved_variables :: "at_tensor list"

definition saving :: "at_tensor list \<Rightarrow> autograd_context" where
  "saving tensors = \<lparr>saved_data = (\<lambda>_. None), saved_variables = tensors\<rparr>"

definition save_value :: "string \<Rightarrow> ivalue \<Rightarrow> autograd_context \<Rightarrow> autograd_context" where
  "save_value k v ctx = ctx\<lparr>saved_data := (saved_data ctx)(k \<mapsto> v)\<rparr>"

fun to_int :: "ivalue option \<Rightarrow> exn + int" where
  "to_int (Some (Int_Value v)) = Inr v"
| "to_int _ = Inl (Runtime_error ''isInt() INTERNAL ASSERT FAILED'')"

fun to_bool :: "ivalue option \<Rightarrow> exn + bool" where
  "to_bool (Some (Bool_Value v)) = Inr v"
| "to_bool _ = Inl (Runtime_error ''isBool() INTERNAL ASSERT FAILED'')"

fun to_type :: "ivalue option \<Rightarrow> exn + scalar_type" where
  "to_type (Some (Type_Value v)) = Inr v"
| "to_type _ = Inl (Runtime_error ''isInt() INTERNAL ASSERT FAILED'')"

definition save_symint_array :: "string \<Rightarrow> int list \<Rightarrow> autograd_context \<Rightarrow> autograd_context" where
  "save_symint_array prefix values ctx =
     fold (\<lambda>i. save_value (prefix @ dec i) (Int_Value (values ! i))) [0..<length values]
       (save_value (prefix @ ''_size'') (Int_Value (int (length values))) ctx)"

definition load_int_array :: "string \<Rightarrow> autograd_context \<Rightarrow> exn + int list" where
  "load_int_array prefix ctx =
     bind_ok (to_int (saved_data ctx (prefix @ ''_size''))) (\<lambda>sz.
     map_ok (\<lambda>i. to_int (saved_data ctx (prefix @ dec i))) [0..<nat (sz mod 2 ^ 64)])"

type_synonym forward = "at_tensor \<times> autograd_context"
type_synonym variable_list = "at_tensor option list"

section \<open>Activations and softmax\<close>

definition relu_autograd_forward :: "torch \<Rightarrow> kernel_ids \<Rightarrow> at_tensor \<Rightarrow> ('d sys, exn, forward) action" where
  "relu_autograd_forward pt ids input =
     andThen (relu_op pt ids input) (\<lambda>output. ret (output, saving [input]))"

definition relu_autograd_backward ::
    "torch \<Rightarrow> kernel_ids \<Rightarrow> autograd_context \<Rightarrow> at_tensor \<Rightarrow> ('d sys, exn, variable_list) action" where
  "relu_autograd_backward pt ids ctx grad =
     andThen (threshold_backward pt ids grad (saved_variables ctx ! 0) (zero_scalar pt)) (\<lambda>g. ret [Some g])"

definition sigmoid_autograd_forward :: "torch \<Rightarrow> kernel_ids \<Rightarrow> at_tensor \<Rightarrow> ('d sys, exn, forward) action" where
  "sigmoid_autograd_forward pt ids input =
     andThen (sigmoid_op pt ids input) (\<lambda>output. ret (output, saving [output]))"

definition sigmoid_autograd_backward ::
    "torch \<Rightarrow> kernel_ids \<Rightarrow> autograd_context \<Rightarrow> at_tensor \<Rightarrow> ('d sys, exn, variable_list) action" where
  "sigmoid_autograd_backward pt ids ctx grad =
     andThen (sigmoid_backward pt ids grad (saved_variables ctx ! 0)) (\<lambda>g. ret [Some g])"

definition tanh_autograd_forward :: "torch \<Rightarrow> kernel_ids \<Rightarrow> at_tensor \<Rightarrow> ('d sys, exn, forward) action" where
  "tanh_autograd_forward pt ids input =
     andThen (tanh_op pt ids input) (\<lambda>output. ret (output, saving [output]))"

definition tanh_autograd_backward ::
    "torch \<Rightarrow> kernel_ids \<Rightarrow> autograd_context \<Rightarrow> at_tensor \<Rightarrow> ('d sys, exn, variable_list) action" where
  "tanh_autograd_backward pt ids ctx grad =
     andThen (tanh_backward pt ids grad (saved_variables ctx ! 0)) (\<lambda>g. ret [Some g])"

definition softmax_autograd_forward ::
    "torch \<Rightarrow> kernel_ids \<Rightarrow> at_tensor \<Rightarrow> int \<Rightarrow> bool \<Rightarrow> ('d sys, exn, forward) action" where
  "softmax_autograd_forward pt ids input d half_to_float =
     andThen (softmax_impl pt ids input d half_to_float) (\<lambda>output.
     ret (output, save_value ''dtype'' (Type_Value (at_dtype input)) (save_value ''dim'' (Int_Value d) (saving [output]))))"

definition softmax_autograd_backward ::
    "torch \<Rightarrow> kernel_ids \<Rightarrow> autograd_context \<Rightarrow> at_tensor \<Rightarrow> ('d sys, exn, variable_list) action" where
  "softmax_autograd_backward pt ids ctx grad =
     andThen (of_sum (to_int (saved_data ctx ''dim''))) (\<lambda>d.
     andThen (of_sum (to_type (saved_data ctx ''dtype''))) (\<lambda>dtype.
     andThen (softmax_backward_data pt ids grad (saved_variables ctx ! 0) d dtype) (\<lambda>g. ret [Some g, None, None])))"

text \<open>\<open>input.to(dtype)\<close> is dispatched to \<open>_to_copy\<close>; the converted tensor lives until the call returns.\<close>

definition converted_input :: "torch \<Rightarrow> at_tensor \<Rightarrow> scalar_type \<Rightarrow> ('d sys, exn, at_tensor) action" where
  "converted_input pt input dtype =
     andThen (to_copy pt (Gpu input) (Some dtype) None None None None) (\<lambda>t.
     case t of Gpu g \<Rightarrow> ret g | Cpu _ \<Rightarrow> throw (Runtime_error ''tensor left the device''))"

definition minigpu_autograd_softmax ::
    "torch \<Rightarrow> kernel_ids \<Rightarrow> at_tensor \<Rightarrow> int \<Rightarrow> scalar_type option \<Rightarrow> ('d sys, exn, forward) action" where
  "minigpu_autograd_softmax pt ids input d dtype =
     (case dtype of
        Some t \<Rightarrow>
          if t \<noteq> at_dtype input
          then with_temporary (converted_input pt input t) (\<lambda>x. softmax_autograd_forward pt ids x d False)
          else softmax_autograd_forward pt ids input d False
      | None \<Rightarrow> softmax_autograd_forward pt ids input d False)"

section \<open>Linear layers and convolutions\<close>

text \<open>
  A bias is a \<open>std::optional<at::Tensor>\<close>, which may be empty, or hold an undefined tensor (\<open>Some None\<close>). The
  operators use it when \<open>bias.has_value() && bias->defined()\<close>; the linear layer's \<open>forward\<close> records only
  whether it has a value.
\<close>

definition defined_bias :: "at_tensor option option \<Rightarrow> at_tensor option" where
  "defined_bias bias = (case bias of None \<Rightarrow> None | Some b \<Rightarrow> b)"

definition linear_autograd_forward ::
    "torch \<Rightarrow> kernel_ids \<Rightarrow> at_tensor \<Rightarrow> at_tensor \<Rightarrow> at_tensor option option \<Rightarrow> ('d sys, exn, forward) action" where
  "linear_autograd_forward pt ids input weight bias =
     andThen (linear_op pt ids input weight (defined_bias bias)) (\<lambda>output.
     ret (output, save_value ''has_bias'' (Bool_Value (bias \<noteq> None)) (saving [input, weight])))"

definition linear_autograd_backward ::
    "torch \<Rightarrow> kernel_ids \<Rightarrow> (nat \<Rightarrow> bool) \<Rightarrow> autograd_context \<Rightarrow> at_tensor \<Rightarrow> ('d sys, exn, variable_list) action" where
  "linear_autograd_backward pt ids needs_input_grad ctx grad =
     andThen (of_sum (to_bool (saved_data ctx ''has_bias''))) (\<lambda>has_bias.
     andThen (linear_backward pt ids (saved_variables ctx ! 0) grad (saved_variables ctx ! 1)
       (needs_input_grad 0, needs_input_grad 1, has_bias \<and> needs_input_grad 2)) (\<lambda>(gi, gw, gb).
     ret [gi, gw, gb]))"

definition convolution_autograd_forward ::
    "torch \<Rightarrow> kernel_ids \<Rightarrow> at_tensor \<Rightarrow> at_tensor \<Rightarrow> at_tensor option option \<Rightarrow> int list \<Rightarrow> int list \<Rightarrow> int list \<Rightarrow> bool
       \<Rightarrow> int list \<Rightarrow> int \<Rightarrow> ('d sys, exn, forward) action" where
  "convolution_autograd_forward pt ids input weight bias stride padding dilation transposed output_padding groups =
     andThen (convolution_op pt ids input weight (defined_bias bias) stride padding dilation transposed output_padding groups) (\<lambda>output.
     ret (output,
       save_symint_array ''output_padding'' output_padding
       (save_symint_array ''dilation'' dilation
       (save_symint_array ''padding'' padding
       (save_symint_array ''stride'' stride
       (save_value ''groups'' (Int_Value groups)
       (save_value ''transposed'' (Bool_Value transposed)
       (save_value ''has_bias'' (Bool_Value (defined_bias bias \<noteq> None)) (saving [input, weight])))))))))"

definition convolution_autograd_backward ::
    "torch \<Rightarrow> kernel_ids \<Rightarrow> (nat \<Rightarrow> bool) \<Rightarrow> autograd_context \<Rightarrow> at_tensor \<Rightarrow> ('d sys, exn, variable_list) action" where
  "convolution_autograd_backward pt ids needs_input_grad ctx grad =
     andThen (of_sum (to_bool (saved_data ctx ''has_bias''))) (\<lambda>has_bias.
     andThen (of_sum (to_bool (saved_data ctx ''transposed''))) (\<lambda>transposed.
     andThen (of_sum (to_int (saved_data ctx ''groups''))) (\<lambda>groups.
     andThen (of_sum (load_int_array ''stride'' ctx)) (\<lambda>stride.
     andThen (of_sum (load_int_array ''padding'' ctx)) (\<lambda>padding.
     andThen (of_sum (load_int_array ''dilation'' ctx)) (\<lambda>dilation.
     andThen (of_sum (load_int_array ''output_padding'' ctx)) (\<lambda>output_padding.
     andThen (convolution_backward pt ids (saved_variables ctx ! 0) grad (saved_variables ctx ! 1)
       stride padding dilation transposed output_padding groups
       (needs_input_grad 0, needs_input_grad 1, has_bias \<and> needs_input_grad 2)) (\<lambda>(gi, gw, gb).
     ret ([gi, gw, gb] @ replicate 6 None)))))))))"

section \<open>Losses\<close>

datatype loss_kind = Mse | L1 | L2 | CrossEntropy

text \<open>The numbers of the enumeration, in both directions.\<close>

fun kind_number :: "loss_kind \<Rightarrow> int" where
  "kind_number Mse = 0"
| "kind_number L1 = 1"
| "kind_number L2 = 2"
| "kind_number CrossEntropy = 3"

definition loss_kind_of :: "int \<Rightarrow> loss_kind option" where
  "loss_kind_of v = (if v = 0 then Some Mse else if v = 1 then Some L1 else if v = 2 then Some L2
     else if v = 3 then Some CrossEntropy else None)"

fun run_loss_forward ::
    "torch \<Rightarrow> kernel_ids \<Rightarrow> loss_kind option \<Rightarrow> at_tensor \<Rightarrow> at_tensor \<Rightarrow> ('d sys, exn, at_tensor) action" where
  "run_loss_forward pt ids (Some Mse) input target = mse_loss pt ids input target"
| "run_loss_forward pt ids (Some L1) input target = l1_loss pt ids input target"
| "run_loss_forward pt ids (Some L2) input target = l2_loss pt ids input target"
| "run_loss_forward pt ids (Some CrossEntropy) input target = cross_entropy_loss pt ids input target"
| "run_loss_forward pt ids None input target = throw (Runtime_error ''unknown Mini-GPU loss kind'')"

fun run_loss_backward ::
    "torch \<Rightarrow> kernel_ids \<Rightarrow> loss_kind option \<Rightarrow> at_tensor \<Rightarrow> at_tensor \<Rightarrow> at_tensor \<Rightarrow> ('d sys, exn, at_tensor) action" where
  "run_loss_backward pt ids (Some Mse) grad input target = mse_loss_backward pt ids grad input target"
| "run_loss_backward pt ids (Some L1) grad input target = l1_loss_backward pt ids grad input target"
| "run_loss_backward pt ids (Some L2) grad input target = l2_loss_backward pt ids grad input target"
| "run_loss_backward pt ids (Some CrossEntropy) grad input target = cross_entropy_loss_backward pt ids grad input target"
| "run_loss_backward pt ids None grad input target = throw (Runtime_error ''unknown Mini-GPU loss kind'')"

definition loss_autograd_forward ::
    "torch \<Rightarrow> kernel_ids \<Rightarrow> at_tensor \<Rightarrow> at_tensor \<Rightarrow> int \<Rightarrow> ('d sys, exn, forward) action" where
  "loss_autograd_forward pt ids input target kind_value =
     andThen (run_loss_forward pt ids (loss_kind_of kind_value) input target) (\<lambda>output.
     ret (output, save_value ''kind'' (Int_Value kind_value) (saving [input, target])))"

text \<open>The number -1.0, its bits as a float and as an element of each type the backend knows.\<close>

definition minus_one :: at_scalar where
  "minus_one = \<lparr>sc_is_one = False, sc_float = 0xBF800000, sc_element = (\<lambda>d. case d of
     kInt \<Rightarrow> [0xFF, 0xFF, 0xFF, 0xFF] | kFloat \<Rightarrow> [0, 0, 0x80, 0xBF] | kShort \<Rightarrow> [0xFF, 0xFF] | kChar \<Rightarrow> [0xFF]
   | kHalf \<Rightarrow> [0, 0xBC] | kFloat8_e4m3fn \<Rightarrow> [0xB8] | kOther _ \<Rightarrow> [])\<rparr>"

definition target_gradient ::
    "torch \<Rightarrow> kernel_ids \<Rightarrow> bool \<Rightarrow> at_tensor \<Rightarrow> ('d sys, exn, at_tensor option) action" where
  "target_gradient pt ids wanted grad_input =
     (if wanted then andThen (scal pt ids grad_input minus_one) (\<lambda>g. ret (Some g)) else ret None)"

text \<open>
  The input gradient is computed when either gradient is needed, and dropped at the end when only the
  target's was.
\<close>

definition loss_autograd_backward ::
    "torch \<Rightarrow> kernel_ids \<Rightarrow> (nat \<Rightarrow> bool) \<Rightarrow> autograd_context \<Rightarrow> at_tensor \<Rightarrow> ('d sys, exn, variable_list) action" where
  "loss_autograd_backward pt ids needs_input_grad ctx grad =
     andThen (of_sum (to_int (saved_data ctx ''kind''))) (\<lambda>kind_value.
     let kind = loss_kind_of kind_value;
         backward = run_loss_backward pt ids kind grad (saved_variables ctx ! 0) (saved_variables ctx ! 1);
         target_wanted = (needs_input_grad 1 \<and> kind \<noteq> Some CrossEntropy)
     in if needs_input_grad 0 then
          optional_output True backward (\<lambda>g.
            andThen (target_gradient pt ids target_wanted (the g)) (\<lambda>grad_target. ret [g, grad_target, None]))
        else if needs_input_grad 1 then
          with_temporary backward (\<lambda>g.
            andThen (target_gradient pt ids target_wanted g) (\<lambda>grad_target. ret [None, grad_target, None]))
        else ret [None, None, None])"

definition minigpu_autograd_loss ::
    "torch \<Rightarrow> kernel_ids \<Rightarrow> loss_kind \<Rightarrow> at_tensor \<Rightarrow> at_tensor \<Rightarrow> ('d sys, exn, forward) action" where
  "minigpu_autograd_loss pt ids kind input target = loss_autograd_forward pt ids input target (kind_number kind)"

section \<open>Registered wrappers\<close>

text \<open>The functions of the \<open>minigpu\<close> library that fix some of an operator's arguments.\<close>

definition minigpu_sum :: "torch \<Rightarrow> kernel_ids \<Rightarrow> at_tensor \<Rightarrow> ('d sys, exn, at_tensor) action" where
  "minigpu_sum pt ids a = sum_op pt ids a None"

definition minigpu_mean :: "torch \<Rightarrow> kernel_ids \<Rightarrow> at_tensor \<Rightarrow> ('d sys, exn, at_tensor) action" where
  "minigpu_mean pt ids a = mean_op pt ids a None"

definition minigpu_amax :: "torch \<Rightarrow> kernel_ids \<Rightarrow> at_tensor \<Rightarrow> ('d sys, exn, at_tensor) action" where
  "minigpu_amax pt ids a = amax_op pt ids a [] False"

definition minigpu_amin :: "torch \<Rightarrow> kernel_ids \<Rightarrow> at_tensor \<Rightarrow> ('d sys, exn, at_tensor) action" where
  "minigpu_amin pt ids a = amin_op pt ids a [] False"

definition minigpu_argmax :: "torch \<Rightarrow> kernel_ids \<Rightarrow> at_tensor \<Rightarrow> ('d sys, exn, at_tensor) action" where
  "minigpu_argmax pt ids a = argmax_op pt ids a None False"

definition minigpu_argmin :: "torch \<Rightarrow> kernel_ids \<Rightarrow> at_tensor \<Rightarrow> ('d sys, exn, at_tensor) action" where
  "minigpu_argmin pt ids a = argmin_op pt ids a None False"

definition minigpu_softmax :: "torch \<Rightarrow> kernel_ids \<Rightarrow> at_tensor \<Rightarrow> int \<Rightarrow> ('d sys, exn, at_tensor) action" where
  "minigpu_softmax pt ids a d = softmax_op pt ids a d None"

definition minigpu_max_pool2d ::
    "torch \<Rightarrow> kernel_ids \<Rightarrow> at_tensor \<Rightarrow> int list \<Rightarrow> int list \<Rightarrow> ('d sys, exn, at_tensor) action" where
  "minigpu_max_pool2d pt ids a kernel_size stride = max_pool2d_op pt ids a kernel_size stride [0, 0] [1, 1] False"

definition minigpu_avg_pool2d ::
    "torch \<Rightarrow> kernel_ids \<Rightarrow> at_tensor \<Rightarrow> int list \<Rightarrow> int list \<Rightarrow> ('d sys, exn, at_tensor) action" where
  "minigpu_avg_pool2d pt ids a kernel_size stride = avg_pool2d_op pt ids a kernel_size stride [0, 0] False True None"

section \<open>What is saved is loaded\<close>

lemma digits_of_dec: "digits_value 10 (dec i) = i" "list_all (is_digit 10) (dec i)"
  using render_digits [of 10 i] by (simp_all add: dec_def)

lemma dec_inject [simp]: "dec i = dec j \<longleftrightarrow> i = j"
  by (metis digits_of_dec(1))

lemma dec_not_size: "dec i \<noteq> ''_size''"
proof
  assume "dec i = ''_size''"
  then show False using digits_of_dec(2) [of i] by (simp add: is_digit_def digit_value_def Let_def)
qed

lemma save_value_fields [simp]:
  "saved_data (save_value k v ctx) = (saved_data ctx)(k \<mapsto> v)" "saved_variables (save_value k v ctx) = saved_variables ctx"
  by (simp_all add: save_value_def)

lemma saved_array:
  "saved_data (fold (\<lambda>i. save_value (prefix @ dec i) (f i)) is ctx) k
     = (if \<exists>i \<in> set is. k = prefix @ dec i then Some (f (digits_value 10 (drop (length prefix) k))) else saved_data ctx k)"
  "saved_variables (fold (\<lambda>i. save_value (prefix @ dec i) (f i)) is ctx) = saved_variables ctx"
  by (induction "is" arbitrary: ctx) (auto simp: digits_of_dec(1))

lemma save_symint_array_variables [simp]: "saved_variables (save_symint_array prefix values ctx) = saved_variables ctx"
  by (simp add: save_symint_array_def saved_array(2))

lemma save_symint_array_data:
  "saved_data (save_symint_array prefix values ctx) k =
     (if k = prefix @ ''_size'' then Some (Int_Value (int (length values)))
      else if \<exists>i < length values. k = prefix @ dec i then Some (Int_Value (values ! digits_value 10 (drop (length prefix) k)))
      else saved_data ctx k)"
  using dec_not_size by (auto simp: save_symint_array_def saved_array(1))

lemma map_ok_all: "(\<And>x. x \<in> set xs \<Longrightarrow> f x = Inr (g x)) \<Longrightarrow> map_ok f xs = Inr (map g xs)"
  by (induction xs) auto

text \<open>An array is found again, whatever was saved between under keys that are not the array's.\<close>

lemma load_saved_array:
  assumes "length values < 2 ^ 64"
    and "saved_data ctx (prefix @ ''_size'') = Some (Int_Value (int (length values)))"
    and "\<And>i. i < length values \<Longrightarrow> saved_data ctx (prefix @ dec i) = Some (Int_Value (values ! i))"
  shows "load_int_array prefix ctx = Inr values"
proof -
  have "int (length values) mod 2 ^ 64 = int (length values)" using assms(1) by simp
  moreover have "map_ok (\<lambda>i. to_int (saved_data ctx (prefix @ dec i))) [0..<length values]
      = Inr (map ((!) values) [0..<length values])"
    using assms(3) by (intro map_ok_all) simp
  ultimately show ?thesis using assms(2) by (simp add: load_int_array_def map_nth)
qed

lemma convolution_context:
  fixes stride padding dilation output_padding :: "int list" and groups transposed has_bias :: ivalue
    and base :: autograd_context
  defines "ctx \<equiv> save_symint_array ''output_padding'' output_padding (save_symint_array ''dilation'' dilation
       (save_symint_array ''padding'' padding (save_symint_array ''stride'' stride
       (save_value ''groups'' groups (save_value ''transposed'' transposed (save_value ''has_bias'' has_bias base))))))"
  assumes "length stride < 2 ^ 64" "length padding < 2 ^ 64" "length dilation < 2 ^ 64" "length output_padding < 2 ^ 64"
  shows "load_int_array ''stride'' ctx = Inr stride" "load_int_array ''padding'' ctx = Inr padding"
    "load_int_array ''dilation'' ctx = Inr dilation" "load_int_array ''output_padding'' ctx = Inr output_padding"
    "saved_data ctx ''groups'' = Some groups" "saved_data ctx ''transposed'' = Some transposed"
    "saved_data ctx ''has_bias'' = Some has_bias" "saved_variables ctx = saved_variables base"
proof -
  note saved = ctx_def save_symint_array_data dec_not_size digits_of_dec(1)
  show "load_int_array ''stride'' ctx = Inr stride" by (rule load_saved_array [OF assms(2)]) (simp_all add: saved)
  show "load_int_array ''padding'' ctx = Inr padding" by (rule load_saved_array [OF assms(3)]) (simp_all add: saved)
  show "load_int_array ''dilation'' ctx = Inr dilation" by (rule load_saved_array [OF assms(4)]) (simp_all add: saved)
  show "load_int_array ''output_padding'' ctx = Inr output_padding"
    by (rule load_saved_array [OF assms(5)]) (simp_all add: saved)
  show "saved_data ctx ''groups'' = Some groups" "saved_data ctx ''transposed'' = Some transposed"
    "saved_data ctx ''has_bias'' = Some has_bias" "saved_variables ctx = saved_variables base"
    by (simp_all add: saved)
qed

text \<open>
  C23: The backward pass of a convolution runs with the arguments of its forward pass: every array and
  flag that the forward function saved under names made of a prefix and a number is found again, none
  hides another, and the bias gradient is only asked for when there was a defined bias.
\<close>

theorem convolution_backward_arguments:
  assumes "convolution_autograd_forward pt ids input weight bias stride padding dilation transposed output_padding groups s
      = (Inr (output, ctx), s')"
    and "length stride < 2 ^ 64" "length padding < 2 ^ 64" "length dilation < 2 ^ 64" "length output_padding < 2 ^ 64"
  shows "convolution_autograd_backward pt ids needs ctx grad =
    andThen (convolution_backward pt ids input grad weight stride padding dilation transposed output_padding groups
      (needs 0, needs 1, defined_bias bias \<noteq> None \<and> needs 2)) (\<lambda>(gi, gw, gb). ret ([gi, gw, gb] @ replicate 6 None))"
proof -
  note found = convolution_context [OF assms(2-5)]
  have "ctx = save_symint_array ''output_padding'' output_padding (save_symint_array ''dilation'' dilation
       (save_symint_array ''padding'' padding (save_symint_array ''stride'' stride
       (save_value ''groups'' (Int_Value groups) (save_value ''transposed'' (Bool_Value transposed)
       (save_value ''has_bias'' (Bool_Value (defined_bias bias \<noteq> None)) (saving [input, weight])))))))"
    using assms(1) unfolding convolution_autograd_forward_def by (elim andThen_okE) auto
  then show ?thesis
    by (simp only: convolution_autograd_backward_def found to_int.simps to_bool.simps)
      (rule ext, simp add: andThen_def saving_def)
qed

definition demo_signal :: "u64 \<Rightarrow> at_tensor" where
  "demo_signal storage = \<lparr>at_device = PrivateUse1, at_dtype = kFloat, at_sizes = [1, 1, 1], at_strides = [1, 1, 1],
     at_storage_offset = 0, at_storage = storage\<rparr>"

lemma demo_convolution:
  "\<exists>s'. convolution_op demo_torch (\<lambda>_. Some 0) (demo_signal 41) (demo_signal 45) None [1] [0] [1] False [0] 1
     (serving ''conv1d.fp32'', ()) = (Inr (demo_signal 1), s')"
proof -
  have count: "window_count 1 0 1 1 name = Inr 1" for name
    by (simp add: window_count_def cdiv_def checked_u32_def)
  have new: "new_tensor demo_torch [1, 1, 1] kFloat (serving ''conv1d.fp32'', ()) = (Inr (demo_signal 1), (after_four ''conv1d.fp32'', ()))"
    by (simp add: serving_new contiguous_strides_def demo_signal_def)
  obtain c' where launch: "launch_kernel (\<lambda>_. Some 0) ''conv1d.fp32'' [\<lparr>ka_value = 10\<rparr>, \<lparr>ka_value = 11\<rparr>, \<lparr>ka_value = 0\<rparr>,
      arg_u32 1, arg_u32 1, arg_u32 1, arg_u32 1, arg_u32 1, arg_u32 1, arg_u32 1, arg_u32 1, arg_u32 0] None
      (after_four ''conv1d.fp32'', ()) = (Inr (), (c', ()))"
    using serving_launch by blast
  show ?thesis
    by (simp add: convolution_op_def convolution_1d_def convolution_checks_def bias_checks_def andThen_def demo_signal_def
        require_minigpu_contiguous_def is_contiguous_def demo_torch_fields contiguous_strides_def dim_def int_array_all_def sym_array_all_def
        supported_kernel_dtype_def checked_u32_def sym_array_u32_def sym_u32_def count with_output_def)
      (simp add: new [unfolded demo_signal_def] on_views_def andThen_def view_of_def device_address_def is_minigpu_tensor_def demo_torch_fields
        numel_def decode_def launch_conv1d_def launch_named_def ptr_def arg_device_ptr_def num_def u32_of_def launch)
qed

lemma convolution_backward_arguments_witness:
  "\<exists>output ctx s'. convolution_autograd_forward demo_torch (\<lambda>_. Some 0) (demo_signal 41) (demo_signal 45) None [1] [0] [1]
       False [0] 1 (serving ''conv1d.fp32'', ()) = (Inr (output, ctx), s')
     \<and> convolution_autograd_backward demo_torch (\<lambda>_. Some 0) (\<lambda>_. True) ctx (demo_signal 9)
       = (andThen (convolution_backward demo_torch (\<lambda>_. Some 0) (demo_signal 41) (demo_signal 9) (demo_signal 45) [1] [0] [1]
           False [0] 1 (True, True, False)) (\<lambda>(gi, gw, gb). ret ([gi, gw, gb] @ replicate 6 None))
          :: (unit sys, exn, variable_list) action)"
proof -
  obtain s' where "convolution_op demo_torch (\<lambda>_. Some 0) (demo_signal 41) (demo_signal 45) None [1] [0] [1] False [0] 1
      (serving ''conv1d.fp32'', ()) = (Inr (demo_signal 1), s')" using demo_convolution by blast
  then obtain out ctx where run: "convolution_autograd_forward demo_torch (\<lambda>_. Some 0) (demo_signal 41) (demo_signal 45)
      None [1] [0] [1] False [0] 1 (serving ''conv1d.fp32'', ()) = (Inr (out, ctx), s')"
    by (simp add: convolution_autograd_forward_def defined_bias_def andThen_def)
  show ?thesis
    using run convolution_backward_arguments [OF run, where needs = "\<lambda>_. True" and grad = "demo_signal 9"]
    by (cases s') (auto simp: defined_bias_def)
qed

section \<open>Who owns the gradients\<close>

definition defined :: "variable_list \<Rightarrow> at_tensor list" where
  "defined gs = List.map_filter id gs"

definition forward_result :: "forward \<Rightarrow> at_tensor list" where
  "forward_result f = [fst f]"

lemma neat_map:
  assumes "neat own m" and "\<And>x. own' (f x) = own x"
  shows "neat own' (andThen m (\<lambda>x. ret (f x)))"
proof (rule neatI)
  show "confined (andThen m (\<lambda>x. ret (f x)))" by (intro confined_intros neat_confined [OF assms(1)])
next
  fix s r s' assume s: "sys_ok s" and run: "andThen m (\<lambda>x. ret (f x)) s = (r, s')"
  obtain q t where m: "m s = (q, t)" by (metis prod.exhaust)
  show "sys_ok s' \<and> adds (case r of Inl _ \<Rightarrow> [] | Inr x \<Rightarrow> own' x) (held s) (held s')"
    using neatD [OF assms(1) s m] run m assms(2) by (cases q) (auto simp: andThen_def)
qed

lemma neat_more_losses:
  assumes "storage_sane pt"
  shows "neat result (l1_loss pt ids a b)" "neat result (l2_loss pt ids a b)"
    "neat result (mse_loss_backward pt ids g a b)" "neat result (l1_loss_backward pt ids g a b)"
    "neat result (l2_loss_backward pt ids g a b)"
  unfolding l1_loss_def l2_loss_def mse_loss_backward_def l1_loss_backward_def l2_loss_backward_def
  by (intro operator_intros assms)+

lemma neat_run_loss:
  assumes "storage_sane pt"
  shows "neat result (run_loss_forward pt ids kind a b)" and "neat result (run_loss_backward pt ids kind g a b)"
proof -
  show "neat result (run_loss_forward pt ids kind a b)"
    using neat_losses [OF assms] neat_more_losses [OF assms]
    by (cases "(pt, ids, kind, a, b)" rule: run_loss_forward.cases) (auto intro: neat_throw)
  show "neat result (run_loss_backward pt ids kind g a b)"
    using neat_losses [OF assms] neat_more_losses [OF assms]
    by (cases "(pt, ids, kind, g, a, b)" rule: run_loss_backward.cases) (auto intro: neat_throw)
qed

lemma neat_target_gradient: "storage_sane pt \<Longrightarrow> neat (\<lambda>g. defined [g]) (target_gradient pt ids wanted t)"
  unfolding target_gradient_def
  by (intro neat_if neat_map [OF neat_elementwise(3)] neat_ret) (simp_all add: defined_def map_filter_simps)

lemma neat_loss_backward:
  assumes "storage_sane pt"
  shows "neat defined (loss_autograd_backward pt ids needs ctx grad)"
proof -
  have both: "neat defined (optional_output True m (\<lambda>g.
      andThen (target_gradient pt ids w (the g)) (\<lambda>t. ret [g, t, None])))" if "neat result m" for m :: "('a sys, exn, at_tensor) action" and w
    by (rule neat_optional_output [where rest_own = "\<lambda>gs. defined (tl gs)", OF that])
      (auto intro!: neat_map [OF neat_target_gradient [OF assms]] simp: defined_def map_filter_simps elim!: andThen_okE
        split: option.splits)
  have target: "neat defined (with_temporary m (\<lambda>g.
      andThen (target_gradient pt ids w g) (\<lambda>t. ret [None, t, None])))" if "neat result m" for m :: "('a sys, exn, at_tensor) action" and w
    by (intro neat_with_temporary [OF that] neat_map [OF neat_target_gradient [OF assms]])
      (simp add: defined_def map_filter_simps split: option.splits)
  show ?thesis unfolding loss_autograd_backward_def Let_def
    by (intro neat_andThen neat_of_sum neat_if both target neat_run_loss assms neat_ret)
      (simp add: defined_def map_filter_simps)
qed

lemma converted_input_copies:
  "converted_input pt input dtype = with_output (empty pt (at_sizes input) (Some dtype) (Some Strided) (Some False) None)
     (\<lambda>out. andThen (copy_tensor pt (Gpu out) (Gpu input)) (\<lambda>_. ret ()))"
  by (rule ext) (auto simp: converted_input_def to_copy_def Let_def andThen_def split: prod.splits sum.splits)

lemma neat_converted_input: "storage_sane pt \<Longrightarrow> neat result (converted_input pt input dtype)"
  unfolding converted_input_copies
  by (intro neat_with_output neat_new_tensor neat_andThen neat_copy_tensor neat_ret refl)

lemma neat_softmax_forward:
  assumes "storage_sane pt"
  shows "neat forward_result (softmax_autograd_forward pt ids input d half)"
  unfolding softmax_autograd_forward_def
  by (rule neat_map [OF neat_reductions(4) [OF assms]]) (simp add: forward_result_def)

lemma neat_layer_backward:
  assumes "storage_sane pt"
  shows "neat defined (linear_autograd_backward pt ids needs ctx grad)"
    and "neat defined (convolution_autograd_backward pt ids needs ctx grad)"
proof -
  have triple: "defined (case g of (gi, gw, gb) \<Rightarrow> [gi, gw, gb] @ replicate k None) = gradients g" for g k
  proof -
    have "List.map_filter id (replicate k (None :: at_tensor option)) = []" by (induction k) (simp_all add: map_filter_simps)
    then show ?thesis by (cases g) (simp add: defined_def gradients_def map_filter_simps split: option.splits)
  qed
  have "neat defined (andThen m (\<lambda>(gi, gw, gb). ret ([gi, gw, gb] @ replicate k None)))" if "neat gradients m" for m and k
    using neat_map [OF that, of defined "\<lambda>(gi, gw, gb). [gi, gw, gb] @ replicate k None"] triple
    by (simp add: case_prod_unfold)
  note layer = this [of _ 0, simplified] this [of _ 6]
  show "neat defined (linear_autograd_backward pt ids needs ctx grad)"
    unfolding linear_autograd_backward_def
    by (intro neat_andThen [OF neat_of_sum] layer(1) neat_backward [OF assms])
  show "neat defined (convolution_autograd_backward pt ids needs ctx grad)"
    unfolding convolution_autograd_backward_def
    by (intro neat_andThen [OF neat_of_sum] layer(2) neat_backward [OF assms])
qed

lemma neat_autograd_forward:
  assumes "storage_sane pt"
  shows "neat forward_result (minigpu_autograd_softmax pt ids input d dtype)"
    and "neat forward_result (minigpu_autograd_loss pt ids kind input target)"
proof -
  show "neat forward_result (minigpu_autograd_softmax pt ids input d dtype)"
    unfolding minigpu_autograd_softmax_def
    by (intro neat_case_option neat_if neat_with_temporary neat_converted_input neat_softmax_forward assms)
  show "neat forward_result (minigpu_autograd_loss pt ids kind input target)"
    unfolding minigpu_autograd_loss_def loss_autograd_forward_def
    by (rule neat_map [OF neat_run_loss(1) [OF assms]]) (simp add: forward_result_def)
qed

text \<open>
  C24: The autograd functions keep the ownership contract too: after a backward call the new device memory
  is exactly that of the gradients it returned, a gradient computed only on the way to another one is
  gone, and after an exception nothing is left; the same holds of a softmax that first converts its input.
\<close>

theorem autograd_owns_its_results:
  assumes "storage_sane pt"
  shows "neat forward_result (minigpu_autograd_softmax pt ids input d dtype)
    \<and> neat forward_result (minigpu_autograd_loss pt ids kind input target)
    \<and> neat defined (loss_autograd_backward pt ids needs ctx grad)
    \<and> neat defined (linear_autograd_backward pt ids needs ctx grad)
    \<and> neat defined (convolution_autograd_backward pt ids needs ctx grad)"
  by (intro conjI neat_autograd_forward neat_loss_backward neat_layer_backward assms)

text \<open>The conversion is allocated, the device cannot be read, and the memory is given back.\<close>

lemma demo_conversion:
  "fst (minigpu_autograd_softmax demo_torch (\<lambda>_. None) (demo_matrix 1) 1 (Some kFloat) (small_context, ())) = Inl (error Unsupported)"
proof -
  have new: "empty demo_torch [2, 2] (Some kFloat) (Some Strided) (Some False) None (small_context, ())
      = (Inr ((demo_matrix 1)\<lparr>at_dtype := kFloat\<rparr>), (small_context\<lparr>ctx_blocks := [\<lparr>boffset = 0, bsize = 16, bfree = False\<rparr>,
           \<lparr>boffset = 16, bsize = 40, bfree = True\<rparr>]\<rparr>, ()))"
    by (simp add: empty_def generic_tensor_def requires_run demo_torch_fields small_allocate andThen_def demo_matrix_def
        contiguous_strides_def)
  show ?thesis
    by (simp add: minigpu_autograd_softmax_def converted_input_copies with_temporary_def with_output_def andThen_def
        demo_matrix_def new [unfolded demo_matrix_def])
      (simp add: copy_tensor_def requires_run any_nbytes_def demo_torch_fields require_contiguous_def is_contiguous_def
        contiguous_strides_def download_def andThen_def decode_def numel_def copy_from_device_def range_is_allocated_def small_context_def no_transport_def
        tensor_nbytes_def add_overflows_addr_iff demo_torch_def)
qed

lemma autograd_owns_its_results_witness:
  "held (snd (minigpu_autograd_softmax demo_torch (\<lambda>_. None) (demo_matrix 1) 1 (Some kFloat) (small_context, ()))) = {}"
proof -
  obtain s' where r: "minigpu_autograd_softmax demo_torch (\<lambda>_. None) (demo_matrix 1) 1 (Some kFloat) (small_context, ())
      = (Inl (error Unsupported), s')" using demo_conversion by (metis prod.collapse)
  moreover have "held (small_context, ()) = {}" by (simp add: held_def small_context_def)
  moreover note neatD(2) [OF autograd_owns_its_results [OF demo_storage_sane, THEN conjunct1] small_sys_ok r]
  ultimately show ?thesis using r by simp
qed

end
