(* ===== verification/DeviceReduce.thy ===== *)
theory DeviceReduce
  imports DeviceKernels
begin

text \<open>
  The pooling, reduction, softmax and loss kernels (\<open>pool.cu\<close>, \<open>reduction.cu\<close>, \<open>softmax.cu\<close> and
  \<open>loss.cu\<close> under \<open>runtime/kernels/src\<close>). In a kernel without a lane loop every lane computes and
  writes the same word.
\<close>

section \<open>Pooling\<close>

definition pool_window ::
    "int \<Rightarrow> int \<Rightarrow> int \<Rightarrow> int \<Rightarrow> int \<Rightarrow> int \<Rightarrow> int \<Rightarrow> int \<Rightarrow> (int \<times> int \<times> int \<times> int) option" where
  "pool_window channels input_height input_width output_height output_width stride_h stride_w idx =
     Option.bind (cdiv idx output_width) (\<lambda>tmp.
       let ox = idx - tmp * output_width
       in Option.bind (cdiv tmp output_height) (\<lambda>tmp2.
         let oy = tmp - tmp2 * output_height
         in Option.bind (cdiv tmp2 channels) (\<lambda>n.
           let c = tmp2 - n * channels;
               base = n * channels * input_height * input_width + c * input_height * input_width;
               iy0 = oy * stride_h;
               ix0 = ox * stride_w
           in Some (base + iy0 * input_width + ix0,
                    base + iy0 * input_width + ix0 + 1,
                    base + (iy0 + 1) * input_width + ix0,
                    base + (iy0 + 1) * input_width + ix0 + 1))))"

definition max_pool2d_element ::
    "fpu \<Rightarrow> int \<Rightarrow> int \<Rightarrow> int \<Rightarrow> int \<Rightarrow> int \<Rightarrow> int \<Rightarrow> int \<Rightarrow> int \<Rightarrow> int \<Rightarrow> u32 element" where
  "max_pool2d_element f input out channels input_height input_width output_height output_width
     stride_h stride_w idx mem =
     Option.bind (pool_window channels input_height input_width output_height output_width
         stride_h stride_w idx)
       (\<lambda>(p0, p1, p2, p3).
         let best = mem (input + p0);
             v1 = mem (input + p1);
             v2 = mem (input + p2);
             v3 = mem (input + p3);
             best = (if fp_gt f v1 best then v1 else best);
             best = (if fp_gt f v2 best then v2 else best);
             best = (if fp_gt f v3 best then v3 else best)
         in Some (mem(out + idx := best)))"

definition max_pool2d_fp32 ::
    "fpu \<Rightarrow> int \<Rightarrow> int \<Rightarrow> int \<Rightarrow> int \<Rightarrow> int \<Rightarrow> int \<Rightarrow> int \<Rightarrow> int \<Rightarrow> int \<Rightarrow> int \<Rightarrow> u32 lane" where
  "max_pool2d_fp32 f input out total_count channels input_height input_width output_height output_width
     stride_h stride_w =
     over_elements total_count (max_pool2d_element f input out channels input_height input_width
       output_height output_width stride_h stride_w)"

definition avg_pool2d_element ::
    "fpu \<Rightarrow> int \<Rightarrow> int \<Rightarrow> int \<Rightarrow> int \<Rightarrow> int \<Rightarrow> int \<Rightarrow> int \<Rightarrow> int \<Rightarrow> int \<Rightarrow> u32 element" where
  "avg_pool2d_element f input out channels input_height input_width output_height output_width
     stride_h stride_w idx mem =
     Option.bind (pool_window channels input_height input_width output_height output_width
         stride_h stride_w idx)
       (\<lambda>(p0, p1, p2, p3).
         let sum = mem (input + p0);
             sum = fp_add f sum (mem (input + p1));
             sum = fp_add f sum (mem (input + p2));
             sum = fp_add f sum (mem (input + p3))
         in Some (mem(out + idx := fp_mul f sum 0x3e800000)))"

definition avg_pool2d_fp32 ::
    "fpu \<Rightarrow> int \<Rightarrow> int \<Rightarrow> int \<Rightarrow> int \<Rightarrow> int \<Rightarrow> int \<Rightarrow> int \<Rightarrow> int \<Rightarrow> int \<Rightarrow> int \<Rightarrow> u32 lane" where
  "avg_pool2d_fp32 f input out total_count channels input_height input_width output_height output_width
     stride_h stride_w =
     over_elements total_count (avg_pool2d_element f input out channels input_height input_width
       output_height output_width stride_h stride_w)"

definition adaptive_avg_pool2d_fp32 ::
    "fpu \<Rightarrow> int \<Rightarrow> int \<Rightarrow> int \<Rightarrow> int \<Rightarrow> int \<Rightarrow> int \<Rightarrow> int \<Rightarrow> int \<Rightarrow> u32 lane" where
  "adaptive_avg_pool2d_fp32 f input out total_count channels input_height input_width output_height
     output_width =
     over_elements total_count (avg_pool2d_element f input out channels input_height input_width
       output_height output_width 2 2)"

section \<open>Reductions\<close>

definition sum_value :: "fpu \<Rightarrow> u32 words \<Rightarrow> int \<Rightarrow> int \<Rightarrow> u32" where
  "sum_value f mem a n = for_range 0 n (\<lambda>i acc. fp_add f acc (mem (a + i))) 0"

definition sum_fp32 :: "fpu \<Rightarrow> int \<Rightarrow> int \<Rightarrow> int \<Rightarrow> u32 lane" where
  "sum_fp32 f a out n stride lane mem = Some (mem(out := sum_value f mem a n))"

definition mean_fp32 :: "fpu \<Rightarrow> int \<Rightarrow> int \<Rightarrow> int \<Rightarrow> u32 \<Rightarrow> u32 lane" where
  "mean_fp32 f a out n inv_n stride lane mem =
     Some (mem(out := fp_mul f (sum_value f mem a n) inv_n))"

text \<open>The scans for an extreme value keep the best value, or its index and the value.\<close>

definition scan_value :: "(u32 \<Rightarrow> u32 \<Rightarrow> bool) \<Rightarrow> u32 words \<Rightarrow> int \<Rightarrow> int \<Rightarrow> u32" where
  "scan_value better mem a n =
     for_range 1 n (\<lambda>i best. if better (mem (a + i)) best then mem (a + i) else best) (mem a)"

definition scan_index :: "(u32 \<Rightarrow> u32 \<Rightarrow> bool) \<Rightarrow> u32 words \<Rightarrow> int \<Rightarrow> int \<Rightarrow> int \<times> u32" where
  "scan_index better mem a n =
     for_range 1 n (\<lambda>i (best_index, best).
       if better (mem (a + i)) best then (i, mem (a + i)) else (best_index, best)) (0, mem a)"

definition amax_fp32 :: "int \<Rightarrow> int \<Rightarrow> int \<Rightarrow> u32 lane" where
  "amax_fp32 a out n stride lane mem = Some (mem(out := scan_value minigpu_float_gt mem a n))"

definition amin_fp32 :: "int \<Rightarrow> int \<Rightarrow> int \<Rightarrow> u32 lane" where
  "amin_fp32 a out n stride lane mem = Some (mem(out := scan_value minigpu_float_lt mem a n))"

definition argmax_fp32 :: "int \<Rightarrow> int \<Rightarrow> int \<Rightarrow> u32 lane" where
  "argmax_fp32 a out n stride lane mem =
     Some (mem(out := of_int (fst (scan_index minigpu_float_gt mem a n))))"

definition argmin_fp32 :: "int \<Rightarrow> int \<Rightarrow> int \<Rightarrow> u32 lane" where
  "argmin_fp32 a out n stride lane mem =
     Some (mem(out := of_int (fst (scan_index minigpu_float_lt mem a n))))"

section \<open>Softmax\<close>

definition softmax_row :: "fpu \<Rightarrow> int \<Rightarrow> int \<Rightarrow> int \<Rightarrow> u32 element" where
  "softmax_row f input out cols row mem =
     (let base = row * cols;
          (mem, sum) = for_range 0 cols (\<lambda>col (mem, sum).
            let e = expf f (mem (input + (base + col)))
            in (mem(out + (base + col) := e), fp_add f sum e)) (mem, 0);
          inv_sum = rcpf f sum
      in Some (for_range 0 cols (\<lambda>col mem.
           mem(out + (base + col) := fp_mul f (mem (out + (base + col))) inv_sum)) mem))"

definition softmax_fp32 :: "fpu \<Rightarrow> int \<Rightarrow> int \<Rightarrow> int \<Rightarrow> int \<Rightarrow> u32 lane" where
  "softmax_fp32 f input out rows cols = over_elements rows (softmax_row f input out cols)"

definition softmax_backward_row :: "fpu \<Rightarrow> int \<Rightarrow> int \<Rightarrow> int \<Rightarrow> int \<Rightarrow> u32 element" where
  "softmax_backward_row f grad_out output out cols row mem =
     (let base = row * cols;
          dot = for_range 0 cols (\<lambda>col dot. fp_add f dot
            (fp_mul f (mem (grad_out + (base + col))) (mem (output + (base + col))))) 0
      in Some (for_range 0 cols (\<lambda>col mem.
           mem(out + (base + col) := fp_mul f (mem (output + (base + col)))
             (fp_sub f (mem (grad_out + (base + col))) dot))) mem))"

definition softmax_backward_fp32 :: "fpu \<Rightarrow> int \<Rightarrow> int \<Rightarrow> int \<Rightarrow> int \<Rightarrow> int \<Rightarrow> u32 lane" where
  "softmax_backward_fp32 f grad_out output out rows cols =
     over_elements rows (softmax_backward_row f grad_out output out cols)"

section \<open>Losses\<close>

definition cross_entropy_rcp_positive :: "fpu \<Rightarrow> u32 \<Rightarrow> u32" where
  "cross_entropy_rcp_positive f x =
     (let y = 0x7ef311c3 - x;
          y = fp_mul f y (fp_sub f 0x40000000 (fp_mul f x y));
          y = fp_mul f y (fp_sub f 0x40000000 (fp_mul f x y));
          y = fp_mul f y (fp_sub f 0x40000000 (fp_mul f x y))
      in y)"

definition squared_error :: "fpu \<Rightarrow> u32 words \<Rightarrow> int \<Rightarrow> int \<Rightarrow> int \<Rightarrow> u32" where
  "squared_error f mem input target n =
     for_range 0 n (\<lambda>i acc. let diff = fp_sub f (mem (input + i)) (mem (target + i))
                             in fp_add f acc (fp_mul f diff diff)) 0"

definition mse_loss_fp32 :: "fpu \<Rightarrow> int \<Rightarrow> int \<Rightarrow> int \<Rightarrow> int \<Rightarrow> u32 \<Rightarrow> u32 lane" where
  "mse_loss_fp32 f input target out n inv_n stride lane mem =
     Some (mem(out := fp_mul f (squared_error f mem input target n) inv_n))"

definition mse_loss_backward_fp32 :: "fpu \<Rightarrow> int \<Rightarrow> int \<Rightarrow> int \<Rightarrow> int \<Rightarrow> int \<Rightarrow> u32 \<Rightarrow> u32 lane" where
  "mse_loss_backward_fp32 f grad_out input target out n scale stride lane mem =
     (let g = fp_mul f (mem grad_out) scale
      in over_elements n (map2_element (\<lambda>x t. fp_mul f g (fp_sub f x t)) input target out) stride lane mem)"

definition l1_loss_fp32 :: "fpu \<Rightarrow> int \<Rightarrow> int \<Rightarrow> int \<Rightarrow> int \<Rightarrow> u32 \<Rightarrow> u32 lane" where
  "l1_loss_fp32 f input target out n inv_n stride lane mem =
     Some (mem(out := fp_mul f (for_range 0 n (\<lambda>i acc.
       fp_add f acc (fabsf (fp_sub f (mem (input + i)) (mem (target + i))))) 0) inv_n))"

definition l1_sign :: "fpu \<Rightarrow> u32 \<Rightarrow> u32 \<Rightarrow> u32" where
  "l1_sign f x t =
     (let diff = fp_sub f x t;
          sgn_of = 0;
          sgn_of = (if minigpu_float_gt diff 0 then 0x3f800000 else sgn_of);
          sgn_of = (if minigpu_float_lt diff 0 then 0xbf800000 else sgn_of)
      in sgn_of)"

definition l1_loss_backward_fp32 :: "fpu \<Rightarrow> int \<Rightarrow> int \<Rightarrow> int \<Rightarrow> int \<Rightarrow> int \<Rightarrow> u32 \<Rightarrow> u32 lane" where
  "l1_loss_backward_fp32 f grad_out input target out n scale stride lane mem =
     (let g = fp_mul f (mem grad_out) scale
      in over_elements n (map2_element (\<lambda>x t. fp_mul f g (l1_sign f x t)) input target out) stride lane mem)"

definition l2_loss_fp32 :: "fpu \<Rightarrow> int \<Rightarrow> int \<Rightarrow> int \<Rightarrow> int \<Rightarrow> u32 lane" where
  "l2_loss_fp32 f input target out n stride lane mem =
     Some (mem(out := fp_mul f 0x3f000000 (squared_error f mem input target n)))"

definition l2_loss_backward_fp32 :: "fpu \<Rightarrow> int \<Rightarrow> int \<Rightarrow> int \<Rightarrow> int \<Rightarrow> int \<Rightarrow> u32 lane" where
  "l2_loss_backward_fp32 f grad_out input target out n stride lane mem =
     (let g = mem grad_out
      in over_elements n (map2_element (\<lambda>x t. fp_mul f g (fp_sub f x t)) input target out) stride lane mem)"

section \<open>Cross entropy\<close>

text \<open>The scan for the largest logit of a row, and the pass that sums the exponentials.\<close>

definition row_max :: "fpu \<Rightarrow> u32 words \<Rightarrow> int \<Rightarrow> int \<Rightarrow> int \<Rightarrow> u32" where
  "row_max f mem logits base cols =
     for_range 1 cols (\<lambda>col max_value.
       if fp_gt f (mem (logits + (base + col))) max_value then mem (logits + (base + col))
       else max_value) (mem (logits + base))"

definition row_exp_sum :: "fpu \<Rightarrow> u32 words \<Rightarrow> int \<Rightarrow> int \<Rightarrow> int \<Rightarrow> int \<Rightarrow> u32 \<Rightarrow> u32 \<times> u32" where
  "row_exp_sum f mem logits base cols label max_value =
     for_range 0 cols (\<lambda>col (exp_sum, target_logit).
       let v = mem (logits + (base + col))
       in (fp_add f exp_sum (expf f (fp_sub f v max_value)), if col = label then v else target_logit))
       (0, mem (logits + base))"

definition cross_entropy_stats_row :: "fpu \<Rightarrow> int \<Rightarrow> int \<Rightarrow> int \<Rightarrow> int \<Rightarrow> u32 element" where
  "cross_entropy_stats_row f logits target stats cols row mem =
     (let base = row * cols;
          max_value = row_max f mem logits base cols;
          label = sint (mem (target + row));
          (exp_sum, target_logit) = row_exp_sum f mem logits base cols label max_value;
          stats_base = row * 3
      in Some (mem(stats + (stats_base + 0) := max_value,
                   stats + (stats_base + 1) := exp_sum,
                   stats + (stats_base + 2) := target_logit)))"

definition cross_entropy_stats_fp32 :: "fpu \<Rightarrow> int \<Rightarrow> int \<Rightarrow> int \<Rightarrow> int \<Rightarrow> int \<Rightarrow> u32 lane" where
  "cross_entropy_stats_fp32 f logits target stats rows cols =
     over_elements rows (cross_entropy_stats_row f logits target stats cols)"

definition cross_entropy_finish_fp32 :: "fpu \<Rightarrow> int \<Rightarrow> int \<Rightarrow> int \<Rightarrow> u32 \<Rightarrow> u32 lane" where
  "cross_entropy_finish_fp32 f stats out rows inv_rows stride lane mem =
     Some (mem(out := fp_mul f (for_range 0 rows (\<lambda>row total_loss.
       let stats_base = row * 3;
           log_sum = logf f (mem (stats + (stats_base + 1)))
       in fp_add f total_loss (fp_sub f (fp_add f log_sum (mem (stats + (stats_base + 0))))
            (mem (stats + (stats_base + 2))))) 0) inv_rows))"

definition write_debug_row ::
    "fpu \<Rightarrow> int \<Rightarrow> int \<Rightarrow> u32 \<Rightarrow> u32 \<Rightarrow> u32 \<Rightarrow> u32 words \<Rightarrow> u32 words" where
  "write_debug_row f out row max_value exp_sum target_logit mem =
     (let log_sum = logf f exp_sum;
          out_base = row * 5
      in mem(out + (out_base + 0) := max_value,
             out + (out_base + 1) := exp_sum,
             out + (out_base + 2) := log_sum,
             out + (out_base + 3) := target_logit,
             out + (out_base + 4) := fp_sub f (fp_add f log_sum max_value) target_logit))"

definition cross_entropy_debug_finish_row :: "fpu \<Rightarrow> int \<Rightarrow> int \<Rightarrow> u32 element" where
  "cross_entropy_debug_finish_row f stats out row mem =
     (let stats_base = row * 3
      in Some (write_debug_row f out row (mem (stats + (stats_base + 0)))
           (mem (stats + (stats_base + 1))) (mem (stats + (stats_base + 2))) mem))"

definition cross_entropy_debug_finish_fp32 :: "fpu \<Rightarrow> int \<Rightarrow> int \<Rightarrow> int \<Rightarrow> u32 lane" where
  "cross_entropy_debug_finish_fp32 f stats out rows =
     over_elements rows (cross_entropy_debug_finish_row f stats out)"

definition cross_entropy_debug_row :: "fpu \<Rightarrow> int \<Rightarrow> int \<Rightarrow> int \<Rightarrow> int \<Rightarrow> u32 element" where
  "cross_entropy_debug_row f logits target out cols row mem =
     (let base = row * cols;
          max_value = row_max f mem logits base cols;
          label = sint (mem (target + row));
          (exp_sum, target_logit) = row_exp_sum f mem logits base cols label max_value
      in Some (write_debug_row f out row max_value exp_sum target_logit mem))"

definition cross_entropy_debug_fp32 :: "fpu \<Rightarrow> int \<Rightarrow> int \<Rightarrow> int \<Rightarrow> int \<Rightarrow> int \<Rightarrow> u32 lane" where
  "cross_entropy_debug_fp32 f logits target out rows cols =
     over_elements rows (cross_entropy_debug_row f logits target out cols)"

definition cross_entropy_backward_element ::
    "fpu \<Rightarrow> u32 \<Rightarrow> int \<Rightarrow> int \<Rightarrow> int \<Rightarrow> int \<Rightarrow> u32 element" where
  "cross_entropy_backward_element f g logits target out cols i mem =
     Option.bind (cdiv i cols) (\<lambda>row.
       let col = i - row * cols;
           base = row * cols;
           max_value = row_max f mem logits base cols;
           exp_sum = for_range 0 cols (\<lambda>scan exp_sum.
             fp_add f exp_sum (expf f (fp_sub f (mem (logits + (base + scan))) max_value))) 0;
           prob = fp_mul f (expf f (fp_sub f (mem (logits + i)) max_value))
             (cross_entropy_rcp_positive f exp_sum);
           prob = (if col = sint (mem (target + row)) then fp_sub f prob 0x3f800000 else prob)
       in Some (mem(out + i := fp_mul f g prob)))"

definition cross_entropy_backward_fp32 ::
    "fpu \<Rightarrow> int \<Rightarrow> int \<Rightarrow> int \<Rightarrow> int \<Rightarrow> int \<Rightarrow> int \<Rightarrow> u32 \<Rightarrow> u32 lane" where
  "cross_entropy_backward_fp32 f grad_out logits target out rows cols inv_rows stride lane mem =
     (let g = fp_mul f (mem grad_out) inv_rows; n = rows * cols
      in over_elements n (cross_entropy_backward_element f g logits target out cols) stride lane mem)"

end
