(* ===== verification/ReduceSpec.thy ===== *)
theory ReduceSpec
  imports DeviceReduce
begin

text \<open>
  What the reduction, softmax, pooling and cross-entropy kernels compute.
\<close>

section \<open>Extreme values\<close>

text \<open>The index that a scan keeps, and the value at it, for an order given by a key.\<close>

definition first_best :: "(u32 \<Rightarrow> int) \<Rightarrow> u32 words \<Rightarrow> int \<Rightarrow> int \<Rightarrow> int \<Rightarrow> bool" where
  "first_best key mem a n r \<longleftrightarrow> 0 \<le> r \<and> r < n
     \<and> (\<forall>i. 0 \<le> i \<and> i < n \<longrightarrow> key (mem (a + i)) \<le> key (mem (a + r)))
     \<and> (\<forall>i. 0 \<le> i \<and> i < r \<longrightarrow> key (mem (a + i)) < key (mem (a + r)))"

lemma scan_index_from:
  assumes better: "\<And>u v. better u v \<longleftrightarrow> key v < key u"
    and "first_best key mem a lo r" and "lo \<le> n"
  shows "\<exists>r'. for_range lo n (\<lambda>i (best_index, best).
         if better (mem (a + i)) best then (i, mem (a + i)) else (best_index, best)) (r, mem (a + r))
       = (r', mem (a + r')) \<and> first_best key mem a n r'"
  using assms(2,3)
proof (induction "nat (n - lo)" arbitrary: lo r)
  case 0
  then show ?case by (subst for_range.simps) simp
next
  case (Suc k)
  then have lo: "lo < n" "k = nat (n - (lo + 1))" by linarith+
  let ?r = "if better (mem (a + lo)) (mem (a + r)) then lo else r"
  have keep: "first_best key mem a (lo + 1) ?r"
    using Suc.prems(1) unfolding first_best_def better by (auto simp: zless_add1_eq) force+
  show ?case
    using Suc.hyps(1) [OF lo(2) keep] lo(1) by (subst for_range.simps) (auto split: if_splits)
qed

lemma scan_index_first_best:
  assumes "\<And>u v. better u v \<longleftrightarrow> key v < key u" and "0 < n"
  shows "first_best key mem a n (fst (scan_index better mem a n))
    \<and> snd (scan_index better mem a n) = mem (a + fst (scan_index better mem a n))"
proof -
  have "0 \<le> i \<and> i < 1 \<longleftrightarrow> i = (0 :: int)" for i by auto
  then have "first_best key mem a 1 0" by (simp add: first_best_def)
  from scan_index_from [of better key, OF assms(1) this, of n] assms(2)
  show ?thesis by (auto simp: scan_index_def)
qed

text \<open>The scan that keeps the value alone keeps the value of the other scan.\<close>

lemma scan_value_index: "scan_value better mem a n = snd (scan_index better mem a n)"
proof -
  have "for_range lo n (\<lambda>i best. if better (mem (a + i)) best then mem (a + i) else best) (snd p)
    = snd (for_range lo n (\<lambda>i (best_index, best).
         if better (mem (a + i)) best then (i, mem (a + i)) else (best_index, best)) p)" for lo and p :: "int \<times> u32"
  proof (induction "nat (n - lo)" arbitrary: lo p)
    case 0
    then show ?case by (subst (1 2) for_range.simps) simp
  next
    case (Suc k)
    then have lo: "lo < n" "k = nat (n - (lo + 1))" by linarith+
    show ?case
      using Suc.hyps(1) [OF lo(2), of "if better (mem (a + lo)) (snd p) then (lo, mem (a + lo)) else p"] lo(1)
      by (subst (1 2) for_range.simps) (auto split: prod.splits if_splits)
  qed
  from this [of 1 "(0, mem a)"] show ?thesis by (simp add: scan_value_def scan_index_def)
qed

text \<open>
  Extreme values. On at least one word every lane of the argmax kernel writes the index of the first
  word that is largest in the order of \<open>minigpu_float_order_key\<close>, and of amax its value; argmin and amin
  do the same for the smallest word. No other word changes.
\<close>

theorem extreme_value_kernels:
  assumes "0 < n"
  shows "\<exists>hi lo. first_best minigpu_float_order_key mem a n hi
    \<and> first_best (\<lambda>x. - minigpu_float_order_key x) mem a n lo
    \<and> argmax_fp32 a out n stride lane mem = Some (mem(out := of_int hi))
    \<and> amax_fp32 a out n stride lane mem = Some (mem(out := mem (a + hi)))
    \<and> argmin_fp32 a out n stride lane mem = Some (mem(out := of_int lo))
    \<and> amin_fp32 a out n stride lane mem = Some (mem(out := mem (a + lo)))"
proof -
  note hi = scan_index_first_best [of minigpu_float_gt minigpu_float_order_key n mem a, OF minigpu_float_gt_def assms]
  have "minigpu_float_lt u v \<longleftrightarrow> - minigpu_float_order_key v < - minigpu_float_order_key u" for u v
    by (simp add: minigpu_float_lt_def)
  note lo = scan_index_first_best [of minigpu_float_lt "\<lambda>x. - minigpu_float_order_key x" n mem a, OF this assms]
  show ?thesis
    by (intro exI conjI conjunct1 [OF hi] conjunct1 [OF lo])
      (simp_all add: argmax_fp32_def amax_fp32_def argmin_fp32_def amin_fp32_def scan_value_index hi lo)
qed

text \<open>The words 2.0, -1.0, 2.0 and -0.0: the first 2.0 is the largest and -1.0 the smallest.\<close>

theorem extreme_value_kernels_witness:
  "\<exists>hi lo. first_best minigpu_float_order_key (\<lambda>x. [0x40000000, 0xbf800000, 0x40000000, 0x80000000] ! nat x) 0 4 hi
    \<and> first_best (\<lambda>x. - minigpu_float_order_key x) (\<lambda>x. [0x40000000, 0xbf800000, 0x40000000, 0x80000000] ! nat x) 0 4 lo"
proof -
  have "0 < (4 :: int)" by simp
  from extreme_value_kernels [OF this, of "\<lambda>x. [0x40000000, 0xbf800000, 0x40000000, 0x80000000] ! nat x" 0 9 4 0]
  show ?thesis by (elim exE conjE) (intro exI conjI)
qed

section \<open>Softmax\<close>

lemma for_range_writes:
  "for_range lo hi (\<lambda>i m. m(p + i := g i)) m
    = (\<lambda>x. if lo \<le> x - p \<and> x - p < hi then g (x - p) else m x)"
proof (induction "nat (hi - lo)" arbitrary: lo m)
  case 0
  then show ?case by (subst for_range.simps) (auto simp: fun_eq_iff)
next
  case (Suc k)
  then have lo: "lo < hi" "k = nat (hi - (lo + 1))" by linarith+
  show ?case using lo(1) by (subst for_range.simps) (auto simp: Suc.hyps(1) [OF lo(2)] fun_eq_iff)
qed

text \<open>The first pass over a row, when the input is the result itself or lies apart from the result's row.\<close>

lemma softmax_first_pass:
  assumes "\<And>i j. \<lbrakk>lo \<le> i; i < hi; lo \<le> j; j < hi; q + i = p + j\<rbrakk> \<Longrightarrow> i = j"
  shows "for_range lo hi (\<lambda>i (m, acc). let e = h (m (q + i)) in (m(p + i := e), fp_add f acc e)) (m, acc)
    = (for_range lo hi (\<lambda>i m'. m'(p + i := h (m (q + i)))) m,
       for_range lo hi (\<lambda>i acc. fp_add f acc (h (m (q + i)))) acc)"
  using assms
proof (induction "nat (hi - lo)" arbitrary: lo m acc)
  case 0
  then show ?case by (subst (1 2 3) for_range.simps) simp
next
  case (Suc k)
  then have lo: "lo < hi" "k = nat (hi - (lo + 1))" by linarith+
  let ?m = "m(p + lo := h (m (q + lo)))"
  have same: "?m (q + i) = m (q + i)" if "lo + 1 \<le> i" "i < hi" for i
    using Suc.prems [of i lo] that lo(1) by auto
  have "for_range (lo + 1) hi (\<lambda>i (m, acc). let e = h (m (q + i)) in (m(p + i := e), fp_add f acc e)) (?m, fp_add f acc (h (m (q + lo))))
    = (for_range (lo + 1) hi (\<lambda>i m'. m'(p + i := h (?m (q + i)))) ?m,
       for_range (lo + 1) hi (\<lambda>i acc. fp_add f acc (h (?m (q + i)))) (fp_add f acc (h (m (q + lo)))))"
    using Suc.prems by (intro Suc.hyps(1) [OF lo(2)]) auto
  also have "\<dots> = (for_range (lo + 1) hi (\<lambda>i m'. m'(p + i := h (m (q + i)))) ?m,
       for_range (lo + 1) hi (\<lambda>i acc. fp_add f acc (h (m (q + i)))) (fp_add f acc (h (m (q + lo)))))"
    by (intro arg_cong2 [where f = Pair] for_range_cong) (simp_all only: same)
  finally show ?case using lo(1) by (subst (1 2 3) for_range.simps) (simp add: Let_def)
qed

text \<open>
  C38: Softmax of a row. When the row of the result is the row of the input or lies apart from it, one
  element of the softmax kernel writes to every word of the row the exponential of the input times the
  reciprocal of the sum of the row's exponentials, added from the left, and writes no other word.
\<close>

theorem softmax_row_values:
  assumes "input = out \<or> disjoint_ranges (input + row * cols) cols (out + row * cols) cols"
  shows "softmax_row f input out cols row mem
    = Some (\<lambda>x. if out + row * cols \<le> x \<and> x < out + row * cols + cols
        then fp_mul f (expf f (mem (input + (x - out))))
               (rcpf f (for_range 0 cols (\<lambda>col acc. fp_add f acc (expf f (mem (input + (row * cols + col))))) 0))
        else mem x)"
proof -
  let ?q = "input + row * cols" and ?p = "out + row * cols"
  have apart: "i = j" if "0 \<le> i" "i < cols" "0 \<le> j" "j < cols" "?q + i = ?p + j" for i j
    using assms that by (auto simp: disjoint_ranges_def)
  let ?m = "for_range 0 cols (\<lambda>col m'. m'(?p + col := expf f (mem (?q + col)))) mem"
  have second: "for_range 0 cols (\<lambda>col m'. m'(?p + col := fp_mul f (m' (?p + col)) c)) m
      = (\<lambda>x. if ?p \<le> x \<and> x < ?p + cols then fp_mul f (m x) c else m x)" for c m
  proof -
    have "for_range lo cols (\<lambda>col m'. m'(?p + col := fp_mul f (m' (?p + col)) c)) m
        = (\<lambda>x. if lo \<le> x - ?p \<and> x - ?p < cols then fp_mul f (m x) c else m x)" for lo
    proof (induction "nat (cols - lo)" arbitrary: lo m)
      case 0
      then show ?case by (subst for_range.simps) (auto simp: fun_eq_iff)
    next
      case (Suc k)
      then have lo: "lo < cols" "k = nat (cols - (lo + 1))" by linarith+
      show ?case using lo(1) by (subst for_range.simps) (auto simp: Suc.hyps(1) [OF lo(2)] fun_eq_iff)
    qed
    from this [of 0] show ?thesis by (auto simp: fun_eq_iff)
  qed
  have "softmax_row f input out cols row mem
      = Some (for_range 0 cols (\<lambda>col m'. m'(?p + col := fp_mul f (m' (?p + col))
          (rcpf f (for_range 0 cols (\<lambda>col acc. fp_add f acc (expf f (mem (?q + col)))) 0)))) ?m)"
    using softmax_first_pass [of 0 cols ?q ?p "expf f" f mem 0, OF apart]
    by (simp add: softmax_row_def Let_def add.assoc)
  then show ?thesis
    unfolding second for_range_writes by (auto simp: fun_eq_iff algebra_simps)
qed

text \<open>In place, on the second row of two words.\<close>

theorem softmax_row_values_witness:
  "\<forall>f. softmax_row f 0 0 2 1 (\<lambda>x. 0x3f800000)
    = Some (\<lambda>x. if 2 \<le> x \<and> x < 4
        then fp_mul f (expf f 0x3f800000) (rcpf f (fp_add f (fp_add f 0 (expf f 0x3f800000)) (expf f 0x3f800000)))
        else 0x3f800000)"
proof
  fix f
  have "for_range 0 2 (\<lambda>col acc. fp_add f acc (expf f 0x3f800000)) 0
      = fp_add f (fp_add f 0 (expf f 0x3f800000)) (expf f 0x3f800000)"
    by (simp add: for_range.simps)
  then show "softmax_row f 0 0 2 1 (\<lambda>x. 0x3f800000)
    = Some (\<lambda>x. if 2 \<le> x \<and> x < 4
        then fp_mul f (expf f 0x3f800000) (rcpf f (fp_add f (fp_add f 0 (expf f 0x3f800000)) (expf f 0x3f800000)))
        else 0x3f800000)"
    using softmax_row_values [of 0 0 1 2 f "\<lambda>x. 0x3f800000"] by (simp cong: if_cong)
qed

section \<open>Cross entropy\<close>

lemma row_exp_sum_target:
  "snd (row_exp_sum f mem logits base cols label max_value)
    = (if 0 \<le> label \<and> label < cols then mem (logits + (base + label)) else mem (logits + base))"
proof -
  have "snd (for_range lo cols (\<lambda>col (exp_sum, target_logit).
       let v = mem (logits + (base + col))
       in (fp_add f exp_sum (expf f (fp_sub f v max_value)), if col = label then v else target_logit)) p)
    = (if lo \<le> label \<and> label < cols then mem (logits + (base + label)) else snd p)" for lo and p :: "u32 \<times> u32"
  proof (induction "nat (cols - lo)" arbitrary: lo p)
    case 0
    then have "cols \<le> lo" by simp
    then show ?case by (subst for_range.simps) auto
  next
    case (Suc k)
    then have lo: "lo < cols" "k = nat (cols - (lo + 1))" by linarith+
    show ?case
      using lo(1) by (cases p, subst for_range.simps) (auto simp: Suc.hyps(1) [OF lo(2), unfolded Let_def] Let_def)
  qed
  then show ?thesis by (simp add: row_exp_sum_def)
qed

text \<open>
  Labels of the cross entropy. A row of the statistics kernel ends with the logit of the row's label
  when the label is one of the classes, and, silently, with the logit of class 0 when it is not; the
  gradient kernel subtracts one in the column of the label, and so in no column when the label is not a
  class.
\<close>

theorem cross_entropy_label:
  assumes "0 \<le> i" and "0 < cols"
  shows "(\<exists>m. cross_entropy_stats_row f logits target stats cols row mem = Some m
      \<and> m (stats + (row * 3 + 2)) =
          (let label = sint (mem (target + row))
           in mem (logits + (row * cols + (if 0 \<le> label \<and> label < cols then label else 0)))))
  \<and> (\<exists>prob. cross_entropy_backward_element f g logits target out cols i mem
        = Some (mem(out + i := fp_mul f g (if i mod cols = sint (mem (target + i div cols))
                                            then fp_sub f prob 0x3f800000 else prob))))"
proof
  obtain e t where "row_exp_sum f mem logits (row * cols) cols (sint (mem (target + row)))
      (row_max f mem logits (row * cols) cols) = (e, t)" by force
  with row_exp_sum_target [of f mem logits "row * cols" cols "sint (mem (target + row))"
      "row_max f mem logits (row * cols) cols"]
  show "\<exists>m. cross_entropy_stats_row f logits target stats cols row mem = Some m
      \<and> m (stats + (row * 3 + 2)) =
          (let label = sint (mem (target + row))
           in mem (logits + (row * cols + (if 0 \<le> label \<and> label < cols then label else 0))))"
    by (simp add: cross_entropy_stats_row_def Let_def)
  show "\<exists>prob. cross_entropy_backward_element f g logits target out cols i mem
        = Some (mem(out + i := fp_mul f g (if i mod cols = sint (mem (target + i div cols))
                                            then fp_sub f prob 0x3f800000 else prob)))"
    using assms by (simp add: cross_entropy_backward_element_def Let_def minus_div_mult_eq_mod) blast
qed

text \<open>The label 9 of a row with two classes counts as class 0.\<close>

theorem cross_entropy_label_witness:
  "\<forall>f. \<exists>m. cross_entropy_stats_row f 4 9 20 2 0 of_int = Some m \<and> m 22 = 4"
  using cross_entropy_label [of 0 2 _ 4 9 20 0 of_int] by (simp add: Let_def)

section \<open>Pooling\<close>

text \<open>
  Pooling windows. When the windows fit the images, every word a pooling kernel reads for a result
  index below the number of results lies in the input tensor.
\<close>

theorem pool_windows_inside:
  assumes "0 \<le> idx" and "idx < batch * channels * oh * ow" and "0 < channels" and "0 < oh" and "0 < ow"
    and "0 \<le> sh" and "0 \<le> sw" and "(oh - 1) * sh + 2 \<le> ih" and "(ow - 1) * sw + 2 \<le> iw"
  shows "\<exists>p0 p1 p2 p3. pool_window channels ih iw oh ow sh sw idx = Some (p0, p1, p2, p3)
    \<and> set [p0, p1, p2, p3] \<subseteq> {0..<batch * channels * ih * iw}"
proof -
  note x = index2_split [OF assms(1,2,5)]
  note y = index2_split [OF x(1,2) assms(4)]
  note nc = index2_split [OF y(1,2) assms(3)]
  define n where n: "n = idx div ow div oh div channels"
  define c where c: "c = idx div ow div oh - n * channels"
  have c_mod: "c = idx div ow div oh mod channels" unfolding c n by (rule row_rest)
  let ?y = "idx div ow mod oh" and ?x = "idx mod ow"
  have "0 \<le> ((n * channels + c) * ih + (?y * sh + dy)) * iw + (?x * sw + dx)
      \<and> ((n * channels + c) * ih + (?y * sh + dy)) * iw + (?x * sw + dx) < batch * channels * ih * iw"
    if "dy \<in> {0, 1}" and "dx \<in> {0, 1}" for dy dx
  proof -
    note image = index2_bound [OF nc, folded n c_mod]
    have row: "0 \<le> ?y * sh + dy \<and> ?y * sh + dy < ih"
      using that(1) by (intro window_inside [OF assms(8,6) y(3,4)]) auto
    have col: "0 \<le> ?x * sw + dx \<and> ?x * sw + dx < iw"
      using that(2) by (intro window_inside [OF assms(9,7) x(3,4)]) auto
    note line = index2_bound [OF conjunct1 [OF image] conjunct2 [OF image] conjunct1 [OF row] conjunct2 [OF row]]
    show ?thesis
      using index2_bound [OF conjunct1 [OF line] conjunct2 [OF line] conjunct1 [OF col] conjunct2 [OF col]] .
  qed
  note inside = this [of 0 0] this [of 0 1] this [of 1 0] this [of 1 1]
  show ?thesis
    using inside assms(1,3-5) x(1) y(1)
    by (simp add: pool_window_def row_rest Let_def n [symmetric] c [symmetric] distrib_right add.assoc)
qed

text \<open>Two images of 4 by 4, three channels, windows two apart.\<close>

theorem pool_windows_inside_witness:
  "\<exists>p0 p1 p2 p3. pool_window 3 4 4 2 2 2 2 23 = Some (p0, p1, p2, p3) \<and> set [p0, p1, p2, p3] \<subseteq> {0..<96}"
  using pool_windows_inside [of 23 2 3 2 2 2 2 4 4] by simp

end
