(* ===== verification/TorchSpec.thy ===== *)
theory TorchSpec
  imports TorchMemory ReduceSpec
begin

text \<open>
  What the views, the copies and the window arithmetic of the PyTorch backend compute.
\<close>

section \<open>Views\<close>

lemma mult_i64_Inr [simp]: "mult_i64 a b = Inr p \<longleftrightarrow> p = a * b \<and> - (2 ^ 63) \<le> a * b \<and> a * b < 2 ^ 63"
  by (auto simp: mult_i64_def)

lemma infer_view_loop_filled:
  "infer_view_loop sizes i p (Some j) acc = Inr r \<Longrightarrow>
     r = (p * prod_list sizes, Some j, acc @ sizes) \<and> list_all (\<lambda>d. 0 \<le> d) sizes"
proof (induction sizes arbitrary: i p acc)
  case (Cons d ds)
  then have "0 \<le> d" "infer_view_loop ds (i + 1) (p * d) (Some j) (acc @ [d]) = Inr r"
    by (auto split: if_splits)
  from Cons.IH [OF this(2)] this(1) show ?case by (simp add: mult.assoc)
qed simp

lemma infer_view_loop_open:
  "infer_view_loop sizes i p None acc = Inr r \<Longrightarrow>
     r = (p * prod_list sizes, None, acc @ sizes) \<and> list_all (\<lambda>d. 0 \<le> d) sizes
     \<or> (\<exists>pre post. sizes = pre @ - 1 # post \<and> list_all (\<lambda>d. 0 \<le> d) (pre @ post)
          \<and> r = (p * prod_list (pre @ post), Some (i + length pre), acc @ pre @ 1 # post))"
proof (induction sizes arbitrary: i p acc)
  case (Cons d ds)
  show ?case
  proof (cases "d = - 1")
    case True
    then show ?thesis
      using Cons.prems infer_view_loop_filled [of ds "i + 1" p i "acc @ [1]" r]
      by (intro disjI2 exI [of _ "[]"] exI [of _ ds]) simp
  next
    case False
    then have d: "0 \<le> d" and rest: "infer_view_loop ds (i + 1) (p * d) None (acc @ [d]) = Inr r"
      using Cons.prems by (auto split: if_splits)
    from Cons.IH [OF rest] show ?thesis
    proof (elim disjE exE conjE)
      fix pre post
      assume "ds = pre @ - 1 # post" "list_all (\<lambda>d. 0 \<le> d) (pre @ post)"
        "r = (p * d * prod_list (pre @ post), Some (i + 1 + length pre), (acc @ [d]) @ pre @ 1 # post)"
      then show ?thesis using d
        by (intro disjI2 exI [of _ "d # pre"] exI [of _ post]) (simp add: mult.assoc)
    qed (use d in \<open>simp add: mult.assoc\<close>)
  qed
qed simp

definition view_sizes :: "int \<Rightarrow> int list \<Rightarrow> int list \<Rightarrow> bool" where
  "view_sizes n sizes out \<longleftrightarrow> prod_list out = n \<and>
     (out = sizes \<and> list_all (\<lambda>d. 0 \<le> d) sizes
      \<or> (\<exists>pre d post. sizes = pre @ - 1 # post \<and> out = pre @ d # post \<and> list_all (\<lambda>d. 0 \<le> d) (pre @ post)
           \<and> prod_list (pre @ post) \<noteq> 0))"

lemma infer_view_size_ok:
  assumes "infer_view_size n sizes = Inr out"
  shows "view_sizes n sizes out"
proof -
  obtain p hole inferred where loop: "infer_view_loop sizes 0 1 None [] = Inr (p, hole, inferred)"
    and res: "(case hole of
         Some i \<Rightarrow> if p = 0 \<or> n mod p \<noteq> 0 then Inl (Runtime_error ''Mini-GPU view cannot infer requested shape'')
                   else Inr (inferred[i := n div p])
       | None \<Rightarrow> if p \<noteq> n then Inl (Runtime_error ''Mini-GPU view changes tensor element count'')
                 else Inr inferred) = Inr out"
    using assms by (auto simp: infer_view_size_def)
  from infer_view_loop_open [OF loop] show ?thesis
  proof (elim disjE exE conjE)
    fix pre post
    assume *: "sizes = pre @ - 1 # post" "list_all (\<lambda>d. 0 \<le> d) (pre @ post)"
      "(p, hole, inferred) = (1 * prod_list (pre @ post), Some (0 + length pre), [] @ pre @ 1 # post)"
    then have out: "out = pre @ (n div p) # post" and "p \<noteq> 0" "n mod p = 0" and p: "p = prod_list pre * prod_list post"
      using res by (auto split: if_splits)
    then have "prod_list out = n"
      by (metis div_mult_mod_eq add.right_neutral mult.commute mult.left_commute prod_list.append prod_list.Cons)
    then show ?thesis using * out p \<open>p \<noteq> 0\<close> unfolding view_sizes_def
      by (intro conjI disjI2 exI [of _ pre] exI [of _ "n div p"] exI [of _ post]) simp_all
  qed (use res in \<open>auto simp: view_sizes_def split: if_splits\<close>)
qed

lemma prod_list_nonneg: "list_all (\<lambda>d. 0 \<le> d) ds \<Longrightarrow> 0 \<le> prod_list (ds :: int list)"
  by (induction ds) simp_all

lemma view_sizes_nonneg: "view_sizes n sizes out \<Longrightarrow> 0 \<le> n \<Longrightarrow> list_all (\<lambda>d. 0 \<le> d) out"
proof (unfold view_sizes_def, elim conjE disjE exE)
  fix pre d post
  assume n: "prod_list out = n" "0 \<le> n" and out: "out = pre @ d # post"
    and "list_all (\<lambda>d. 0 \<le> d) (pre @ post)" "prod_list (pre @ post) \<noteq> 0"
  then have "0 < prod_list (pre @ post)" using prod_list_nonneg [of "pre @ post"] by linarith
  moreover have "n = prod_list (pre @ post) * d" using n(1) out by (simp add: mult.left_commute mult.commute)
  ultimately have "0 \<le> d" using n(2) by (simp add: zero_le_mult_iff)
  then show "list_all (\<lambda>d. 0 \<le> d) out" using out \<open>list_all _ (pre @ post)\<close> by simp
qed simp

text \<open>The index vectors of a shape, last index fastest.\<close>

fun index_vectors :: "int list \<Rightarrow> int list list" where
  "index_vectors [] = [[]]"
| "index_vectors (d # ds) = concat (map (\<lambda>i. map ((#) i) (index_vectors ds)) [0..d - 1])"

definition offset_of :: "int list \<Rightarrow> int list \<Rightarrow> int" where
  "offset_of strides ix = sum_list (map2 (*) ix strides)"

lemma upto_blocks:
  assumes "0 \<le> d" and "0 \<le> p"
  shows "concat (map (\<lambda>i. map ((+) (i * p)) [0..p - 1]) [0..d - 1]) = [0..d * p - 1]"
  using assms(1)
proof (induction d rule: int_ge_induct)
  case (step d)
  have shift: "map ((+) (d * p)) [0..p - 1] = [d * p..d * p + p - 1]"
    by (rule nth_equalityI) (auto simp: nth_upto)
  have "[0..d * p + p - 1] = [0..d * p - 1] @ [d * p..d * p + p - 1]"
    using step.hyps assms(2) by (cases "p = 0") (simp_all add: upto_split1 [of 0 "d * p"])
  moreover have "[0..d + 1 - 1] = [0..d - 1] @ [d]" "(d + 1) * p - 1 = d * p + p - 1"
    using step.hyps by (simp_all add: upto_rec2 distrib_right)
  ultimately show ?case
    using step.IH shift by (simp only: map_append concat_append list.map concat.simps append_Nil2)
qed simp

lemma contiguous_offsets:
  assumes "list_all (\<lambda>d. 0 \<le> d) sizes"
  shows "snd (contiguous_strides_loop sizes) = prod_list sizes"
    and "map (offset_of (contiguous_strides sizes)) (index_vectors sizes) = [0..prod_list sizes - 1]"
proof -
  have "snd (contiguous_strides_loop sizes) = prod_list sizes
     \<and> map (offset_of (contiguous_strides sizes)) (index_vectors sizes) = [0..prod_list sizes - 1] \<and> 0 \<le> prod_list sizes"
    using assms
  proof (induction sizes)
    case (Cons d ds)
    let ?p = "prod_list ds"
    have IH: "snd (contiguous_strides_loop ds) = ?p" "0 \<le> ?p" "0 \<le> d"
      "map (offset_of (contiguous_strides ds)) (index_vectors ds) = [0..?p - 1]" using Cons by auto
    have "map (offset_of (contiguous_strides (d # ds))) (map ((#) i) (index_vectors ds)) = map ((+) (i * ?p)) [0..?p - 1]" for i
      using IH(1) by (simp add: contiguous_strides_def offset_of_def case_prod_beta flip: IH(4))
    then have "map (offset_of (contiguous_strides (d # ds))) (index_vectors (d # ds))
        = concat (map (\<lambda>i. map ((+) (i * ?p)) [0..?p - 1]) [0..d - 1])"
      by (simp add: map_concat comp_def)
    also have "\<dots> = [0..d * ?p - 1]" by (rule upto_blocks [OF IH(3,2)])
    finally show ?case using IH by (simp add: case_prod_beta mult.commute)
  qed (simp add: contiguous_strides_def offset_of_def)
  then show "snd (contiguous_strides_loop sizes) = prod_list sizes"
    "map (offset_of (contiguous_strides sizes)) (index_vectors sizes) = [0..prod_list sizes - 1]" by blast+
qed

text \<open>
  C19: A view keeps the elements. It succeeds only for a contiguous tensor and a shape with as many
  elements, equal to the requested one but for at most one -1; it shares the storage and the offset;
  and in row-major order of the indices its elements are the words 0, 1, 2, ... of that storage.
\<close>

theorem view_renumbers_elements:
  assumes "view pt t sizes = Inr v"
  shows "is_contiguous pt t \<and> numel v = numel t \<and> view_sizes (numel t) sizes (at_sizes v)
    \<and> at_storage v = at_storage t \<and> at_storage_offset v = at_storage_offset t \<and> at_dtype v = at_dtype t
    \<and> (0 \<le> numel t \<longrightarrow>
         map (offset_of (at_strides v)) (index_vectors (at_sizes v)) = [0..numel t - 1])"
proof -
  obtain out where out: "infer_view_size (numel t) sizes = Inr out"
    and v: "v = make_alias t out (contiguous_strides out) (at_storage_offset t)" and "is_contiguous pt t"
    using assms by (auto simp: view_def split: if_splits)
  have ok: "view_sizes (numel t) sizes out" by (rule infer_view_size_ok [OF out])
  have "map (offset_of (contiguous_strides out)) (index_vectors out) = [0..numel t - 1]" if "0 \<le> numel t"
    using contiguous_offsets(2) [OF view_sizes_nonneg [OF ok that]] ok by (simp add: view_sizes_def)
  then show ?thesis
    using ok v \<open>is_contiguous pt t\<close> by (simp add: make_alias_def numel_def view_sizes_def)
qed

lemma view_renumbers_elements_witness:
  "\<exists>v. view demo_torch (demo_matrix 1) [-1, 1] = Inr v \<and> at_sizes v = [4, 1]
     \<and> map (offset_of (at_strides v)) (index_vectors (at_sizes v)) = [0..3]"
proof -
  obtain v where v: "view demo_torch (demo_matrix 1) [-1, 1] = Inr v" "at_sizes v = [4, 1]"
    by (simp add: view_def is_contiguous_def demo_torch_fields demo_matrix_def contiguous_strides_def numel_def
        infer_view_size_def mult_i64_def make_alias_def)
  then show ?thesis
    using view_renumbers_elements [OF v(1)] by (simp add: demo_matrix_def numel_def)
qed

section \<open>Reduced dimensions\<close>

text \<open>A negative dimension counts from the end.\<close>

definition wrapped :: "nat \<Rightarrow> int \<Rightarrow> int" where
  "wrapped rank d = (if d < 0 then d + int rank else d)"

lemma dims_seen_iff:
  "length seen = rank \<Longrightarrow> dims_seen ds (int rank) seen \<longleftrightarrow>
     distinct (map (wrapped rank) ds) \<and> (\<forall>x \<in> set (map (wrapped rank) ds). 0 \<le> x \<and> x < int rank \<and> \<not> seen ! nat x)"
proof (induction ds arbitrary: seen)
  case (Cons d ds)
  let ?d = "wrapped rank d"
  have fresh: "(seen[nat ?d := True]) ! nat x = (x = ?d \<or> seen ! nat x)" if "0 \<le> x" "x < int rank" "0 \<le> ?d" "?d < int rank" for x
    using that Cons.prems by (auto simp: nth_list_update)
  have "dims_seen (d # ds) (int rank) seen \<longleftrightarrow>
      0 \<le> ?d \<and> ?d < int rank \<and> \<not> seen ! nat ?d \<and> dims_seen ds (int rank) (seen[nat ?d := True])"
    by (auto simp: wrapped_def Let_def not_less)
  also have "\<dots> \<longleftrightarrow> distinct (map (wrapped rank) (d # ds))
      \<and> (\<forall>x \<in> set (map (wrapped rank) (d # ds)). 0 \<le> x \<and> x < int rank \<and> \<not> seen ! nat x)"
  proof (cases "0 \<le> ?d \<and> ?d < int rank")
    case True
    let ?D = "map (wrapped rank) ds"
    have "(\<forall>x \<in> set ?D. 0 \<le> x \<and> x < int rank \<and> \<not> (seen[nat ?d := True]) ! nat x)
        \<longleftrightarrow> (\<forall>x \<in> set ?D. 0 \<le> x \<and> x < int rank \<and> \<not> seen ! nat x) \<and> ?d \<notin> set ?D"
      using fresh True by blast
    then show ?thesis using Cons.IH [of "seen[nat ?d := True]"] Cons.prems True by (simp del: set_map) blast
  qed auto
  finally show ?case .
qed simp

lemma dims_cover_list_iff:
  "dims_cover_list ds rank \<longleftrightarrow> ds = [] \<or> distinct (map (wrapped rank) ds) \<and> set (map (wrapped rank) ds) = {0..<int rank}"
proof (cases "length ds = rank")
  case True
  have "set (map (wrapped rank) ds) = {0..<int rank}"
    if "distinct (map (wrapped rank) ds)" "\<forall>x \<in> set (map (wrapped rank) ds). 0 \<le> x \<and> x < int rank"
    using that distinct_card [OF that(1)] True by (intro card_subset_eq) auto
  moreover have "\<not> replicate rank False ! nat x" if "0 \<le> x" "x < int rank" for x
    using that by simp
  moreover have "\<forall>x \<in> set (map (wrapped rank) ds). 0 \<le> x \<and> x < int rank" if "set (map (wrapped rank) ds) = {0..<int rank}"
    unfolding that by simp
  moreover have "dims_cover_list ds rank \<longleftrightarrow> ds = [] \<or> dims_seen ds (int rank) (replicate rank False)"
    using True by (simp add: dims_cover_list_def)
  ultimately show ?thesis using dims_seen_iff [of "replicate rank False" rank ds] by (metis length_replicate)
next
  case False
  have "length ds = rank" if "distinct (map (wrapped rank) ds)" "set (map (wrapped rank) ds) = {0..<int rank}"
    using distinct_card [OF that(1)] that(2) by simp
  then show ?thesis using False by (auto simp: dims_cover_list_def)
qed

text \<open>
  The reductions that the backend accepts are exactly the full ones: no list of dimensions, an empty one, or one
  that names every dimension of the tensor once, from the front or from the end. Both overloads agree.
\<close>

theorem reductions_accepted:
  "(dims_cover_all dims rank \<longleftrightarrow> (case dims of None \<Rightarrow> True | Some ds \<Rightarrow>
      ds = [] \<or> distinct (map (wrapped rank) ds) \<and> set (map (wrapped rank) ds) = {0..<int rank}))
   \<and> dims_cover_list ds rank = dims_cover_all (Some ds) rank"
proof -
  have "dims_cover_all (Some xs) rank = dims_cover_list xs rank" for xs
    by (simp add: dims_cover_all_def dims_cover_list_def)
  then show ?thesis by (cases dims) (simp_all add: dims_cover_list_iff, simp add: dims_cover_all_def)
qed

section \<open>Copies\<close>

text \<open>The transfers of a contiguous tensor whose memory lies in one live allocation.\<close>

definition placed_at :: "torch \<Rightarrow> at_tensor \<Rightarrow> u32 \<Rightarrow> 'd gpu_context \<Rightarrow> bool" where
  "placed_at pt t a c \<longleftrightarrow>
     at_device t = PrivateUse1 \<and> is_contiguous pt t \<and> pt_data_ptr pt t = opaque a \<and> unat a mod 4 = 0
     \<and> (\<exists>p n. (p, n) \<in> live (ctx_blocks c) \<and> p \<le> unat a \<and> unat a + unat (tensor_nbytes pt t) \<le> p + n)"

lemma placed_at_log [simp]: "placed_at pt t a (log_event e c) = placed_at pt t a c"
  by (simp add: placed_at_def)

text \<open>
  C17: A round trip. Copying a CPU tensor to a device tensor of the same shape and copying that to a second
  CPU tensor delivers the source's elements, converted to the device's element type and on to the
  second tensor's, byte for byte when the types are equal; the device memory outside the tensor is untouched.
\<close>

theorem copy_roundtrip:
  assumes "mem_ok c" and "memory_link (ctx_transport c) mem idle limit" and "mem_hi c \<le> limit" and "idle d"
    and "placed_at pt t a c" and "ct_sizes src = at_sizes t" and "ct_sizes dst = at_sizes t"
    and "length (ct_bytes (converted pt (at_dtype t) src)) = unat (tensor_nbytes pt t)"
    and "unat (tensor_nbytes pt t) mod 4 = 0" and "tensor_nbytes pt t \<noteq> 0"
    and "\<And>n. length (pt_garbage pt n) = unat n" and "any_nbytes pt (Cpu dst) \<noteq> 0"
  shows "\<exists>s. copy_tensor pt (Gpu t) (Cpu src) (c, d) = (Inr (Gpu t), s)
    \<and> mem (snd s) = store (unat a) (ct_bytes (converted pt (at_dtype t) src)) (mem d)
    \<and> (\<exists>s'. copy_tensor pt (Cpu dst) (Gpu t) s
         = (Inr (Cpu (dst\<lparr>ct_bytes := ct_bytes (converted pt (ct_dtype dst)
              \<lparr>ct_dtype = at_dtype t, ct_sizes = at_sizes t, ct_bytes = ct_bytes (converted pt (at_dtype t) src)\<rparr>)\<rparr>)), s')
         \<and> mem (snd s') = mem (snd s))"
proof -
  let ?bs = "ct_bytes (converted pt (at_dtype t) src)" and ?n = "tensor_nbytes pt t"
  have n: "any_nbytes pt (Gpu t) = ?n" by (simp add: any_nbytes_def tensor_nbytes_def numel_def)
  have len: "of_nat (length ?bs) = ?n" "?bs \<noteq> []" using assms(8,10) by (auto simp: unat_eq_zero)
  obtain p m where reg: "(p, m) \<in> live (ctx_blocks c)" "p \<le> unat a" "unat a + unat ?n \<le> p + m"
    using assms(5) by (auto simp: placed_at_def)
  have t: "at_device t = PrivateUse1" "is_contiguous pt t" "pt_data_ptr pt t = opaque a" "unat a mod 4 = 0"
    using assms(5) by (simp_all add: placed_at_def)
  obtain e d1 where up: "copy_to_device a (Some ?bs) ?n (c, d) = (Inr (), (log_event e c, d1))"
      "idle d1" "mem d1 = store (unat a) ?bs (mem d)"
    using copy_to_link [OF assms(1-4) reg(1,2), of ?bs] reg(3) t(4) assms(8,9) len by auto
  obtain e2 d2 where down: "copy_from_device (Some (pt_garbage pt ?n)) a ?n (log_event e c, d1)
      = (Inr ?bs, (log_event e2 (log_event e c), d2))" "mem d2 = mem d1"
    using copy_from_link [of "log_event e c" mem idle limit d1 p m a ?n "pt_garbage pt ?n"] assms(1-3,9-11) reg t(4) up
      load_store_same [of "unat a" ?bs "mem d"] assms(8) by auto
  have first: "copy_tensor pt (Gpu t) (Cpu src) (c, d) = (Inr (Gpu t), (log_event e c, d1))"
    using up t assms(6,10) n by (simp add: copy_tensor_def andThen_def requires_run require_contiguous_def upload_def)
  have second: "copy_tensor pt (Cpu dst) (Gpu t) (log_event e c, d1)
      = (Inr (Cpu (dst\<lparr>ct_bytes := ct_bytes (converted pt (ct_dtype dst)
            \<lparr>ct_dtype = at_dtype t, ct_sizes = at_sizes t, ct_bytes = ?bs\<rparr>)\<rparr>)), (log_event e2 (log_event e c), d2))"
    using down t assms(7,12) by (simp add: copy_tensor_def andThen_def requires_run require_contiguous_def download_def)
  show ?thesis
    by (rule exI [of _ "(log_event e c, d1)"], intro conjI exI [of _ "(log_event e2 (log_event e c), d2)"])
      (use first second up(3) down(2) in simp_all)
qed

definition demo_pair :: at_tensor where
  "demo_pair = \<lparr>at_device = PrivateUse1, at_dtype = kInt, at_sizes = [2], at_strides = [1],
     at_storage_offset = 0, at_storage = 1\<rparr>"

lemma copy_roundtrip_witness:
  "\<exists>s s'. copy_tensor demo_torch (Gpu demo_pair) (Cpu \<lparr>ct_dtype = kInt, ct_sizes = [2], ct_bytes = [1, 0, 0, 0, 7, 0, 0, 0]\<rparr>)
       (ram_context, \<lambda>_. 9) = (Inr (Gpu demo_pair), s)
    \<and> copy_tensor demo_torch (Cpu \<lparr>ct_dtype = kInt, ct_sizes = [2], ct_bytes = []\<rparr>) (Gpu demo_pair) s
      = (Inr (Cpu \<lparr>ct_dtype = kInt, ct_sizes = [2], ct_bytes = [1, 0, 0, 0, 7, 0, 0, 0]\<rparr>), s')"
proof -
  let ?src = "\<lparr>ct_dtype = kInt, ct_sizes = [2], ct_bytes = [1, 0, 0, 0, 7, 0, 0, 0]\<rparr>"
  let ?dst = "\<lparr>ct_dtype = kInt, ct_sizes = [2], ct_bytes = []\<rparr>"
  have n: "tensor_nbytes demo_torch demo_pair = 8"
    by (simp add: tensor_nbytes_def demo_torch_fields demo_pair_def numel_def)
  have "placed_at demo_torch demo_pair 0 ram_context"
    by (auto simp: placed_at_def n demo_torch_fields is_contiguous_def contiguous_strides_def numel_def opaque_def ram_context_ok(5))
      (simp_all add: demo_pair_def)
  from copy_roundtrip [OF ram_context_ok(1-3) _ this, where d = "\<lambda>_. 9" and src = ?src and dst = ?dst] show ?thesis
    using n by (auto simp: demo_pair_def converted_def any_nbytes_def demo_torch_fields)
      (auto simp: demo_torch_def)
qed

section \<open>Windows\<close>

lemma checked_u32_Inr: "checked_u32 v name = Inr w \<longleftrightarrow> 0 \<le> v \<and> v < 2 ^ 32 \<and> w = of_int v"
  by (auto simp: checked_u32_def)

lemma uint_of_small: "0 \<le> v \<Longrightarrow> v < 2 ^ 32 \<Longrightarrow> uint (of_int v :: u32) = v"
  by (simp add: uint_word_of_int)

text \<open>
  The number of windows that \<open>convolution\<close> and the pooling operators compute without padding. For a
  window that is not longer than the input it is, unless out of range, the largest number of windows that
  fit, at least one; a stride of zero is a division by zero.
\<close>

theorem window_count_spec:
  assumes "uint window \<le> n" and "window_count n 0 window stride name = r"
  shows "case r of
      Inl e \<Rightarrow> if stride = 0 then e = Undefined ''integer division by zero'' else 2 ^ 32 - 1 \<le> (n - uint window) div uint stride
    | Inr count \<Rightarrow> 0 < uint count \<and> (uint count - 1) * uint stride + uint window \<le> n
        \<and> n < uint count * uint stride + uint window"
proof (cases "stride = 0")
  case True
  then show ?thesis using assms(2) by (auto simp: window_count_def cdiv_def)
next
  case False
  then have s: "0 < uint stride" using uint_ge_0 [of stride] by (metis order_le_less uint_0_iff)
  let ?q = "(n - uint window) div uint stride"
  have q: "0 \<le> ?q" using assms(1) s by (simp add: pos_imp_zdiv_nonneg_iff)
  have r: "r = checked_u32 (?q + 1) name"
    using assms s by (simp add: window_count_def)
  show ?thesis
  proof (cases r)
    case (Inl e)
    then have "2 ^ 32 \<le> ?q + 1" using q r by (auto simp: checked_u32_def split: if_splits)
    then show ?thesis using Inl False by simp
  next
    case (Inr count)
    then have "0 \<le> ?q + 1 \<and> ?q + 1 < 2 ^ 32 \<and> count = of_int (?q + 1)" using r checked_u32_Inr by metis
    then have c: "uint count = ?q + 1" using uint_of_small by blast
    have "?q * uint stride \<le> n - uint window" "n - uint window < (?q + 1) * uint stride"
      using div_mult_mod_eq [of "n - uint window" "uint stride"] pos_mod_sign [OF s, of "n - uint window"]
        pos_mod_bound [OF s, of "n - uint window"] unfolding distrib_right by linarith+
    then show ?thesis using Inr c q by simp
  qed
qed

lemma window_count_spec_witness: "window_count 5 0 2 2 ''w'' = Inr 2 \<and> (2 - 1) * 2 + 2 \<le> (5 :: int) \<and> 5 < 2 * 2 + (2 :: int)"
  using window_count_spec [of 2 5 2 "''w''" "Inr 2"] by (simp add: window_count_def checked_u32_def)

text \<open>
  A window longer than the input by less than the stride is not refused: the C division rounds the
  negative difference to zero and one window is reported. Two-by-two pooling of one-pixel images then
  reads the pixel and three words outside the input.
\<close>

theorem long_window_accepted:
  assumes "n < uint window" and "uint window < n + uint stride"
  shows "window_count n 0 window stride name = Inr 1 \<and> pool_window 1 1 1 1 1 2 2 0 = Some (0, 1, 1, 2)"
proof
  have "cdiv (n - uint window) (uint stride) = Some 0"
    using assms by (auto simp: cdiv_def div_pos_pos_trivial)
  then show "window_count n 0 window stride name = Inr 1" by (simp add: window_count_def checked_u32_def)
  show "pool_window 1 1 1 1 1 2 2 0 = Some (0, 1, 1, 2)" by (simp add: pool_window_def cdiv_def)
qed

lemma long_window_accepted_witness: "window_count 1 0 2 2 ''max_pool2d output height'' = Inr 1"
  using long_window_accepted [of 1 2 2 "''max_pool2d output height''"] by simp

section \<open>Pooling on host and device\<close>

lemma new_tensor_shape:
  "empty pt sizes (Some dtype) l p f s = (Inr t, s') \<Longrightarrow> at_sizes t = sizes \<and> at_dtype t = dtype"
  by (auto simp: empty_def generic_tensor_def elim!: andThen_okE)

lemma with_output_shape:
  "with_output (empty pt sizes (Some dtype) l p f) work s = (Inr t, s') \<Longrightarrow> at_sizes t = sizes \<and> at_dtype t = dtype"
  unfolding with_output_def by (elim andThen_okE) (auto dest!: new_tensor_shape split: prod.splits sum.splits)

lemma with_output_okE:
  assumes "with_output create work s = (Inr out, s')"
  obtains s1 where "create s = (Inr out, s1)" and "work out s1 = (Inr (), s')"
  using assms unfolding with_output_def
  by (elim andThen_okE) (auto split: prod.splits sum.splits)

text \<open>The kernel arguments of a pooling launch.\<close>

definition pool_args :: "torch \<Rightarrow> string \<Rightarrow> at_tensor \<Rightarrow> at_tensor \<Rightarrow> int \<Rightarrow> int \<Rightarrow> int \<Rightarrow> int \<Rightarrow> int \<Rightarrow> int \<Rightarrow> int \<Rightarrow> (exn + kernel_arg) list" where
  "pool_args pt op a out c ih iw oh ow sh sw =
     [addr_arg pt a, addr_arg pt out, size_arg (numel out) (op @ '' output size''),
      size_arg c (op @ '' channels''), size_arg ih (op @ '' input height''), size_arg iw (op @ '' input width''),
      num (of_int oh), num (of_int ow), num (of_int sh), num (of_int sw)]"

lemma pool_launch_effect:
  assumes "pool_launch pt ids op a window strides s = (Inr out, s')"
  shows "\<exists>oh ow s1. window_count (size_at a 2) 0 (fst window) (fst strides) (op @ '' output height'') = Inr oh
    \<and> window_count (size_at a 3) 0 (snd window) (snd strides) (op @ '' output width'') = Inr ow
    \<and> at_sizes out = [size_at a 0, size_at a 1, uint oh, uint ow]
    \<and> launch ids (op @ ''.fp32'') (pool_args pt op a out (size_at a 1) (size_at a 2) (size_at a 3)
         (uint oh) (uint ow) (uint (fst strides)) (uint (snd strides))) s1 = (Inr (), s')"
  using assms unfolding pool_launch_def pool_args_def
  by (elim andThen_okE with_output_okE) (auto dest!: new_tensor_shape)

text \<open>The strides asked for: two by default, one for both directions, or one each.\<close>

definition strides_asked :: "int list \<Rightarrow> int \<times> int" where
  "strides_asked stride = (case stride of [] \<Rightarrow> (2, 2) | [v] \<Rightarrow> (v, v) | v # w # _ \<Rightarrow> (v, w))"

lemma strides_asked_taken:
  assumes "pair_u32_or stride 2 2 name = Inr p"
  shows "strides_asked stride = (uint (fst p), uint (snd p))"
proof -
  have "uint (of_int v :: u32) = v" if "0 \<le> v" "v < 2 ^ 32" for v
    using that by (rule uint_of_small)
  then show ?thesis
    using assms by (auto simp: pair_u32_or_def bind_ok_def strides_asked_def checked_u32_Inr split: list.splits sum.splits)
qed

lemma window_count_formula:
  assumes "2 \<le> n" and "window_count n 0 2 stride name = Inr count"
  shows "0 < uint stride" and "uint count = (n - 2) div uint stride + 1"
proof -
  have "stride \<noteq> 0" using assms(2) by (auto simp: window_count_def cdiv_def)
  then show s: "0 < uint stride" using uint_ge_0 [of stride] by (metis order_le_less uint_0_iff)
  have "checked_u32 ((n - 2) div uint stride + 1) name = Inr count"
    using assms s by (simp add: window_count_def)
  then show "uint count = (n - 2) div uint stride + 1"
    unfolding checked_u32_Inr by (elim conjE) (simp only: uint_of_small)
qed

text \<open>
  C18: Pooling, from PyTorch to the kernel. When \<open>max_pool2d\<close> or \<open>avg_pool2d\<close> accepts images of at least
  two by two (sizes are never negative) and returns, its last act was to launch the kernel of its name on the addresses of input and
  output with the channels and image sizes of the input, the strides asked for (which are positive), and
  as output sizes the numbers of two-by-two windows that fit at those strides; and with these very
  arguments every word the kernel reads for any of the results lies inside the input tensor.
\<close>

theorem pooling_stays_inside:
  assumes "op = ''max_pool2d'' \<and> max_pool2d_op pt ids a ksize stride pad dilation ceil s = (Inr out, s')
      \<or> op = ''avg_pool2d'' \<and> avg_pool2d_op pt ids a ksize stride pad ceil include divisor s = (Inr out, s')"
    and "list_all (\<lambda>d. 0 \<le> d) (at_sizes a)" and "2 \<le> size_at a 2" and "2 \<le> size_at a 3"
    and "strides_asked stride = (sh, sw)"
  shows "\<exists>n c ih iw oh ow s1. at_sizes a = [n, c, ih, iw] \<and> at_sizes out = [n, c, oh, ow]
    \<and> 0 < sh \<and> 0 < sw \<and> oh = (ih - 2) div sh + 1 \<and> ow = (iw - 2) div sw + 1
    \<and> launch ids (op @ ''.fp32'') (pool_args pt op a out c ih iw oh ow sh sw) s1 = (Inr (), s')
    \<and> (\<forall>idx. 0 \<le> idx \<and> idx < numel out \<longrightarrow>
         (\<exists>p0 p1 p2 p3. pool_window c ih iw oh ow sh sw idx = Some (p0, p1, p2, p3)
            \<and> set [p0, p1, p2, p3] \<subseteq> {0..<numel a}))"
proof -
  obtain p name where run: "pool_launch pt ids op a (2, 2) p s = (Inr out, s')" and "dim a = 4"
    and "pair_u32_or stride 2 2 name = Inr p"
    using assms(1) unfolding max_pool2d_op_def avg_pool2d_op_def
    by (elim disjE conjE andThen_okE) (auto simp: requires_ok simp del: requires.simps)
  then have p: "uint (fst p) = sh" "uint (snd p) = sw" using strides_asked_taken assms(5) by auto
  obtain oh ow s1 where counts: "window_count (size_at a 2) 0 2 (fst p) (op @ '' output height'') = Inr oh"
      "window_count (size_at a 3) 0 2 (snd p) (op @ '' output width'') = Inr ow"
    and out: "at_sizes out = [size_at a 0, size_at a 1, uint oh, uint ow]"
    and launch: "launch ids (op @ ''.fp32'') (pool_args pt op a out (size_at a 1) (size_at a 2) (size_at a 3)
         (uint oh) (uint ow) sh sw) s1 = (Inr (), s')"
    using pool_launch_effect [OF run] p by auto
  from \<open>dim a = 4\<close> obtain n c ih iw where a: "at_sizes a = [n, c, ih, iw]"
    by (auto simp: dim_def numeral_eq_Suc length_Suc_conv)
  have h: "0 < sh" "uint oh = (ih - 2) div sh + 1" and w: "0 < sw" "uint ow = (iw - 2) div sw + 1"
    using window_count_formula [OF _ counts(1)] window_count_formula [OF _ counts(2)] assms(3,4) a p by simp_all
  have hb: "0 < uint oh" "(uint oh - 1) * sh + 2 \<le> ih" and wb: "0 < uint ow" "(uint ow - 1) * sw + 2 \<le> iw"
    using window_count_spec [OF _ counts(1)] window_count_spec [OF _ counts(2)] assms(3,4) a p by simp_all
  have inside: "\<exists>p0 p1 p2 p3. pool_window c ih iw (uint oh) (uint ow) sh sw idx = Some (p0, p1, p2, p3)
      \<and> set [p0, p1, p2, p3] \<subseteq> {0..<numel a}" if idx: "0 \<le> idx" "idx < numel out" for idx
  proof -
    have "0 \<le> n" "0 \<le> c" using assms(2) a by simp_all
    moreover have bound: "idx < n * c * uint oh * uint ow" using idx(2) out a by (simp add: numel_def mult.assoc)
    ultimately have "0 < c" using idx(1) by (cases "c = 0") simp_all
    then show ?thesis
      using pool_windows_inside [OF idx(1) bound _ hb(1) wb(1) _ _ hb(2) wb(2)] h(1) w(1) a
      by (simp add: numel_def mult.assoc)
  qed
  have sizes: "size_at a 0 = n" "size_at a 1 = c" "size_at a 2 = ih" "size_at a 3 = iw" using a by simp_all
  show ?thesis
    by (intro exI conjI) (rule a, rule out [unfolded sizes], rule h(1), rule w(1), rule h(2), rule w(2),
      rule launch [unfolded sizes], use inside in blast)
qed

text \<open>A device with the pooling kernel, and an image of four pixels.\<close>

definition demo_image :: at_tensor where
  "demo_image = \<lparr>at_device = PrivateUse1, at_dtype = kFloat, at_sizes = [1, 1, 2, 2], at_strides = [4, 4, 2, 1],
     at_storage_offset = 0, at_storage = 41\<rparr>"

lemma demo_pool:
  "\<exists>out s'. max_pool2d_op demo_torch (\<lambda>_. Some 0) demo_image [2, 2] [] [0, 0] [1, 1] False (serving ''max_pool2d.fp32'', ())
     = (Inr out, s') \<and> at_sizes out = [1, 1, 1, 1]"
proof -
  have count: "window_count 2 0 2 2 name = Inr 1" for name
    by (simp add: window_count_def cdiv_def checked_u32_def)
  let ?out = "\<lparr>at_device = PrivateUse1, at_dtype = kFloat, at_sizes = [1, 1, 1, 1], at_strides = [1, 1, 1, 1],
     at_storage_offset = 0, at_storage = 1\<rparr>"
  let ?s = "(after_four ''max_pool2d.fp32'', ())"
  have new: "new_tensor demo_torch [1, 1, 1, 1] kFloat (serving ''max_pool2d.fp32'', ()) = (Inr ?out, ?s)"
    by (simp add: serving_new contiguous_strides_def)
  have "\<exists>s'. pool_launch demo_torch (\<lambda>_. Some 0) ''max_pool2d'' demo_image (2, 2) (2, 2) (serving ''max_pool2d.fp32'', ()) = (Inr ?out, s')"
    using serving_launch [where name = "''max_pool2d.fp32''"
        and args = "[\<lparr>ka_value = 10\<rparr>, \<lparr>ka_value = 0\<rparr>, arg_u32 1, arg_u32 1, arg_u32 2, arg_u32 2, arg_u32 1, arg_u32 1,
          arg_u32 2, arg_u32 2]"]
    by (simp add: pool_launch_def demo_image_def count with_output_def new andThen_def)
      (simp add: launch_def launch_named_def addr_arg_def device_address_def is_minigpu_tensor_def demo_torch_fields
        numel_def decode_def arg_device_ptr_def size_arg_def checked_u32_def num_def andThen_def,
        auto)
  then show ?thesis
    by (simp add: max_pool2d_op_def andThen_def requires_run demo_image_def require_fp32_minigpu_contiguous_def require_minigpu_contiguous_def
        is_minigpu_tensor_def is_contiguous_def demo_torch_fields contiguous_strides_def dim_def pair_u32_or_def checked_u32_def)
      (intro exI [of _ ?out], simp)
qed

lemma pooling_stays_inside_witness:
  "\<exists>out s' s1. max_pool2d_op demo_torch (\<lambda>_. Some 0) demo_image [2, 2] [] [0, 0] [1, 1] False (serving ''max_pool2d.fp32'', ())
       = (Inr out, s')
     \<and> launch (\<lambda>_. Some 0) ''max_pool2d.fp32'' (pool_args demo_torch ''max_pool2d'' demo_image out 1 2 2 1 1 2 2) s1 = (Inr (), s')
     \<and> (\<exists>p0 p1 p2 p3. pool_window 1 2 2 1 1 2 2 0 = Some (p0, p1, p2, p3) \<and> set [p0, p1, p2, p3] \<subseteq> {0..<4})"
proof -
  obtain out s' where run: "max_pool2d_op demo_torch (\<lambda>_. Some 0) demo_image [2, 2] [] [0, 0] [1, 1] False (serving ''max_pool2d.fp32'', ())
      = (Inr out, s')" "at_sizes out = [1, 1, 1, 1]"
    using demo_pool by blast
  have "strides_asked [] = (2, 2)" by (simp add: strides_asked_def)
  from pooling_stays_inside [OF disjI1, OF conjI [OF refl run(1)] _ _ _ this] obtain s1 where
    "launch (\<lambda>_. Some 0) ''max_pool2d.fp32'' (pool_args demo_torch ''max_pool2d'' demo_image out 1 2 2 1 1 2 2) s1 = (Inr (), s')"
    "\<exists>p0 p1 p2 p3. pool_window 1 2 2 1 1 2 2 0 = Some (p0, p1, p2, p3) \<and> set [p0, p1, p2, p3] \<subseteq> {0..<4}"
    using run(2) by (fastforce simp: demo_image_def numel_def)
  then show ?thesis using run(1) by blast
qed

end
