(* ===== verification/TorchDispatch.thy ===== *)
theory TorchDispatch
  imports TorchAutograd TorchSpec
begin

text \<open>
  The operator tables that the extension registers with PyTorch (\<open>registrations/aten.cpp\<close>, \<open>registrations/custom.cpp\<close>):
  the schemas of the \<open>minigpu\<close> library, the kernels behind them, and the kernels behind the \<open>aten\<close> operators. A kernel
  takes a list of argument values, as the dispatcher hands them over once defaults are filled in.
\<close>

section \<open>Arguments\<close>

datatype argument =
    Tensor_Arg at_tensor | Any_Arg any_tensor | Opt_Tensor_Arg "at_tensor option option" | Scalar_Arg at_scalar
  | Int_Arg int | Opt_Int_Arg "int option" | Ints_Arg "int list" | Opt_Ints_Arg "int list option"
  | Bool_Arg bool | Mask_Arg "bool \<times> bool \<times> bool" | Type_Arg scalar_type | Opt_Type_Arg "scalar_type option"
  | Opt_Layout_Arg "tensor_layout option" | Opt_Device_Arg "device_type option" | Opt_Bool_Arg "bool option"
  | Opt_Format_Arg "nat option"

fun as_tensor where "as_tensor (Tensor_Arg x) = Some x" | "as_tensor _ = None"
fun as_any where "as_any (Any_Arg x) = Some x" | "as_any _ = None"
fun as_opt_tensor where "as_opt_tensor (Opt_Tensor_Arg x) = Some x" | "as_opt_tensor _ = None"
fun as_scalar where "as_scalar (Scalar_Arg x) = Some x" | "as_scalar _ = None"
fun as_int where "as_int (Int_Arg x) = Some x" | "as_int _ = None"
fun as_opt_int where "as_opt_int (Opt_Int_Arg x) = Some x" | "as_opt_int _ = None"
fun as_ints where "as_ints (Ints_Arg x) = Some x" | "as_ints _ = None"
fun as_opt_ints where "as_opt_ints (Opt_Ints_Arg x) = Some x" | "as_opt_ints _ = None"
fun as_bool where "as_bool (Bool_Arg x) = Some x" | "as_bool _ = None"
fun as_mask where "as_mask (Mask_Arg x) = Some x" | "as_mask _ = None"
fun as_type where "as_type (Type_Arg x) = Some x" | "as_type _ = None"
fun as_opt_type where "as_opt_type (Opt_Type_Arg x) = Some x" | "as_opt_type _ = None"
fun as_opt_layout where "as_opt_layout (Opt_Layout_Arg x) = Some x" | "as_opt_layout _ = None"
fun as_opt_device where "as_opt_device (Opt_Device_Arg x) = Some x" | "as_opt_device _ = None"
fun as_opt_bool where "as_opt_bool (Opt_Bool_Arg x) = Some x" | "as_opt_bool _ = None"
fun as_opt_format where "as_opt_format (Opt_Format_Arg x) = Some x" | "as_opt_format _ = None"

text \<open>A function of typed parameters as a function of an argument list: one parameter at a time, then the call.\<close>

definition takes :: "(argument \<Rightarrow> 'a option) \<Rightarrow> ('a \<Rightarrow> argument list \<Rightarrow> 'r option) \<Rightarrow> argument list \<Rightarrow> 'r option" where
  "takes p f args = (case args of [] \<Rightarrow> None | v # vs \<Rightarrow> (case p v of None \<Rightarrow> None | Some x \<Rightarrow> f x vs))"

definition call :: "'r \<Rightarrow> argument list \<Rightarrow> 'r option" where
  "call r args = (if args = [] then Some r else None)"

abbreviation unary :: "(at_tensor \<Rightarrow> 'r) \<Rightarrow> argument list \<Rightarrow> 'r option" where
  "unary f \<equiv> takes as_tensor (\<lambda>a. call (f a))"

abbreviation binary :: "(at_tensor \<Rightarrow> at_tensor \<Rightarrow> 'r) \<Rightarrow> argument list \<Rightarrow> 'r option" where
  "binary f \<equiv> takes as_tensor (\<lambda>a. unary (f a))"

abbreviation windowed :: "(at_tensor \<Rightarrow> int list \<Rightarrow> int list \<Rightarrow> 'r) \<Rightarrow> argument list \<Rightarrow> 'r option" where
  "windowed f \<equiv> takes as_tensor (\<lambda>a. takes as_ints (\<lambda>k. takes as_ints (\<lambda>s. call (f a k s))))"

section \<open>The \<open>minigpu\<close> library\<close>

datatype parameter_type = PTensor | POptTensor | PScalar | PInt | PInts

fun fits :: "parameter_type \<Rightarrow> argument \<Rightarrow> bool" where
  "fits PTensor v = (as_tensor v \<noteq> None)"
| "fits POptTensor v = (as_opt_tensor v \<noteq> None)"
| "fits PScalar v = (as_scalar v \<noteq> None)"
| "fits PInt v = (as_int v \<noteq> None)"
| "fits PInts v = (as_ints v \<noteq> None)"

definition fits_schema :: "parameter_type list \<Rightarrow> argument list \<Rightarrow> bool" where
  "fits_schema ps args \<longleftrightarrow> list_all2 fits ps args"

text \<open>\<open>TORCH_LIBRARY(minigpu, m)\<close>: the declared operators, each of which returns one tensor.\<close>

definition minigpu_schemas :: "(string \<times> parameter_type list) list" where
  "minigpu_schemas =
     [(''vector_add'', [PTensor, PTensor]), (''matmul'', [PTensor, PTensor]), (''mv'', [PTensor, PTensor]),
      (''dot'', [PTensor, PTensor]), (''scal'', [PTensor, PScalar]), (''axpy'', [PTensor, PTensor, PScalar]),
      (''addmm'', [PTensor, PTensor, PTensor, PScalar, PScalar]), (''linear'', [PTensor, PTensor, POptTensor]),
      (''relu'', [PTensor]), (''exp'', [PTensor]), (''log'', [PTensor]), (''log2'', [PTensor]), (''log10'', [PTensor]),
      (''sqrt'', [PTensor]), (''reciprocal'', [PTensor]), (''div'', [PTensor, PTensor]), (''pow'', [PTensor, PTensor]),
      (''sigmoid'', [PTensor]), (''tanh'', [PTensor]), (''sin'', [PTensor]), (''cos'', [PTensor]), (''tan'', [PTensor]),
      (''sum'', [PTensor]), (''mean'', [PTensor]), (''amax'', [PTensor]), (''amin'', [PTensor]), (''argmax'', [PTensor]),
      (''argmin'', [PTensor]), (''softmax'', [PTensor, PInt]), (''max_pool2d'', [PTensor, PInts, PInts]),
      (''avg_pool2d'', [PTensor, PInts, PInts]), (''adaptive_avg_pool2d'', [PTensor, PInts]),
      (''mse_loss'', [PTensor, PTensor]), (''l1_loss'', [PTensor, PTensor]), (''l2_loss'', [PTensor, PTensor]),
      (''cross_entropy'', [PTensor, PTensor]), (''cross_entropy_debug'', [PTensor, PTensor])]"

text \<open>\<open>TORCH_LIBRARY_IMPL(minigpu, PrivateUse1, m)\<close>\<close>

type_synonym 'd tensor_action = "('d sys, exn, at_tensor) action"

definition minigpu_kernels :: "torch \<Rightarrow> kernel_ids \<Rightarrow> (string \<times> (argument list \<Rightarrow> 'd tensor_action option)) list" where
  "minigpu_kernels pt ids =
     [(''vector_add'', binary (vector_add pt ids)), (''matmul'', binary (mm pt ids)), (''mv'', binary (mv pt ids)),
      (''dot'', binary (dot_op pt ids)), (''scal'', takes as_tensor (\<lambda>x. takes as_scalar (\<lambda>al. call (scal pt ids x al)))),
      (''axpy'', takes as_tensor (\<lambda>x. takes as_tensor (\<lambda>y. takes as_scalar (\<lambda>al. call (axpy pt ids x y al))))),
      (''addmm'', takes as_tensor (\<lambda>x. takes as_tensor (\<lambda>a. takes as_tensor (\<lambda>b. takes as_scalar (\<lambda>be. takes as_scalar (\<lambda>al.
         call (addmm pt ids x a b be al))))))),
      (''linear'', takes as_tensor (\<lambda>x. takes as_tensor (\<lambda>w. takes as_opt_tensor (\<lambda>b. call (linear_op pt ids x w (defined_bias b)))))),
      (''relu'', unary (relu_op pt ids)), (''exp'', unary (exp_op pt ids)), (''log'', unary (log_op pt ids)),
      (''log2'', unary (log2_op pt ids)), (''log10'', unary (log10_op pt ids)), (''sqrt'', unary (sqrt_op pt ids)),
      (''reciprocal'', unary (reciprocal_op pt ids)), (''div'', binary (div_tensor pt ids)), (''pow'', binary (pow_tensor_tensor pt)),
      (''sigmoid'', unary (sigmoid_op pt ids)), (''tanh'', unary (tanh_op pt ids)), (''sin'', unary (sin_op pt)),
      (''cos'', unary (cos_op pt)), (''tan'', unary (tan_op pt)), (''sum'', unary (minigpu_sum pt ids)),
      (''mean'', unary (minigpu_mean pt ids)), (''amax'', unary (minigpu_amax pt ids)), (''amin'', unary (minigpu_amin pt ids)),
      (''argmax'', unary (minigpu_argmax pt ids)), (''argmin'', unary (minigpu_argmin pt ids)),
      (''softmax'', takes as_tensor (\<lambda>a. takes as_int (\<lambda>d. call (minigpu_softmax pt ids a d)))),
      (''max_pool2d'', windowed (minigpu_max_pool2d pt ids)), (''avg_pool2d'', windowed (minigpu_avg_pool2d pt ids)),
      (''adaptive_avg_pool2d'', takes as_tensor (\<lambda>a. takes as_ints (\<lambda>out. call (adaptive_avg_pool2d_op pt ids a out)))),
      (''mse_loss'', binary (mse_loss pt ids)), (''l1_loss'', binary (l1_loss pt ids)), (''l2_loss'', binary (l2_loss pt ids)),
      (''cross_entropy'', binary (cross_entropy_loss pt ids)), (''cross_entropy_debug'', binary (cross_entropy_debug pt ids))]"

text \<open>\<open>TORCH_LIBRARY_IMPL(minigpu, AutogradPrivateUse1, m)\<close>\<close>

type_synonym 'd forward_action = "('d sys, exn, forward) action"

definition minigpu_autograd_kernels :: "torch \<Rightarrow> kernel_ids \<Rightarrow> (string \<times> (argument list \<Rightarrow> 'd forward_action option)) list" where
  "minigpu_autograd_kernels pt ids =
     [(''mse_loss'', binary (minigpu_autograd_loss pt ids Mse)), (''l1_loss'', binary (minigpu_autograd_loss pt ids L1)),
      (''l2_loss'', binary (minigpu_autograd_loss pt ids L2)),
      (''cross_entropy'', binary (minigpu_autograd_loss pt ids CrossEntropy))]"

section \<open>The \<open>aten\<close> operators\<close>

text \<open>What a registered function returns: a new tensor, its first argument, an alias of it, a tensor anywhere, or gradients.\<close>

datatype 'd aten_kernel =
    New "'d tensor_action"
  | Self "('d sys, exn, any_tensor) action"
  | Alias at_tensor "exn + at_tensor"
  | Anywhere "('d sys, exn, any_tensor) action"
  | Gradients "('d sys, exn, gradients) action"

text \<open>\<open>TORCH_LIBRARY_IMPL(aten, PrivateUse1, m)\<close>\<close>

definition aten_storage_kernels :: "torch \<Rightarrow> kernel_ids \<Rightarrow> (string \<times> (argument list \<Rightarrow> 'd aten_kernel option)) list" where
  "aten_storage_kernels pt ids =
     [(''empty.memory_format'', takes as_ints (\<lambda>sizes. takes as_opt_type (\<lambda>dt. takes as_opt_layout (\<lambda>lay. takes as_opt_device (\<lambda>dev.
         takes as_opt_bool (\<lambda>pin. takes as_opt_format (\<lambda>fmt. call (New (empty pt sizes dt lay pin fmt))))))))),
      (''empty_strided'', takes as_ints (\<lambda>sizes. takes as_ints (\<lambda>strides. takes as_opt_type (\<lambda>dt. takes as_opt_layout (\<lambda>lay.
         takes as_opt_device (\<lambda>dev. takes as_opt_bool (\<lambda>pin. call (New (empty_strided pt sizes strides dt lay pin))))))))),
      (''copy_'', takes as_any (\<lambda>dst. takes as_any (\<lambda>src. takes as_bool (\<lambda>non_blocking. call (Self (copy_tensor pt dst src)))))),
      (''fill_.Scalar'', takes as_tensor (\<lambda>t. takes as_scalar (\<lambda>v. call (Self (andThen (fill_scalar pt t v) (\<lambda>r. ret (Gpu r))))))),
      (''zero_'', unary (\<lambda>t. Self (andThen (zero_tensor pt t) (\<lambda>r. ret (Gpu r))))),
      (''_to_copy'', takes as_any (\<lambda>t. takes as_opt_type (\<lambda>dt. takes as_opt_layout (\<lambda>lay. takes as_opt_device (\<lambda>dev.
         takes as_opt_bool (\<lambda>pin. takes as_bool (\<lambda>non_blocking. takes as_opt_format (\<lambda>fmt.
           call (Anywhere (to_copy pt t dt lay dev pin fmt)))))))))),
      (''view'', takes as_tensor (\<lambda>t. takes as_ints (\<lambda>sizes. call (Alias t (view pt t sizes))))),
      (''as_strided'', takes as_tensor (\<lambda>t. takes as_ints (\<lambda>sizes. takes as_ints (\<lambda>strides. takes as_opt_int (\<lambda>offset.
         call (Alias t (Inr (as_strided t sizes strides offset)))))))),
      (''_reshape_alias'', takes as_tensor (\<lambda>t. takes as_ints (\<lambda>sizes. takes as_ints (\<lambda>strides.
         call (Alias t (Inr (reshape_alias t sizes strides)))))))]"

definition aten_forward_kernels :: "torch \<Rightarrow> kernel_ids \<Rightarrow> (string \<times> (argument list \<Rightarrow> 'd aten_kernel option)) list" where
  "aten_forward_kernels pt ids =
     [(''add.Tensor'', takes as_tensor (\<lambda>a. takes as_tensor (\<lambda>b. takes as_scalar (\<lambda>al. call (New (add_tensor pt ids a b al)))))),
      (''add_.Tensor'', takes as_tensor (\<lambda>a. takes as_tensor (\<lambda>b. takes as_scalar (\<lambda>al.
         call (Self (andThen (add_tensor_inplace pt ids a b al) (\<lambda>r. ret (Gpu r)))))))),
      (''div.Tensor'', binary (\<lambda>a b. New (div_tensor pt ids a b))), (''mul.Tensor'', binary (\<lambda>a b. New (mul_tensor pt ids a b))),
      (''mm'', binary (\<lambda>a b. New (mm pt ids a b))), (''mv'', binary (\<lambda>a b. New (mv pt ids a b))),
      (''dot'', binary (\<lambda>a b. New (dot_op pt ids a b))),
      (''addmm'', takes as_tensor (\<lambda>x. takes as_tensor (\<lambda>a. takes as_tensor (\<lambda>b. takes as_scalar (\<lambda>be. takes as_scalar (\<lambda>al.
         call (New (addmm pt ids x a b be al)))))))),
      (''linear'', takes as_tensor (\<lambda>x. takes as_tensor (\<lambda>w. takes as_opt_tensor (\<lambda>b. call (New (linear_op pt ids x w (defined_bias b))))))),
      (''convolution'', takes as_tensor (\<lambda>x. takes as_tensor (\<lambda>w. takes as_opt_tensor (\<lambda>b. takes as_ints (\<lambda>stride.
         takes as_ints (\<lambda>pad. takes as_ints (\<lambda>dilation. takes as_bool (\<lambda>transposed. takes as_ints (\<lambda>out_pad. takes as_int (\<lambda>groups.
           call (New (convolution_op pt ids x w (defined_bias b) stride pad dilation transposed out_pad groups))))))))))))]"

definition aten_elementwise_kernels :: "torch \<Rightarrow> kernel_ids \<Rightarrow> (string \<times> (argument list \<Rightarrow> 'd aten_kernel option)) list" where
  "aten_elementwise_kernels pt ids =
     [(''relu'', unary (\<lambda>a. New (relu_op pt ids a))), (''exp'', unary (\<lambda>a. New (exp_op pt ids a))),
      (''log'', unary (\<lambda>a. New (log_op pt ids a))), (''log2'', unary (\<lambda>a. New (log2_op pt ids a))),
      (''log10'', unary (\<lambda>a. New (log10_op pt ids a))), (''sqrt'', unary (\<lambda>a. New (sqrt_op pt ids a))),
      (''reciprocal'', unary (\<lambda>a. New (reciprocal_op pt ids a))),
      (''pow.Tensor_Tensor'', binary (\<lambda>a b. New (pow_tensor_tensor pt a b))),
      (''pow.Tensor_Scalar'', takes as_tensor (\<lambda>a. takes as_scalar (\<lambda>b. call (New (pow_tensor_scalar pt a b))))),
      (''sigmoid'', unary (\<lambda>a. New (sigmoid_op pt ids a))), (''tanh'', unary (\<lambda>a. New (tanh_op pt ids a))),
      (''sin'', unary (\<lambda>a. New (sin_op pt a))), (''cos'', unary (\<lambda>a. New (cos_op pt a))), (''tan'', unary (\<lambda>a. New (tan_op pt a)))]"

definition aten_reduction_kernels :: "torch \<Rightarrow> kernel_ids \<Rightarrow> (string \<times> (argument list \<Rightarrow> 'd aten_kernel option)) list" where
  "aten_reduction_kernels pt ids =
     [(''sum'', takes as_tensor (\<lambda>a. takes as_opt_type (\<lambda>dt. call (New (sum_op pt ids a dt))))),
      (''sum.dim_IntList'', takes as_tensor (\<lambda>a. takes as_opt_ints (\<lambda>d. takes as_bool (\<lambda>keep. takes as_opt_type (\<lambda>dt.
         call (New (sum_dim pt ids a d keep dt))))))),
      (''mean'', takes as_tensor (\<lambda>a. takes as_opt_type (\<lambda>dt. call (New (mean_op pt ids a dt))))),
      (''mean.dim'', takes as_tensor (\<lambda>a. takes as_opt_ints (\<lambda>d. takes as_bool (\<lambda>keep. takes as_opt_type (\<lambda>dt.
         call (New (mean_dim pt ids a d keep dt))))))),
      (''amax'', takes as_tensor (\<lambda>a. takes as_ints (\<lambda>d. takes as_bool (\<lambda>keep. call (New (amax_op pt ids a d keep)))))),
      (''amin'', takes as_tensor (\<lambda>a. takes as_ints (\<lambda>d. takes as_bool (\<lambda>keep. call (New (amin_op pt ids a d keep)))))),
      (''argmax'', takes as_tensor (\<lambda>a. takes as_opt_int (\<lambda>d. takes as_bool (\<lambda>keep. call (New (argmax_op pt ids a d keep)))))),
      (''argmin'', takes as_tensor (\<lambda>a. takes as_opt_int (\<lambda>d. takes as_bool (\<lambda>keep. call (New (argmin_op pt ids a d keep)))))),
      (''softmax.int'', takes as_tensor (\<lambda>a. takes as_int (\<lambda>d. takes as_opt_type (\<lambda>dt. call (New (softmax_op pt ids a d dt)))))),
      (''_softmax'', takes as_tensor (\<lambda>a. takes as_int (\<lambda>d. takes as_bool (\<lambda>half. call (New (softmax_impl pt ids a d half))))))]"

definition aten_backward_kernels :: "torch \<Rightarrow> kernel_ids \<Rightarrow> (string \<times> (argument list \<Rightarrow> 'd aten_kernel option)) list" where
  "aten_backward_kernels pt ids =
     [(''threshold_backward'', takes as_tensor (\<lambda>g. takes as_tensor (\<lambda>x. takes as_scalar (\<lambda>th.
         call (New (threshold_backward pt ids g x th)))))),
      (''sigmoid_backward'', binary (\<lambda>g y. New (sigmoid_backward pt ids g y))),
      (''tanh_backward'', binary (\<lambda>g y. New (tanh_backward pt ids g y))),
      (''_softmax_backward_data'', takes as_tensor (\<lambda>g. takes as_tensor (\<lambda>y. takes as_int (\<lambda>d. takes as_type (\<lambda>dt.
         call (New (softmax_backward_data pt ids g y d dt))))))),
      (''linear_backward'', takes as_tensor (\<lambda>x. takes as_tensor (\<lambda>g. takes as_tensor (\<lambda>w. takes as_mask (\<lambda>wanted.
         call (Gradients (linear_backward pt ids x g w wanted))))))),
      (''max_pool2d'', takes as_tensor (\<lambda>a. takes as_ints (\<lambda>k. takes as_ints (\<lambda>s. takes as_ints (\<lambda>p. takes as_ints (\<lambda>d. takes as_bool (\<lambda>c.
         call (New (max_pool2d_op pt ids a k s p d c))))))))),
      (''avg_pool2d'', takes as_tensor (\<lambda>a. takes as_ints (\<lambda>k. takes as_ints (\<lambda>s. takes as_ints (\<lambda>p. takes as_bool (\<lambda>c.
         takes as_bool (\<lambda>pad. takes as_opt_int (\<lambda>divisor. call (New (avg_pool2d_op pt ids a k s p c pad divisor)))))))))),
      (''adaptive_avg_pool2d'', takes as_tensor (\<lambda>a. takes as_ints (\<lambda>out. call (New (adaptive_avg_pool2d_op pt ids a out)))))]"

definition aten_kernels :: "torch \<Rightarrow> kernel_ids \<Rightarrow> (string \<times> (argument list \<Rightarrow> 'd aten_kernel option)) list" where
  "aten_kernels pt ids =
     aten_storage_kernels pt ids @ aten_forward_kernels pt ids @ aten_elementwise_kernels pt ids
     @ aten_reduction_kernels pt ids @ aten_backward_kernels pt ids"

text \<open>The registered autograd operators apply the function; what it saves for the backward pass is kept with the result.\<close>

definition minigpu_autograd_relu :: "torch \<Rightarrow> kernel_ids \<Rightarrow> at_tensor \<Rightarrow> 'd forward_action" where
  "minigpu_autograd_relu pt ids input = relu_autograd_forward pt ids input"

definition minigpu_autograd_sigmoid :: "torch \<Rightarrow> kernel_ids \<Rightarrow> at_tensor \<Rightarrow> 'd forward_action" where
  "minigpu_autograd_sigmoid pt ids input = sigmoid_autograd_forward pt ids input"

definition minigpu_autograd_tanh :: "torch \<Rightarrow> kernel_ids \<Rightarrow> at_tensor \<Rightarrow> 'd forward_action" where
  "minigpu_autograd_tanh pt ids input = tanh_autograd_forward pt ids input"

definition minigpu_autograd_softmax_impl :: "torch \<Rightarrow> kernel_ids \<Rightarrow> at_tensor \<Rightarrow> int \<Rightarrow> bool \<Rightarrow> 'd forward_action" where
  "minigpu_autograd_softmax_impl pt ids input d half_to_float = softmax_autograd_forward pt ids input d half_to_float"

definition minigpu_autograd_linear :: "torch \<Rightarrow> kernel_ids \<Rightarrow> at_tensor \<Rightarrow> at_tensor \<Rightarrow> at_tensor option option \<Rightarrow> 'd forward_action" where
  "minigpu_autograd_linear pt ids input weight bias = linear_autograd_forward pt ids input weight bias"

definition minigpu_autograd_convolution ::
    "torch \<Rightarrow> kernel_ids \<Rightarrow> at_tensor \<Rightarrow> at_tensor \<Rightarrow> at_tensor option option \<Rightarrow> int list \<Rightarrow> int list \<Rightarrow> int list \<Rightarrow> bool
       \<Rightarrow> int list \<Rightarrow> int \<Rightarrow> 'd forward_action" where
  "minigpu_autograd_convolution pt ids input weight bias stride padding dilation transposed output_padding groups =
     convolution_autograd_forward pt ids input weight bias stride padding dilation transposed output_padding groups"

text \<open>\<open>TORCH_LIBRARY_IMPL(aten, AutogradPrivateUse1, m)\<close>\<close>

definition aten_autograd_kernels :: "torch \<Rightarrow> kernel_ids \<Rightarrow> (string \<times> (argument list \<Rightarrow> 'd forward_action option)) list" where
  "aten_autograd_kernels pt ids =
     [(''relu'', unary (minigpu_autograd_relu pt ids)), (''sigmoid'', unary (minigpu_autograd_sigmoid pt ids)),
      (''tanh'', unary (minigpu_autograd_tanh pt ids)),
      (''_softmax'', takes as_tensor (\<lambda>a. takes as_int (\<lambda>d. takes as_bool (\<lambda>half. call (minigpu_autograd_softmax_impl pt ids a d half))))),
      (''softmax.int'', takes as_tensor (\<lambda>a. takes as_int (\<lambda>d. takes as_opt_type (\<lambda>dt. call (minigpu_autograd_softmax pt ids a d dt))))),
      (''linear'', takes as_tensor (\<lambda>x. takes as_tensor (\<lambda>w. takes as_opt_tensor (\<lambda>b. call (minigpu_autograd_linear pt ids x w b))))),
      (''convolution'', takes as_tensor (\<lambda>x. takes as_tensor (\<lambda>w. takes as_opt_tensor (\<lambda>b. takes as_ints (\<lambda>stride.
         takes as_ints (\<lambda>pad. takes as_ints (\<lambda>dilation. takes as_bool (\<lambda>transposed. takes as_ints (\<lambda>out_pad. takes as_int (\<lambda>groups.
           call (minigpu_autograd_convolution pt ids x w b stride pad dilation transposed out_pad groups)))))))))))]"

section \<open>Facts about argument lists\<close>

named_theorems kernel_intros

definition results :: "('r \<Rightarrow> bool) \<Rightarrow> (argument list \<Rightarrow> 'r option) \<Rightarrow> bool" where
  "results P k \<longleftrightarrow> (\<forall>args r. k args = Some r \<longrightarrow> P r)"

lemma results_takes [kernel_intros]: "(\<And>x. results P (f x)) \<Longrightarrow> results P (takes p f)"
  unfolding results_def takes_def by (auto split: list.splits option.splits)

lemma results_call [kernel_intros]: "P r \<Longrightarrow> results P (call r)"
  by (simp add: results_def call_def)

definition accepts :: "parameter_type list \<Rightarrow> (argument list \<Rightarrow> 'r option) \<Rightarrow> bool" where
  "accepts ps k \<longleftrightarrow> (\<forall>args. fits_schema ps args \<longrightarrow> k args \<noteq> None)"

lemma accepts_call [kernel_intros]: "accepts [] (call r)"
  by (simp add: accepts_def fits_schema_def call_def)

lemma accepts_takes:
  assumes "\<And>v. fits q v \<Longrightarrow> p v \<noteq> None" and "\<And>x. accepts ps (f x)"
  shows "accepts (q # ps) (takes p f)"
  using assms by (fastforce simp: accepts_def fits_schema_def takes_def list_all2_Cons1)

lemmas accepts_parameters [kernel_intros] =
  accepts_takes [of PTensor as_tensor] accepts_takes [of POptTensor as_opt_tensor] accepts_takes [of PScalar as_scalar]
  accepts_takes [of PInt as_int] accepts_takes [of PInts as_ints]

text \<open>What holds of every value that an action returns.\<close>

definition yields :: "('a \<Rightarrow> bool) \<Rightarrow> ('s, 'e, 'a) action \<Rightarrow> bool" where
  "yields P m \<longleftrightarrow> (\<forall>s x s'. m s = (Inr x, s') \<longrightarrow> P x)"

lemma yieldsD: "yields P m \<Longrightarrow> m s = (Inr x, s') \<Longrightarrow> P x"
  unfolding yields_def by blast

lemma yields_bind: "yields Q m \<Longrightarrow> (\<And>x. Q x \<Longrightarrow> yields P (k x)) \<Longrightarrow> yields P (andThen m k)"
  unfolding yields_def by (blast elim!: andThen_okE)

lemma yields_andThen: "(\<And>x. yields P (k x)) \<Longrightarrow> yields P (andThen m k)"
  by (rule yields_bind [of "\<lambda>_. True"]) (simp_all add: yields_def)

lemma yields_if: "yields P m \<Longrightarrow> yields P m' \<Longrightarrow> yields P (if b then m else m')"
  by simp

lemma yields_requires: "yields (\<lambda>_. \<forall>c \<in> set checks. fst c) (requires checks)"
  unfolding yields_def requires_ok by blast

lemma yields_of_sum: "(\<And>x. r = Inr x \<Longrightarrow> P x) \<Longrightarrow> yields P (of_sum r)"
  by (cases r) (auto simp: yields_def)

lemma yields_sum: "yields (\<lambda>x. r = Inr x) (of_sum r)"
  by (rule yields_of_sum)

lemma yields_ret: "P x \<Longrightarrow> yields P (ret x)"
  by (simp add: yields_def)

lemma yields_with_output: "yields P create \<Longrightarrow> yields P (with_output create work)"
  unfolding yields_def with_output_def by (fastforce elim!: andThen_okE split: prod.splits sum.splits)

lemma yields_with_temporary: "(\<And>t. yields P (work t)) \<Longrightarrow> yields P (with_temporary create work)"
  unfolding yields_def with_temporary_def by (fastforce elim!: andThen_okE split: prod.splits)

section \<open>Shapes of results\<close>

text \<open>The sizes and the element type of a tensor on the device.\<close>

type_synonym shape = "int list \<times> scalar_type"

definition has_shape :: "shape \<Rightarrow> at_tensor \<Rightarrow> bool" where
  "has_shape sh t \<longleftrightarrow> at_device t = PrivateUse1 \<and> at_sizes t = fst sh \<and> at_dtype t = snd sh"

text \<open>A kernel, and a rule that computes the shape of its result from the arguments.\<close>

definition typed :: "(argument list \<Rightarrow> 'd tensor_action option) \<Rightarrow> (argument list \<Rightarrow> shape option) \<Rightarrow> bool" where
  "typed k m \<longleftrightarrow> (\<forall>args r. k args = Some r \<longrightarrow> (\<exists>sh. m args = Some sh \<and> yields (has_shape sh) r))"

lemma typed_call [kernel_intros]: "yields (has_shape sh) r \<Longrightarrow> typed (call r) (call sh)"
  unfolding typed_def call_def by (metis option.distinct(1) option.inject)

lemma typed_takes [kernel_intros]: "(\<And>x. typed (f x) (g x)) \<Longrightarrow> typed (takes p f) (takes p g)"
  unfolding typed_def takes_def by (auto split: list.splits option.splits)

lemma shaped_new: "yields (has_shape (sizes, dtype)) (empty pt sizes (Some dtype) l p f)"
  by (auto simp: yields_def has_shape_def empty_def generic_tensor_def elim!: andThen_okE)

lemmas shape_intros = yields_with_output yields_with_temporary shaped_new yields_andThen

lemma shaped_elementwise:
  "yields (has_shape (at_sizes a, at_dtype a)) (run_binary_kernel pt ids a b kop op)"
  "yields (has_shape (at_sizes a, at_dtype a)) (run_unary_kernel pt ids a kop op)"
  "yields (has_shape (at_sizes a, at_dtype a)) (scal pt ids a alpha)"
  "yields (has_shape (at_sizes a, at_dtype a)) (axpy pt ids a b alpha)"
  "yields (has_shape (at_sizes a, at_dtype a)) (div_tensor pt ids a b)"
  "yields (has_shape (at_sizes a, at_dtype a)) (sqrt_op pt ids a)"
  "yields (has_shape (at_sizes a, at_dtype a)) (reciprocal_op pt ids a)"
  unfolding run_binary_kernel_def run_unary_kernel_def scal_def axpy_def div_tensor_def sqrt_op_def reciprocal_op_def
  by (intro shape_intros)+

lemma shaped_unary:
  "yields (has_shape (at_sizes a, at_dtype a)) (run_fp32_unary_kernel pt ids a kop op)"
  "yields (has_shape (at_sizes a, at_dtype a)) (relu_op pt ids a)"
  "yields (has_shape (at_sizes a, at_dtype a)) (vector_add pt ids a b)"
  unfolding run_fp32_unary_kernel_def relu_op_def run_relu_kernel_def vector_add_def run_vector_add_kernel_def
  by (intro yields_andThen shaped_elementwise)+

lemma shaped_matrix:
  "yields (has_shape ([size_at a 0, size_at b 1], at_dtype a)) (mm pt ids a b)"
  "yields (has_shape ([size_at a 0], at_dtype a)) (mv pt ids a b)"
  "yields (has_shape ([], at_dtype a)) (dot_op pt ids a b)"
  "yields (has_shape (at_sizes a, at_dtype a)) (addmm pt ids a b c be al)"
  unfolding mm_def mv_def dot_op_def addmm_def by (intro shape_intros)+

lemma shaped_reductions:
  "yields (has_shape ([], at_dtype a)) (run_global_reduction_kernel pt ids a kop op False)"
  "yields (has_shape ([], at_dtype a)) (run_mean_kernel pt ids a op False)"
  "yields (has_shape ([], kInt)) (argmax_op pt ids a None False)"
  "yields (has_shape ([], kInt)) (argmin_op pt ids a None False)"
  "yields (has_shape (at_sizes a, at_dtype a)) (softmax_impl pt ids a d half)"
  unfolding run_global_reduction_kernel_def run_mean_kernel_def argmax_op_def argmin_op_def softmax_impl_def
    scalar_or_keepdim_shape_def Let_def not_False_eq_True if_True by (intro shape_intros)+

lemma shaped_losses:
  "yields (has_shape ([], at_dtype a)) (mse_loss pt ids a b)" "yields (has_shape ([], at_dtype a)) (l1_loss pt ids a b)"
  "yields (has_shape ([], at_dtype a)) (l2_loss pt ids a b)"
  "yields (has_shape ([], at_dtype a)) (cross_entropy_loss pt ids a b)"
  "yields (has_shape ([size_at a 0, 5], at_dtype a)) (cross_entropy_debug pt ids a b)"
  unfolding mse_loss_def l1_loss_def l2_loss_def cross_entropy_loss_def cross_entropy_debug_def by (intro shape_intros)+

text \<open>
  What PyTorch documents of its element functions on the CPU: a power of two tensors of the same sizes, both of
  them fp32, has these sizes and is fp32 (tensors of other sizes are broadcast, which is not used here); the
  trigonometric functions keep the sizes, and the element type of their result is computed from that of their
  argument by type promotion, \<open>promote\<close>, which keeps fp32.
\<close>

definition elementwise_cpu :: "torch \<Rightarrow> (scalar_type \<Rightarrow> scalar_type) \<Rightarrow> bool" where
  "elementwise_cpu pt promote \<longleftrightarrow>
     (\<forall>x y. ct_sizes x = ct_sizes y \<and> ct_dtype x = kFloat \<and> ct_dtype y = kFloat \<longrightarrow>
        ct_sizes (pt_pow pt x y) = ct_sizes x \<and> ct_dtype (pt_pow pt x y) = kFloat)
     \<and> (\<forall>f \<in> {pt_sin pt, pt_cos pt, pt_tan pt}. \<forall>x. ct_sizes (f x) = ct_sizes x \<and> ct_dtype (f x) = promote (ct_dtype x))
     \<and> promote kFloat = kFloat"

lemma downloaded_shape: "yields (\<lambda>x. ct_sizes x = at_sizes t \<and> ct_dtype x = at_dtype t) (to_cpu_tensor pt t op)"
  unfolding to_cpu_tensor_def by (intro yields_andThen yields_ret) simp

lemma uploaded_shape:
  "ct_sizes cpu = sizes \<and> ct_dtype cpu = dtype \<Longrightarrow> yields (has_shape (sizes, dtype)) (to_minigpu_tensor pt cpu)"
  unfolding to_minigpu_tensor_def by (elim conjE) (simp add: yields_with_output shaped_new)

lemma shaped_cpu:
  assumes "elementwise_cpu pt promote"
  shows "yields (has_shape (at_sizes a, kFloat)) (pow_tensor_tensor pt a b)"
    "yields (has_shape (at_sizes a, promote (at_dtype a))) (sin_op pt a)"
    "yields (has_shape (at_sizes a, promote (at_dtype a))) (cos_op pt a)"
    "yields (has_shape (at_sizes a, promote (at_dtype a))) (tan_op pt a)"
proof -
  note down = yields_bind [OF downloaded_shape]
  show "yields (has_shape (at_sizes a, promote (at_dtype a))) (sin_op pt a)"
    "yields (has_shape (at_sizes a, promote (at_dtype a))) (cos_op pt a)"
    "yields (has_shape (at_sizes a, promote (at_dtype a))) (tan_op pt a)"
    unfolding sin_op_def cos_op_def tan_op_def
    by ((rule down, rule uploaded_shape, use assms in \<open>simp add: elementwise_cpu_def\<close>)+)
  show "yields (has_shape (at_sizes a, kFloat)) (pow_tensor_tensor pt a b)"
    unfolding pow_tensor_tensor_def
  proof (rule yields_bind [OF yields_requires], rule down, rule down, rule uploaded_shape, goal_cases)
    case (1 u x y)
    then have "at_sizes a = at_sizes b" "at_dtype a = kFloat" "at_dtype b = kFloat" by simp_all
    then show ?case using 1 assms unfolding elementwise_cpu_def by simp
  qed
qed

text \<open>A linear layer keeps whether its input has one dimension or two.\<close>

definition linear_sizes :: "at_tensor \<Rightarrow> at_tensor \<Rightarrow> int list" where
  "linear_sizes x w = (if dim x = 1 then [size_at w 0] else [size_at x 0, size_at w 0])"

lemma view_row: "view pt t [1, n] = Inr v \<Longrightarrow> size_at v 0 = 1"
  by (auto simp: view_def infer_view_size_def mult_i64_def make_alias_def split: if_splits sum.splits)

lemma view_flat: "view pt t [n] = Inr v \<Longrightarrow> at_sizes t = [1, n] \<Longrightarrow> at_sizes v = [n] \<and> at_device v = at_device t \<and> at_dtype v = at_dtype t"
  by (auto simp: view_def infer_view_size_def mult_i64_def make_alias_def numel_def split: if_splits sum.splits)

lemma shaped_linear: "yields (has_shape (linear_sizes x w, at_dtype x)) (linear_op pt ids x w bias :: 'd tensor_action)"
  unfolding linear_op_def Let_def
proof (rule yields_andThen, rule yields_andThen, rule yields_andThen)
  fix u dtype u'
  let ?rows = "if dim x = 1 then 1 else size_at x 0"
  show "yields (has_shape (linear_sizes x w, at_dtype x)) (andThen (of_sum (if dim x = 1 then view pt x [1, size_at x 0] else Inr x)) (\<lambda>i.
      andThen (with_output (new_tensor pt [size_at i 0, size_at w 0] (at_dtype x)) (work i)) (\<lambda>out s.
        if dim x = 1 then (case view pt out [size_at w 0] of Inl e \<Rightarrow> (Inl e, delete_minigpu_allocation (at_storage out) s) | Inr v \<Rightarrow> (Inr v, s))
        else (Inr out, s)) :: 'd tensor_action))" for work
  proof (rule yields_bind [where Q = "\<lambda>i. size_at i 0 = ?rows"])
    show "yields (\<lambda>i. size_at i 0 = ?rows) (of_sum (if dim x = 1 then view pt x [1, size_at x 0] else Inr x) :: 'd tensor_action)"
      by (intro yields_of_sum) (auto dest: view_row split: if_splits)
  next
    fix i assume i: "size_at i 0 = ?rows"
    show "yields (has_shape (linear_sizes x w, at_dtype x)) (andThen (with_output (new_tensor pt [size_at i 0, size_at w 0] (at_dtype x)) (work i))
      (\<lambda>out s. if dim x = 1 then (case view pt out [size_at w 0] of Inl e \<Rightarrow> (Inl e, delete_minigpu_allocation (at_storage out) s) | Inr v \<Rightarrow> (Inr v, s))
        else (Inr out, s)) :: 'd tensor_action)"
      by (rule yields_bind [OF yields_with_output [OF shaped_new]])
        (auto simp: yields_def has_shape_def linear_sizes_def i dest: view_flat split: sum.splits)
  qed
qed

text \<open>The sizes after pooling with a window of two by two; the stride defaults to the window.\<close>

definition pooled_size :: "int \<Rightarrow> int \<Rightarrow> int" where
  "pooled_size n stride = the (cdiv (n - 2) stride) + 1"

definition pooled_sizes :: "at_tensor \<Rightarrow> int list \<Rightarrow> int list" where
  "pooled_sizes a stride =
     (let (sh, sw) = (case stride of [] \<Rightarrow> (2, 2) | [v] \<Rightarrow> (v, v) | v # w # _ \<Rightarrow> (v, w))
      in [size_at a 0, size_at a 1, pooled_size (size_at a 2) sh, pooled_size (size_at a 3) sw])"

lemma checked_u32_value: "checked_u32 v name = Inr w \<Longrightarrow> uint w = v"
  unfolding checked_u32_Inr by (elim conjE) (simp only: uint_of_small)

lemma window_count_value:
  assumes "window_count n 0 2 s name = Inr w"
  shows "uint w = pooled_size n (uint s)"
proof (cases "cdiv (n - 2) (uint s)")
  case None
  then show ?thesis using assms by (simp add: window_count_def)
next
  case (Some q)
  have "checked_u32 (q + 1) name = Inr w" using assms Some by (simp add: window_count_def)
  then show ?thesis unfolding pooled_size_def Some option.sel by (rule checked_u32_value)
qed

lemma pool_launch_yields:
  assumes "win = (2, 2)" and "pooled_sizes a [uint (fst strides), uint (snd strides)] = sizes"
  shows "yields (has_shape (sizes, at_dtype a)) (pool_launch pt ids op a win strides :: 'd tensor_action)"
  unfolding pool_launch_def assms(1) fst_conv snd_conv
proof (rule yields_bind [OF yields_sum], rule yields_bind [OF yields_sum], goal_cases)
  case (1 oh ow)
  have "[size_at a 0, size_at a 1, uint oh, uint ow] = sizes"
    unfolding assms(2) [symmetric] by (simp add: pooled_sizes_def 1 [THEN window_count_value])
  then show ?case by (simp only: yields_with_output shaped_new)
qed

lemma strides_taken: "pair_u32_or stride 2 2 name = Inr p \<Longrightarrow> pooled_sizes a [uint (fst p), uint (snd p)] = pooled_sizes a stride"
  by (auto simp: pair_u32_or_def bind_ok_def pooled_sizes_def dest!: checked_u32_value split: list.splits sum.splits)

lemma checked_pool_yields:
  assumes "pair_u32_or stride (fst win) (snd win) name = Inr p" and "win = (2, 2)"
  shows "yields (has_shape (pooled_sizes a stride, at_dtype a)) (pool_launch pt ids op a win p)"
  by (rule pool_launch_yields [OF assms(2) strides_taken]) (use assms in simp)

lemma shaped_pools:
  "yields (has_shape (pooled_sizes a stride, at_dtype a)) (minigpu_max_pool2d pt ids a k stride)"
  "yields (has_shape (pooled_sizes a stride, at_dtype a)) (minigpu_avg_pool2d pt ids a k stride)"
  "yields (has_shape ([size_at a 0, size_at a 1, sizes ! 0, sizes ! 1], at_dtype a)) (adaptive_avg_pool2d_op pt ids a sizes)"
proof -
  show "yields (has_shape (pooled_sizes a stride, at_dtype a)) (minigpu_max_pool2d pt ids a k stride)"
    unfolding minigpu_max_pool2d_def max_pool2d_op_def
    by (rule yields_andThen, rule yields_andThen, rule yields_bind [OF yields_sum], rule yields_andThen,
        rule yields_andThen, rule yields_bind [OF yields_requires], rule checked_pool_yields, assumption) simp
  show "yields (has_shape (pooled_sizes a stride, at_dtype a)) (minigpu_avg_pool2d pt ids a k stride)"
    unfolding minigpu_avg_pool2d_def avg_pool2d_op_def
    by (rule yields_andThen, rule yields_andThen, rule yields_bind [OF yields_sum], rule yields_andThen,
        rule yields_bind [OF yields_requires], rule checked_pool_yields, assumption) simp
  have size: "uint w = v ! i" if "sym_array_u32 v i name = Inr w" for v i name w
    using that checked_u32_value by (auto simp: sym_array_u32_def sym_u32_def split: if_splits)
  show "yields (has_shape ([size_at a 0, size_at a 1, sizes ! 0, sizes ! 1], at_dtype a)) (adaptive_avg_pool2d_op pt ids a sizes)"
    unfolding adaptive_avg_pool2d_op_def
    by (rule yields_andThen, rule yields_bind [OF yields_sum], rule yields_bind [OF yields_sum],
        rule yields_andThen) (simp only: size yields_with_output shaped_new)
qed

section \<open>Shapes of the library's operators\<close>

text \<open>The sizes and element type of each result; \<open>promote\<close> is type promotion as above.\<close>

definition minigpu_shapes :: "(scalar_type \<Rightarrow> scalar_type) \<Rightarrow> (string \<times> (argument list \<Rightarrow> shape option)) list" where
  "minigpu_shapes promote =
     (let same = (\<lambda>a. (at_sizes a, at_dtype a)); promoted = (\<lambda>a. (at_sizes a, promote (at_dtype a)));
          scalar = (\<lambda>a. ([], at_dtype a)); index = (\<lambda>a. ([], kInt))
      in [(''vector_add'', binary (\<lambda>a b. same a)), (''matmul'', binary (\<lambda>a b. ([size_at a 0, size_at b 1], at_dtype a))),
       (''mv'', binary (\<lambda>a x. ([size_at a 0], at_dtype a))), (''dot'', binary (\<lambda>a b. scalar a)),
       (''scal'', takes as_tensor (\<lambda>x. takes as_scalar (\<lambda>al. call (same x)))),
       (''axpy'', takes as_tensor (\<lambda>x. takes as_tensor (\<lambda>y. takes as_scalar (\<lambda>al. call (same x))))),
       (''addmm'', takes as_tensor (\<lambda>x. takes as_tensor (\<lambda>a. takes as_tensor (\<lambda>b. takes as_scalar (\<lambda>be. takes as_scalar (\<lambda>al.
          call (same x))))))),
       (''linear'', takes as_tensor (\<lambda>x. takes as_tensor (\<lambda>w. takes as_opt_tensor (\<lambda>b. call (linear_sizes x w, at_dtype x))))),
       (''relu'', unary same), (''exp'', unary same), (''log'', unary same), (''log2'', unary same), (''log10'', unary same),
       (''sqrt'', unary same), (''reciprocal'', unary same), (''div'', binary (\<lambda>a b. same a)), (''pow'', binary (\<lambda>a b. (at_sizes a, kFloat))),
       (''sigmoid'', unary same), (''tanh'', unary same), (''sin'', unary promoted), (''cos'', unary promoted),
       (''tan'', unary promoted), (''sum'', unary scalar), (''mean'', unary scalar), (''amax'', unary scalar), (''amin'', unary scalar),
       (''argmax'', unary index), (''argmin'', unary index), (''softmax'', takes as_tensor (\<lambda>a. takes as_int (\<lambda>d. call (same a)))),
       (''max_pool2d'', windowed (\<lambda>a k s. (pooled_sizes a s, at_dtype a))),
       (''avg_pool2d'', windowed (\<lambda>a k s. (pooled_sizes a s, at_dtype a))),
       (''adaptive_avg_pool2d'', takes as_tensor (\<lambda>a. takes as_ints (\<lambda>out.
          call ([size_at a 0, size_at a 1, out ! 0, out ! 1], at_dtype a)))),
       (''mse_loss'', binary (\<lambda>a b. scalar a)), (''l1_loss'', binary (\<lambda>a b. scalar a)), (''l2_loss'', binary (\<lambda>a b. scalar a)),
       (''cross_entropy'', binary (\<lambda>a b. scalar a)),
       (''cross_entropy_debug'', binary (\<lambda>a b. ([size_at a 0, 5], at_dtype a)))])"

text \<open>Tables that list the same names in the same order, with related entries.\<close>

definition related :: "('x \<Rightarrow> 'y \<Rightarrow> bool) \<Rightarrow> (string \<times> 'x) list \<Rightarrow> (string \<times> 'y) list \<Rightarrow> bool" where
  "related R xs ys \<longleftrightarrow> list_all2 (\<lambda>(n, x) (n', y). n = n' \<and> R x y) xs ys"

lemma related_lookup:
  assumes "related R xs ys" and "map_of xs name = Some x"
  shows "\<exists>y. map_of ys name = Some y \<and> R x y"
  using assms(1) [unfolded related_def] assms(2) by (induction rule: list_all2_induct) (auto split: if_splits)

lemma related_Nil [kernel_intros]: "related R [] []"
  by (simp add: related_def)

lemma related_Cons [kernel_intros]: "R x y \<Longrightarrow> related R xs ys \<Longrightarrow> related R ((n, x) # xs) ((n, y) # ys)"
  by (simp add: related_def)

lemma schemas_accepted: "related accepts minigpu_schemas (minigpu_kernels pt ids :: (string \<times> (argument list \<Rightarrow> 'd tensor_action option)) list)"
  unfolding minigpu_schemas_def minigpu_kernels_def
  by (intro kernel_intros; simp)

lemma kernels_typed:
  assumes "elementwise_cpu pt promote"
  shows "related typed (minigpu_kernels pt ids :: (string \<times> (argument list \<Rightarrow> 'd tensor_action option)) list) (minigpu_shapes promote)"
  unfolding minigpu_kernels_def minigpu_shapes_def Let_def exp_op_def log_op_def log2_op_def log10_op_def sigmoid_op_def tanh_op_def
    minigpu_sum_def minigpu_mean_def minigpu_amax_def minigpu_amin_def minigpu_argmax_def minigpu_argmin_def minigpu_softmax_def
    sum_op_def mean_op_def amax_op_def amin_op_def softmax_op_def
  by (intro kernel_intros shaped_elementwise shaped_unary shaped_matrix shaped_reductions shaped_losses shaped_cpu [OF assms] shaped_linear shaped_pools
      yields_andThen)

definition minigpu_call :: "torch \<Rightarrow> kernel_ids \<Rightarrow> string \<Rightarrow> argument list \<Rightarrow> 'd tensor_action option" where
  "minigpu_call pt ids name args = Option.bind (map_of (minigpu_kernels pt ids) name) (\<lambda>k. k args)"

definition minigpu_shape :: "(scalar_type \<Rightarrow> scalar_type) \<Rightarrow> string \<Rightarrow> argument list \<Rightarrow> shape option" where
  "minigpu_shape promote name args = Option.bind (map_of (minigpu_shapes promote) name) (\<lambda>m. m args)"

text \<open>
  C15: calls of the library's operators are well typed. Every call that fits the schema of its operator reaches the
  kernel registered for it, the sizes and the element type of its result are computed from the arguments alone (for
  the trigonometric operators, whose values PyTorch computes on the CPU, with PyTorch's type promotion), and when the
  call returns, on whatever device and in whatever state, the result is a device tensor of these sizes and type. The
  hypothesis on PyTorch states the sizes and types of \<open>at::pow\<close> of two fp32 tensors of equal sizes, \<open>at::sin\<close>,
  \<open>at::cos\<close> and \<open>at::tan\<close>.
\<close>

theorem library_calls_typed:
  assumes "elementwise_cpu pt promote" and "map_of minigpu_schemas name = Some ps" and "fits_schema ps args"
  shows "\<exists>(act :: 'd tensor_action) sh. minigpu_call pt ids name args = Some act \<and> minigpu_shape promote name args = Some sh
    \<and> (\<forall>s t s'. act s = (Inr t, s') \<longrightarrow> has_shape sh t)"
proof -
  obtain k :: "argument list \<Rightarrow> 'd tensor_action option" where k: "map_of (minigpu_kernels pt ids) name = Some k" "accepts ps k"
    using related_lookup [OF schemas_accepted assms(2)] by blast
  obtain act where act: "k args = Some act" using k(2) assms(3) unfolding accepts_def by blast
  obtain m where m: "map_of (minigpu_shapes promote) name = Some m" "typed k m"
    using related_lookup [OF kernels_typed [OF assms(1)] k(1)] by blast
  obtain sh where "m args = Some sh" "yields (has_shape sh) act" using m(2) act unfolding typed_def by blast
  then show ?thesis using k(1) act m(1) by (auto simp: minigpu_call_def minigpu_shape_def yields_def)
qed

lemma demo_cpu: "elementwise_cpu demo_torch id"
  by (simp add: elementwise_cpu_def demo_torch_def)

lemma library_calls_typed_witness:
  "\<exists>act t s'. minigpu_call demo_torch (\<lambda>_. Some 0) ''max_pool2d'' [Tensor_Arg demo_image, Ints_Arg [2, 2], Ints_Arg []] = Some act
     \<and> act (serving ''max_pool2d.fp32'', ()) = (Inr t, s') \<and> at_sizes t = [1, 1, 1, 1]"
proof -
  let ?args = "[Tensor_Arg demo_image, Ints_Arg [2, 2], Ints_Arg []]"
  obtain act sh where c: "minigpu_call demo_torch (\<lambda>_. Some 0) ''max_pool2d'' ?args = Some act" "minigpu_shape id ''max_pool2d'' ?args = Some sh"
      "\<forall>s t s'. act s = (Inr t, s' :: unit sys) \<longrightarrow> has_shape sh t"
    using library_calls_typed [where 'd = unit, OF demo_cpu, of "''max_pool2d''" "[PTensor, PInts, PInts]" ?args "\<lambda>_. Some 0"]
    by (simp add: minigpu_schemas_def fits_schema_def del: split_paired_Ex) blast
  have act: "act = max_pool2d_op demo_torch (\<lambda>_. Some 0) demo_image [2, 2] [] [0, 0] [1, 1] False"
    using c(1) by (simp add: minigpu_call_def minigpu_kernels_def takes_def call_def minigpu_max_pool2d_def)
  have sh: "sh = ([1, 1, 1, 1], kFloat)"
    using c(2) by (simp add: minigpu_shape_def minigpu_shapes_def Let_def takes_def call_def pooled_sizes_def pooled_size_def cdiv_def
        demo_image_def)
  show ?thesis using c demo_pool unfolding act sh has_shape_def by (metis fst_conv)
qed

section \<open>Ownership\<close>

text \<open>What each registered function does to the device memory that live tensors hold.\<close>

definition anywhere :: "any_tensor \<Rightarrow> at_tensor list" where
  "anywhere t = (case t of Gpu g \<Rightarrow> [g] | Cpu _ \<Rightarrow> [])"

fun accounts :: "'d aten_kernel \<Rightarrow> bool" where
  "accounts (New m) = neat result m"
| "accounts (Self m) = neat nothing m"
| "accounts (Alias t r) = (\<forall>v. r = Inr v \<longrightarrow> at_storage v = at_storage t)"
| "accounts (Anywhere m) = neat anywhere m"
| "accounts (Gradients m) = neat gradients m"

definition entries :: "('r \<Rightarrow> bool) \<Rightarrow> (string \<times> (argument list \<Rightarrow> 'r option)) list \<Rightarrow> bool" where
  "entries P table \<longleftrightarrow> (\<forall>(n, k) \<in> set table. results P k)"

lemma entries_Nil [kernel_intros]: "entries P []"
  by (simp add: entries_def)

lemma entries_Cons [kernel_intros]: "results P k \<Longrightarrow> entries P table \<Longrightarrow> entries P ((n, k) # table)"
  by (simp add: entries_def)

lemma entries_append: "entries P xs \<Longrightarrow> entries P ys \<Longrightarrow> entries P (xs @ ys)"
  by (auto simp: entries_def)

lemma entries_lookup: "entries P table \<Longrightarrow> map_of table name = Some k \<Longrightarrow> k args = Some r \<Longrightarrow> P r"
  unfolding entries_def results_def by (fastforce dest: map_of_SomeD)

lemma neat_uploaded: "storage_sane pt \<Longrightarrow> neat result (to_minigpu_tensor pt cpu)"
  unfolding to_minigpu_tensor_def by (intro operator_intros)

lemma neat_cpu:
  assumes "storage_sane pt"
  shows "neat result (pow_tensor_tensor pt a b)" "neat result (pow_tensor_scalar pt a v)" "neat result (sin_op pt a)"
    "neat result (cos_op pt a)" "neat result (tan_op pt a)"
  unfolding pow_tensor_tensor_def pow_tensor_scalar_def sin_op_def cos_op_def tan_op_def to_cpu_tensor_def
  by (intro operator_intros neat_uploaded assms refl)+

lemma neat_more_operators:
  assumes "storage_sane pt"
  shows "neat result (argmin_op pt ids a d keep)"
    "neat result (threshold_backward pt ids g x th)" "neat result (sigmoid_backward pt ids g x)" "neat result (tanh_backward pt ids g x)"
    "neat result (softmax_backward_data pt ids g x k dtype)"
  unfolding argmin_op_def threshold_backward_def sigmoid_backward_def tanh_backward_def softmax_backward_data_def Let_def
  by (intro operator_intros assms)+

lemma neat_wrapped:
  assumes "storage_sane pt"
  shows "neat result (vector_add pt ids a b)" "neat result (mul_tensor pt ids a b)" "neat result (relu_op pt ids a)"
    "neat result (run_fp32_unary_kernel pt ids a kop op)" "neat result (sum_op pt ids a dt)" "neat result (sum_dim pt ids a ds keep dt)"
    "neat result (mean_op pt ids a dt)" "neat result (mean_dim pt ids a ds keep dt)" "neat result (amax_op pt ids a dims keep)"
    "neat result (amin_op pt ids a dims keep)" "neat result (softmax_op pt ids a d dt)"
    "neat result (max_pool2d_op pt ids a k s p dl c)" "neat result (avg_pool2d_op pt ids a k s p c incl divisor)"
  unfolding vector_add_def run_vector_add_kernel_def mul_tensor_def relu_op_def run_relu_kernel_def run_fp32_unary_kernel_def
    sum_op_def sum_dim_def mean_op_def mean_dim_def amax_op_def amin_op_def softmax_op_def max_pool2d_op_def avg_pool2d_op_def
  by (intro neat_andThen neat_requires neat_of_sum neat_elementwise neat_reductions assms)+

text \<open>An action that holds on to nothing may return what is not on the device.\<close>

lemma neat_returns: "neat nothing m \<Longrightarrow> yields (\<lambda>x. own x = []) m \<Longrightarrow> neat own m"
  unfolding neat_def yields_def by (fastforce split: sum.splits)

lemma copied_to_host: "yields (\<lambda>x. anywhere x = []) (copy_tensor pt (Cpu t) src)"
  unfolding copy_tensor_def Let_def
  by (intro yields_andThen yields_if yields_ret; (cases src)?; simp add: anywhere_def yields_ret yields_andThen)

text \<open>The sizes that PyTorch asks for on behalf of strided tensors.\<close>

definition strided_sane :: "torch \<Rightarrow> bool" where
  "strided_sane pt \<longleftrightarrow> (\<forall>sizes strides dtype n. pt_strided_bytes pt sizes strides dtype = Inr n \<longrightarrow> unat n < 2 ^ 63)"

lemma neat_storage:
  assumes "storage_sane pt" and "strided_sane pt"
  shows "neat nothing (fill_scalar pt t v)" "neat nothing (zero_tensor pt t)" "neat result (empty_strided pt sizes strides dt lay pin)"
    "neat anywhere (to_copy pt x dt lay dev pin fmt :: ('d sys, exn, any_tensor) action)"
proof -
  show fill: "neat nothing (fill_scalar pt t v)" for v
    unfolding fill_scalar_def require_contiguous_def upload_def Let_def by (intro operator_intros refl)
  show "neat nothing (zero_tensor pt t)" unfolding zero_tensor_def by (rule fill)
  show "neat result (empty_strided pt sizes strides dt lay pin)"
    unfolding empty_strided_def Let_def using assms by (intro neat_andThen neat_requires neat_generic_tensor) (simp add: strided_sane_def)
  have host: "neat anywhere (ret (Cpu c) :: ('d sys, exn, any_tensor) action)" "neat anywhere (copy_tensor pt (Cpu c) y :: ('d sys, exn, any_tensor) action)" for c y
    by (simp add: neat_ret anywhere_def, rule neat_returns [OF neat_copy_tensor copied_to_host])
  have new: "neat anywhere (andThen m (\<lambda>out. ret (Gpu out)))" if "neat result m" for m :: "('d sys, exn, at_tensor) action"
    by (rule neat_map [OF that]) (simp add: anywhere_def)
  have branch: "neat anywhere ((case y of Gpu g \<Rightarrow> copy_tensor pt (Cpu c) z | Cpu h \<Rightarrow> ret (Cpu (f h))) :: ('d sys, exn, any_tensor) action)" for y z c f
    by (cases y) (simp_all add: host)
  have fresh: "neat result (with_output (empty pt sizes d l p f) (\<lambda>out. andThen (copy_tensor pt (Gpu out) x) (\<lambda>_. ret ())) :: 'd tensor_action)" for sizes d l p f
    by (intro neat_with_output neat_new_tensor neat_andThen [OF neat_copy_tensor] neat_ret refl assms)
  show "neat anywhere (to_copy pt x dt lay dev pin fmt :: ('d sys, exn, any_tensor) action)"
    unfolding to_copy_def Let_def by (intro neat_andThen [OF neat_requires] neat_if new fresh branch)
qed

lemmas all_neat = neat_new_tensor neat_elementwise neat_matrix neat_linear neat_convolution neat_reductions neat_losses neat_more_losses
  neat_add_tensor neat_backward neat_cpu neat_more_operators neat_wrapped neat_storage neat_copy_tensor neat_add_inplace

lemma library_entries:
  assumes "storage_sane pt" and "strided_sane pt"
  shows "entries (neat result) (minigpu_kernels pt ids)"
  unfolding minigpu_kernels_def exp_op_def log_op_def log2_op_def log10_op_def sigmoid_op_def tanh_op_def
    minigpu_sum_def minigpu_mean_def minigpu_amax_def minigpu_amin_def minigpu_argmax_def minigpu_argmin_def minigpu_softmax_def
    minigpu_max_pool2d_def minigpu_avg_pool2d_def
  by (intro kernel_intros all_neat assms)

lemma accounts_intros:
  "neat result m \<Longrightarrow> accounts (New m)" "neat nothing m' \<Longrightarrow> accounts (Self m')" "neat anywhere a \<Longrightarrow> accounts (Anywhere a)"
  "neat gradients g \<Longrightarrow> accounts (Gradients g)" "neat nothing n \<Longrightarrow> accounts (Self (andThen n (\<lambda>r. ret (Gpu r))))"
  by (simp_all add: neat_map [where own = nothing])

lemma accounts_alias:
  "accounts (Alias t (view pt t sizes))" "accounts (Alias t (Inr (as_strided t sizes strides offset)))"
  "accounts (Alias t (Inr (reshape_alias t sizes strides)))"
  by (auto simp: as_strided_def reshape_alias_def make_alias_def dest: view_storage)

lemma aten_entries:
  assumes "storage_sane pt" and "strided_sane pt"
  shows "entries accounts (aten_kernels pt ids)"
  unfolding aten_kernels_def aten_storage_kernels_def aten_forward_kernels_def aten_elementwise_kernels_def aten_reduction_kernels_def
    aten_backward_kernels_def exp_op_def log_op_def log2_op_def log10_op_def sigmoid_op_def tanh_op_def
  by (intro entries_append kernel_intros accounts_alias accounts_intros(1,3,4,5) all_neat assms;
      intro accounts_intros(2) all_neat assms)

lemma autograd_entries:
  assumes "storage_sane pt" and "strided_sane pt"
  shows "entries (neat forward_result) (minigpu_autograd_kernels pt ids :: (string \<times> (argument list \<Rightarrow> 'd forward_action option)) list)"
    "entries (neat forward_result) (aten_autograd_kernels pt ids :: (string \<times> (argument list \<Rightarrow> 'd forward_action option)) list)"
proof -
  have forward: "neat forward_result (andThen m (\<lambda>y. ret (y, ctx y)))" if "neat result m" for m :: "'d tensor_action" and ctx
    by (rule neat_map [OF that]) (simp add: forward_result_def)
  show "entries (neat forward_result) (minigpu_autograd_kernels pt ids :: (string \<times> (argument list \<Rightarrow> 'd forward_action option)) list)"
    unfolding minigpu_autograd_kernels_def by (intro kernel_intros neat_autograd_forward assms)
  show "entries (neat forward_result) (aten_autograd_kernels pt ids :: (string \<times> (argument list \<Rightarrow> 'd forward_action option)) list)"
    unfolding aten_autograd_kernels_def minigpu_autograd_relu_def minigpu_autograd_sigmoid_def minigpu_autograd_tanh_def
      minigpu_autograd_softmax_impl_def minigpu_autograd_linear_def minigpu_autograd_convolution_def relu_autograd_forward_def sigmoid_autograd_forward_def tanh_autograd_forward_def
      softmax_autograd_forward_def linear_autograd_forward_def convolution_autograd_forward_def sigmoid_op_def tanh_op_def
    by (intro kernel_intros neat_autograd_forward forward all_neat assms)
qed

text \<open>
  C14: every operator that the extension registers with PyTorch, under both keys of both libraries, accounts for the
  device memory it takes. When a new tensor (or gradients) is returned, the new live allocations are exactly its own;
  in-place operators leave none; an alias shares the storage of its argument; a copy owns memory only when it lies on
  the device; and whenever one throws, on whatever path, the live allocations are those of before.
\<close>

theorem registered_operators_account:
  assumes "storage_sane pt" and "strided_sane pt"
  shows "(\<forall>name args act. minigpu_call pt ids name args = Some act \<longrightarrow> neat result (act :: 'd tensor_action))
    \<and> (\<forall>name k args r. map_of (aten_kernels pt ids) name = Some k \<and> k args = Some r \<longrightarrow> accounts (r :: 'd aten_kernel))
    \<and> (\<forall>name k args act. map_of (minigpu_autograd_kernels pt ids @ aten_autograd_kernels pt ids) name = Some k \<and> k args = Some act
         \<longrightarrow> neat forward_result (act :: 'd forward_action))"
proof (intro conjI allI impI)
  fix name args and act :: "'d tensor_action"
  assume "minigpu_call pt ids name args = Some act"
  then show "neat result act"
    using entries_lookup [OF library_entries [OF assms]] by (auto simp: minigpu_call_def bind_eq_Some_conv)
next
  fix name k args and r :: "'d aten_kernel"
  assume "map_of (aten_kernels pt ids) name = Some k \<and> k args = Some r"
  then show "accounts r" using entries_lookup [OF aten_entries [OF assms]] by blast
next
  fix name k args and act :: "'d forward_action"
  assume "map_of (minigpu_autograd_kernels pt ids @ aten_autograd_kernels pt ids) name = Some k \<and> k args = Some act"
  then show "neat forward_result act"
    using entries_lookup [OF entries_append [OF autograd_entries [OF assms]]] by blast
qed

lemma demo_strided_sane: "strided_sane demo_torch"
  by (simp add: strided_sane_def demo_torch_def)

text \<open>A product whose kernel is not registered: the memory of its result is given back.\<close>

lemma registered_operators_account_witness:
  "\<exists>act. minigpu_call demo_torch (\<lambda>_. None) ''matmul'' [Tensor_Arg (demo_matrix 1), Tensor_Arg (demo_matrix 17)] = Some act
     \<and> fst (act (small_context, ())) = Inl (error NotFound) \<and> held (snd (act (small_context, ()))) = {}"
proof -
  let ?act = "mm demo_torch (\<lambda>_. None) (demo_matrix 1) (demo_matrix 17) :: unit tensor_action"
  have c: "minigpu_call demo_torch (\<lambda>_. None) ''matmul'' [Tensor_Arg (demo_matrix 1), Tensor_Arg (demo_matrix 17)] = Some ?act"
    by (simp add: minigpu_call_def minigpu_kernels_def takes_def call_def)
  obtain s' where r: "?act (small_context, ()) = (Inl (error NotFound), s')" using demo_mm by (metis prod.collapse)
  have "neat result ?act"
    using registered_operators_account [OF demo_storage_sane demo_strided_sane, THEN conjunct1] c by blast
  from neatD(2) [OF this small_sys_ok r] have "held s' = held (small_context, ())" by simp
  then show ?thesis using c r by (simp add: held_def small_context_def)
qed

end
