(* ===== verification/TorchSession.thy ===== *)
theory TorchSession
  imports TorchState TorchDispatch
begin

text \<open>
  The sessions of the PyTorch backend: which states connecting, disconnecting and the operators lead to,
  which serial ports are open in them, and where a failure leaves the backend.
\<close>

section \<open>The context of a session\<close>

text \<open>The program memory the environment asks for, if any, is a number and fits the device's addresses.\<close>

definition env_fits :: "('w, 'n) platform \<Rightarrow> bool" where
  "env_fits pl \<longleftrightarrow> (case pl_env pl ''MINIGPU_PROGRAM_MEMORY_BYTES'' of None \<Rightarrow> True
     | Some text \<Rightarrow> text = [] \<or> (case stoul10 text of Inl _ \<Rightarrow> False | Inr n \<Rightarrow> unat n < 2 ^ 32))"

lemma connect_config_transport:
  "connect_config pl dev msize = Inr config \<Longrightarrow>
     cfg_transport config = make_gpu_comm_transport (pl_os pl) (Some dev) default_transport_config"
  by (auto simp: connect_config_def bind_ok_def split: sum.splits)

lemma connect_config_fits:
  assumes "env_fits pl"
  shows "\<exists>config. connect_config pl dev msize = Inr config \<and> unat (cfg_program_memory_size config) < 2 ^ 32
    \<and> cfg_default_alignment config = 4 \<and> cfg_memory_base config = 0 \<and> cfg_memory_size config = widen msize"
  using assms by (auto simp: env_fits_def connect_config_def default_config_def split: option.splits sum.splits)

lemma new_context_ok:
  assumes "context_new env config = Inr c" and "unat (cfg_program_memory_size config) < 2 ^ 32"
    and "cfg_default_alignment config = 4"
  shows "sys_ok (c, w)" and "held (c, w) = {}"
proof -
  note new = context_new_cases [OF assms(1)] context_new_mem_ok [OF assms(1)]
  have "prog_ok c"
    using new(3,6,10,11) assms(2) by (simp add: prog_ok_def slots_def word_neq_0_conv word_less_nat_alt)
  moreover have "ctx_default_alignment c = 4"
    using assms(1,3) by (auto simp: context_new_def Let_def split: if_splits)
  ultimately show "sys_ok (c, w)" "held (c, w) = {}" using new by (simp_all add: sys_ok_def held_def)
qed

lemma mem_ok_kernels [simp]: "mem_ok (c\<lparr>ctx_kernels := ks\<rparr>) = mem_ok c"
  by (simp add: mem_ok_def mem_lo_def mem_hi_def memory_size_def)

lemma register_all_memory: "sys_ok (c, w) \<Longrightarrow> \<exists>r c'. register_all pks c = (r, c') \<and> sys_ok (c', w) \<and> held (c', w) = held (c, w)
    \<and> ctx_transport c' = ctx_transport c"
proof (induction pks arbitrary: c)
  case (Cons pk pks)
  let ?c = "snd (register_kernel pk c)"
  have "sys_ok (?c, w) \<and> held (?c, w) = held (c, w) \<and> ctx_transport ?c = ctx_transport c"
    using Cons.prems by (simp add: register_kernel_result sys_ok_def held_def prog_ok_def slots_def)
  then show ?case using Cons.IH [of ?c] Cons.prems by (cases "register_kernel pk c") (auto simp: andThen_def split: sum.splits)
qed simp

lemma register_builtin_memory:
  assumes "sys_ok (c, w)" and "register_builtin_kernels fs y env built_in c = (r, c')"
  shows "sys_ok (c', w)" and "held (c', w) = held (c, w)" and "ctx_transport c' = ctx_transport c"
proof -
  have "sys_ok (c', w) \<and> held (c', w) = held (c, w) \<and> ctx_transport c' = ctx_transport c"
  proof (cases "parse_manifest fs y (default_manifest_path env built_in)")
    case (Inr pks)
    obtain r1 c1 where "register_all pks c = (r1, c1)" "sys_ok (c1, w)" "held (c1, w) = held (c, w)"
        "ctx_transport c1 = ctx_transport c"
      using register_all_memory [OF assms(1)] by blast
    then show ?thesis using assms(2) Inr by (simp add: register_builtin_kernels_def register_manifest_def andThen_def)
  qed (use assms in \<open>simp add: register_builtin_kernels_def register_manifest_def andThen_def\<close>)
  then show "sys_ok (c', w)" "held (c', w) = held (c, w)" "ctx_transport c' = ctx_transport c" by simp_all
qed

section \<open>The sessions\<close>

text \<open>The backward functions of the autograd classes.\<close>

definition backward_kernels ::
    "torch \<Rightarrow> kernel_ids \<Rightarrow> ((nat \<Rightarrow> bool) \<Rightarrow> autograd_context \<Rightarrow> at_tensor \<Rightarrow> ('w sys, exn, variable_list) action) list" where
  "backward_kernels pt ids =
     [\<lambda>needs. relu_autograd_backward pt ids, \<lambda>needs. sigmoid_autograd_backward pt ids,
      \<lambda>needs. tanh_autograd_backward pt ids, \<lambda>needs. softmax_autograd_backward pt ids,
      linear_autograd_backward pt ids, convolution_autograd_backward pt ids, loss_autograd_backward pt ids]"

text \<open>A registered function on the backend: what it computes on the context, or an alias, which touches nothing.\<close>

fun run_kernel :: "'w aten_kernel \<Rightarrow> 'w backend \<Rightarrow> 'w backend" where
  "run_kernel (New m) s = snd (runtime_context m s)"
| "run_kernel (Self m) s = snd (runtime_context m s)"
| "run_kernel (Alias t r) s = s"
| "run_kernel (Anywhere m) s = snd (runtime_context m s)"
| "run_kernel (Gradients m) s = snd (runtime_context m s)"

text \<open>
  What can happen to a backend: the session functions with any arguments, a call of any operator that the
  extension registers, under both keys of both libraries, with any arguments, a backward pass with any saved
  context, and the end of a tensor. Every step may fail.
\<close>

inductive backend_step :: "('w, 'n) platform \<Rightarrow> torch \<Rightarrow> kernel_ids \<Rightarrow> 'w backend \<Rightarrow> 'w backend \<Rightarrow> bool"
  for pl pt ids where
  init: "backend_step pl pt ids (b, w) (init b, w)"
| set_device: "backend_step pl pt ids (b, w) (snd (set_device i b), w)"
| connect: "connect pl port baud msize s = (r, s') \<Longrightarrow> backend_step pl pt ids s s'"
| disconnect: "backend_step pl pt ids s (disconnect pl s)"
| library_call: "minigpu_call pt ids name args = Some act \<Longrightarrow> runtime_context act s = (r, s')
    \<Longrightarrow> backend_step pl pt ids s s'"
| aten_call: "map_of (aten_kernels pt ids) name = Some k \<Longrightarrow> k args = Some f
    \<Longrightarrow> backend_step pl pt ids s (run_kernel f s)"
| autograd_call: "map_of (minigpu_autograd_kernels pt ids @ aten_autograd_kernels pt ids) name = Some k \<Longrightarrow> k args = Some act
    \<Longrightarrow> runtime_context act s = (r, s') \<Longrightarrow> backend_step pl pt ids s s'"
| backward: "bwd \<in> set (backward_kernels pt ids) \<Longrightarrow> runtime_context (bwd needs ctx grad) s = (r, s')
    \<Longrightarrow> backend_step pl pt ids s s'"
| drop: "backend_step pl pt ids s (drop_storage storage s)"

inductive_cases backend_stepE: "backend_step pl pt ids s s'"

text \<open>
  The state of a session. A context talks to one port, the open one; a context without a port is what a
  failed registration leaves behind.
\<close>

definition backend_ok :: "('w, 'n) platform \<Rightarrow> ('w \<Rightarrow> int set) \<Rightarrow> 'w backend \<Rightarrow> bool" where
  "backend_ok pl opened s \<longleftrightarrow> (case s of (b, w) \<Rightarrow>
     bs_current_device b = 0
     \<and> (bs_initialized b \<longrightarrow> bs_hooks b)
     \<and> (case bs_context b of
          None \<Rightarrow> bs_dev b = None
        | Some c \<Rightarrow> sys_ok (c, w) \<and> (\<exists>dev. bs_dev b \<in> {None, Some dev}
            \<and> ctx_transport c = make_gpu_comm_transport (pl_os pl) (Some dev) default_transport_config))
     \<and> opened w = (case bs_dev b of None \<Rightarrow> {} | Some dev \<Rightarrow> {dev_fd dev}))"

text \<open>The calls of the operating system on an open port neither open nor close one.\<close>

definition os_leaves_ports :: "('w, 'n) platform \<Rightarrow> ('w \<Rightarrow> int set) \<Rightarrow> bool" where
  "os_leaves_ports pl opened \<longleftrightarrow> (\<forall>ports. os_keeps (\<lambda>w. opened w = ports) (pl_os pl))"

lemma sys_ok_world: "sys_ok (c, w) = sys_ok (c, w')"
  by (simp add: sys_ok_def)

lemma connect_opened_ok:
  assumes "env_fits pl" and "port_laws (pl_port pl) opened" and "backend_ok pl opened (b, w)" and "bs_context b = None"
    and "dev_fd dev \<notin> opened w" and "opened w1 = insert (dev_fd dev) (opened w)"
    and "connect_opened pl dev msize (b, w1) = (r, s')"
  shows "backend_ok pl opened s'"
proof -
  have b: "bs_current_device b = 0" "bs_initialized b \<longrightarrow> bs_hooks b" "bs_dev b = None" "opened w = {}"
    using assms(3,4) by (simp_all add: backend_ok_def)
  have closed: "opened (close_com (pl_port pl) (Some dev) w1) = {}"
    using close_com_ports [OF assms(2), of dev w1] assms(6) b(4) by simp
  obtain config where conf: "connect_config pl dev msize = Inr config"
      "unat (cfg_program_memory_size config) < 2 ^ 32" "cfg_default_alignment config = 4"
    using connect_config_fits [OF assms(1)] by blast
  show ?thesis
  proof (cases "context_new (pl_env pl) config")
    case (Inl e)
    then show ?thesis using assms(7) conf(1) b closed assms(4) by (auto simp: connect_opened_def backend_ok_def Let_def)
  next
    case (Inr c)
    obtain q c' where q: "register_builtin_kernels (pl_files pl) (pl_yaml pl) (pl_env pl) (pl_manifest pl) c = (q, c')"
      by (metis prod.exhaust)
    have "sys_ok (c', v)" for v
      using register_builtin_memory(1) [OF new_context_ok(1) [OF Inr conf(2,3)] q] sys_ok_world by blast
    moreover have "ctx_transport c' = make_gpu_comm_transport (pl_os pl) (Some dev) default_transport_config"
      using register_builtin_memory(3) [OF new_context_ok(1) [OF Inr conf(2,3)] q] context_new_cases(14) [OF Inr]
        connect_config_transport [OF conf(1)] by simp
    ultimately show ?thesis
      using assms(6,7) conf(1) b closed Inr q by (cases q) (auto simp: connect_opened_def backend_ok_def Let_def)
  qed
qed

lemma delete_keeps:
  assumes "sys_ok s"
  shows "sys_ok (delete_minigpu_allocation storage s) \<and> snd (delete_minigpu_allocation storage s) = snd s"
proof (cases "decode storage")
  case (Inr a)
  obtain st c where free: "device_free a (fst s) = (st, c)" by force
  have same: "ctx_default_alignment c = ctx_default_alignment (fst s)" "prog_ok c = prog_ok (fst s)"
    using free by (cases "mark_free a (ctx_blocks (fst s))"; auto simp: device_free_def prog_ok_def slots_def)+
  have "mem_ok c"
    using device_free_Ok(1) [of "fst s" a c] device_free_NotFound(2) [of a "fst s"] free assms
    by (cases "st = Ok") (auto simp: sys_ok_def)
  then show ?thesis using assms same free Inr by (simp add: delete_minigpu_allocation_def sys_ok_def)
qed (use assms in \<open>simp add: delete_minigpu_allocation_def\<close>)

lemma backend_ok_context:
  assumes "backend_ok pl opened (b, w)" and "bs_context b = Some c"
  shows "sys_ok (c, w)"
    and "\<exists>dev. ctx_transport c = make_gpu_comm_transport (pl_os pl) (Some dev) default_transport_config"
    and "sys_ok (c', w') \<Longrightarrow> ctx_transport c' = ctx_transport c \<Longrightarrow> opened w' = opened w
      \<Longrightarrow> backend_ok pl opened (b\<lparr>bs_context := Some c'\<rparr>, w')"
  using assms by (auto simp: backend_ok_def)

text \<open>An operator keeps the context well formed, and through the serial transport it reaches no other port.\<close>

lemma operate_ok:
  assumes "os_leaves_ports pl opened" and "backend_ok pl opened s" and "neat own work" and "runtime_context work s = (r, s')"
  shows "backend_ok pl opened s'"
proof -
  obtain b w where s: "s = (b, w)" by (metis prod.exhaust)
  show ?thesis
  proof (cases "bs_context b")
    case (Some c)
    note ok = backend_ok_context [OF assms(2) [unfolded s] Some]
    obtain q c' w' where work: "work (c, w) = (q, (c', w'))" by (metis prod.exhaust)
    obtain dev where "ctx_transport c = make_gpu_comm_transport (pl_os pl) (Some dev) default_transport_config"
      using ok(2) by blast
    then have "transport_keeps (\<lambda>v. opened v = opened w) (ctx_transport c)"
      using assms(1) by (simp add: serial_transport_keeps os_leaves_ports_def)
    from confinedD [OF neat_confined [OF assms(3)] this _ work]
    have "ctx_transport c' = ctx_transport c" "opened w' = opened w" by (simp_all add: linked_def)
    moreover have "sys_ok (c', w')" by (rule neatD(1) [OF assms(3) ok(1) work])
    ultimately show ?thesis
      using ok(3) assms(4) s Some work by (auto simp: runtime_context_def)
  qed (use assms s in \<open>auto simp: runtime_context_def\<close>)
qed

lemma operate_state_ok:
  assumes "os_leaves_ports pl opened" and "backend_ok pl opened s" and "neat own work"
  shows "backend_ok pl opened (snd (runtime_context work s))"
  by (rule operate_ok [OF assms]) (rule prod.collapse [symmetric])

lemma run_kernel_ok:
  assumes "os_leaves_ports pl opened" and "backend_ok pl opened s" and "accounts f"
  shows "backend_ok pl opened (run_kernel f s)"
  using assms by (cases f) (auto intro: operate_state_ok)

lemma backward_neat:
  assumes "storage_sane pt" and "bwd \<in> set (backward_kernels pt ids)"
  shows "neat defined (bwd needs ctx grad)"
proof -
  have one: "neat defined (andThen m (\<lambda>g. ret (Some g # replicate k None)))" if "neat result m" for m and k
    by (rule neat_map [OF that]) (induction k, simp_all add: defined_def map_filter_simps)
  note single = one [of _ 0, simplified] one [of _ 2, unfolded numeral_2_eq_2, simplified]
  have "neat defined (relu_autograd_backward pt ids ctx grad)" "neat defined (sigmoid_autograd_backward pt ids ctx grad)"
    "neat defined (tanh_autograd_backward pt ids ctx grad)" "neat defined (softmax_autograd_backward pt ids ctx grad)"
    unfolding relu_autograd_backward_def sigmoid_autograd_backward_def tanh_autograd_backward_def softmax_autograd_backward_def
    by (intro neat_andThen [OF neat_of_sum] single neat_more_operators assms(1))+
  then show ?thesis
    using assms(2) neat_layer_backward [OF assms(1)] neat_loss_backward [OF assms(1)]
    by (auto simp: backward_kernels_def)
qed

lemma drop_ok:
  assumes "backend_ok pl opened s"
  shows "backend_ok pl opened (drop_storage storage s)"
proof -
  obtain b w where s: "s = (b, w)" by (metis prod.exhaust)
  show ?thesis
  proof (cases "bs_context b")
    case (Some c)
    obtain c' where c': "delete_minigpu_allocation storage (c, w) = (c', w)" "sys_ok (c', w)"
      using delete_keeps [OF backend_ok_context(1) [OF assms(1) [unfolded s] Some]] by (metis prod.collapse snd_conv)
    moreover have "ctx_transport c' = ctx_transport c"
      using linked_delete [of "ctx_transport c" "\<lambda>_. True" storage "(c, w)"] c'(1) by (simp add: linked_def)
    ultimately show ?thesis
      using backend_ok_context(3) [OF assms(1) [unfolded s] Some, of c' w] s Some by (simp add: drop_storage_def)
  qed (use assms s in \<open>simp add: drop_storage_def\<close>)
qed

lemma backend_step_ok:
  assumes "env_fits pl" and "port_laws (pl_port pl) opened" and "backend_ok pl opened s" and "backend_step pl pt ids s s'"
    and "os_leaves_ports pl opened" and "storage_sane pt" and "strided_sane pt"
  shows "backend_ok pl opened s'"
  using assms(4,3)
proof (cases rule: backend_step.cases)
  case (connect port baud msize r)
  obtain b w where s: "s = (b, w)" by (metis prod.exhaust)
  obtain q w1 where o: "open_com (pl_port pl) port (sint baud) 5000 w = (q, w1)" by (metis prod.exhaust)
  note ports = open_com_ports [OF assms(2) _ o]
  show ?thesis
  proof (cases "bs_context b")
    case (Some c)
    then show ?thesis using connect assms(3) s by (simp add: connect_def)
  next
    case None
    consider (failed) "q = Inr None" | (got) dev where "q = Inr (Some dev)"
      using ports by (cases q) (auto split: option.splits)
    then show ?thesis
    proof cases
      case failed
      then show ?thesis using connect None s o ports assms(3) by (auto simp: connect_def backend_ok_def)
    next
      case got
      then show ?thesis
        using connect_opened_ok [OF assms(1,2), of b w dev w1 msize r s'] connect None s o ports assms(3)
        by (simp add: connect_def)
    qed
  qed
next
  case (library_call name args act r)
  have "neat result act"
    using entries_lookup [OF library_entries [OF assms(6,7)]] library_call(1)
    by (auto simp: minigpu_call_def bind_eq_Some_conv)
  then show ?thesis using operate_ok [OF assms(5,3)] library_call(2) by blast
next
  case (aten_call name k args f)
  have "accounts f" using entries_lookup [OF aten_entries [OF assms(6,7)]] aten_call(2,3) by blast
  then show ?thesis using run_kernel_ok [OF assms(5,3)] aten_call(1) by blast
next
  case (autograd_call name k args act r)
  have "neat forward_result act"
    using entries_lookup [OF entries_append [OF autograd_entries [OF assms(6,7)]]] autograd_call(1,2) by blast
  then show ?thesis using operate_ok [OF assms(5,3)] autograd_call(3) by blast
next
  case (backward bwd needs ctx grad r)
  then show ?thesis using operate_ok [OF assms(5,3) backward_neat [OF assms(6)]] by blast
next
  case (drop storage)
  then show ?thesis using drop_ok assms(3) by blast
qed (auto simp: backend_ok_def init_def set_device_def disconnect_def close_com_ports [OF assms(2)] Let_def
    split: option.splits)

text \<open>
  C16: The session invariant, for the states reachable while the environment's program memory size is absent
  or a number of the device's range (\<open>bad_environment_leaks_port\<close> shows what happens otherwise), on an
  operating system whose port calls open and close what they say and whose other calls open and close none,
  and a PyTorch that asks for fewer bytes than a signed 64-bit number. In whatever order the backend is
  initialised, connected and disconnected, its registered operators and backward functions called and its
  tensors dropped, with every failure on the way: the current device is 0; the context, if there is one, is
  well formed and sends everything to one port; and the open ports are exactly the one the backend will close
  on disconnecting, the one of the context, so none is leaked and none closed twice.
\<close>

theorem session_invariant:
  assumes "env_fits pl" and "port_laws (pl_port pl) opened" and "os_leaves_ports pl opened"
    and "storage_sane pt" and "strided_sane pt" and "opened w = {}"
    and "(backend_step pl pt ids)\<^sup>*\<^sup>* (initial_backend, w) s"
  shows "backend_ok pl opened s"
  using assms(7)
proof (induction rule: rtranclp_induct)
  case base
  show ?case using assms(6) by (simp add: backend_ok_def initial_backend_def)
next
  case (step s s')
  show ?case by (rule backend_step_ok [OF assms(1,2) step.IH step.hyps(2) assms(3-5)])
qed

text \<open>
  A program memory size in the environment that is not a number makes \<open>connect\<close> fail after the port
  was opened and before anything would close it: the port stays open with nothing referring to it, and
  every further attempt leaks one more.
\<close>

theorem bad_environment_leaks_port:
  assumes "port_laws (pl_port pl) opened" and "bs_context b = None"
    and "pl_env pl ''MINIGPU_PROGRAM_MEMORY_BYTES'' = Some setting" and "setting \<noteq> []" and "stoul10 setting = Inl e"
    and "open_com (pl_port pl) port (sint baud) 5000 w = (Inr (Some dev), w')"
  shows "connect pl port baud msize (b, w) = (Inl e, (b, w')) \<and> dev_fd dev \<notin> opened w
    \<and> opened w' = insert (dev_fd dev) (opened w)"
  using open_com_ports [OF assms(1) _ assms(6)] assms
  by (simp_all add: connect_def connect_opened_def connect_config_def)

text \<open>
  When registering the kernels fails, for a missing or malformed manifest, \<open>connect\<close> closes the port
  and throws, but keeps the context: the device counts as available although its port is closed, and
  connecting again reports success without opening a port.
\<close>

theorem failed_registration_stays_connected:
  assumes "port_laws (pl_port pl) opened" and "bs_context b = None"
    and "open_com (pl_port pl) port (sint baud) 5000 w = (Inr (Some dev), w1)"
    and "connect_config pl dev msize = Inr config" and "context_new (pl_env pl) config = Inr c"
    and "parse_manifest (pl_files pl) (pl_yaml pl) (default_manifest_path (pl_env pl) (pl_manifest pl)) = Inl e"
  shows "\<exists>s. connect pl port baud msize (b, w) = (Inl e, s) \<and> is_available (fst s) \<and> opened (snd s) = opened w
    \<and> connect pl port' baud' msize' s = (Inr (), s)"
proof -
  have "register_builtin_kernels (pl_files pl) (pl_yaml pl) (pl_env pl) (pl_manifest pl) c = (Inl e, c)"
    using assms(6) by (simp add: register_builtin_kernels_def register_manifest_def andThen_def)
  moreover have "opened (close_com (pl_port pl) (Some dev) w1) = opened w"
    using close_com_ports [OF assms(1)] open_com_ports [OF assms(1) _ assms(3)] by simp
  ultimately show ?thesis
    using assms by (simp add: connect_def connect_opened_def is_available_def Let_def)
qed

section \<open>A successful connection\<close>

lemma context_new_fields:
  assumes "context_new env config = Inr c" and "cfg_memory_base config = 0"
  shows "ctx_kernels c = []" and "\<exists>n. ctx_blocks c = [\<lparr>boffset = 0, bsize = n, bfree = True\<rparr>]"
  using context_new_cases(1,9,12) [OF assms(1)] assms(2) by auto

lemma register_all_blocks: "ctx_blocks (snd (register_all pks c)) = ctx_blocks c"
proof (induction pks arbitrary: c)
  case (Cons pk pks)
  then show ?case by (simp add: andThen_def register_kernel_result)
qed simp

lemma connect_success:
  assumes "env_fits pl" and "bs_context b = None" and "connect pl port baud msize (b, w) = (Inr (), s)"
  shows "\<exists>dev c0 c pks n.
    open_com (pl_port pl) port (sint baud) 5000 w = (Inr (Some dev), snd s)
    \<and> bs_dev (fst s) = Some dev \<and> bs_context (fst s) = Some c \<and> sys_ok (c, snd s) \<and> ctx_kernels c0 = []
    \<and> ctx_blocks c = [\<lparr>boffset = 0, bsize = n, bfree = True\<rparr>]
    \<and> parse_manifest (pl_files pl) (pl_yaml pl) (default_manifest_path (pl_env pl) (pl_manifest pl)) = Inr pks
    \<and> register_all pks c0 = (Inr (), c)"
proof -
  obtain dev w1 where o: "open_com (pl_port pl) port (sint baud) 5000 w = (Inr (Some dev), w1)"
      "connect_opened pl dev msize (b, w1) = (Inr (), s)"
    using assms(2,3) by (auto simp: connect_def split: prod.splits sum.splits option.splits)
  obtain config where conf: "connect_config pl dev msize = Inr config"
      "unat (cfg_program_memory_size config) < 2 ^ 32" "cfg_default_alignment config = 4" "cfg_memory_base config = 0"
    using connect_config_fits [OF assms(1)] by blast
  obtain c0 where c0: "context_new (pl_env pl) config = Inr c0"
    using o(2) conf(1) by (auto simp: connect_opened_def Let_def split: sum.splits)
  obtain c where c: "register_builtin_kernels (pl_files pl) (pl_yaml pl) (pl_env pl) (pl_manifest pl) c0 = (Inr (), c)"
      "bs_context (fst s) = Some c" "bs_dev (fst s) = Some dev" "snd s = w1"
    using o(2) conf(1) c0 by (auto simp: connect_opened_def Let_def split: sum.splits prod.splits)
  then obtain pks where pks: "register_all pks c0 = (Inr (), c)"
      "parse_manifest (pl_files pl) (pl_yaml pl) (default_manifest_path (pl_env pl) (pl_manifest pl)) = Inr pks"
    by (auto simp: register_builtin_kernels_def register_manifest_def andThen_def split: sum.splits)
  have "sys_ok (c, snd s)"
    by (rule register_builtin_memory(1) [OF new_context_ok(1) [OF c0 conf(2,3)] c(1)])
  moreover obtain n where "ctx_blocks c = [\<lparr>boffset = 0, bsize = n, bfree = True\<rparr>]"
    using context_new_fields(2) [OF c0 conf(4)] register_all_blocks [of pks c0] pks(1) by auto
  ultimately show ?thesis
    using o(1) c pks context_new_fields(1) [OF c0 conf(4)] by blast
qed

text \<open>
  When \<open>connect\<close> returns on a disconnected backend, the port is open and kept for closing, the context
  is well formed with all its memory free, and exactly the kernels of the manifest are registered, each
  name with the last entry the manifest has for it.
\<close>

theorem connect_ready:
  assumes "env_fits pl" and "port_laws (pl_port pl) opened" and "bs_context b = None"
    and "connect pl port baud msize (b, w) = (Inr (), s)"
  shows "\<exists>dev c pks. bs_dev (fst s) = Some dev \<and> opened (snd s) = insert (dev_fd dev) (opened w)
    \<and> bs_context (fst s) = Some c \<and> sys_ok (c, snd s) \<and> live (ctx_blocks c) = {}
    \<and> parse_manifest (pl_files pl) (pl_yaml pl) (default_manifest_path (pl_env pl) (pl_manifest pl)) = Inr pks
    \<and> (\<forall>name. find_kernel name c
         = map_option normalize_kernel (find (\<lambda>pk. pk_name pk = name) (rev pks)))"
proof -
  from connect_success [OF assms(1,3,4)] obtain dev c0 c pks n where
    open_ok: "open_com (pl_port pl) port (sint baud) 5000 w = (Inr (Some dev), snd s)" and
    st: "bs_dev (fst s) = Some dev" "bs_context (fst s) = Some c" "sys_ok (c, snd s)" "ctx_kernels c0 = []"
      "ctx_blocks c = [\<lparr>boffset = 0, bsize = n, bfree = True\<rparr>]" and
    pks: "parse_manifest (pl_files pl) (pl_yaml pl) (default_manifest_path (pl_env pl) (pl_manifest pl)) = Inr pks"
      "register_all pks c0 = (Inr (), c)" by blast
  have reg: "\<forall>pk \<in> set pks. registrable pk" using parse_manifest_ok [OF pks(1)] by blast
  have "find_kernel name c = map_option normalize_kernel (find (\<lambda>pk. pk_name pk = name) (rev pks))" for name
    using kernels.lookup_fold [OF reg, of name c0] register_all_ok [OF reg, of c0] pks(2) st(4)
    by (simp add: find_kernel_def split: option.splits)
  moreover have "opened (snd s) = insert (dev_fd dev) (opened w)"
    using open_com_ports [OF assms(2) _ open_ok] by simp
  ultimately show ?thesis using st pks(1) by simp
qed

section \<open>Storages that outlive their session\<close>

definition session_memory :: "'w backend \<Rightarrow> (nat \<times> nat) set" where
  "session_memory s = (case bs_context (fst s) of None \<Rightarrow> {} | Some c \<Rightarrow> live (ctx_blocks c))"

lemma first_allocation:
  assumes "sys_ok (c, w)" and "ctx_blocks c = [\<lparr>boffset = 0, bsize = k, bfree = True\<rparr>]"
    and "n \<noteq> 0" "unat n < 2 ^ 63" and "allocate n (c, w) = (Inr st, s)"
  shows "st = opaque 0" and "\<exists>m. held s = {(0, m)}" and "sys_ok s"
proof -
  have empty: "held (c, w) = {}" using assms(2) by (simp add: held_def)
  obtain buf c' where buf: "device_malloc n c = (Inr buf, c')" "st = opaque (db_addr buf)"
    using assms(3,5) by (auto simp: allocate_def andThen_def on_context_def buffer_release_def split: prod.splits sum.splits)
  obtain blocks where "malloc_scan (align_up_size n (ctx_default_alignment c)) (ctx_default_alignment c) 0 (ctx_blocks c)
      = Inr (db_addr buf, blocks)"
    using device_malloc_Inr [OF buf(1) [unfolded device_malloc_def]] by blast
  from malloc_scan_found [OF this] have "align_up_addr 0 (ctx_default_alignment c) = Some (db_addr buf)"
    using assms(2) by auto
  then have "db_addr buf = 0" by (auto simp: align_up_addr_def Let_def split: if_splits)
  then show st: "st = opaque 0" using buf(2) by simp
  show "\<exists>m. held s = {(0, m)}" "sys_ok s"
    using allocate_cases [OF assms(1,4,5)] st empty by auto
qed

lemma delete_opaque:
  assumes "sys_ok s"
  shows "held (delete_minigpu_allocation (opaque a) s) = {q \<in> held s. fst q \<noteq> unat a}"
proof -
  obtain st c where free: "device_free a (fst s) = (st, c)" by force
  show ?thesis
  proof (cases "st = Ok")
    case True
    then show ?thesis
      using device_free_Ok(2) [of "fst s" a c] assms free by (simp add: delete_minigpu_allocation_def sys_ok_def held_def)
  next
    case False
    then have "c = fst s" "\<nexists>n. (unat a, n) \<in> held s"
      using device_free_NotFound [of a "fst s"] free by (simp_all add: held_def)
    then show ?thesis using free by (auto simp: delete_minigpu_allocation_def held_def)
  qed
qed

lemma first_of_session:
  assumes "env_fits pl" and "bs_context b = None" and "connect pl port baud msize (b, w) = (Inr (), s)"
    and "runtime_context (allocate n) s = (Inr st, s')" and "n \<noteq> 0" "unat n < 2 ^ 63"
  shows "st = opaque 0"
    and "\<exists>c m. bs_context (fst s') = Some c \<and> sys_ok (c, snd s') \<and> live (ctx_blocks c) = {(0, m)}"
proof -
  obtain b1 w1 where s: "s = (b1, w1)" by (metis prod.exhaust)
  from connect_success [OF assms(1-3)] s obtain c k where
    c: "bs_context b1 = Some c" "sys_ok (c, w1)" "ctx_blocks c = [\<lparr>boffset = 0, bsize = k, bfree = True\<rparr>]" by auto
  obtain c2 w2 where run: "allocate n (c, w1) = (Inr st, (c2, w2))" "s' = (b1\<lparr>bs_context := Some c2\<rparr>, w2)"
    using assms(4) s c(1) by (auto simp: runtime_context_def split: prod.splits)
  note first = first_allocation [OF c(2,3) assms(5,6) run(1)]
  then show "st = opaque 0" by simp
  show "\<exists>c m. bs_context (fst s') = Some c \<and> sys_ok (c, snd s') \<and> live (ctx_blocks c) = {(0, m)}"
    using first(2,3) run(2) by (simp add: held_def)
qed

text \<open>
  A tensor that outlives its session frees memory of the next one: after disconnecting and connecting
  again the first allocation has the same storage pointer as the first one of the old session, and
  dropping the old tensor releases the new tensor's memory, which then is not allocated any more.
\<close>

theorem stale_storage_frees_new_tensor:
  assumes "env_fits pl" and "bs_context b = None" and "connect pl port baud msize (b, w) = (Inr (), s1)"
    and "runtime_context (allocate n) s1 = (Inr old, s2)" and "n \<noteq> 0" "unat n < 2 ^ 63"
    and "connect pl port' baud' msize' (disconnect pl s2) = (Inr (), s3)"
    and "runtime_context (allocate m) s3 = (Inr new, s4)" and "m \<noteq> 0" "unat m < 2 ^ 63"
  shows "new = old \<and> (\<exists>k. session_memory s4 = {(0, k)}) \<and> session_memory (drop_storage old s4) = {}"
proof -
  obtain b3 w3 where d: "disconnect pl s2 = (b3, w3)" "bs_context b3 = None"
    by (cases s2; cases "bs_dev (fst s2)") (auto simp: disconnect_def Let_def)
  note old = first_of_session [OF assms(1-6)]
  note new = first_of_session [OF assms(1) d(2) assms(7) [unfolded d(1)] assms(8-10)]
  have same: "new = old" using old(1) new(1) by simp
  obtain c k where c: "bs_context (fst s4) = Some c" "sys_ok (c, snd s4)" "live (ctx_blocks c) = {(0, k)}"
    using new(2) by blast
  then have "\<exists>k. session_memory s4 = {(0, k)}" by (simp add: session_memory_def)
  moreover have "session_memory (drop_storage old s4) = {}"
    using delete_opaque [OF c(2), of 0] c old(1)
    by (cases s4) (auto simp: drop_storage_def session_memory_def held_def split: prod.splits)
  ultimately show ?thesis using same by simp
qed

section \<open>A concrete session\<close>

definition demo_platform :: "(int list, doc) platform" where
  "demo_platform = \<lparr>pl_port = counted_ops,
     pl_os = \<lparr>os_write = (\<lambda>_ _ w. (- 1, w)), os_read = (\<lambda>_ _ w. (Inl (), w)), os_now = (\<lambda>w. (0, w)),
              os_sleep_ms = (\<lambda>_ w. w)\<rparr>,
     pl_env = (\<lambda>_. None), pl_files = demo_files, pl_yaml = demo_yaml, pl_manifest = ''/m''\<rparr>"

lemma demo_platform_fields:
  "pl_port demo_platform = counted_ops" "pl_env demo_platform = (\<lambda>_. None)" "pl_files demo_platform = demo_files"
  "pl_yaml demo_platform = demo_yaml" "pl_manifest demo_platform = ''/m''"
  by (simp_all add: demo_platform_def)

lemma demo_platform_fits: "env_fits demo_platform" "port_laws (pl_port demo_platform) set"
  using counted_laws by (simp_all add: env_fits_def demo_platform_def)

lemma demo_os_leaves_ports: "os_leaves_ports demo_platform set"
  by (simp add: os_leaves_ports_def os_keeps_def io_keeps_def demo_platform_def)

lemma demo_open: "open_com counted_ops port baud 5000 w = (Inr (Some \<lparr>dev_fd = foldr max w 2 + 1, dev_timeout_ms = 5000\<rparr>),
    (foldr max w 2 + 1) # w)" if "set w \<subseteq> {0..}"
proof -
  have "2 \<le> foldr max w (2 :: int)" by (induction w) auto
  then show ?thesis by (simp add: open_com_def counted_ops_def Let_def)
qed

definition demo_config :: "com_dev \<Rightarrow> int list config" where
  "demo_config dev = default_config\<lparr>cfg_memory_size := 65536,
     cfg_transport := make_gpu_comm_transport (pl_os demo_platform) (Some dev) default_transport_config\<rparr>"

lemma demo_connect_config: "connect_config demo_platform dev 65536 = Inr (demo_config dev)"
  by (simp add: connect_config_def demo_platform_def demo_config_def default_config_def)

definition demo_fresh :: "'d gpu_context \<Rightarrow> bool" where
  "demo_fresh c \<longleftrightarrow> ctx_blocks c = [\<lparr>boffset = 0, bsize = 57344, bfree = True\<rparr>] \<and> ctx_default_alignment c = 4"

lemma demo_context: "\<exists>c. context_new (\<lambda>_. None) (demo_config dev) = Inr c \<and> demo_fresh c"
  by (simp add: context_new_def demo_config_def default_config_def Let_def log_event_def align_up_size_def
      kCompilerSpillBytes_def add_overflows_addr_iff env_log_path_def min_def max_def demo_fresh_def)

lemma demo_connect:
  assumes "bs_context b = None"
  shows "\<exists>c. connect demo_platform port 115200 65536 (b, []) =
       (Inr (), (b\<lparr>bs_hooks := True, bs_context := Some c, bs_dev := Some \<lparr>dev_fd = 3, dev_timeout_ms = 5000\<rparr>,
          bs_initialized := True\<rparr>, [3])) \<and> demo_fresh c"
proof -
  obtain c0 where c0: "context_new (\<lambda>_. None) (demo_config \<lparr>dev_fd = 3, dev_timeout_ms = 5000\<rparr>) = Inr c0" "demo_fresh c0"
    using demo_context by blast
  have path: "default_manifest_path (\<lambda>_. None) ''/m'' = ''/m/kernels.yaml''"
    by (simp add: default_manifest_path_def default_kernel_dir_def)
  have "registrable demo_kernel" by (simp add: registrable_def demo_kernel_def)
  then obtain c where c: "register_builtin_kernels demo_files demo_yaml (\<lambda>_. None) ''/m'' c0 = (Inr (), c)" "demo_fresh c"
    using c0(2) by (simp add: register_builtin_kernels_def register_manifest_def path demo_manifest andThen_def
        register_kernel_result demo_fresh_def)
  then show ?thesis
    using assms c0(1) demo_open [of "[]" port 115200]
    by (simp add: connect_def connect_opened_def demo_connect_config demo_platform_fields Let_def)
      (intro exI [of _ c], simp)
qed

lemma demo_allocate_live:
  "demo_fresh c \<Longrightarrow> \<exists>c'. allocate 4 (c, w) = (Inr 1, (c', w)) \<and> live (ctx_blocks c') = {(0, 4)}"
  by (simp add: allocate_def andThen_def on_context_def device_malloc_def device_malloc_aligned_def demo_fresh_def
      malloc_scan.simps align_up_size_def align_up_addr_def malloc_at_def claim_at_def insert_at_def log_event_def
      buffer_release_def opaque_def)

lemma demo_allocate: "demo_fresh c \<Longrightarrow> \<exists>c'. allocate 4 (c, w) = (Inr 1, (c', w))"
  using demo_allocate_live [of c w] by auto

lemma demo_initial: "bs_context initial_backend = None"
  by (simp add: initial_backend_def)

text \<open>A session in which a tensor of one element is created on the connected device.\<close>

lemma session_invariant_witness:
  "\<exists>s s'. connect demo_platform ''/dev/ttyUSB0'' 115200 65536 (initial_backend, []) = (Inr (), s)
     \<and> backend_step demo_platform demo_torch (\<lambda>_. None) s s' \<and> session_memory s \<noteq> session_memory s'
     \<and> backend_ok demo_platform set s' \<and> set (snd s') = {3}"
proof -
  let ?new = "empty demo_torch [1] (Some kFloat) None None None :: (int list sys, exn, at_tensor) action"
  obtain c b where s: "connect demo_platform ''/dev/ttyUSB0'' 115200 65536 (initial_backend, []) = (Inr (), (b, [3]))"
      "bs_context b = Some c" "bs_dev b = Some \<lparr>dev_fd = 3, dev_timeout_ms = 5000\<rparr>" "demo_fresh c"
    using demo_connect [OF demo_initial, of "''/dev/ttyUSB0''"] by auto
  obtain c' x where c': "?new (c, [3]) = (Inr x, (c', [3]))" "live (ctx_blocks c') = {(0, 4)}"
    using demo_allocate_live [OF s(4), of "[3]"]
    by (auto simp: empty_def generic_tensor_def requires_run demo_torch_fields andThen_def)
  let ?s' = "(b\<lparr>bs_context := Some c'\<rparr>, [3])"
  obtain k where "map_of (aten_kernels demo_torch (\<lambda>_. None)) ''empty.memory_format'' = Some k"
      "k [Ints_Arg [1], Opt_Type_Arg (Some kFloat), Opt_Layout_Arg None, Opt_Device_Arg None, Opt_Bool_Arg None, Opt_Format_Arg None]
        = Some (New ?new)"
    by (simp add: aten_kernels_def aten_storage_kernels_def takes_def call_def)
  from backend_step.aten_call [OF this, of demo_platform "(b, [3])"]
  have step: "backend_step demo_platform demo_torch (\<lambda>_. None) (b, [3]) ?s'"
    using c'(1) s(2) by (simp add: runtime_context_def)
  have "backend_step demo_platform demo_torch (\<lambda>_. None) (initial_backend, []) (b, [3])"
    using s(1) by (rule backend_step.connect)
  then have "(backend_step demo_platform demo_torch (\<lambda>_. None))\<^sup>*\<^sup>* (initial_backend, []) ?s'"
    using step by (meson r_into_rtranclp rtranclp.rtrancl_into_rtrancl)
  from session_invariant [OF demo_platform_fits demo_os_leaves_ports demo_storage_sane demo_strided_sane _ this]
  have "backend_ok demo_platform set ?s'" by simp
  moreover have "session_memory (b, [3]) \<noteq> session_memory ?s'"
    using c'(2) s(2,4) by (simp add: session_memory_def demo_fresh_def)
  ultimately show ?thesis using s(1) step by force
qed

lemma connect_ready_witness:
  "\<exists>s c. connect demo_platform ''/dev/ttyUSB0'' 115200 65536 (initial_backend, []) = (Inr (), s)
     \<and> bs_context (fst s) = Some c \<and> live (ctx_blocks c) = {}"
proof -
  obtain s where s: "connect demo_platform ''/dev/ttyUSB0'' 115200 65536 (initial_backend, []) = (Inr (), s)"
    using demo_connect [OF demo_initial, of "''/dev/ttyUSB0''"] by auto
  from connect_ready [OF demo_platform_fits demo_initial s] s show ?thesis by blast
qed

lemma bad_environment_leaks_port_witness:
  "connect (demo_platform\<lparr>pl_env := (\<lambda>_. Some ''many'')\<rparr>) ''/dev/ttyUSB0'' 115200 65536 (initial_backend, [])
     = (Inl (Runtime_error ''stoul: no conversion''), (initial_backend, [3]))"
  by (rule bad_environment_leaks_port [THEN conjunct1, of _ set _ "''many''" _ _ _ _ "\<lparr>dev_fd = 3, dev_timeout_ms = 5000\<rparr>"])
    (use demo_platform_fits(2) demo_open [of "[]" "''/dev/ttyUSB0''" 115200] in
      \<open>simp_all add: initial_backend_def stoul10_def strip_sign_def is_space_def is_digit_def digit_value_def
        demo_platform_fields Let_def\<close>)

lemma failed_registration_stays_connected_witness:
  "\<exists>s. connect (demo_platform\<lparr>pl_manifest := ''/none''\<rparr>) ''/dev/ttyUSB0'' 115200 65536 (initial_backend, [])
       = (Inl (error NotFound), s) \<and> is_available (fst s) \<and> set (snd s) = {}"
proof -
  let ?pl = "demo_platform\<lparr>pl_manifest := ''/none''\<rparr>"
  obtain c where c: "context_new (\<lambda>_. None) (demo_config \<lparr>dev_fd = 3, dev_timeout_ms = 5000\<rparr>) = Inr c" using demo_context by blast
  have "parse_manifest demo_files demo_yaml ''/none/kernels.yaml'' = Inl (error NotFound)"
    by (simp add: parse_manifest_def demo_yaml_def doc_yaml_def)
  moreover have "connect_config ?pl dev 65536 = Inr (demo_config dev)" for dev
    using demo_connect_config [of dev] by (simp add: connect_config_def)
  moreover have "default_manifest_path (\<lambda>_. None) ''/none'' = ''/none/kernels.yaml''"
    by (simp add: default_manifest_path_def default_kernel_dir_def)
  ultimately have "\<exists>s. connect ?pl ''/dev/ttyUSB0'' 115200 65536 (initial_backend, []) = (Inl (error NotFound), s)
      \<and> is_available (fst s) \<and> set (snd s) = set [] \<and> connect ?pl [] 0 0 s = (Inr (), s)"
    using demo_platform_fits(2) c demo_open [of "[]" "''/dev/ttyUSB0''" 115200]
    by (intro failed_registration_stays_connected [where c = c])
      (simp_all add: demo_platform_fields, simp add: initial_backend_def)
  then show ?thesis by auto
qed


lemma stale_storage_frees_new_tensor_witness:
  "\<exists>s1 s2 s3 s4. connect demo_platform ''a'' 115200 65536 (initial_backend, []) = (Inr (), s1)
     \<and> runtime_context (allocate 4) s1 = (Inr 1, s2)
     \<and> connect demo_platform ''a'' 115200 65536 (disconnect demo_platform s2) = (Inr (), s3)
     \<and> runtime_context (allocate 4) s3 = (Inr 1, s4) \<and> session_memory (drop_storage 1 s4) = {}"
proof -
  have run: "\<exists>s s'. connect demo_platform ''a'' 115200 65536 (b, []) = (Inr (), s) \<and> runtime_context (allocate 4) s = (Inr 1, s')
      \<and> (\<exists>b'. disconnect demo_platform s' = (b', []) \<and> bs_context b' = None)" if off: "bs_context b = None" for b
  proof -
    obtain c where c: "connect demo_platform ''a'' 115200 65536 (b, []) =
         (Inr (), (b\<lparr>bs_hooks := True, bs_context := Some c, bs_dev := Some \<lparr>dev_fd = 3, dev_timeout_ms = 5000\<rparr>,
            bs_initialized := True\<rparr>, [3]))" "demo_fresh c"
      using demo_connect [OF off, of "''a''"] by blast
    obtain c' where c': "allocate 4 (c, [3]) = (Inr 1, (c', [3]))" using demo_allocate [OF c(2)] by blast
    show ?thesis
      using c c' by (simp add: runtime_context_def disconnect_def close_com_def demo_platform_fields counted_ops_def)
  qed
  obtain s1 s2 b where first: "connect demo_platform ''a'' 115200 65536 (initial_backend, []) = (Inr (), s1)"
      "runtime_context (allocate 4) s1 = (Inr 1, s2)" "disconnect demo_platform s2 = (b, [])" "bs_context b = None"
    using run [OF demo_initial] by blast
  obtain s3 s4 where second: "connect demo_platform ''a'' 115200 65536 (disconnect demo_platform s2) = (Inr (), s3)"
      "runtime_context (allocate 4) s3 = (Inr 1, s4)"
    using run [OF first(4)] first(3) by auto
  have "session_memory (drop_storage 1 s4) = {}"
    by (rule stale_storage_frees_new_tensor [THEN conjunct2, THEN conjunct2, OF demo_platform_fits(1) demo_initial first(1,2) _ _ second]) simp_all
  then show ?thesis using first(1,2) second by blast
qed

end
