(* ===== verification/SerialReceiver.thy ===== *)
theory SerialReceiver
  imports ComLink Launch
begin

text \<open>
  The packet receiver of the device (\<open>hardware/rtl/common/serial_packet_rx.v\<close>, the packet state machine),
  clock by clock, and how it agrees with the packet functions of \<open>com.c\<close>. The bit-level receiver in front
  of it is a parameter: at every clock it delivers a byte or none.
\<close>

section \<open>The state machine\<close>

datatype rx_phase = IDLE | GET_CMD | GET_ADDR_HI | GET_ADDR_LO | GET_LEN_HI | GET_LEN_LO | GET_PAYLOAD | GET_CRC
  | WAIT_WRITE | SEND_ACK | SEND_NACK

text \<open>The registers; the last four are strobes, high for one clock.\<close>

record rx_state =
  rx_phase :: rx_phase
  rx_cmd :: u8
  rx_addr :: u16
  rx_len :: u16
  rx_payload_count :: u16
  rx_crc :: u8
  rx_word_data :: u32
  rx_byte_index :: "2 word"
  rx_word_valid :: bool
  rx_packet_done :: bool
  rx_send_ack :: bool
  rx_send_nack :: bool

definition rx_reset :: rx_state where
  "rx_reset = \<lparr>rx_phase = IDLE, rx_cmd = 0, rx_addr = 0, rx_len = 0, rx_payload_count = 0, rx_crc = 0,
     rx_word_data = 0, rx_byte_index = 0, rx_word_valid = False, rx_packet_done = False, rx_send_ack = False,
     rx_send_nack = False\<rparr>"

definition strobes_low :: "rx_state \<Rightarrow> rx_state" where
  "strobes_low st = st\<lparr>rx_word_valid := False, rx_packet_done := False, rx_send_ack := False, rx_send_nack := False\<rparr>"

text \<open>A byte in one of the phases that wait for one.\<close>

definition rx_byte :: "u8 \<Rightarrow> rx_state \<Rightarrow> rx_state" where
  "rx_byte b st =
     (let low = strobes_low st; crc' = rx_crc st XOR b
      in case rx_phase st of
        IDLE \<Rightarrow> if b = 0xAA then low\<lparr>rx_phase := GET_CMD, rx_crc := 0\<rparr> else low
      | GET_CMD \<Rightarrow> low\<lparr>rx_cmd := b, rx_crc := b, rx_phase := GET_ADDR_HI\<rparr>
      | GET_ADDR_HI \<Rightarrow>
          low\<lparr>rx_addr := join_bytes b (lo_byte (rx_addr st)), rx_crc := crc', rx_phase := GET_ADDR_LO\<rparr>
      | GET_ADDR_LO \<Rightarrow>
          low\<lparr>rx_addr := join_bytes (hi_byte (rx_addr st)) b, rx_crc := crc', rx_phase := GET_LEN_HI\<rparr>
      | GET_LEN_HI \<Rightarrow>
          low\<lparr>rx_len := join_bytes b (lo_byte (rx_len st)), rx_crc := crc', rx_phase := GET_LEN_LO\<rparr>
      | GET_LEN_LO \<Rightarrow>
          low\<lparr>rx_len := join_bytes (hi_byte (rx_len st)) b, rx_crc := crc', rx_payload_count := 0,
             rx_byte_index := 0, rx_word_data := 0,
             rx_phase := (if join_bytes (hi_byte (rx_len st)) b = 0 then GET_CRC else GET_PAYLOAD)\<rparr>
      | GET_PAYLOAD \<Rightarrow>
          let last = (unat (rx_payload_count st) + 1 \<ge> unat (rx_len st))
          in low\<lparr>rx_crc := crc', rx_word_data := push_bit 24 (ucast b) OR drop_bit 8 (rx_word_data st),
               rx_word_valid := (rx_byte_index st = 3 \<or> last),
               rx_byte_index := (if rx_byte_index st = 3 then 0 else rx_byte_index st + 1),
               rx_payload_count := rx_payload_count st + 1,
               rx_phase := (if last then GET_CRC else GET_PAYLOAD)\<rparr>
      | GET_CRC \<Rightarrow>
          if rx_crc st = b then low\<lparr>rx_phase := WAIT_WRITE, rx_packet_done := True\<rparr>
          else low\<lparr>rx_phase := SEND_NACK\<rparr>
      | _ \<Rightarrow> low)"

text \<open>One clock: the byte that arrived, if any, and the answers of the memory system.\<close>

definition rx_clock :: "u8 option \<Rightarrow> bool \<Rightarrow> bool \<Rightarrow> rx_state \<Rightarrow> rx_state" where
  "rx_clock byte write_done write_fail st =
     (case rx_phase st of
        WAIT_WRITE \<Rightarrow> (if write_done then (strobes_low st)\<lparr>rx_phase := SEND_ACK\<rparr>
                       else if write_fail then (strobes_low st)\<lparr>rx_phase := SEND_NACK\<rparr> else strobes_low st)
      | SEND_ACK \<Rightarrow> (strobes_low st)\<lparr>rx_send_ack := True, rx_phase := IDLE\<rparr>
      | SEND_NACK \<Rightarrow> (strobes_low st)\<lparr>rx_send_nack := True, rx_phase := IDLE\<rparr>
      | _ \<Rightarrow> (case byte of None \<Rightarrow> strobes_low st | Some b \<Rightarrow> rx_byte b st))"

text \<open>A run over what the clocks bring; the words that were valid on the way are collected.\<close>

fun rx_run :: "(u8 option \<times> bool \<times> bool) list \<Rightarrow> rx_state \<Rightarrow> rx_state \<times> u32 list" where
  "rx_run [] st = (st, [])"
| "rx_run ((byte, done, fail) # clocks) st =
     (let st1 = rx_clock byte done fail st; (st2, ws) = rx_run clocks st1
      in (st2, (if rx_word_valid st1 then rx_word_data st1 # ws else ws)))"

text \<open>The bytes that arrive in a run, and clocks on which the memory system is silent.\<close>

definition arriving :: "(u8 option \<times> bool \<times> bool) list \<Rightarrow> bytes" where
  "arriving clocks = concat (map (\<lambda>(byte, done, fail). case byte of None \<Rightarrow> [] | Some b \<Rightarrow> [b]) clocks)"

section \<open>Runs over bytes\<close>

text \<open>A phase that waits for a byte.\<close>

definition waiting :: "rx_state \<Rightarrow> bool" where
  "waiting st \<longleftrightarrow> rx_phase st \<notin> {WAIT_WRITE, SEND_ACK, SEND_NACK}"

text \<open>The run over bytes alone, one per clock.\<close>

fun rx_bytes :: "bytes \<Rightarrow> rx_state \<Rightarrow> rx_state \<times> u32 list" where
  "rx_bytes [] st = (st, [])"
| "rx_bytes (b # bs) st =
     (let st1 = rx_byte b st; (st2, ws) = rx_bytes bs st1
      in (st2, (if rx_word_valid st1 then rx_word_data st1 # ws else ws)))"

lemma rx_clock_waiting: "waiting st \<Longrightarrow> rx_clock byte d f st = (case byte of None \<Rightarrow> strobes_low st | Some b \<Rightarrow> rx_byte b st)"
  by (cases "rx_phase st") (auto simp: rx_clock_def waiting_def)

lemma strobes_low_fields [simp]:
  "rx_phase (strobes_low st) = rx_phase st" "rx_word_valid (strobes_low st) = False" "waiting (strobes_low st) = waiting st"
  "strobes_low (strobes_low st) = strobes_low st"
  by (simp_all add: strobes_low_def waiting_def)

lemma rx_byte_low [simp]: "rx_byte b (strobes_low st) = rx_byte b st"
  by (cases st) (simp add: rx_byte_def strobes_low_def Let_def split: rx_phase.splits)

lemma rx_bytes_Cons:
  "fst (rx_bytes (b # bs) st) = fst (rx_bytes bs (rx_byte b st))"
  "snd (rx_bytes (b # bs) st) = (if rx_word_valid (rx_byte b st) then [rx_word_data (rx_byte b st)] else [])
     @ snd (rx_bytes bs (rx_byte b st))"
  by (simp_all add: Let_def case_prod_beta)

lemma rx_run_Cons:
  "fst (rx_run ((byte, d, f) # cs) st) = fst (rx_run cs (rx_clock byte d f st))"
  "snd (rx_run ((byte, d, f) # cs) st) = (if rx_word_valid (rx_clock byte d f st) then [rx_word_data (rx_clock byte d f st)] else [])
     @ snd (rx_run cs (rx_clock byte d f st))"
  by (simp_all add: Let_def case_prod_beta)

declare rx_bytes.simps(2) [simp del] rx_run.simps(2) [simp del]
declare rx_bytes_Cons [simp] rx_run_Cons [simp]

lemma rx_bytes_append:
  "fst (rx_bytes (xs @ ys) st) = fst (rx_bytes ys (fst (rx_bytes xs st)))"
  "snd (rx_bytes (xs @ ys) st) = snd (rx_bytes xs st) @ snd (rx_bytes ys (fst (rx_bytes xs st)))"
  by (induction xs arbitrary: st) simp_all

lemma rx_run_append:
  "fst (rx_run (xs @ ys) st) = fst (rx_run ys (fst (rx_run xs st)))"
  "snd (rx_run (xs @ ys) st) = snd (rx_run xs st) @ snd (rx_run ys (fst (rx_run xs st)))"
  by (induction xs arbitrary: st) auto

text \<open>Bytes with gaps between them; what the memory system says in a gap is ignored.\<close>

type_synonym spaced_byte = "(bool \<times> bool) list \<times> u8 \<times> bool \<times> bool"

definition byte_of :: "spaced_byte \<Rightarrow> u8" where
  "byte_of g = fst (snd g)"

definition clocks_of :: "spaced_byte \<Rightarrow> (u8 option \<times> bool \<times> bool) list" where
  "clocks_of g = (case g of (gap, b, d, f) \<Rightarrow> map (\<lambda>(d, f). (None, d, f)) gap @ [(Some b, d, f)])"

lemma rx_run_gap:
  assumes "waiting st"
  shows "fst (rx_run (map (\<lambda>(d, f). (None, d, f)) gap) st) = (if gap = [] then st else strobes_low st)"
    and "snd (rx_run (map (\<lambda>(d, f). (None, d, f)) gap) st) = []"
  using assms by (induction gap arbitrary: st) (auto simp: rx_clock_waiting)

lemma rx_run_clocks_of:
  assumes "waiting st"
  shows "fst (rx_run (clocks_of g) st) = rx_byte (byte_of g) st"
    and "snd (rx_run (clocks_of g) st) =
      (if rx_word_valid (rx_byte (byte_of g) st) then [rx_word_data (rx_byte (byte_of g) st)] else [])"
  using assms rx_run_gap [OF assms]
  by (cases g; auto simp: clocks_of_def byte_of_def rx_run_append rx_clock_waiting)+

lemma rx_run_spaced:
  assumes "\<And>k. k < length gaps \<Longrightarrow> waiting (fst (rx_bytes (take k (map byte_of gaps)) st))"
  shows "rx_run (concat (map clocks_of gaps)) st = rx_bytes (map byte_of gaps) st"
  using assms
proof (induction gaps arbitrary: st)
  case (Cons g gaps)
  have "waiting st" using Cons.prems [of 0] by simp
  moreover have "rx_run (concat (map clocks_of gaps)) (rx_byte (byte_of g) st) = rx_bytes (map byte_of gaps) (rx_byte (byte_of g) st)"
  proof (rule Cons.IH)
    fix k assume "k < length gaps"
    then show "waiting (fst (rx_bytes (take k (map byte_of gaps)) (rx_byte (byte_of g) st)))"
      using Cons.prems [of "Suc k"] by simp
  qed
  ultimately show ?case
    by (intro prod_eqI) (simp_all add: rx_run_append rx_run_clocks_of)
qed simp

section \<open>Receiving a packet\<close>

lemma rx_byte_header:
  "rx_phase st = IDLE \<Longrightarrow> rx_phase (rx_byte 0xAA st) = GET_CMD"
  "rx_phase st = GET_CMD \<Longrightarrow> rx_phase (rx_byte b st) = GET_ADDR_HI \<and> rx_cmd (rx_byte b st) = b \<and> rx_crc (rx_byte b st) = b"
  "rx_phase st = GET_ADDR_HI \<Longrightarrow> rx_phase (rx_byte b st) = GET_ADDR_LO \<and> hi_byte (rx_addr (rx_byte b st)) = b"
  "rx_phase st = GET_ADDR_LO \<Longrightarrow> rx_phase (rx_byte b st) = GET_LEN_HI \<and> rx_addr (rx_byte b st) = join_bytes (hi_byte (rx_addr st)) b"
  "rx_phase st = GET_LEN_HI \<Longrightarrow> rx_phase (rx_byte b st) = GET_LEN_LO \<and> hi_byte (rx_len (rx_byte b st)) = b"
  "rx_phase st = GET_LEN_LO \<Longrightarrow> rx_len (rx_byte b st) = join_bytes (hi_byte (rx_len st)) b
     \<and> rx_phase (rx_byte b st) = (if join_bytes (hi_byte (rx_len st)) b = 0 then GET_CRC else GET_PAYLOAD)
     \<and> rx_payload_count (rx_byte b st) = 0 \<and> rx_byte_index (rx_byte b st) = 0"
  by (simp_all add: rx_byte_def strobes_low_def Let_def)

lemma rx_byte_header_kept:
  "rx_phase st \<in> {GET_ADDR_HI, GET_ADDR_LO, GET_LEN_HI, GET_LEN_LO} \<Longrightarrow>
     rx_crc (rx_byte b st) = rx_crc st XOR b \<and> rx_cmd (rx_byte b st) = rx_cmd st"
  "rx_phase st \<in> {GET_LEN_HI, GET_LEN_LO} \<Longrightarrow> rx_addr (rx_byte b st) = rx_addr st"
  "rx_phase st \<notin> {GET_PAYLOAD} \<Longrightarrow> \<not> rx_word_valid (rx_byte b st)"
  by (auto simp: rx_byte_def strobes_low_def Let_def split: rx_phase.splits)

lemma rx_header:
  fixes cmd h1 l1 h2 l2 :: u8 and st :: rx_state
  assumes "rx_phase st = IDLE"
  defines "st' \<equiv> fst (rx_bytes [0xAA, cmd, h1, l1, h2, l2] st)"
  shows "rx_phase st' = (if join_bytes h2 l2 = 0 then GET_CRC else GET_PAYLOAD)"
    and "rx_cmd st' = cmd" "rx_addr st' = join_bytes h1 l1" "rx_len st' = join_bytes h2 l2"
    and "rx_crc st' = crc_loop 0 [cmd, h1, l1, h2, l2]" "rx_payload_count st' = 0" "rx_byte_index st' = 0"
    and "snd (rx_bytes [0xAA, cmd, h1, l1, h2, l2] st) = []"
    and "k \<le> 6 \<Longrightarrow> waiting (fst (rx_bytes (take k [0xAA, cmd, h1, l1, h2, l2]) st))"
proof -
  define s1 where "s1 = rx_byte 0xAA st"
  define s2 where "s2 = rx_byte cmd s1"
  define s3 where "s3 = rx_byte h1 s2"
  define s4 where "s4 = rx_byte l1 s3"
  define s5 where "s5 = rx_byte h2 s4"
  define s6 where "s6 = rx_byte l2 s5"
  note fold = s1_def [symmetric] s2_def [symmetric] s3_def [symmetric] s4_def [symmetric] s5_def [symmetric] s6_def [symmetric]
  have s1: "rx_phase s1 = GET_CMD" using rx_byte_header(1) [OF assms(1)] by (simp add: s1_def)
  have s2: "rx_phase s2 = GET_ADDR_HI" "rx_cmd s2 = cmd" "rx_crc s2 = cmd" using rx_byte_header(2) [OF s1] by (simp_all add: s2_def)
  have s3: "rx_phase s3 = GET_ADDR_LO" "hi_byte (rx_addr s3) = h1" "rx_crc s3 = cmd XOR h1" "rx_cmd s3 = cmd"
    using rx_byte_header(3) [OF s2(1)] rx_byte_header_kept(1) [of s2] s2 by (simp_all add: s3_def)
  have s4: "rx_phase s4 = GET_LEN_HI" "rx_addr s4 = join_bytes h1 l1" "rx_crc s4 = (cmd XOR h1) XOR l1" "rx_cmd s4 = cmd"
    using rx_byte_header(4) [OF s3(1)] rx_byte_header_kept(1) [of s3] s3 by (simp_all add: s4_def)
  have s5: "rx_phase s5 = GET_LEN_LO" "hi_byte (rx_len s5) = h2" "rx_crc s5 = ((cmd XOR h1) XOR l1) XOR h2" "rx_cmd s5 = cmd"
    "rx_addr s5 = join_bytes h1 l1"
    using rx_byte_header(5) [OF s4(1)] rx_byte_header_kept(1,2) [of s4] s4 by (simp_all add: s5_def)
  have s6: "rx_phase s6 = (if join_bytes h2 l2 = 0 then GET_CRC else GET_PAYLOAD)" "rx_len s6 = join_bytes h2 l2"
    "rx_crc s6 = (((cmd XOR h1) XOR l1) XOR h2) XOR l2" "rx_cmd s6 = cmd" "rx_addr s6 = join_bytes h1 l1"
    "rx_payload_count s6 = 0" "rx_byte_index s6 = 0"
    using rx_byte_header(6) [OF s5(1)] rx_byte_header_kept(1,2) [of s5] s5 by (simp_all add: s6_def)
  have st': "st' = s6" by (simp add: st'_def fold)
  show "rx_phase st' = (if join_bytes h2 l2 = 0 then GET_CRC else GET_PAYLOAD)" "rx_cmd st' = cmd" "rx_addr st' = join_bytes h1 l1"
    "rx_len st' = join_bytes h2 l2" "rx_crc st' = crc_loop 0 [cmd, h1, l1, h2, l2]" "rx_payload_count st' = 0" "rx_byte_index st' = 0"
    using s6 by (simp_all add: st')
  show "snd (rx_bytes [0xAA, cmd, h1, l1, h2, l2] st) = []"
    using s1 s2(1) s3(1) s4(1) s5(1) assms(1) rx_byte_header_kept(3) by (simp add: fold) (simp add: s1_def s2_def s3_def s4_def s5_def s6_def)
  assume "k \<le> 6"
  then have "k \<in> {0, 1, 2, 3, 4, 5, 6}" by auto
  then show "waiting (fst (rx_bytes (take k [0xAA, cmd, h1, l1, h2, l2]) st))"
    using assms(1) s1 s2(1) s3(1) s4(1) s5(1) s6(1) by (auto simp: fold waiting_def split: if_splits)
qed

text \<open>A byte of the payload, and the payload: the phase, the count and the checksum after any number of its bytes.\<close>

lemma unat_u16_lt: "unat (w :: u16) < 2 ^ 16"
  using unsigned_less [of w] by simp

lemma rx_byte_payload:
  fixes b :: u8 and st :: rx_state
  assumes "rx_phase st = GET_PAYLOAD" and "unat (rx_payload_count st) < unat (rx_len st)"
  defines "st' \<equiv> rx_byte b st"
  shows "rx_phase st' = (if unat (rx_payload_count st) + 1 = unat (rx_len st) then GET_CRC else GET_PAYLOAD)"
    and "unat (rx_payload_count st') = unat (rx_payload_count st) + 1" and "rx_crc st' = rx_crc st XOR b"
    and "rx_len st' = rx_len st" "rx_cmd st' = rx_cmd st" "rx_addr st' = rx_addr st"
proof -
  have "unat (rx_payload_count st) + 1 < 2 ^ 16" using assms(2) unat_u16_lt [of "rx_len st"] by simp
  then have "unat (rx_payload_count st + 1) = unat (rx_payload_count st) + 1" by (subst unat_add_small) simp_all
  then show "rx_phase st' = (if unat (rx_payload_count st) + 1 = unat (rx_len st) then GET_CRC else GET_PAYLOAD)"
    "unat (rx_payload_count st') = unat (rx_payload_count st) + 1" "rx_crc st' = rx_crc st XOR b"
    "rx_len st' = rx_len st" "rx_cmd st' = rx_cmd st" "rx_addr st' = rx_addr st"
    using assms(1,2) by (simp_all add: st'_def rx_byte_def strobes_low_def Let_def)
qed

lemma rx_payload:
  assumes "rx_phase st = GET_PAYLOAD" and "unat (rx_payload_count st) + length bs \<le> unat (rx_len st)"
    and "unat (rx_payload_count st) < unat (rx_len st)"
  shows "rx_phase (fst (rx_bytes bs st)) = (if unat (rx_payload_count st) + length bs = unat (rx_len st) then GET_CRC else GET_PAYLOAD)
    \<and> unat (rx_payload_count (fst (rx_bytes bs st))) = unat (rx_payload_count st) + length bs
    \<and> rx_len (fst (rx_bytes bs st)) = rx_len st \<and> rx_cmd (fst (rx_bytes bs st)) = rx_cmd st
    \<and> rx_addr (fst (rx_bytes bs st)) = rx_addr st \<and> rx_crc (fst (rx_bytes bs st)) = crc_loop (rx_crc st) bs"
  using assms
proof (induction bs arbitrary: st)
  case (Cons b bs)
  note byte = rx_byte_payload [OF Cons.prems(1,3), of b]
  show ?case
  proof (cases "bs = []")
    case False
    then have "0 < length bs" by simp
    then have more: "unat (rx_payload_count st) + 1 < unat (rx_len st)" using Cons.prems(2) unfolding length_Cons by linarith
    then have "rx_phase (rx_byte b st) = GET_PAYLOAD" using byte(1) by simp
    from Cons.IH [OF this] show ?thesis using byte more Cons.prems(2) by simp
  qed (use byte in simp)
qed simp

lemma rx_byte_crc:
  assumes "rx_phase st = GET_CRC"
  shows "rx_phase (rx_byte b st) = (if rx_crc st = b then WAIT_WRITE else SEND_NACK)"
    and "rx_packet_done (rx_byte b st) = (rx_crc st = b)" and "\<not> rx_word_valid (rx_byte b st)"
    and "rx_len (rx_byte b st) = rx_len st" "rx_cmd (rx_byte b st) = rx_cmd st" "rx_addr (rx_byte b st) = rx_addr st"
  using assms by (simp_all add: rx_byte_def strobes_low_def Let_def)

text \<open>A packet whose header, payload and checksum byte have arrived.\<close>

lemma rx_whole_packet:
  fixes cmd h1 l1 h2 l2 crc :: u8 and payload :: bytes
  assumes "rx_phase st = IDLE" and "length payload = unat (join_bytes h2 l2)"
  defines "pkt \<equiv> [0xAA, cmd, h1, l1, h2, l2] @ payload @ [crc]"
  defines "st' \<equiv> fst (rx_bytes pkt st)"
  shows "rx_phase st' = (if crc = crc_loop 0 ([cmd, h1, l1, h2, l2] @ payload) then WAIT_WRITE else SEND_NACK)"
    and "rx_packet_done st' = (crc = crc_loop 0 ([cmd, h1, l1, h2, l2] @ payload))"
    and "rx_cmd st' = cmd" "rx_addr st' = join_bytes h1 l1" "rx_len st' = join_bytes h2 l2"
    and "k < length pkt \<Longrightarrow> waiting (fst (rx_bytes (take k pkt) st))"
proof -
  let ?head = "[0xAA, cmd, h1, l1, h2, l2]" and ?len = "join_bytes h2 l2"
  define sh where "sh = fst (rx_bytes ?head st)"
  note head = rx_header [OF assms(1), where cmd = cmd and ?h1.0 = h1 and ?l1.0 = l1 and ?h2.0 = h2 and ?l2.0 = l2, folded sh_def]
  define sp where "sp = fst (rx_bytes payload sh)"
  have payload_prefix: "rx_phase (fst (rx_bytes (take k payload) sh)) = (if k = length payload then GET_CRC else GET_PAYLOAD)
      \<and> rx_len (fst (rx_bytes (take k payload) sh)) = ?len \<and> rx_cmd (fst (rx_bytes (take k payload) sh)) = cmd
      \<and> rx_addr (fst (rx_bytes (take k payload) sh)) = join_bytes h1 l1
      \<and> rx_crc (fst (rx_bytes (take k payload) sh)) = crc_loop (crc_loop 0 [cmd, h1, l1, h2, l2]) (take k payload)"
    if "k \<le> length payload" for k
  proof (cases "payload = []")
    case True
    then have "?len = 0" using assms(2) by (simp add: unat_eq_zero)
    then show ?thesis using head(1-5) True that by simp
  next
    case False
    then have "0 < unat ?len" using assms(2) by (metis length_greater_0_conv)
    then have "?len \<noteq> 0" by auto
    then show ?thesis
      using rx_payload [of sh "take k payload"] head(1-6) that assms(2) \<open>0 < unat ?len\<close> by auto
  qed
  have sp: "rx_phase sp = GET_CRC" "rx_len sp = ?len" "rx_cmd sp = cmd" "rx_addr sp = join_bytes h1 l1"
    "rx_crc sp = crc_loop 0 ([cmd, h1, l1, h2, l2] @ payload)"
    using payload_prefix [of "length payload"] by (simp_all add: sp_def crc_loop_append)
  have st': "st' = rx_byte crc sp"
    unfolding st'_def pkt_def rx_bytes_append sh_def [symmetric] sp_def [symmetric] by simp
  show "rx_phase st' = (if crc = crc_loop 0 ([cmd, h1, l1, h2, l2] @ payload) then WAIT_WRITE else SEND_NACK)"
    "rx_packet_done st' = (crc = crc_loop 0 ([cmd, h1, l1, h2, l2] @ payload))"
    "rx_cmd st' = cmd" "rx_addr st' = join_bytes h1 l1" "rx_len st' = ?len"
    using rx_byte_crc [OF sp(1), of crc] sp(2-5) by (auto simp: st')
  assume k: "k < length pkt"
  show "waiting (fst (rx_bytes (take k pkt) st))"
  proof (cases "k \<le> 6")
    case True
    then have "take k pkt = take k ?head" by (simp only: pkt_def take_append) simp
    then show ?thesis using head(9) [OF True] by simp
  next
    case False
    moreover from this have "take k ?head = ?head" by (intro take_all) simp
    moreover have "k - length ?head \<le> length payload" using k by (simp add: pkt_def)
    ultimately have "take k pkt = ?head @ take (k - 6) payload" by (simp only: pkt_def take_append) (simp add: numeral_eq_Suc)
    then have "fst (rx_bytes (take k pkt) st) = fst (rx_bytes (take (k - 6) payload) sh)"
      by (simp only: rx_bytes_append sh_def)
    then show ?thesis using payload_prefix [of "k - 6"] k False by (simp add: pkt_def waiting_def)
  qed
qed

section \<open>The receiver and the parser\<close>

lemma packet_buffer_shape:
  assumes "length buf = 7 + unat (join_bytes (buf ! 4) (buf ! 5))"
  obtains payload where "buf = [buf ! 0, buf ! 1, buf ! 2, buf ! 3, buf ! 4, buf ! 5] @ payload @ [last buf]"
    and "length payload = unat (join_bytes (buf ! 4) (buf ! 5))"
proof
  let ?payload = "butlast (drop 6 buf)"
  have nonempty: "drop 6 buf \<noteq> []" using assms by simp
  have head: "take 6 buf = [buf ! 0, buf ! 1, buf ! 2, buf ! 3, buf ! 4, buf ! 5]"
    using assms by (intro nth_equalityI) (auto simp: less_Suc_eq nth_Cons' numeral_eq_Suc)
  have "drop 6 buf = ?payload @ [last buf]"
    using nonempty append_butlast_last_id [of "drop 6 buf"] by (simp add: last_drop)
  then show "buf = [buf ! 0, buf ! 1, buf ! 2, buf ! 3, buf ! 4, buf ! 5] @ ?payload @ [last buf]"
    using append_take_drop_id [of 6 buf] head by metis
  show "length ?payload = unat (join_bytes (buf ! 4) (buf ! 5))" using assms by simp
qed

lemma parse_exact_buffer:
  fixes payload :: bytes
  assumes "length payload = unat (join_bytes h2 l2)" and "length payload \<le> 255"
  shows "com_parse_packet ([COM_SOF, cmd, h1, l1, h2, l2] @ payload @ [crc]) =
    Some (if crc = crc_loop 0 ([cmd, h1, l1, h2, l2] @ payload)
          then Inr \<lparr>cp_cmd = cmd, cp_addr = join_bytes h1 l1, cp_len = join_bytes h2 l2, cp_payload = payload\<rparr>
          else Inl ERR_CRC)"
proof -
  let ?buf = "[COM_SOF, cmd, h1, l1, h2, l2] @ payload @ [crc]"
  have last: "?buf ! (6 + length payload) = crc" by (simp add: nth_append)
  have "take (5 + length payload) ([cmd, h1, l1, h2, l2] @ payload @ [crc]) = [cmd, h1, l1, h2, l2] @ payload"
    by (subst append_assoc [symmetric]) (simp only: take_append, simp)
  then have "com_crc_xor ?buf 1 (6 + length payload) = crc_loop 0 ([cmd, h1, l1, h2, l2] @ payload)"
    by (simp add: com_crc_xor_def)
  then show ?thesis
    using last assms by (simp add: com_parse_packet_def com_constants Let_def)
qed

text \<open>
  C20: the receiver of the device and the parser of the host accept the same packets. However the bytes of a
  complete packet of at most 255 payload bytes are spaced in time, and whatever the memory system reports
  meanwhile, an idle receiver ends in the state that waits for the write, with the command, address and length
  that the parser delivers, when the parser accepts the packet, and otherwise, which is on a wrong checksum only,
  in the state that answers with a NAK.
\<close>

theorem receiver_agrees_with_parser:
  fixes gaps :: "spaced_byte list" and st :: rx_state
  defines "buf \<equiv> map byte_of gaps"
  defines "st' \<equiv> fst (rx_run (concat (map clocks_of gaps)) st)"
  assumes "rx_phase st = IDLE" and "buf ! 0 = COM_SOF"
    and "length buf = 7 + unat (join_bytes (buf ! 4) (buf ! 5))" and "unat (join_bytes (buf ! 4) (buf ! 5)) \<le> 255"
  shows "case com_parse_packet buf of
      Some (Inr p) \<Rightarrow> rx_phase st' = WAIT_WRITE \<and> rx_packet_done st' \<and> rx_cmd st' = cp_cmd p
        \<and> rx_addr st' = cp_addr p \<and> rx_len st' = cp_len p
    | Some (Inl e) \<Rightarrow> e = ERR_CRC \<and> rx_phase st' = SEND_NACK \<and> \<not> rx_packet_done st'
    | None \<Rightarrow> False"
proof -
  obtain payload where shape: "buf = [buf ! 0, buf ! 1, buf ! 2, buf ! 3, buf ! 4, buf ! 5] @ payload @ [last buf]"
    and len: "length payload = unat (join_bytes (buf ! 4) (buf ! 5))"
    using packet_buffer_shape [OF assms(5)] by blast
  define pkt where "pkt = [0xAA, buf ! 1, buf ! 2, buf ! 3, buf ! 4, buf ! 5] @ payload @ [last buf]"
  have buf: "buf = pkt" using shape assms(4) by (simp add: COM_SOF_def pkt_def)
  note whole = rx_whole_packet [OF assms(3) len, where cmd = "buf ! 1" and ?h1.0 = "buf ! 2" and ?l1.0 = "buf ! 3"
      and crc = "last buf", folded pkt_def]
  have buf_length: "length gaps = length pkt" using buf by (simp add: buf_def) (metis length_map)
  have "st' = fst (rx_bytes buf st)"
    unfolding st'_def buf_def by (subst rx_run_spaced) (use whole(6) buf_length buf in \<open>auto simp: buf_def [symmetric]\<close>)
  moreover have "com_parse_packet pkt = Some (if last buf = crc_loop 0 ([buf ! 1, buf ! 2, buf ! 3, buf ! 4, buf ! 5] @ payload)
      then Inr \<lparr>cp_cmd = buf ! 1, cp_addr = join_bytes (buf ! 2) (buf ! 3), cp_len = join_bytes (buf ! 4) (buf ! 5), cp_payload = payload\<rparr>
      else Inl ERR_CRC)"
    using parse_exact_buffer [OF len] len assms(6) by (simp only: pkt_def COM_SOF_def)
  ultimately show ?thesis
    using whole(1-5) unfolding buf [symmetric]
    by (cases "last buf = crc_loop 0 ([buf ! 1, buf ! 2, buf ! 3, buf ! 4, buf ! 5] @ payload)") (simp_all only: if_True if_False option.case sum.case com_packet.simps simp_thms)
qed

definition unspaced :: "bytes \<Rightarrow> spaced_byte list" where
  "unspaced bs = map (\<lambda>b. ([], b, False, False)) bs"

lemma byte_of_unspaced [simp]: "map byte_of (unspaced bs) = bs"
  by (simp add: unspaced_def byte_of_def comp_def)

theorem receiver_agrees_with_parser_witness:
  "com_parse_packet [0xAA, 8, 0, 16, 0, 0, 24] = Some (Inr \<lparr>cp_cmd = 8, cp_addr = 16, cp_len = 0, cp_payload = []\<rparr>)
   \<and> rx_phase (fst (rx_run (concat (map clocks_of (unspaced [0xAA, 8, 0, 16, 0, 0, 24]))) rx_reset)) = WAIT_WRITE"
proof -
  have parse: "com_parse_packet [0xAA, 8, 0, 16, 0, 0, 24] = Some (Inr \<lparr>cp_cmd = 8, cp_addr = 16, cp_len = 0, cp_payload = []\<rparr>)"
    by code_simp
  have "join_bytes 0 0 = 0" by code_simp
  then show ?thesis
    using receiver_agrees_with_parser [of rx_reset "unspaced [0xAA, 8, 0, 16, 0, 0, 24]"] parse
    by (simp add: rx_reset_def COM_SOF_def)
qed

section \<open>The words of a payload\<close>

lemma rx_byte_packing:
  assumes "rx_phase st = GET_PAYLOAD" and "unat (rx_payload_count st) < unat (rx_len st)"
  shows "rx_word_data (rx_byte b st) = push_bit 24 (ucast b) OR drop_bit 8 (rx_word_data st)"
    and "rx_byte_index (rx_byte b st) = rx_byte_index st + 1"
    and "rx_word_valid (rx_byte b st) \<longleftrightarrow> rx_byte_index st = 3 \<or> unat (rx_payload_count st) + 1 = unat (rx_len st)"
  using assms by (auto simp: rx_byte_def strobes_low_def Let_def)

lemma packed_word:
  fixes w old :: u32
  defines "put \<equiv> \<lambda>(b :: u8) old. push_bit 24 (ucast b) OR drop_bit 8 old :: u32"
  shows "put (ucast (drop_bit 24 w)) (put (ucast (drop_bit 16 w)) (put (ucast (drop_bit 8 w)) (put (ucast w) old))) = w"
proof (rule bit_word_eqI)
  fix n assume n: "n < LENGTH(32)"
  consider "n < 8" | "8 \<le> n" "n < 16" | "16 \<le> n" "n < 24" | "24 \<le> n" by linarith
  then show "bit (put (ucast (drop_bit 24 w)) (put (ucast (drop_bit 16 w)) (put (ucast (drop_bit 8 w)) (put (ucast w) old)))) n = bit w n"
    using n by cases (auto simp: put_def bit_simps dest: bit_imp_le_length)
qed

text \<open>Four bytes of a payload give one word, and no word before them.\<close>

lemma rx_word:
  assumes "rx_phase st = GET_PAYLOAD" and "rx_byte_index st = 0"
    and "unat (rx_payload_count st) + 4 \<le> unat (rx_len st)"
  shows "snd (rx_bytes (word_bytes w) st) = [w]" and "rx_byte_index (fst (rx_bytes (word_bytes w) st)) = 0"
proof -
  let ?c = "unat (rx_payload_count st)" and ?n = "unat (rx_len st)"
  define s1 where "s1 = rx_byte (ucast w) st"
  define s2 where "s2 = rx_byte (ucast (drop_bit 8 w)) s1"
  define s3 where "s3 = rx_byte (ucast (drop_bit 16 w)) s2"
  define s4 where "s4 = rx_byte (ucast (drop_bit 24 w)) s3"
  have r0: "?c < ?n" using assms(3) by simp
  have s1: "rx_phase s1 = GET_PAYLOAD" "unat (rx_payload_count s1) = ?c + 1" "rx_len s1 = rx_len st" "rx_byte_index s1 = 1"
    "\<not> rx_word_valid s1"
    using rx_byte_payload [OF assms(1) r0] rx_byte_packing [OF assms(1) r0] assms(2,3) by (simp_all add: s1_def)
  have r1: "unat (rx_payload_count s1) < unat (rx_len s1)" using s1 assms(3) by simp
  have s2: "rx_phase s2 = GET_PAYLOAD" "unat (rx_payload_count s2) = ?c + 2" "rx_len s2 = rx_len st" "rx_byte_index s2 = 2"
    "\<not> rx_word_valid s2"
    using rx_byte_payload [OF s1(1) r1] rx_byte_packing [OF s1(1) r1] s1 assms(3) by (simp_all add: s2_def)
  have r2: "unat (rx_payload_count s2) < unat (rx_len s2)" using s2 assms(3) by simp
  have s3: "rx_phase s3 = GET_PAYLOAD" "unat (rx_payload_count s3) = ?c + 3" "rx_len s3 = rx_len st" "rx_byte_index s3 = 3"
    "\<not> rx_word_valid s3"
    using rx_byte_payload [OF s2(1) r2] rx_byte_packing [OF s2(1) r2] s2 assms(3) by (simp_all add: s3_def)
  have r3: "unat (rx_payload_count s3) < unat (rx_len s3)" using s3 assms(3) by simp
  have s4: "rx_byte_index s4 = 0" "rx_word_valid s4"
    using rx_byte_packing [OF s3(1) r3] s3 by (simp_all add: s4_def)
  have "rx_word_data s4 = w"
    using packed_word [of w "rx_word_data st"] rx_byte_packing(1) [OF assms(1) r0] rx_byte_packing(1) [OF s1(1) r1]
      rx_byte_packing(1) [OF s2(1) r2] rx_byte_packing(1) [OF s3(1) r3]
    by (simp add: s4_def s3_def s2_def s1_def)
  then show "snd (rx_bytes (word_bytes w) st) = [w]" "rx_byte_index (fst (rx_bytes (word_bytes w) st)) = 0"
    using s1(5) s2(5) s3(5) s4
    by (simp_all add: word_bytes_def s1_def [symmetric] s2_def [symmetric] s3_def [symmetric] s4_def [symmetric])
qed

lemma rx_words:
  assumes "rx_phase st = GET_PAYLOAD" and "rx_byte_index st = 0"
    and "unat (rx_payload_count st) + 4 * length ws \<le> unat (rx_len st)"
  shows "snd (rx_bytes (concat (map word_bytes ws)) st) = ws"
  using assms
proof (induction ws arbitrary: st)
  case (Cons w ws)
  have room: "unat (rx_payload_count st) + 4 \<le> unat (rx_len st)" using Cons.prems(3) by simp
  note word = rx_word [OF Cons.prems(1,2) room, of w]
  have after: "rx_phase (fst (rx_bytes (word_bytes w) st)) = (if unat (rx_payload_count st) + 4 = unat (rx_len st) then GET_CRC else GET_PAYLOAD)"
    "unat (rx_payload_count (fst (rx_bytes (word_bytes w) st))) = unat (rx_payload_count st) + 4"
    "rx_len (fst (rx_bytes (word_bytes w) st)) = rx_len st"
    using rx_payload [OF Cons.prems(1), of "word_bytes w"] room by (simp_all add: word_bytes_def)
  show ?case
  proof (cases "ws = []")
    case True
    then show ?thesis using word by simp
  next
    case False
    then have "unat (rx_payload_count st) + 4 < unat (rx_len st)" using Cons.prems(3) by (cases ws) simp_all
    then show ?thesis
      using Cons.IH [of "fst (rx_bytes (word_bytes w) st)"] word after Cons.prems(3) by (simp add: rx_bytes_append)
  qed
qed simp

lemma length_word_bytes [simp]: "length (concat (map word_bytes ws)) = 4 * length ws"
  by (induction ws) (simp_all add: word_bytes_def)

text \<open>
  C21: words reach the device as they were sent. A packet that the host builds from at most 63 words, low byte
  first, is accepted by an idle receiver however its bytes are spaced; on the way the receiver hands the memory
  system exactly these words, in their order, then it announces the packet with its command, address and length,
  and when the write is done it sends the acknowledgement and is idle again.
\<close>

theorem receiver_delivers_words:
  fixes ws :: "u32 list" and gaps :: "spaced_byte list" and st :: rx_state
  assumes "length ws \<le> 63" and "rx_phase st = IDLE"
    and "com_build_packet cmd addr (Some (concat (map word_bytes ws))) (of_nat (4 * length ws)) = Inr (map byte_of gaps)"
  shows "\<exists>st'. rx_run (concat (map clocks_of gaps)) st = (st', ws) \<and> rx_packet_done st' \<and> rx_cmd st' = cmd
    \<and> rx_addr st' = addr \<and> rx_len st' = of_nat (4 * length ws) \<and> rx_phase st' = WAIT_WRITE
    \<and> rx_send_ack (fst (rx_run [(byte1, True, fail), (byte2, done, fail2)] st'))
    \<and> rx_phase (fst (rx_run [(byte1, True, fail), (byte2, done, fail2)] st')) = IDLE"
proof -
  let ?payload = "concat (map word_bytes ws)" and ?len = "of_nat (4 * length ws) :: u16"
  have len: "unat ?len = 4 * length ws" unfolding unat_of_nat using assms(1) by simp
  define buf where "buf = map byte_of gaps"
  have "com_build_packet cmd addr (Some ?payload) ?len = Inr (frame cmd addr ?len ?payload)"
    unfolding com_build_packet_def len using build_fields_frame [of "4 * length ws" ?payload] assms(1) by simp
  then have buf: "buf = [0xAA, cmd, hi_byte addr, lo_byte addr, hi_byte ?len, lo_byte ?len] @ ?payload
      @ [crc_loop 0 ([cmd, hi_byte addr, lo_byte addr, hi_byte ?len, lo_byte ?len] @ ?payload)]"
    using assms(3) by (simp add: buf_def frame_def frame_body_def COM_SOF_def)
  have "length ?payload = unat (join_bytes (hi_byte ?len) (lo_byte ?len))" using len by simp
  note whole = rx_whole_packet [OF assms(2) this, where cmd = cmd and ?h1.0 = "hi_byte addr" and ?l1.0 = "lo_byte addr"
      and crc = "crc_loop 0 ([cmd, hi_byte addr, lo_byte addr, hi_byte ?len, lo_byte ?len] @ ?payload)", folded buf]
  define st' where "st' = fst (rx_bytes buf st)"
  have st': "rx_phase st' = WAIT_WRITE" "rx_packet_done st'" "rx_cmd st' = cmd" "rx_addr st' = addr" "rx_len st' = ?len"
    using whole(1-5) by (simp_all add: st'_def)
  define sh where "sh = fst (rx_bytes [0xAA, cmd, hi_byte addr, lo_byte addr, hi_byte ?len, lo_byte ?len] st)"
  note head = rx_header [OF assms(2), where cmd = cmd and ?h1.0 = "hi_byte addr" and ?l1.0 = "lo_byte addr"
      and ?h2.0 = "hi_byte ?len" and ?l2.0 = "lo_byte ?len", folded sh_def]
  have "snd (rx_bytes ?payload sh) = ws \<and> rx_phase (fst (rx_bytes ?payload sh)) = GET_CRC"
  proof (cases "ws = []")
    case True
    then show ?thesis using head(1) by simp
  next
    case False
    then have pos: "0 < length ws" by simp
    then have "?len \<noteq> 0" using len by (metis mult_is_0 unat_0 zero_neq_numeral less_numeral_extra(3))
    then have "rx_phase sh = GET_PAYLOAD" "unat (rx_len sh) = 4 * length ws" "unat (rx_payload_count sh) = 0" "rx_byte_index sh = 0"
      using head len by simp_all
    then show ?thesis using rx_words [of sh ws] rx_payload [of sh ?payload] pos by simp
  qed
  then have words: "snd (rx_bytes buf st) = ws"
    using head(8) rx_byte_crc(3) by (subst buf) (simp only: rx_bytes_append, simp add: sh_def)
  have run: "rx_run (concat (map clocks_of gaps)) st = rx_bytes buf st"
    unfolding buf_def by (rule rx_run_spaced) (use whole(6) in \<open>simp add: buf_def\<close>)
  have "rx_run (concat (map clocks_of gaps)) st = (st', ws)" using run words by (simp add: st'_def prod_eq_iff)
  then show ?thesis using st' by (auto simp: rx_clock_def)
qed

theorem receiver_delivers_words_witness:
  "\<exists>st'. rx_run (concat (map clocks_of (unspaced [0xAA, 1, 0, 16, 0, 4, 0x44, 0x33, 0x22, 0x11, 0x51]))) rx_reset = (st', [0x11223344])
    \<and> rx_packet_done st'"
proof -
  have "com_build_packet 1 16 (Some (concat (map word_bytes [0x11223344]))) (of_nat (4 * length [0x11223344 :: u32]))
      = Inr [0xAA, 1, 0, 16, 0, 4, 0x44, 0x33, 0x22, 0x11, 0x51]"
    by code_simp
  then show ?thesis
    using receiver_delivers_words [of "[0x11223344]" rx_reset 1 16 "unspaced [0xAA, 1, 0, 16, 0, 4, 0x44, 0x33, 0x22, 0x11, 0x51]"]
    by (simp add: rx_reset_def) blast
qed

section \<open>A read request without a payload\<close>

text \<open>
  A device seen through the system calls: \<open>rx\<close> is the state of its receiver and \<open>pending\<close> what it has sent and
  the host has not read. It receives every byte that is written, and it says nothing of its own accord: a write
  that leaves the receiver waiting for more bytes all along adds nothing to \<open>pending\<close>, and a read finds nothing
  when nothing is pending and the receiver is waiting.
\<close>

definition answers_packets_only :: "'w os \<Rightarrow> ('w \<Rightarrow> rx_state) \<Rightarrow> ('w \<Rightarrow> bytes) \<Rightarrow> bool" where
  "answers_packets_only os rx pending \<longleftrightarrow>
     (\<forall>fd buf w. fst (os_write os fd buf w) = int (length buf)
        \<and> (\<exists>gaps. map byte_of gaps = buf \<and> rx (snd (os_write os fd buf w)) = fst (rx_run (concat (map clocks_of gaps)) (rx w)))
        \<and> ((\<forall>k \<le> length buf. waiting (fst (rx_bytes (take k buf) (rx w)))) \<longrightarrow> pending (snd (os_write os fd buf w)) = pending w))
   \<and> (\<forall>fd n w. pending w = [] \<and> waiting (rx w) \<longrightarrow> fst (os_read os fd n w) = Inr []
        \<and> pending (snd (os_read os fd n w)) = []
        \<and> (\<exists>gap. rx (snd (os_read os fd n w)) = fst (rx_run (map (\<lambda>(d, f). (None, d, f)) gap) (rx w))))"

text \<open>The receiver has \<open>c\<close> of \<open>n\<close> payload bytes.\<close>

definition mid_payload :: "nat \<Rightarrow> nat \<Rightarrow> rx_state \<Rightarrow> bool" where
  "mid_payload n c st \<longleftrightarrow> unat (rx_len st) = n \<and> unat (rx_payload_count st) = c
     \<and> rx_phase st = (if c = n then GET_CRC else GET_PAYLOAD)"

lemma mid_payload_bytes:
  assumes "mid_payload n c st" and "c < n" and "c + length bs \<le> n"
  shows "mid_payload n (c + length bs) (fst (rx_bytes bs st))"
  using rx_payload [of st bs] assms by (auto simp: mid_payload_def)

lemma mid_payload_waiting: "mid_payload n c st \<Longrightarrow> waiting st"
  by (auto simp: mid_payload_def waiting_def split: if_splits)

lemma mid_payload_low [simp]: "mid_payload n c (strobes_low st) = mid_payload n c st"
  by (simp add: mid_payload_def strobes_low_def)

text \<open>An attempt that ends in the middle of a payload times out.\<close>

lemma read_attempt_times_out:
  assumes dev: "answers_packets_only os rx pending" and "pending w = []"
    and waits: "\<And>k. k \<le> length packet \<Longrightarrow> waiting (fst (rx_bytes (take k packet) (rx w)))"
    and mid: "mid_payload n c (fst (rx_bytes packet (rx w)))"
  shows "\<exists>w'. read_attempt os (Some d) packet chunk_addr chunk_len w = (Inr (Inl ERR_TIMEOUT), w')
    \<and> mid_payload n c (rx w') \<and> pending w' = []"
proof -
  obtain w1 where w1: "os_write os (dev_fd d) packet w = (int (length packet), w1)"
    and pend: "pending w1 = []" and rx1: "\<exists>gaps. map byte_of gaps = packet \<and> rx w1 = fst (rx_run (concat (map clocks_of gaps)) (rx w))"
    using dev waits assms(2) unfolding answers_packets_only_def by (metis prod.collapse)
  obtain gaps where gaps: "map byte_of gaps = packet" "rx w1 = fst (rx_run (concat (map clocks_of gaps)) (rx w))"
    using rx1 by blast
  have "rx_run (concat (map clocks_of gaps)) (rx w) = rx_bytes (map byte_of gaps) (rx w)"
    by (rule rx_run_spaced) (use waits gaps in auto)
  then have mid1: "mid_payload n c (rx w1)" using mid gaps by simp
  obtain w2 where w2: "os_read os (dev_fd d) 6 w1 = (Inr [], w2)" and "pending w2 = []"
    and "\<exists>gap. rx w2 = fst (rx_run (map (\<lambda>(d, f). (None, d, f)) gap) (rx w1))"
    using dev pend mid_payload_waiting [OF mid1] unfolding answers_packets_only_def by (metis prod.collapse)
  then have "mid_payload n c (rx w2)"
    using mid1 rx_run_gap(1) [OF mid_payload_waiting [OF mid1]] by (auto split: if_splits)
  moreover have "read_attempt os (Some d) packet chunk_addr chunk_len w = (Inr (Inl ERR_TIMEOUT), w2)"
    using w1 w2 by (simp add: read_attempt_def on_ok_def com_send_raw_def com_recv_raw_def recv_loop.simps com_constants
        andThen_def ret_def)
  ultimately show ?thesis using \<open>pending w2 = []\<close> by blast
qed

lemma retry_all_fail:
  assumes "m w = (Inr (Inl e1), w1)" and "m w1 = (Inr (Inl e2), w2)" and "m w2 = (Inr (Inl e3), w3)"
  shows "retry RETRIES m e w = (Inr (Inl e3), w3)"
  using assms by (simp add: RETRIES_def numeral_eq_Suc andThen_def ret_def)

text \<open>
  A read request is never answered. \<open>com_read_data\<close> announces the bytes it wants in the length field and sends
  no payload, while the receiver of the device takes as many payload bytes as the length field says. For fifteen
  bytes and more the three attempts together do not complete the packet: on every device that answers packets only,
  the function returns \<open>ERR_TIMEOUT\<close>, and it leaves the receiver in the middle of a packet.
\<close>

theorem read_request_never_answered:
  assumes dev: "answers_packets_only os rx pending" and "rx_phase (rx w) = IDLE" and "pending w = []"
    and "15 \<le> n" and "n \<le> 65536 - unat addr"
  shows "\<exists>w'. com_read_data os (Some d) addr True n w = (Inr (ERR_TIMEOUT, []), w')
    \<and> rx_phase (rx w') \<in> {GET_PAYLOAD, GET_CRC} \<and> pending w' = []"
proof -
  let ?n = "min n 255"
  let ?len = "of_nat ?n :: u16"
  have len: "unat ?len = ?n" by (simp add: unat_of_nat)
  define crc where "crc = crc_loop 0 (frame_body 2 addr ?len [])"
  define packet where "packet = frame 2 addr ?len []"
  have packet: "packet = [0xAA, 2, hi_byte addr, lo_byte addr, hi_byte ?len, lo_byte ?len] @ [crc]"
    by (simp add: packet_def crc_def frame_def frame_body_def COM_SOF_def)
  define sh where "sh = fst (rx_bytes [0xAA, 2, hi_byte addr, lo_byte addr, hi_byte ?len, lo_byte ?len] (rx w))"
  note head = rx_header [OF assms(2), where cmd = 2 and ?h1.0 = "hi_byte addr" and ?l1.0 = "lo_byte addr"
      and ?h2.0 = "hi_byte ?len" and ?l2.0 = "lo_byte ?len", folded sh_def]
  have "?len \<noteq> 0" using len assms(4) by auto
  then have mid0: "mid_payload ?n 0 sh" using head len assms(4) by (simp add: mid_payload_def)
  have mid1: "mid_payload ?n 1 (fst (rx_bytes packet (rx w)))"
    using mid_payload_bytes [OF mid0, of "[crc]"] assms(4) unfolding packet rx_bytes_append sh_def by simp
  have "waiting (fst (rx_bytes (take k packet) (rx w)))" if "k \<le> length packet" for k
  proof (cases "k \<le> 6")
    case True
    then have "take k packet = take k [0xAA, 2, hi_byte addr, lo_byte addr, hi_byte ?len, lo_byte ?len]"
      by (simp only: packet take_append) simp
    then show ?thesis using head(9) [OF True] by simp
  next
    case False
    then show ?thesis using that mid_payload_waiting [OF mid1] by (simp add: packet_def)
  qed
  from read_attempt_times_out [OF dev assms(3) this mid1]
  obtain w1 where w1: "read_attempt os (Some d) packet addr ?len w = (Inr (Inl ERR_TIMEOUT), w1)"
    "mid_payload ?n 1 (rx w1)" "pending w1 = []" by blast
  have again: "\<exists>w2. read_attempt os (Some d) packet addr ?len w1 = (Inr (Inl ERR_TIMEOUT), w2)
      \<and> mid_payload ?n (c + 7) (rx w2) \<and> pending w2 = []"
    if "mid_payload ?n c (rx w1)" "pending w1 = []" "c + 7 \<le> 15" for w1 c
  proof (rule read_attempt_times_out [OF dev that(2)])
    have c: "c < ?n" "c + 7 \<le> ?n" using that(3) assms(4) by simp_all
    then show "mid_payload ?n (c + 7) (fst (rx_bytes packet (rx w1)))"
      using mid_payload_bytes [OF that(1), of packet] by (simp add: packet_def)
    show "waiting (fst (rx_bytes (take k packet) (rx w1)))" if "k \<le> length packet" for k
      using mid_payload_bytes [OF \<open>mid_payload ?n c (rx w1)\<close>, of "take k packet"] c that mid_payload_waiting
      by (simp add: packet_def)
  qed
  obtain w2 where w2: "read_attempt os (Some d) packet addr ?len w1 = (Inr (Inl ERR_TIMEOUT), w2)"
    "mid_payload ?n 8 (rx w2)" "pending w2 = []" using again [OF w1(2,3)] by auto
  obtain w3 where w3: "read_attempt os (Some d) packet addr ?len w2 = (Inr (Inl ERR_TIMEOUT), w3)"
    "mid_payload ?n 15 (rx w3)" "pending w3 = []" using again [OF w2(2,3)] by auto
  have "read_chunk os (Some d) addr ?len w = (Inr (Inl ERR_TIMEOUT), w3)"
    using retry_all_fail [OF w1(1) w2(1) w3(1)] by (simp add: read_chunk_def build_fields_empty packet_def)
  then have "com_read_data os (Some d) addr True n w = (Inr (ERR_TIMEOUT, []), w3)"
    using assms(4,5) by (simp add: com_read_data_def read_loop.simps com_constants andThen_def ret_def Let_def)
  moreover have "rx_phase (rx w3) \<in> {GET_PAYLOAD, GET_CRC}" using w3(2) by (auto simp: mid_payload_def)
  ultimately show ?thesis using w3(3) by blast
qed

text \<open>A line whose other end is the receiver and nothing else.\<close>

definition receiver_line :: "rx_state os" where
  "receiver_line = \<lparr>os_write = (\<lambda>fd buf st. (int (length buf), fst (rx_run (concat (map clocks_of (unspaced buf))) st))),
     os_read = (\<lambda>fd n st. (Inr [], st)), os_now = (\<lambda>st. (0, st)), os_sleep_ms = (\<lambda>n st. st)\<rparr>"

theorem read_request_never_answered_witness:
  "\<exists>w'. com_read_data receiver_line (Some \<lparr>dev_fd = 3, dev_timeout_ms = 1000\<rparr>) 0 True 16 rx_reset = (Inr (ERR_TIMEOUT, []), w')
    \<and> rx_phase w' \<in> {GET_PAYLOAD, GET_CRC}"
proof -
  have "\<exists>gap. st = fst (rx_run (map (\<lambda>(d, f). (None, d, f)) gap) st)" for st
    by (rule exI [of _ "[]"]) simp
  then have "answers_packets_only receiver_line (\<lambda>st. st) (\<lambda>st. [])"
    unfolding answers_packets_only_def receiver_line_def by (auto intro!: exI [of _ "unspaced _"])
  then show ?thesis
    using read_request_never_answered [of receiver_line "\<lambda>st. st" "\<lambda>st. []" rx_reset 16 0] by (simp add: rx_reset_def)
qed

end
