(* ===== verification/PythonPort.thy ===== *)
theory PythonPort
  imports ComPort Keeps
begin

text \<open>
  The Python module of the serial link (\<open>gpu_comm/bindings/python_bindings.cpp\<close>): the class \<open>UartDevice\<close>, its
  moves and its input and output, and the packet functions. A \<open>py::bytes\<close> is a byte list; the failures of the
  interpreter's own conversions are left out. An object is the pointer it holds, \<open>None\<close> for null, and an error of
  the library is thrown as a \<open>std::runtime_error\<close> with its message.
\<close>

section \<open>Errors\<close>

definition throw_if_com_error :: "com_err \<Rightarrow> ('s, exn, unit) action" where
  "throw_if_com_error err = (if err \<noteq> COM_OK then throw (Runtime_error (com_strerror err)) else ret ())"

text \<open>The result of a function of the library: its error is thrown.\<close>

definition or_throw :: "('s, exn, com_err + 'a) action \<Rightarrow> ('s, exn, 'a) action" where
  "or_throw m = andThen m (\<lambda>r. case r of Inl e \<Rightarrow> throw (Runtime_error (com_strerror e)) | Inr x \<Rightarrow> ret x)"

definition com_errors :: "com_err list" where
  "com_errors = [COM_OK, ERR_BAD_ARG, ERR_CRC, ERR_NO_SOF, ERR_TIMEOUT, ERR_SHORT, ERR_IO, ERR_PAYLOAD_SIZE, ERR_OPEN, ERR_FPGA]"

definition py_strerror :: "int \<Rightarrow> string" where
  "py_strerror err = (case find (\<lambda>e. err_code e = err) com_errors of
     Some e \<Rightarrow> com_strerror e | None \<Rightarrow> ''Unknown Error Occurred'')"

section \<open>The device class\<close>

definition uart_new :: "'w port_ops \<Rightarrow> string \<Rightarrow> int \<Rightarrow> int \<Rightarrow> ('w, exn, com_dev option) action" where
  "uart_new po device_name baud timeout_ms =
     andThen (open_com po device_name baud timeout_ms) (\<lambda>dev.
       if dev = None then throw (Runtime_error ''failed to open COM device'') else ret dev)"

definition uart_close :: "'w port_ops \<Rightarrow> com_dev option \<Rightarrow> 'w \<Rightarrow> com_dev option \<times> 'w" where
  "uart_close po dev w = (if dev \<noteq> None then (None, close_com po dev w) else (dev, w))"

definition uart_is_open :: "com_dev option \<Rightarrow> bool" where
  "uart_is_open dev \<longleftrightarrow> dev \<noteq> None"

text \<open>The move constructor: the new object and what is left of the other one.\<close>

definition uart_move :: "com_dev option \<Rightarrow> com_dev option \<times> com_dev option" where
  "uart_move other = (other, None)"

text \<open>Move assignment between two different objects: the target, the source and the world.\<close>

definition uart_assign :: "'w port_ops \<Rightarrow> com_dev option \<Rightarrow> com_dev option \<Rightarrow> 'w \<Rightarrow> com_dev option \<times> com_dev option \<times> 'w" where
  "uart_assign po this other w = (let (_, w') = uart_close po this w in (other, None, w'))"

definition when_open :: "com_dev option \<Rightarrow> ('w, exn, 'a) action \<Rightarrow> ('w, exn, 'a) action" where
  "when_open dev m = (if dev = None then throw (Runtime_error ''COM device is closed'') else m)"

definition uart_send_raw :: "'w os \<Rightarrow> com_dev option \<Rightarrow> bytes \<Rightarrow> ('w, exn, unit) action" where
  "uart_send_raw os dev data = when_open dev (or_throw (com_send_raw os dev data))"

definition uart_recv_raw :: "'w os \<Rightarrow> com_dev option \<Rightarrow> nat \<Rightarrow> ('w, exn, bytes) action" where
  "uart_recv_raw os dev n = when_open dev (or_throw (com_recv_raw os dev n))"

definition uart_write_data :: "'w os \<Rightarrow> com_dev option \<Rightarrow> u16 \<Rightarrow> bytes \<Rightarrow> ('w, exn, unit) action" where
  "uart_write_data os dev addr data = when_open dev (or_throw (com_write_data os dev addr (Some data) (length data)))"

definition uart_read_data :: "'w os \<Rightarrow> com_dev option \<Rightarrow> u16 \<Rightarrow> nat \<Rightarrow> ('w, exn, bytes) action" where
  "uart_read_data os dev addr n =
     when_open dev (andThen (com_read_data os dev addr True n) (\<lambda>(err, buffer).
       andThen (throw_if_com_error err) (\<lambda>_. ret buffer)))"

section \<open>Packets\<close>

text \<open>The dictionary that the parser returns.\<close>

record py_packet =
  py_cmd :: u8
  py_addr :: u16
  py_len :: u16
  py_payload :: bytes

definition py_build_packet :: "com_cmd \<Rightarrow> u16 \<Rightarrow> bytes \<Rightarrow> exn + bytes" where
  "py_build_packet cmd addr payload =
     (if length payload > 65535 then Inl (Runtime_error (com_strerror ERR_PAYLOAD_SIZE))
      else (case com_build_packet (cmd_code cmd) addr (Some payload) (of_nat (length payload)) of
          Inl e \<Rightarrow> Inl (Runtime_error (com_strerror e))
        | Inr packet \<Rightarrow> Inr packet))"

definition py_parse_packet :: "bytes \<Rightarrow> exn + py_packet" where
  "py_parse_packet data =
     (case com_parse_packet data of
        None \<Rightarrow> Inl (Undefined ''payload copied past the end of com_packet_t'')
      | Some (Inl e) \<Rightarrow> Inl (Runtime_error (com_strerror e))
      | Some (Inr packet) \<Rightarrow> Inr \<lparr>py_cmd = cp_cmd packet, py_addr = cp_addr packet, py_len = cp_len packet,
          py_payload = take (unat (cp_len packet)) (cp_payload packet)\<rparr>)"

lemma com_build_frame:
  assumes "length payload \<le> 65535"
  shows "com_build_packet cmd addr (Some payload) (of_nat (length payload)) =
    (if length payload \<le> 255 then Inr (frame cmd addr (of_nat (length payload)) payload) else Inl ERR_PAYLOAD_SIZE)"
proof -
  have "unat (of_nat (length payload) :: u16) = length payload" using assms by (simp add: unat_of_nat)
  then show ?thesis
    using build_fields_frame [of "length payload" payload] build_too_long [of "length payload"]
    by (simp add: com_build_packet_def)
qed

text \<open>
  The packet functions of the Python module. A payload of at most 255 bytes is packed into a packet that the
  parser takes apart again, whatever bytes follow; every longer payload, the ones that fit the length field
  included, raises the error about the payload size.
\<close>

theorem py_packet_roundtrip:
  "if length payload \<le> 255
   then \<exists>packet. py_build_packet cmd addr payload = Inr packet \<and> length packet = 7 + length payload
     \<and> py_parse_packet (packet @ rest) = Inr \<lparr>py_cmd = cmd_code cmd, py_addr = addr, py_len = of_nat (length payload),
          py_payload = payload\<rparr>
   else py_build_packet cmd addr payload = Inl (Runtime_error ''Payload exceeds 65535-byte max'')"
proof (cases "length payload \<le> 255")
  case True
  then have len: "unat (of_nat (length payload) :: u16) = length payload" by (simp add: unat_of_nat)
  then show ?thesis
    using True parse_frame [OF len [symmetric], of "cmd_code cmd" addr rest]
    by (simp add: py_build_packet_def com_build_frame py_parse_packet_def)
qed (simp add: py_build_packet_def com_build_frame)

lemma com_errors_complete: "e \<in> set com_errors"
  by (cases e) (simp_all add: com_errors_def)

text \<open>The message of every error code is the library's, and no other number has one of these.\<close>

lemma py_strerror_spec:
  "py_strerror (err_code e) = com_strerror e" "(\<And>e. err_code e \<noteq> n) \<Longrightarrow> py_strerror n = ''Unknown Error Occurred''"
proof -
  show "py_strerror (err_code e) = com_strerror e" by (cases e) (simp_all add: py_strerror_def com_errors_def)
  show "(\<And>e. err_code e \<noteq> n) \<Longrightarrow> py_strerror n = ''Unknown Error Occurred''"
    by (simp add: py_strerror_def find_None_iff [THEN iffD2])
qed

section \<open>The objects of a program\<close>

text \<open>
  The objects that are alive, by their identities, and the world. An object is made by the constructor, closed,
  destroyed (which closes it), moved into a new object or into another one, or used. A constructor that throws
  leaves no object.
\<close>

type_synonym 'w uart_state = "(nat \<rightharpoonup> com_dev option) \<times> 'w"

text \<open>The input and output leaves the ports alone.\<close>

definition io_keeps_ports :: "'w os \<Rightarrow> ('w \<Rightarrow> int set) \<Rightarrow> bool" where
  "io_keeps_ports os opened \<longleftrightarrow>
     (\<forall>fd buf w. opened (snd (os_write os fd buf w)) = opened w) \<and> (\<forall>fd n w. opened (snd (os_read os fd n w)) = opened w)"

inductive uart_step :: "'w port_ops \<Rightarrow> 'w os \<Rightarrow> 'w uart_state \<Rightarrow> 'w uart_state \<Rightarrow> bool" for po os where
  made: "objs i = None \<Longrightarrow> uart_new po name baud timeout_ms w = (Inr dev, w') \<Longrightarrow> timeout_ms < 2 ^ 31 - 99
    \<Longrightarrow> uart_step po os (objs, w) (objs(i \<mapsto> dev), w')"
| not_made: "uart_new po name baud timeout_ms w = (Inl e, w') \<Longrightarrow> timeout_ms < 2 ^ 31 - 99
    \<Longrightarrow> uart_step po os (objs, w) (objs, w')"
| closed: "objs i = Some dev \<Longrightarrow> uart_close po dev w = (dev', w')
    \<Longrightarrow> uart_step po os (objs, w) (objs(i \<mapsto> dev'), w')"
| destroyed: "objs i = Some dev \<Longrightarrow> uart_close po dev w = (dev', w')
    \<Longrightarrow> uart_step po os (objs, w) (objs(i := None), w')"
| moved: "objs i = Some dev \<Longrightarrow> objs j = None \<Longrightarrow> uart_move dev = (new, rest)
    \<Longrightarrow> uart_step po os (objs, w) (objs(i \<mapsto> rest, j \<mapsto> new), w)"
| assigned: "objs i = Some this \<Longrightarrow> objs j = Some other \<Longrightarrow> i \<noteq> j \<Longrightarrow> uart_assign po this other w = (new, rest, w')
    \<Longrightarrow> uart_step po os (objs, w) (objs(i \<mapsto> new, j \<mapsto> rest), w')"
| sent: "objs i = Some dev \<Longrightarrow> uart_send_raw os dev data w = (r, w') \<Longrightarrow> uart_step po os (objs, w) (objs, w')"
| received: "objs i = Some dev \<Longrightarrow> uart_recv_raw os dev n w = (rb, w') \<Longrightarrow> uart_step po os (objs, w) (objs, w')"
| written: "objs i = Some dev \<Longrightarrow> uart_write_data os dev addr data w = (r, w') \<Longrightarrow> uart_step po os (objs, w) (objs, w')"
| got: "objs i = Some dev \<Longrightarrow> uart_read_data os dev addr n w = (rb, w') \<Longrightarrow> uart_step po os (objs, w) (objs, w')"

text \<open>
  The invariant: beside the ports of others, the open ports are those of the objects, every object has its own, and
  none of the others'.
\<close>

definition uart_ports :: "(nat \<rightharpoonup> com_dev option) \<Rightarrow> int set" where
  "uart_ports objs = {dev_fd d | i d. objs i = Some (Some d)}"

definition uart_ok :: "int set \<Rightarrow> ('w \<Rightarrow> int set) \<Rightarrow> 'w uart_state \<Rightarrow> bool" where
  "uart_ok others opened s \<longleftrightarrow>
     (case s of (objs, w) \<Rightarrow> opened w = others \<union> uart_ports objs \<and> others \<inter> uart_ports objs = {}
        \<and> (\<forall>i j d e. objs i = Some (Some d) \<longrightarrow> objs j = Some (Some e) \<longrightarrow> i \<noteq> j \<longrightarrow> dev_fd d \<noteq> dev_fd e))"

section \<open>Input and output leave the ports alone\<close>

lemma io_keeps_ports_at: "io_keeps_ports os opened \<Longrightarrow> io_keeps (\<lambda>w. opened w = v) os"
  by (simp add: io_keeps_ports_def io_keeps_def)

lemma keeps_uart_io:
  assumes "io_keeps P os"
  shows "keeps P (uart_send_raw os dev data)" "keeps P (uart_recv_raw os dev n)"
    "keeps P (uart_write_data os dev addr data)" "keeps P (uart_read_data os dev addr n)"
  unfolding uart_send_raw_def uart_recv_raw_def uart_write_data_def uart_read_data_def when_open_def or_throw_def
      throw_if_com_error_def
  by (intro keeps_intros assms)+

lemma keeps_view: "keeps (\<lambda>v. view v = view w) m \<Longrightarrow> view (snd (m w)) = view w"
  by (simp add: keeps_def)

lemma uart_io_ports:
  assumes "io_keeps_ports os opened"
  shows "opened (snd (uart_send_raw os dev data w)) = opened w" "opened (snd (uart_recv_raw os dev n w)) = opened w"
    "opened (snd (uart_write_data os dev addr data w)) = opened w" "opened (snd (uart_read_data os dev addr n w)) = opened w"
  by (intro keeps_view keeps_uart_io io_keeps_ports_at assms)+

section \<open>Every port has one owner\<close>

text \<open>The ports, with one object set apart.\<close>

lemma uart_ports_at:
  "uart_ports (objs(i := v)) = (case v of Some (Some d) \<Rightarrow> {dev_fd d} | _ \<Rightarrow> {}) \<union> uart_ports (objs(i := None))"
proof (intro set_eqI iffI)
  fix x assume "x \<in> uart_ports (objs(i := v))"
  then obtain k d where k: "(objs(i := v)) k = Some (Some d)" "x = dev_fd d" unfolding uart_ports_def by blast
  then have "k \<noteq> i \<Longrightarrow> (objs(i := None)) k = Some (Some d)" by simp
  then show "x \<in> (case v of Some (Some d) \<Rightarrow> {dev_fd d} | _ \<Rightarrow> {}) \<union> uart_ports (objs(i := None))"
    using k unfolding uart_ports_def by (cases "k = i") auto
next
  fix x assume "x \<in> (case v of Some (Some d) \<Rightarrow> {dev_fd d} | _ \<Rightarrow> {}) \<union> uart_ports (objs(i := None))"
  then consider d where "v = Some (Some d)" "x = dev_fd d" | k d where "(objs(i := None)) k = Some (Some d)" "x = dev_fd d"
    unfolding uart_ports_def by (auto split: option.splits)
  then show "x \<in> uart_ports (objs(i := v))"
  proof cases
    case (1 d)
    then have "(objs(i := v)) i = Some (Some d)" by simp
    then show ?thesis using 1(2) unfolding uart_ports_def by blast
  next
    case (2 k d)
    then have "(objs(i := v)) k = Some (Some d)" by (simp split: if_splits)
    then show ?thesis using 2(2) unfolding uart_ports_def by blast
  qed
qed

lemma uart_ports_of: "uart_ports objs = (case objs i of Some (Some d) \<Rightarrow> {dev_fd d} | _ \<Rightarrow> {}) \<union> uart_ports (objs(i := None))"
  using uart_ports_at [of objs i "objs i"] by simp

lemma uart_new_ports:
  assumes "port_laws po opened" and "uart_new po name baud timeout_ms w = (r, w')" and "timeout_ms < 2 ^ 31 - 99"
  shows "case r of Inl e \<Rightarrow> opened w' = opened w
    | Inr None \<Rightarrow> False
    | Inr (Some d) \<Rightarrow> dev_fd d \<notin> opened w \<and> opened w' = insert (dev_fd d) (opened w)"
proof -
  obtain rb w1 where "open_com po name baud timeout_ms w = (rb, w1)" by fastforce
  then show ?thesis
    using open_com_ports [OF assms(1,3), of name baud w rb w1] assms(2)
    by (auto simp: uart_new_def andThen_def split: sum.splits option.splits if_splits)
qed

text \<open>Closing an object that is \<open>Some d\<close> removes its port, which no other object has.\<close>

lemma uart_ok_close:
  assumes "port_laws po opened" and "uart_ok others opened (objs, w)" and "objs i = Some dev" and "uart_close po dev w = (dev', w')"
  shows "uart_ok others opened (objs(i \<mapsto> None), w')" and "uart_ok others opened (objs(i := None), w')" and "dev' = None"
proof -
  have "uart_ports (objs(i \<mapsto> None)) = uart_ports (objs(i := None))" using uart_ports_at [of objs i "Some None"] by simp
  moreover have "uart_ok others opened (objs(i := None), w') \<and> dev' = None"
  proof (cases dev)
    case None
    then have "uart_ports (objs(i := None)) = uart_ports objs" using assms(3) uart_ports_of [of objs i] by simp
    then show ?thesis using assms(2,4) None by (auto simp: uart_ok_def uart_close_def)
  next
    case (Some d)
    then have "uart_ports objs = insert (dev_fd d) (uart_ports (objs(i := None)))"
      using assms(3) uart_ports_of [of objs i] by simp
    moreover have "dev_fd d \<notin> uart_ports (objs(i := None))"
      using assms(2,3) Some by (auto simp: uart_ports_def uart_ok_def split: if_splits)
    moreover have "opened w' = opened w - {dev_fd d}"
      using close_com_ports [OF assms(1)] assms(4) Some by (auto simp: uart_close_def)
    ultimately show ?thesis using assms(2,4) Some by (auto simp: uart_ok_def uart_close_def)
  qed
  ultimately show "uart_ok others opened (objs(i \<mapsto> None), w')" "uart_ok others opened (objs(i := None), w')" "dev' = None"
    by (auto simp: uart_ok_def split: if_splits)
qed

lemma uart_ok_move:
  assumes "uart_ok others opened (objs, w)" and "objs i = Some dev" and "objs j = None \<or> objs j = Some None" and "i \<noteq> j"
  shows "uart_ok others opened (objs(i \<mapsto> None, j \<mapsto> dev), w)"
proof -
  let ?objs = "objs(i \<mapsto> None, j \<mapsto> dev)"
  have "uart_ports ?objs \<subseteq> uart_ports objs"
    using assms(2) by (auto simp: uart_ports_def split: if_splits)
  moreover have "dev_fd d \<in> uart_ports ?objs" if "objs k = Some (Some d)" for k d
  proof -
    have "?objs (if k = i then j else k) = Some (Some d)" using that assms(2-4) by auto
    then show ?thesis unfolding uart_ports_def by blast
  qed
  moreover from this have "uart_ports objs \<subseteq> uart_ports ?objs" unfolding uart_ports_def [of objs] by blast
  ultimately have "uart_ports ?objs = uart_ports objs" by blast
  then show ?thesis using assms by (auto simp: uart_ok_def split: if_splits)
qed

lemma uart_step_ok:
  assumes laws: "port_laws po opened" and io: "io_keeps_ports os opened"
    and "uart_step po os s s'" and "uart_ok others opened s"
  shows "uart_ok others opened s'"
  using assms(3,4)
proof cases
  case (made objs i name baud timeout_ms w dev w')
  then obtain d where d: "dev = Some d" "dev_fd d \<notin> opened w" "opened w' = insert (dev_fd d) (opened w)"
    using uart_new_ports [OF laws made(4,5)] by (auto split: option.splits)
  have "dev_fd e \<noteq> dev_fd d \<and> dev_fd d \<noteq> dev_fd e" if "objs k = Some (Some e)" for k e
    using that d(2) assms(4) made(1) by (auto simp: uart_ok_def uart_ports_def)
  then show ?thesis
    using made assms(4) d uart_ports_at [of objs i "Some (Some d)"] uart_ports_of [of objs i] by (auto simp: uart_ok_def)
next
  case (not_made name baud timeout_ms w e w' objs)
  then show ?thesis using uart_new_ports [OF laws not_made(3,4)] assms(4) by (simp add: uart_ok_def)
next
  case (closed objs i dev w dev' w')
  then show ?thesis using uart_ok_close [OF laws, of others objs w, OF _ closed(3,4)] assms(4) by simp
next
  case (destroyed objs i dev w dev' w')
  then show ?thesis using uart_ok_close [OF laws, of others objs w, OF _ destroyed(3,4)] assms(4) by simp
next
  case (moved objs i dev j new rest w)
  then have "i \<noteq> j" by auto
  then show ?thesis using uart_ok_move [of others opened objs w i dev j] moved assms(4) by (auto simp: uart_move_def)
next
  case (assigned objs i this j other w new rest w')
  obtain dev' where close: "uart_close po this w = (dev', w')"
    using assigned(6) by (auto simp: uart_assign_def split: prod.splits)
  have "uart_ok others opened (objs(i \<mapsto> None), w')" using uart_ok_close(1) [OF laws, of others objs w, OF _ assigned(3) close] assms(4) assigned(1) by simp
  then have "uart_ok others opened ((objs(i \<mapsto> None))(j \<mapsto> None, i \<mapsto> other), w')"
    by (rule uart_ok_move) (use assigned in auto)
  then show ?thesis using assigned close by (simp add: uart_assign_def fun_upd_twist)
next
  case (sent objs i dev data w r w')
  then show ?thesis using uart_io_ports(1) [OF io, of dev data w] assms(4) by (auto simp: uart_ok_def)
next
  case (received objs i dev n w rb w')
  then show ?thesis using uart_io_ports(2) [OF io, of dev n w] assms(4) by (auto simp: uart_ok_def)
next
  case (written objs i dev addr data w r w')
  then show ?thesis using uart_io_ports(3) [OF io, of dev addr data w] assms(4) by (auto simp: uart_ok_def)
next
  case (got objs i dev addr n w rb w')
  then show ?thesis using uart_io_ports(4) [OF io, of dev addr n w] assms(4) by (auto simp: uart_ok_def)
qed

text \<open>
  C22: the objects of a Python program own their ports. After any sequence of constructions, failed ones included,
  closings, destructions, moves and transfers, the ports open beside those of others are exactly the ones that the
  open objects hold, each held by one object; when every object has been destroyed or closed, none is left open.
\<close>

theorem python_objects_own_ports:
  assumes "port_laws po opened" and "io_keeps_ports os opened" and "(uart_step po os)\<^sup>*\<^sup>* (Map.empty, w0) (objs, w)"
  shows "opened w = opened w0 \<union> uart_ports objs \<and> opened w0 \<inter> uart_ports objs = {}
    \<and> (\<forall>i j d e. objs i = Some (Some d) \<longrightarrow> objs j = Some (Some e) \<longrightarrow> dev_fd d = dev_fd e \<longrightarrow> i = j)
    \<and> ((\<forall>i. objs i \<in> {None, Some None}) \<longrightarrow> opened w = opened w0)"
proof -
  have "uart_ok (opened w0) opened s" if "(uart_step po os)\<^sup>*\<^sup>* (Map.empty, w0) s" for s
    using that
  proof (induction rule: rtranclp_induct)
    case base
    show ?case by (simp add: uart_ok_def uart_ports_def)
  next
    case (step s s')
    then show ?case using uart_step_ok [OF assms(1,2)] by blast
  qed
  from this [OF assms(3)] have ok: "uart_ok (opened w0) opened (objs, w)" .
  moreover have "uart_ports objs = {}" if "\<forall>i. objs i \<in> {None, Some None}"
  proof -
    have "objs i \<noteq> Some (Some d)" for i d using that [rule_format, of i] by auto
    then show ?thesis by (simp add: uart_ports_def)
  qed
  ultimately show ?thesis unfolding uart_ok_def by auto
qed

text \<open>A program on the counted ports: an object is made, moved into another one, and the first is destroyed.\<close>

definition silent_os :: "int list os" where
  "silent_os = \<lparr>os_write = (\<lambda>_ _ w. (- 1, w)), os_read = (\<lambda>_ _ w. (Inl (), w)), os_now = (\<lambda>w. (0, w)), os_sleep_ms = (\<lambda>_ w. w)\<rparr>"

theorem python_objects_own_ports_witness:
  "\<exists>objs w. (uart_step counted_ops silent_os)\<^sup>*\<^sup>* (Map.empty, [7]) (objs, w) \<and> uart_ports objs \<noteq> {} \<and> set w = {7} \<union> uart_ports objs"
proof -
  define dev where "dev = \<lparr>dev_fd = 8, dev_timeout_ms = 1000\<rparr>"
  have "uart_new counted_ops ''/dev/ttyUSB0'' 115200 1000 [7] = (Inr (Some dev), [8, 7])"
    by (simp add: uart_new_def open_com_def counted_ops_def andThen_def dev_def)
  then have made: "uart_step counted_ops silent_os (Map.empty, [7]) ([0 \<mapsto> Some dev], [8, 7])"
    by (rule uart_step.made [rotated]) simp_all
  define objs where "objs = [0 \<mapsto> Some dev](0 \<mapsto> None, Suc 0 \<mapsto> Some dev)"
  have "uart_step counted_ops silent_os ([0 \<mapsto> Some dev], [8, 7]) (objs, [8, 7])"
    unfolding objs_def by (rule uart_step.moved [where dev = "Some dev"]) (simp_all add: uart_move_def)
  moreover have "uart_step counted_ops silent_os (objs, [8, 7]) (objs(0 := None), [8, 7])"
    by (rule uart_step.destroyed [where dev = None]) (simp_all add: objs_def uart_close_def)
  ultimately have steps: "(uart_step counted_ops silent_os)\<^sup>*\<^sup>* (Map.empty, [7]) (objs(0 := None), [8, 7])"
    using made by (meson converse_rtranclp_into_rtranclp rtranclp.rtrancl_refl)
  have "io_keeps_ports silent_os set" by (simp add: io_keeps_ports_def silent_os_def)
  from python_objects_own_ports [OF counted_laws this steps]
  have "set [8, 7] = {7} \<union> uart_ports (objs(0 := None))" by simp
  moreover from this have "uart_ports (objs(0 := None)) \<noteq> {}" by auto
  ultimately show ?thesis using steps by blast
qed

end
