(* ===== verification/LoadedPrograms.thy ===== *)
theory LoadedPrograms
  imports Launch
begin

text \<open>
  The program cache and the instruction memory of the device. The cache of \<open>minigpu::Context\<close> says which program
  lies where; the programs themselves lie in a memory that the runtime only writes. Here the device is seen through
  a record of views, the cache is \<open>coherent\<close> when every entry tells the truth, and loading and launching keep it so.
\<close>

section \<open>A device with an instruction memory\<close>

text \<open>
  A launch is a base program counter, a grid and a block size and a mask. \<open>dv_run\<close> is what the device computes: from
  the instructions, the launch, the constants and the data memory to the data memory at the end, or a fault. In the
  states \<open>dv_idle\<close> nothing is pending between host and device; the commands serve the addresses below \<open>dv_span\<close>; a
  wait with a time-out in \<open>dv_patient\<close> lasts until the program has ended.
\<close>

type_synonym launch = "u32 \<times> u32 \<times> u32 \<times> u32"

record 'd device_view =
  dv_instr :: "'d \<Rightarrow> nat \<Rightarrow> u8"
  dv_const :: "'d \<Rightarrow> nat \<Rightarrow> u8"
  dv_mem :: "'d \<Rightarrow> nat \<Rightarrow> u8"
  dv_started :: "'d \<Rightarrow> launch option"
  dv_run :: "(nat \<Rightarrow> u8) \<Rightarrow> launch \<Rightarrow> (nat \<Rightarrow> u8) \<Rightarrow> (nat \<Rightarrow> u8) \<Rightarrow> (nat \<Rightarrow> u8) option"
  dv_idle :: "'d \<Rightarrow> bool"
  dv_span :: nat
  dv_patient :: "u32 \<Rightarrow> bool"

text \<open>
  What the transport promises of such a device at rest, on every answer: it is at rest again. An upload changes only the range it is for, and
  has written all of it when the answer is \<open>Ok\<close>; validating and starting change no memory; a wait that is answered
  \<open>Ok\<close> has run what was started.
\<close>

definition same_memories :: "'d device_view \<Rightarrow> 'd \<Rightarrow> 'd \<Rightarrow> bool" where
  "same_memories dv d d' \<longleftrightarrow> dv_instr dv d' = dv_instr dv d \<and> dv_const dv d' = dv_const dv d \<and> dv_mem dv d' = dv_mem dv d"

definition program_law :: "'d transport \<Rightarrow> 'd device_view \<Rightarrow> bool" where
  "program_law tr dv \<longleftrightarrow>
     (\<forall>f a bs n d r d'. tr_write_program tr = Some f \<longrightarrow> dv_idle dv d \<longrightarrow> length bs = unat n \<longrightarrow> unat a + unat n \<le> dv_span dv \<longrightarrow>
        f a (Some bs) n d = (r, d') \<longrightarrow>
        dv_idle dv d' \<and> dv_const dv d' = dv_const dv d \<and> dv_mem dv d' = dv_mem dv d
        \<and> (\<forall>i. i < unat a \<or> unat a + unat n \<le> i \<longrightarrow> dv_instr dv d' i = dv_instr dv d i)
        \<and> (r = Inr Ok \<longrightarrow> dv_instr dv d' = store (unat a) bs (dv_instr dv d)))"

definition validate_law :: "'d transport \<Rightarrow> 'd device_view \<Rightarrow> bool" where
  "validate_law tr dv \<longleftrightarrow>
     (\<forall>f k d r d'. tr_validate_kernel tr = Some f \<longrightarrow> dv_idle dv d \<longrightarrow> f k d = (r, d') \<longrightarrow> dv_idle dv d' \<and> same_memories dv d d')"

definition constants_law :: "'d transport \<Rightarrow> 'd device_view \<Rightarrow> bool" where
  "constants_law tr dv \<longleftrightarrow>
     (\<forall>f a bs n d r d'. tr_write_constants tr = Some f \<longrightarrow> dv_idle dv d \<longrightarrow> length bs = unat n \<longrightarrow> unat a + unat n \<le> dv_span dv \<longrightarrow>
        f a (Some bs) n d = (r, d') \<longrightarrow>
        dv_idle dv d' \<and> dv_instr dv d' = dv_instr dv d \<and> dv_mem dv d' = dv_mem dv d
        \<and> (r = Inr Ok \<longrightarrow> dv_const dv d' = store (unat a) bs (dv_const dv d)))"

definition launch_law :: "'d transport \<Rightarrow> 'd device_view \<Rightarrow> bool" where
  "launch_law tr dv \<longleftrightarrow>
     (\<forall>f pc grid block mask d r d'. tr_launch tr = Some f \<longrightarrow> dv_idle dv d \<longrightarrow> f pc grid block mask d = (r, d') \<longrightarrow>
        dv_idle dv d' \<and> same_memories dv d d' \<and> (r = Inr Ok \<longrightarrow> dv_started dv d' = Some (pc, grid, block, mask)))"

text \<open>The last law needs a \<open>wait\<close> callback: without one \<open>launch_kernel\<close> returns while the device still runs.\<close>

definition wait_law :: "'d transport \<Rightarrow> 'd device_view \<Rightarrow> bool" where
  "wait_law tr dv \<longleftrightarrow> (\<exists>f. tr_wait tr = Some f \<and>
     (\<forall>t d r d'. dv_idle dv d \<longrightarrow> f t d = (r, d') \<longrightarrow>
        dv_idle dv d' \<and> dv_instr dv d' = dv_instr dv d \<and> dv_const dv d' = dv_const dv d
        \<and> (\<forall>l. r = Inr Ok \<longrightarrow> dv_started dv d = Some l \<longrightarrow>
             dv_run dv (dv_instr dv d) l (dv_const dv d) (dv_mem dv d) = Some (dv_mem dv d'))))"

definition runs_programs :: "'d transport \<Rightarrow> 'd device_view \<Rightarrow> bool" where
  "runs_programs tr dv \<longleftrightarrow> dv_span dv \<le> 2 ^ 32 \<and> program_law tr dv \<and> validate_law tr dv \<and> constants_law tr dv \<and> launch_law tr dv \<and> wait_law tr dv"

section \<open>Coherence\<close>

text \<open>Every registered kernel has an image of the announced size, and kernels that share a program name share it.\<close>

definition registry_ok :: "'d gpu_context \<Rightarrow> bool" where
  "registry_ok c \<longleftrightarrow>
     (\<forall>pk \<in> set (ctx_kernels c). \<exists>bs n. kernel_image pk = (Some bs, n) \<and> length bs = unat n)
   \<and> (\<forall>pk \<in> set (ctx_kernels c). \<forall>pk' \<in> set (ctx_kernels c). cache_name pk = cache_name pk' \<longrightarrow> kernel_image pk = kernel_image pk')"

text \<open>A program lies at an address of instruction memory.\<close>

definition resident :: "(nat \<Rightarrow> u8) \<Rightarrow> u32 \<Rightarrow> precompiled_kernel \<Rightarrow> bool" where
  "resident instr addr pk \<longleftrightarrow> (\<exists>bs n. kernel_image pk = (Some bs, n) \<and> length bs = unat n \<and> load (unat addr) (length bs) instr = bs)"

text \<open>The device is at rest, its instruction memory covers the one the runtime hands out, and every entry tells the truth.\<close>

definition coherent :: "'d device_view \<Rightarrow> 'd gpu_context \<Rightarrow> 'd \<Rightarrow> bool" where
  "coherent dv c d \<longleftrightarrow> dv_idle dv d \<and> unat (ctx_program_memory_size c) \<le> dv_span dv \<and>
    (\<forall>e \<in> set (ctx_program_cache c). \<forall>pk \<in> set (ctx_kernels c). cache_name pk = ce_name e \<longrightarrow>
     snd (kernel_image pk) = ce_size e \<and> resident (dv_instr dv d) (ce_addr e) pk)"

lemma coherent_rest: "coherent dv c d \<Longrightarrow> dv_idle dv d \<and> unat (ctx_program_memory_size c) \<le> dv_span dv"
  by (simp add: coherent_def)

lemma coherentD:
  assumes "coherent dv c d" and "e \<in> set (ctx_program_cache c)" and "pk \<in> set (ctx_kernels c)" and "cache_name pk = ce_name e"
  shows "snd (kernel_image pk) = ce_size e" and "resident (dv_instr dv d) (ce_addr e) pk"
  using assms unfolding coherent_def by blast+

text \<open>A program stays where its slot was not written to.\<close>

lemma resident_kept:
  assumes "resident instr addr pk" and "\<And>i. unat addr \<le> i \<Longrightarrow> i < unat addr + unat (snd (kernel_image pk)) \<Longrightarrow> instr' i = instr i"
  shows "resident instr' addr pk"
proof -
  obtain bs n where img: "kernel_image pk = (Some bs, n)" "length bs = unat n" "load (unat addr) (length bs) instr = bs"
    using assms(1) unfolding resident_def by blast
  have "load (unat addr) (length bs) instr' = load (unat addr) (length bs) instr"
    unfolding load_def using assms(2) img(1,2) by simp
  then show ?thesis using img unfolding resident_def by auto
qed

lemma coherent_mono:
  assumes "coherent dv c d" and "ctx_kernels c' = ctx_kernels c" and "ctx_program_memory_size c' = ctx_program_memory_size c"
    and "dv_idle dv d'"
    and "\<And>e. e \<in> set (ctx_program_cache c') \<Longrightarrow>
      \<exists>e0 \<in> set (ctx_program_cache c). ce_name e0 = ce_name e \<and> ce_addr e0 = ce_addr e \<and> ce_size e0 = ce_size e"
    and "\<And>e i. e \<in> set (ctx_program_cache c') \<Longrightarrow> unat (ce_addr e) \<le> i \<Longrightarrow> i < unat (ce_addr e) + unat (ce_size e)
      \<Longrightarrow> dv_instr dv d' i = dv_instr dv d i"
  shows "coherent dv c' d'"
  unfolding coherent_def
proof (intro conjI [OF _ conjI] ballI impI)
  show "dv_idle dv d'" by (rule assms(4))
  show "unat (ctx_program_memory_size c') \<le> dv_span dv" using coherent_rest [OF assms(1)] assms(3) by simp
next
  fix e pk assume e: "e \<in> set (ctx_program_cache c')" and pk: "pk \<in> set (ctx_kernels c')" "cache_name pk = ce_name e"
  obtain e0 where e0: "e0 \<in> set (ctx_program_cache c)" "ce_name e0 = ce_name e" "ce_addr e0 = ce_addr e" "ce_size e0 = ce_size e"
    using assms(5) [OF e] by blast
  have r: "snd (kernel_image pk) = ce_size e" "resident (dv_instr dv d) (ce_addr e) pk"
    using coherentD [OF assms(1) e0(1), of pk] pk e0 assms(2) by simp_all
  then show "snd (kernel_image pk) = ce_size e \<and> resident (dv_instr dv d') (ce_addr e) pk"
    using resident_kept [OF r(2), of "dv_instr dv d'"] assms(6) [OF e] by simp
qed

lemma coherent_log [simp]: "coherent dv (log_event l c) d = coherent dv c d" "registry_ok (log_event l c) = registry_ok c"
  by (simp_all add: coherent_def registry_ok_def)

lemma coherent_same: "coherent dv c d \<Longrightarrow> dv_instr dv d' = dv_instr dv d \<Longrightarrow> dv_idle dv d' \<Longrightarrow> coherent dv c d'"
  by (simp add: coherent_def)

lemma registry_same: "ctx_kernels c' = ctx_kernels c \<Longrightarrow> registry_ok c' = registry_ok c"
  by (simp add: registry_ok_def)

section \<open>Uploads\<close>

lemma upload_effect:
  assumes "runs_programs (ctx_transport c) dv" and "dv_idle dv d" and "unat a + unat n \<le> dv_span dv"
    and "length bs = unat n" and "write_program a (Some bs) n (c, d) = (r, (c', d'))"
  shows "dv_idle dv d'" and "dv_const dv d' = dv_const dv d" "dv_mem dv d' = dv_mem dv d"
    and "i < unat a \<or> unat a + unat n \<le> i \<Longrightarrow> dv_instr dv d' i = dv_instr dv d i"
    and "r = Inr () \<Longrightarrow> dv_instr dv d' = store (unat a) bs (dv_instr dv d)"
proof -
  have "dv_idle dv d' \<and> dv_const dv d' = dv_const dv d \<and> dv_mem dv d' = dv_mem dv d
    \<and> (\<forall>i. i < unat a \<or> unat a + unat n \<le> i \<longrightarrow> dv_instr dv d' i = dv_instr dv d i)
    \<and> (r = Inr () \<longrightarrow> dv_instr dv d' = store (unat a) bs (dv_instr dv d))"
  proof (cases "n = 0 \<or> tr_write_program (ctx_transport c) = None")
    case True
    then show ?thesis using assms by (auto simp: write_program_def split: if_splits option.splits)
  next
    case False
    then obtain f where f: "tr_write_program (ctx_transport c) = Some f" by blast
    obtain st where "f a (Some bs) n d = (st, d')" "r = Inr () \<longrightarrow> st = Inr Ok"
      using assms(5) False f by (auto simp: write_program_def Let_def split: prod.splits sum.splits if_splits)
    moreover have "program_law (ctx_transport c) dv" using assms(1) by (simp add: runs_programs_def)
    ultimately show ?thesis using assms(2-4) f unfolding program_law_def by blast
  qed
  then show "dv_idle dv d'" "dv_const dv d' = dv_const dv d" "dv_mem dv d' = dv_mem dv d"
    "i < unat a \<or> unat a + unat n \<le> i \<Longrightarrow> dv_instr dv d' i = dv_instr dv d i"
    "r = Inr () \<Longrightarrow> dv_instr dv d' = store (unat a) bs (dv_instr dv d)" by blast+
qed

lemma validate_effect:
  assumes "runs_programs (ctx_transport c) dv" and "dv_idle dv d" and "validate_loaded k (c, d) = (r, (c', d'))"
  shows "same_memories dv d d'" "c' = c" "dv_idle dv d'"
proof -
  show "c' = c" by (rule validate_loaded_context [OF assms(3)])
  have "same_memories dv d d' \<and> dv_idle dv d'"
  proof (cases "tr_validate_kernel (ctx_transport c)")
    case None
    then show ?thesis using assms(2,3) by (simp add: validate_loaded_def same_memories_def)
  next
    case (Some f)
    then obtain st where "f k d = (st, d')"
      using assms(3) by (auto simp: validate_loaded_def split: prod.splits sum.splits if_splits)
    moreover have "validate_law (ctx_transport c) dv" using assms(1) by (simp add: runs_programs_def)
    ultimately show ?thesis using Some assms(2) unfolding validate_law_def by blast
  qed
  then show "same_memories dv d d'" "dv_idle dv d'" by simp_all
qed

section \<open>Loading\<close>

text \<open>A slot that was just taken meets no slot of the cache.\<close>

lemma fresh_slot_apart:
  assumes "prog_ok c" and "allocate_program_slot name sz c = (Inr addr, c1)" and "e \<in> set (ctx_program_cache c1)"
    and "unat (ce_addr e) \<le> i" and "i < unat (ce_addr e) + unat (ce_size e)"
  shows "i < unat addr \<or> unat addr + unat sz \<le> i"
proof -
  note a = allocate_program_slot_frame [OF assms(1,2)]
  have slot: "(unat addr, unat sz) \<in> leaked c1" using a(5) [OF refl] by simp
  then have live: "(unat addr, unat sz) \<in> live (ctx_program_blocks c1)" and "(unat addr, unat sz) \<notin> slots c1"
    by (simp_all add: leaked_def)
  moreover have e: "slot_of e \<in> slots c1" using assms(3) by (simp add: slots_def)
  ultimately have "slot_of e \<noteq> (unat addr, unat sz)" by auto
  moreover have "slot_of e \<in> live (ctx_program_blocks c1)" "tiles 0 (ctx_program_blocks c1) (unat (ctx_program_memory_size c1))"
    using a(1) e by (auto simp: prog_ok_def)
  ultimately have "\<not> overlaps (slot_of e) (unat addr, unat sz)" using live live_disjoint by blast
  then show ?thesis using assms(4,5) by (auto simp: overlaps_def slot_of_def)
qed

lemma slot_inside:
  assumes "prog_ok c" and "allocate_program_slot name sz c = (Inr addr, c1)"
  shows "unat addr + unat sz \<le> unat (ctx_program_memory_size c1)"
proof -
  note a = allocate_program_slot_frame [OF assms]
  have "(unat addr, unat sz) \<in> live (ctx_program_blocks c1)" using a(5) [OF refl] by (auto simp: leaked_def)
  then show ?thesis using live_bounds a(1) by (fastforce simp: prog_ok_def)
qed

lemma load_keeps_coherent:
  assumes ok: "prog_ok c" and dev: "runs_programs (ctx_transport c) dv" and reg: "registry_ok c" and coh: "coherent dv c d"
    and pk: "pk \<in> set (ctx_kernels c)" and run: "ensure_program_loaded pk kid (c, d) = (r, (c', d'))"
  shows "coherent dv c' d'" and "dv_mem dv d' = dv_mem dv d" and "dv_const dv d' = dv_const dv d"
    and "r = Inr addr \<Longrightarrow> resident (dv_instr dv d') addr pk"
proof -
  obtain bs n where img: "kernel_image pk = (Some bs, n)" "length bs = unat n" using reg pk unfolding registry_ok_def by blast
  have "coherent dv c' d' \<and> dv_mem dv d' = dv_mem dv d \<and> dv_const dv d' = dv_const dv d
    \<and> (\<forall>addr. r = Inr addr \<longrightarrow> resident (dv_instr dv d') addr pk)"
  proof (cases "touch_entry (cache_name pk) (ctx_program_cache_clock c + 1) (ctx_program_cache c)")
    case (Some h)
    then obtain addr es where h: "touch_entry (cache_name pk) (ctx_program_cache_clock c + 1) (ctx_program_cache c) = Some (addr, es)"
      by (cases h) simp
    obtain pre e post where es: "ctx_program_cache c = pre @ e # post" "ce_name e = cache_name pk" "ce_addr e = addr"
      "es = pre @ e\<lparr>ce_last_used := ctx_program_cache_clock c + 1\<rparr> # post"
      using touch_entry_Some [OF h] by blast
    have res: "r = Inr addr" "d' = d" "c' = cache_hit es c"
      using run h by (auto simp: ensure_program_loaded_def cache_hit_def split: prod.splits)
    have "resident (dv_instr dv d) addr pk" using coherentD(2) [OF coh _ pk, of e] es by simp
    moreover have "coherent dv c' d'"
      by (rule coherent_mono [OF coh]) (use es res coherent_rest [OF coh] in \<open>auto simp: cache_hit_def\<close>)
    ultimately show ?thesis using res by simp
  next
    case None
    have rest: "dv_idle dv d" "unat (ctx_program_memory_size c) \<le> dv_span dv" using coherent_rest [OF coh] by simp_all
    from None have miss: "cache_name pk \<notin> ce_name ` set (ctx_program_cache c)" by (simp add: touch_entry_None)
    show ?thesis
    proof (cases "n = 0")
      case True
      then have "r = Inl (error BadArgument)" "c' = c" "d' = d"
        using run None img by (simp_all add: ensure_program_loaded_def)
      then show ?thesis using coh by simp
    next
      case False
      obtain r1 c1 where alloc: "allocate_program_slot (cache_name pk) n c = (r1, c1)" by force
      note a = allocate_program_slot_frame [OF ok alloc]
      have kernels: "ctx_kernels c1 = ctx_kernels c" "ctx_transport c1 = ctx_transport c"
        "ctx_program_memory_size c1 = ctx_program_memory_size c" using a(2) by (simp_all add: cache_only_def)
      have sub: "set (ctx_program_cache c1) \<subseteq> set (ctx_program_cache c)" using a(3) by (simp add: lru_subset_def)
      show ?thesis
      proof (cases r1)
        case (Inl e)
        then have res: "r = Inl e" "c' = c1" "d' = d"
          using run None img False alloc by (simp_all add: ensure_program_loaded_def andThen_def on_context_def)
        have "coherent dv c1 d" by (rule coherent_mono [OF coh kernels(1,3) rest(1)]) (use sub in auto)
        then show ?thesis using res by simp
      next
        case (Inr addr)
        obtain r2 c2 d2 where w: "write_program addr (Some bs) n (c1, d) = (r2, (c2, d2))" by (metis prod.exhaust)
        have dev1: "runs_programs (ctx_transport c1) dv" using dev kernels by simp
        have inside: "unat addr + unat n \<le> dv_span dv"
          using slot_inside [OF ok alloc [unfolded Inr]] rest(2) kernels(3) by simp
        note up = upload_effect [OF dev1 rest(1) inside img(2) w]
        have c2: "c2 = c1 \<or> (\<exists>l. c2 = log_event l c1)" by (rule write_program_context [OF w])
        have same: "ctx_program_cache c2 = ctx_program_cache c1" "ctx_kernels c2 = ctx_kernels c1" "ctx_transport c2 = ctx_transport c1"
          "ctx_program_memory_size c2 = ctx_program_memory_size c1"
          using c2 by auto
        have coh2: "coherent dv c2 d2"
        proof (rule coherent_mono [OF coh])
          fix e i assume "e \<in> set (ctx_program_cache c2)" "unat (ce_addr e) \<le> i" "i < unat (ce_addr e) + unat (ce_size e)"
          then show "dv_instr dv d2 i = dv_instr dv d i"
            using up(4) fresh_slot_apart [OF ok alloc [unfolded Inr], of e i] same(1) by simp
        qed (use same kernels sub up(1) in auto)
        obtain r3 c3 d3 where v: "validate_loaded kid (c2, d2) = (r3, (c3, d3))" by (metis prod.exhaust)
        have val: "same_memories dv d2 d3" "c3 = c2" "dv_idle dv d3" using validate_effect [OF _ up(1) v] dev1 same(3) by simp_all
        have coh3: "coherent dv c2 d3" using coherent_same [OF coh2] val(1,3) by (simp add: same_memories_def)
        consider (w) e where "r2 = Inl e" | (v) e where "r2 = Inr ()" "r3 = Inl e" | (ok) "r2 = Inr ()" "r3 = Inr ()"
          by (cases r2; cases r3) auto
        then show ?thesis
        proof cases
          case (w e)
          then have "r = Inl e" "c' = c2" "d' = d2"
            using run None img False alloc Inr \<open>write_program _ _ _ _ = _\<close>
            by (simp_all add: ensure_program_loaded_def andThen_def on_context_def)
          then show ?thesis using coh2 up(2,3) by simp
        next
          case (v e)
          then have "r = Inl e" "c' = c2" "d' = d3"
            using run None img False alloc Inr w \<open>validate_loaded _ _ = _\<close> val(2)
            by (simp_all add: ensure_program_loaded_def andThen_def on_context_def)
          then show ?thesis using coh3 up(2,3) val(1) by (simp add: same_memories_def)
        next
          case ok
          then have res: "r = Inr addr" "c' = cache_insert (cache_name pk) addr n c2" "d' = d3"
            using run None img False alloc Inr w v val(2)
            by (simp_all add: ensure_program_loaded_def andThen_def on_context_def)
          have instr: "dv_instr dv d3 = store (unat addr) bs (dv_instr dv d)"
            using up(5) ok(1) val(1) by (simp add: same_memories_def)
          have here: "resident (dv_instr dv d3) addr pk" unfolding resident_def using img instr load_store_same by metis
          have "resident (dv_instr dv d3) addr pk'" "snd (kernel_image pk') = n"
            if "pk' \<in> set (ctx_kernels c)" "cache_name pk' = cache_name pk" for pk'
          proof -
            have "kernel_image pk' = kernel_image pk" using reg that pk unfolding registry_ok_def by blast
            then show "resident (dv_instr dv d3) addr pk'" "snd (kernel_image pk') = n"
              using here img(1) unfolding resident_def by (metis, simp)
          qed
          then have "coherent dv c' d3"
            using coh3 same(2) kernels(1) unfolding res(2) coherent_def by (simp add: cache_insert_def)
          then show ?thesis using res here up(2,3) val(1) by (simp add: same_memories_def)
        qed
      qed
    qed
  qed
  then show "coherent dv c' d'" "dv_mem dv d' = dv_mem dv d" "dv_const dv d' = dv_const dv d"
    "r = Inr addr \<Longrightarrow> resident (dv_instr dv d') addr pk" by blast+
qed

section \<open>Launching\<close>

text \<open>Contexts that differ in their logs only.\<close>

definition only_logs :: "'d gpu_context \<Rightarrow> 'd gpu_context \<Rightarrow> bool" where
  "only_logs c c' \<longleftrightarrow> (\<exists>ls. c' = fold log_event ls c)"

lemma only_logs_refl [simp]: "only_logs c c"
  unfolding only_logs_def by (rule exI [of _ "[]"]) simp

lemma only_logs_event [simp]: "only_logs c c' \<Longrightarrow> only_logs c (log_event l c')"
  unfolding only_logs_def by (metis fold_append comp_apply fold_simps)

lemma only_logs_trans: "only_logs c c1 \<Longrightarrow> only_logs c1 c2 \<Longrightarrow> only_logs c c2"
  unfolding only_logs_def by (metis fold_append comp_apply)

lemma only_logs_frame:
  assumes "only_logs c c'"
  shows "prog_ok c' = prog_ok c" "coherent dv c' d = coherent dv c d" "registry_ok c' = registry_ok c"
    "ctx_transport c' = ctx_transport c" "cache_only c0 c' = cache_only c0 c" "ctx_compiler_spill_base c' = ctx_compiler_spill_base c"
    "leaked c' = leaked c"
proof -
  obtain ls where ls: "c' = fold log_event ls c" using assms unfolding only_logs_def by blast
  show "prog_ok c' = prog_ok c" "coherent dv c' d = coherent dv c d" "registry_ok c' = registry_ok c"
    "ctx_transport c' = ctx_transport c" "cache_only c0 c' = cache_only c0 c" "ctx_compiler_spill_base c' = ctx_compiler_spill_base c"
    "leaked c' = leaked c"
    unfolding ls by (induction ls arbitrary: c) simp_all
qed

lemma constants_effect:
  assumes "runs_programs (ctx_transport c) dv" and "dv_idle dv d" and "unat a + unat n \<le> dv_span dv"
    and "length bs = unat n" and "n \<noteq> 0" and "write_constants a (Some bs) n (c, d) = (r, (c', d'))"
  shows "dv_idle dv d'" "dv_instr dv d' = dv_instr dv d" "dv_mem dv d' = dv_mem dv d"
    and "r = Inr () \<Longrightarrow> dv_const dv d' = store (unat a) bs (dv_const dv d)"
proof -
  have "dv_idle dv d' \<and> dv_instr dv d' = dv_instr dv d \<and> dv_mem dv d' = dv_mem dv d \<and> (r = Inr () \<longrightarrow> dv_const dv d' = store (unat a) bs (dv_const dv d))"
  proof (cases "tr_write_constants (ctx_transport c)")
    case None
    then show ?thesis using assms(2,5,6) by (auto simp: write_constants_def)
  next
    case (Some f)
    then obtain st where "f a (Some bs) n d = (st, d')" "r = Inr () \<longrightarrow> st = Inr Ok"
      using assms(5,6) by (auto simp: write_constants_def Let_def split: prod.splits sum.splits if_splits)
    moreover have "constants_law (ctx_transport c) dv" using assms(1) by (simp add: runs_programs_def)
    ultimately show ?thesis using assms(2-4) Some unfolding constants_law_def by blast
  qed
  then show "dv_idle dv d'" "dv_instr dv d' = dv_instr dv d" "dv_mem dv d' = dv_mem dv d"
    "r = Inr () \<Longrightarrow> dv_const dv d' = store (unat a) bs (dv_const dv d)" by blast+
qed

text \<open>The start and the wait: when both are answered \<open>Ok\<close>, the launch has run.\<close>

lemma start_wait_effect:
  assumes dev: "runs_programs (ctx_transport c) dv" and rest: "dv_idle dv d"
    and run: "andThen (start_kernel k) (\<lambda>_. wait_kernel t) (c, d) = (r, (c', d'))"
  shows "dv_idle dv d'" "dv_instr dv d' = dv_instr dv d" "dv_const dv d' = dv_const dv d"
    and "only_logs c c'"
    and "r = Inr () \<Longrightarrow> dv_run dv (dv_instr dv d) (kn_base_pc k, kn_grid_dim k, kn_block_dim k, kn_active_mask k) (dv_const dv d) (dv_mem dv d)
      = Some (dv_mem dv d')"
proof -
  let ?l = "(kn_base_pc k, kn_grid_dim k, kn_block_dim k, kn_active_mask k)"
  have laws: "launch_law (ctx_transport c) dv" "wait_law (ctx_transport c) dv" using dev by (simp_all add: runs_programs_def)
  have "dv_idle dv d' \<and> dv_instr dv d' = dv_instr dv d \<and> dv_const dv d' = dv_const dv d
    \<and> only_logs c c'
    \<and> (r = Inr () \<longrightarrow> dv_run dv (dv_instr dv d) ?l (dv_const dv d) (dv_mem dv d) = Some (dv_mem dv d'))"
  proof (cases "tr_launch (ctx_transport c)")
    case None
    then show ?thesis using run rest by (auto simp: start_kernel_def andThen_def)
  next
    case (Some f)
    obtain st1 d1 where st1: "f (kn_base_pc k) (kn_grid_dim k) (kn_block_dim k) (kn_active_mask k) d = (st1, d1)" by force
    have same: "same_memories dv d d1" "st1 = Inr Ok \<longrightarrow> dv_started dv d1 = Some ?l" "dv_idle dv d1"
      using laws(1) Some st1 rest unfolding launch_law_def by blast+
    obtain e where start: "start_kernel k (c, d) = (case st1 of Inl x \<Rightarrow> (Inl x, (log_event e c, d1)) | Inr st \<Rightarrow> check st (log_event e c, d1))"
      using Some st1 by (simp add: start_kernel_def Let_def)
    show ?thesis
    proof (cases "st1 = Inr Ok")
      case False
      then have "c' = log_event e c" "d' = d1" "r \<noteq> Inr ()"
        using run start by (auto simp: andThen_def split: sum.splits if_splits)
      then show ?thesis using same(1,3) by (auto simp: same_memories_def)
    next
      case True
      obtain g where g: "tr_wait (ctx_transport c) = Some g" using laws(2) unfolding wait_law_def by blast
      obtain st2 d2 where st2: "g t d1 = (st2, d2)" by force
      have eff: "dv_idle dv d2" "dv_instr dv d2 = dv_instr dv d1" "dv_const dv d2 = dv_const dv d1"
        "st2 = Inr Ok \<longrightarrow> dv_run dv (dv_instr dv d1) ?l (dv_const dv d1) (dv_mem dv d1) = Some (dv_mem dv d2)"
        using laws(2) g st2 same(2,3) True unfolding wait_law_def by auto
      have "d' = d2" "c' \<in> {log_event ''wait begin'' (log_event e c), log_event ''wait done'' (log_event ''wait begin'' (log_event e c))}"
        "r = Inr () \<longrightarrow> st2 = Inr Ok"
        using run start True g st2
        by (auto simp: andThen_def wait_kernel_def log_line_def Let_def split: sum.splits if_splits)
      then show ?thesis using eff same(1) by (auto simp: same_memories_def)
    qed
  qed
  then show "dv_idle dv d'" "dv_instr dv d' = dv_instr dv d" "dv_const dv d' = dv_const dv d"
    "only_logs c c'"
    "r = Inr () \<Longrightarrow> dv_run dv (dv_instr dv d) ?l (dv_const dv d) (dv_mem dv d) = Some (dv_mem dv d')" by blast+
qed

text \<open>A launch by name: what it loads, what it hands over, and what the device then has run.\<close>

lemma length_constants_table: "length (constants_table args b) = max 33 (length args)"
  by (simp add: constants_table_def Let_def)

lemma length_words [simp]: "length (concat (map word_bytes ws)) = 4 * length ws"
  by (induction ws) (simp_all add: word_bytes_def)

definition constant_bytes :: "kernel_arg list \<Rightarrow> u32 \<Rightarrow> bytes" where
  "constant_bytes args spill_base = concat (map word_bytes (constants_table args spill_base))"

definition launch_of :: "precompiled_kernel \<Rightarrow> launch_config option \<Rightarrow> u32 \<Rightarrow> launch" where
  "launch_of pk config addr =
     (let l = (case config of None \<Rightarrow> kernel_defaults pk | Some l \<Rightarrow> l)
      in (narrow (widen addr div 4 + widen (pk_entry_pc pk)), lc_grid_dim l, lc_block_dim l, lc_active_mask l))"

text \<open>The constants table is made of at least 33 words; the device must serve their addresses.\<close>

definition table_fits :: "'d device_view \<Rightarrow> kernel_arg list \<Rightarrow> bool" where
  "table_fits dv args \<longleftrightarrow> 4 * max 33 (length args) \<le> dv_span dv"

lemma table_fits_length: "table_fits dv args \<Longrightarrow> runs_programs tr dv \<Longrightarrow> length args < 2 ^ 32"
  by (auto simp: table_fits_def runs_programs_def max_def split: if_splits)

lemma launch_table:
  assumes args: "length args < 2 ^ 32"
  shows "constants_table args b \<noteq> []"
    and "kn_constants_size (launch_descriptor pk kid (constants_table args b) l addr) \<noteq> 0"
    and "kn_constants (launch_descriptor pk kid (constants_table args b) l addr) = Some (constant_bytes args b)"
    and "length (constant_bytes args b) = unat (kn_constants_size (launch_descriptor pk kid (constants_table args b) l addr))"
proof -
  show "constants_table args b \<noteq> []" "kn_constants_size (launch_descriptor pk kid (constants_table args b) l addr) \<noteq> 0"
    using constants_nonempty [OF args] by (simp_all add: launch_descriptor_def)
  then show "kn_constants (launch_descriptor pk kid (constants_table args b) l addr) = Some (constant_bytes args b)"
    by (simp add: launch_descriptor_def constant_bytes_def)
  have "max 33 (length args) * 4 < 2 ^ 64" using args by simp
  then show "length (constant_bytes args b) = unat (kn_constants_size (launch_descriptor pk kid (constants_table args b) l addr))"
    by (simp add: launch_descriptor_def constant_bytes_def length_constants_table unat_word_ariths unat_of_nat)
qed

lemma launch_effect:
  assumes ok: "prog_ok c" and dev: "runs_programs (ctx_transport c) dv" and reg: "registry_ok c" and coh: "coherent dv c d"
    and found: "find_kernel name c = Some pk" "ids name = Some kid" and fits: "table_fits dv args"
    and run: "launch_kernel ids name args config (c, d) = (r, (c', d'))"
  shows "prog_ok c'" and "coherent dv c' d'" and "registry_ok c'" and "cache_only c c'"
    and "only_logs (fst (snd (ensure_program_loaded pk kid (c, d)))) c'"
    and "r = Inr () \<Longrightarrow> \<exists>addr. resident (dv_instr dv d') addr pk
      \<and> load 0 (length (constant_bytes args (ctx_compiler_spill_base c))) (dv_const dv d') = constant_bytes args (ctx_compiler_spill_base c)
      \<and> dv_run dv (dv_instr dv d') (launch_of pk config addr) (dv_const dv d') (dv_mem dv d) = Some (dv_mem dv d')"
proof -
  let ?bs = "constant_bytes args (ctx_compiler_spill_base c)" and ?table = "constants_table args (ctx_compiler_spill_base c)"
  have args: "length args < 2 ^ 32" using table_fits_length [OF fits dev] .
  have pk: "pk \<in> set (ctx_kernels c)" using found(1) unfolding find_kernel_def find_Some_iff by auto
  obtain r1 c1 d1 where load: "ensure_program_loaded pk kid (c, d) = (r1, (c1, d1))" by (metis prod.exhaust)
  note co = load_keeps_coherent [OF ok dev reg coh pk load]
  have frame: "prog_ok c1" "cache_only c c1" using ensure_program_loaded_frame [OF ok load] by simp_all
  then have same: "ctx_transport c1 = ctx_transport c" "ctx_kernels c1 = ctx_kernels c" by (simp_all add: cache_only_def)
  have reg1: "registry_ok c1" using reg registry_same [OF same(2)] by simp
  have "prog_ok c' \<and> coherent dv c' d' \<and> registry_ok c' \<and> cache_only c c' \<and> only_logs c1 c' \<and> (r = Inr () \<longrightarrow> (\<exists>addr. resident (dv_instr dv d') addr pk
      \<and> load 0 (length ?bs) (dv_const dv d') = ?bs
      \<and> dv_run dv (dv_instr dv d') (launch_of pk config addr) (dv_const dv d') (dv_mem dv d) = Some (dv_mem dv d')))"
  proof (cases r1)
    case (Inl e)
    then have "r = Inl e" "c' = c1" "d' = d1" using run found load by (simp_all add: launch_kernel_def andThen_def)
    then show ?thesis using co(1) frame reg1 by simp
  next
    case (Inr addr)
    let ?k = "launch_descriptor pk kid ?table (case config of None \<Rightarrow> kernel_defaults pk | Some l \<Rightarrow> l) addr"
    let ?c2 = "log_event (launch_log name args) c1"
    have table: "?table \<noteq> []" "kn_constants_size ?k \<noteq> 0" "kn_constants ?k = Some ?bs" "length ?bs = unat (kn_constants_size ?k)"
      by (rule launch_table [OF args])+
    obtain r2 c3 d3 where w: "write_constants 0 (Some ?bs) (kn_constants_size ?k) (?c2, d1) = (r2, (c3, d3))" by (metis prod.exhaust)
    have c3: "only_logs c1 c3" using write_constants_context [OF w] by auto
    have dev3: "runs_programs (ctx_transport c3) dv" "runs_programs (ctx_transport ?c2) dv"
      using dev same(1) only_logs_frame(4) [OF c3] by simp_all
    have span: "unat (0 :: u32) + unat (kn_constants_size ?k) \<le> dv_span dv"
      using fits table(4) by (simp add: table_fits_def constant_bytes_def length_constants_table)
    note ce = constants_effect [OF dev3(2) _ span table(4,2) w]
    have rest: "dv_idle dv d1" using coherent_rest [OF co(1)] by simp
    note ce = ce [OF rest]
    have desc: "launch_desc ?k (?c2, d1) = (case r2 of Inl e \<Rightarrow> (Inl e, (c3, d3))
        | Inr _ \<Rightarrow> andThen (start_kernel ?k) (\<lambda>_. wait_kernel (kn_timeout_ms ?k)) (c3, d3))"
      using w table by (simp add: launch_desc_def andThen_def launch_descriptor_def split: sum.splits)
    have whole: "(r, (c', d')) = launch_desc ?k (?c2, d1)"
      using run found load Inr by (simp add: launch_kernel_def andThen_def log_line_def Let_def)
    have coh3: "coherent dv c3 d3"
      using coherent_same [OF co(1) ce(2,1)] only_logs_frame(2) [OF c3] by simp
    show ?thesis
    proof (cases r2)
      case (Inl e)
      then have "r = Inl e" "c' = c3" "d' = d3" using whole desc by simp_all
      then show ?thesis using coh3 c3 only_logs_frame [OF c3] frame reg1 by simp
    next
      case (Inr u)
      then have "andThen (start_kernel ?k) (\<lambda>_. wait_kernel (kn_timeout_ms ?k)) (c3, d3) = (r, (c', d'))" using whole desc by simp
      note se = start_wait_effect [OF dev3(1) ce(1) this]
      have "coherent dv c' d'"
        using coherent_same [OF coh3 se(2,1)] only_logs_frame(2) [OF se(4)] by simp
      moreover have "dv_run dv (dv_instr dv d') (launch_of pk config addr) (dv_const dv d') (dv_mem dv d) = Some (dv_mem dv d')" if "r = Inr ()"
        using se(5) [OF that] se(2,3) ce(3) co(2) by (simp add: launch_descriptor_def launch_of_def Let_def)
      moreover have "resident (dv_instr dv d') addr pk" using co(4) [OF \<open>r1 = Inr addr\<close>] ce(2) se(2) by simp
      moreover have "load 0 (length ?bs) (dv_const dv d') = ?bs"
        using ce(4) Inr se(3) by simp
      ultimately show ?thesis
        using only_logs_frame [OF c3] only_logs_frame [OF se(4)] only_logs_trans [OF c3 se(4)] frame reg1 by auto
    qed
  qed
  then show "prog_ok c'" "coherent dv c' d'" "registry_ok c'" "cache_only c c'"
    "only_logs (fst (snd (ensure_program_loaded pk kid (c, d)))) c'"
    "r = Inr () \<Longrightarrow> \<exists>addr. resident (dv_instr dv d') addr pk \<and> load 0 (length ?bs) (dv_const dv d') = ?bs
      \<and> dv_run dv (dv_instr dv d') (launch_of pk config addr) (dv_const dv d') (dv_mem dv d) = Some (dv_mem dv d')"
    using load by simp_all
qed

end
