(* ===== verification/LaunchRuns.thy ===== *)
theory LaunchRuns
  imports LoadedPrograms
begin

text \<open>
  Launches on a device that runs programs: that they return when the device answers and the programs fit, and what
  any sequence of them does, from the laws of \<open>LoadedPrograms\<close>. A small machine satisfies the laws.
\<close>

section \<open>Launches that return\<close>

text \<open>
  A device that answers: at rest it accepts every upload and every set of constants of one or more whole words in its range and
  every start there, and a patient wait is answered \<open>Ok\<close> when what was started runs without a fault.
\<close>

definition upload_answered :: "'d device_view \<Rightarrow> (u32 \<Rightarrow> bytes option \<Rightarrow> u64 \<Rightarrow> 'd callback) \<Rightarrow> bool" where
  "upload_answered dv f \<longleftrightarrow>
     (\<forall>a bs n d. dv_idle dv d \<longrightarrow> length bs = unat n \<longrightarrow> n \<noteq> 0 \<longrightarrow> unat n mod 4 = 0 \<longrightarrow> unat a + unat n \<le> dv_span dv \<longrightarrow>
        fst (f a (Some bs) n d) = Inr Ok)"

definition answers :: "'d transport \<Rightarrow> 'd device_view \<Rightarrow> bool" where
  "answers tr dv \<longleftrightarrow>
     (\<exists>f. tr_write_program tr = Some f \<and> upload_answered dv f)
   \<and> (\<exists>f. tr_validate_kernel tr = Some f \<and> (\<forall>k d. dv_idle dv d \<longrightarrow> fst (f k d) = Inr Ok))
   \<and> (\<exists>f. tr_write_constants tr = Some f \<and> upload_answered dv f)
   \<and> (\<exists>f. tr_launch tr = Some f \<and> (\<forall>pc grid block mask d. dv_idle dv d \<longrightarrow> unat pc < dv_span dv \<longrightarrow>
         fst (f pc grid block mask d) = Inr Ok))
   \<and> (\<exists>f. tr_wait tr = Some f \<and> (\<forall>t d l mem. dv_idle dv d \<longrightarrow> dv_patient dv t \<longrightarrow> dv_started dv d = Some l \<longrightarrow>
         dv_run dv (dv_instr dv d) l (dv_const dv d) (dv_mem dv d) = Some mem \<longrightarrow> fst (f t d) = Inr Ok))"

text \<open>A program image that an instruction memory of a given size can hold, with the entry point in it.\<close>

definition loadable :: "precompiled_kernel \<Rightarrow> u64 \<Rightarrow> bool" where
  "loadable pk limit \<longleftrightarrow> (\<exists>bs n. kernel_image pk = (Some bs, n) \<and> n \<noteq> 0 \<and> unat n mod 4 = 0 \<and> n \<le> limit \<and> 4 * unat (pk_entry_pc pk) < unat n)"

lemma slot_returns:
  assumes "prog_ok c" and "leaked c = {}" and "n \<noteq> 0" and "unat n mod 4 = 0" and "n \<le> ctx_program_memory_size c"
  obtains addr c' where "allocate_program_slot name n c = (Inr addr, c')" "cache_only c c'"
proof -
  obtain r c' where run: "allocate_program_slot name n c = (r, c')" by force
  have loop: "allocate_slot_loop name n c = (r, c')" using assms(3-5) run by (simp add: allocate_program_slot_def not_less [symmetric])
  have pos: "0 < unat n" using assms(3) by (simp add: unat_gt_0)
  note L = allocate_slot_loop_correct [OF assms(1) pos loop]
  have only: "cache_only c c'" and ok: "prog_ok c'" using L by blast+
  have "r = Inr (projr r)"
  proof (cases r)
    case (Inl e)
    then have "leaked c' = {}" "ctx_program_cache c' = []" "find_slot n 0 (ctx_program_blocks c') = None"
      using L assms(2) by simp_all
    then show ?thesis using empty_cache_has_room [OF ok, of n 0] assms(5) only by (simp add: cache_only_def)
  qed simp
  then show ?thesis using that [of "projr r" c'] run only by simp
qed

lemma load_returns:
  assumes "prog_ok c" and "leaked c = {}" and "answers (ctx_transport c) dv" and "loadable pk (ctx_program_memory_size c)"
    and dev: "runs_programs (ctx_transport c) dv" and reg: "registry_ok c" "pk \<in> set (ctx_kernels c)" and coh: "coherent dv c d"
  shows "\<exists>addr. fst (ensure_program_loaded pk kid (c, d)) = Inr addr"
proof (cases "touch_entry (cache_name pk) (ctx_program_cache_clock c + 1) (ctx_program_cache c)")
  case None
  obtain bs n where img: "kernel_image pk = (Some bs, n)" "n \<noteq> 0" "unat n mod 4 = 0" "n \<le> ctx_program_memory_size c"
    using assms(4) unfolding loadable_def by (elim exE conjE) (rule that)
  have len: "length bs = unat n" using reg img(1) unfolding registry_ok_def by fastforce
  obtain addr c1 where slot: "allocate_program_slot (cache_name pk) n c = (Inr addr, c1)" "cache_only c c1"
    by (rule slot_returns [OF assms(1,2) img(2-4)])
  then have tr: "ctx_transport c1 = ctx_transport c" and size: "ctx_program_memory_size c1 = ctx_program_memory_size c"
    by (simp_all add: cache_only_def)
  have rest: "dv_idle dv d" and inside: "unat addr + unat n \<le> dv_span dv"
    using coherent_rest [OF coh] slot_inside [OF assms(1) slot(1)] size by simp_all
  obtain f where f: "tr_write_program (ctx_transport c1) = Some f" "upload_answered dv f"
    using assms(3) tr unfolding answers_def by auto
  have "fst (f addr (Some bs) n d) = Inr Ok" by (rule f(2) [unfolded upload_answered_def, rule_format, OF rest len img(2,3) inside])
  then obtain c2 d2 where w: "write_program addr (Some bs) n (c1, d) = (Inr (), (c2, d2))" "ctx_transport c2 = ctx_transport c1"
    using f(1) by (cases "f addr (Some bs) n d") (auto simp: write_program_def Let_def img(2))
  have rest2: "dv_idle dv d2" using upload_effect(1) [OF _ rest inside len w(1)] dev tr by simp
  obtain g where g: "tr_validate_kernel (ctx_transport c2) = Some g" "fst (g kid d2) = Inr Ok"
    using assms(3) tr w(2) rest2 unfolding answers_def by auto
  then obtain s3 where "validate_loaded kid (c2, d2) = (Inr (), s3)" by (cases "g kid d2") (simp add: validate_loaded_def)
  then show ?thesis using None img slot(1) w(1)
    by (simp add: ensure_program_loaded_def andThen_def on_context_def modify_def ret_def split: prod.splits)
qed (auto simp: ensure_program_loaded_def)

text \<open>Where a loaded program lies, and that its entry point is in range.\<close>

lemma loaded_inside:
  assumes ok: "prog_ok c" and dev: "runs_programs (ctx_transport c) dv" and reg: "registry_ok c" and coh: "coherent dv c d"
    and pk: "pk \<in> set (ctx_kernels c)" and load: "ensure_program_loaded pk kid (c, d) = (Inr addr, (c1, d1))"
  shows "unat addr + unat (snd (kernel_image pk)) \<le> dv_span dv"
proof -
  note frame = ensure_program_loaded_frame [OF ok load]
  note co = load_keeps_coherent [OF ok dev reg coh pk load]
  obtain e where e: "e \<in> set (ctx_program_cache c1)" "ce_name e = cache_name pk" "ce_addr e = addr"
    using frame by auto
  have ok1: "prog_ok c1" and pk1: "pk \<in> set (ctx_kernels c1)" using frame pk by (auto simp: cache_only_def)
  have "snd (kernel_image pk) = ce_size e" using coherentD(1) [OF co(1) e(1) pk1] e(2) by simp
  moreover have "slot_of e \<in> live (ctx_program_blocks c1)" using ok1 e(1) by (auto simp: prog_ok_def slots_def)
  ultimately have "unat addr + unat (snd (kernel_image pk)) \<le> unat (ctx_program_memory_size c1)"
    using live_bounds ok1 e(3) by (fastforce simp: prog_ok_def slot_of_def)
  then show ?thesis using coherent_rest [OF co(1)] by simp
qed

lemma entry_inside:
  assumes "loadable pk limit" and "unat addr + unat (snd (kernel_image pk)) \<le> span" and "span \<le> 2 ^ 32"
  shows "unat (fst (launch_of pk config addr)) < span"
proof -
  have entry: "4 * unat (pk_entry_pc pk) < unat (snd (kernel_image pk))" using assms(1) by (auto simp: loadable_def)
  have "unat (widen addr div 4) = unat addr div 4" by (simp add: unat_div)
  moreover have "unat addr div 4 + unat (pk_entry_pc pk) < span" using entry assms(2) by linarith
  ultimately have "unat (widen addr div 4 + widen (pk_entry_pc pk)) = unat addr div 4 + unat (pk_entry_pc pk)"
    using assms(3) by (subst unat_add_small) simp_all
  then show ?thesis using \<open>_ < span\<close> assms(3) by (simp add: launch_of_def Let_def)
qed

definition timeout_of :: "precompiled_kernel \<Rightarrow> launch_config option \<Rightarrow> u32" where
  "timeout_of pk config = lc_timeout_ms (case config of None \<Rightarrow> kernel_defaults pk | Some l \<Rightarrow> l)"

lemma launch_returns:
  assumes ok: "prog_ok c" and dev: "runs_programs (ctx_transport c) dv" and reg: "registry_ok c" and coh: "coherent dv c d"
    and found: "find_kernel name c = Some pk" "ids name = Some kid" and fits: "table_fits dv args"
    and up: "answers (ctx_transport c) dv" and space: "leaked c = {}" "loadable pk (ctx_program_memory_size c)"
    and waits: "dv_patient dv (timeout_of pk config)"
    and runs: "\<And>instr addr consts. resident instr addr pk
      \<Longrightarrow> load 0 (length (constant_bytes args (ctx_compiler_spill_base c))) consts = constant_bytes args (ctx_compiler_spill_base c)
      \<Longrightarrow> dv_run dv instr (launch_of pk config addr) consts (dv_mem dv d) \<noteq> None"
  shows "\<exists>s'. launch_kernel ids name args config (c, d) = (Inr (), s')"
proof -
  let ?bs = "constant_bytes args (ctx_compiler_spill_base c)" and ?table = "constants_table args (ctx_compiler_spill_base c)"
  have args: "length args < 2 ^ 32" using table_fits_length [OF fits dev] .
  have pk: "pk \<in> set (ctx_kernels c)" using found(1) unfolding find_kernel_def find_Some_iff by auto
  obtain addr s1 where "ensure_program_loaded pk kid (c, d) = (Inr addr, s1)"
    using load_returns [OF ok space(1) up space(2) dev reg pk coh, of kid] by (metis prod.collapse)
  then obtain c1 d1 where load: "ensure_program_loaded pk kid (c, d) = (Inr addr, (c1, d1))" by (cases s1) simp
  note co = load_keeps_coherent [OF ok dev reg coh pk load]
  have rest: "dv_idle dv d1" using coherent_rest [OF co(1)] by simp
  have same: "ctx_transport c1 = ctx_transport c" using ensure_program_loaded_frame [OF ok load] by (simp add: cache_only_def)
  let ?l = "case config of None \<Rightarrow> kernel_defaults pk | Some l \<Rightarrow> l"
  let ?k = "launch_descriptor pk kid ?table ?l addr" and ?c2 = "log_event (launch_log name args) c1"
  have table: "?table \<noteq> []" "kn_constants_size ?k \<noteq> 0" "kn_constants ?k = Some ?bs" "length ?bs = unat (kn_constants_size ?k)"
    by (rule launch_table [OF args])+
  have len: "length ?bs = 4 * max 33 (length args)" by (simp add: constant_bytes_def length_constants_table)
  have span: "unat (0 :: u32) + unat (kn_constants_size ?k) \<le> dv_span dv" "unat (kn_constants_size ?k) mod 4 = 0"
    using fits table(4) len by (simp_all add: table_fits_def flip: table(4))
  obtain f where f: "tr_write_constants (ctx_transport ?c2) = Some f" "upload_answered dv f"
    using up same unfolding answers_def by auto
  have "fst (f 0 (Some ?bs) (kn_constants_size ?k) d1) = Inr Ok"
    by (rule f(2) [unfolded upload_answered_def, rule_format, OF rest table(4,2) span(2,1)])
  then obtain c3 d3 where w: "write_constants 0 (Some ?bs) (kn_constants_size ?k) (?c2, d1) = (Inr (), (c3, d3))"
    using f(1) table(2) by (cases "f 0 (Some ?bs) (kn_constants_size ?k) d1") (auto simp: write_constants_def Let_def)
  have c3: "only_logs c1 c3" using write_constants_context [OF w] by auto
  have dev2: "runs_programs (ctx_transport ?c2) dv" using dev same by simp
  note ce = constants_effect [OF dev2 rest span(1) table(4,2) w]
  have tr3: "ctx_transport c3 = ctx_transport c" using only_logs_frame(4) [OF c3] same by simp
  have l: "(kn_base_pc ?k, kn_grid_dim ?k, kn_block_dim ?k, kn_active_mask ?k) = launch_of pk config addr"
    by (simp add: launch_descriptor_def launch_of_def Let_def)
  have pc: "unat (kn_base_pc ?k) < dv_span dv"
    using entry_inside [OF space(2) loaded_inside [OF ok dev reg coh pk load], of config] dev l [THEN arg_cong, of fst]
    by (simp add: runs_programs_def)
  obtain g where g: "tr_launch (ctx_transport c3) = Some g"
      "\<And>pc grid block mask d. dv_idle dv d \<Longrightarrow> unat pc < dv_span dv \<Longrightarrow> fst (g pc grid block mask d) = Inr Ok"
    using up unfolding answers_def tr3 by auto
  obtain d4 where d4: "g (kn_base_pc ?k) (kn_grid_dim ?k) (kn_block_dim ?k) (kn_active_mask ?k) d3 = (Inr Ok, d4)"
    using g(2) [OF ce(1) pc] by (metis prod.collapse)
  have started: "same_memories dv d3 d4" "dv_idle dv d4"
      "dv_started dv d4 = Some (kn_base_pc ?k, kn_grid_dim ?k, kn_block_dim ?k, kn_active_mask ?k)"
    using dev g(1) d4 ce(1) unfolding runs_programs_def launch_law_def tr3 by blast+
  have "resident (dv_instr dv d4) addr pk" "load 0 (length ?bs) (dv_const dv d4) = ?bs" "dv_mem dv d4 = dv_mem dv d"
    using co(2) co(4) [OF refl] ce started(1) by (simp_all add: same_memories_def)
  then obtain mem where mem:
      "dv_run dv (dv_instr dv d4) (kn_base_pc ?k, kn_grid_dim ?k, kn_block_dim ?k, kn_active_mask ?k) (dv_const dv d4) (dv_mem dv d4) = Some mem"
    using runs l by fastforce
  obtain h where wait: "tr_wait (ctx_transport c3) = Some h" "\<And>t d l mem. dv_idle dv d \<Longrightarrow> dv_patient dv t \<Longrightarrow> dv_started dv d = Some l \<Longrightarrow>
      dv_run dv (dv_instr dv d) l (dv_const dv d) (dv_mem dv d) = Some mem \<Longrightarrow> fst (h t d) = Inr Ok"
    using up unfolding answers_def tr3 by (elim exE conjE) blast
  have "kn_timeout_ms ?k = timeout_of pk config" by (simp add: launch_descriptor_def timeout_of_def)
  then have h: "fst (h (kn_timeout_ms ?k) d4) = Inr Ok" using wait(2) [OF started(2) _ started(3) mem] waits by simp
  have "\<exists>s'. wait_kernel (kn_timeout_ms ?k) (log_event e c3, d4) = (Inr (), s')" for e
    using h wait(1)
    by (cases "h (kn_timeout_ms ?k) d4") (simp add: wait_kernel_def andThen_def log_line_def Let_def)
  then have "\<exists>s'. launch_desc ?k (?c2, d1) = (Inr (), s')"
    using w table(1-3) g(1) d4
    by (auto simp: launch_desc_def andThen_def launch_descriptor_def start_kernel_def Let_def)
  then show ?thesis using found load by (simp add: launch_kernel_def andThen_def log_line_def Let_def)
qed

section \<open>Any sequence of launches\<close>

text \<open>A caller that catches what a launch throws and goes on.\<close>

fun run_launches :: "(string \<Rightarrow> u8 option) \<Rightarrow> (string \<times> kernel_arg list \<times> launch_config option) list \<Rightarrow> 'd sys \<Rightarrow> 'd sys" where
  "run_launches ids [] s = s"
| "run_launches ids ((name, args, config) # ls) s = run_launches ids ls (snd (launch_kernel ids name args config s))"

definition launchable :: "'d device_view \<Rightarrow> 'd sys \<Rightarrow> bool" where
  "launchable dv s \<longleftrightarrow> prog_ok (fst s) \<and> runs_programs (ctx_transport (fst s)) dv \<and> registry_ok (fst s) \<and> coherent dv (fst s) (snd s)"

lemma launch_keeps_launchable:
  assumes "launchable dv s" and "table_fits dv args" and "launch_kernel ids name args config s = (r, s')"
  shows "launchable dv s' \<and> cache_only (fst s) (fst s')"
proof (cases "find_kernel name (fst s) = None \<or> ids name = None")
  case True
  then have "s' = s" using assms(3) by (auto simp: launch_kernel_def split: option.splits)
  then show ?thesis using assms(1) by simp
next
  case False
  obtain c d where s: "s = (c, d)" by force
  obtain c' d' where s': "s' = (c', d')" by force
  obtain pk kid where found: "find_kernel name c = Some pk" "ids name = Some kid" using False s by auto
  have l: "prog_ok c" "runs_programs (ctx_transport c) dv" "registry_ok c" "coherent dv c d"
    using assms(1) s by (simp_all add: launchable_def)
  note e = launch_effect [OF l found assms(2) assms(3) [unfolded s s']]
  then show ?thesis using l(2) by (simp add: launchable_def cache_only_def s s')
qed

lemma launches_keep_launchable:
  assumes "launchable dv s" and "\<forall>(name, args, config) \<in> set ls. table_fits dv args"
  shows "launchable dv (run_launches ids ls s) \<and> cache_only (fst s) (fst (run_launches ids ls s))"
  using assms
proof (induction ids ls s rule: run_launches.induct)
  case (2 ids name args config ls s)
  have "table_fits dv args" using "2.prems"(2) by simp
  note one = launch_keeps_launchable [OF "2.prems"(1) this, of ids name config]
  obtain r s' where step: "launch_kernel ids name args config s = (r, s')" by (metis prod.exhaust)
  have "launchable dv s'" "cache_only (fst s) (fst s')" using one [OF step] by simp_all
  then show ?case using "2.IH" "2.prems"(2) step cache_only_trans by fastforce
qed simp

text \<open>On a device that answers, no launch leaks a slot, not even one that faults.\<close>

definition serviceable :: "'d device_view \<Rightarrow> 'd gpu_context \<Rightarrow> bool" where
  "serviceable dv c \<longleftrightarrow> leaked c = {} \<and> answers (ctx_transport c) dv
     \<and> (\<forall>pk \<in> set (ctx_kernels c). loadable pk (ctx_program_memory_size c))"

lemma launch_keeps_serviceable:
  assumes "launchable dv s" and "serviceable dv (fst s)" and "table_fits dv args" and "launch_kernel ids name args config s = (r, s')"
  shows "serviceable dv (fst s')"
proof (cases "find_kernel name (fst s) = None \<or> ids name = None")
  case True
  then have "s' = s" using assms(4) by (auto simp: launch_kernel_def split: option.splits)
  then show ?thesis using assms(2) by simp
next
  case False
  obtain c d c' d' where s: "s = (c, d)" "s' = (c', d')" by (metis prod.exhaust)
  obtain pk kid where found: "find_kernel name c = Some pk" "ids name = Some kid" using False s by auto
  have l: "prog_ok c" "runs_programs (ctx_transport c) dv" "registry_ok c" "coherent dv c d"
    using assms(1) s by (simp_all add: launchable_def)
  note e = launch_effect [OF l found assms(3) assms(4) [unfolded s]]
  have "pk \<in> set (ctx_kernels c)" using found(1) unfolding find_kernel_def find_Some_iff by auto
  then have "\<exists>addr. fst (ensure_program_loaded pk kid (c, d)) = Inr addr"
    using load_returns [OF l(1) _ _ _ l(2,3) _ l(4)] assms(2) s by (auto simp: serviceable_def)
  then obtain addr c1 d1 where load: "ensure_program_loaded pk kid (c, d) = (Inr addr, (c1, d1))" by (metis prod.exhaust fst_conv)
  then have "leaked c1 = leaked c" using ensure_program_loaded_frame [OF l(1) load] by simp
  then have "leaked c' = leaked c" using e(5) only_logs_frame(7) [of c1 c'] load by simp
  then show ?thesis using assms(2) e(4) s by (simp add: serviceable_def cache_only_def)
qed

lemma launches_keep_serviceable:
  assumes "launchable dv s" and "serviceable dv (fst s)" and "\<forall>(name, args, config) \<in> set ls. table_fits dv args"
  shows "serviceable dv (fst (run_launches ids ls s))"
  using assms
proof (induction ids ls s rule: run_launches.induct)
  case (2 ids name args config ls s)
  have len: "table_fits dv args" using "2.prems"(3) by simp
  obtain r s' where step: "launch_kernel ids name args config s = (r, s')" by (metis prod.exhaust)
  show ?case
    using "2.IH" "2.prems" step launch_keeps_launchable [OF "2.prems"(1) len step] launch_keeps_serviceable [OF "2.prems"(1,2) len step]
    by simp
qed simp

lemma launches_return:
  assumes start: "prog_ok c" "ctx_program_cache c = []" "leaked c = {}" and dev: "runs_programs (ctx_transport c) dv" "answers (ctx_transport c) dv"
    and reg: "registry_ok c" "\<forall>pk \<in> set (ctx_kernels c). loadable pk (ctx_program_memory_size c)"
    and rest: "dv_idle dv d" "unat (ctx_program_memory_size c) \<le> dv_span dv"
    and args: "\<forall>(name, args, config) \<in> set ls. table_fits dv args" "table_fits dv args" "dv_patient dv (timeout_of pk config)"
    and found: "find_kernel name c = Some pk" "ids name = Some kid"
    and runs: "\<forall>instr addr consts mem. resident instr addr pk \<longrightarrow>
      load 0 (length (constant_bytes args (ctx_compiler_spill_base c))) consts = constant_bytes args (ctx_compiler_spill_base c) \<longrightarrow>
      dv_run dv instr (launch_of pk config addr) consts mem \<noteq> None"
  shows "\<exists>s'. launch_kernel ids name args config (run_launches ids ls (c, d)) = (Inr (), s')"
proof -
  obtain c1 d1 where s1: "run_launches ids ls (c, d) = (c1, d1)" by force
  have l: "launchable dv (c, d)" using start dev reg rest by (simp add: launchable_def coherent_def)
  moreover have "serviceable dv (fst (c, d))" using start dev reg by (simp add: serviceable_def)
  ultimately have s: "serviceable dv c1" using launches_keep_serviceable [OF _ _ args(1), of "(c, d)" ids] s1 by simp
  have l1: "prog_ok c1" "runs_programs (ctx_transport c1) dv" "registry_ok c1" "coherent dv c1 d1" and only: "cache_only c c1"
    using launches_keep_launchable [OF l args(1), of ids] s1 by (simp_all add: launchable_def)
  have f: "find_kernel name c1 = Some pk" "ctx_compiler_spill_base c1 = ctx_compiler_spill_base c"
    using only found(1) by (simp_all add: cache_only_def find_kernel_def)
  have pk: "pk \<in> set (ctx_kernels c1)" using f(1) unfolding find_kernel_def find_Some_iff by auto
  have "answers (ctx_transport c1) dv" "leaked c1 = {}" "loadable pk (ctx_program_memory_size c1)"
    using s pk by (simp_all add: serviceable_def)
  then show ?thesis unfolding s1
    by (rule launch_returns [where ids = ids and kid = kid, OF l1 f(1) found(2) args(2) _ _ _ args(3)]) (use runs f(2) in simp)
qed

section \<open>A machine\<close>

text \<open>A device that keeps its memories in a record and runs programs by a given function.\<close>

record machine =
  m_instr :: "nat \<Rightarrow> u8"
  m_const :: "nat \<Rightarrow> u8"
  m_mem :: "nat \<Rightarrow> u8"
  m_started :: "launch option"

type_synonym runner = "(nat \<Rightarrow> u8) \<Rightarrow> launch \<Rightarrow> (nat \<Rightarrow> u8) \<Rightarrow> (nat \<Rightarrow> u8) \<Rightarrow> (nat \<Rightarrow> u8) option"

definition machine_view :: "runner \<Rightarrow> machine device_view" where
  "machine_view run = \<lparr>dv_instr = m_instr, dv_const = m_const, dv_mem = m_mem, dv_started = m_started, dv_run = run,
     dv_idle = (\<lambda>_. True), dv_span = 65536, dv_patient = (\<lambda>_. True)\<rparr>"

definition machine_wait :: "runner \<Rightarrow> u32 \<Rightarrow> machine callback" where
  "machine_wait run t d = (case Option.bind (m_started d) (\<lambda>l. run (m_instr d) l (m_const d) (m_mem d)) of
     None \<Rightarrow> (Inr Transport, d) | Some mem \<Rightarrow> (Inr Ok, d\<lparr>m_mem := mem\<rparr>))"

definition machine_transport :: "runner \<Rightarrow> machine transport" where
  "machine_transport run = \<lparr>tr_write_data = None, tr_read_data = None,
     tr_write_program = Some (\<lambda>a bs n d. (Inr Ok, d\<lparr>m_instr := store (unat a) (the bs) (m_instr d)\<rparr>)),
     tr_validate_kernel = Some (\<lambda>k d. (Inr Ok, d)),
     tr_write_constants = Some (\<lambda>a bs n d. (Inr Ok, d\<lparr>m_const := store (unat a) (the bs) (m_const d)\<rparr>)),
     tr_launch = Some (\<lambda>pc grid block mask d. (Inr Ok, d\<lparr>m_started := Some (pc, grid, block, mask)\<rparr>)),
     tr_wait = Some (machine_wait run)\<rparr>"

lemma machine_views [simp]:
  "dv_instr (machine_view run) = m_instr" "dv_const (machine_view run) = m_const" "dv_mem (machine_view run) = m_mem"
  "dv_started (machine_view run) = m_started" "dv_run (machine_view run) = run"
  "dv_idle (machine_view run) d" "dv_span (machine_view run) = 65536" "dv_patient (machine_view run) t"
  by (simp_all add: machine_view_def)

lemma machine_runs: "runs_programs (machine_transport run) (machine_view run)"
  by (auto simp: runs_programs_def program_law_def validate_law_def constants_law_def launch_law_def wait_law_def same_memories_def
      machine_transport_def machine_wait_def store_def split: option.splits)

lemma machine_answers: "answers (machine_transport run) (machine_view run)"
  by (auto simp: answers_def upload_answered_def machine_transport_def machine_wait_def split: option.splits)

text \<open>A context on it with one registered kernel of eight bytes, which fill the instruction memory.\<close>

definition machine_context :: "runner \<Rightarrow> string \<Rightarrow> block list \<Rightarrow> machine gpu_context" where
  "machine_context run name bs =
     \<lparr>ctx_memory_base = 0, ctx_memory_size = 64, ctx_program_memory_size = 8,
      ctx_program_cache_clock = 0, ctx_compiler_spill_base = 56, ctx_compiler_spill_size = 8,
      ctx_default_alignment = 4, ctx_transport = machine_transport run, ctx_blocks = bs,
      ctx_program_blocks = [\<lparr>boffset = 0, bsize = 8, bfree = True\<rparr>],
      ctx_program_cache = [], ctx_kernels = [full_kernel\<lparr>pk_name := name\<rparr>], ctx_logging_enabled = False,
      ctx_log_path = [], ctx_log = []\<rparr>"

lemma machine_context_ok:
  fixes run name bs
  defines "c \<equiv> machine_context run name bs"
  shows "prog_ok c" "leaked c = {}" "registry_ok c" "coherent (machine_view run) c d" "find_kernel name c = Some (full_kernel\<lparr>pk_name := name\<rparr>)"
    "loadable (full_kernel\<lparr>pk_name := name\<rparr>) (ctx_program_memory_size c)" "ctx_transport c = machine_transport run"
    "ctx_program_cache c = []"
proof -
  have entry: "pk_entry_pc (full_kernel\<lparr>pk_name := name\<rparr>) = 0" by (simp add: full_kernel_def empty_precompiled_kernel_def)
  have img: "kernel_image (full_kernel\<lparr>pk_name := name\<rparr>) = (Some [1, 2, 3, 4, 5, 6, 7, 8], 8)"
    by (simp add: kernel_image_def full_kernel_def empty_precompiled_kernel_def)
  show "prog_ok c" "leaked c = {}" "coherent (machine_view run) c d" "find_kernel name c = Some (full_kernel\<lparr>pk_name := name\<rparr>)"
    "ctx_transport c = machine_transport run" "ctx_program_cache c = []"
    by (simp_all add: c_def machine_context_def prog_ok_def slots_def leaked_def coherent_def find_kernel_def)
  show "registry_ok c" by (simp add: c_def machine_context_def registry_ok_def img)
  show "loadable (full_kernel\<lparr>pk_name := name\<rparr>) (ctx_program_memory_size c)"     using img by (simp add: c_def machine_context_def loadable_def entry)
qed

section \<open>The properties\<close>

text \<open>
  C10: the programs that run are the registered ones. From a context with an empty cache, whatever kernels were
  launched before, with whatever outcome (failed uploads, faults and evictions included), a launch that returns has
  left the registered program of its kernel in instruction memory and its own arguments in constant memory, and
  device memory is what running exactly that program from its entry point with exactly those arguments makes of it.
\<close>

theorem launches_run_registered_programs:
  assumes "prog_ok c" and "ctx_program_cache c = []" and "runs_programs (ctx_transport c) dv" and "registry_ok c"
    and "dv_idle dv d" and "unat (ctx_program_memory_size c) \<le> dv_span dv"
    and "\<forall>(name, args, config) \<in> set ls. table_fits dv args" and "table_fits dv args"
    and "run_launches ids ls (c, d) = (c1, d1)" and "launch_kernel ids name args config (c1, d1) = (Inr (), (c2, d2))"
  shows "\<exists>pk addr. find_kernel name c = Some pk \<and> resident (dv_instr dv d2) addr pk
    \<and> load 0 (length (constant_bytes args (ctx_compiler_spill_base c))) (dv_const dv d2) = constant_bytes args (ctx_compiler_spill_base c)
    \<and> dv_run dv (dv_instr dv d2) (launch_of pk config addr) (dv_const dv d2) (dv_mem dv d1) = Some (dv_mem dv d2)"
proof -
  have "launchable dv (c, d)" using assms(1-6) by (simp add: launchable_def coherent_def)
  from launches_keep_launchable [OF this assms(7), of ids] have l: "prog_ok c1" "runs_programs (ctx_transport c1) dv"
      "registry_ok c1" "coherent dv c1 d1" and only: "cache_only c c1"
    using assms(9) by (simp_all add: launchable_def)
  obtain pk kid where found: "find_kernel name c1 = Some pk" "ids name = Some kid"
    using assms(10) by (auto simp: launch_kernel_def split: option.splits)
  have "ctx_compiler_spill_base c1 = ctx_compiler_spill_base c" "find_kernel name c = Some pk"
    using only found(1) by (simp_all add: cache_only_def find_kernel_def)
  then show ?thesis using launch_effect(6) [OF l found assms(8,10) refl] by auto
qed

text \<open>
  C11: launches return. On a device that answers, from a context with an empty cache, no leaked slot and a registry of
  programs that fit the instruction memory, a launch of a registered kernel returns after any sequence of other
  launches, faulting ones included, provided the program itself does not fault: evictions always make room.
\<close>

theorem launches_always_return:
  assumes start: "prog_ok c" "ctx_program_cache c = []" "leaked c = {}" and dev: "runs_programs (ctx_transport c) dv" "answers (ctx_transport c) dv"
    and reg: "registry_ok c" "\<forall>pk \<in> set (ctx_kernels c). loadable pk (ctx_program_memory_size c)"
    and rest: "dv_idle dv d" "unat (ctx_program_memory_size c) \<le> dv_span dv"
    and args: "\<forall>(name, args, config) \<in> set ls. table_fits dv args" "table_fits dv args" "dv_patient dv (timeout_of pk config)"
    and found: "find_kernel name c = Some pk" "ids name = Some kid"
    and runs: "\<forall>instr addr consts mem. resident instr addr pk \<longrightarrow>
      load 0 (length (constant_bytes args (ctx_compiler_spill_base c))) consts = constant_bytes args (ctx_compiler_spill_base c) \<longrightarrow>
      dv_run dv instr (launch_of pk config addr) consts mem \<noteq> None"
  shows "\<exists>s'. launch_kernel ids name args config (run_launches ids ls (c, d)) = (Inr (), s')"
  by (rule launches_return [where ids = ids and name = name and kid = kid and dv = dv, OF start dev reg rest args found runs])

text \<open>A machine whose program stores its first argument.\<close>

definition store_argument :: runner where
  "store_argument instr l consts mem = Some (store 0 (load 0 4 consts) mem)"

abbreviation store_machine :: "machine sys" where
  "store_machine \<equiv> (machine_context store_argument ''k'' [],
     \<lparr>m_instr = (\<lambda>_. 0), m_const = (\<lambda>_. 0), m_mem = (\<lambda>_. 9), m_started = None\<rparr>)"

abbreviation two_launches :: "(string \<times> kernel_arg list \<times> launch_config option) list" where
  "two_launches \<equiv> [(''k'', [arg_u32 5], None), (''x'', [], None)]"

lemma store_machine_context:
  fixes c defines "c \<equiv> fst store_machine"
  shows "prog_ok c" "ctx_program_cache c = []" "leaked c = {}" "runs_programs (ctx_transport c) (machine_view store_argument)"
    "answers (ctx_transport c) (machine_view store_argument)" "registry_ok c"
    "\<forall>pk \<in> set (ctx_kernels c). loadable pk (ctx_program_memory_size c)"
    "dv_idle (machine_view store_argument) d" "unat (ctx_program_memory_size c) \<le> dv_span (machine_view store_argument)"
    "\<forall>(name, args, config) \<in> set two_launches. table_fits (machine_view store_argument) args"
    "table_fits (machine_view store_argument) [arg_u32 7]" "dv_patient (machine_view store_argument) (timeout_of pk config)"
    "find_kernel ''k'' c = Some (full_kernel\<lparr>pk_name := ''k''\<rparr>)" "(\<lambda>_ :: string. Some (0 :: u8)) ''k'' = Some 0"
    "ctx_compiler_spill_base c = 56"
  using machine_context_ok [where run = store_argument and name = "''k''" and bs = "[]"] machine_runs machine_answers
  unfolding c_def fst_conv
  by (simp, simp, simp, simp, simp, simp, simp add: machine_context_def, simp, simp add: machine_context_def, simp add: table_fits_def,
    simp add: table_fits_def, simp, simp, simp, simp add: machine_context_def)

lemma launches_always_return_witness:
  "\<exists>s'. launch_kernel (\<lambda>_. Some 0) ''k'' [arg_u32 7] None (run_launches (\<lambda>_. Some 0) two_launches store_machine) = (Inr (), s')"
  by (rule launches_always_return [where ids = "\<lambda>_. Some 0" and name = "''k''", OF store_machine_context(1-14) [unfolded fst_conv]]) (simp add: store_argument_def)

lemma constant_bytes_seven: "load 0 132 consts = constant_bytes [arg_u32 7] 56 \<Longrightarrow> load 0 4 consts = [7, 0, 0, 0]"
proof -
  assume "load 0 132 consts = constant_bytes [arg_u32 7] 56"
  then have "take 4 (load 0 132 consts) = take 4 (constant_bytes [arg_u32 7] 56)" by simp
  moreover have "take 4 (load 0 132 consts) = load 0 4 consts" by (simp add: load_def take_map)
  ultimately show ?thesis by (simp add: constant_bytes_def constants_table_def spill_slot_def arg_u32_def word_bytes_def Let_def)
qed

lemma launches_run_registered_programs_witness:
  "\<exists>c2 d2. launch_kernel (\<lambda>_. Some 0) ''k'' [arg_u32 7] None (run_launches (\<lambda>_. Some 0) two_launches store_machine)
     = (Inr (), (c2, d2)) \<and> load 0 4 (m_mem d2) = [7, 0, 0, 0]"
proof -
  obtain c1 d1 where run: "run_launches (\<lambda>_. Some 0) two_launches store_machine = (c1, d1)" by force
  have "\<exists>s'. launch_kernel (\<lambda>_. Some 0) ''k'' [arg_u32 7] None (run_launches (\<lambda>_. Some 0) two_launches store_machine) = (Inr (), s')"
    by (rule launches_return [where ids = "\<lambda>_. Some 0" and name = "''k''", OF store_machine_context(1-14) [unfolded fst_conv]]) (simp add: store_argument_def)
  then obtain c2 d2 where last: "launch_kernel (\<lambda>_. Some 0) ''k'' [arg_u32 7] None (c1, d1) = (Inr (), (c2, d2))"
    using run by auto
  note ok = store_machine_context [unfolded fst_conv]
  have "load 0 132 (m_const d2) = constant_bytes [arg_u32 7] 56 \<and> m_mem d2 = store 0 (load 0 4 (m_const d2)) (m_mem d1)"
    using launches_run_registered_programs [OF ok(1,2,4,6,8-11) run last]
    by (auto simp: store_argument_def ok(15) constant_bytes_def length_constants_table)
  then have "load 0 4 (m_mem d2) = [7, 0, 0, 0]" using constant_bytes_seven [of "m_const d2"]
    by (simp add: load_def store_def upt_rec)
  then show ?thesis using last run by auto
qed

end
