(* ===== verification/Offload.thy ===== *)
theory Offload
  imports LaunchRuns TorchSpec DeviceSpec
begin

text \<open>
  A PyTorch operator from end to end: from the checks and the new tensor on the host, over the launch and the program
  cache, to what the device kernel leaves in device memory. The compiled program is tied to the kernel by a
  hypothesis, since the compiler is not modelled: a device that runs the program registered for the matrix product
  does what the kernel's source says.
\<close>

section \<open>Words in byte memory\<close>

definition word_at :: "(nat \<Rightarrow> u8) \<Rightarrow> int \<Rightarrow> u32" where
  "word_at m w =
     ucast (m (4 * nat w + 0)) OR push_bit 8 (ucast (m (4 * nat w + 1))) OR push_bit 16 (ucast (m (4 * nat w + 2)))
       OR push_bit 24 (ucast (m (4 * nat w + 3)))"

definition bytes_of_words :: "u32 words \<Rightarrow> nat \<Rightarrow> u8" where
  "bytes_of_words ws i = word_bytes (ws (int (i div 4))) ! (i mod 4)"

lemma bytes_of_words_nth: "k < 4 \<Longrightarrow> bytes_of_words ws (4 * n + k) = word_bytes (ws (int n)) ! k"
  by (simp add: bytes_of_words_def)

lemma bytes_of_words_at:
  "bytes_of_words ws (4 * n + 0) = ucast (ws (int n))" "bytes_of_words ws (4 * n + 1) = ucast (drop_bit 8 (ws (int n)))"
  "bytes_of_words ws (4 * n + 2) = ucast (drop_bit 16 (ws (int n)))" "bytes_of_words ws (4 * n + 3) = ucast (drop_bit 24 (ws (int n)))"
  by (subst bytes_of_words_nth, simp, simp add: word_bytes_def)+

lemma word_at_bytes [simp]: "0 \<le> w \<Longrightarrow> word_at (bytes_of_words ws) w = ws w"
  unfolding word_at_def bytes_of_words_at by (simp only: join_four_bytes nat_0_le)

lemma byte_of_join:
  fixes b0 b1 b2 b3 :: u8
  defines "w \<equiv> ucast b0 OR push_bit 8 (ucast b1) OR push_bit 16 (ucast b2) OR push_bit 24 (ucast b3) :: u32"
  shows "ucast w = b0" "ucast (drop_bit 8 w) = b1" "ucast (drop_bit 16 w) = b2" "ucast (drop_bit 24 w) = b3"
  by (rule bit_word_eqI; auto simp: w_def bit_simps dest: bit_imp_le_length)+

lemma word_bytes_word_at:
  "word_bytes (word_at m w) = [m (4 * nat w + 0), m (4 * nat w + 1), m (4 * nat w + 2), m (4 * nat w + 3)]"
  by (simp only: word_at_def word_bytes_def byte_of_join)

lemma nth_word_bytes: "k < 4 \<Longrightarrow> word_bytes (word_at m w) ! k = m (4 * nat w + k)"
proof -
  assume "k < 4"
  then consider "k = 0" | "k = 1" | "k = 2" | "k = 3" by linarith
  then show ?thesis by cases (simp_all add: word_bytes_word_at)
qed

lemma bytes_of_word_at: "ws (int (i div 4)) = word_at m (int (i div 4)) \<Longrightarrow> bytes_of_words ws i = m i"
  using nth_word_bytes [of "i mod 4" m "int (i div 4)"] by (simp add: bytes_of_words_def)

section \<open>A new tensor\<close>

lemma new_tensor_cases:
  assumes ok: "sys_ok (c, d)" and bytes: "pt_storage_bytes pt sizes dtype = Inr n" "n \<noteq> 0" "unat n < 2 ^ 63"
    and run: "new_tensor pt sizes dtype (c, d) = (Inr t, s1)"
  obtains po c1 g bs e where "s1 = (c1, d)" "at_storage t = opaque po" "at_device t = PrivateUse1" "at_dtype t = dtype" "at_sizes t = sizes"
    "at_storage_offset t = 0" "unat n \<le> g" "live (ctx_blocks c1) = insert (unat po, g) (live (ctx_blocks c))"
    "\<And>r. r \<in> live (ctx_blocks c) \<Longrightarrow> \<not> overlaps (unat po, g) r" "unat po + g < 2 ^ 32" "c1 = log_event e (c\<lparr>ctx_blocks := bs\<rparr>)"
    "unat (ctx_default_alignment c) dvd unat po" "mem_ok c1" "at_strides t = pt_strides pt sizes None"
proof -
  let ?al = "ctx_default_alignment c"
  have al: "?al \<noteq> 0" "unat ?al < 2 ^ 32" and mem: "mem_ok c" using ok by (simp_all add: sys_ok_def)
  obtain storage s' where alloc: "allocate n (c, d) = (Inr storage, s')"
    "t = \<lparr>at_device = PrivateUse1, at_dtype = dtype, at_sizes = sizes, at_strides = pt_strides pt sizes None,
       at_storage_offset = 0, at_storage = storage\<rparr>" "s1 = s'"
    using run bytes(1) by (auto simp: empty_def generic_tensor_def requires_run andThen_def split: sum.splits prod.splits)
  obtain buf c1 where malloc: "device_malloc_aligned n ?al c = (Inr buf, c1)" "s' = (c1, d)" "storage = opaque (db_addr buf)"
    using alloc(1) bytes(2)
    by (auto simp: allocate_def andThen_def on_context_def device_malloc_def buffer_release_def split: sum.splits prod.splits if_splits)
  have "round_up (unat ?al) (unat n) < unat n + unat ?al" using al by (intro round_up_lt) (simp add: unat_gt_0)
  then have "request_ok n ?al" using al bytes(2,3) by (simp add: request_ok_def)
  note m = device_malloc_correct [OF mem this malloc(1)]
  have big: "unat n \<le> grant n ?al" using round_up_ge [of "unat n" "unat ?al"] by simp
  obtain bs e where "c1 = log_event e (c\<lparr>ctx_blocks := bs\<rparr>)" using device_malloc_Inr [OF malloc(1)] by auto
  then show ?thesis
    using that [of c1 "db_addr buf" "grant n ?al" e bs] malloc alloc m(1,2,3,4,8) mem_hi_bound [OF mem] big by simp
qed

lemma new_tensor_returns:
  assumes ok: "sys_ok (c, d)" and bytes: "pt_storage_bytes pt sizes dtype = Inr n" "n \<noteq> 0" "unat n < 2 ^ 63"
    and room: "\<exists>blk \<in> set (ctx_blocks c). has_room (unat (ctx_default_alignment c)) (grant n (ctx_default_alignment c)) blk"
  shows "\<exists>t s1. new_tensor pt sizes dtype (c, d) = (Inr t, s1)"
proof -
  let ?al = "ctx_default_alignment c"
  have al: "?al \<noteq> 0" "unat ?al < 2 ^ 32" using ok by (simp_all add: sys_ok_def)
  have "round_up (unat ?al) (unat n) < unat n + unat ?al" using al by (intro round_up_lt) (simp add: unat_gt_0)
  then have req: "request_ok n ?al" using al bytes(2,3) by (simp add: request_ok_def)
  obtain r c1 where malloc: "device_malloc_aligned n ?al c = (r, c1)" by force
  have "\<exists>buf. r = Inr buf"
  proof (cases r)
    case (Inl e)
    then show ?thesis using device_malloc_fails [OF req malloc [unfolded Inl]] room by blast
  qed simp
  then show ?thesis
    using malloc bytes(1,2) by (auto simp: empty_def generic_tensor_def requires_run andThen_def allocate_def on_context_def device_malloc_def)
qed

lemma new_blocks:
  "coherent dv (c\<lparr>ctx_blocks := bs\<rparr>) d = coherent dv c d" "registry_ok (c\<lparr>ctx_blocks := bs\<rparr>) = registry_ok c"
  "find_kernel name (c\<lparr>ctx_blocks := bs\<rparr>) = find_kernel name c" "leaked (c\<lparr>ctx_blocks := bs\<rparr>) = leaked c"
  by (simp_all add: coherent_def registry_ok_def find_kernel_def leaked_def slots_def)

section \<open>The matrix product\<close>

text \<open>
  What is assumed of the compiled kernel: on a device that has the program, the arguments in the constant memory and
  the default launch, running it is the kernel's source on the words of data memory, in some order of the lanes.
\<close>

definition runs_matmul :: "'d device_view \<Rightarrow> precompiled_kernel \<Rightarrow> bool" where
  "runs_matmul dv pk \<longleftrightarrow> 0 < uint (pk_default_block_dim pk) \<and>
     (\<forall>instr addr consts mem a b out m n k spill.
        resident instr addr pk \<longrightarrow> load 0 132 consts = constant_bytes (map arg_u32 [a, b, out, m, n, k]) spill \<longrightarrow>
        (\<exists>ts. distinct ts \<and> set ts = {0..<uint (pk_default_block_dim pk)} \<and>
           dv_run dv instr (launch_of pk None addr) consts mem = map_option bytes_of_words
             (run_block (matmul_kernel i32_arith (uint a) (uint b) (uint out) (uint m) (uint n) (uint k))
                (uint (pk_default_block_dim pk)) ts (word_at mem))))"

lemma matmul_all_lanes:
  assumes "0 < n" and "disjoint_ranges a (m * k) out (m * n)" and "disjoint_ranges b (k * n) out (m * n)"
    and "distinct ts" and "set ts = {0..<stride}" and "0 < stride"
  shows "run_block (matmul_kernel i32_arith a b out m n k) stride ts mem
    = Some (\<lambda>x. if out \<le> x \<and> x < out + m * n then product_entry mem a b n k ((x - out) div n) ((x - out) mod n) else mem x)"
  using mm.run_lanes_result [of ts stride "(i32_arith, a, b, out, m, n, k)" mem] assms(4-6)
    mm_result [OF assms(1-3), of ts stride "\<lambda>x y. sint x < sint y" mem] assms
  by (simp add: matmul_kernel_def run_block_over_elements i32_ring handled_def cong: if_cong)

text \<open>A tensor of 32-bit elements in device memory: its words lie below $2^{30}$, apart from a new range.\<close>

lemma placed_words:
  fixes a o' :: u32 and p q :: int
  assumes "mem_ok c" and "placed_at pt t a c" and "at_dtype t = kInt" and "pt_element_size pt kInt = 4" and "numel t = q" "0 < q" "q < 2 ^ 60"
    and "\<And>r. r \<in> live (ctx_blocks c) \<Longrightarrow> \<not> overlaps (unat o', g) r" and "4 * p \<le> int g" "0 < p" and "unat o' mod 4 = 0"
  shows "uint a = 4 * uint (a div 4)" and "q < 2 ^ 30" and "disjoint_ranges (uint (a div 4)) q (uint (o' div 4)) p"
proof -
  have "unat (tensor_nbytes pt t) = nat (4 * q)"
  proof -
    have "uint (of_int q * 4 :: u64) = 4 * q" using assms(6,7) by (simp add: uint_word_ariths uint_word_of_int)
    then show ?thesis using assms(3-5) by (simp add: tensor_nbytes_def unat_eq_nat_uint)
  qed
  then obtain r n where r: "(r, n) \<in> live (ctx_blocks c)" "r \<le> unat a" "unat a + nat (4 * q) \<le> r + n"
    using assms(2) by (auto simp: placed_at_def)
  have "r + n \<le> mem_hi c" using live_bounds [OF _ r(1), of "mem_lo c" "mem_hi c"] assms(1) by (simp add: mem_ok_def)
  then have hi: "unat a + nat (4 * q) < 2 ^ 32" using r(3) mem_hi_bound [OF assms(1)] by simp
  then show "q < 2 ^ 30" using assms(6) by simp
  have mods: "unat a mod 4 = 0" using assms(2) by (simp add: placed_at_def)
  have quarter: "uint (x div 4) = uint x div 4" for x :: u32 by (simp add: uint_div)
  have um: "uint x mod 4 = int (unat x mod 4)" for x :: u32 by (simp only: uint_nat zmod_int of_nat_numeral)
  then have ua: "uint a mod 4 = 0" and uo: "uint o' mod 4 = 0" by (simp_all only: um mods assms(11) of_nat_0)
  then show "uint a = 4 * uint (a div 4)" using div_mult_mod_eq [of "uint a" 4] unfolding quarter by linarith
  have "\<not> overlaps (unat o', g) (r, n)" by (rule assms(8) [OF r(1)])
  then have "unat o' + g \<le> unat a \<or> unat a + nat (4 * q) \<le> unat o'"
    using r assms(6,9,10) by (auto simp: overlaps_def)
  then have "uint o' + 4 * p \<le> uint a \<or> uint a + 4 * q \<le> uint o'"
    using assms(6,9,10) unfolding uint_nat by linarith
  then show "disjoint_ranges (uint (a div 4)) q (uint (o' div 4)) p"
    using ua uo by (auto simp: disjoint_ranges_def quarter)
qed

lemma matmul_launch_args:
  assumes "launch_matmul ids va vb vo m n k None s = (Inr (), s')" and "tv_dtype va = ''i32''"
  shows "aligned va \<and> aligned vb \<and> aligned vo
    \<and> launch_kernel ids ''matmul.i32'' (map arg_u32 [tv_addr va div 4, tv_addr vb div 4, tv_addr vo div 4, m, n, k]) None s = (Inr (), s')"
  using assms
  by (auto simp: launch_matmul_def launch_named_def ptr_cases num_def andThen_def word_arg_def arg_u32_def split: if_splits)

text \<open>What running the kernel makes of the memory, for matrices in memory and a result in a new range.\<close>

definition product_words :: "u32 words \<Rightarrow> int \<Rightarrow> int \<Rightarrow> int \<Rightarrow> int \<Rightarrow> int \<Rightarrow> int \<Rightarrow> u32 words" where
  "product_words mem a b out m n k x =
     (if out \<le> x \<and> x < out + m * n then product_entry mem a b n k ((x - out) div n) ((x - out) mod n) else mem x)"

lemma matmul_run:
  fixes po :: u32
  assumes mem: "mem_ok c" and pt: "pt_element_size pt kInt = 4"
    and a: "at_dtype a = kInt" "at_sizes a = [m, k]" "placed_at pt a pa c"
    and b: "at_dtype b = kInt" "at_sizes b = [k, n]" "placed_at pt b pb c"
    and pos: "0 < m" "0 < n" "0 < k" "m * k < 2 ^ 60" "k * n < 2 ^ 60"
    and new: "\<And>r. r \<in> live (ctx_blocks c) \<Longrightarrow> \<not> overlaps (unat po, g) r" "4 * (m * n) \<le> int g" "unat po mod 4 = 0"
    and kernel: "runs_matmul dv pk"
    and here: "resident instr addr pk"
      "load 0 132 consts = constant_bytes (map arg_u32 [pa div 4, pb div 4, po div 4, u32_of m, u32_of n, u32_of k]) spill"
  shows "dv_run dv instr (launch_of pk None addr) consts bs
    = Some (bytes_of_words (product_words (word_at bs) (uint (pa div 4)) (uint (pb div 4)) (uint (po div 4)) m n k))"
proof -
  have mn: "0 < m * n" using pos by simp
  have q: "numel a = m * k" "numel b = k * n" using a(2) b(2) by (simp_all add: numel_def)
  note wa = placed_words [OF mem a(3,1) pt(1) q(1) _ pos(4) new(1,2) mn new(3)]
  note wb = placed_words [OF mem b(3,1) pt(1) q(2) _ pos(5) new(1,2) mn new(3)]
  have small: "m * k < 1073741824" "k * n < 1073741824" using wa(2) wb(2) pos by simp_all
  have "m \<le> m * k" "k \<le> m * k" "n \<le> k * n" using pos by simp_all
  then have "m < 4294967296" "k < 4294967296" "n < 4294967296" using small by linarith+
  then have sizes: "uint (u32_of m) = m" "uint (u32_of k) = k" "uint (u32_of n) = n"
    using pos by (simp_all add: u32_of_def uint_word_of_int)
  obtain ts where ts: "distinct ts" "set ts = {0..<uint (pk_default_block_dim pk)}" "0 < uint (pk_default_block_dim pk)"
      "dv_run dv instr (launch_of pk None addr) consts bs = map_option bytes_of_words
         (run_block (matmul_kernel i32_arith (uint (pa div 4)) (uint (pb div 4)) (uint (po div 4)) m n k)
            (uint (pk_default_block_dim pk)) ts (word_at bs))"
    using kernel here sizes unfolding runs_matmul_def by metis
  show ?thesis
    using ts(4) matmul_all_lanes [OF pos(2) wa(3) wb(3) ts(1-3)] pos by (simp add: product_words_def [abs_def])
qed

lemma result_bytes:
  fixes v :: int
  defines "w \<equiv> of_int (v * 4) :: u64"
  assumes "0 < v" and "v < 2 ^ 60"
  shows "w \<noteq> 0" "unat w = nat (4 * v)" "unat w < 2 ^ 63"
proof -
  have "uint w = v * 4" unfolding w_def uint_word_of_int using assms(2,3) by simp
  then show "w \<noteq> 0" "unat w = nat (4 * v)" "unat w < 2 ^ 63"
    using assms(2,3) by (auto simp: unat_eq_nat_uint ac_simps nat_less_iff)
qed

lemma six_fit: "132 \<le> dv_span dv \<Longrightarrow> table_fits dv (map arg_u32 [a, b, x, m, n, k])"
  by (simp add: table_fits_def)

text \<open>What a matrix product that returns has done, whatever happens on the link.\<close>

lemma mm_product:
  assumes ok: "sys_ok (c, d)" and dev: "runs_programs (ctx_transport c) dv" and reg: "registry_ok c" and coh: "coherent dv c d"
    and kernel: "find_kernel ''matmul.i32'' c = Some pk" "ids ''matmul.i32'' = Some kid" "runs_matmul dv pk" "132 \<le> dv_span dv"
    and pt: "pt_element_size pt kInt = 4" "pt_storage_bytes pt [m, n] kInt = Inr (of_int (m * n * 4))"
      "\<And>t. at_storage_offset t = 0 \<Longrightarrow> numel t \<noteq> 0 \<Longrightarrow> pt_data_ptr pt t = at_storage t"
    and a: "at_dtype a = kInt" "at_sizes a = [m, k]" "placed_at pt a pa c"
    and b: "at_dtype b = kInt" "at_sizes b = [k, n]" "placed_at pt b pb c"
    and pos: "0 < m" "0 < n" "0 < k" "m * k < 2 ^ 60" "k * n < 2 ^ 60" "m * n < 2 ^ 60"
    and run: "mm pt ids a b (c, d) = (Inr t, (c', d'))"
  shows "at_sizes t = [m, n] \<and> at_dtype t = kInt \<and> coherent dv c' d'
    \<and> at_device t = PrivateUse1 \<and> at_storage_offset t = 0 \<and> at_strides t = pt_strides pt [m, n] None
    \<and> mem_ok c' \<and> mem_hi c' = mem_hi c \<and> ctx_transport c' = ctx_transport c
    \<and> (\<exists>po g. at_storage t = opaque po \<and> (unat po, g) \<in> live (ctx_blocks c') \<and> unat po mod 4 = 0 \<and> nat (4 * (m * n)) \<le> g
         \<and> (\<forall>r \<in> live (ctx_blocks c). \<not> overlaps (unat po, g) r)
         \<and> (\<forall>i \<in> {0..<m}. \<forall>j \<in> {0..<n}. word_at (dv_mem dv d') (uint po div 4 + (i * n + j))
              = product_entry (word_at (dv_mem dv d)) (uint pa div 4) (uint pb div 4) n k i j)
         \<and> (\<forall>x. x < unat po \<or> unat po + nat (4 * m * n) \<le> x \<longrightarrow> dv_mem dv d' x = dv_mem dv d x))"
proof -
  let ?n = "of_int (m * n * 4) :: u64"
  have mn: "0 < m * n" using pos by simp
  note bytes = result_bytes [OF mn pos(6)]
  obtain s1 where created: "new_tensor pt [m, n] kInt (c, d) = (Inr t, s1)"
    and work: "on_views pt ''i32'' [a, b, t] (\<lambda>v. launch_matmul ids (v ! 0) (v ! 1) (v ! 2) (u32_of m) (u32_of n) (u32_of k) None) s1 = (Inr (), (c', d'))"
    using run a b
    by (auto simp: mm_def andThen_def requires_run supported_kernel_dtype_def with_output_def split: sum.splits prod.splits option.splits if_splits)
  obtain po c1 g bs e where new: "s1 = (c1, d)" "at_storage t = opaque po" "at_device t = PrivateUse1" "at_dtype t = kInt"
      "at_sizes t = [m, n]" "at_storage_offset t = 0" "unat ?n \<le> g" "live (ctx_blocks c1) = insert (unat po, g) (live (ctx_blocks c))"
      "\<And>r. r \<in> live (ctx_blocks c) \<Longrightarrow> \<not> overlaps (unat po, g) r" "unat po + g < 2 ^ 32" "c1 = log_event e (c\<lparr>ctx_blocks := bs\<rparr>)" "unat (ctx_default_alignment c) dvd unat po" "mem_ok c1" "at_strides t = pt_strides pt [m, n] None"
    by (rule new_tensor_cases [OF ok pt(2) bytes(1,3) created]) (rule that, assumption+)
  have ptrs: "device_address pt a = Inr pa" "device_address pt b = Inr pb" "device_address pt t = Inr po"
    using a(3) b(3) pt(3) [of t] new(2,3,5,6) pos by (simp_all add: device_address_def is_minigpu_tensor_def placed_at_def numel_def)
  let ?args = "map arg_u32 [pa div 4, pb div 4, po div 4, u32_of m, u32_of n, u32_of k]"
  let ?view = "\<lambda>addr x. \<lparr>tv_addr = addr, tv_elements = of_int (numel x), tv_dtype = ''i32''\<rparr>"
  have "launch_matmul ids (?view pa a) (?view pb b) (?view po t) (u32_of m) (u32_of n) (u32_of k) None (c1, d) = (Inr (), (c', d'))"
    using work ptrs new(1) by (simp add: on_views_def andThen_def view_of_def)
  note args = matmul_launch_args [OF this tensor_view.select_convs(3)]
  have launched: "launch_kernel ids ''matmul.i32'' ?args None (c1, d) = (Inr (), (c', d'))"
    using args [THEN conjunct2, THEN conjunct2, THEN conjunct2] unfolding tensor_view.select_convs .
  have po: "po mod 4 = 0"
    using args [THEN conjunct2, THEN conjunct2, THEN conjunct1] unfolding aligned_def tensor_view.select_convs .
  have "unat po mod unat (4 :: u32) = 0" unfolding unat_mod [symmetric] po by simp
  then have po: "unat po mod 4 = 0" by simp
  have c1: "prog_ok c1" "runs_programs (ctx_transport c1) dv" "registry_ok c1" "coherent dv c1 d" "find_kernel ''matmul.i32'' c1 = Some pk"
    unfolding new(11) using ok dev reg coh kernel(1) by (simp_all add: sys_ok_def new_blocks)
  note eff = launch_effect [OF c1(1-5) kernel(2) six_fit [OF kernel(4)] launched]
  obtain addr where res: "resident (dv_instr dv d') addr pk" "load 0 132 (dv_const dv d') = constant_bytes ?args (ctx_compiler_spill_base c1)"
      "dv_run dv (dv_instr dv d') (launch_of pk None addr) (dv_const dv d') (dv_mem dv d) = Some (dv_mem dv d')"
    using eff(6) by (auto simp: constant_bytes_def length_constants_table)
  have g: "4 * (m * n) \<le> int g" using new(7) bytes(2) mn by (simp add: ac_simps)
  have mem: "mem_ok c" using ok by (simp add: sys_ok_def)
  let ?o = "uint (po div 4)"
  let ?ws = "product_words (word_at (dv_mem dv d)) (uint (pa div 4)) (uint (pb div 4)) ?o m n k"
  have final: "dv_mem dv d' = bytes_of_words ?ws"
    using res(3) matmul_run [OF mem pt(1) a b pos(1-5) new(9) g po kernel(3) res(1,2)] by simp
  have entries: "word_at (dv_mem dv d') (?o + (i * n + j)) = product_entry (word_at (dv_mem dv d)) (uint (pa div 4)) (uint (pb div 4)) n k i j"
    if "i \<in> {0..<m}" "j \<in> {0..<n}" for i j
  proof -
    have "i * n + j < m * n" using that mult_right_mono [of "i + 1" m n] pos(2) by (simp add: distrib_right)
    then show ?thesis using that pos by (simp add: final product_words_def)
  qed
  have frame: "dv_mem dv d' x = dv_mem dv d x" if "x < unat po \<or> unat po + nat (4 * m * n) \<le> x" for x
  proof -
    have "4 * unat (po div 4) = unat po" using po by (simp add: unat_div) presburger
    then have "\<not> (?o \<le> int (x div 4) \<and> int (x div 4) < ?o + m * n)"
      using that mn unfolding uint_nat by linarith
    then have "?ws (int (x div 4)) = word_at (dv_mem dv d) (int (x div 4))" unfolding product_words_def by (rule if_not_P)
    then show ?thesis unfolding final by (rule bytes_of_word_at)
  qed
  have "(unat po, g) \<in> live (ctx_blocks c')" using eff(4) new(8) by (simp add: cache_only_def)
  moreover have "mem_ok c'" "mem_hi c' = mem_hi c" "ctx_transport c' = ctx_transport c"
    using eff(4) new(11,13) by (auto simp: cache_only_def mem_ok_def mem_hi_def mem_lo_def memory_size_def)
  ultimately show ?thesis using new(2-6,9,14) g po eff(2) entries frame by (auto simp: uint_div nat_le_iff)
qed

text \<open>The product returns when the device answers and both memories have room.\<close>

lemma mm_returns:
  assumes ok: "sys_ok (c, d)" and dev: "runs_programs (ctx_transport c) dv" and reg: "registry_ok c" and coh: "coherent dv c d"
    and kernel: "find_kernel ''matmul.i32'' c = Some pk" "ids ''matmul.i32'' = Some kid" "runs_matmul dv pk" "132 \<le> dv_span dv"
    and up: "answers (ctx_transport c) dv" "leaked c = {}" "loadable pk (ctx_program_memory_size c)" "dv_patient dv (timeout_of pk None)"
    and pt: "pt_element_size pt kInt = 4" "pt_storage_bytes pt [m, n] kInt = Inr (of_int (m * n * 4))"
      "\<And>t. at_storage_offset t = 0 \<Longrightarrow> numel t \<noteq> 0 \<Longrightarrow> pt_data_ptr pt t = at_storage t"
    and a: "at_dtype a = kInt" "at_sizes a = [m, k]" "placed_at pt a pa c"
    and b: "at_dtype b = kInt" "at_sizes b = [k, n]" "placed_at pt b pb c"
    and pos: "0 < m" "0 < n" "0 < k" "m * k < 2 ^ 60" "k * n < 2 ^ 60" "m * n < 2 ^ 60"
    and al: "4 dvd unat (ctx_default_alignment c)"
    and room: "\<exists>blk \<in> set (ctx_blocks c). has_room (unat (ctx_default_alignment c))
      (grant (of_int (m * n * 4)) (ctx_default_alignment c)) blk"
  shows "\<exists>t s'. mm pt ids a b (c, d) = (Inr t, s')"
proof -
  let ?n = "of_int (m * n * 4) :: u64"
  have mn: "0 < m * n" using pos by simp
  note bytes = result_bytes [OF mn pos(6)]
  obtain t s1 where created: "new_tensor pt [m, n] kInt (c, d) = (Inr t, s1)"
    using new_tensor_returns [OF ok pt(2) bytes(1,3) room] by blast
  obtain po c1 g bs e where new: "s1 = (c1, d)" "at_storage t = opaque po" "at_device t = PrivateUse1" "at_dtype t = kInt"
      "at_sizes t = [m, n]" "at_storage_offset t = 0" "unat ?n \<le> g" "live (ctx_blocks c1) = insert (unat po, g) (live (ctx_blocks c))"
      "\<And>r. r \<in> live (ctx_blocks c) \<Longrightarrow> \<not> overlaps (unat po, g) r" "unat po + g < 2 ^ 32" "c1 = log_event e (c\<lparr>ctx_blocks := bs\<rparr>)"
      "unat (ctx_default_alignment c) dvd unat po" "mem_ok c1" "at_strides t = pt_strides pt [m, n] None"
    by (rule new_tensor_cases [OF ok pt(2) bytes(1,3) created]) (rule that, assumption+)
  have ptrs: "device_address pt a = Inr pa" "device_address pt b = Inr pb" "device_address pt t = Inr po"
    using a(3) b(3) pt(3) [of t] new(2,3,5,6) pos by (simp_all add: device_address_def is_minigpu_tensor_def placed_at_def numel_def)
  have po: "unat po mod 4 = 0" using dvd_trans [OF al new(12)] by simp
  let ?args = "map arg_u32 [pa div 4, pb div 4, po div 4, u32_of m, u32_of n, u32_of k]"
  have c1: "prog_ok c1" "runs_programs (ctx_transport c1) dv" "registry_ok c1" "coherent dv c1 d" "find_kernel ''matmul.i32'' c1 = Some pk"
      "answers (ctx_transport c1) dv" "leaked c1 = {}" "loadable pk (ctx_program_memory_size c1)"
    unfolding new(11) using ok dev reg coh kernel(1) up by (simp_all add: sys_ok_def new_blocks)
  have g: "4 * (m * n) \<le> int g" using new(7) bytes(2) mn by (simp add: ac_simps)
  have mem: "mem_ok c" using ok by (simp add: sys_ok_def)
  note run = matmul_run [OF mem pt(1) a b pos(1-5) new(9) g po kernel(3)]
  have "\<exists>s'. launch_kernel ids ''matmul.i32'' ?args None (c1, d) = (Inr (), s')"
    by (rule launch_returns [where ids = ids and kid = kid and dv = dv, OF c1(1-5) kernel(2) six_fit [OF kernel(4)] c1(6-8) up(4)])
      (use run in \<open>auto simp: constant_bytes_def length_constants_table\<close>)
  then obtain s' where launched: "launch_kernel ids ''matmul.i32'' ?args None (c1, d) = (Inr (), s')" by blast
  have words: "x mod 4 = 0" if "unat x mod 4 = 0" for x :: u32
    using that unat_mod [of x 4] by (simp add: unat_eq_zero)
  have "pa mod 4 = 0" "pb mod 4 = 0" "po mod 4 = 0" using words a(3) b(3) po by (simp_all add: placed_at_def)
  then have "on_views pt ''i32'' [a, b, t] (\<lambda>v. launch_matmul ids (v ! 0) (v ! 1) (v ! 2) (u32_of m) (u32_of n) (u32_of k) None) s1 = (Inr (), s')"
    using launched ptrs new(1)
    by (simp add: on_views_def andThen_def view_of_def launch_matmul_def launch_named_def ptr_cases aligned_def num_def word_arg_def arg_u32_def)
  then have "mm pt ids a b (c, d) = (Inr t, s')"
    using created a b
    by (simp add: mm_def andThen_def requires_run supported_kernel_dtype_def with_output_def placed_at_def dim_def)
  then show ?thesis by blast
qed

text \<open>
  C2: the matrix product from end to end. On a device that runs programs and answers, with a coherent program cache,
  no leaked slot of instruction memory and a free block of device memory for the result, \<open>torch.mm\<close> on two matrices
  of 32-bit integers returns. Its result has the right shape and type, its memory is a new allocation apart from every
  older one, its entries are the entries of the product modulo $2^{32}$, every byte of device memory outside the
  result is as before, and the program cache is coherent again.
\<close>

theorem mm_computes_product:
  assumes ok: "sys_ok (c, d)" and dev: "runs_programs (ctx_transport c) dv" and reg: "registry_ok c" and coh: "coherent dv c d"
    and kernel: "find_kernel ''matmul.i32'' c = Some pk" "ids ''matmul.i32'' = Some kid" "runs_matmul dv pk" "132 \<le> dv_span dv"
    and up: "answers (ctx_transport c) dv" "leaked c = {}" "loadable pk (ctx_program_memory_size c)" "dv_patient dv (timeout_of pk None)"
    and pt: "pt_element_size pt kInt = 4" "pt_storage_bytes pt [m, n] kInt = Inr (of_int (m * n * 4))"
      "\<And>t. at_storage_offset t = 0 \<Longrightarrow> numel t \<noteq> 0 \<Longrightarrow> pt_data_ptr pt t = at_storage t"
    and a: "at_dtype a = kInt" "at_sizes a = [m, k]" "placed_at pt a pa c"
    and b: "at_dtype b = kInt" "at_sizes b = [k, n]" "placed_at pt b pb c"
    and pos: "0 < m" "0 < n" "0 < k" "m * k < 2 ^ 60" "k * n < 2 ^ 60" "m * n < 2 ^ 60"
    and al: "4 dvd unat (ctx_default_alignment c)"
    and room: "\<exists>blk \<in> set (ctx_blocks c). has_room (unat (ctx_default_alignment c))
      (grant (of_int (m * n * 4)) (ctx_default_alignment c)) blk"
  shows "\<exists>t c' d' po g. mm pt ids a b (c, d) = (Inr t, (c', d')) \<and> at_sizes t = [m, n] \<and> at_dtype t = kInt \<and> coherent dv c' d'
    \<and> at_storage t = opaque po \<and> (unat po, g) \<in> live (ctx_blocks c') \<and> (\<forall>r \<in> live (ctx_blocks c). \<not> overlaps (unat po, g) r)
    \<and> (\<forall>i \<in> {0..<m}. \<forall>j \<in> {0..<n}. word_at (dv_mem dv d') (uint po div 4 + (i * n + j))
         = product_entry (word_at (dv_mem dv d)) (uint pa div 4) (uint pb div 4) n k i j)
    \<and> (\<forall>x. x < unat po \<or> unat po + nat (4 * m * n) \<le> x \<longrightarrow> dv_mem dv d' x = dv_mem dv d x)"
proof -
  obtain t c' d' where run: "mm pt ids a b (c, d) = (Inr t, (c', d'))"
    using mm_returns [where dv = dv and ids = ids and kid = kid, OF ok dev reg coh kernel up pt a b pos al room] by auto
  show ?thesis
    using mm_product [where dv = dv and ids = ids and kid = kid, OF ok dev reg coh kernel pt a b pos run] run by blast
qed

section \<open>A concrete product\<close>

text \<open>A machine that runs every program as the matrix product, on four lanes in order.\<close>

definition run_product :: runner where
  "run_product instr l consts mem = map_option bytes_of_words
     (run_block (matmul_kernel i32_arith (uint (word_at consts 0)) (uint (word_at consts 1)) (uint (word_at consts 2))
        (uint (word_at consts 3)) (uint (word_at consts 4)) (uint (word_at consts 5))) 4 [0, 1, 2, 3] (word_at mem))"

lemma concat_word_bytes_nth:
  "i < length ws \<Longrightarrow> k < 4 \<Longrightarrow> concat (map word_bytes ws) ! (4 * i + k) = word_bytes (ws ! i) ! k"
proof (induction ws arbitrary: i)
  case (Cons w ws)
  have four: "length (word_bytes w) = 4" by (simp add: word_bytes_def)
  show ?case
  proof (cases i)
    case (Suc j)
    then have "concat (map word_bytes (w # ws)) ! (4 * i + k) = concat (map word_bytes ws) ! (4 * j + k)"
      using four by (simp add: nth_append)
    then show ?thesis using Cons Suc by simp
  qed (use Cons four in \<open>simp add: nth_append\<close>)
qed simp

lemma word_at_table:
  assumes "load 0 (4 * length ws) m = concat (map word_bytes ws)" and "i < length ws"
  shows "word_at m (int i) = ws ! i"
proof -
  have "m (4 * i + k) = word_bytes (ws ! i) ! k" if "k < 4" for k
    using concat_word_bytes_nth [OF assms(2) that] nth_load [of "4 * i + k" "4 * length ws" 0 m] assms that by simp
  then have b: "m (4 * i + k) = bytes_of_words (\<lambda>_. ws ! i) (4 * i + k)" if "k < 4" for k
    using that by (simp add: bytes_of_words_def)
  have "word_at m (int i) = word_at (bytes_of_words (\<lambda>_. ws ! i)) (int i)"
    using b [of 0] b [of 1] b [of 2] b [of 3] unfolding word_at_def nat_int by simp
  then show ?thesis by simp
qed

lemma run_product_matmul:
  assumes "pk_default_block_dim pk = 4"
  shows "runs_matmul (machine_view run_product) pk"
  unfolding runs_matmul_def
proof (intro conjI allI impI)
  fix instr addr cmem mem spill
  fix a b out m n k :: u32
  assume "load 0 132 cmem = constant_bytes (map arg_u32 [a, b, out, m, n, k]) spill"
  then have t: "word_at cmem (int i) = constants_table (map arg_u32 [a, b, out, m, n, k]) spill ! i" if "i < 33" for i
    using word_at_table [of "constants_table (map arg_u32 [a, b, out, m, n, k]) spill" cmem i] that
    by (simp add: constant_bytes_def length_constants_table)
  have "word_at cmem 0 = a" "word_at cmem 1 = b" "word_at cmem 2 = out" "word_at cmem 3 = m"
    "word_at cmem 4 = n" "word_at cmem 5 = k"
    using t [of 0] t [of 1] t [of 2] t [of 3] t [of 4] t [of 5] by (simp_all add: constants_table_def spill_slot_def arg_u32_def Let_def)
  moreover have "set [0, 1, 2, 3] = {0..<4 :: int}" by auto
  ultimately show "\<exists>ts. distinct ts \<and> set ts = {0..<uint (pk_default_block_dim pk)} \<and>
      dv_run (machine_view run_product) instr (launch_of pk None addr) cmem mem = map_option bytes_of_words
        (run_block (matmul_kernel i32_arith (uint a) (uint b) (uint out) (uint m) (uint n) (uint k))
          (uint (pk_default_block_dim pk)) ts (word_at mem))"
    using assms by (intro exI [of _ "[0, 1, 2, 3]"]) (simp add: run_product_def)
qed (simp add: assms)

text \<open>Two matrices with one entry each, at addresses 0 and 4, and 48 free bytes behind them.\<close>

abbreviation product_context :: "machine gpu_context" where
  "product_context \<equiv> machine_context run_product ''matmul.i32''
     [\<lparr>boffset = 0, bsize = 4, bfree = False\<rparr>, \<lparr>boffset = 4, bsize = 4, bfree = False\<rparr>, \<lparr>boffset = 8, bsize = 48, bfree = True\<rparr>]"

definition tiny_matrix :: "u64 \<Rightarrow> at_tensor" where
  "tiny_matrix storage = \<lparr>at_device = PrivateUse1, at_dtype = kInt, at_sizes = [1, 1], at_strides = [1, 1],
     at_storage_offset = 0, at_storage = storage\<rparr>"

abbreviation product_machine :: machine where
  "product_machine \<equiv> \<lparr>m_instr = (\<lambda>_. 0), m_const = (\<lambda>_. 0),
     m_mem = (\<lambda>x. if x = 0 then 3 else if x = 4 then 5 else 0), m_started = None\<rparr>"

lemma product_context_ok:
  fixes c defines "c \<equiv> product_context"
  shows "sys_ok (c, d)" "placed_at demo_torch (tiny_matrix 1) 0 c" "placed_at demo_torch (tiny_matrix 5) 4 c"
    "\<exists>blk \<in> set (ctx_blocks c). has_room (unat (ctx_default_alignment c)) (grant (of_int (1 * 1 * 4)) (ctx_default_alignment c)) blk"
    "4 dvd unat (ctx_default_alignment c)"
proof -
  note ok = machine_context_ok [where run = run_product and name = "''matmul.i32''"]
  have blocks: "ctx_blocks c = [\<lparr>boffset = 0, bsize = 4, bfree = False\<rparr>, \<lparr>boffset = 4, bsize = 4, bfree = False\<rparr>, \<lparr>boffset = 8, bsize = 48, bfree = True\<rparr>]"
    and al: "ctx_default_alignment c = 4" by (simp_all add: c_def machine_context_def)
  show "sys_ok (c, d)" using ok(1) unfolding sys_ok_def c_def
    by (simp add: mem_ok_def machine_context_def mem_lo_def mem_hi_def memory_size_def)
  show "placed_at demo_torch (tiny_matrix 1) 0 c" "placed_at demo_torch (tiny_matrix 5) 4 c"
    by (auto simp: placed_at_def tiny_matrix_def demo_torch_fields is_contiguous_def contiguous_strides_def numel_def opaque_def tensor_nbytes_def blocks
        intro: exI [of _ 4])
  show "\<exists>blk \<in> set (ctx_blocks c). has_room (unat (ctx_default_alignment c)) (grant (of_int (1 * 1 * 4)) (ctx_default_alignment c)) blk"
    unfolding blocks al by (simp add: has_room_def round_up_def)
  show "4 dvd unat (ctx_default_alignment c)" by (simp add: al)
qed

lemma mm_computes_product_witness:
  "\<exists>t c' d' po. mm demo_torch (\<lambda>_. Some 0) (tiny_matrix 1) (tiny_matrix 5) (product_context, product_machine) = (Inr t, (c', d'))
     \<and> at_storage t = opaque po \<and> word_at (m_mem d') (uint po div 4) = 15"
proof -
  note ok = machine_context_ok [where run = run_product and name = "''matmul.i32''"]
  let ?pk = "full_kernel\<lparr>pk_name := ''matmul.i32''\<rparr>"
  have dev: "runs_programs (ctx_transport product_context) (machine_view run_product)"
      "answers (ctx_transport product_context) (machine_view run_product)"
    by (simp_all add: ok(7) machine_runs machine_answers)
  have kernel: "(\<lambda>_ :: string. Some (0 :: u8)) ''matmul.i32'' = Some 0" "runs_matmul (machine_view run_product) ?pk"
      "132 \<le> dv_span (machine_view run_product)" "dv_patient (machine_view run_product) (timeout_of ?pk None)"
    by (simp, rule run_product_matmul, simp add: full_kernel_def empty_precompiled_kernel_def) simp_all
  have pt: "pt_element_size demo_torch kInt = 4" "pt_storage_bytes demo_torch [1, 1] kInt = Inr (of_int (1 * 1 * 4))"
      "\<And>t. at_storage_offset t = 0 \<Longrightarrow> numel t \<noteq> 0 \<Longrightarrow> pt_data_ptr demo_torch t = at_storage t"
    by (simp_all add: demo_torch_fields)
  have t: "at_dtype (tiny_matrix q) = kInt" "at_sizes (tiny_matrix q) = [1, 1]" for q by (simp_all add: tiny_matrix_def)
  have pos: "0 < (1 :: int)" "(1 :: int) * 1 < 2 ^ 60" by simp_all
  note total = mm_computes_product [where d = product_machine, OF product_context_ok(1) dev(1) ok(3,4,5) kernel(1-3) dev(2) ok(2,6) kernel(4) pt
      t product_context_ok(2) t product_context_ok(3) pos(1,1,1,2,2,2) product_context_ok(5,4), unfolded machine_views]
  obtain t c' d' po where run: "mm demo_torch (\<lambda>_. Some 0) (tiny_matrix 1) (tiny_matrix 5) (product_context, product_machine) = (Inr t, (c', d'))"
      "at_storage t = opaque po" and entry: "\<forall>i \<in> {0..<1}. \<forall>j \<in> {0..<1}. word_at (m_mem d') (uint po div 4 + (i * 1 + j))
        = product_entry (word_at (m_mem product_machine)) (uint (0 :: u32) div 4) (uint (4 :: u32) div 4) 1 1 i j"
    using total by blast
  have "product_entry (word_at (m_mem product_machine)) (uint (0 :: u32) div 4) (uint (4 :: u32) div 4) 1 1 0 0 = 15"
  proof -
    have "{0..<1 :: int} = {0}" by auto
    then show ?thesis by (simp add: product_entry_def word_at_def)
  qed
  then have "word_at (m_mem d') (uint po div 4) = 15" using entry [rule_format, of 0 0] by simp
  then show ?thesis using run by blast
qed

end
