(* ===== verification/SerialPrograms.thy ===== *)
theory SerialPrograms
  imports WaitStatus Offload
begin

text \<open>
  Programs over the serial link. \<open>serial_gpu\<close> states what \<open>gpu_comm/src/com.h\<close> documents of a device that runs
  programs, uploads, launches and status requests beside the data commands of \<open>SerialDevice\<close>, as a locale. Over such a device the
  callbacks of \<open>make_gpu_comm_transport\<close> keep the laws that \<open>LoadedPrograms\<close> and \<open>LaunchRuns\<close> rest on, so that their
  results, and the matrix product from end to end, hold over the wire.
\<close>

section \<open>A device that runs programs\<close>

text \<open>The device has its memories, what was started, and how many polls still find it busy.\<close>

record gpu_machine = machine +
  m_polls :: nat

definition upload_answer ::
    "'w os \<Rightarrow> int \<Rightarrow> ('w \<Rightarrow> bytes) \<Rightarrow> ('w \<Rightarrow> gpu_machine) \<Rightarrow> com_cmd
       \<Rightarrow> (((nat \<Rightarrow> u8) \<Rightarrow> nat \<Rightarrow> u8) \<Rightarrow> gpu_machine \<Rightarrow> gpu_machine) \<Rightarrow> bool" where
  "upload_answer os fd pend st cmd upd \<longleftrightarrow>
     (\<forall>w a payload. pend w = [] \<longrightarrow> length payload mod 4 = 0 \<longrightarrow> 0 < length payload \<longrightarrow> length payload \<le> 252 \<longrightarrow>
        unat a + length payload \<le> 65536 \<longrightarrow>
        (\<exists>w'. os_write os fd (frame (cmd_code cmd) a (of_nat (length payload)) payload) w = (int (7 + length payload), w')
           \<and> pend w' = frame (cmd_code CMD_ACK) a 0 [] \<and> st w' = upd (store (unat a) payload) (st w)))"

text \<open>
  A status request: a busy device says that it is neither done nor at fault; otherwise what was started has run, and
  the word says that it is done, or it could not run, and the word says that there was a fault.
\<close>

definition polled :: "transport_config \<Rightarrow> runner \<Rightarrow> gpu_machine \<Rightarrow> u32 \<Rightarrow> gpu_machine \<Rightarrow> bool" where
  "polled config run m word m' \<longleftrightarrow>
     (case m_started m of
        None \<Rightarrow> m' = m
      | Some l \<Rightarrow>
          if 0 < m_polls m
          then status_fault config word = None \<and> word AND tc_status_done_mask config = 0 \<and> m' = m\<lparr>m_polls := m_polls m - 1\<rparr>
          else (case run (m_instr m) l (m_const m) (m_mem m) of
              Some mem \<Rightarrow> status_fault config word = None \<and> word AND tc_status_done_mask config \<noteq> 0
                \<and> m' = m\<lparr>m_mem := mem, m_started := None\<rparr>
            | None \<Rightarrow> status_fault config word \<noteq> None \<and> m_instr m' = m_instr m \<and> m_const m' = m_const m))"

text \<open>While a wait polls, only the count of polls changes.\<close>

definition only_polls :: "gpu_machine \<Rightarrow> gpu_machine \<Rightarrow> bool" where
  "only_polls m m' \<longleftrightarrow> (\<exists>j. m' = m\<lparr>m_polls := j\<rparr>)"

lemma only_polls_refl: "only_polls m m"
  by (auto simp: only_polls_def intro: exI [of _ "m_polls m"])

lemma only_polls_trans: "only_polls m m' \<Longrightarrow> only_polls m' m'' \<Longrightarrow> only_polls m m''"
  by (auto simp: only_polls_def)

lemma only_polls_fields: "only_polls m m' \<Longrightarrow>
    m_instr m' = m_instr m \<and> m_const m' = m_const m \<and> m_mem m' = m_mem m \<and> m_started m' = m_started m"
  by (auto simp: only_polls_def)

lemma polled_keeps: "polled config run m word m' \<Longrightarrow> m_instr m' = m_instr m \<and> m_const m' = m_const m"
  by (auto simp: polled_def split: option.splits if_splits)

lemma polled_busy:
  "\<lbrakk>polled config run m word m'; status_fault config word = None; word AND tc_status_done_mask config = 0\<rbrakk> \<Longrightarrow> only_polls m m'"
  by (auto simp: polled_def only_polls_refl split: option.splits if_splits) (auto simp: only_polls_def)

lemma polled_done:
  "\<lbrakk>polled config run m word m'; status_fault config word = None; word AND tc_status_done_mask config \<noteq> 0; m_started m = Some l\<rbrakk>
   \<Longrightarrow> run (m_instr m) l (m_const m) (m_mem m) = Some (m_mem m')"
  by (auto simp: polled_def split: option.splits if_splits)

text \<open>What an upload of the range at \<open>a\<close> has done when it returns: all of it, or nothing.\<close>

definition uploaded ::
    "('w \<Rightarrow> bytes) \<Rightarrow> ('w \<Rightarrow> gpu_machine) \<Rightarrow> (((nat \<Rightarrow> u8) \<Rightarrow> nat \<Rightarrow> u8) \<Rightarrow> gpu_machine \<Rightarrow> gpu_machine)
       \<Rightarrow> u32 \<Rightarrow> bytes \<Rightarrow> u64 \<Rightarrow> ('w, exn, status + unit) action \<Rightarrow> 'w \<Rightarrow> bool" where
  "uploaded pend st upd a bs n m w \<longleftrightarrow>
     (\<exists>r w'. m w = (Inr r, w') \<and> pend w' = []
        \<and> (r = Inr () \<and> st w' = upd (store (unat a) bs) (st w)
           \<or> (r = Inl BadArgument \<or> r = Inl OutOfRange) \<and> st w' = st w)
        \<and> (n \<noteq> 0 \<and> unat n mod 4 = 0 \<longrightarrow> r = Inr ()))"

lemma uploaded_status:
  assumes "uploaded pend st upd a bs n m w" and "status_of m w = (r, w')"
  shows "pend w' = []" and "st w' = upd (store (unat a) bs) (st w) \<or> r \<noteq> Inr Ok \<and> st w' = st w"
    and "n \<noteq> 0 \<Longrightarrow> unat n mod 4 = 0 \<Longrightarrow> r = Inr Ok"
  using assms by (auto simp: uploaded_def status_of_def andThen_def)

lemma upload_answerD:
  assumes "upload_answer os fd pend st cmd upd" and "pend w = []" and "length payload mod 4 = 0" and "0 < length payload"
    and "length payload \<le> 252" and "unat a + length payload \<le> 65536"
  shows "\<exists>w'. os_write os fd (frame (cmd_code cmd) a (of_nat (length payload)) payload) w = (int (7 + length payload), w')
           \<and> pend w' = frame (cmd_code CMD_ACK) a 0 [] \<and> st w' = upd (store (unat a) payload) (st w)"
  using assms(1) [unfolded upload_answer_def, rule_format, OF assms(2-6)] .

section \<open>Packets that are acknowledged\<close>

lemma send_packet_answered:
  assumes dev: "delivers os (dev_fd dv) pend st"
    and build: "com_build_packet (cmd_code cmd) a payload (of_nat n) = Inr tx"
    and wr: "os_write os (dev_fd dv) tx w = (int (length tx), w1)" and ack: "pend w1 = frame (cmd_code CMD_ACK) a 0 []"
  shows "\<exists>w'. send_packet os (Some dv) cmd a payload n w = (Inr (Inr ()), w') \<and> pend w' = [] \<and> st w' = st w1"
proof -
  have send: "com_status (com_send_raw os (Some dv) tx) w = (Inr (Inr ()), w1)"
    using wr by (intro com_status_Inr com_send_written)
  obtain w2 where recv: "com_recv_raw os (Some dv) COM_OVERHEAD w1 = (Inr (Inr (frame (cmd_code CMD_ACK) a 0 [])), w2)"
    and w2: "pend w2 = []" "st w2 = st w1"
    using com_recv_pending [OF dev, of COM_OVERHEAD w1] ack by (auto simp: com_constants)
  have recv': "com_status (com_recv_raw os (Some dv) COM_OVERHEAD) w1 = (Inr (Inr (frame (cmd_code CMD_ACK) a 0 [])), w2)"
    using recv by (rule com_status_Inr)
  have parse: "com_status (parse_received (frame (cmd_code CMD_ACK) a 0 [])) w2
      = (Inr (Inr \<lparr>cp_cmd = cmd_code CMD_ACK, cp_addr = a, cp_len = 0, cp_payload = []\<rparr>), w2)"
    by (intro com_status_Inr parse_received_frame) simp_all
  have "expect_ack os (Some dv) a w1 = (Inr (Inr ()), w2)"
    using recv' parse by (simp add: expect_ack_def on_ok_Inr fail_unless_def)
  then have "on_ok (com_status (com_send_raw os (Some dv) tx)) (\<lambda>_. expect_ack os (Some dv) a) w = (Inr (Inr ()), w2)"
    using send by (simp add: on_ok_Inr)
  then have "retry kRetries (on_ok (com_status (com_send_raw os (Some dv) tx)) (\<lambda>_. expect_ack os (Some dv) a)) Transport w
      = (Inr (Inr ()), w2)"
    unfolding kRetries_def numeral_3_eq_3 by (rule retry_success)
  then show ?thesis using build w2 by (simp add: send_packet_def del: retry.simps)
qed

lemma build_whole:
  assumes "length body \<le> 252"
  shows "com_build_packet cmd a (Some body) (of_nat (length body)) = Inr (frame cmd a (of_nat (length body)) body)"
proof -
  have "unat (of_nat (length body) :: u16) = length body" using assms by (simp add: unat_of_nat)
  then show ?thesis using build_fields_frame [of "length body" body] assms by (simp add: com_build_packet_def)
qed

section \<open>Uploads\<close>

text \<open>The chunks of an upload, for the memory that \<open>upd\<close> updates.\<close>

lemma upload_chunks:
  assumes dev: "delivers os (dev_fd dv) pend st" and up: "upload_answer os (dev_fd dv) pend st cmd upd"
    and fuse: "\<And>f g m. upd f (upd g m) = upd (\<lambda>x. f (g x)) m" "\<And>m. upd (\<lambda>x. x) m = m"
  shows "pend w = [] \<Longrightarrow> length rest mod 4 = 0 \<Longrightarrow> unat dst + offset + length rest \<le> 65536 \<Longrightarrow>
    \<exists>w'. write_chunks os (Some dv) cmd dst 1 offset rest w = (Inr (Inr ()), w')
      \<and> pend w' = [] \<and> st w' = upd (store (unat dst + offset) rest) (st w)"
proof (induction "length rest" arbitrary: rest offset w rule: less_induct)
  case less
  show ?case
  proof (cases "rest = []")
    case True
    have "store a [] = (\<lambda>x. x)" for a by (simp add: store_def fun_eq_iff)
    then show ?thesis using True less.prems(1) fuse(2) by (simp add: write_chunks.simps)
  next
    case False
    let ?chunk = "take 252 rest" and ?a = "dst + of_nat offset"
    have max: "max_aligned_payload 1 = 252" by (simp add: max_aligned_payload_def com_constants)
    have n: "length ?chunk mod 4 = 0" "0 < length ?chunk" "length ?chunk \<le> 252" using less.prems(2) False by (auto simp: min_def)
    have pad: "padded_payload_len (length ?chunk) = length ?chunk"
      using padded_len_bounds(5) [OF n(1)] by (simp add: padded_payload_len_def padded_len_def)
    have fits: "unat dst + offset + length ?chunk \<le> 65536" using less.prems(3) by simp
    then have a: "unat ?a = unat dst + offset"
      using n(2) by (subst unat_add_small) (simp_all add: unat_of_nat)
    have low: "unat dst + offset \<le> 65535" using fits n(2) by linarith
    have a16: "unat ?a \<le> 65535" "unat (ucast ?a :: u16) = unat dst + offset"
      using a low unat_u16_addr [of ?a] by simp_all
    obtain w1 where wr: "os_write os (dev_fd dv) (frame (cmd_code cmd) (ucast ?a) (of_nat (length ?chunk)) ?chunk) w
        = (int (7 + length ?chunk), w1)"
      and w1: "pend w1 = frame (cmd_code CMD_ACK) (ucast ?a) 0 []" "st w1 = upd (store (unat dst + offset) ?chunk) (st w)"
      using upload_answerD [OF up less.prems(1) n, of "ucast ?a"] fits unfolding a16(2) by blast
    obtain w2 where sent: "send_packet os (Some dv) cmd (ucast ?a) (Some ?chunk) (length ?chunk) w = (Inr (Inr ()), w2)"
      and w2: "pend w2 = []" "st w2 = st w1"
      using send_packet_answered [OF dev build_whole [OF n(3)] _ w1(1)] wr by auto
    have step: "write_chunks os (Some dv) cmd dst 1 offset rest w
        = write_chunks os (Some dv) cmd dst 1 (offset + length ?chunk) (drop 252 rest) w2"
      using False sent pad protocol_addr_bytes [OF a16(1)]
      by (subst write_chunks.simps) (simp add: max Let_def on_ok_Inr)
    have "length (drop 252 rest) < length rest" "length (drop 252 rest) mod 4 = 0"
      "unat dst + (offset + length ?chunk) + length (drop 252 rest) \<le> 65536"
      using False less.prems(2,3) by (auto simp: min_def) presburger?
    from less.hyps [OF this(1) w2(1) this(2,3)] obtain w' where
      "write_chunks os (Some dv) cmd dst 1 (offset + length ?chunk) (drop 252 rest) w2 = (Inr (Inr ()), w')"
      and w': "pend w' = []" "st w' = upd (store (unat dst + (offset + length ?chunk)) (drop 252 rest)) (st w2)" by blast
    moreover have "store (unat dst + offset) rest = (\<lambda>x. store (unat dst + (offset + length ?chunk)) (drop 252 rest) (store (unat dst + offset) ?chunk x))"
      using store_append [of "unat dst + offset" ?chunk "drop 252 rest"] by (simp add: fun_eq_iff add.assoc)
    ultimately show ?thesis using step w2(2) w1(2) fuse(1) by simp
  qed
qed

lemma packet_words_whole: "length bs = n \<Longrightarrow> n mod 4 = 0 \<Longrightarrow> host_words_to_packet bs n = bs"
proof (induction n arbitrary: bs rule: less_induct)
  case (less n)
  show ?case
  proof (cases "bs = []")
    case True
    then show ?thesis using less.prems by (simp add: host_words_to_packet_def)
  next
    case False
    then have "n \<noteq> 0" using less.prems(1) by auto
    moreover obtain j where "n = 4 * j" using less.prems(2) by (auto elim!: dvdE simp: mod_0_imp_dvd)
    ultimately obtain i where i: "n = 4 * Suc i" by (cases j) auto
    then have n: "4 \<le> n" "n div 4 = Suc ((n - 4) div 4)" "(n - 4) mod 4 = 0" by simp_all
    have "Suc (Suc (Suc (Suc 0))) \<le> length bs" using n(1) less.prems(1) by simp
    then obtain a b c d rest where bs: "bs = a # b # c # d # rest" unfolding Suc_le_length_iff by blast
    have word: "put_u32_rtl_rx (host_load [a, b, c, d]) = [a, b, c, d]"
      unfolding put_u32_rtl_rx_def host_load_def get_u32_le_def ucast_byte_mask
      using byte_of_join [of a b c d] by simp
    have "host_words_to_packet rest (n - 4) = rest" using less.IH [of "n - 4" rest] less.prems n bs by simp
    then show ?thesis using n(2) word by (simp add: host_words_to_packet_def bs)
  qed
qed

section \<open>The contract of the device\<close>

locale serial_gpu =
  fixes os :: "'w os" and dv :: com_dev and config :: transport_config and run :: runner
    and pend :: "'w \<Rightarrow> bytes" and st :: "'w \<Rightarrow> gpu_machine"
  assumes delivered: "delivers os (dev_fd dv) pend st"
    and now_keeps: "pend (snd (os_now os w)) = pend w" "st (snd (os_now os w)) = st w"
    and sleep_keeps: "pend (os_sleep_ms os n w) = pend w" "st (os_sleep_ms os n w) = st w"
    and data_upload: "upload_answer os (dev_fd dv) pend st CMD_WRITE_DATA m_mem_update"
    and program_upload: "upload_answer os (dev_fd dv) pend st CMD_WRITE_PROGRAM m_instr_update"
    and constants_upload: "upload_answer os (dev_fd dv) pend st CMD_WRITE_CONSTANTS m_const_update"
    and data_request: "\<lbrakk>pend w = []; length filler mod 4 = 0; 0 < length filler; length filler \<le> 252; unat a + length filler \<le> 65536\<rbrakk> \<Longrightarrow>
      \<exists>w'. os_write os (dev_fd dv) (frame (cmd_code CMD_READ_DATA) a (of_nat (length filler)) filler) w = (int (7 + length filler), w')
        \<and> pend w' = frame (cmd_code CMD_READ_DATA) a (of_nat (length filler)) (load (unat a) (length filler) (m_mem (st w)))
        \<and> st w' = st w"
    and validates: "pend w = [] \<Longrightarrow>
      \<exists>w'. os_write os (dev_fd dv) (frame (cmd_code CMD_VALIDATE) k 0 []) w = (7, w')
        \<and> pend w' = frame (cmd_code CMD_ACK) k 0 [] \<and> st w' = st w"
    and starts: "pend w = [] \<Longrightarrow>
      \<exists>w' j. os_write os (dev_fd dv) (frame (cmd_code CMD_LAUNCH) pc 12 (put_u32_rtl_rx grid @ put_u32_rtl_rx blk @ put_u32_rtl_rx msk)) w = (19, w')
        \<and> pend w' = frame (cmd_code CMD_ACK) pc 0 []
        \<and> st w' = (st w)\<lparr>m_started := Some (ucast pc, grid, blk, msk), m_polls := j\<rparr>"
    and reports: "pend w = [] \<Longrightarrow>
      \<exists>w' word. os_write os (dev_fd dv) (frame (cmd_code CMD_READ_STATUS) 0 4 [0, 0, 0, 0]) w = (11, w')
        \<and> pend w' = frame (cmd_code CMD_READ_STATUS) 0 4 (put_u32_rtl_rx word) \<and> polled config run (st w) word (st w')"

begin

text \<open>Its data memory is the one of \<open>SerialDevice\<close>.\<close>

lemma is_serial_device: "serial_device os (dev_fd dv) pend (\<lambda>w. m_mem (st w))"
  unfolding serial_device_def
proof (intro conjI allI impI)
  show "delivers os (dev_fd dv) pend (\<lambda>w. m_mem (st w))"
    using delivered unfolding delivers_def by (elim all_forward imp_forward ex_forward) simp_all
next
  fix w and a :: u16 and payload :: bytes
  assume "pend w = []" "length payload mod 4 = 0" "0 < length payload" "length payload \<le> 252" "unat a + length payload \<le> 65536"
  from upload_answerD [OF data_upload this]
  show "\<exists>w'. os_write os (dev_fd dv) (frame (cmd_code CMD_WRITE_DATA) a (of_nat (length payload)) payload) w
      = (int (7 + length payload), w') \<and> pend w' = frame (cmd_code CMD_ACK) a 0 [] \<and> m_mem (st w') = store (unat a) payload (m_mem (st w))"
    by auto
next
  fix w and a :: u16 and filler :: bytes
  assume "pend w = []" "length filler mod 4 = 0" "0 < length filler" "length filler \<le> 252" "unat a + length filler \<le> 65536"
  from data_request [OF this]
  show "\<exists>w'. os_write os (dev_fd dv) (frame (cmd_code CMD_READ_DATA) a (of_nat (length filler)) filler) w = (int (7 + length filler), w')
      \<and> pend w' = frame (cmd_code CMD_READ_DATA) a (of_nat (length filler)) (load (unat a) (length filler) (m_mem (st w)))
      \<and> m_mem (st w') = m_mem (st w)"
    by auto
qed

lemma sent:
  assumes "com_build_packet (cmd_code cmd) a payload (of_nat n) = Inr tx"
    and "os_write os (dev_fd dv) tx w = (int (length tx), w1)" and "pend w1 = frame (cmd_code CMD_ACK) a 0 []"
  obtains w' where "send_packet os (Some dv) cmd a payload n w = (Inr (Inr ()), w')" "pend w' = []" "st w' = st w1"
  using send_packet_answered [OF delivered assms] by blast

text \<open>The callbacks at rest.\<close>

lemma write_command:
  assumes up: "upload_answer os (dev_fd dv) pend st cmd upd"
    and fuse: "\<And>f g m. upd f (upd g m) = upd (\<lambda>x. f (g x)) m" "\<And>m. upd (\<lambda>x. x) m = m"
    and w: "pend w = []" "length bs = unat n" "unat n mod 4 = 0" "n \<noteq> 0" "unat a + unat n \<le> 65536"
  shows "\<exists>w'. write_chunked_command os (Some dv) cmd a (Some bs) (of_nat (length bs)) 1 w = (Inr (Inr ()), w')
    \<and> pend w' = [] \<and> st w' = upd (store (unat a) bs) (st w)"
proof -
  have "length bs \<le> 65536" using w(2,5) by simp
  then have whole: "unat (of_nat (length bs) :: u64) = length bs" by (simp add: unat_of_nat)
  have "0 < unat n" using w(4) by (simp add: unat_gt_0)
  then have "unat a \<le> 65535" using w(5) by linarith
  then have "write_chunked_command os (Some dv) cmd a (Some bs) (of_nat (length bs)) 1 w = write_chunks os (Some dv) cmd a 1 0 bs w"
    using whole protocol_addr_bytes [of a] by (simp add: write_chunked_command_def kDefaultAddressUnitBytes_def aligned_range_def)
  moreover have "\<exists>w'. write_chunks os (Some dv) cmd a 1 0 bs w = (Inr (Inr ()), w')
      \<and> pend w' = [] \<and> st w' = upd (store (unat a + 0) bs) (st w)"
    by (rule upload_chunks [where upd = upd, OF delivered up]) (use w in \<open>simp_all add: fuse\<close>)
  ultimately show ?thesis by simp
qed

lemma nothing_written:
  "write_chunked_command os (Some dv) cmd a (Some []) 0 1 w \<in> {(Inr (Inr ()), w), (Inr (Inl OutOfRange), w)}"
  by (auto simp: write_chunked_command_def kDefaultAddressUnitBytes_def aligned_range_def protocol_addr_def write_chunks.simps)

lemma upload_ends:
  assumes up: "upload_answer os (dev_fd dv) pend st cmd upd"
    and fuse: "\<And>f g m. upd f (upd g m) = upd (\<lambda>x. f (g x)) m" "\<And>m. upd (\<lambda>x. x) m = m"
    and w: "pend w = []" "length bs = unat n" "unat a + unat n \<le> 65536"
    and cmd: "unat n mod 4 = 0 \<Longrightarrow> m w = write_chunked_command os (Some dv) cmd a (Some bs) (of_nat (length bs)) 1 w"
      "unat n mod 4 \<noteq> 0 \<Longrightarrow> m w = (Inr (Inl BadArgument), w)"
  shows "uploaded pend st upd a bs n m w"
proof (cases "unat n mod 4 = 0")
  case False
  then show ?thesis using cmd(2) w(1) by (simp add: uploaded_def)
next
  case True
  show ?thesis
  proof (cases "n = 0")
    case zero: True
    have "store (unat a) [] = (\<lambda>x. x)" by (simp add: store_def fun_eq_iff)
    then show ?thesis using zero nothing_written [of cmd a w] cmd(1) [OF True] w(1,2) fuse(2) by (auto simp: uploaded_def)
  next
    case False
    have "\<exists>w'. write_chunked_command os (Some dv) cmd a (Some bs) (of_nat (length bs)) 1 w = (Inr (Inr ()), w')
        \<and> pend w' = [] \<and> st w' = upd (store (unat a) bs) (st w)"
      by (rule write_command [where upd = upd, OF up _ _ w(1,2) True False w(3)]) (simp_all add: fuse)
    then show ?thesis using cmd(1) [OF True] by (auto simp: uploaded_def)
  qed
qed

lemma program_written:
  assumes "pend w = []" "length bs = unat n" "unat a + unat n \<le> 65536"
  shows "uploaded pend st m_instr_update a bs n (gpu_comm_write_program os (Some dv) a (Some bs) n) w"
  by (rule upload_ends [where upd = m_instr_update, OF program_upload _ _ assms])
    (use assms(2) in \<open>simp_all add: gpu_comm_write_program_def com_constants packet_words_def packet_words_whole andThen_def
      kDefaultAddressUnitBytes_def\<close>)

lemma constants_written:
  assumes "\<not> tc_constants_use_data_memory config" "tc_address_unit_bytes config = 1"
    and "pend w = []" "length bs = unat n" "unat a + unat n \<le> 65536"
  shows "uploaded pend st m_const_update a bs n (gpu_comm_write_constants os (Some dv) config a (Some bs) n) w"
  by (rule upload_ends [where upd = m_const_update, OF constants_upload _ _ assms(3-5)])
    (use assms in \<open>simp_all add: gpu_comm_write_constants_def com_constants packet_words_def packet_words_whole andThen_def
      kDefaultAddressUnitBytes_def\<close>)

lemma validated:
  assumes "pend w = []"
  shows "\<exists>w'. gpu_validate_kernel os (Some dv) kid w = (Inr (Inr ()), w') \<and> pend w' = [] \<and> st w' = st w"
proof -
  let ?tx = "frame (cmd_code CMD_VALIDATE) (ucast kid) 0 []"
  have build: "com_build_packet (cmd_code CMD_VALIDATE) (ucast kid) None (of_nat 0) = Inr ?tx"
    using build_whole [of "[]" "cmd_code CMD_VALIDATE" "ucast kid"] by (simp add: com_build_packet_def com_build_packet_fields_def)
  obtain w1 where "os_write os (dev_fd dv) ?tx w = (7, w1)" "pend w1 = frame (cmd_code CMD_ACK) (ucast kid) 0 []" "st w1 = st w"
    using validates [OF assms] by blast
  then show ?thesis using sent [OF build, of w w1] by (auto simp: gpu_validate_kernel_def elim: sent [OF build, of w w1])
qed

lemma launched:
  assumes "pend w = []" and "unat pc \<le> 65535"
  shows "\<exists>w' j. gpu_comm_launch os (Some dv) pc grid blk msk w = (Inr (Inr ()), w')
    \<and> pend w' = [] \<and> st w' = (st w)\<lparr>m_started := Some (pc, grid, blk, msk), m_polls := j\<rparr>"
proof -
  let ?p = "put_u32_rtl_rx grid @ put_u32_rtl_rx blk @ put_u32_rtl_rx msk"
  let ?tx = "frame (cmd_code CMD_LAUNCH) (ucast pc) 12 ?p"
  have len: "length ?p = 12" by simp
  have build: "com_build_packet (cmd_code CMD_LAUNCH) (ucast pc) (Some ?p) (of_nat 12) = Inr ?tx"
    using build_whole [of ?p "cmd_code CMD_LAUNCH" "ucast pc"] unfolding len by simp
  have "unat (ucast (ucast pc :: u16) :: u32) = unat pc" using unat_u16_addr [OF assms(2)] unsigned_less [of "ucast pc :: u16"]
    by (simp add: unsigned_ucast_eq take_bit_nat_eq_self unsigned_take_bit_eq)
  then have wide: "ucast (ucast pc :: u16) = pc" by (simp only: word_unat_eq_iff)
  obtain w1 j where w1: "os_write os (dev_fd dv) ?tx w = (19, w1)" "pend w1 = frame (cmd_code CMD_ACK) (ucast pc) 0 []"
      "st w1 = (st w)\<lparr>m_started := Some (pc, grid, blk, msk), m_polls := j\<rparr>"
    using starts [OF assms(1), of "ucast pc" grid blk msk] unfolding wide by blast
  have "os_write os (dev_fd dv) ?tx w = (int (length ?tx), w1)" using w1(1) len by simp
  from sent [OF build this w1(2)] obtain w' where "send_packet os (Some dv) CMD_LAUNCH (ucast pc) (Some ?p) 12 w = (Inr (Inr ()), w')"
    "pend w' = []" "st w' = st w1" by blast
  then show ?thesis using assms(2) w1(3) by (auto simp: gpu_comm_launch_def fits_u16_def)
qed

lemma status_read:
  assumes "pend w = []"
  obtains w' word where "gpu_comm_read_status os (Some dv) w = (Inr (Inr word), w')" "pend w' = []"
    "polled config run (st w) word (st w')"
  using reports [OF assms] read_status_view [OF delivered] that by metis

text \<open>The wait. A busy device changes nothing but its count of polls.\<close>

lemma polls_keep:
  assumes "polls os (Some dv) config t start w v" and "pend w = []"
  shows "pend v = [] \<and> only_polls (st w) (st v)"
  using assms
proof (induction rule: polls.induct)
  case (further w v u)
  obtain w1 word where read: "gpu_comm_read_status os (Some dv) w = (Inr (Inr word), w1)" "pend w1 = []"
    and p: "polled config run (st w) word (st w1)" by (rule status_read [OF further.prems])
  have "status_fault config word = None \<and> word AND tc_status_done_mask config = 0 \<and> pend v = [] \<and> st v = st w1"
    using further(1) read now_keeps [of w1] by (cases rule: poll_step.cases) (auto simp: sleep_keeps)
  then show ?case using further.IH polled_busy [OF p] only_polls_trans by auto
qed (simp add: only_polls_refl)

lemma waited:
  assumes "pend w = []" and "gpu_comm_wait os (Some dv) config t w = (r, w')"
  shows "pend w' = [] \<and> m_instr (st w') = m_instr (st w) \<and> m_const (st w') = m_const (st w)
    \<and> (\<forall>l. r = Inr Ok \<longrightarrow> m_started (st w) = Some l \<longrightarrow>
         run (m_instr (st w)) l (m_const (st w)) (m_mem (st w)) = Some (m_mem (st w')))"
proof -
  obtain start w0 where clock: "os_now os w = (start, w0)" by force
  have w0: "pend w0 = []" "st w0 = st w" using now_keeps [of w] clock assms(1) by simp_all
  show ?thesis
  proof (cases "wait_loop os (Some dv) config t start w0")
    case None
    then show ?thesis using assms(2) clock w0 by (auto simp: gpu_comm_wait_def)
  next
    case (Some res)
    then have "wait_loop os (Some dv) config t start w0 = Some (r, w')"
      using assms(2) clock by (simp add: gpu_comm_wait_def)
    then obtain v where v: "polls os (Some dv) config t start w0 v" "poll_ends os (Some dv) config t start v (r, w')"
      by (auto dest!: wait_loop_polls)
    have idle: "pend v = []" and same: "only_polls (st w) (st v)" using polls_keep [OF v(1)] w0 by simp_all
    obtain w1 word where read: "gpu_comm_read_status os (Some dv) v = (Inr (Inr word), w1)" "pend w1 = []"
      and p: "polled config run (st v) word (st w1)" by (rule status_read [OF idle])
    note keeps = polled_keeps [OF p] only_polls_fields [OF same]
    have w': "pend w' = []" "st w' = st w1"
      using v(2) read now_keeps [of w1] by (auto simp: poll_ends_def split: option.splits if_splits)
    have "status_fault config word = None \<and> word AND tc_status_done_mask config \<noteq> 0" if "r = Inr Ok"
      using v(2) read that by (auto simp: poll_ends_def split: option.splits if_splits)
    then show ?thesis using keeps w' polled_done [OF p] by auto
  qed
qed

lemma wait_ends_ok:
  assumes "m_started (st w) = Some l" and "run (m_instr (st w)) l (m_const (st w)) (m_mem (st w)) \<noteq> None" and "pend w = []"
  shows "\<exists>w'. wait_loop os (Some dv) config 0 start w = Some (Inr Ok, w')"
  using assms
proof (induction "m_polls (st w)" arbitrary: w)
  case 0
  obtain w1 word where read: "gpu_comm_read_status os (Some dv) w = (Inr (Inr word), w1)"
    and p: "polled config run (st w) word (st w1)" by (rule status_read [OF 0(4)])
  have "status_fault config word = None \<and> word AND tc_status_done_mask config \<noteq> 0"
    using p 0 by (auto simp: polled_def)
  then show ?case using read by (subst wait_loop.simps) simp
next
  case (Suc j)
  obtain w1 word where read: "gpu_comm_read_status os (Some dv) w = (Inr (Inr word), w1)" "pend w1 = []"
    and p: "polled config run (st w) word (st w1)" by (rule status_read [OF Suc(5)])
  have polls: "0 < m_polls (st w)" "m_polls (st w) - 1 = j" using Suc(2) by simp_all
  have busy: "status_fault config word = None" "word AND tc_status_done_mask config = 0" "st w1 = (st w)\<lparr>m_polls := j\<rparr>"
    using p Suc.prems(1) polls by (simp_all add: polled_def)
  have "\<exists>w'. wait_loop os (Some dv) config 0 start (os_sleep_ms os 1 w1) = Some (Inr Ok, w')"
    using Suc.prems busy(3) read(2) by (intro Suc.hyps(1)) (simp_all add: sleep_keeps)
  then show ?case using read(1) busy by (subst wait_loop.simps) simp
qed

lemma wait_ok:
  assumes "m_started (st w) = Some l" and "run (m_instr (st w)) l (m_const (st w)) (m_mem (st w)) \<noteq> None" and "pend w = []"
  shows "fst (gpu_comm_wait os (Some dv) config 0 w) = Inr Ok"
proof -
  obtain start w0 where clock: "os_now os w = (start, w0)" by force
  have "pend w0 = []" "st w0 = st w" using now_keeps [of w] clock assms(3) by simp_all
  then show ?thesis using wait_ends_ok [of w0 l start] assms clock by (auto simp: gpu_comm_wait_def)
qed

end

section \<open>The refinement\<close>

text \<open>The device as \<open>LoadedPrograms\<close> sees it: at rest when no answer is pending, with 64 KiB in range of every command.\<close>

definition gpu_view :: "runner \<Rightarrow> ('w \<Rightarrow> bytes) \<Rightarrow> ('w \<Rightarrow> gpu_machine) \<Rightarrow> 'w device_view" where
  "gpu_view run pend st = \<lparr>dv_instr = (\<lambda>w. m_instr (st w)), dv_const = (\<lambda>w. m_const (st w)), dv_mem = (\<lambda>w. m_mem (st w)),
     dv_started = (\<lambda>w. m_started (st w)), dv_run = run, dv_idle = (\<lambda>w. pend w = []), dv_span = 65536, dv_patient = (\<lambda>t. t = 0)\<rparr>"

lemma gpu_views [simp]:
  "dv_instr (gpu_view run pend st) w = m_instr (st w)" "dv_const (gpu_view run pend st) w = m_const (st w)"
  "dv_mem (gpu_view run pend st) w = m_mem (st w)" "dv_started (gpu_view run pend st) w = m_started (st w)"
  "dv_run (gpu_view run pend st) = run" "dv_idle (gpu_view run pend st) w \<longleftrightarrow> pend w = []"
  "dv_span (gpu_view run pend st) = 65536" "dv_patient (gpu_view run pend st) t \<longleftrightarrow> t = 0"
  by (simp_all add: gpu_view_def)

text \<open>The callbacks of the table that run programs, with byte addressing.\<close>

lemma gpu_comm_callbacks:
  assumes "tc_address_unit_bytes config = 1"
  shows "tr_write_program (make_gpu_comm_transport os dev config) = Some (\<lambda>a src n. status_of (gpu_comm_write_program os dev a src n))"
    "tr_validate_kernel (make_gpu_comm_transport os dev config) = Some (\<lambda>k. status_of (gpu_validate_kernel os dev k))"
    "tr_write_constants (make_gpu_comm_transport os dev config) = Some (\<lambda>a src n. status_of (gpu_comm_write_constants os dev config a src n))"
    "tr_launch (make_gpu_comm_transport os dev config) = Some (\<lambda>pc grid blk msk. status_of (gpu_comm_launch os dev pc grid blk msk))"
    "tr_wait (make_gpu_comm_transport os dev config) = Some (\<lambda>t. gpu_comm_wait os dev config t)"
  using assms by (simp_all add: make_gpu_comm_transport_def kDefaultAddressUnitBytes_def)

context serial_gpu
begin

lemma far_launch: "65535 < unat pc \<Longrightarrow> gpu_comm_launch os (Some dv) pc grid blk msk w = (Inr (Inl OutOfRange), w)"
  by (simp add: gpu_comm_launch_def fits_u16_def)

lemma transport_runs_programs:
  assumes unit: "tc_address_unit_bytes config = 1" and own: "\<not> tc_constants_use_data_memory config"
  shows "runs_programs (make_gpu_comm_transport os (Some dv) config) (gpu_view run pend st)"
proof -
  let ?tr = "make_gpu_comm_transport os (Some dv) config" and ?v = "gpu_view run pend st"
  note cb = gpu_comm_callbacks [OF unit, of os "Some dv"]
  have "program_law ?tr ?v"
    unfolding program_law_def cb gpu_views
  proof (intro allI impI)
    fix f a bs n w r w'
    assume f: "Some (\<lambda>a src n. status_of (gpu_comm_write_program os (Some dv) a src n)) = Some f" "pend w = []" "length bs = unat n"
      "unat a + unat n \<le> 65536" "f a (Some bs) n w = (r, w')"
    then have "status_of (gpu_comm_write_program os (Some dv) a (Some bs) n) w = (r, w')" by auto
    from uploaded_status [OF program_written [OF f(2-4)] this]
    show "pend w' = [] \<and> m_const (st w') = m_const (st w) \<and> m_mem (st w') = m_mem (st w)
        \<and> (\<forall>i. i < unat a \<or> unat a + unat n \<le> i \<longrightarrow> m_instr (st w') i = m_instr (st w) i)
        \<and> (r = Inr Ok \<longrightarrow> m_instr (st w') = store (unat a) bs (m_instr (st w)))"
      using f(3) by (auto simp: store_def)
  qed
  moreover have "constants_law ?tr ?v"
    unfolding constants_law_def cb gpu_views
  proof (intro allI impI)
    fix f a bs n w r w'
    assume f: "Some (\<lambda>a src n. status_of (gpu_comm_write_constants os (Some dv) config a src n)) = Some f" "pend w = []"
      "length bs = unat n" "unat a + unat n \<le> 65536" "f a (Some bs) n w = (r, w')"
    then have "status_of (gpu_comm_write_constants os (Some dv) config a (Some bs) n) w = (r, w')" by auto
    from uploaded_status [OF constants_written [OF own unit f(2-4)] this]
    show "pend w' = [] \<and> m_instr (st w') = m_instr (st w) \<and> m_mem (st w') = m_mem (st w)
        \<and> (r = Inr Ok \<longrightarrow> m_const (st w') = store (unat a) bs (m_const (st w)))" by auto
  qed
  moreover have "validate_law ?tr ?v"
    unfolding validate_law_def cb gpu_views same_memories_def
  proof (intro allI impI)
    fix f k w r w'
    assume f: "Some (\<lambda>k. status_of (gpu_validate_kernel os (Some dv) k)) = Some f" "pend w = []" "f k w = (r, w')"
    then have "status_of (gpu_validate_kernel os (Some dv) k) w = (r, w')" by auto
    then show "pend w' = [] \<and> m_instr (st w') = m_instr (st w) \<and> m_const (st w') = m_const (st w) \<and> m_mem (st w') = m_mem (st w)"
      using validated [OF f(2), of k] by (auto simp: status_of_def andThen_def)
  qed
  moreover have "launch_law ?tr ?v"
    unfolding launch_law_def cb gpu_views same_memories_def
  proof (intro allI impI)
    fix f pc grid blk msk w r w'
    assume f: "Some (\<lambda>pc grid blk msk. status_of (gpu_comm_launch os (Some dv) pc grid blk msk)) = Some f" "pend w = []"
      "f pc grid blk msk w = (r, w')"
    then have run: "status_of (gpu_comm_launch os (Some dv) pc grid blk msk) w = (r, w')" by auto
    show "pend w' = [] \<and> (m_instr (st w') = m_instr (st w) \<and> m_const (st w') = m_const (st w) \<and> m_mem (st w') = m_mem (st w))
        \<and> (r = Inr Ok \<longrightarrow> m_started (st w') = Some (pc, grid, blk, msk))"
    proof (cases "unat pc \<le> 65535")
      case True
      from launched [OF f(2) True, of grid blk msk] run show ?thesis by (auto simp: status_of_def andThen_def)
    next
      case False
      then show ?thesis using far_launch [of pc] run f(2) by (auto simp: status_of_def andThen_def not_le)
    qed
  qed
  moreover have "wait_law ?tr ?v"
    unfolding wait_law_def cb gpu_views by (rule exI, rule conjI, rule refl) (use waited in blast)
  ultimately show ?thesis by (simp add: runs_programs_def)
qed

lemma transport_answers:
  assumes unit: "tc_address_unit_bytes config = 1" and own: "\<not> tc_constants_use_data_memory config"
  shows "answers (make_gpu_comm_transport os (Some dv) config) (gpu_view run pend st)"
proof -
  let ?v = "gpu_view run pend st"
  note cb = gpu_comm_callbacks [OF unit, of os "Some dv"]
  have "upload_answered ?v (\<lambda>a src n. status_of (gpu_comm_write_program os (Some dv) a src n))"
    unfolding upload_answered_def gpu_views
    using uploaded_status(3) [OF program_written] by (metis prod.collapse)
  moreover have "upload_answered ?v (\<lambda>a src n. status_of (gpu_comm_write_constants os (Some dv) config a src n))"
    unfolding upload_answered_def gpu_views
    using uploaded_status(3) [OF constants_written [OF own unit]] by (metis prod.collapse)
  moreover have "fst (status_of (gpu_validate_kernel os (Some dv) k) w) = Inr Ok" if "pend w = []" for k w
    using validated [OF that, of k] by (auto simp: status_of_def andThen_def)
  moreover have "fst (status_of (gpu_comm_launch os (Some dv) pc grid blk msk) w) = Inr Ok"
    if "pend w = []" "unat pc < 65536" for pc grid blk msk w
    using launched [OF that(1), of pc grid blk msk] that(2) by (auto simp: status_of_def andThen_def)
  ultimately show ?thesis unfolding answers_def cb gpu_views by (simp add: wait_ok)
qed

end

section \<open>A simulated device\<close>

text \<open>Its state: the queued answer and the machine. A launch keeps it busy for \<open>busy\<close> polls.\<close>

definition sim_status :: "runner \<Rightarrow> gpu_machine \<Rightarrow> u32 \<times> gpu_machine" where
  "sim_status run m =
     (case m_started m of
        None \<Rightarrow> (1, m)
      | Some l \<Rightarrow>
          if 0 < m_polls m then (0, m\<lparr>m_polls := m_polls m - 1\<rparr>)
          else (case run (m_instr m) l (m_const m) (m_mem m) of
              Some mem \<Rightarrow> (1, m\<lparr>m_mem := mem, m_started := None\<rparr>)
            | None \<Rightarrow> (4, m)))"

definition sim_accept :: "com_packet \<Rightarrow> (gpu_machine \<Rightarrow> gpu_machine) \<Rightarrow> bytes \<times> gpu_machine \<Rightarrow> bytes \<times> gpu_machine" where
  "sim_accept p upd s = (fst s @ frame (cmd_code CMD_ACK) (cp_addr p) 0 [], upd (snd s))"

definition sim_gpu_write :: "runner \<Rightarrow> nat \<Rightarrow> bytes \<Rightarrow> bytes \<times> gpu_machine \<Rightarrow> bytes \<times> gpu_machine" where
  "sim_gpu_write run busy buf s =
     (case com_parse_packet buf of
        Some (Inr p) \<Rightarrow>
          let stored = store (unat (cp_addr p)) (cp_payload p); arg = (\<lambda>i. get_u32_le (take 4 (drop (4 * i) (cp_payload p))))
          in if cp_cmd p = cmd_code CMD_WRITE_DATA then sim_accept p (m_mem_update stored) s
             else if cp_cmd p = cmd_code CMD_WRITE_PROGRAM then sim_accept p (m_instr_update stored) s
             else if cp_cmd p = cmd_code CMD_WRITE_CONSTANTS then sim_accept p (m_const_update stored) s
             else if cp_cmd p = cmd_code CMD_VALIDATE then sim_accept p (\<lambda>m. m) s
             else if cp_cmd p = cmd_code CMD_LAUNCH then
               sim_accept p (\<lambda>m. m\<lparr>m_started := Some (ucast (cp_addr p), arg 0, arg 1, arg 2), m_polls := busy\<rparr>) s
             else if cp_cmd p = cmd_code CMD_READ_DATA then
               (fst s @ frame (cmd_code CMD_READ_DATA) (cp_addr p) (cp_len p)
                  (load (unat (cp_addr p)) (unat (cp_len p)) (m_mem (snd s))), snd s)
             else if cp_cmd p = cmd_code CMD_READ_STATUS then
               (let (word, m) = sim_status run (snd s)
                in (fst s @ frame (cmd_code CMD_READ_STATUS) 0 4 (put_u32_rtl_rx word), m))
             else s
      | _ \<Rightarrow> s)"

definition sim_gpu :: "runner \<Rightarrow> nat \<Rightarrow> (bytes \<times> gpu_machine) os" where
  "sim_gpu run busy =
     \<lparr>os_write = (\<lambda>fd buf s. (int (length buf), sim_gpu_write run busy buf s)),
      os_read = (\<lambda>fd n s. (Inr (take n (fst s)), (drop n (fst s), snd s))),
      os_now = (\<lambda>s. (0, s)), os_sleep_ms = (\<lambda>n s. s)\<rparr>"

lemma sim_status_polled: "sim_status run m = (word, m') \<Longrightarrow> polled default_transport_config run m word m'"
  by (auto simp: sim_status_def polled_def status_fault_def default_transport_config_def split: option.splits if_splits)

lemma sim_parse:
  assumes "length p \<le> 252"
  shows "com_parse_packet (frame cmd a (of_nat (length p)) p)
      = Some (Inr \<lparr>cp_cmd = cmd, cp_addr = a, cp_len = of_nat (length p), cp_payload = p\<rparr>)"
    "unat (of_nat (length p) :: u16) = length p"
  using parse_frame [of p "of_nat (length p)" cmd a "[]"] assms by (simp_all add: unat_of_nat)

lemmas sim_defs = sim_gpu_def sim_gpu_write_def sim_accept_def Let_def

lemma sim_upload:
  assumes "(cmd, upd) \<in> {(CMD_WRITE_DATA, m_mem_update), (CMD_WRITE_PROGRAM, m_instr_update), (CMD_WRITE_CONSTANTS, m_const_update)}"
  shows "upload_answer (sim_gpu run busy) fd fst snd cmd upd"
  unfolding upload_answer_def using assms by (auto simp: sim_defs sim_parse)

interpretation sim: serial_gpu "sim_gpu run busy" dv default_transport_config run fst snd for run busy dv
proof
  show "delivers (sim_gpu run busy) (dev_fd dv) fst snd"
    unfolding delivers_def
    by (auto simp: sim_gpu_def intro: exI [of _ "min n (length queue)" for n queue] simp: min_def)
  show "upload_answer (sim_gpu run busy) (dev_fd dv) fst snd CMD_WRITE_DATA m_mem_update"
    "upload_answer (sim_gpu run busy) (dev_fd dv) fst snd CMD_WRITE_PROGRAM m_instr_update"
    "upload_answer (sim_gpu run busy) (dev_fd dv) fst snd CMD_WRITE_CONSTANTS m_const_update"
    by (rule sim_upload, simp)+
next
  fix w :: "bytes \<times> gpu_machine" and filler :: bytes and a :: u16
  assume "fst w = []" "length filler \<le> 252"
  then show "\<exists>w'. os_write (sim_gpu run busy) (dev_fd dv) (frame (cmd_code CMD_READ_DATA) a (of_nat (length filler)) filler) w
      = (int (7 + length filler), w')
    \<and> fst w' = frame (cmd_code CMD_READ_DATA) a (of_nat (length filler)) (load (unat a) (length filler) (m_mem (snd w)))
    \<and> snd w' = snd w"
    by (simp add: sim_defs sim_parse)
next
  fix w :: "bytes \<times> gpu_machine" and k :: u16
  assume "fst w = []"
  then show "\<exists>w'. os_write (sim_gpu run busy) (dev_fd dv) (frame (cmd_code CMD_VALIDATE) k 0 []) w = (7, w')
      \<and> fst w' = frame (cmd_code CMD_ACK) k 0 [] \<and> snd w' = snd w"
    using sim_parse(1) [of "[]" "cmd_code CMD_VALIDATE" k] by (simp add: sim_defs)
next
  fix w :: "bytes \<times> gpu_machine" and pc :: u16 and grid blk msk :: u32
  let ?p = "put_u32_rtl_rx grid @ put_u32_rtl_rx blk @ put_u32_rtl_rx msk"
  assume "fst w = []"
  then show "\<exists>w' j. os_write (sim_gpu run busy) (dev_fd dv) (frame (cmd_code CMD_LAUNCH) pc 12 ?p) w = (19, w')
      \<and> fst w' = frame (cmd_code CMD_ACK) pc 0 []
      \<and> snd w' = (snd w)\<lparr>m_started := Some (ucast pc, grid, blk, msk), m_polls := j\<rparr>"
    using sim_parse(1) [of ?p "cmd_code CMD_LAUNCH" pc] by (auto simp: sim_defs)
next
  fix w :: "bytes \<times> gpu_machine"
  assume idle: "fst w = []"
  obtain word m where s: "sim_status run (snd w) = (word, m)" by force
  show "\<exists>w' word. os_write (sim_gpu run busy) (dev_fd dv) (frame (cmd_code CMD_READ_STATUS) 0 4 [0, 0, 0, 0]) w = (11, w')
      \<and> fst w' = frame (cmd_code CMD_READ_STATUS) 0 4 (put_u32_rtl_rx word)
      \<and> polled default_transport_config run (snd w) word (snd w')"
    using sim_parse(1) [of "[0, 0, 0, 0]" "cmd_code CMD_READ_STATUS" 0] idle s sim_status_polled [OF s] by (auto simp: sim_defs)
qed (simp_all add: sim_gpu_def)

section \<open>The properties\<close>

text \<open>
  C3: the serial transport refines the device of the cache and the launches. Over a device that keeps to the protocol, with
  byte addresses and a constant memory of its own, the callbacks of \<open>make_gpu_comm_transport\<close> keep the laws of
  \<open>runs_programs\<close> (each changes its own memory in its range or reports that it did not, and a wait that ends with success
  has run what was started), they answer, and the data callbacks are a memory.
\<close>

theorem serial_link_runs_programs:
  assumes "serial_gpu os dv config run pend st" and "tc_address_unit_bytes config = 1" and "\<not> tc_constants_use_data_memory config"
  shows "runs_programs (make_gpu_comm_transport os (Some dv) config) (gpu_view run pend st)
    \<and> answers (make_gpu_comm_transport os (Some dv) config) (gpu_view run pend st)
    \<and> memory_link (make_gpu_comm_transport os (Some dv) config) (\<lambda>w. m_mem (st w)) (\<lambda>w. pend w = []) 65536"
  using serial_gpu.transport_runs_programs [OF assms] serial_gpu.transport_answers [OF assms]
    gpu_comm_link [OF serial_gpu.is_serial_device [OF assms(1)] assms(2)] by blast

lemma serial_link_runs_programs_witness:
  "runs_programs (make_gpu_comm_transport (sim_gpu run_product 2) (Some \<lparr>dev_fd = 3, dev_timeout_ms = 100\<rparr>) default_transport_config)
     (gpu_view run_product fst snd)"
  using serial_link_runs_programs [OF sim.serial_gpu_axioms, of run_product 2 "\<lparr>dev_fd = 3, dev_timeout_ms = 100\<rparr>"]
  by (simp add: default_transport_config_def)

lemma load_words: "load (4 * p) (4 * q) m = concat (map (\<lambda>i. word_bytes (word_at m (int p + int i))) [0..<q])"
proof (induction q)
  case (Suc q)
  have "load (4 * p) (4 * Suc q) m = load (4 * p) (4 * q) m @ load (4 * p + 4 * q) 4 m"
    using load_append [of "4 * p" "4 * q" 4 m] by (simp add: add.commute)
  moreover have "load (4 * p + 4 * q) 4 m = word_bytes (word_at m (int p + int q))"
  proof -
    have "nat (int p + int q) = p + q" by simp
    then show ?thesis by (simp add: word_bytes_word_at load_def upt_conv_Cons algebra_simps numeral_3_eq_3)
  qed
  ultimately show ?case using Suc by simp
qed (simp add: load_def)

text \<open>Reading a tensor of words back to the host.\<close>

lemma words_to_cpu:
  assumes ok: "mem_ok c" and link: "memory_link (ctx_transport c) mem idle limit" "mem_hi c \<le> limit" "idle d"
    and t: "at_device t = PrivateUse1" "at_dtype t = kInt" "at_storage_offset t = 0" "is_contiguous pt t" "at_storage t = opaque po"
      "unat po mod 4 = 0" "(unat po, g) \<in> live (ctx_blocks c)" "nat (4 * q) \<le> g"
    and pt: "pt_element_size pt kInt = 4" "\<And>t. at_storage_offset t = 0 \<Longrightarrow> numel t \<noteq> 0 \<Longrightarrow> pt_data_ptr pt t = at_storage t"
      "\<And>n. length (pt_garbage pt n) = unat n"
    and q: "numel t = q" "0 < q" "q < 2 ^ 60" and dst: "ct_dtype dst = kInt" "ct_sizes dst = at_sizes t"
  shows "\<exists>s'. copy_tensor pt (Cpu dst) (Gpu t) (c, d) = (Inr (Cpu (dst\<lparr>ct_bytes :=
    concat (map (\<lambda>i. word_bytes (word_at (mem d) (uint po div 4 + int i))) [0..<nat q])\<rparr>)), s')"
proof -
  let ?n = "of_int (q * 4) :: u64"
  note bytes = result_bytes [OF q(2,3)]
  have n: "any_nbytes pt (Cpu dst) = ?n" "tensor_nbytes pt t = ?n"
    using q(1) pt(1) t(2) dst by (simp_all add: any_nbytes_def tensor_nbytes_def numel_def)
  have ptr: "pt_data_ptr pt t = opaque po" using pt(2) [OF t(3)] q t(5) by simp
  have four: "unat ?n mod 4 = 0" "unat ?n = 4 * nat q" using bytes(2) q(2) by (simp_all add: nat_mult_distrib)
  obtain e d2 where "copy_from_device (Some (pt_garbage pt ?n)) po ?n (c, d) = (Inr (load (unat po) (unat ?n) (mem d)), (log_event e c, d2))"
    using copy_from_link [OF ok link t(7), of po ?n "pt_garbage pt ?n"] t(6,8) four bytes pt(3) q(2) by (auto simp: nat_mult_distrib)
  moreover have "load (unat po) (unat ?n) (mem d)
      = concat (map (\<lambda>i. word_bytes (word_at (mem d) (uint po div 4 + int i))) [0..<nat q])"
  proof -
    have "4 * (unat po div 4) = unat po" using t(6) by presburger
    moreover have "int (unat po div 4) = uint po div 4" unfolding uint_nat of_nat_div by simp
    ultimately show ?thesis using load_words [of "unat po div 4" "nat q" "mem d"] unfolding four(2) by metis
  qed
  ultimately show ?thesis
    using n bytes(1) t(1,2,4) dst ptr
    by (simp add: copy_tensor_def andThen_def requires_run require_contiguous_def download_def converted_def Let_def)
qed

text \<open>
  C1: a matrix product over the wire. On a context whose transport is the serial one, over a device that keeps to the
  protocol and computes the kernel, with a coherent program cache and room for the result, \<open>torch.mm\<close> on two matrices of
  32-bit integers in device memory returns, and copying its result to a CPU tensor delivers, row by row, the entries of
  the product modulo $2^{32}$: packets, retries, uploads, the cache, the launch, the polls and the transfers together.
\<close>

theorem mm_over_serial:
  fixes dv :: com_dev
  assumes dev: "serial_gpu os dv config run pend st" "tc_address_unit_bytes config = 1" "\<not> tc_constants_use_data_memory config"
    and tr: "ctx_transport c = make_gpu_comm_transport os (Some dv) config" "mem_hi c \<le> 65536"
    and ok: "sys_ok (c, d)" and reg: "registry_ok c" and coh: "coherent (gpu_view run pend st) c d"
    and kernel: "find_kernel ''matmul.i32'' c = Some pk" "ids ''matmul.i32'' = Some kid" "runs_matmul (gpu_view run pend st) pk"
    and up: "leaked c = {}" "loadable pk (ctx_program_memory_size c)" "pk_default_timeout_ms pk = 0"
    and pt: "pt_element_size pt kInt = 4" "pt_storage_bytes pt [m, n] kInt = Inr (of_int (m * n * 4))"
      "\<And>t. at_storage_offset t = 0 \<Longrightarrow> numel t \<noteq> 0 \<Longrightarrow> pt_data_ptr pt t = at_storage t"
      "\<And>n. length (pt_garbage pt n) = unat n" "pt_is_contiguous pt [m, n] (pt_strides pt [m, n] None)"
    and a: "at_dtype a = kInt" "at_sizes a = [m, k]" "placed_at pt a pa c"
    and b: "at_dtype b = kInt" "at_sizes b = [k, n]" "placed_at pt b pb c"
    and pos: "0 < m" "0 < n" "0 < k" "m * k < 2 ^ 60" "k * n < 2 ^ 60" "m * n < 2 ^ 60"
    and al: "4 dvd unat (ctx_default_alignment c)"
    and room: "\<exists>blk \<in> set (ctx_blocks c). has_room (unat (ctx_default_alignment c))
      (grant (of_int (m * n * 4)) (ctx_default_alignment c)) blk"
    and dst: "ct_dtype dst = kInt" "ct_sizes dst = [m, n]"
  shows "\<exists>t s s'. mm pt ids a b (c, d) = (Inr t, s) \<and> copy_tensor pt (Cpu dst) (Gpu t) s = (Inr (Cpu (dst\<lparr>ct_bytes :=
    concat (map (\<lambda>x. word_bytes (product_entry (word_at (m_mem (st d))) (uint pa div 4) (uint pb div 4) n k (x div n) (x mod n)))
      [0..m * n - 1])\<rparr>)), s')"
proof -
  let ?v = "gpu_view run pend st" and ?tr = "ctx_transport c"
  have runs: "runs_programs ?tr ?v" and ans: "answers ?tr ?v" and link: "memory_link ?tr (\<lambda>w. m_mem (st w)) (\<lambda>w. pend w = []) 65536"
    unfolding tr(1) using serial_gpu.transport_runs_programs [OF dev] serial_gpu.transport_answers [OF dev]
      gpu_comm_link [OF serial_gpu.is_serial_device [OF dev(1)] dev(2)] by blast+
  have view: "132 \<le> dv_span ?v" "dv_patient ?v (timeout_of pk None)" using up(3) by (simp_all add: timeout_of_def kernel_defaults_def)
  obtain t c' d' where mm: "mm pt ids a b (c, d) = (Inr t, (c', d'))"
    using mm_returns [where dv = ?v and ids = ids and kid = kid, OF ok runs reg coh kernel view(1) ans up(1,2) view(2) pt(1-3) a b pos al room]
    by auto
  have p: "at_sizes t = [m, n] \<and> at_dtype t = kInt \<and> coherent ?v c' d'
    \<and> at_device t = PrivateUse1 \<and> at_storage_offset t = 0 \<and> at_strides t = pt_strides pt [m, n] None
    \<and> mem_ok c' \<and> mem_hi c' = mem_hi c \<and> ctx_transport c' = ctx_transport c
    \<and> (\<exists>po g. at_storage t = opaque po \<and> (unat po, g) \<in> live (ctx_blocks c') \<and> unat po mod 4 = 0 \<and> nat (4 * (m * n)) \<le> g
         \<and> (\<forall>r \<in> live (ctx_blocks c). \<not> overlaps (unat po, g) r)
         \<and> (\<forall>i \<in> {0..<m}. \<forall>j \<in> {0..<n}. word_at (dv_mem ?v d') (uint po div 4 + (i * n + j))
              = product_entry (word_at (dv_mem ?v d)) (uint pa div 4) (uint pb div 4) n k i j)
         \<and> (\<forall>x. x < unat po \<or> unat po + nat (4 * m * n) \<le> x \<longrightarrow> dv_mem ?v d' x = dv_mem ?v d x))"
    by (rule mm_product [where dv = ?v and ids = ids and kid = kid, OF ok runs reg coh kernel view(1) pt(1-3) a b pos mm])
  then obtain po g where t: "at_storage t = opaque po" "(unat po, g) \<in> live (ctx_blocks c')" "unat po mod 4 = 0" "nat (4 * (m * n)) \<le> g"
    and entries: "\<forall>i \<in> {0..<m}. \<forall>j \<in> {0..<n}. word_at (dv_mem ?v d') (uint po div 4 + (i * n + j))
       = product_entry (word_at (dv_mem ?v d)) (uint pa div 4) (uint pb div 4) n k i j"
    by (elim conjE exE) (rule that, assumption+)
  have f: "at_sizes t = [m, n]" "at_dtype t = kInt" "at_device t = PrivateUse1" "at_storage_offset t = 0" "mem_ok c'"
      "mem_hi c' \<le> 65536" "ctx_transport c' = ctx_transport c" "is_contiguous pt t"
    using p tr(2) pt(5) by (auto simp: is_contiguous_def)
  have rest: "pend d' = []" using p coherent_rest [of ?v c' d'] by simp
  have q: "numel t = m * n" "0 < m * n" using f(1) pos by (simp_all add: numel_def)
  have "word_at (m_mem (st d')) (uint po div 4 + x)
      = product_entry (word_at (m_mem (st d))) (uint pa div 4) (uint pb div 4) n k (x div n) (x mod n)" if "0 \<le> x" "x < m * n" for x
  proof -
    note x = index2_split [OF that pos(2)]
    then have "x div n \<in> {0..<m}" "x mod n \<in> {0..<n}" by simp_all
    from entries [rule_format, OF this] show ?thesis by simp
  qed
  then have "map (\<lambda>i. word_bytes (word_at (m_mem (st d')) (uint po div 4 + int i))) [0..<nat (m * n)]
      = map (\<lambda>x. word_bytes (product_entry (word_at (m_mem (st d))) (uint pa div 4) (uint pb div 4) n k (x div n) (x mod n))) [0..m * n - 1]"
    by (intro nth_equalityI) (auto simp: nat_less_iff)
  then show ?thesis
    using words_to_cpu [where mem = "\<lambda>w. m_mem (st w)" and idle = "\<lambda>w. pend w = []", OF f(5) _ f(6) rest f(3,2,4,8) t(1,3,2,4) pt(1,3,4) q pos(6) dst(1)]
      link mm f(1,7) dst(2) by auto
qed

text \<open>The context of \<open>Offload\<close> on the simulated device, which is busy for two polls of every launch.\<close>

definition wire_context :: "(bytes \<times> gpu_machine) gpu_context" where
  "wire_context =
     \<lparr>ctx_memory_base = 0, ctx_memory_size = 64, ctx_program_memory_size = 8,
      ctx_program_cache_clock = 0, ctx_compiler_spill_base = 56, ctx_compiler_spill_size = 8,
      ctx_default_alignment = 4,
      ctx_transport = make_gpu_comm_transport (sim_gpu run_product 2) (Some \<lparr>dev_fd = 3, dev_timeout_ms = 100\<rparr>) default_transport_config,
      ctx_blocks = ctx_blocks product_context,
      ctx_program_blocks = [\<lparr>boffset = 0, bsize = 8, bfree = True\<rparr>],
      ctx_program_cache = [], ctx_kernels = [full_kernel\<lparr>pk_name := ''matmul.i32''\<rparr>], ctx_logging_enabled = False,
      ctx_log_path = [], ctx_log = []\<rparr>"

abbreviation wire_machine :: gpu_machine where
  "wire_machine \<equiv> \<lparr>m_instr = (\<lambda>_. 0), m_const = (\<lambda>_. 0),
     m_mem = (\<lambda>x. if x = 0 then 3 else if x = 4 then 5 else 0), m_started = None, m_polls = 0\<rparr>"

lemma wire_context_ok:
  "sys_ok (wire_context, d)" "registry_ok wire_context" "coherent (gpu_view run_product fst snd) wire_context ([], wire_machine)"
  "find_kernel ''matmul.i32'' wire_context = Some (full_kernel\<lparr>pk_name := ''matmul.i32''\<rparr>)" "leaked wire_context = {}"
  "loadable (full_kernel\<lparr>pk_name := ''matmul.i32''\<rparr>) (ctx_program_memory_size wire_context)" "mem_hi wire_context \<le> 65536"
  "placed_at demo_torch (tiny_matrix 1) 0 wire_context" "placed_at demo_torch (tiny_matrix 5) 4 wire_context"
proof -
  note ok = machine_context_ok [where run = run_product and name = "''matmul.i32''"] and p = product_context_ok
  have blocks: "ctx_blocks wire_context = ctx_blocks product_context" by (simp add: wire_context_def)
  show "sys_ok (wire_context, d)"
    by (simp add: sys_ok_def mem_ok_def prog_ok_def slots_def wire_context_def machine_context_def mem_lo_def mem_hi_def memory_size_def)
  show "registry_ok wire_context" "loadable (full_kernel\<lparr>pk_name := ''matmul.i32''\<rparr>) (ctx_program_memory_size wire_context)"
    using ok(3,6) [where bs = "[]"] by (simp_all add: registry_ok_def wire_context_def machine_context_def)
  show "coherent (gpu_view run_product fst snd) wire_context ([], wire_machine)" "leaked wire_context = {}"
    "find_kernel ''matmul.i32'' wire_context = Some (full_kernel\<lparr>pk_name := ''matmul.i32''\<rparr>)" "mem_hi wire_context \<le> 65536"
    by (simp_all add: wire_context_def coherent_def leaked_def slots_def find_kernel_def mem_hi_def memory_size_def)
  show "placed_at demo_torch (tiny_matrix 1) 0 wire_context" "placed_at demo_torch (tiny_matrix 5) 4 wire_context"
    using p(2,3) unfolding placed_at_def blocks by simp_all
qed

lemma mm_over_serial_witness:
  "\<exists>t s s'. mm demo_torch (\<lambda>_. Some 0) (tiny_matrix 1) (tiny_matrix 5) (wire_context, ([], wire_machine)) = (Inr t, s)
     \<and> copy_tensor demo_torch (Cpu \<lparr>ct_dtype = kInt, ct_sizes = [1, 1], ct_bytes = []\<rparr>) (Gpu t) s
       = (Inr (Cpu \<lparr>ct_dtype = kInt, ct_sizes = [1, 1], ct_bytes = [15, 0, 0, 0]\<rparr>), s')"
proof -
  let ?pk = "full_kernel\<lparr>pk_name := ''matmul.i32''\<rparr>" and ?dst = "\<lparr>ct_dtype = kInt, ct_sizes = [1, 1], ct_bytes = []\<rparr>"
  have config: "tc_address_unit_bytes default_transport_config = 1" "\<not> tc_constants_use_data_memory default_transport_config"
    by (simp_all add: default_transport_config_def)
  have tr: "ctx_transport wire_context
      = make_gpu_comm_transport (sim_gpu run_product 2) (Some \<lparr>dev_fd = 3, dev_timeout_ms = 100\<rparr>) default_transport_config"
    by (simp add: wire_context_def)
  have kernel: "(\<lambda>_ :: string. Some (0 :: u8)) ''matmul.i32'' = Some 0" "runs_matmul (gpu_view run_product fst snd) ?pk"
      "pk_default_timeout_ms ?pk = 0"
    using run_product_matmul [of ?pk] by (simp_all add: runs_matmul_def full_kernel_def empty_precompiled_kernel_def)
  have pt: "pt_element_size demo_torch kInt = 4" "pt_storage_bytes demo_torch [1, 1] kInt = Inr (of_int (1 * 1 * 4))"
      "\<And>t. at_storage_offset t = 0 \<Longrightarrow> numel t \<noteq> 0 \<Longrightarrow> pt_data_ptr demo_torch t = at_storage t"
      "\<And>n. length (pt_garbage demo_torch n) = unat n" "pt_is_contiguous demo_torch [1, 1] (pt_strides demo_torch [1, 1] None)"
    by (simp_all add: demo_torch_fields) (simp add: demo_torch_def)
  have t: "at_dtype (tiny_matrix q) = kInt" "at_sizes (tiny_matrix q) = [1, 1]" for q by (simp_all add: tiny_matrix_def)
  have pos: "0 < (1 :: int)" "(1 :: int) * 1 < 2 ^ 60" by simp_all
  have al: "4 dvd unat (ctx_default_alignment wire_context)" "\<exists>blk \<in> set (ctx_blocks wire_context).
      has_room (unat (ctx_default_alignment wire_context)) (grant (of_int (1 * 1 * 4)) (ctx_default_alignment wire_context)) blk"
    using product_context_ok(4,5) by (simp_all add: wire_context_def machine_context_def)
  have "map (\<lambda>x. word_bytes (product_entry (word_at (m_mem (snd ([] :: bytes, wire_machine)))) (uint (0 :: u32) div 4) (uint (4 :: u32) div 4) 1 1 (x div 1) (x mod 1)))
      [0..1 * 1 - 1 :: int] = [[15, 0, 0, 0]]"
  proof -
    have "{0..<1 :: int} = {0}" by auto
    then show ?thesis by (simp add: product_entry_def word_at_def word_bytes_def)
  qed
  then show ?thesis
    using mm_over_serial [where d = "([], wire_machine)", OF sim.serial_gpu_axioms config tr wire_context_ok(7,1-4) kernel(1,2) wire_context_ok(5,6) kernel(3) pt
        t wire_context_ok(8) t wire_context_ok(9) pos(1,1,1,2,2,2) al, of ?dst] by simp
qed

end
