(* ===== verification/WindowsPort.thy ===== *)
theory WindowsPort
  imports ComPort
begin

text \<open>
  The Windows part of \<open>gpu_comm/src/com.c\<close>: \<open>open_com\<close>, \<open>close_com\<close>, \<open>com_send_raw\<close> and
  \<open>com_recv_raw\<close> over the Win32 calls, which are the fields of a parameter record, and their agreement with the
  POSIX part. A \<open>HANDLE\<close> is an integer and \<open>INVALID_HANDLE_VALUE\<close> is -1; a \<open>DWORD\<close> is 32 bits wide.
\<close>

section \<open>The calls\<close>

text \<open>The fields of a \<open>DCB\<close> that are assigned, and the other ones (flow control, special characters) together.\<close>

record 'x dcb =
  dcb_length :: u32
  dcb_baud_rate :: u32
  dcb_byte_size :: u8
  dcb_parity :: u8
  dcb_stop_bits :: u8
  dcb_others :: 'x

record comm_timeouts =
  read_interval :: u32
  read_multiplier :: u32
  read_constant :: u32
  write_multiplier :: u32
  write_constant :: u32

text \<open>
  \<open>CreateFileA\<close>, \<open>GetCommState\<close> (the structure after the call), \<open>SetCommState\<close>, \<open>SetCommTimeouts\<close>,
  \<open>malloc\<close> (whether it succeeds), \<open>CloseHandle\<close>, \<open>WriteFile\<close> (whether it succeeds, and the count
  written) and \<open>ReadFile\<close> (whether it succeeds, and the bytes read, no more than asked for).
\<close>

record ('x, 'w) win_ops =
  wo_create :: "string \<Rightarrow> 'w \<Rightarrow> int \<times> 'w"
  wo_getstate :: "int \<Rightarrow> 'x dcb \<Rightarrow> 'w \<Rightarrow> 'x dcb \<times> 'w"
  wo_setstate :: "int \<Rightarrow> 'x dcb \<Rightarrow> 'w \<Rightarrow> 'w"
  wo_settimeouts :: "int \<Rightarrow> comm_timeouts \<Rightarrow> 'w \<Rightarrow> 'w"
  wo_malloc :: "'w \<Rightarrow> bool \<times> 'w"
  wo_close :: "int \<Rightarrow> 'w \<Rightarrow> 'w"
  wo_write :: "int \<Rightarrow> bytes \<Rightarrow> 'w \<Rightarrow> (bool \<times> u32) \<times> 'w"
  wo_read :: "int \<Rightarrow> u32 \<Rightarrow> 'w \<Rightarrow> (bool \<times> bytes) \<times> 'w"
  wo_zeros :: 'x

section \<open>Opening and closing\<close>

text \<open>\<open>snprintf\<close> into 64 bytes keeps 63 characters of the name.\<close>

definition full_port :: "string \<Rightarrow> string" where
  "full_port port = take 63 ([CHR 0x5C, CHR 0x5C, CHR ''.'', CHR 0x5C] @ port)"

definition port_dcb :: "int \<Rightarrow> 'x dcb \<Rightarrow> 'x dcb" where
  "port_dcb baud dcb = dcb\<lparr>dcb_baud_rate := of_int baud, dcb_byte_size := 8, dcb_parity := 0, dcb_stop_bits := 0\<rparr>"

definition port_timeouts :: "int \<Rightarrow> comm_timeouts" where
  "port_timeouts timeout_ms =
     \<lparr>read_interval = of_int timeout_ms, read_multiplier = of_int timeout_ms, read_constant = of_int timeout_ms,
      write_multiplier = 0, write_constant = 0\<rparr>"

definition win_open_com :: "('x, 'w) win_ops \<Rightarrow> u32 \<Rightarrow> string \<Rightarrow> int \<Rightarrow> int \<Rightarrow> 'w \<Rightarrow> com_dev option \<times> 'w" where
  "win_open_com wo dcb_size port baud timeout_ms w =
     (let (h, w1) = wo_create wo (full_port port) w
      in if h = - 1 then (None, w1)
         else
           let dcb0 = \<lparr>dcb_length = dcb_size, dcb_baud_rate = 0, dcb_byte_size = 0, dcb_parity = 0, dcb_stop_bits = 0,
                       dcb_others = wo_zeros wo\<rparr>;
               (dcb, w2) = wo_getstate wo h dcb0 w1;
               w3 = wo_setstate wo h (port_dcb baud dcb) w2;
               w4 = wo_settimeouts wo h (port_timeouts timeout_ms) w3;
               (allocated, w5) = wo_malloc wo w4
           in if \<not> allocated then (None, wo_close wo h w5)
              else (Some \<lparr>dev_fd = h, dev_timeout_ms = timeout_ms\<rparr>, w5))"

definition win_close_com :: "('x, 'w) win_ops \<Rightarrow> com_dev option \<Rightarrow> 'w \<Rightarrow> 'w" where
  "win_close_com wo dev w = (case dev of None \<Rightarrow> w | Some d \<Rightarrow> wo_close wo (dev_fd d) w)"

section \<open>Raw bytes\<close>

text \<open>\<open>(DWORD)len\<close> keeps the low 32 bits of a length.\<close>

definition win_send_raw :: "('x, 'w) win_ops \<Rightarrow> com_dev option \<Rightarrow> bytes \<Rightarrow> ('w, exn, com_err + unit) action" where
  "win_send_raw wo dev buf w =
     (case dev of
        None \<Rightarrow> (Inr (Inl ERR_BAD_ARG), w)
      | Some d \<Rightarrow>
          let ((ok, written), w') = wo_write wo (dev_fd d) (take (unat (of_nat (length buf) :: u32)) buf) w
          in (Inr (if \<not> ok \<or> unat written \<noteq> length buf then Inl ERR_IO else Inr ()), w'))"

function win_recv_loop :: "('x, 'w) win_ops \<Rightarrow> int \<Rightarrow> nat \<Rightarrow> bytes \<Rightarrow> ('w, exn, com_err + bytes) action" where
  "win_recv_loop wo h n acc w =
     (if length acc < n then
        let asked = of_nat (n - length acc) :: u32;
            ((ok, read), w') = wo_read wo h asked w;
            got = take (unat asked) read
        in if \<not> ok then (Inr (Inl ERR_IO), w')
           else if got = [] then (Inr (Inl ERR_TIMEOUT), w')
           else win_recv_loop wo h n (acc @ got) w'
      else (Inr (Inr acc), w))"
  by pat_completeness auto
termination
proof (relation "measure (\<lambda>(wo, h, n, acc, w). n - length acc)", simp)
  fix wo :: "('x, 'w) win_ops" and h :: int and n :: nat and acc :: bytes and w :: 'w
    and asked :: u32 and x and w' :: 'w and y ok read and got :: bytes
  assume "length acc < n" and "got \<noteq> []"
  then show "((wo, h, n, acc @ got, w'), wo, h, n, acc, w) \<in> measure (\<lambda>(wo, h, n, acc, w). n - length acc)"
    by (cases got) simp_all
qed

declare win_recv_loop.simps [simp del]

definition win_recv_raw :: "('x, 'w) win_ops \<Rightarrow> com_dev option \<Rightarrow> nat \<Rightarrow> ('w, exn, com_err + bytes) action" where
  "win_recv_raw wo dev n w =
     (case dev of None \<Rightarrow> (Inr (Inl ERR_BAD_ARG), w) | Some d \<Rightarrow> win_recv_loop wo (dev_fd d) n [] w)"

section \<open>Agreement with the POSIX part\<close>

text \<open>The Win32 calls seen as \<open>write\<close> and \<open>read\<close>; the clock and the sleep are those of the C++ library.\<close>

definition posix_view :: "('x, 'w) win_ops \<Rightarrow> ('w \<Rightarrow> int \<times> 'w) \<Rightarrow> (nat \<Rightarrow> 'w \<Rightarrow> 'w) \<Rightarrow> 'w os" where
  "posix_view wo now sleep =
     \<lparr>os_write = (\<lambda>h buf w. let ((ok, written), w') = wo_write wo h buf w in (if ok then int (unat written) else - 1, w')),
      os_read = (\<lambda>h n w. let ((ok, read), w') = wo_read wo h (of_nat n) w
        in (if ok then Inr (take n read) else Inl (), w')),
      os_now = now, os_sleep_ms = sleep\<rparr>"

lemma unat_of_small: "n < 2 ^ 32 \<Longrightarrow> unat (of_nat n :: u32) = n"
  by (simp add: unat_of_nat take_bit_nat_eq_self)

lemma recv_loops_agree:
  "n < 2 ^ 32 \<Longrightarrow> win_recv_loop wo h n acc w = recv_loop (posix_view wo now sleep) h n acc w"
proof (induction wo h n acc w rule: win_recv_loop.induct)
  case (1 wo h n acc w)
  obtain ok read w' where r: "wo_read wo h (of_nat (n - length acc)) w = ((ok, read), w')" by (metis prod.exhaust)
  let ?got = "take (n - length acc) read"
  have small: "unat (of_nat (n - length acc) :: u32) = n - length acc"
    by (rule unat_of_small) (use 1(2) in simp)
  show ?case
  proof (cases "length acc < n \<and> ok \<and> ?got \<noteq> []")
    case True
    then have "win_recv_loop wo h n (acc @ ?got) w' = recv_loop (posix_view wo now sleep) h n (acc @ ?got) w'"
      using 1(1) [OF _ refl r [symmetric] refl refl] small 1(2) by simp
    then show ?thesis using True r small
      by (subst win_recv_loop.simps, subst recv_loop.simps) (simp add: posix_view_def Let_def)
  next
    case False
    then show ?thesis using r small
      by (subst win_recv_loop.simps, subst recv_loop.simps) (auto simp: posix_view_def Let_def)
  qed
qed

text \<open>
  C39: the two platforms behave alike on the line. For every transfer below four gigabytes, sending and receiving on
  Windows give the result, the bytes and the state of the system that the POSIX part gives over the same calls, on
  success, time-out and failure; so everything proved of the link for any operating system holds on both platforms.
\<close>

theorem platforms_agree:
  assumes "length buf < 2 ^ 32" and "n < 2 ^ 32"
  shows "win_send_raw wo dev buf = com_send_raw (posix_view wo now sleep) dev buf
    \<and> win_recv_raw wo dev n = com_recv_raw (posix_view wo now sleep) dev n"
proof
  show "win_send_raw wo dev buf = com_send_raw (posix_view wo now sleep) dev buf"
    by (rule ext)
      (auto simp: win_send_raw_def com_send_raw_def posix_view_def unat_of_small [OF assms(1)] Let_def split: option.splits prod.splits)
  show "win_recv_raw wo dev n = com_recv_raw (posix_view wo now sleep) dev n"
    by (rule ext) (simp add: win_recv_raw_def com_recv_raw_def recv_loops_agree [OF assms(2)] split: option.split)
qed

text \<open>A line that holds back its bytes: every read gives one byte of those that were written.\<close>

definition echo_ops :: "(unit, bytes) win_ops" where
  "echo_ops =
     \<lparr>wo_create = (\<lambda>_ w. (3, w)), wo_getstate = (\<lambda>_ d w. (d, w)), wo_setstate = (\<lambda>_ _ w. w), wo_settimeouts = (\<lambda>_ _ w. w),
      wo_malloc = (\<lambda>w. (True, w)), wo_close = (\<lambda>_ w. w), wo_write = (\<lambda>_ buf w. ((True, of_nat (length buf)), w @ buf)),
      wo_read = (\<lambda>_ _ w. ((True, take 1 w), drop 1 w)), wo_zeros = ()\<rparr>"

lemma platforms_agree_witness:
  "win_recv_raw echo_ops (Some \<lparr>dev_fd = 3, dev_timeout_ms = 100\<rparr>) 2 [7, 8, 9] = (Inr (Inr [7, 8]), [9])"
proof -
  have "com_recv_raw (posix_view echo_ops (\<lambda>w. (0, w)) (\<lambda>_ w. w)) (Some \<lparr>dev_fd = 3, dev_timeout_ms = 100\<rparr>) 2 [7, 8, 9]
      = (Inr (Inr [7, 8]), [9])"
    by (simp add: com_recv_raw_def recv_loop.simps posix_view_def echo_ops_def)
  then show ?thesis
    using platforms_agree [of "[]" 2 echo_ops "Some \<lparr>dev_fd = 3, dev_timeout_ms = 100\<rparr>" "\<lambda>w. (0, w)" "\<lambda>_ w. w"] by simp
qed

end
