(* ===== verification/TensorElements.thy ===== *)
theory TensorElements
  imports Tensors
begin

text \<open>
  Element access with brackets (\<open>runtime/include/minigpu_buffer.hpp\<close>): \<open>Tensor::operator[]\<close> and the
  \<open>ElementProxy\<close> it returns for a tensor that may be written, which stands for one element until it is read
  or assigned to.
\<close>

record proxy =
  px_owner :: tensor
  px_index :: u64

definition tensor_at :: "tensor \<Rightarrow> u64 \<Rightarrow> ('s, exn, proxy) action" where
  "tensor_at t index = andThen (check_index t index) (\<lambda>_. ret \<lparr>px_owner = t, px_index = index\<rparr>)"

text \<open>\<open>operator=(const T &)\<close>, the conversion \<open>operator T()\<close>, and \<open>operator[]\<close> of a constant tensor.\<close>

definition proxy_set :: "u64 \<Rightarrow> proxy \<Rightarrow> bytes \<Rightarrow> ('d sys, exn, proxy) action" where
  "proxy_set esz p v = andThen (tensor_write esz (px_owner p) (px_index p) v) (\<lambda>_. ret p)"

definition proxy_get :: "u64 \<Rightarrow> proxy \<Rightarrow> ('d sys, exn, bytes) action" where
  "proxy_get esz p = tensor_read esz (px_owner p) (px_index p)"

definition const_at :: "u64 \<Rightarrow> tensor \<Rightarrow> u64 \<Rightarrow> ('d sys, exn, bytes) action" where
  "const_at esz t index = tensor_read esz t index"

text \<open>
  The class declares no assignment from another proxy, so C++ defines one, which copies the two members;
  from a proxy it is the better match than the conversion to an element.
\<close>

definition proxy_assign :: "proxy \<Rightarrow> proxy \<Rightarrow> proxy" where
  "proxy_assign p q = \<lparr>px_owner = px_owner q, px_index = px_index q\<rparr>"

text \<open>The statements \<open>t[i] = v\<close>, \<open>T x = t[i]\<close>, \<open>t[i] = T(t[j])\<close> and \<open>t[i] = t[j]\<close>; the right side goes first.\<close>

definition set_element :: "u64 \<Rightarrow> tensor \<Rightarrow> u64 \<Rightarrow> bytes \<Rightarrow> ('d sys, exn, proxy) action" where
  "set_element esz t i v = andThen (tensor_at t i) (\<lambda>p. proxy_set esz p v)"

definition get_element :: "u64 \<Rightarrow> tensor \<Rightarrow> u64 \<Rightarrow> ('d sys, exn, bytes) action" where
  "get_element esz t i = andThen (tensor_at t i) (proxy_get esz)"

definition copy_element_value :: "u64 \<Rightarrow> tensor \<Rightarrow> u64 \<Rightarrow> u64 \<Rightarrow> ('d sys, exn, proxy) action" where
  "copy_element_value esz t i j = andThen (get_element esz t j) (set_element esz t i)"

definition copy_element :: "tensor \<Rightarrow> u64 \<Rightarrow> u64 \<Rightarrow> ('s, exn, proxy) action" where
  "copy_element t i j = andThen (tensor_at t j) (\<lambda>q. andThen (tensor_at t i) (\<lambda>p. ret (proxy_assign p q)))"

lemma tensor_at_run:
  "tensor_at t i s = (if i < tn_count t then (Inr \<lparr>px_owner = t, px_index = i\<rparr>, s) else (Inl (error OutOfRange), s))"
  by (auto simp: tensor_at_def check_index_def andThen_def)

lemma element_access:
  "get_element esz t i = tensor_read esz t i"
  "set_element esz t i v = andThen (tensor_write esz t i v) (\<lambda>_. ret \<lparr>px_owner = t, px_index = i\<rparr>)"
  by (rule ext, auto simp: get_element_def set_element_def tensor_at_run proxy_get_def proxy_set_def tensor_read_def
      tensor_write_def check_index_def andThen_def)+

lemma element_value:
  assumes "mem_ok c" and "memory_link (ctx_transport c) mem idle limit" "mem_hi c \<le> limit" "idle d" and "tensor_ok esz t c"
    and "k < tn_count t"
  shows "fst (tensor_read esz t k (c, d)) = Inr (load (unat (tensor_addr t) + unat k * unat esz) (unat esz) (mem d))"
  using tensor_read_link [OF assms] by fastforce

lemma element_apart:
  assumes "i \<noteq> j" and "length v = unat esz"
  shows "load (a + unat (j :: u64) * unat (esz :: u64)) (unat esz) (store (a + unat (i :: u64) * unat esz) v m)
    = load (a + unat j * unat esz) (unat esz) m"
proof -
  have "unat j + 1 \<le> unat i \<or> unat i + 1 \<le> unat j" using assms(1) by (fastforce simp: word_unat_eq_iff)
  then have "unat j * unat esz + unat esz \<le> unat i * unat esz \<or> unat i * unat esz + unat esz \<le> unat j * unat esz"
    by (metis add.commute mult_Suc mult_le_mono1 Suc_eq_plus1)
  then show ?thesis using assms(2) load_store_apart by simp
qed

text \<open>
  C40: assigning to an element through brackets. A value is written and read back, and the other elements keep
  theirs; copying an element by way of its value copies it; but assigning one bracketed element to another only
  rebinds the proxy: the statement succeeds, and neither the device nor the context changes.
\<close>

theorem element_assignment:
  assumes ok: "mem_ok c" and link: "memory_link (ctx_transport c) mem idle limit" "mem_hi c \<le> limit" "idle d"
    and t: "tensor_ok esz t c" and ij: "i < tn_count t" "j < tn_count t" and v: "length v = unat esz"
  shows "(\<exists>s. set_element esz t i v (c, d) = (Inr \<lparr>px_owner = t, px_index = i\<rparr>, s)
      \<and> fst (const_at esz t j s) = (if j = i then Inr v else fst (const_at esz t j (c, d))))
    \<and> (\<exists>s. copy_element_value esz t i j (c, d) = (Inr \<lparr>px_owner = t, px_index = i\<rparr>, s)
      \<and> fst (const_at esz t i s) = fst (const_at esz t j (c, d)))
    \<and> (\<exists>p. copy_element t i j (c, d) = (Inr p, (c, d)))"
proof (intro conjI)
  let ?off = "\<lambda>k. unat (tensor_addr t) + unat k * unat esz"
  note at = element_value [OF _ _ _ _ _, of _ mem idle limit]
  note here = at [OF ok link t]
  show "\<exists>p. copy_element t i j (c, d) = (Inr p, (c, d))"
    using ij by (simp add: copy_element_def andThen_def tensor_at_run)
  obtain e y where w: "tensor_write esz t i v (c, d) = (Inr (), (log_event e c, y))" "idle y" "mem y = store (?off i) v (mem d)"
    using tensor_write_link [OF ok link t ij(1) v] by blast
  have "fst (tensor_read esz t j (log_event e c, y)) = Inr (load (?off j) (unat esz) (store (?off i) v (mem d)))"
    using at [of "log_event e c" y esz t j] ok link t ij(2) w(2,3) by simp
  moreover have "load (?off i) (unat esz) (store (?off i) v (mem d)) = v" using v load_store_same by metis
  ultimately show "\<exists>s. set_element esz t i v (c, d) = (Inr \<lparr>px_owner = t, px_index = i\<rparr>, s)
      \<and> fst (const_at esz t j s) = (if j = i then Inr v else fst (const_at esz t j (c, d)))"
    using w(1) here [OF ij(2)] element_apart [OF _ v, of i j "unat (tensor_addr t)" "mem d"]
    by (auto simp: element_access const_at_def andThen_def)
  let ?x = "load (?off j) (unat esz) (mem d)"
  obtain e1 y1 where r: "tensor_read esz t j (c, d) = (Inr ?x, (log_event e1 c, y1))" "idle y1" "mem y1 = mem d"
    using tensor_read_link [OF ok link t ij(2)] by blast
  obtain e2 y2 where w2: "tensor_write esz t i ?x (log_event e1 c, y1) = (Inr (), (log_event e2 (log_event e1 c), y2))"
      "idle y2" "mem y2 = store (?off i) ?x (mem d)"
    using tensor_write_link [of "log_event e1 c" mem idle limit y1 esz t i ?x] ok link t ij(1) r(2,3) by auto
  have "load (?off i) (unat esz) (store (?off i) ?x (mem d)) = ?x" by (metis length_load load_store_same)
  then have "fst (tensor_read esz t i (log_event e2 (log_event e1 c), y2)) = Inr ?x"
    using at [of "log_event e2 (log_event e1 c)" y2 esz t i] ok link t ij(1) w2(2,3) by simp
  then show "\<exists>s. copy_element_value esz t i j (c, d) = (Inr \<lparr>px_owner = t, px_index = i\<rparr>, s)
      \<and> fst (const_at esz t i s) = fst (const_at esz t j (c, d))"
    using r(1) w2(1) here [OF ij(2)] by (simp add: copy_element_value_def element_access const_at_def andThen_def)
qed

lemma element_assignment_witness:
  "let t = \<lparr>tn_buffer = \<lparr>db_context = True, db_addr = 0, db_size = 8\<rparr>, tn_count = 2\<rparr>
   in \<exists>p. copy_element t 0 1 (ram_context, \<lambda>a. of_nat a :: u8) = (Inr p, (ram_context, \<lambda>a. of_nat a))"
  unfolding Let_def
  using element_assignment [OF ram_context_ok(1,2,3), where d = "\<lambda>a. of_nat a" and esz = 4 and i = 0 and j = 1
      and t = "\<lparr>tn_buffer = \<lparr>db_context = True, db_addr = 0, db_size = 8\<rparr>, tn_count = 2\<rparr>" and v = "[5, 6, 7, 8]"]
  by (auto simp: tensor_ok_def tensor_addr_def buffer_addr_def ram_context_ok(5))

end
