(* ===== verification/TorchDevice.thy ===== *)
theory TorchDevice
  imports TorchSession
begin

text \<open>
  What PyTorch asks of the device itself: the device guard and the copy of the allocator
  (\<open>torch_ext/src/ops/tensor.cpp\<close>), the hooks (\<open>torch_ext/src/backend/state.cpp\<close>), the wrappers of
  \<open>torch_ext/src/backend/transport.cpp\<close>, and the host-side transposition of \<open>ops/math.cpp\<close>.
\<close>

section \<open>The device guard\<close>

text \<open>A device is a type and an index; the only stream of a device is its default stream.\<close>

type_synonym device = "device_type \<times> int"

datatype stream = Default_Stream device

definition mini_gpu :: device where
  "mini_gpu = (PrivateUse1, 0)"

definition setDevice :: "device \<Rightarrow> exn + unit" where
  "setDevice device =
     (if fst device \<noteq> PrivateUse1 \<or> snd device > 0
      then Inl (Runtime_error ''Mini-GPU currently only supports device index 0'') else Inr ())"

definition exchangeDevice :: "device \<Rightarrow> exn + device" where
  "exchangeDevice device = bind_ok (setDevice device) (\<lambda>_. Inr mini_gpu)"

definition getDevice :: device where "getDevice = mini_gpu"

definition uncheckedSetDevice :: "device \<Rightarrow> unit" where "uncheckedSetDevice device = ()"

definition getStream :: "device \<Rightarrow> stream" where "getStream device = Default_Stream mini_gpu"

definition getDefaultStream :: "device \<Rightarrow> stream" where "getDefaultStream device = getStream device"

definition getStreamFromGlobalPool :: "device \<Rightarrow> bool \<Rightarrow> stream" where
  "getStreamFromGlobalPool device isHighPriority = getStream device"

definition getNewStream :: "device \<Rightarrow> int \<Rightarrow> stream" where "getNewStream device priority = getStream device"

definition exchangeStream :: "stream \<Rightarrow> stream" where "exchangeStream stream = Default_Stream mini_gpu"

text \<open>
  An event is a pointer: none at all, or a variable that holds null or an address. Recording stores the address
  \<open>completed_event\<close> of a static variable in a variable that holds null.
\<close>

definition record_event :: "u64 \<Rightarrow> u64 option \<Rightarrow> stream \<Rightarrow> int \<Rightarrow> nat \<Rightarrow> u64 option" where
  "record_event completed_event event stream device_index flag =
     (case event of None \<Rightarrow> None | Some p \<Rightarrow> Some (if p = 0 then completed_event else p))"

definition block_event :: "u64 \<Rightarrow> stream \<Rightarrow> unit" where "block_event event stream = ()"

definition queryEvent :: "u64 \<Rightarrow> bool" where "queryEvent event = True"

definition synchronizeEvent :: "u64 \<Rightarrow> unit" where "synchronizeEvent event = ()"

definition synchronizeDevice :: "int \<Rightarrow> unit" where "synchronizeDevice device_index = ()"

definition queryStream :: "stream \<Rightarrow> bool" where "queryStream stream = True"

definition synchronizeStream :: "stream \<Rightarrow> unit" where "synchronizeStream stream = ()"

text \<open>The bits of the double 0.0.\<close>

definition elapsedTime :: "u64 \<Rightarrow> u64 \<Rightarrow> int \<Rightarrow> u64" where "elapsedTime event1 event2 device_index = 0"

section \<open>The hooks\<close>

definition isBuilt :: bool where "isBuilt = True"

definition isAvailable :: "'w backend_state \<Rightarrow> bool" where "isAvailable b \<longleftrightarrow> bs_context b \<noteq> None"

definition getDefaultGenerator :: "'g \<Rightarrow> int \<Rightarrow> 'g" where
  "getDefaultGenerator default_cpu_generator device_index = default_cpu_generator"

definition getDeviceFromPtr :: "u64 \<Rightarrow> device" where "getDeviceFromPtr data = (PrivateUse1, 0)"

definition getPinnedMemoryAllocator :: "'a option" where "getPinnedMemoryAllocator = None"

section \<open>The transport wrappers\<close>

text \<open>\<open>err\<close> is the number of an error of \<open>com.h\<close>; any other number takes the default branch of \<open>status_from_com\<close>.\<close>

definition map_com_status :: "int \<Rightarrow> status" where
  "map_com_status err =
     (case find (\<lambda>e. err_code e = err)
        [COM_OK, ERR_BAD_ARG, ERR_CRC, ERR_NO_SOF, ERR_TIMEOUT, ERR_SHORT, ERR_IO, ERR_PAYLOAD_SIZE, ERR_OPEN, ERR_FPGA]
      of None \<Rightarrow> Transport | Some e \<Rightarrow> status_from_com e)"

definition backend_transport :: "'w os \<Rightarrow> com_dev option \<Rightarrow> 'w transport" where
  "backend_transport os dev = make_gpu_comm_transport os dev default_transport_config"

lemma map_com_status_code: "map_com_status (err_code e) = status_from_com e"
  by (cases e) (simp_all add: map_com_status_def)

section \<open>The allocator's copy\<close>

text \<open>
  \<open>copy_data\<close> reads the device into host memory at the address \<open>dest\<close>; \<open>host\<close> is the memory of the process
  by address.
\<close>

definition copy_data :: "u64 \<Rightarrow> u64 \<Rightarrow> u64 \<Rightarrow> 'd sys \<times> (nat \<Rightarrow> u8) \<Rightarrow> (exn + unit) \<times> 'd sys \<times> (nat \<Rightarrow> u8)" where
  "copy_data dest src count = (\<lambda>(s, host).
     if count = 0 then (Inr (), s, host)
     else (case decode src of
         Inl e \<Rightarrow> (Inl e, s, host)
       | Inr addr \<Rightarrow>
           (case copy_from_device (if dest = 0 then None else Some (load (unat dest) (unat count) host)) addr count s of
              (Inl e, s') \<Rightarrow> (Inl e, s', host)
            | (Inr bs, s') \<Rightarrow> (Inr (), s', store (unat dest) bs host))))"

text \<open>
  Copying one storage of the allocator to another, as PyTorch does when it clones a storage, does not write the
  device. Both pointers are opaque device addresses; the bytes of the source go to the host address that has the
  same number as the opaque pointer of the destination, and the destination on the device keeps its bytes.
\<close>

theorem copy_data_writes_host:
  assumes ok: "mem_ok c" and link: "memory_link (ctx_transport c) mem idle limit" "mem_hi c \<le> limit" "idle d"
    and src: "(p, n) \<in> live (ctx_blocks c)" "p \<le> unat src" "unat src + unat count \<le> p + n"
      "unat src mod 4 = 0" "unat count mod 4 = 0" "count \<noteq> 0"
  shows "\<exists>e d'. copy_data (opaque dest) (opaque src) count ((c, d), host)
      = (Inr (), (log_event e c, d'), store (unat dest + 1) (load (unat src) (unat count) (mem d)) host)
    \<and> mem d' = mem d"
proof -
  have host_addr: "unat (opaque dest) = unat dest + 1"
    using unat_u32_lt [of dest] unfolding opaque_def by (subst unat_add_small) simp_all
  obtain e d' where "copy_from_device (Some (load (unat (opaque dest)) (unat count) host)) src count (c, d)
      = (Inr (load (unat src) (unat count) (mem d)), (log_event e c, d'))" "idle d'" "mem d' = mem d"
    using copy_from_link [OF ok link src(1-6), of "load (unat (opaque dest)) (unat count) host"] by auto
  then show ?thesis using src(6) by (auto simp: copy_data_def host_addr)
qed

lemma copy_data_writes_host_witness:
  "\<exists>s. copy_data (opaque 4) (opaque 0) 4 ((ram_context, \<lambda>a. of_nat a), \<lambda>_. 0)
     = (Inr (), s, store 5 [0, 1, 2, 3] (\<lambda>_. 0))"
proof -
  have "load 0 4 (\<lambda>a. of_nat a :: u8) = [0, 1, 2, 3]" by (simp add: load_def upt_rec)
  then show ?thesis
    using copy_data_writes_host [OF ram_context_ok(1,2,3), where d = "\<lambda>a. of_nat a" and p = 0 and n = 8 and src = 0 and count = 4
        and dest = 4 and host = "\<lambda>_. 0"]
    by (auto simp: ram_context_ok(5))
qed

section \<open>Concrete sizes\<close>

text \<open>A symbolic size is a concrete integer or not; \<open>expect_int\<close> throws for the second.\<close>

fun concrete_sizes :: "int option list \<Rightarrow> exn + int list" where
  "concrete_sizes [] = Inr []"
| "concrete_sizes (d # ds) =
     (case d of None \<Rightarrow> Inl (Runtime_error ''expected a concrete integer'')
      | Some n \<Rightarrow> bind_ok (concrete_sizes ds) (\<lambda>ns. Inr (n # ns)))"

section \<open>Transposing a weight\<close>

text \<open>The two loops: the elements of \<open>host\<close> row by row, each written to its transposed place.\<close>

definition transpose_elements :: "nat \<Rightarrow> nat \<Rightarrow> 'a list \<Rightarrow> 'a list \<Rightarrow> 'a list" where
  "transpose_elements out_features in_features host transposed =
     fold (\<lambda>(row, col) t. t[col * out_features + row := host ! (row * in_features + col)])
       (List.product [0..<out_features] [0..<in_features]) transposed"

definition transpose_weight_to_device :: "torch \<Rightarrow> u64 \<Rightarrow> at_tensor \<Rightarrow> ('d sys, exn, at_tensor) action" where
  "transpose_weight_to_device pt esz weight =
     (let out_features = size_at weight 0; in_features = size_at weight 1; n = nat (numel weight);
          nbytes = of_nat n * esz
      in if n * unat esz \<ge> 2 ^ 63 then throw (Runtime_error ''cannot create std::vector larger than max_size()'')
         else andThen (of_sum (device_address pt weight)) (\<lambda>addr.
           andThen (copy_from_device (Some (replicate (n * unat esz) 0)) addr nbytes) (\<lambda>host.
           with_output (new_tensor pt [in_features, out_features] (at_dtype weight)) (\<lambda>out.
             andThen (of_sum (device_address pt out)) (\<lambda>a.
             copy_to_device a (Some (concat (transpose_elements (nat out_features) (nat in_features)
               (elements_of (unat esz) n host) (replicate n (replicate (unat esz) 0))))) nbytes)))))"

lemma length_fold_updates: "length (fold (\<lambda>p t. t[f p := g p]) ps t) = length t"
  by (induction ps arbitrary: t) auto

lemma fold_updates:
  assumes "distinct ps" and "inj_on f (set ps)" and "p \<in> set ps" and "f p < length t"
  shows "fold (\<lambda>p t. t[f p := g p]) ps t ! f p = g p"
  using assms
proof (induction ps rule: rev_induct)
  case (snoc q ps)
  show ?case
  proof (cases "p = q")
    case True
    then show ?thesis using snoc.prems(4) by (simp add: length_fold_updates)
  next
    case False
    then have "f p \<noteq> f q" using inj_onD [OF snoc.prems(2), of p q] snoc.prems(3) by auto
    then show ?thesis using False snoc by (simp add: inj_on_def)
  qed
qed simp

lemma cell_inj:
  assumes "r < n" "r' < n" "c * n + r = c' * n + (r' :: nat)"
  shows "r = r' \<and> c = c'"
proof -
  have "(c * n + r) div n = c" "(c * n + r) mod n = r" "(c' * n + r') div n = c'" "(c' * n + r') mod n = r'"
    using assms(1,2) by auto
  then show ?thesis using assms(3) by metis
qed

lemma transpose_elements_nth:
  assumes "length transposed = out * inn" and "r < out" and "c < inn"
  shows "transpose_elements out inn host transposed ! (c * out + r) = host ! (r * inn + c)"
proof -
  let ?f = "\<lambda>(row, col). col * out + row" and ?g = "\<lambda>(row, col). host ! (row * inn + col)"
  have split: "(\<lambda>(row, col) t. t[col * out + row := host ! (row * inn + col)]) = (\<lambda>p t. t[?f p := ?g p])"
    by (auto simp: fun_eq_iff)
  have "c * out + r < (c + 1) * out" using assms(2) by simp
  also have "\<dots> \<le> inn * out" by (rule mult_le_mono1) (use assms(3) in simp)
  finally have "?f (r, c) < length transposed" using assms(1) by (simp add: mult.commute)
  moreover have "inj_on ?f (set (List.product [0..<out] [0..<inn]))"
    by (rule inj_onI) (auto dest: cell_inj)
  ultimately have "fold (\<lambda>p t. t[?f p := ?g p]) (List.product [0..<out] [0..<inn]) transposed ! ?f (r, c) = ?g (r, c)"
    by (intro fold_updates) (use assms(2,3) in \<open>simp_all add: distinct_product\<close>)
  then show ?thesis by (simp add: transpose_elements_def split)
qed

end
