(* ===== verification/Spec2Isabelle.thy ===== *)
theory Spec2Isabelle
  imports WaitStatus ConvSpec TorchSession TorchAutograd SerialReceiver PythonPort SerialPrograms TorchDispatch WindowsPort TensorElements TorchDevice
begin

text \<open>
  A verification development for Mini-GPU, a small GPU on an FPGA with a C++ host runtime, a serial
  protocol library in C, a library of device kernels and an extension that makes it a device of PyTorch. The
  development covers the host runtime, the protocol, the device kernels, the extension and the packet receiver of
  the hardware. Paths are under \<open>src/\<close>.

  \<^bold>\<open>The program\<close>

  \<^item> A host program creates a \<open>minigpu::Context\<close> (\<open>runtime/src/minigpu_runtime.cpp\<close>). It owns two block
    lists, one for device memory and one for instruction memory, a cache of resident programs, a registry
    of kernels, and a \<open>Transport\<close>, a record of callbacks to the device.
  \<^item> \<open>DeviceBuffer\<close> and \<open>Tensor<T>\<close> are the owning handles on device memory.
  \<^item> \<open>runtime/src/minigpu_kernels.cpp\<close> reads compiled kernels from files and manifests, registers them, and
    offers one launch function per operation; each ends in \<open>Context::launch_kernel\<close>.
  \<^item> \<open>runtime/src/transports/gpu_comm_transport.cpp\<close> fills in the \<open>Transport\<close> over a serial line; it uses the
    packets and the retry loops of \<open>gpu_comm/src/com.c\<close>.
  \<^item> \<open>runtime/kernels\<close> holds the code the device runs: the float library and the kernels.
  \<^item> \<open>torch_ext/src\<close> is the PyTorch extension: tensors in device memory (\<open>ops/tensor.cpp\<close>), the operators over the
    launch functions (\<open>ops/math.cpp\<close>, \<open>ops/elementwise.cpp\<close>), the process-wide connection (\<open>backend/state.cpp\<close>) and the
    tables and autograd functions that are registered (\<open>registrations\<close>).
  \<^item> \<open>gpu_comm/bindings\<close> gives Python the packet functions and a class that owns a serial port.

  \<^bold>\<open>The theories, in the order they build on each other\<close>

  \<^item> \<open>Prelude\<close>: word types, the state-and-exception combinators (\<open>ret\<close>, \<open>throw\<close>, \<open>andThen\<close>, \<open>check\<close>), number
    rendering, shared lemmas. An action maps a state to a result, \<open>Inl\<close> an exception or \<open>Inr\<close> a value, and
    a state, so what was done before an exception stays done, as in C++.
  \<^item> \<open>Status\<close>, \<open>Context\<close>: the status codes and messages, \<open>Error\<close>, the \<open>Transport\<close>, \<open>Config\<close>,
    \<open>PrecompiledKernel\<close> and \<open>Context\<close> records of \<open>minigpu_runtime.hpp\<close>.
  \<^item> \<open>Blocks\<close>: the block lists. A list is \<open>packed\<close> when its blocks tile the memory with no two free
    neighbours; splitting, claiming, freeing and coalescing keep this.
  \<^item> \<open>Regions\<close>: the interfaces, as locales: a store of disjoint ranges, and an allocator over it. They are
    interpreted on device memory in \<open>DeviceMemory\<close>.
  \<^item> \<open>DeviceMemory\<close>: \<open>device_malloc\<close>, \<open>device_malloc_aligned\<close>, \<open>device_free\<close>, \<open>range_is_allocated\<close> and the
    copies of \<open>Context\<close>, and their specification over any sequence of calls.
  \<^item> \<open>Buffers\<close>, \<open>Tensors\<close>: \<open>DeviceBuffer\<close> with its moves, and \<open>Tensor<T>\<close> over the contract \<open>memory_link\<close>
    that the transport gives to whoever copies.
  \<^item> \<open>Programs\<close>: \<open>write_program\<close>, \<open>write_constants\<close>, the slots of instruction memory, eviction of the least
    recently used program and \<open>ensure_program_loaded\<close>, with the invariant \<open>prog_ok\<close>.
  \<^item> \<open>Launch\<close>: the registry, the constant table and both \<open>launch_kernel\<close> overloads; what they send to the
    device is compared with a plan, for every behaviour of the link.
  \<^item> \<open>KernelFiles\<close>, \<open>KernelLaunch\<close>: \<open>minigpu_kernels.cpp\<close>. A YAML document is a data type and the parser of
    the YAML library is not modelled; the 14 launch functions are.
  \<^item> \<open>Packet\<close>, \<open>ComLink\<close>, \<open>GpuComm\<close>: the packet format, the send and receive loops of \<open>com.c\<close> over a record
    \<open>os\<close> of system calls, and the transport's functions.
  \<^item> \<open>SerialDevice\<close>, \<open>WaitStatus\<close>: hypotheses on the device (\<open>serial_device\<close>: every request is answered as
    the protocol says; \<open>status_device\<close>: status reads return the status word), that the serial transport
    then is the memory the tensors rely on, and what the outcome of waiting means.
  \<^item> \<open>DeviceMath\<close>: \<open>runtime/kernels/include/minigpu_kernel.h\<close> on the bits of 32-bit floats. The float unit is
    a parameter; selections, special values, the order key and the iterations are the header's.
  \<^item> \<open>DeviceLanes\<close>: the lane loop, the lanes of a block as a step relation, and the contracts
    \<open>lane_kernel\<close> and \<open>reading_kernel\<close> under which every schedule has the same result.
  \<^item> \<open>DeviceKernels\<close>, \<open>DeviceConv\<close>, \<open>DeviceReduce\<close>: every kernel of \<open>runtime/kernels/src\<close>, over a record for
    the element arithmetic where the source has a template parameter. \<open>DeviceSpec\<close>, \<open>ConvSpec\<close> and
    \<open>ReduceSpec\<close> hold what they compute.
  \<^item> \<open>ComPort\<close>, \<open>WindowsPort\<close>: opening, configuring and closing the port, over records of the system calls of either
    platform; \<open>WindowsPort\<close> compares the two.
  \<^item> \<open>PythonPort\<close>: the Python class as a store of objects and open ports. \<open>SerialReceiver\<close>: the packet state machine of
    \<open>hardware/rtl/common/serial_packet_rx.v\<close>, clock by clock, against the parser of the host.
  \<^item> \<open>TensorElements\<close>: element access with brackets, its proxies included.
  \<^item> \<open>TorchTensors\<close>, \<open>TorchOps\<close>, \<open>TorchLayers\<close>, \<open>TorchGrad\<close>: the tensors and operators of the extension. PyTorch is the
    record \<open>torch\<close>, a parameter: element sizes, strides, conversions and the CPU operators that are called.
  \<^item> \<open>Keeps\<close>, \<open>Frames\<close>: what the code leaves alone. The functions of the link and the callbacks of the serial transport
    keep whatever the calls of the operating system keep, and the operations of a context reach the device only
    through its transport.
  \<^item> \<open>TorchMemory\<close>: who owns device memory; \<open>neat\<close> actions leave what their result owns and are confined to the
    transport. \<open>TorchSpec\<close>: what views, copies and window arithmetic compute.
  \<^item> \<open>TorchAutograd\<close>, \<open>TorchDispatch\<close>: the autograd functions and the operator tables.
  \<^item> \<open>TorchState\<close>, \<open>TorchSession\<close>, \<open>TorchDevice\<close>: connecting and disconnecting, the states a session reaches when the
    registered operators are called in it, the device guard and the hooks.
  \<^item> \<open>LoadedPrograms\<close>, \<open>LaunchRuns\<close>: the device through a record of views, the laws \<open>runs_programs\<close> and \<open>answers\<close> of a
    transport to it, and the cache as \<open>coherent\<close> with its instruction memory. \<open>Offload\<close>: a matrix product of PyTorch down
    to the words in device memory. \<open>SerialPrograms\<close>: the serial transport keeps these laws over a device that keeps to
    the protocol (the locale \<open>serial_gpu\<close>, interpreted on a simulated device), and the product over the wire.

  \<^bold>\<open>What the theorems show\<close>

  \<^item> Memory: allocations are aligned, in range and disjoint; a live allocation survives any other calls;
    release is exact; releasing everything restores the initial list; handles neither leak nor release
    twice while requests stay in range; copies reach the device only inside one allocation; and tensors read back what was written,
    down to the bytes on the serial line.
  \<^item> Protocol: building and parsing are inverse; a corrupted byte is detected; the transport refines byte
    memory; waiting returns \<open>Ok\<close> only when the device reported done, and with a time limit always returns.
  \<^item> Programs and launches: the invariant of instruction memory, the messages of a launch in order on
    every link behaviour, the arguments word by word, manifests registered all or nothing.
  \<^item> Device: what the elementwise, matrix, linear, convolution, softmax and extreme-value kernels write,
    on any order of the lanes and any set of active lanes, and that they write nothing else; gradients
    are transposes of the forward kernels; pooling stays inside its input; the special values of the
    float functions.
  \<^item> Composition: whatever was launched before, a launch that returns ran the registered program with its own
    arguments; on a device that answers, launches return; the serial transport implements that device; and \<open>torch.mm\<close>
    over it delivers the entries of the product to the host.
  \<^item> The extension: every registered operator accounts for the memory it takes, also when it throws; calls that fit
    a schema give tensors of the computed type; views renumber elements; copies are round trips; while the
    environment's memory size can be read, a session never holds more than its port.
  \<^item> Ports and packets elsewhere: the Python objects own their ports, the Windows and the POSIX code agree, and the
    receiver in hardware accepts exactly the packets that the parser accepts.
  \<^item> Defects: several theorems state behaviour that the code should not have (a payload overflow of the
    packet parser, bytes cleared behind short writes, a leaked slot after a failed upload, convolution
    padding that reads outside the input). They are listed as findings.

  \<^bold>\<open>Bounds and fuel\<close>

  Addresses have 32 bits, sizes 64 bits and packet fields 8 and 16 bits, and wrap as in the source. Loops
  of the host code are structural or have a measure; the poll loop may run for ever and is a
  \<open>partial_function\<close>, so that returning is a theorem. Device indices are exact integers: products of tensor
  sizes stay below $2^{31}$ on a device whose whole memory has 65536 bytes. Retry loops are bounded by the
  constants of the source.

  \<^bold>\<open>Not modelled\<close>

  \<^item> The text format of YAML, the file system, the environment and the behaviour of the operating system: arguments of
    the definitions.
  \<^item> PyTorch and pybind11 themselves: the first is a parameter; of the second the conversion of arguments and the module
    tables are left out.
  \<^item> Rounding of the float unit, and the accuracy of the float functions, which depends on it.
  \<^item> The compiler (Python). What ties a compiled program to its kernel is the hypothesis \<open>runs_matmul\<close>.
  \<^item> The hardware (Verilog) beyond the packet receiver: what the runtime relies on of it is in \<open>serial_device\<close>,
    \<open>status_device\<close> and \<open>serial_gpu\<close>.
  \<^item> Debug output, declarations in headers, demos and tests.
\<close>

end
